(* ===== verification/RR_Prelude.thy ===== *)
theory RR_Prelude
  imports Main "HOL-Library.Word"
begin

text \<open>
  Shared vocabulary of the development: the exceptions the library throws, the result and
  state monads every other theory is written in, the 32-bit \<open>size_t\<close> of the
  Emscripten target, and little-endian numbers.

  Exceptions: a C++ exception is a value \<open>Exn c msg\<close> with the exception class of
  \<open>Error.h\<close> and the message of the \<open>throw\<close>.  Three further values stand for what is not
  a \<open>RobotRaconteurException\<close>: \<open>BadNumericCast\<close> (\<open>boost::numeric_cast\<close> out of range),
  \<open>BadAlloc\<close> (a container or \<open>new[]\<close> that cannot get its memory) and
  \<open>UndefinedBehaviour\<close> (an access outside a buffer, a \<open>back()\<close> of an empty vector, a wrong
  static cast): memory safety of an operation is the theorem that it never returns it.
  \<open>OutOfFuel\<close> is no behaviour of the code, only of the recursion bound of a model.
\<close>

named_theorems reads_rule "how the readers consume an encoding"
named_theorems writes_rule "how the writers produce an encoding"
named_theorems safe_rule "memory safety of the readers"

unbundle bit_operations_syntax

section \<open>Exceptions\<close>

datatype exception_class =
    ConnectionException | ProtocolException | ServiceNotFoundException
  | ObjectNotFoundException | InvalidEndpointException
  | EndpointCommunicationFatalException | NodeNotFoundException | ServiceException
  | MemberNotFoundException | MemberFormatMismatchException | DataTypeMismatchException
  | DataTypeException | DataSerializationException | MessageEntryNotFoundException
  | MessageElementNotFoundException | UnknownException | InvalidOperationException
  | InvalidArgumentException | OperationFailedException | NullValueException
  | InternalErrorException | SystemResourcePermissionDeniedException
  | OutOfSystemResourceException | SystemResourceException | ResourceNotFoundException
  | IOException | BufferLimitViolationException | ServiceDefinitionException
  | OutOfRangeException | KeyNotFoundException | InvalidConfigurationException
  | InvalidStateException | RobotRaconteurRemoteException | RequestTimeoutException
  | ReadOnlyMemberException | WriteOnlyMemberException | NotImplementedException
  | MemberBusyException | ValueNotSetException | AuthenticationException
  | ObjectLockedException | PermissionDeniedException | AbortOperationException
  | OperationAbortedException | StopIterationException | OperationTimeoutException
  | OperationCancelledException

datatype rr_error =
    Exn exception_class string
  | BadNumericCast
  | BadAlloc
  | UndefinedBehaviour string
  | OutOfFuel

section \<open>Results and state\<close>

type_synonym 'a result = "rr_error + 'a"

definition bind_r :: "'a result \<Rightarrow> ('a \<Rightarrow> 'b result) \<Rightarrow> 'b result" where
  "bind_r m k = (case m of Inl e \<Rightarrow> Inl e | Inr x \<Rightarrow> k x)"

lemma bind_r_simps [simp]: "bind_r (Inl e) k = Inl e" "bind_r (Inr x) k = k x"
  by (simp_all add: bind_r_def)

lemma bind_r_Inr [simp]: "bind_r m k = Inr y \<longleftrightarrow> (\<exists>x. m = Inr x \<and> k x = Inr y)"
  by (cases m) auto

lemma bind_r_cong [fundef_cong]:
  "m = m' \<Longrightarrow> (\<And>x. m' = Inr x \<Longrightarrow> k x = k' x) \<Longrightarrow> bind_r m k = bind_r m' k'"
  by (cases m') auto

definition throw_r :: "exception_class \<Rightarrow> string \<Rightarrow> 'a result" where
  "throw_r c msg = Inl (Exn c msg)"

lemma throw_r_Inr [simp]: "throw_r c msg \<noteq> Inr x" "throw_r c msg = Inl e \<longleftrightarrow> e = Exn c msg"
  by (auto simp: throw_r_def)

type_synonym ('s, 'a) sm = "'s \<Rightarrow> rr_error + ('a \<times> 's)"

definition return_s :: "'a \<Rightarrow> ('s, 'a) sm" where
  "return_s x s = Inr (x, s)"

definition bind_s :: "('s, 'a) sm \<Rightarrow> ('a \<Rightarrow> ('s, 'b) sm) \<Rightarrow> ('s, 'b) sm" where
  "bind_s m k s = (case m s of Inl e \<Rightarrow> Inl e | Inr (x, s') \<Rightarrow> k x s')"

definition then_s :: "('s, 'a) sm \<Rightarrow> ('s, 'b) sm \<Rightarrow> ('s, 'b) sm" where
  "then_s m k = bind_s m (\<lambda>_. k)"

definition throw_s :: "exception_class \<Rightarrow> string \<Rightarrow> ('s, 'a) sm" where
  "throw_s c msg s = Inl (Exn c msg)"

definition fail_s :: "rr_error \<Rightarrow> ('s, 'a) sm" where
  "fail_s e s = Inl e"

definition lift_s :: "'a result \<Rightarrow> ('s, 'a) sm" where
  "lift_s m s = (case m of Inl e \<Rightarrow> Inl e | Inr x \<Rightarrow> Inr (x, s))"

text \<open>\<open>if (c) { m }\<close>: nothing happens when the condition is false.\<close>

definition when_s :: "bool \<Rightarrow> ('s, unit) sm \<Rightarrow> ('s, unit) sm" where
  "when_s c m = (if c then m else return_s ())"

text \<open>\<open>if (c) { x = m }\<close>: the variable keeps its old value \<open>d\<close> otherwise.\<close>

definition set_when :: "bool \<Rightarrow> ('s, 'a) sm \<Rightarrow> 'a \<Rightarrow> ('s, 'a) sm" where
  "set_when c m d = (if c then m else return_s d)"

text \<open>\<open>for (i = 0; i < n; i++) v.push_back(m)\<close>.\<close>

fun repeat_s :: "nat \<Rightarrow> ('s, 'a) sm \<Rightarrow> ('s, 'a list) sm" where
  "repeat_s 0 m = return_s []"
| "repeat_s (Suc n) m = bind_s m (\<lambda>x. bind_s (repeat_s n m) (\<lambda>xs. return_s (x # xs)))"

text \<open>\<open>for (e : v) m(e)\<close>, keeping what each call leaves of its element.\<close>

primrec for_s :: "('a \<Rightarrow> ('s, 'b) sm) \<Rightarrow> 'a list \<Rightarrow> ('s, 'b list) sm" where
  "for_s m [] = return_s []"
| "for_s m (x # xs) = bind_s (m x) (\<lambda>y. bind_s (for_s m xs) (\<lambda>ys. return_s (y # ys)))"

lemma sm_simps [simp]:
  "return_s x s = Inr (x, s)"
  "throw_s c msg s = Inl (Exn c msg)"
  "fail_s e s = Inl e"
  "lift_s (Inr x) s = Inr (x, s)"
  "lift_s (Inl e) s = Inl e"
  "when_s True m' = m'" "when_s False m' = return_s ()"
  "set_when True m d = m" "set_when False m d = return_s d"
  by (simp_all add: return_s_def throw_s_def fail_s_def lift_s_def when_s_def set_when_def)

lemma bind_s_Inr [simp]: "m s = Inr (x, s') \<Longrightarrow> bind_s m k s = k x s'"
  by (simp add: bind_s_def)

lemma bind_s_Inl [simp]: "m s = Inl e \<Longrightarrow> bind_s m k s = Inl e"
  by (simp add: bind_s_def)

lemma then_s_Inr [simp]: "m s = Inr (x, s') \<Longrightarrow> then_s m k s = k s'"
  by (simp add: then_s_def)

lemma then_s_Inl [simp]: "m s = Inl e \<Longrightarrow> then_s m k s = Inl e"
  by (simp add: then_s_def)

lemma bind_s_return [simp]: "bind_s (return_s x) k = k x"
  by (rule ext) simp

lemma bind_s_lift_Inr [simp]: "bind_s (lift_s (Inr x)) k = k x"
  by (rule ext) simp

lemma then_s_return [simp]: "then_s (return_s x) k = k"
  by (rule ext) simp

lemma lift_s_Inr [simp]: "lift_s m s = Inr (x, s') \<longleftrightarrow> m = Inr x \<and> s' = s"
  by (cases m) (auto simp: lift_s_def)

lemma bind_s_assoc: "bind_s (bind_s m k) h = bind_s m (\<lambda>x. bind_s (k x) h)"
  by (rule ext) (auto simp: bind_s_def split: sum.splits)

lemma bind_s_InrD:
  "bind_s m k s = Inr (y, s'') \<Longrightarrow> \<exists>x s'. m s = Inr (x, s') \<and> k x s' = Inr (y, s'')"
  by (auto simp: bind_s_def split: sum.splits)

section \<open>The 32-bit size type\<close>

text \<open>
  The library is compiled for WebAssembly, where \<open>size_t\<close> has 32 bits.  A \<open>size_t\<close> is a
  natural number below \<open>2 ^ 32\<close>, and its addition and multiplication wrap around.
\<close>

definition size_add :: "nat \<Rightarrow> nat \<Rightarrow> nat" where
  "size_add a b = (a + b) mod 2 ^ 32"

definition size_mul :: "nat \<Rightarrow> nat \<Rightarrow> nat" where
  "size_mul a b = (a * b) mod 2 ^ 32"

lemma size_add_small [simp]: "a + b < 4294967296 \<Longrightarrow> size_add a b = a + b"
  by (simp add: size_add_def)

lemma size_mul_small [simp]: "a * b < 4294967296 \<Longrightarrow> size_mul a b = a * b"
  by (simp add: size_mul_def)

lemma size_add_less [simp]: "size_add a b < 4294967296"
  by (simp add: size_add_def)

lemma size_mul_less [simp]: "size_mul a b < 4294967296"
  by (simp add: size_mul_def)

text \<open>\<open>boost::numeric_cast\<close> to the unsigned types and to \<open>int32_t\<close>, from a non-negative value.\<close>

definition numeric_cast_u16 :: "nat \<Rightarrow> 16 word result" where
  "numeric_cast_u16 n = (if n < 2 ^ 16 then Inr (of_nat n) else Inl BadNumericCast)"

definition numeric_cast_u32 :: "nat \<Rightarrow> 32 word result" where
  "numeric_cast_u32 n = (if n < 2 ^ 32 then Inr (of_nat n) else Inl BadNumericCast)"

definition numeric_cast_i32 :: "nat \<Rightarrow> int result" where
  "numeric_cast_i32 n = (if n < 2 ^ 31 then Inr (int n) else Inl BadNumericCast)"

lemma numeric_cast_small [simp]:
  "n < 65536 \<Longrightarrow> numeric_cast_u16 n = Inr (of_nat n)"
  "n < 4294967296 \<Longrightarrow> numeric_cast_u32 n = Inr (of_nat n)"
  "n < 2147483648 \<Longrightarrow> numeric_cast_i32 n = Inr (int n)"
  by (simp_all add: numeric_cast_u16_def numeric_cast_u32_def numeric_cast_i32_def)

lemma numeric_cast_Inr:
  "numeric_cast_u16 n = Inr v \<longleftrightarrow> n < 65536 \<and> v = of_nat n"
  "numeric_cast_u32 n = Inr v' \<longleftrightarrow> n < 4294967296 \<and> v' = of_nat n"
  by (auto simp: numeric_cast_u16_def numeric_cast_u32_def)

lemma unat_of_nat_u16 [simp]: "n < 65536 \<Longrightarrow> unat (of_nat n :: 16 word) = n"
  by (simp add: unat_of_nat)

lemma unat_of_nat_u32 [simp]: "n < 4294967296 \<Longrightarrow> unat (of_nat n :: 32 word) = n"
  by (simp add: unat_of_nat)

lemma unat_u8_less [simp]: "unat (b :: 8 word) < 256"
  using unsigned_less [of b, where ?'a = nat] by simp

lemma unat_u16_less [simp]: "unat (b :: 16 word) < 65536"
  using unsigned_less [of b, where ?'a = nat] by simp

lemma unat_u32_less [simp]: "unat (b :: 32 word) < 4294967296"
  using unsigned_less [of b, where ?'a = nat] by simp

section \<open>Little-endian numbers\<close>

type_synonym byte = "8 word"

fun le_bytes :: "nat \<Rightarrow> nat \<Rightarrow> byte list" where
  "le_bytes 0 n = []"
| "le_bytes (Suc k) n = of_nat (n mod 256) # le_bytes k (n div 256)"

fun le_nat :: "byte list \<Rightarrow> nat" where
  "le_nat [] = 0"
| "le_nat (b # bs) = unat b + 256 * le_nat bs"

lemma length_le_bytes [simp]: "length (le_bytes k n) = k"
  by (induction k arbitrary: n) auto

lemma unat_of_nat_byte [simp]: "n < 256 \<Longrightarrow> unat (of_nat n :: byte) = n"
  by (simp add: unat_of_nat)

lemma le_nat_le_bytes: "n < 256 ^ k \<Longrightarrow> le_nat (le_bytes k n) = n"
proof (induction k arbitrary: n)
  case 0
  then show ?case by simp
next
  case (Suc k)
  then have "n div 256 < 256 ^ k"
    by (simp add: less_mult_imp_div_less mult.commute)
  with Suc.IH show ?case by simp
qed

lemma le_bytes_le_nat: "le_bytes (length bs) (le_nat bs) = bs"
  by (induction bs) (auto simp: unat_u8_less)

lemma le_nat_less: "le_nat bs < 256 ^ length bs"
proof (induction bs)
  case Nil
  then show ?case by simp
next
  case (Cons b bs)
  have "unat b < 256" by (rule unat_u8_less)
  moreover have "256 * le_nat bs + 256 \<le> 256 * 256 ^ length bs"
    using Cons.IH by (metis Suc_leI mult_Suc_right mult_le_mono2 add.commute)
  ultimately have "unat b + 256 * le_nat bs < 256 * 256 ^ length bs" by linarith
  then show ?case by simp
qed

section \<open>Characters and bytes\<close>

text \<open>A \<open>std::string\<close> is a list of \<open>char\<close>; in a buffer each character is one byte.\<close>

definition bytes_of_string :: "string \<Rightarrow> byte list" where
  "bytes_of_string s = map (\<lambda>c. of_nat (of_char c)) s"

definition string_of_bytes :: "byte list \<Rightarrow> string" where
  "string_of_bytes bs = map (\<lambda>b. char_of (unat b)) bs"

lemma length_bytes_of_string [simp]: "length (bytes_of_string s) = length s"
  by (simp add: bytes_of_string_def)

lemma length_string_of_bytes [simp]: "length (string_of_bytes bs) = length bs"
  by (simp add: string_of_bytes_def)

lemma string_of_bytes_of_string [simp]: "string_of_bytes (bytes_of_string s) = s"
  by (induction s) (auto simp: string_of_bytes_def bytes_of_string_def)

lemma bytes_of_string_of_bytes [simp]: "bytes_of_string (string_of_bytes bs) = bs"
  by (induction bs) (auto simp: string_of_bytes_def bytes_of_string_def)

section \<open>Flags\<close>

definition flag_set :: "byte \<Rightarrow> byte \<Rightarrow> bool" where
  "flag_set f m \<longleftrightarrow> f AND m \<noteq> 0"

definition set_flag :: "byte \<Rightarrow> byte \<Rightarrow> bool \<Rightarrow> byte" where
  "set_flag f m c = (if c then f OR m else f AND NOT m)"

end
