(* ===== verification/RR_DataTypes.thy ===== *)
theory RR_DataTypes
  imports RR_Prelude
begin

text \<open>
  The type codes of \<open>RobotRaconteurConstants.h\<close>, the functions of \<open>DataTypes.cpp\<close> over
  them, and the arrays (\<open>RRArray<T>\<close> of \<open>DataTypes.h\<close>) a message element carries.
  \<open>DataTypes_unknown\<close> is an enum object that holds a code with no enumerator, which the
  readers' \<open>static_cast\<close> produces.
\<close>

section \<open>Type codes\<close>

datatype DataTypes =
    DataTypes_void_t | DataTypes_double_t | DataTypes_single_t | DataTypes_int8_t
  | DataTypes_uint8_t | DataTypes_int16_t | DataTypes_uint16_t | DataTypes_int32_t
  | DataTypes_uint32_t | DataTypes_int64_t | DataTypes_uint64_t | DataTypes_string_t
  | DataTypes_cdouble_t | DataTypes_csingle_t | DataTypes_bool_t
  | DataTypes_structure_t | DataTypes_vector_t | DataTypes_dictionary_t
  | DataTypes_object_t | DataTypes_varvalue_t | DataTypes_varobject_t
  | DataTypes_list_t | DataTypes_pod_t | DataTypes_pod_array_t
  | DataTypes_pod_multidimarray_t | DataTypes_enum_t | DataTypes_namedtype_t
  | DataTypes_namedarray_t | DataTypes_namedarray_array_t
  | DataTypes_namedarray_multidimarray_t | DataTypes_multidimarray_t
  | DataTypes_unknown "16 word"

fun DataTypes_code :: "DataTypes \<Rightarrow> 16 word" where
  "DataTypes_code DataTypes_void_t = 0"
| "DataTypes_code DataTypes_double_t = 1"
| "DataTypes_code DataTypes_single_t = 2"
| "DataTypes_code DataTypes_int8_t = 3"
| "DataTypes_code DataTypes_uint8_t = 4"
| "DataTypes_code DataTypes_int16_t = 5"
| "DataTypes_code DataTypes_uint16_t = 6"
| "DataTypes_code DataTypes_int32_t = 7"
| "DataTypes_code DataTypes_uint32_t = 8"
| "DataTypes_code DataTypes_int64_t = 9"
| "DataTypes_code DataTypes_uint64_t = 10"
| "DataTypes_code DataTypes_string_t = 11"
| "DataTypes_code DataTypes_cdouble_t = 12"
| "DataTypes_code DataTypes_csingle_t = 13"
| "DataTypes_code DataTypes_bool_t = 14"
| "DataTypes_code DataTypes_structure_t = 101"
| "DataTypes_code DataTypes_vector_t = 102"
| "DataTypes_code DataTypes_dictionary_t = 103"
| "DataTypes_code DataTypes_object_t = 104"
| "DataTypes_code DataTypes_varvalue_t = 105"
| "DataTypes_code DataTypes_varobject_t = 106"
| "DataTypes_code DataTypes_list_t = 108"
| "DataTypes_code DataTypes_pod_t = 109"
| "DataTypes_code DataTypes_pod_array_t = 110"
| "DataTypes_code DataTypes_pod_multidimarray_t = 111"
| "DataTypes_code DataTypes_enum_t = 112"
| "DataTypes_code DataTypes_namedtype_t = 113"
| "DataTypes_code DataTypes_namedarray_t = 114"
| "DataTypes_code DataTypes_namedarray_array_t = 115"
| "DataTypes_code DataTypes_namedarray_multidimarray_t = 116"
| "DataTypes_code DataTypes_multidimarray_t = 117"
| "DataTypes_code (DataTypes_unknown c) = c"

text \<open>The enumerators in the order of the enum, and the cast from a number.\<close>

definition all_DataTypes :: "DataTypes list" where
  "all_DataTypes =
    [DataTypes_void_t, DataTypes_double_t, DataTypes_single_t, DataTypes_int8_t,
     DataTypes_uint8_t, DataTypes_int16_t, DataTypes_uint16_t, DataTypes_int32_t,
     DataTypes_uint32_t, DataTypes_int64_t, DataTypes_uint64_t, DataTypes_string_t,
     DataTypes_cdouble_t, DataTypes_csingle_t, DataTypes_bool_t,
     DataTypes_structure_t, DataTypes_vector_t, DataTypes_dictionary_t,
     DataTypes_object_t, DataTypes_varvalue_t, DataTypes_varobject_t,
     DataTypes_list_t, DataTypes_pod_t, DataTypes_pod_array_t,
     DataTypes_pod_multidimarray_t, DataTypes_enum_t, DataTypes_namedtype_t,
     DataTypes_namedarray_t, DataTypes_namedarray_array_t,
     DataTypes_namedarray_multidimarray_t, DataTypes_multidimarray_t]"

definition DataTypes_of_code :: "16 word \<Rightarrow> DataTypes" where
  "DataTypes_of_code c =
     (case find (\<lambda>t. DataTypes_code t = c) all_DataTypes of
        Some t \<Rightarrow> t | None \<Rightarrow> DataTypes_unknown c)"

text \<open>A value the enum really has: no enumerator's code hides under \<open>DataTypes_unknown\<close>.\<close>

definition proper_type :: "DataTypes \<Rightarrow> bool" where
  "proper_type t \<longleftrightarrow> DataTypes_of_code (DataTypes_code t) = t"

lemma proper_enumerators: "list_all proper_type all_DataTypes"
  by code_simp

lemma proper_type_enumerator: "t \<in> set all_DataTypes \<Longrightarrow> proper_type t"
  using proper_enumerators by (simp add: list_all_iff)

fun IsTypeNumeric :: "DataTypes \<Rightarrow> bool" where
  "IsTypeNumeric DataTypes_double_t = True"
| "IsTypeNumeric DataTypes_single_t = True"
| "IsTypeNumeric DataTypes_int8_t = True"
| "IsTypeNumeric DataTypes_uint8_t = True"
| "IsTypeNumeric DataTypes_int16_t = True"
| "IsTypeNumeric DataTypes_uint16_t = True"
| "IsTypeNumeric DataTypes_int32_t = True"
| "IsTypeNumeric DataTypes_uint32_t = True"
| "IsTypeNumeric DataTypes_int64_t = True"
| "IsTypeNumeric DataTypes_uint64_t = True"
| "IsTypeNumeric DataTypes_cdouble_t = True"
| "IsTypeNumeric DataTypes_csingle_t = True"
| "IsTypeNumeric DataTypes_bool_t = True"
| "IsTypeNumeric _ = False"

fun IsTypeRRArray :: "DataTypes \<Rightarrow> bool" where
  "IsTypeRRArray DataTypes_double_t = True"
| "IsTypeRRArray DataTypes_single_t = True"
| "IsTypeRRArray DataTypes_int8_t = True"
| "IsTypeRRArray DataTypes_uint8_t = True"
| "IsTypeRRArray DataTypes_int16_t = True"
| "IsTypeRRArray DataTypes_uint16_t = True"
| "IsTypeRRArray DataTypes_int32_t = True"
| "IsTypeRRArray DataTypes_uint32_t = True"
| "IsTypeRRArray DataTypes_int64_t = True"
| "IsTypeRRArray DataTypes_uint64_t = True"
| "IsTypeRRArray DataTypes_string_t = True"
| "IsTypeRRArray DataTypes_cdouble_t = True"
| "IsTypeRRArray DataTypes_csingle_t = True"
| "IsTypeRRArray DataTypes_bool_t = True"
| "IsTypeRRArray _ = False"

text \<open>
  The second group of case labels that every \<open>switch (ElementType)\<close> of \<open>Message.cpp\<close> has:
  the types whose data is a \<open>MessageElementNestedElementList\<close>.
\<close>

fun is_nested_type :: "DataTypes \<Rightarrow> bool" where
  "is_nested_type DataTypes_structure_t = True"
| "is_nested_type DataTypes_vector_t = True"
| "is_nested_type DataTypes_dictionary_t = True"
| "is_nested_type DataTypes_multidimarray_t = True"
| "is_nested_type DataTypes_list_t = True"
| "is_nested_type DataTypes_pod_t = True"
| "is_nested_type DataTypes_pod_array_t = True"
| "is_nested_type DataTypes_pod_multidimarray_t = True"
| "is_nested_type DataTypes_namedarray_array_t = True"
| "is_nested_type DataTypes_namedarray_multidimarray_t = True"
| "is_nested_type _ = False"

text \<open>The three-way \<open>switch\<close> itself: void, array, nested, or the default branch.\<close>

datatype type_group = Group_void | Group_array | Group_nested | Group_default

definition type_group :: "DataTypes \<Rightarrow> type_group" where
  "type_group t =
     (if t = DataTypes_void_t then Group_void
      else if IsTypeRRArray t then Group_array
      else if is_nested_type t then Group_nested
      else Group_default)"

fun RRArrayElementSize :: "DataTypes \<Rightarrow> nat result" where
  "RRArrayElementSize DataTypes_double_t = Inr 8"
| "RRArrayElementSize DataTypes_single_t = Inr 4"
| "RRArrayElementSize DataTypes_int8_t = Inr 1"
| "RRArrayElementSize DataTypes_uint8_t = Inr 1"
| "RRArrayElementSize DataTypes_int16_t = Inr 2"
| "RRArrayElementSize DataTypes_uint16_t = Inr 2"
| "RRArrayElementSize DataTypes_int32_t = Inr 4"
| "RRArrayElementSize DataTypes_uint32_t = Inr 4"
| "RRArrayElementSize DataTypes_int64_t = Inr 8"
| "RRArrayElementSize DataTypes_uint64_t = Inr 8"
| "RRArrayElementSize DataTypes_string_t = Inr 1"
| "RRArrayElementSize DataTypes_cdouble_t = Inr 16"
| "RRArrayElementSize DataTypes_csingle_t = Inr 8"
| "RRArrayElementSize DataTypes_bool_t = Inr 1"
| "RRArrayElementSize _ = throw_r DataTypeException ''Invalid data type''"

fun GetRRDataTypeString :: "DataTypes \<Rightarrow> string result" where
  "GetRRDataTypeString DataTypes_void_t = Inr ''void''"
| "GetRRDataTypeString DataTypes_double_t = Inr ''double''"
| "GetRRDataTypeString DataTypes_single_t = Inr ''single''"
| "GetRRDataTypeString DataTypes_int8_t = Inr ''int8''"
| "GetRRDataTypeString DataTypes_uint8_t = Inr ''uint8''"
| "GetRRDataTypeString DataTypes_int16_t = Inr ''int16''"
| "GetRRDataTypeString DataTypes_uint16_t = Inr ''uint16''"
| "GetRRDataTypeString DataTypes_int32_t = Inr ''int32''"
| "GetRRDataTypeString DataTypes_uint32_t = Inr ''uint32''"
| "GetRRDataTypeString DataTypes_int64_t = Inr ''int64''"
| "GetRRDataTypeString DataTypes_uint64_t = Inr ''uint64''"
| "GetRRDataTypeString DataTypes_string_t = Inr ''string''"
| "GetRRDataTypeString DataTypes_cdouble_t = Inr ''cdouble''"
| "GetRRDataTypeString DataTypes_csingle_t = Inr ''csingle''"
| "GetRRDataTypeString DataTypes_bool_t = Inr ''bool''"
| "GetRRDataTypeString _ = throw_r DataTypeException ''Invalid data type''"

text \<open>
  The \<open>switch\<close> of \<open>RRBaseArray::RRType\<close> over the type code: the same names in
  \<open>RobotRaconteur.RRArray<...>\<close>, but \<open>char\<close> for \<open>DataTypes_string_t\<close> and no case for void.
\<close>

definition RRArray_RRType :: "DataTypes \<Rightarrow> string result" where
  "RRArray_RRType t =
     (if t = DataTypes_string_t then Inr ''RobotRaconteur.RRArray<char>''
      else if IsTypeRRArray t
      then bind_r (GetRRDataTypeString t) (\<lambda>n. Inr (''RobotRaconteur.RRArray<'' @ n @ ''>''))
      else throw_r DataTypeException ''Invalid data type'')"

section \<open>Arrays\<close>

text \<open>
  \<open>RRArray<T>\<close> for the fourteen element types; floating point numbers and signed integers
  are kept as their bit patterns, which is all that serialisation moves.
\<close>

datatype rr_array =
    RRArray_double "64 word list"
  | RRArray_single "32 word list"
  | RRArray_int8 "8 word list"
  | RRArray_uint8 "8 word list"
  | RRArray_int16 "16 word list"
  | RRArray_uint16 "16 word list"
  | RRArray_int32 "32 word list"
  | RRArray_uint32 "32 word list"
  | RRArray_int64 "64 word list"
  | RRArray_uint64 "64 word list"
  | RRArray_char string
  | RRArray_cdouble "(64 word \<times> 64 word) list"
  | RRArray_csingle "(32 word \<times> 32 word) list"
  | RRArray_bool "8 word list"

fun array_type :: "rr_array \<Rightarrow> DataTypes" where
  "array_type (RRArray_double _) = DataTypes_double_t"
| "array_type (RRArray_single _) = DataTypes_single_t"
| "array_type (RRArray_int8 _) = DataTypes_int8_t"
| "array_type (RRArray_uint8 _) = DataTypes_uint8_t"
| "array_type (RRArray_int16 _) = DataTypes_int16_t"
| "array_type (RRArray_uint16 _) = DataTypes_uint16_t"
| "array_type (RRArray_int32 _) = DataTypes_int32_t"
| "array_type (RRArray_uint32 _) = DataTypes_uint32_t"
| "array_type (RRArray_int64 _) = DataTypes_int64_t"
| "array_type (RRArray_uint64 _) = DataTypes_uint64_t"
| "array_type (RRArray_char _) = DataTypes_string_t"
| "array_type (RRArray_cdouble _) = DataTypes_cdouble_t"
| "array_type (RRArray_csingle _) = DataTypes_csingle_t"
| "array_type (RRArray_bool _) = DataTypes_bool_t"

fun array_size :: "rr_array \<Rightarrow> nat" where
  "array_size (RRArray_double xs) = length xs"
| "array_size (RRArray_single xs) = length xs"
| "array_size (RRArray_int8 xs) = length xs"
| "array_size (RRArray_uint8 xs) = length xs"
| "array_size (RRArray_int16 xs) = length xs"
| "array_size (RRArray_uint16 xs) = length xs"
| "array_size (RRArray_int32 xs) = length xs"
| "array_size (RRArray_uint32 xs) = length xs"
| "array_size (RRArray_int64 xs) = length xs"
| "array_size (RRArray_uint64 xs) = length xs"
| "array_size (RRArray_char xs) = length xs"
| "array_size (RRArray_cdouble xs) = length xs"
| "array_size (RRArray_csingle xs) = length xs"
| "array_size (RRArray_bool xs) = length xs"

text \<open>
  \<open>new T[length]\<close> leaves the elements uninitialised; the model fills them with zeros, and
  every caller here overwrites them before they are read.
\<close>

fun AllocateRRArrayByType :: "DataTypes \<Rightarrow> nat \<Rightarrow> rr_array result" where
  "AllocateRRArrayByType DataTypes_double_t n = Inr (RRArray_double (replicate n 0))"
| "AllocateRRArrayByType DataTypes_single_t n = Inr (RRArray_single (replicate n 0))"
| "AllocateRRArrayByType DataTypes_int8_t n = Inr (RRArray_int8 (replicate n 0))"
| "AllocateRRArrayByType DataTypes_uint8_t n = Inr (RRArray_uint8 (replicate n 0))"
| "AllocateRRArrayByType DataTypes_int16_t n = Inr (RRArray_int16 (replicate n 0))"
| "AllocateRRArrayByType DataTypes_uint16_t n = Inr (RRArray_uint16 (replicate n 0))"
| "AllocateRRArrayByType DataTypes_int32_t n = Inr (RRArray_int32 (replicate n 0))"
| "AllocateRRArrayByType DataTypes_uint32_t n = Inr (RRArray_uint32 (replicate n 0))"
| "AllocateRRArrayByType DataTypes_int64_t n = Inr (RRArray_int64 (replicate n 0))"
| "AllocateRRArrayByType DataTypes_uint64_t n = Inr (RRArray_uint64 (replicate n 0))"
| "AllocateRRArrayByType DataTypes_string_t n = Inr (RRArray_char (replicate n (CHR 0x00)))"
| "AllocateRRArrayByType DataTypes_cdouble_t n = Inr (RRArray_cdouble (replicate n (0, 0)))"
| "AllocateRRArrayByType DataTypes_csingle_t n = Inr (RRArray_csingle (replicate n (0, 0)))"
| "AllocateRRArrayByType DataTypes_bool_t n = Inr (RRArray_bool (replicate n 0))"
| "AllocateRRArrayByType _ n = throw_r DataTypeException ''Invalid data type''"

text \<open>A character array and back (\<open>stringToRRArray\<close>, \<open>RRArrayToString\<close>; \<open>None\<close> is a null pointer).\<close>

definition stringToRRArray :: "string \<Rightarrow> rr_array" where
  "stringToRRArray s = RRArray_char s"

definition RRArrayToString :: "string option \<Rightarrow> string result" where
  "RRArrayToString arr =
     (case arr of None \<Rightarrow> throw_r DataTypeException ''Null pointer'' | Some s \<Rightarrow> Inr s)"

section \<open>Facts\<close>

lemma type_group_array: "type_group t = Group_array \<longleftrightarrow> IsTypeRRArray t"
  by (cases t) (auto simp: type_group_def)

lemma type_group_nested: "type_group t = Group_nested \<longleftrightarrow> is_nested_type t"
  by (cases t) (auto simp: type_group_def)

lemma type_group_array_type [simp]: "type_group (array_type a) = Group_array"
  by (cases a) (auto simp: type_group_def)

lemma array_type_not [simp]:
  "array_type a \<noteq> DataTypes_void_t" "DataTypes_void_t \<noteq> array_type a"
  "\<not> is_nested_type (array_type a)"
  by (cases a; simp)+

lemma type_group_void: "type_group t = Group_void \<longleftrightarrow> t = DataTypes_void_t"
  by (auto simp: type_group_def)

lemma RRArrayElementSize_defined:
  "IsTypeRRArray t \<Longrightarrow> \<exists>s. RRArrayElementSize t = Inr s \<and> 1 \<le> s \<and> s \<le> 16"
  by (cases t) auto

lemma AllocateRRArrayByType_defined:
  "IsTypeRRArray t \<Longrightarrow>
   \<exists>a. AllocateRRArrayByType t n = Inr a \<and> array_type a = t \<and> array_size a = n"
  by (cases t) auto

lemma proper_array_type [simp]: "proper_type (array_type a)"
  by (cases a) (auto intro!: proper_type_enumerator simp: all_DataTypes_def)

lemma proper_nested_type [simp]: "is_nested_type t \<Longrightarrow> proper_type t"
  by (cases t) (auto intro!: proper_type_enumerator simp: all_DataTypes_def)

lemma proper_void [simp]: "proper_type DataTypes_void_t"
  by (auto intro!: proper_type_enumerator simp: all_DataTypes_def)

lemma DataTypes_of_code_code [simp]: "proper_type t \<Longrightarrow> DataTypes_of_code (DataTypes_code t) = t"
  by (simp add: proper_type_def)

end
