(* ===== verification/RR_IOUtils.thy ===== *)
theory RR_IOUtils
  imports RR_DataTypes
begin

text \<open>
  \<open>ArrayBinaryReader\<close> and \<open>ArrayBinaryWriter\<close> of \<open>IOUtils.cpp\<close>: a byte buffer, a position and
  a stack of limits.  The buffer is the memory the object may touch; a \<open>memcpy\<close> that leaves
  it is \<open>UndefinedBehaviour\<close>.  The head of the list of limits is \<open>limits.back()\<close>.
  The big-endian branches are compiled out on the little-endian target.
\<close>

section \<open>Reader\<close>

record reader =
  r_buffer :: "byte list"
  r_length :: nat
  r_position :: nat
  r_limits :: "nat list"

definition ArrayBinaryReader :: "byte list \<Rightarrow> nat \<Rightarrow> nat \<Rightarrow> reader" where
  "ArrayBinaryReader buffer start_position len =
     \<lparr>r_buffer = buffer, r_length = len, r_position = start_position, r_limits = [len]\<rparr>"

type_synonym 'a reads = "(reader, 'a) sm"

definition CurrentLimit_r :: "nat reads" where
  "CurrentLimit_r r =
     (case r_limits r of
        [] \<Rightarrow> Inl (UndefinedBehaviour ''back() of an empty vector'')
      | l # _ \<Rightarrow> Inr (l, r))"

definition Position_r :: "nat reads" where
  "Position_r r = Inr (r_position r, r)"

definition Seek_r :: "nat \<Rightarrow> unit reads" where
  "Seek_r pos =
     bind_s CurrentLimit_r (\<lambda>lim r.
       if \<not> pos \<le> lim then Inl (Exn BufferLimitViolationException ''Range outside of buffer'')
       else Inr ((), r\<lparr>r_position := pos\<rparr>))"

definition memcpy_r :: "nat \<Rightarrow> byte list reads" where
  "memcpy_r n r =
     (if r_position r + n \<le> length (r_buffer r)
      then Inr (take n (drop (r_position r) (r_buffer r)),
                r\<lparr>r_position := size_add (r_position r) n\<rparr>)
      else Inl (UndefinedBehaviour ''memcpy from outside the buffer''))"

definition Read :: "nat \<Rightarrow> byte list reads" where
  "Read n =
     bind_s CurrentLimit_r (\<lambda>lim.
     bind_s Position_r (\<lambda>pos.
       if \<not> size_add pos n \<le> lim
       then throw_s BufferLimitViolationException ''Range outside of buffer''
       else memcpy_r n))"

text \<open>The template \<open>ReadNumber<T>\<close>, at every width.\<close>

definition ReadNumber :: "'n::len word reads" where
  "ReadNumber = bind_s (Read (LENGTH('n) div 8)) (\<lambda>bs. return_s (of_nat (le_nat bs)))"

text \<open>
  An allocation beside the live buffer: both lie in the 32-bit address space, so a request
  that does not fit in what the buffer leaves throws.  (A smaller one may fail as well when
  the heap is full; that is not modelled.)
\<close>

definition heap_alloc :: "nat \<Rightarrow> unit reads" where
  "heap_alloc n r = (if length (r_buffer r) + n < 2 ^ 32 then Inr ((), r) else Inl BadAlloc)"

definition ReadString8 :: "nat \<Rightarrow> string reads" where
  "ReadString8 n =
     then_s (heap_alloc n) (bind_s (Read n) (\<lambda>bs. return_s (string_of_bytes bs)))"

text \<open>\<open>v.resize(l); if (l != 0) Read(&v[0], 0, l)\<close>.\<close>

definition ReadBytes :: "nat \<Rightarrow> byte list reads" where
  "ReadBytes n = then_s (heap_alloc n) (if n \<noteq> 0 then Read n else return_s [])"

definition ReadUintX :: "32 word reads" where
  "ReadUintX =
     bind_s (ReadNumber :: 8 word reads) (\<lambda>a.
       if a \<le> 252 then return_s (ucast a)
       else if a = 253 then bind_s (ReadNumber :: 16 word reads) (\<lambda>v. return_s (ucast v))
       else if a = 254 then ReadNumber
       else throw_s InvalidArgumentException ''Invalid number size'')"

definition ReadUintX2 :: "64 word reads" where
  "ReadUintX2 =
     bind_s (ReadNumber :: 8 word reads) (\<lambda>a.
       if a \<le> 252 then return_s (ucast a)
       else if a = 253 then bind_s (ReadNumber :: 16 word reads) (\<lambda>v. return_s (ucast v))
       else if a = 254 then bind_s (ReadNumber :: 32 word reads) (\<lambda>v. return_s (ucast v))
       else ReadNumber)"

definition ReadIntX :: "32 word reads" where
  "ReadIntX =
     bind_s (ReadNumber :: 8 word reads) (\<lambda>a.
       if sint a \<le> 124 then return_s (scast a)
       else if sint a = 125 then bind_s (ReadNumber :: 16 word reads) (\<lambda>v. return_s (scast v))
       else if sint a = 126 then ReadNumber
       else throw_s InvalidArgumentException ''Invalid number size'')"

definition ReadIntX2 :: "64 word reads" where
  "ReadIntX2 =
     bind_s (ReadNumber :: 8 word reads) (\<lambda>a.
       if sint a \<le> 124 then return_s (scast a)
       else if sint a = 125 then bind_s (ReadNumber :: 16 word reads) (\<lambda>v. return_s (scast v))
       else if sint a = 126 then bind_s (ReadNumber :: 32 word reads) (\<lambda>v. return_s (scast v))
       else ReadNumber)"

definition PushRelativeLimit_r :: "nat \<Rightarrow> unit reads" where
  "PushRelativeLimit_r n =
     bind_s Position_r (\<lambda>pos.
     bind_s CurrentLimit_r (\<lambda>lim r.
       if size_add pos n > lim then Inl (Exn BufferLimitViolationException ''Binary reader error'')
       else Inr ((), r\<lparr>r_limits := size_add pos n # r_limits r\<rparr>)))"

definition PushAbsoluteLimit_r :: "nat \<Rightarrow> unit reads" where
  "PushAbsoluteLimit_r n =
     bind_s CurrentLimit_r (\<lambda>lim r.
       if n > lim then Inl (Exn BufferLimitViolationException ''Binary reader error'')
       else Inr ((), r\<lparr>r_limits := n # r_limits r\<rparr>))"

definition PopLimit_r :: "unit reads" where
  "PopLimit_r r =
     (case r_limits r of
        [] \<Rightarrow> Inl (UndefinedBehaviour ''pop_back() of an empty vector'')
      | _ # ls \<Rightarrow> Inr ((), r\<lparr>r_limits := ls\<rparr>))"

definition DistanceFromLimit_r :: "int reads" where
  "DistanceFromLimit_r =
     bind_s CurrentLimit_r (\<lambda>lim.
     bind_s (lift_s (numeric_cast_i32 lim)) (\<lambda>l.
     bind_s Position_r (\<lambda>pos.
     bind_s (lift_s (numeric_cast_i32 pos)) (\<lambda>p. return_s (l - p)))))"

text \<open>
  \<open>ReadArray\<close> copies \<open>len * sizeof(T)\<close> bytes over the array's storage, whose elements are
  then the consecutive chunks of \<open>sizeof(T)\<close> bytes.
\<close>

fun chunks :: "nat \<Rightarrow> nat \<Rightarrow> byte list \<Rightarrow> byte list list" where
  "chunks k 0 bs = []"
| "chunks k (Suc n) bs = take k bs # chunks k n (drop k bs)"

definition words_of_bytes :: "nat \<Rightarrow> byte list \<Rightarrow> 'n::len word list" where
  "words_of_bytes n bs = map (\<lambda>c. of_nat (le_nat c)) (chunks (LENGTH('n) div 8) n bs)"

definition pairs_of_bytes :: "nat \<Rightarrow> byte list \<Rightarrow> ('n::len word \<times> 'n word) list" where
  "pairs_of_bytes n bs =
     map (\<lambda>c. (of_nat (le_nat (take (LENGTH('n) div 8) c)),
               of_nat (le_nat (drop (LENGTH('n) div 8) c))))
         (chunks (2 * (LENGTH('n) div 8)) n bs)"

fun ReadArray :: "rr_array \<Rightarrow> rr_array reads" where
  "ReadArray (RRArray_double xs) =
     bind_s (Read (size_mul (length xs) 8)) (\<lambda>bs. return_s (RRArray_double (words_of_bytes (length xs) bs)))"
| "ReadArray (RRArray_single xs) =
     bind_s (Read (size_mul (length xs) 4)) (\<lambda>bs. return_s (RRArray_single (words_of_bytes (length xs) bs)))"
| "ReadArray (RRArray_int8 xs) =
     bind_s (Read (size_mul (length xs) 1)) (\<lambda>bs. return_s (RRArray_int8 (words_of_bytes (length xs) bs)))"
| "ReadArray (RRArray_uint8 xs) =
     bind_s (Read (size_mul (length xs) 1)) (\<lambda>bs. return_s (RRArray_uint8 (words_of_bytes (length xs) bs)))"
| "ReadArray (RRArray_int16 xs) =
     bind_s (Read (size_mul (length xs) 2)) (\<lambda>bs. return_s (RRArray_int16 (words_of_bytes (length xs) bs)))"
| "ReadArray (RRArray_uint16 xs) =
     bind_s (Read (size_mul (length xs) 2)) (\<lambda>bs. return_s (RRArray_uint16 (words_of_bytes (length xs) bs)))"
| "ReadArray (RRArray_int32 xs) =
     bind_s (Read (size_mul (length xs) 4)) (\<lambda>bs. return_s (RRArray_int32 (words_of_bytes (length xs) bs)))"
| "ReadArray (RRArray_uint32 xs) =
     bind_s (Read (size_mul (length xs) 4)) (\<lambda>bs. return_s (RRArray_uint32 (words_of_bytes (length xs) bs)))"
| "ReadArray (RRArray_int64 xs) =
     bind_s (Read (size_mul (length xs) 8)) (\<lambda>bs. return_s (RRArray_int64 (words_of_bytes (length xs) bs)))"
| "ReadArray (RRArray_uint64 xs) =
     bind_s (Read (size_mul (length xs) 8)) (\<lambda>bs. return_s (RRArray_uint64 (words_of_bytes (length xs) bs)))"
| "ReadArray (RRArray_char xs) =
     bind_s (Read (size_mul (length xs) 1)) (\<lambda>bs. return_s (RRArray_char (string_of_bytes bs)))"
| "ReadArray (RRArray_cdouble xs) =
     bind_s (Read (size_mul (length xs) 16)) (\<lambda>bs. return_s (RRArray_cdouble (pairs_of_bytes (length xs) bs)))"
| "ReadArray (RRArray_csingle xs) =
     bind_s (Read (size_mul (length xs) 8)) (\<lambda>bs. return_s (RRArray_csingle (pairs_of_bytes (length xs) bs)))"
| "ReadArray (RRArray_bool xs) =
     bind_s (Read (size_mul (length xs) 1)) (\<lambda>bs. return_s (RRArray_bool (words_of_bytes (length xs) bs)))"

section \<open>Writer\<close>

record writer =
  w_buffer :: "byte list"
  w_length :: nat
  w_position :: nat
  w_limits :: "nat list"

definition ArrayBinaryWriter :: "byte list \<Rightarrow> nat \<Rightarrow> nat \<Rightarrow> writer" where
  "ArrayBinaryWriter buffer start_position len =
     \<lparr>w_buffer = buffer, w_length = len, w_position = start_position, w_limits = [len]\<rparr>"

type_synonym 'a writes = "(writer, 'a) sm"

definition CurrentLimit_w :: "nat writes" where
  "CurrentLimit_w w =
     (case w_limits w of
        [] \<Rightarrow> Inl (UndefinedBehaviour ''back() of an empty vector'')
      | l # _ \<Rightarrow> Inr (l, w))"

definition Position_w :: "nat writes" where
  "Position_w w = Inr (w_position w, w)"

definition Seek_w :: "nat \<Rightarrow> unit writes" where
  "Seek_w pos =
     bind_s CurrentLimit_w (\<lambda>lim w.
       if \<not> pos \<le> lim then Inl (Exn BufferLimitViolationException ''Range outside of buffer'')
       else Inr ((), w\<lparr>w_position := pos\<rparr>))"

definition memcpy_w :: "byte list \<Rightarrow> unit writes" where
  "memcpy_w bs w =
     (if w_position w + length bs \<le> length (w_buffer w)
      then Inr ((), w\<lparr>w_buffer := take (w_position w) (w_buffer w) @ bs
                                  @ drop (w_position w + length bs) (w_buffer w),
                      w_position := size_add (w_position w) (length bs)\<rparr>)
      else Inl (UndefinedBehaviour ''memcpy to outside the buffer''))"

definition Write :: "byte list \<Rightarrow> unit writes" where
  "Write bs =
     bind_s CurrentLimit_w (\<lambda>lim.
     bind_s Position_w (\<lambda>pos.
       if \<not> size_add pos (length bs) \<le> lim
       then throw_s BufferLimitViolationException ''Range outside of buffer''
       else memcpy_w bs))"

definition WriteNumber :: "'n::len word \<Rightarrow> unit writes" where
  "WriteNumber v = Write (le_bytes (LENGTH('n) div 8) (unat v))"

definition WriteString8 :: "string \<Rightarrow> unit writes" where
  "WriteString8 s = Write (bytes_of_string s)"

definition WriteUintX :: "32 word \<Rightarrow> unit writes" where
  "WriteUintX v =
     (if v \<le> 252 then WriteNumber (ucast v :: 8 word)
      else if v \<le> 65535
      then then_s (WriteNumber (253 :: 8 word)) (WriteNumber (ucast v :: 16 word))
      else then_s (WriteNumber (254 :: 8 word)) (WriteNumber v))"

definition WriteUintX2 :: "64 word \<Rightarrow> unit writes" where
  "WriteUintX2 v =
     (if v \<le> 4294967295 then WriteUintX (ucast v)
      else then_s (WriteNumber (255 :: 8 word)) (WriteNumber v))"

definition WriteIntX :: "32 word \<Rightarrow> unit writes" where
  "WriteIntX v =
     (if sint v \<ge> -128 \<and> sint v \<le> 124 then WriteNumber (ucast v :: 8 word)
      else if sint v \<ge> -32768 \<and> sint v \<le> 32767
      then then_s (WriteNumber (125 :: 8 word)) (WriteNumber (ucast v :: 16 word))
      else then_s (WriteNumber (126 :: 8 word)) (WriteNumber v))"

definition WriteIntX2 :: "64 word \<Rightarrow> unit writes" where
  "WriteIntX2 v =
     (if sint v \<ge> -2147483648 \<and> sint v \<le> 2147483647 then WriteIntX (ucast v)
      else then_s (WriteNumber (127 :: 8 word)) (WriteNumber v))"

definition WriteString8WithXLen :: "string \<Rightarrow> unit writes" where
  "WriteString8WithXLen s =
     bind_s (lift_s (numeric_cast_u32 (length s))) (\<lambda>a.
       then_s (WriteUintX a) (Write (bytes_of_string s)))"

definition GetStringByteCount8 :: "string \<Rightarrow> nat" where
  "GetStringByteCount8 s = length s"

definition GetUintXByteCount :: "32 word \<Rightarrow> nat" where
  "GetUintXByteCount v = (if v \<le> 252 then 1 else if v \<le> 65535 then 3 else 5)"

definition GetUintX2ByteCount :: "64 word \<Rightarrow> nat" where
  "GetUintX2ByteCount v =
     (if v \<le> 252 then 1 else if v \<le> 65535 then 3 else if v \<le> 4294967295 then 5 else 9)"

definition GetIntXByteCount :: "32 word \<Rightarrow> nat" where
  "GetIntXByteCount v =
     (if sint v \<ge> -128 \<and> sint v \<le> 124 then 1
      else if sint v \<ge> -32768 \<and> sint v \<le> 32767 then 3 else 5)"

definition GetIntX2ByteCount :: "64 word \<Rightarrow> nat" where
  "GetIntX2ByteCount v =
     (if sint v \<ge> -128 \<and> sint v \<le> 124 then 1
      else if sint v \<ge> -32768 \<and> sint v \<le> 32767 then 3
      else if sint v \<ge> -2147483648 \<and> sint v \<le> 2147483647 then 5 else 9)"

text \<open>\<open>GetUintXByteCount(a)\<close> takes a \<open>uint32_t\<close>: the 32-bit \<open>size_t\<close> converts without loss.\<close>

definition GetStringByteCount8WithXLen :: "string \<Rightarrow> nat result" where
  "GetStringByteCount8WithXLen s =
     (let a = length s in
      if a \<ge> 4294967295 - 5 then throw_r InvalidArgumentException ''String too large''
      else Inr (size_add a (GetUintXByteCount (of_nat a))))"

definition GetSizePlusUintX :: "nat \<Rightarrow> nat result" where
  "GetSizePlusUintX s =
     (if s \<le> 251 then Inr (size_add s 1)
      else if s \<le> 65535 - 3 then Inr (size_add s 3)
      else if s > 4294967295 - 5 then throw_r BufferLimitViolationException ''Message too large''
      else Inr (size_add s 5))"

definition PushRelativeLimit_w :: "nat \<Rightarrow> unit writes" where
  "PushRelativeLimit_w n =
     bind_s Position_w (\<lambda>pos.
     bind_s CurrentLimit_w (\<lambda>lim w.
       if size_add pos n > lim then Inl (Exn BufferLimitViolationException ''Binary reader error'')
       else Inr ((), w\<lparr>w_limits := size_add pos n # w_limits w\<rparr>)))"

definition PushAbsoluteLimit_w :: "nat \<Rightarrow> unit writes" where
  "PushAbsoluteLimit_w n =
     bind_s CurrentLimit_w (\<lambda>lim w.
       if n > lim then Inl (Exn BufferLimitViolationException ''Binary reader error'')
       else Inr ((), w\<lparr>w_limits := n # w_limits w\<rparr>))"

definition PopLimit_w :: "unit writes" where
  "PopLimit_w w =
     (case w_limits w of
        [] \<Rightarrow> Inl (UndefinedBehaviour ''pop_back() of an empty vector'')
      | _ # ls \<Rightarrow> Inr ((), w\<lparr>w_limits := ls\<rparr>))"

definition DistanceFromLimit_w :: "int writes" where
  "DistanceFromLimit_w =
     bind_s CurrentLimit_w (\<lambda>lim.
     bind_s (lift_s (numeric_cast_i32 lim)) (\<lambda>l.
     bind_s Position_w (\<lambda>pos.
     bind_s (lift_s (numeric_cast_i32 pos)) (\<lambda>p. return_s (l - p)))))"

definition bytes_of_words :: "'n::len word list \<Rightarrow> byte list" where
  "bytes_of_words xs = concat (map (\<lambda>x. le_bytes (LENGTH('n) div 8) (unat x)) xs)"

definition bytes_of_pairs :: "('n::len word \<times> 'n word) list \<Rightarrow> byte list" where
  "bytes_of_pairs xs =
     concat (map (\<lambda>(x, y). le_bytes (LENGTH('n) div 8) (unat x)
                           @ le_bytes (LENGTH('n) div 8) (unat y)) xs)"

text \<open>The storage of an array as bytes: what \<open>WriteArray\<close> hands to \<open>Write\<close>.\<close>

fun array_bytes :: "rr_array \<Rightarrow> byte list" where
  "array_bytes (RRArray_double xs) = bytes_of_words xs"
| "array_bytes (RRArray_single xs) = bytes_of_words xs"
| "array_bytes (RRArray_int8 xs) = bytes_of_words xs"
| "array_bytes (RRArray_uint8 xs) = bytes_of_words xs"
| "array_bytes (RRArray_int16 xs) = bytes_of_words xs"
| "array_bytes (RRArray_uint16 xs) = bytes_of_words xs"
| "array_bytes (RRArray_int32 xs) = bytes_of_words xs"
| "array_bytes (RRArray_uint32 xs) = bytes_of_words xs"
| "array_bytes (RRArray_int64 xs) = bytes_of_words xs"
| "array_bytes (RRArray_uint64 xs) = bytes_of_words xs"
| "array_bytes (RRArray_char s) = bytes_of_string s"
| "array_bytes (RRArray_cdouble xs) = bytes_of_pairs xs"
| "array_bytes (RRArray_csingle xs) = bytes_of_pairs xs"
| "array_bytes (RRArray_bool xs) = bytes_of_words xs"

definition WriteArray :: "rr_array \<Rightarrow> unit writes" where
  "WriteArray a = Write (array_bytes a)"

end
