(* ===== verification/RR_Codec.thy ===== *)
theory RR_Codec
  imports RR_IOUtils
begin

text \<open>
  The contract between the message layer and \<open>ArrayBinaryReader\<close> / \<open>ArrayBinaryWriter\<close>.
  \<open>reads m bs v\<close>: on every well-formed reader whose next bytes are \<open>bs\<close>, \<open>m\<close> consumes
  exactly \<open>bs\<close> and returns \<open>v\<close>.  \<open>writes m bs v\<close>: on every well-formed writer with room for
  \<open>bs\<close>, \<open>m\<close> appends exactly \<open>bs\<close> and returns \<open>v\<close>.  Both compose along \<open>bind_s\<close>, so an
  operation's contract is assembled from those of its calls.  The locale \<open>codec\<close> states what
  a format (a writer, a reader and the encoding they agree on) promises, and derives the
  round trip, injectivity and the length law from it once for every format of the library.
\<close>

section \<open>Consuming an encoding\<close>

definition ok_reader :: "reader \<Rightarrow> bool" where
  "ok_reader r \<longleftrightarrow> r_limits r \<noteq> [] \<and> length (r_buffer r) < 2 ^ 31
     \<and> (\<forall>l \<in> set (r_limits r). l \<le> length (r_buffer r))"

definition sees :: "reader \<Rightarrow> byte list \<Rightarrow> bool" where
  "sees r bs \<longleftrightarrow> r_position r + length bs \<le> hd (r_limits r)
     \<and> take (length bs) (drop (r_position r) (r_buffer r)) = bs"

definition advance :: "nat \<Rightarrow> reader \<Rightarrow> reader" where
  "advance n r = r\<lparr>r_position := r_position r + n\<rparr>"

definition reads :: "'a reads \<Rightarrow> byte list \<Rightarrow> 'a \<Rightarrow> bool" where
  "reads m bs v \<longleftrightarrow> (\<forall>r. ok_reader r \<longrightarrow> sees r bs \<longrightarrow> m r = Inr (v, advance (length bs) r))"

lemma readsI:
  "(\<And>r. ok_reader r \<Longrightarrow> sees r bs \<Longrightarrow> m r = Inr (v, advance (length bs) r)) \<Longrightarrow> reads m bs v"
  by (simp add: reads_def)

lemma readsD: "reads m bs v \<Longrightarrow> ok_reader r \<Longrightarrow> sees r bs \<Longrightarrow> m r = Inr (v, advance (length bs) r)"
  by (simp add: reads_def)

lemma ok_reader_advance [simp]: "ok_reader (advance n r) = ok_reader r"
  by (simp add: ok_reader_def advance_def)

lemma advance_0 [simp]: "advance 0 r = r"
  by (simp add: advance_def)

lemma advance_advance [simp]: "advance m (advance n r) = advance (n + m) r"
  by (simp add: advance_def add.assoc)

lemma sees_append:
  "sees r (bs @ cs) \<longleftrightarrow> sees r bs \<and> sees (advance (length bs) r) cs"
proof -
  have "take (length bs + length cs) (drop (r_position r) (r_buffer r)) =
        take (length bs) (drop (r_position r) (r_buffer r))
        @ take (length cs) (drop (length bs + r_position r) (r_buffer r))"
    by (simp add: take_add add.commute)
  moreover have "sees (advance (length bs) r) cs \<Longrightarrow> r_position r + length bs \<le> hd (r_limits r)"
    by (simp add: sees_def advance_def)
  moreover have "length (take (length bs) (drop (r_position r) (r_buffer r))) \<le> length bs"
    by simp
  ultimately show ?thesis
    unfolding sees_def advance_def
    by (auto simp: add.assoc add.commute dest: arg_cong [of _ _ length])
qed

lemma sees_fits:
  assumes "ok_reader r" and "sees r bs"
  shows "r_position r + length bs \<le> length (r_buffer r)"
    and "r_position r + length bs < 2147483648" and "length (r_buffer r) < 2147483648"
    and "\<exists>l ls. r_limits r = l # ls \<and> l \<le> length (r_buffer r) \<and> r_position r + length bs \<le> l"
  using assms by (cases "r_limits r"; force simp: ok_reader_def sees_def)+

lemma reads_return [reads_rule]: "reads (return_s v) [] v"
  by (auto intro: readsI)

lemma reads_bind [reads_rule]:
  "reads m bs x \<Longrightarrow> reads (k x) cs v \<Longrightarrow> reads (bind_s m k) (bs @ cs) v"
  by (auto simp: reads_def sees_append bind_s_def)

lemma reads_then [reads_rule]:
  "reads m bs x \<Longrightarrow> reads k cs v \<Longrightarrow> reads (then_s m k) (bs @ cs) v"
  unfolding then_s_def by (rule reads_bind)

lemma reads_set_when [reads_rule]:
  "(c \<Longrightarrow> reads m bs v) \<Longrightarrow> (\<not> c \<Longrightarrow> d = v) \<Longrightarrow> reads (set_when c m d) (if c then bs else []) v"
  by (auto intro: reads_return)

lemma reads_set_when_if:
  "(c \<Longrightarrow> reads m bs v) \<Longrightarrow> reads (set_when c m d) (if c then bs else []) (if c then v else d)"
  by (auto intro: reads_return)

lemma reads_return_eq: "v = w \<Longrightarrow> reads (return_s v) [] w"
  by (simp add: reads_return)

lemma reads_repeat_all:
  "\<forall>x \<in> set xs. reads rd (enc x) (view x) \<Longrightarrow>
   reads (repeat_s (length xs) rd) (concat (map enc xs)) (map view xs)"
proof (induction xs)
  case Nil
  have "reads (repeat_s 0 rd) [] []" unfolding repeat_s.simps by (rule reads_return)
  then show ?case unfolding list.size list.map concat.simps .
next
  case (Cons x xs)
  then have x: "reads rd (enc x) (view x)" and xs: "reads (repeat_s (length xs) rd) (concat (map enc xs)) (map view xs)"
    by auto
  have "reads (repeat_s (length (x # xs)) rd) (enc x @ (concat (map enc xs) @ [])) (view x # map view xs)"
    unfolding list.size repeat_s.simps Nat.add_Suc_right Nat.add_0_right
    by (intro reads_bind [OF x] reads_bind [OF xs] reads_return)
  then show ?case by simp
qed

lemma reads_Read [reads_rule]: "reads (Read (length bs)) bs bs"
proof (rule readsI)
  fix r assume "ok_reader r" and s: "sees r bs"
  note f = sees_fits [OF this]
  then obtain l ls where "r_limits r = l # ls" "r_position r + length bs \<le> l" by auto
  with f s show "Read (length bs) r = Inr (bs, advance (length bs) r)"
    by (simp add: Read_def bind_s_def CurrentLimit_r_def Position_r_def memcpy_r_def
        sees_def advance_def)
qed

text \<open>A side condition that the visible bytes guarantee does not consume anything.\<close>

lemma reads_guard:
  assumes "\<And>r. ok_reader r \<Longrightarrow> sees r bs \<Longrightarrow> g r = Inr (x, r)" and "reads (k x) bs v"
  shows "reads (bind_s g k) bs v"
  using assms by (auto simp: reads_def bind_s_def)

lemma reads_guard_then:
  assumes "\<And>r. ok_reader r \<Longrightarrow> sees r bs \<Longrightarrow> g r = Inr (x, r)" and "reads k bs v"
  shows "reads (then_s g k) bs v"
  unfolding then_s_def using assms by (rule reads_guard)

lemma heap_alloc_fits:
  "ok_reader r \<Longrightarrow> sees r bs \<Longrightarrow> n \<le> length bs \<Longrightarrow> heap_alloc n r = Inr ((), r)"
  using sees_fits [of r bs] by (simp add: heap_alloc_def)

text \<open>\<open>if (n > rdr.DistanceFromLimit()) throw\<close> passes when at least \<open>n\<close> bytes are visible.\<close>

lemma reads_limit_guard:
  assumes "n \<le> int (length bs)" and "reads k bs v"
  shows "reads (bind_s DistanceFromLimit_r (\<lambda>d. if n > d then e else k)) bs v"
proof (rule readsI)
  fix r assume ok: "ok_reader r" and s: "sees r bs"
  then obtain l ls where l: "r_limits r = l # ls" "l \<le> length (r_buffer r)" "r_position r + length bs \<le> l"
    using sees_fits [OF ok s] by auto
  moreover have "DistanceFromLimit_r r = Inr (int l - int (r_position r), r)"
    using l sees_fits [OF ok s] by (simp add: DistanceFromLimit_r_def bind_s_def CurrentLimit_r_def Position_r_def)
  ultimately show "bind_s DistanceFromLimit_r (\<lambda>d. if n > d then e else k) r = Inr (v, advance (length bs) r)"
    using assms(1) readsD [OF assms(2) ok s] by simp
qed

section \<open>Producing an encoding\<close>

definition ok_writer :: "writer \<Rightarrow> bool" where
  "ok_writer w \<longleftrightarrow> w_limits w \<noteq> [] \<and> length (w_buffer w) < 2 ^ 31
     \<and> (\<forall>l \<in> set (w_limits w). l \<le> length (w_buffer w))"

definition room :: "writer \<Rightarrow> nat \<Rightarrow> bool" where
  "room w n \<longleftrightarrow> w_position w + n \<le> hd (w_limits w)"

definition append_w :: "byte list \<Rightarrow> writer \<Rightarrow> writer" where
  "append_w bs w =
     w\<lparr>w_buffer := take (w_position w) (w_buffer w) @ bs
                   @ drop (w_position w + length bs) (w_buffer w),
       w_position := w_position w + length bs\<rparr>"

definition writes :: "'a writes \<Rightarrow> byte list \<Rightarrow> 'a \<Rightarrow> bool" where
  "writes m bs v \<longleftrightarrow> (\<forall>w. ok_writer w \<longrightarrow> room w (length bs) \<longrightarrow> m w = Inr (v, append_w bs w))"

lemma writesI:
  "(\<And>w. ok_writer w \<Longrightarrow> room w (length bs) \<Longrightarrow> m w = Inr (v, append_w bs w)) \<Longrightarrow> writes m bs v"
  by (simp add: writes_def)

lemma writesD:
  "writes m bs v \<Longrightarrow> ok_writer w \<Longrightarrow> room w (length bs) \<Longrightarrow> m w = Inr (v, append_w bs w)"
  by (simp add: writes_def)

lemma room_fits:
  assumes "ok_writer w" and "room w n"
  shows "w_position w + n \<le> length (w_buffer w)" and "w_position w + n < 2147483648"
    and "\<exists>l ls. w_limits w = l # ls \<and> w_position w + n \<le> l"
  using assms by (cases "w_limits w"; force simp: ok_writer_def room_def)+

lemma ok_writer_append [simp]: "ok_writer w \<Longrightarrow> room w (length bs) \<Longrightarrow> ok_writer (append_w bs w)"
  using room_fits [of w "length bs"] by (auto simp: ok_writer_def append_w_def)

lemma room_append: "room w (m + n) \<longleftrightarrow> room w m \<and> room (append_w bs w) n" if "length bs = m"
  using that by (auto simp: room_def append_w_def)

lemma append_w_Nil [simp]: "append_w [] w = w"
  by (simp add: append_w_def)

lemma append_w_append:
  "w_position w + length bs + length cs \<le> length (w_buffer w) \<Longrightarrow>
   append_w cs (append_w bs w) = append_w (bs @ cs) w"
  by (simp add: append_w_def min_absorb2 ac_simps)

lemma writes_return [writes_rule]: "writes (return_s v) [] v"
  by (auto intro: writesI)

lemma writes_bind [writes_rule]:
  assumes "writes m bs x" and "writes (k x) cs v"
  shows "writes (bind_s m k) (bs @ cs) v"
proof (rule writesI)
  fix w assume w: "ok_writer w" and r: "room w (length (bs @ cs))"
  then have r1: "room w (length bs)" and r2: "room (append_w bs w) (length cs)"
    by (simp_all add: room_append)
  have "m w = Inr (x, append_w bs w)" by (rule writesD [OF assms(1) w r1])
  moreover have "k x (append_w bs w) = Inr (v, append_w cs (append_w bs w))"
    by (rule writesD [OF assms(2) ok_writer_append [OF w r1] r2])
  moreover have "append_w cs (append_w bs w) = append_w (bs @ cs) w"
    using room_fits [OF w r] by (intro append_w_append) simp
  ultimately show "bind_s m k w = Inr (v, append_w (bs @ cs) w)" by simp
qed

lemma writes_then [writes_rule]:
  "writes m bs x \<Longrightarrow> writes k cs v \<Longrightarrow> writes (then_s m k) (bs @ cs) v"
  unfolding then_s_def by (rule writes_bind)

lemma writes_when [writes_rule]:
  "(c \<Longrightarrow> writes m bs ()) \<Longrightarrow> writes (when_s c m) (if c then bs else []) ()"
  by (auto intro: writes_return)

lemma writes_Write [writes_rule]: "writes (Write bs) bs ()"
proof (rule writesI)
  fix w assume w: "ok_writer w" and r: "room w (length bs)"
  from room_fits [OF this] show "Write bs w = Inr ((), append_w bs w)"
    by (auto simp: Write_def bind_s_def CurrentLimit_w_def Position_w_def memcpy_w_def append_w_def)
qed

lemma writes_guard:
  "writes k bs v \<Longrightarrow> writes (bind_s (lift_s (Inr x)) (\<lambda>_. k)) bs v"
  by simp

lemma writes_for_s:
  "\<forall>x \<in> set xs. writes (wr x) (enc x) (upd x) \<Longrightarrow>
   writes (for_s wr xs) (concat (map enc xs)) (map upd xs)"
proof (induction xs)
  case Nil
  show ?case unfolding for_s.simps list.map concat.simps by (rule writes_return)
next
  case (Cons x xs)
  then have "writes (for_s wr (x # xs)) (enc x @ (concat (map enc xs) @ [])) (upd x # map upd xs)"
    unfolding for_s.simps by (intro writes_bind [of _ _ "upd x"] writes_bind [of _ _ "map upd xs"] writes_return) auto
  then show ?case by simp
qed

section \<open>Limited sections\<close>

text \<open>
  Every \<open>Read\<close> / \<open>Read4\<close> of \<open>Message.cpp\<close> runs its body between \<open>PushRelativeLimit(n)\<close> and
  \<open>if (DistanceFromLimit() != 0) throw ...; PopLimit()\<close>, and every \<open>Write\<close> / \<open>Write4\<close> does so too.
\<close>

definition limited_r :: "nat \<Rightarrow> 'a reads \<Rightarrow> 'a reads" where
  "limited_r n body =
     then_s (PushRelativeLimit_r n)
       (bind_s body (\<lambda>x.
        bind_s DistanceFromLimit_r (\<lambda>d.
          if d \<noteq> 0 then throw_s DataSerializationException ''Error in message format''
          else then_s PopLimit_r (return_s x))))"

definition limited_w :: "nat \<Rightarrow> 'a writes \<Rightarrow> 'a writes" where
  "limited_w n body =
     then_s (PushRelativeLimit_w n)
       (bind_s body (\<lambda>x.
        bind_s DistanceFromLimit_w (\<lambda>d.
          if d \<noteq> 0 then throw_s DataSerializationException ''Error in message format''
          else then_s PopLimit_w (return_s x))))"

lemma reads_limited [reads_rule]:
  assumes "reads body bs v" and "n = length bs"
  shows "reads (limited_r n body) bs v"
proof (rule readsI)
  fix r assume ok: "ok_reader r" and s: "sees r bs"
  note f = sees_fits [OF ok s]
  then obtain l ls where l: "r_limits r = l # ls" "r_position r + length bs \<le> l" "l \<le> length (r_buffer r)"
    by auto
  define r' where "r' = r\<lparr>r_limits := (r_position r + length bs) # r_limits r\<rparr>"
  have push: "PushRelativeLimit_r n r = Inr ((), r')"
    using f l by (simp add: PushRelativeLimit_r_def bind_s_def Position_r_def CurrentLimit_r_def
        assms(2) r'_def)
  have "ok_reader r'" "sees r' bs"
    using ok s f by (auto simp: ok_reader_def sees_def r'_def)
  then have body: "body r' = Inr (v, advance (length bs) r')"
    by (rule readsD [OF assms(1)])
  have dist: "DistanceFromLimit_r (advance (length bs) r') = Inr (0, advance (length bs) r')"
    using f by (simp add: DistanceFromLimit_r_def bind_s_def CurrentLimit_r_def Position_r_def
        advance_def r'_def)
  have pop: "PopLimit_r (advance (length bs) r') = Inr ((), advance (length bs) r)"
    by (simp add: PopLimit_r_def advance_def r'_def)
  show "limited_r n body r = Inr (v, advance (length bs) r)"
    by (simp add: limited_r_def push body dist pop)
qed

lemma writes_limited [writes_rule]:
  assumes "writes body bs v" and "n = length bs"
  shows "writes (limited_w n body) bs v"
proof (rule writesI)
  fix w assume ok: "ok_writer w" and r: "room w (length bs)"
  note f = room_fits [OF ok r]
  then obtain l ls where l: "w_limits w = l # ls" "w_position w + length bs \<le> l" by auto
  define w' where "w' = w\<lparr>w_limits := (w_position w + length bs) # w_limits w\<rparr>"
  have push: "PushRelativeLimit_w n w = Inr ((), w')"
    using f l by (simp add: PushRelativeLimit_w_def bind_s_def Position_w_def CurrentLimit_w_def
        assms(2) w'_def)
  have "ok_writer w'" "room w' (length bs)"
    using ok r f by (auto simp: ok_writer_def room_def w'_def)
  then have body: "body w' = Inr (v, append_w bs w')"
    by (rule writesD [OF assms(1)])
  have dist: "DistanceFromLimit_w (append_w bs w') = Inr (0, append_w bs w')"
    using f by (simp add: DistanceFromLimit_w_def bind_s_def CurrentLimit_w_def Position_w_def
        append_w_def w'_def)
  have pop: "PopLimit_w (append_w bs w') = Inr ((), append_w bs w)"
    by (simp add: PopLimit_w_def append_w_def w'_def)
  show "limited_w n body w = Inr (v, append_w bs w)"
    by (simp add: limited_w_def push body dist pop)
qed

section \<open>The contract of a format\<close>

text \<open>
  \<open>wr x\<close> leaves the object as \<open>upd x\<close> (a writer may refresh the sizes and flags it stores),
  \<open>rd\<close> returns \<open>view x\<close> (a reader sees only what the format carries).
\<close>

locale codec =
  fixes wr :: "'a \<Rightarrow> 'b writes"
    and rd :: "'c reads"
    and enc :: "'a \<Rightarrow> byte list"
    and upd :: "'a \<Rightarrow> 'b"
    and view :: "'a \<Rightarrow> 'c"
    and valid :: "'a \<Rightarrow> bool"
  assumes writes_enc: "valid x \<Longrightarrow> writes (wr x) (enc x) (upd x)"
    and reads_enc: "valid x \<Longrightarrow> reads rd (enc x) (view x)"

text \<open>A reader over what a writer has left in its buffer.\<close>

definition reader_at :: "writer \<Rightarrow> nat \<Rightarrow> reader" where
  "reader_at w pos = ArrayBinaryReader (w_buffer w) pos (length (w_buffer w))"

lemma reader_at_sees:
  assumes "ok_writer w" and "room w (length bs)"
  shows "ok_reader (reader_at (append_w bs w) (w_position w))"
    and "sees (reader_at (append_w bs w) (w_position w)) bs"
  using room_fits [OF assms] assms(1)
  by (auto simp: ok_reader_def sees_def reader_at_def ArrayBinaryReader_def append_w_def ok_writer_def)

lemma advance_reader_at:
  "advance n (reader_at w p) = reader_at w (p + n)"
  by (simp add: advance_def reader_at_def ArrayBinaryReader_def)

context codec begin

lemma roundtrip:
  assumes "valid x" and "ok_writer w" and "room w (length (enc x))"
  shows "\<exists>w'. wr x w = Inr (upd x, w')
    \<and> w_position w' = w_position w + length (enc x)
    \<and> rd (reader_at w' (w_position w)) = Inr (view x, reader_at w' (w_position w'))"
proof (intro exI conjI)
  show "wr x w = Inr (upd x, append_w (enc x) w)"
    by (rule writesD [OF writes_enc [OF assms(1)] assms(2,3)])
  show "w_position (append_w (enc x) w) = w_position w + length (enc x)"
    by (simp add: append_w_def)
  then show "rd (reader_at (append_w (enc x) w) (w_position w))
      = Inr (view x, reader_at (append_w (enc x) w) (w_position (append_w (enc x) w)))"
    using readsD [OF reads_enc [OF assms(1)] reader_at_sees [OF assms(2,3)]]
    by (simp add: advance_reader_at)
qed

text \<open>No encoding is a proper prefix of another one: formats can be concatenated.\<close>

lemma prefix_free:
  assumes "valid x" and "valid y" and "enc x @ bs = enc y @ cs"
    and "length (enc x @ bs) < 2 ^ 31"
  shows "enc x = enc y \<and> view x = view y \<and> bs = cs"
proof -
  define r where "r = ArrayBinaryReader (enc x @ bs) 0 (length (enc x @ bs))"
  have ok: "ok_reader r"
    using assms(4) by (simp add: ok_reader_def r_def ArrayBinaryReader_def)
  have sx: "sees r (enc x)"
    by (simp add: sees_def r_def ArrayBinaryReader_def)
  have "r = ArrayBinaryReader (enc y @ cs) 0 (length (enc y @ cs))"
    using assms(3) by (simp add: r_def)
  then have sy: "sees r (enc y)"
    by (simp add: sees_def ArrayBinaryReader_def)
  have "(Inr (view x, advance (length (enc x)) r) :: ('c \<times> reader) result)
      = Inr (view y, advance (length (enc y)) r)"
    using readsD [OF reads_enc [OF assms(1)] ok sx] readsD [OF reads_enc [OF assms(2)] ok sy]
    by (rule trans [OF sym])
  then have "view x = view y" "length (enc x) = length (enc y)"
    by (auto simp: advance_def r_def ArrayBinaryReader_def)
  with assms(3) show ?thesis by simp
qed

lemma enc_inj:
  assumes "valid x" and "valid y" and "enc x = enc y" and "length (enc x) < 2 ^ 31"
  shows "view x = view y"
  using prefix_free [of x y "[]" "[]"] assms by simp

text \<open>A list of objects, written one after the other and read back by a counted loop.\<close>

lemma reads_repeat:
  "\<forall>x \<in> set xs. valid x \<Longrightarrow>
   reads (repeat_s (length xs) rd) (concat (map enc xs)) (map view xs)"
  by (rule reads_repeat_all) (auto intro: reads_enc)

end

text \<open>A format with a function that computes the number of bytes in advance.\<close>

locale sized_codec = codec wr rd enc upd view valid
  for wr :: "'a \<Rightarrow> 'b writes" and rd :: "'c reads" and enc :: "'a \<Rightarrow> byte list"
    and upd :: "'a \<Rightarrow> 'b" and view :: "'a \<Rightarrow> 'c" and valid :: "'a \<Rightarrow> bool" +
  fixes bytecount :: "'a \<Rightarrow> nat"
  assumes bytecount: "valid x \<Longrightarrow> length (enc x) = bytecount x"
begin

lemma bytecount_written:
  assumes "valid x" and "ok_writer w" and "room w (bytecount x)"
  shows "\<exists>w'. wr x w = Inr (upd x, w') \<and> w_position w' = w_position w + bytecount x"
  using roundtrip [OF assms(1,2)] assms(3) bytecount [OF assms(1)] by auto

end

end
