(* ===== verification/RR_IOUtils_Laws.thy ===== *)
theory RR_IOUtils_Laws
  imports RR_Codec
begin

text \<open>
  The number and string formats of \<open>IOUtils.cpp\<close> satisfy the contract: one encoding per
  format, the reader's and writer's lemma for it, and an interpretation of \<open>sized_codec\<close>.
\<close>

section \<open>Fixed-width numbers\<close>

definition num_bytes :: "'n::len word \<Rightarrow> byte list" where
  "num_bytes v = le_bytes (LENGTH('n) div 8) (unat v)"

lemma length_num_bytes [simp]: "length (num_bytes (v :: 'n::len word)) = LENGTH('n) div 8"
  by (simp add: num_bytes_def)

lemma writes_WriteNumber [writes_rule]: "writes (WriteNumber v) (num_bytes v) ()"
  unfolding WriteNumber_def num_bytes_def by (rule writes_Write)

lemma le_nat_num_bytes:
  assumes "8 dvd LENGTH('n::len)"
  shows "le_nat (num_bytes (v :: 'n word)) = unat v"
proof -
  from assms obtain k where k: "LENGTH('n) = 8 * k" ..
  have "unat v < 2 ^ LENGTH('n)" by (rule unsigned_less)
  also have "(2 :: nat) ^ LENGTH('n) = 256 ^ k"
    by (simp add: k power_mult)
  finally show ?thesis
    using k by (simp add: num_bytes_def le_nat_le_bytes)
qed

lemma reads_Read_n: "length bs = n \<Longrightarrow> reads (Read n) bs bs"
  using reads_Read by metis

lemma reads_ReadNumber:
  assumes "8 dvd LENGTH('n::len)"
  shows "reads (ReadNumber :: 'n word reads) (num_bytes (v :: 'n word)) v"
proof -
  have "reads (ReadNumber :: 'n word reads) (num_bytes v @ []) (of_nat (le_nat (num_bytes v)))"
    unfolding ReadNumber_def
    by (rule reads_bind [OF reads_Read_n [OF length_num_bytes] reads_return])
  then show ?thesis by (simp add: le_nat_num_bytes [OF assms])
qed

lemma reads_ReadNumber8 [reads_rule]: "reads ReadNumber (num_bytes (v :: 8 word)) v"
  by (rule reads_ReadNumber) simp

lemma reads_ReadNumber16 [reads_rule]: "reads ReadNumber (num_bytes (v :: 16 word)) v"
  by (rule reads_ReadNumber) simp

lemma reads_ReadNumber32 [reads_rule]: "reads ReadNumber (num_bytes (v :: 32 word)) v"
  by (rule reads_ReadNumber) simp

lemma reads_ReadNumber64 [reads_rule]: "reads ReadNumber (num_bytes (v :: 64 word)) v"
  by (rule reads_ReadNumber) simp

section \<open>Variable-width numbers\<close>

definition uintx_bytes :: "32 word \<Rightarrow> byte list" where
  "uintx_bytes v =
     (if v \<le> 252 then num_bytes (ucast v :: 8 word)
      else if v \<le> 65535 then num_bytes (253 :: 8 word) @ num_bytes (ucast v :: 16 word)
      else num_bytes (254 :: 8 word) @ num_bytes v)"

definition uintx2_bytes :: "64 word \<Rightarrow> byte list" where
  "uintx2_bytes v =
     (if v \<le> 4294967295 then uintx_bytes (ucast v)
      else num_bytes (255 :: 8 word) @ num_bytes v)"

definition intx_bytes :: "32 word \<Rightarrow> byte list" where
  "intx_bytes v =
     (if sint v \<ge> -128 \<and> sint v \<le> 124 then num_bytes (ucast v :: 8 word)
      else if sint v \<ge> -32768 \<and> sint v \<le> 32767
      then num_bytes (125 :: 8 word) @ num_bytes (ucast v :: 16 word)
      else num_bytes (126 :: 8 word) @ num_bytes v)"

definition intx2_bytes :: "64 word \<Rightarrow> byte list" where
  "intx2_bytes v =
     (if sint v \<ge> -2147483648 \<and> sint v \<le> 2147483647 then intx_bytes (ucast v)
      else num_bytes (127 :: 8 word) @ num_bytes v)"

lemma writes_WriteUintX [writes_rule]: "writes (WriteUintX v) (uintx_bytes v) ()"
  unfolding WriteUintX_def uintx_bytes_def by (auto intro: writes_rule)

lemma writes_WriteUintX2 [writes_rule]: "writes (WriteUintX2 v) (uintx2_bytes v) ()"
  unfolding WriteUintX2_def uintx2_bytes_def by (auto intro: writes_rule)

lemma writes_WriteIntX [writes_rule]: "writes (WriteIntX v) (intx_bytes v) ()"
  unfolding WriteIntX_def intx_bytes_def by (auto intro: writes_rule)

lemma writes_WriteIntX2 [writes_rule]: "writes (WriteIntX2 v) (intx2_bytes v) ()"
  unfolding WriteIntX2_def intx2_bytes_def by (auto intro: writes_rule)

text \<open>Narrowing a value that fits and widening it back.\<close>

lemma unat_narrow:
  "unat (v :: 'n::len word) < 2 ^ LENGTH('m::len) \<Longrightarrow> unat (ucast v :: 'm word) = unat v"
  by (rule trans [OF unsigned_ucast_eq take_bit_nat_eq_self])

lemma widen_narrow:
  "unat (v :: 'n::len word) < 2 ^ LENGTH('m::len) \<Longrightarrow> (ucast (ucast v :: 'm word) :: 'n word) = v"
proof -
  assume "unat v < 2 ^ LENGTH('m)"
  then have "unat (ucast v :: 'm word) = unat v" by (rule unat_narrow)
  moreover from this have "unat (ucast v :: 'm word) < 2 ^ LENGTH('n)"
    using unsigned_less [of v, where ?'a = nat] by simp
  ultimately show ?thesis
    by (metis unat_narrow word_unat_eq_iff)
qed

lemma sint_narrow:
  assumes "LENGTH('m::len) \<le> LENGTH('n::len)"
    and "- (2 ^ (LENGTH('m) - 1)) \<le> sint (v :: 'n word)" and "sint v < 2 ^ (LENGTH('m) - 1)"
  shows "sint (ucast v :: 'm word) = sint v"
proof -
  have "sint (ucast v :: 'm word) = signed_take_bit (LENGTH('m) - Suc 0) (uint v)"
    by (simp add: signed_ucast_eq)
  also have "\<dots> = signed_take_bit (LENGTH('m) - Suc 0) (sint v)"
    using assms(1) by (simp add: sint_uint signed_take_bit_signed_take_bit min_def diff_le_mono)
  also have "\<dots> = sint v"
    using assms(2,3) by (intro signed_take_bit_int_eq_self) auto
  finally show ?thesis .
qed

lemma scast_of_sint: "sint (a :: 'm::len word) = sint (v :: 'n::len word) \<Longrightarrow> (scast a :: 'n word) = v"
  by (metis of_int_sint scast_id)

text \<open>The tag byte selects the branch of the reader; the rest is the payload.\<close>

lemma reads_tagged:
  assumes "reads (k b) bs v"
  shows "reads (bind_s (ReadNumber :: 8 word reads) k) (num_bytes b @ bs) v"
  by (rule reads_bind [OF reads_ReadNumber8]) (rule assms)

lemma reads_tagged_only:
  assumes "k b = return_s v"
  shows "reads (bind_s (ReadNumber :: 8 word reads) k) (num_bytes b) v"
  using reads_tagged [of k b "[]" v] assms by (simp only: reads_return append_Nil2)

lemma reads_number_return:
  assumes "reads (ReadNumber :: 'n::len word reads) (num_bytes a) a" and "f a = v"
  shows "reads (bind_s (ReadNumber :: 'n word reads) (\<lambda>v. return_s (f v))) (num_bytes a) v"
proof -
  have "reads (bind_s (ReadNumber :: 'n word reads) (\<lambda>v. return_s (f v))) (num_bytes a @ []) (f a)"
    by (rule reads_bind [OF assms(1) reads_return])
  with assms(2) show ?thesis by simp
qed

lemma reads_ReadUintX [reads_rule]: "reads ReadUintX (uintx_bytes v) v"
proof -
  consider "v \<le> 252" | "\<not> v \<le> 252" "v \<le> 65535" | "\<not> v \<le> 252" "\<not> v \<le> 65535" by blast
  then show ?thesis
  proof cases
    case 1
    then have u: "unat v \<le> 252" by (simp add: word_le_nat_alt)
    then have "(ucast v :: 8 word) \<le> 252" "(ucast (ucast v :: 8 word) :: 32 word) = v"
      by (simp_all add: word_le_nat_alt unat_narrow widen_narrow)
    with 1 show ?thesis
      unfolding ReadUintX_def uintx_bytes_def by (simp add: reads_tagged_only)
  next
    case 2
    then have "unat v < 2 ^ LENGTH(16)" by (simp add: word_le_nat_alt)
    then have "(ucast (ucast v :: 16 word) :: 32 word) = v" by (rule widen_narrow)
    then have "reads (bind_s (ReadNumber :: 16 word reads) (\<lambda>v. return_s (ucast v)))
        (num_bytes (ucast v :: 16 word)) v"
      by (rule reads_number_return [OF reads_ReadNumber16])
    with 2 show ?thesis
      unfolding ReadUintX_def uintx_bytes_def by (simp add: reads_tagged)
  next
    case 3
    then show ?thesis
      unfolding ReadUintX_def uintx_bytes_def by (simp add: reads_tagged reads_ReadNumber32)
  qed
qed

lemma reads_ReadUintX2 [reads_rule]: "reads ReadUintX2 (uintx2_bytes v) v"
proof -
  consider "v \<le> 252" | "\<not> v \<le> 252" "v \<le> 65535" | "\<not> v \<le> 65535" "v \<le> 4294967295"
    | "\<not> v \<le> 4294967295" by blast
  then show ?thesis
  proof cases
    case 1
    then have u: "unat v \<le> 252" by (simp add: word_le_nat_alt)
    then have "unat (ucast v :: 32 word) \<le> 252" "(ucast (ucast v :: 32 word) :: 8 word) = ucast v"
      by (simp_all add: unat_narrow word_unat_eq_iff)
    then have "uintx2_bytes v = num_bytes (ucast v :: 8 word)"
      using u by (simp add: uintx2_bytes_def uintx_bytes_def word_le_nat_alt)
    moreover have "(ucast v :: 8 word) \<le> 252" "(ucast (ucast v :: 8 word) :: 64 word) = v"
      using u by (simp_all add: word_le_nat_alt unat_narrow widen_narrow)
    ultimately show ?thesis
      unfolding ReadUintX2_def by (simp add: reads_tagged_only)
  next
    case 2
    then have u: "252 < unat v" "unat v \<le> 65535" by (simp_all add: word_le_nat_alt)
    then have "unat (ucast v :: 32 word) = unat v" "(ucast (ucast v :: 32 word) :: 16 word) = ucast v"
      by (simp_all add: unat_narrow word_unat_eq_iff)
    then have "uintx2_bytes v = num_bytes (253 :: 8 word) @ num_bytes (ucast v :: 16 word)"
      using u by (simp add: uintx2_bytes_def uintx_bytes_def word_le_nat_alt)
    moreover have "(ucast (ucast v :: 16 word) :: 64 word) = v"
      using u by (intro widen_narrow) simp
    then have "reads (bind_s (ReadNumber :: 16 word reads) (\<lambda>v. return_s (ucast v)))
        (num_bytes (ucast v :: 16 word)) v"
      by (rule reads_number_return [OF reads_ReadNumber16])
    ultimately show ?thesis
      unfolding ReadUintX2_def by (simp add: reads_tagged)
  next
    case 3
    then have u: "65535 < unat v" "unat v \<le> 4294967295" by (simp_all add: word_le_nat_alt)
    then have "unat (ucast v :: 32 word) = unat v"
      by (simp add: unat_narrow)
    then have "uintx2_bytes v = num_bytes (254 :: 8 word) @ num_bytes (ucast v :: 32 word)"
      using u by (simp add: uintx2_bytes_def uintx_bytes_def word_le_nat_alt)
    moreover have "(ucast (ucast v :: 32 word) :: 64 word) = v"
      using u by (intro widen_narrow) simp
    then have "reads (bind_s (ReadNumber :: 32 word reads) (\<lambda>v. return_s (ucast v)))
        (num_bytes (ucast v :: 32 word)) v"
      by (rule reads_number_return [OF reads_ReadNumber32])
    ultimately show ?thesis
      unfolding ReadUintX2_def by (simp add: reads_tagged)
  next
    case 4
    then show ?thesis
      unfolding ReadUintX2_def uintx2_bytes_def by (simp add: reads_tagged reads_ReadNumber64)
  qed
qed

lemma reads_ReadIntX [reads_rule]: "reads ReadIntX (intx_bytes v) v"
proof -
  consider "sint v \<ge> -128 \<and> sint v \<le> 124"
    | "\<not> (sint v \<ge> -128 \<and> sint v \<le> 124)" "sint v \<ge> -32768 \<and> sint v \<le> 32767"
    | "\<not> (sint v \<ge> -128 \<and> sint v \<le> 124)" "\<not> (sint v \<ge> -32768 \<and> sint v \<le> 32767)" by blast
  then show ?thesis
  proof cases
    case 1
    then have s: "sint (ucast v :: 8 word) = sint v" by (intro sint_narrow) auto
    with 1 show ?thesis
      unfolding ReadIntX_def intx_bytes_def
      by (simp add: reads_tagged_only scast_of_sint [OF s])
  next
    case 2
    then have "sint (ucast v :: 16 word) = sint v" by (intro sint_narrow) auto
    then have "reads (bind_s (ReadNumber :: 16 word reads) (\<lambda>v. return_s (scast v)))
        (num_bytes (ucast v :: 16 word)) v"
      by (intro reads_number_return [OF reads_ReadNumber16] scast_of_sint)
    with 2 show ?thesis
      unfolding ReadIntX_def intx_bytes_def by (auto simp add: reads_tagged)
  next
    case 3
    then show ?thesis
      unfolding ReadIntX_def intx_bytes_def by (auto simp add: reads_tagged reads_ReadNumber32)
  qed
qed

section \<open>Byte counts\<close>

lemma length_uintx_bytes [simp]: "length (uintx_bytes v) = GetUintXByteCount v"
  by (simp add: uintx_bytes_def GetUintXByteCount_def)

lemma length_intx_bytes [simp]: "length (intx_bytes v) = GetIntXByteCount v"
  by (simp add: intx_bytes_def GetIntXByteCount_def)

lemma GetUintXByteCount_bounds: "1 \<le> GetUintXByteCount v" "GetUintXByteCount v \<le> 5"
  by (simp_all add: GetUintXByteCount_def)

lemma length_uintx2_bytes [simp]: "length (uintx2_bytes v) = GetUintX2ByteCount v"
proof (cases "v \<le> 4294967295")
  case True
  then have "unat (ucast v :: 32 word) = unat v"
    by (simp add: unat_narrow word_le_nat_alt)
  with True show ?thesis
    by (auto simp: uintx2_bytes_def GetUintXByteCount_def GetUintX2ByteCount_def word_le_nat_alt)
next
  case False
  then show ?thesis
    by (auto simp: uintx2_bytes_def GetUintX2ByteCount_def word_le_nat_alt)
qed

lemma sint_ucast_32_64:
  "sint (v :: 64 word) \<ge> -2147483648 \<Longrightarrow> sint v \<le> 2147483647 \<Longrightarrow> sint (ucast v :: 32 word) = sint v"
  by (rule sint_narrow) auto

lemma length_intx2_bytes [simp]: "length (intx2_bytes v) = GetIntX2ByteCount v"
  using sint_ucast_32_64 [of v]
  by (auto simp: intx2_bytes_def GetIntXByteCount_def GetIntX2ByteCount_def)

lemma ucast_ucast_8_16: "(ucast (ucast (v :: 64 word) :: 32 word) :: 8 word) = ucast v"
  "(ucast (ucast (v :: 64 word) :: 32 word) :: 16 word) = ucast v"
  by (rule bit_word_eqI; auto simp: bit_simps)+

lemma reads_ReadIntX2 [reads_rule]: "reads ReadIntX2 (intx2_bytes v) v"
proof -
  consider "sint v \<ge> -128 \<and> sint v \<le> 124"
    | "\<not> (sint v \<ge> -128 \<and> sint v \<le> 124)" "sint v \<ge> -32768 \<and> sint v \<le> 32767"
    | "\<not> (sint v \<ge> -32768 \<and> sint v \<le> 32767)" "sint v \<ge> -2147483648 \<and> sint v \<le> 2147483647"
    | "\<not> (sint v \<ge> -2147483648 \<and> sint v \<le> 2147483647)" by blast
  then show ?thesis
  proof cases
    case 1
    then have s: "sint (ucast v :: 8 word) = sint v" by (intro sint_narrow) auto
    have "intx2_bytes v = num_bytes (ucast v :: 8 word)"
      using 1 sint_ucast_32_64 [of v] by (simp add: intx2_bytes_def intx_bytes_def ucast_ucast_8_16)
    with 1 s show ?thesis
      unfolding ReadIntX2_def by (simp add: reads_tagged_only scast_of_sint [OF s])
  next
    case 2
    then have s: "sint (ucast v :: 16 word) = sint v" by (intro sint_narrow) auto
    have "intx2_bytes v = num_bytes (125 :: 8 word) @ num_bytes (ucast v :: 16 word)"
      using 2 sint_ucast_32_64 [of v] by (auto simp: intx2_bytes_def intx_bytes_def ucast_ucast_8_16)
    moreover have "reads (bind_s (ReadNumber :: 16 word reads) (\<lambda>v. return_s (scast v)))
        (num_bytes (ucast v :: 16 word)) v"
      by (intro reads_number_return [OF reads_ReadNumber16] scast_of_sint s)
    ultimately show ?thesis
      unfolding ReadIntX2_def by (simp add: reads_tagged)
  next
    case 3
    then have s: "sint (ucast v :: 32 word) = sint v" by (intro sint_ucast_32_64) auto
    then have "intx2_bytes v = num_bytes (126 :: 8 word) @ num_bytes (ucast v :: 32 word)"
      using 3 by (auto simp: intx2_bytes_def intx_bytes_def)
    moreover have "reads (bind_s (ReadNumber :: 32 word reads) (\<lambda>v. return_s (scast v)))
        (num_bytes (ucast v :: 32 word)) v"
      by (intro reads_number_return [OF reads_ReadNumber32] scast_of_sint s)
    ultimately show ?thesis
      unfolding ReadIntX2_def by (simp add: reads_tagged)
  next
    case 4
    then show ?thesis
      unfolding ReadIntX2_def intx2_bytes_def by (auto simp add: reads_tagged reads_ReadNumber64)
  qed
qed

section \<open>Strings and byte vectors\<close>

text \<open>
  The three shapes in which \<open>Message.cpp\<close> stores a string or a byte vector: a \<open>uint16_t\<close>
  length and the characters (version 2), a \<open>UintX\<close> length and the characters (version 4), and
  the \<open>Extended\<close> vector, whose length is written without a cast check.
\<close>

definition WriteString8With16Len :: "string \<Rightarrow> unit writes" where
  "WriteString8With16Len s =
     bind_s (lift_s (numeric_cast_u16 (GetStringByteCount8 s))) (\<lambda>n.
       then_s (WriteNumber n) (WriteString8 s))"

definition ReadString8With16Len :: "string reads" where
  "ReadString8With16Len = bind_s (ReadNumber :: 16 word reads) (\<lambda>n. ReadString8 (unat n))"

definition ReadString8WithXLen :: "string reads" where
  "ReadString8WithXLen = bind_s ReadUintX (\<lambda>n. ReadString8 (unat n))"

definition WriteExtended :: "byte list \<Rightarrow> unit writes" where
  "WriteExtended ext =
     then_s (WriteUintX (of_nat (length ext)))
            (if ext \<noteq> [] then Write ext else return_s ())"

definition ReadExtended :: "byte list reads" where
  "ReadExtended = bind_s ReadUintX (\<lambda>l. ReadBytes (unat l))"

definition string16_bytes :: "string \<Rightarrow> byte list" where
  "string16_bytes s = num_bytes (of_nat (length s) :: 16 word) @ bytes_of_string s"

definition xstring_bytes :: "string \<Rightarrow> byte list" where
  "xstring_bytes s = uintx_bytes (of_nat (length s)) @ bytes_of_string s"

definition extended_bytes :: "byte list \<Rightarrow> byte list" where
  "extended_bytes ext = uintx_bytes (of_nat (length ext)) @ ext"

lemma length_string16_bytes [simp]: "length (string16_bytes s) = 2 + length s"
  by (simp add: string16_bytes_def)

lemma length_xstring_bytes [simp]:
  "length (xstring_bytes s) = GetUintXByteCount (of_nat (length s)) + length s"
  by (simp add: xstring_bytes_def)

lemma length_extended_bytes [simp]:
  "length (extended_bytes s) = GetUintXByteCount (of_nat (length s)) + length s"
  by (simp add: extended_bytes_def)

lemma reads_ReadString8 [reads_rule]: "reads (ReadString8 (length s)) (bytes_of_string s) s"
proof -
  have "reads (bind_s (Read (length s)) (\<lambda>bs. return_s (string_of_bytes bs))) (bytes_of_string s @ [])
      (string_of_bytes (bytes_of_string s))"
    by (rule reads_bind [OF reads_Read_n reads_return]) simp
  then have *: "reads (bind_s (Read (length s)) (\<lambda>bs. return_s (string_of_bytes bs))) (bytes_of_string s) s"
    by simp
  show ?thesis
    unfolding ReadString8_def
    by (rule reads_guard_then [OF _ *]) (auto intro: heap_alloc_fits)
qed

lemma reads_ReadBytes [reads_rule]: "reads (ReadBytes (length bs)) bs bs"
proof -
  have *: "reads (if length bs \<noteq> 0 then Read (length bs) else return_s []) bs bs"
    using reads_Read [of bs] reads_return [of "[]"] by (cases bs) (auto simp: reads_return)
  show ?thesis
    unfolding ReadBytes_def
    by (rule reads_guard_then [OF _ *]) (auto intro: heap_alloc_fits)
qed

lemma reads_string16 [reads_rule]:
  assumes "length s < 65536"
  shows "reads ReadString8With16Len (string16_bytes s) s"
  unfolding ReadString8With16Len_def string16_bytes_def
  by (rule reads_bind [OF reads_ReadNumber16]) (use assms in \<open>simp add: reads_ReadString8\<close>)

lemma reads_xstring [reads_rule]:
  assumes "length s < 4294967296"
  shows "reads ReadString8WithXLen (xstring_bytes s) s"
  unfolding ReadString8WithXLen_def xstring_bytes_def
  by (rule reads_bind [OF reads_ReadUintX]) (use assms in \<open>simp add: reads_ReadString8\<close>)

lemma reads_extended [reads_rule]:
  assumes "length s < 4294967296"
  shows "reads ReadExtended (extended_bytes s) s"
  unfolding ReadExtended_def extended_bytes_def
  by (rule reads_bind [OF reads_ReadUintX]) (use assms in \<open>simp add: reads_ReadBytes\<close>)

lemma writes_WriteString8 [writes_rule]: "writes (WriteString8 s) (bytes_of_string s) ()"
  unfolding WriteString8_def by (rule writes_Write)

lemma writes_string16 [writes_rule]:
  "length s < 65536 \<Longrightarrow> writes (WriteString8With16Len s) (string16_bytes s) ()"
  unfolding WriteString8With16Len_def string16_bytes_def GetStringByteCount8_def
  by (simp add: writes_rule)

lemma writes_xstring [writes_rule]:
  "length s < 4294967296 \<Longrightarrow> writes (WriteString8WithXLen s) (xstring_bytes s) ()"
  unfolding WriteString8WithXLen_def xstring_bytes_def by (simp add: writes_rule)

lemma writes_extended [writes_rule]: "writes (WriteExtended s) (extended_bytes s) ()"
proof -
  have "writes (if s \<noteq> [] then Write s else return_s ()) s ()"
    by (cases "s = []") (auto intro: writes_rule)
  then show ?thesis
    unfolding WriteExtended_def extended_bytes_def by (rule writes_then [OF writes_WriteUintX])
qed

section \<open>Arrays\<close>

lemma chunks_concat:
  "\<forall>b \<in> set bss. length b = k \<Longrightarrow> chunks k (length bss) (concat bss) = bss"
  by (induction bss) auto

lemma words_of_bytes_of_words:
  assumes "8 dvd LENGTH('n::len)"
  shows "words_of_bytes (length xs) (bytes_of_words (xs :: 'n word list)) = xs"
proof -
  have "chunks (LENGTH('n) div 8) (length xs) (bytes_of_words xs) = map num_bytes xs"
    using chunks_concat [of "map num_bytes xs" "LENGTH('n) div 8"]
    by (simp add: bytes_of_words_def num_bytes_def [abs_def])
  then show ?thesis
    by (simp add: words_of_bytes_def comp_def le_nat_num_bytes [OF assms])
qed

lemma pairs_of_bytes_of_pairs:
  assumes "8 dvd LENGTH('n::len)"
  shows "pairs_of_bytes (length xs) (bytes_of_pairs (xs :: ('n word \<times> 'n word) list)) = xs"
proof -
  let ?f = "\<lambda>(x, y). num_bytes (x :: 'n word) @ num_bytes (y :: 'n word)"
  have "chunks (2 * (LENGTH('n) div 8)) (length xs) (bytes_of_pairs xs) = map ?f xs"
    using chunks_concat [of "map ?f xs" "2 * (LENGTH('n) div 8)"]
    by (auto simp: bytes_of_pairs_def num_bytes_def [abs_def] split: prod.splits)
  then show ?thesis
    by (simp add: pairs_of_bytes_def comp_def case_prod_beta le_nat_num_bytes [OF assms])
qed

lemma length_bytes_of_words [simp]:
  "length (bytes_of_words (xs :: 'n::len word list)) = length xs * (LENGTH('n) div 8)"
  by (induction xs) (auto simp: bytes_of_words_def)

lemma length_bytes_of_pairs [simp]:
  "length (bytes_of_pairs (xs :: ('n::len word \<times> 'n word) list)) = length xs * (2 * (LENGTH('n) div 8))"
  by (induction xs) (auto simp: bytes_of_pairs_def)

lemma array_bytes_length:
  "RRArrayElementSize (array_type a) = Inr k \<Longrightarrow> length (array_bytes a) = array_size a * k"
  by (cases a) auto

lemma reads_Read_return:
  assumes "length bs = n" and "f bs = v"
  shows "reads (bind_s (Read n) (\<lambda>bs. return_s (f bs))) bs v"
proof -
  have "reads (bind_s (Read n) (\<lambda>bs. return_s (f bs))) (bs @ []) (f bs)"
    by (rule reads_bind [OF reads_Read_n reads_return]) (rule assms)
  with assms show ?thesis by simp
qed

lemma reads_ReadArray [reads_rule]:
  assumes "array_type a' = array_type a" and "array_size a' = array_size a"
    and "length (array_bytes a) < 4294967296"
  shows "reads (ReadArray a') (array_bytes a) a"
  using assms
  by (cases a; cases a')
     (simp_all add: reads_Read_return words_of_bytes_of_words pairs_of_bytes_of_pairs
        del: One_nat_def)

lemma writes_WriteArray [writes_rule]: "writes (WriteArray a) (array_bytes a) ()"
  unfolding WriteArray_def by (rule writes_Write)

section \<open>Interpretations\<close>

interpretation u8: sized_codec
  "WriteNumber :: 8 word \<Rightarrow> unit writes" ReadNumber num_bytes "\<lambda>_. ()" "\<lambda>v. v" "\<lambda>_. True" "\<lambda>_. 1"
  by unfold_locales (simp_all add: reads_rule writes_rule)

interpretation u16: sized_codec
  "WriteNumber :: 16 word \<Rightarrow> unit writes" ReadNumber num_bytes "\<lambda>_. ()" "\<lambda>v. v" "\<lambda>_. True" "\<lambda>_. 2"
  by unfold_locales (simp_all add: reads_rule writes_rule)

interpretation u32: sized_codec
  "WriteNumber :: 32 word \<Rightarrow> unit writes" ReadNumber num_bytes "\<lambda>_. ()" "\<lambda>v. v" "\<lambda>_. True" "\<lambda>_. 4"
  by unfold_locales (simp_all add: reads_rule writes_rule)

interpretation u64: sized_codec
  "WriteNumber :: 64 word \<Rightarrow> unit writes" ReadNumber num_bytes "\<lambda>_. ()" "\<lambda>v. v" "\<lambda>_. True" "\<lambda>_. 8"
  by unfold_locales (simp_all add: reads_rule writes_rule)

interpretation uintx: sized_codec
  WriteUintX ReadUintX uintx_bytes "\<lambda>_. ()" "\<lambda>v. v" "\<lambda>_. True" GetUintXByteCount
  by unfold_locales (simp_all add: reads_rule writes_rule)

interpretation uintx2: sized_codec
  WriteUintX2 ReadUintX2 uintx2_bytes "\<lambda>_. ()" "\<lambda>v. v" "\<lambda>_. True" GetUintX2ByteCount
  by unfold_locales (simp_all add: reads_rule writes_rule)

interpretation intx: sized_codec
  WriteIntX ReadIntX intx_bytes "\<lambda>_. ()" "\<lambda>v. v" "\<lambda>_. True" GetIntXByteCount
  by unfold_locales (simp_all add: reads_rule writes_rule)

interpretation intx2: sized_codec
  WriteIntX2 ReadIntX2 intx2_bytes "\<lambda>_. ()" "\<lambda>v. v" "\<lambda>_. True" GetIntX2ByteCount
  by unfold_locales (simp_all add: reads_rule writes_rule)

interpretation xstring: sized_codec
  WriteString8WithXLen ReadString8WithXLen xstring_bytes "\<lambda>_. ()" "\<lambda>s. s"
  "\<lambda>s. length s < 4294967296" "\<lambda>s. GetUintXByteCount (of_nat (length s)) + length s"
  by unfold_locales (simp_all add: reads_rule writes_rule)

interpretation string16: sized_codec
  WriteString8With16Len ReadString8With16Len string16_bytes "\<lambda>_. ()" "\<lambda>s. s"
  "\<lambda>s. length s < 65536" "\<lambda>s. 2 + length s"
  by unfold_locales (simp_all add: reads_rule writes_rule)

interpretation extended: sized_codec
  WriteExtended ReadExtended extended_bytes "\<lambda>_. ()" "\<lambda>s. s"
  "\<lambda>s. length s < 4294967296" "\<lambda>s. GetUintXByteCount (of_nat (length s)) + length s"
  by unfold_locales (simp_all add: reads_rule writes_rule)

end
