(* ===== verification/RR_MessageData.thy ===== *)
theory RR_MessageData
  imports RR_IOUtils_Laws
begin

text \<open>
  The data of \<open>Message.h\<close>: elements, entries, headers and messages, with the flag constants
  of \<open>RobotRaconteurConstants.h\<close>.  A \<open>MessageStringPtr\<close> is its string.  Pointers to entries and
  elements inside the vectors are non-null, as every function of \<open>Message.cpp\<close> assumes; objects are
  values, so an operation that changes an object returns the changed one.
  After an exception the half-updated object is dropped.
\<close>

section \<open>Flags\<close>

abbreviation (input) MessageFlags_ROUTING_INFO :: byte where "MessageFlags_ROUTING_INFO \<equiv> 1"
abbreviation (input) MessageFlags_ENDPOINT_INFO :: byte where "MessageFlags_ENDPOINT_INFO \<equiv> 2"
abbreviation (input) MessageFlags_PRIORITY :: byte where "MessageFlags_PRIORITY \<equiv> 4"
abbreviation (input) MessageFlags_UNRELIABLE :: byte where "MessageFlags_UNRELIABLE \<equiv> 8"
abbreviation (input) MessageFlags_META_INFO :: byte where "MessageFlags_META_INFO \<equiv> 16"
abbreviation (input) MessageFlags_STRING_TABLE :: byte where "MessageFlags_STRING_TABLE \<equiv> 32"
abbreviation (input) MessageFlags_MULTIPLE_ENTRIES :: byte where "MessageFlags_MULTIPLE_ENTRIES \<equiv> 64"
abbreviation (input) MessageFlags_EXTENDED :: byte where "MessageFlags_EXTENDED \<equiv> 128"

definition MessageFlags_Version2Compat :: byte where
  "MessageFlags_Version2Compat =
     MessageFlags_ROUTING_INFO OR MessageFlags_ENDPOINT_INFO OR MessageFlags_META_INFO
     OR MessageFlags_MULTIPLE_ENTRIES"

abbreviation (input) MessageEntryFlags_SERVICE_PATH_STR :: byte where "MessageEntryFlags_SERVICE_PATH_STR \<equiv> 1"
abbreviation (input) MessageEntryFlags_SERVICE_PATH_CODE :: byte where "MessageEntryFlags_SERVICE_PATH_CODE \<equiv> 2"
abbreviation (input) MessageEntryFlags_MEMBER_NAME_STR :: byte where "MessageEntryFlags_MEMBER_NAME_STR \<equiv> 4"
abbreviation (input) MessageEntryFlags_MEMBER_NAME_CODE :: byte where "MessageEntryFlags_MEMBER_NAME_CODE \<equiv> 8"
abbreviation (input) MessageEntryFlags_REQUEST_ID :: byte where "MessageEntryFlags_REQUEST_ID \<equiv> 16"
abbreviation (input) MessageEntryFlags_ERROR :: byte where "MessageEntryFlags_ERROR \<equiv> 32"
abbreviation (input) MessageEntryFlags_META_INFO :: byte where "MessageEntryFlags_META_INFO \<equiv> 64"
abbreviation (input) MessageEntryFlags_EXTENDED :: byte where "MessageEntryFlags_EXTENDED \<equiv> 128"

definition MessageEntryFlags_Version2Compat :: byte where
  "MessageEntryFlags_Version2Compat =
     MessageEntryFlags_SERVICE_PATH_STR OR MessageEntryFlags_MEMBER_NAME_STR
     OR MessageEntryFlags_REQUEST_ID OR MessageEntryFlags_ERROR OR MessageEntryFlags_META_INFO"

abbreviation (input) MessageElementFlags_ELEMENT_NAME_STR :: byte where "MessageElementFlags_ELEMENT_NAME_STR \<equiv> 1"
abbreviation (input) MessageElementFlags_ELEMENT_NAME_CODE :: byte where "MessageElementFlags_ELEMENT_NAME_CODE \<equiv> 2"
abbreviation (input) MessageElementFlags_ELEMENT_NUMBER :: byte where "MessageElementFlags_ELEMENT_NUMBER \<equiv> 4"
abbreviation (input) MessageElementFlags_ELEMENT_TYPE_NAME_STR :: byte where "MessageElementFlags_ELEMENT_TYPE_NAME_STR \<equiv> 8"
abbreviation (input) MessageElementFlags_ELEMENT_TYPE_NAME_CODE :: byte where "MessageElementFlags_ELEMENT_TYPE_NAME_CODE \<equiv> 16"
abbreviation (input) MessageElementFlags_META_INFO :: byte where "MessageElementFlags_META_INFO \<equiv> 32"
abbreviation (input) MessageElementFlags_EXTENDED :: byte where "MessageElementFlags_EXTENDED \<equiv> 128"

definition MessageElementFlags_Version2Compat :: byte where
  "MessageElementFlags_Version2Compat =
     MessageElementFlags_ELEMENT_NAME_STR OR MessageElementFlags_ELEMENT_TYPE_NAME_STR
     OR MessageElementFlags_META_INFO"

text \<open>Testing and setting one flag is reading and writing one bit.\<close>

lemma flag_set_exp: "flag_set f (2 ^ i) \<longleftrightarrow> bit f i"
  by (simp add: flag_set_def and_exp_eq_0_iff_not_bit)

lemma flag_set_bit [simp]:
  "flag_set f 1 = bit f 0" "flag_set f 2 = bit f 1" "flag_set f 4 = bit f 2" "flag_set f 8 = bit f 3"
  "flag_set f 16 = bit f 4" "flag_set f 32 = bit f 5" "flag_set f 64 = bit f 6" "flag_set f 128 = bit f 7"
  using flag_set_exp [of f 0] flag_set_exp [of f 1] flag_set_exp [of f 2] flag_set_exp [of f 3]
    flag_set_exp [of f 4] flag_set_exp [of f 5] flag_set_exp [of f 6] flag_set_exp [of f 7]
  by simp_all

lemma flag_set_or: "flag_set f (m OR k) \<longleftrightarrow> flag_set f m \<or> flag_set f k"
  by (metis flag_set_def bit.conj_disj_distrib or_eq_0_iff)

lemma flag_set_name_bits [simp]: "flag_set f 3 \<longleftrightarrow> bit f 0 \<or> bit f 1"
  using flag_set_or [of f 1 2] by simp

lemma bit_set_flag_exp:
  "i < 8 \<Longrightarrow> bit (set_flag f (2 ^ i) c) n \<longleftrightarrow> (if n = i then c else bit f n)"
  by (auto simp: set_flag_def bit_simps dest: bit_imp_le_length)

lemma bit_set_flag [simp]:
  "bit (set_flag f 1 c) n \<longleftrightarrow> (if n = 0 then c else bit f n)"
  "bit (set_flag f 2 c) n \<longleftrightarrow> (if n = 1 then c else bit f n)"
  "bit (set_flag f 4 c) n \<longleftrightarrow> (if n = 2 then c else bit f n)"
  "bit (set_flag f 8 c) n \<longleftrightarrow> (if n = 3 then c else bit f n)"
  "bit (set_flag f 16 c) n \<longleftrightarrow> (if n = 4 then c else bit f n)"
  "bit (set_flag f 32 c) n \<longleftrightarrow> (if n = 5 then c else bit f n)"
  "bit (set_flag f 64 c) n \<longleftrightarrow> (if n = 6 then c else bit f n)"
  "bit (set_flag f 128 c) n \<longleftrightarrow> (if n = 7 then c else bit f n)"
  using bit_set_flag_exp [of 0 f c n] bit_set_flag_exp [of 1 f c n] bit_set_flag_exp [of 2 f c n]
    bit_set_flag_exp [of 3 f c n] bit_set_flag_exp [of 4 f c n] bit_set_flag_exp [of 5 f c n]
    bit_set_flag_exp [of 6 f c n] bit_set_flag_exp [of 7 f c n]
  by simp_all

section \<open>Elements\<close>

record element_fields =
  ElementSize :: "32 word"
  ElementFlags :: byte
  ElementName :: string
  ElementNameCode :: "32 word"
  ElementNumber :: "32 word"
  ElementType :: DataTypes
  ElementTypeName :: string
  ElementTypeNameCode :: "32 word"
  ElementMetaData :: string
  ElementExtended :: "byte list"
  DataCount :: "32 word"

datatype MessageElement =
    MessageElement (flds: element_fields) (dat: "MessageElementData option")
and MessageElementData =
    ArrayData rr_array
  | NestedElementList DataTypes string "MessageElement list"

definition default_element_fields :: element_fields where
  "default_element_fields =
     \<lparr>ElementSize = 0, ElementFlags = MessageElementFlags_Version2Compat, ElementName = '''',
      ElementNameCode = 0, ElementNumber = 0, ElementType = DataTypes_void_t,
      ElementTypeName = '''', ElementTypeNameCode = 0, ElementMetaData = '''',
      ElementExtended = [], DataCount = 0\<rparr>"

definition CreateMessageElement :: MessageElement where
  "CreateMessageElement = MessageElement default_element_fields None"

text \<open>\<open>GetTypeID()\<close> of the data, void when there is none.\<close>

fun data_type :: "MessageElementData option \<Rightarrow> DataTypes" where
  "data_type None = DataTypes_void_t"
| "data_type (Some (ArrayData a)) = array_type a"
| "data_type (Some (NestedElementList t n es)) = t"

definition GetData :: "MessageElement \<Rightarrow> MessageElementData option" where
  "GetData e = dat e"

definition SetData :: "MessageElementData option \<Rightarrow> MessageElement \<Rightarrow> MessageElement" where
  "SetData v e =
     MessageElement ((flds e)\<lparr>ElementType := data_type v, ElementSize := - 1\<rparr>) v"

definition CreateMessageElement_named :: "string \<Rightarrow> MessageElementData option \<Rightarrow> MessageElement" where
  "CreateMessageElement_named name v =
     SetData v (MessageElement (default_element_fields\<lparr>ElementName := name\<rparr>) None)"

definition CreateMessageElement_numbered :: "32 word \<Rightarrow> MessageElementData option \<Rightarrow> MessageElement" where
  "CreateMessageElement_numbered number v =
     (let e = CreateMessageElement_named '''' v; f = flds e;
          fl = set_flag (ElementFlags f) MessageElementFlags_ELEMENT_NAME_STR False;
          fl = set_flag fl MessageElementFlags_ELEMENT_NUMBER True
      in MessageElement (f\<lparr>ElementFlags := fl, ElementNumber := number\<rparr>) (dat e))"

definition MessageElement_SetElementNumber :: "MessageElement \<Rightarrow> 32 word \<Rightarrow> MessageElement" where
  "MessageElement_SetElementNumber e number =
     (let f = flds e;
          fl = set_flag (ElementFlags f) MessageElementFlags_ELEMENT_NAME_STR False;
          fl = set_flag fl MessageElementFlags_ELEMENT_NUMBER True
      in MessageElement (f\<lparr>ElementFlags := fl, ElementNumber := number\<rparr>) (dat e))"

definition MessageElement_GetElementName :: "MessageElement \<Rightarrow> string option" where
  "MessageElement_GetElementName e =
     (if \<not> flag_set (ElementFlags (flds e)) MessageElementFlags_ELEMENT_NAME_STR then None
      else Some (ElementName (flds e)))"

text \<open>The first element of a given name.\<close>

definition FindElement :: "MessageElement list \<Rightarrow> string \<Rightarrow> MessageElement result" where
  "FindElement m name =
     (case find (\<lambda>e. ElementName (flds e) = name) m of
        None \<Rightarrow> throw_r MessageElementNotFoundException (''Element '' @ name @ '' not found.'')
      | Some e \<Rightarrow> Inr e)"

definition TryFindElement :: "MessageElement list \<Rightarrow> string \<Rightarrow> MessageElement option" where
  "TryFindElement m name = find (\<lambda>e. ElementName (flds e) = name) m"

definition ContainsElement :: "MessageElement list \<Rightarrow> string \<Rightarrow> bool" where
  "ContainsElement m name \<longleftrightarrow> find (\<lambda>e. ElementName (flds e) = name) m \<noteq> None"

text \<open>Case analysis over the data pointer, structural measure and induction over the nesting.\<close>

lemma data_cases [case_names None Array Nested]:
  obtains "d = None" | a where "d = Some (ArrayData a)"
  | t n es where "d = Some (NestedElementList t n es)"
  by (metis MessageElementData.exhaust option.exhaust)

fun element_nodes :: "MessageElement \<Rightarrow> nat" where
  "element_nodes (MessageElement f d) =
     Suc (case d of Some (NestedElementList t n es) \<Rightarrow> sum_list (map element_nodes es) | _ \<Rightarrow> 0)"

lemma element_nodes_pos [simp]: "0 < element_nodes e"
  by (cases e) simp

lemma element_nodes_child:
  assumes "c \<in> set es" shows "element_nodes c \<le> sum_list (map element_nodes es)"
  using assms by (induction es) auto

lemma element_induct [case_names MessageElement]:
  assumes step: "\<And>f d. (\<And>t n es c. d = Some (NestedElementList t n es) \<Longrightarrow> c \<in> set es \<Longrightarrow> P c) \<Longrightarrow>
    P (MessageElement f d)"
  shows "P e"
proof (induction "element_nodes e" arbitrary: e rule: less_induct)
  case less
  obtain f d where e: "e = MessageElement f d" by (cases e)
  show ?case
    unfolding e
  proof (rule step)
    fix t n es c assume "d = Some (NestedElementList t n es)" "c \<in> set es"
    then have "element_nodes c < element_nodes e"
      using element_nodes_child [of c es] by (simp add: e)
    then show "P c" by (rule less)
  qed
qed

section \<open>Entries\<close>

record message_entry =
  EntrySize :: "32 word"
  EntryFlags :: byte
  EntryType :: "16 word"
  ServicePath :: string
  ServicePathCode :: "32 word"
  MemberName :: string
  MemberNameCode :: "32 word"
  RequestID :: "32 word"
  EntryError :: "16 word"
  EntryMetaData :: string
  EntryExtended :: "byte list"
  elements :: "MessageElement list"

definition CreateMessageEntry :: message_entry where
  "CreateMessageEntry =
     \<lparr>EntrySize = 0, EntryFlags = MessageEntryFlags_Version2Compat, EntryType = 0,
      ServicePath = '''', ServicePathCode = 0, MemberName = '''', MemberNameCode = 0,
      RequestID = 0, EntryError = 0, EntryMetaData = '''', EntryExtended = [], elements = []\<rparr>"

definition CreateMessageEntry_named :: "16 word \<Rightarrow> string \<Rightarrow> message_entry" where
  "CreateMessageEntry_named t n = CreateMessageEntry\<lparr>EntryType := t, MemberName := n\<rparr>"

definition AddElement :: "string \<Rightarrow> MessageElementData option \<Rightarrow> message_entry \<Rightarrow> message_entry" where
  "AddElement name v m =
     m\<lparr>elements := elements m
        @ [SetData v (MessageElement ((flds CreateMessageElement)\<lparr>ElementName := name\<rparr>) None)]\<rparr>"

definition MessageEntry_FindElement :: "message_entry \<Rightarrow> string \<Rightarrow> MessageElement result" where
  "MessageEntry_FindElement m name =
     (case find (\<lambda>e. ElementName (flds e) = name) (elements m) of
        None \<Rightarrow> throw_r MessageElementNotFoundException (''Element '' @ name @ '' not found.'')
      | Some e \<Rightarrow> Inr e)"

definition MessageEntry_TryFindElement :: "message_entry \<Rightarrow> string \<Rightarrow> MessageElement option" where
  "MessageEntry_TryFindElement m name = find (\<lambda>e. ElementName (flds e) = name) (elements m)"

section \<open>Headers and messages\<close>

text \<open>The sixteen bytes of a \<open>NodeID\<close>.\<close>

type_synonym NodeID = "byte list"

definition valid_NodeID :: "NodeID \<Rightarrow> bool" where
  "valid_NodeID i \<longleftrightarrow> length i = 16"

record message_header =
  HeaderSize :: "32 word"
  MessageFlags :: byte
  SenderEndpoint :: "32 word"
  ReceiverEndpoint :: "32 word"
  SenderNodeName :: string
  ReceiverNodeName :: string
  SenderNodeID :: NodeID
  ReceiverNodeID :: NodeID
  HeaderMetaData :: string
  EntryCount :: "16 word"
  MessageID :: "16 word"
  MessageResID :: "16 word"
  MessageSize :: "32 word"
  StringTable :: "(32 word \<times> string) list"
  Priority :: "16 word"
  HeaderExtended :: "byte list"

definition CreateMessageHeader :: message_header where
  "CreateMessageHeader =
     \<lparr>HeaderSize = 0, MessageFlags = MessageFlags_Version2Compat, SenderEndpoint = 0,
      ReceiverEndpoint = 0, SenderNodeName = '''', ReceiverNodeName = '''',
      SenderNodeID = replicate 16 0, ReceiverNodeID = replicate 16 0, HeaderMetaData = '''',
      EntryCount = 0, MessageID = 0, MessageResID = 0, MessageSize = 0, StringTable = [],
      Priority = 0, HeaderExtended = []\<rparr>"

record message =
  header :: "message_header option"
  entries :: "message_entry list"

definition CreateMessage :: message where
  "CreateMessage = \<lparr>header = None, entries = []\<rparr>"

definition FindEntry :: "message \<Rightarrow> string \<Rightarrow> message_entry result" where
  "FindEntry m name =
     (case find (\<lambda>e. MemberName e = name) (entries m) of
        None \<Rightarrow> throw_r MessageEntryNotFoundException (''Element '' @ name @ '' not found.'')
      | Some e \<Rightarrow> Inr e)"

definition AddEntry :: "16 word \<Rightarrow> string \<Rightarrow> message \<Rightarrow> message" where
  "AddEntry t name m =
     m\<lparr>entries := entries m @ [CreateMessageEntry\<lparr>MemberName := name, EntryType := t\<rparr>]\<rparr>"

end
