(* ===== verification/RR_Element4.thy ===== *)
theory RR_Element4
  imports RR_MessageData
begin

text \<open>
  \<open>MessageElement\<close> in message format version 4 (\<open>UpdateData4\<close>, \<open>ComputeSize4\<close>, \<open>Write4\<close>,
  \<open>Read4\<close> of \<open>Message.cpp\<close>): the definitions.  Their laws are in \<open>RR_Element4_Laws\<close>.
\<close>

section \<open>Sizes and flags\<close>

text \<open>\<open>if (c) s += m;\<close> on a \<open>size_t\<close>.\<close>

definition add_when :: "bool \<Rightarrow> nat result \<Rightarrow> nat \<Rightarrow> nat result" where
  "add_when c m s = (if c then bind_r m (\<lambda>n. Inr (size_add s n)) else Inr s)"

text \<open>
  The part of \<open>ComputeSize4\<close> before the \<open>switch\<close>.  \<open>numeric_cast<uint32_t>\<close> of a string's byte
  count is the identity on the 32-bit \<open>size_t\<close>.
\<close>

definition MessageElement_ComputeSize4_head :: "element_fields \<Rightarrow> nat result" where
  "MessageElement_ComputeSize4_head f =
     bind_r (add_when (flag_set (ElementFlags f) MessageElementFlags_ELEMENT_NAME_STR)
               (GetStringByteCount8WithXLen (ElementName f)) 3) (\<lambda>s.
     bind_r (add_when (flag_set (ElementFlags f) MessageElementFlags_ELEMENT_NAME_CODE)
               (Inr (GetUintXByteCount (ElementNameCode f))) s) (\<lambda>s.
     bind_r (add_when (flag_set (ElementFlags f) MessageElementFlags_ELEMENT_NUMBER)
               (Inr (GetIntXByteCount (ElementNumber f))) s) (\<lambda>s.
     bind_r (add_when (flag_set (ElementFlags f) MessageElementFlags_ELEMENT_TYPE_NAME_STR)
               (GetStringByteCount8WithXLen (ElementTypeName f)) s) (\<lambda>s.
     bind_r (add_when (flag_set (ElementFlags f) MessageElementFlags_ELEMENT_TYPE_NAME_CODE)
               (Inr (GetUintXByteCount (ElementTypeNameCode f))) s) (\<lambda>s.
     bind_r (add_when (flag_set (ElementFlags f) MessageElementFlags_META_INFO)
               (GetStringByteCount8WithXLen (ElementMetaData f)) s) (\<lambda>s.
     add_when (flag_set (ElementFlags f) MessageElementFlags_EXTENDED)
       (Inr (size_add (GetUintXByteCount (of_nat (length (ElementExtended f))))
                      (length (ElementExtended f)))) s))))))"

text \<open>The \<open>switch\<close> of \<open>UpdateData4\<close>: type, count and type name from the data.\<close>

definition MessageElement_UpdateType4 ::
  "element_fields \<Rightarrow> MessageElementData option \<Rightarrow> element_fields result" where
  "MessageElement_UpdateType4 f d =
     (let f = f\<lparr>ElementType := data_type d, ElementTypeName := ''''\<rparr> in
      case type_group (ElementType f) of
        Group_void \<Rightarrow> Inr (f\<lparr>DataCount := 0\<rparr>)
      | Group_array \<Rightarrow>
          (case d of
             Some (ArrayData a) \<Rightarrow>
               bind_r (numeric_cast_u32 (array_size a)) (\<lambda>n. Inr (f\<lparr>DataCount := n\<rparr>))
           | _ \<Rightarrow> Inl (UndefinedBehaviour ''static cast to RRBaseArray''))
      | Group_nested \<Rightarrow>
          (case d of
             Some (NestedElementList t tn es) \<Rightarrow>
               bind_r (numeric_cast_u32 (length es)) (\<lambda>n.
                 Inr (if \<not> flag_set (ElementFlags f) MessageElementFlags_ELEMENT_TYPE_NAME_CODE
                      then f\<lparr>DataCount := n, ElementTypeName := tn\<rparr>
                      else f\<lparr>DataCount := n\<rparr>))
           | _ \<Rightarrow> Inl (UndefinedBehaviour ''static cast to MessageElementNestedElementList''))
      | Group_default \<Rightarrow> throw_r DataTypeException ''Unknown data type'')"

text \<open>The flag checks and updates that follow the \<open>switch\<close>.\<close>

definition MessageElement_UpdateFlags4 :: "element_fields \<Rightarrow> element_fields result" where
  "MessageElement_UpdateFlags4 f =
     (if flag_set (ElementFlags f)
           (MessageElementFlags_ELEMENT_NAME_STR OR MessageElementFlags_ELEMENT_NAME_CODE)
         \<and> flag_set (ElementFlags f) MessageElementFlags_ELEMENT_NUMBER
      then throw_r ProtocolException ''Cannot set both element name and number''
      else
        (let fl = set_flag (ElementFlags f) MessageElementFlags_ELEMENT_TYPE_NAME_STR
                    (length (ElementTypeName f) > 0);
             fl = set_flag fl MessageElementFlags_META_INFO (length (ElementMetaData f) > 0);
             fl = set_flag fl MessageElementFlags_EXTENDED (length (ElementExtended f) \<noteq> 0)
         in Inr (f\<lparr>ElementFlags := fl\<rparr>)))"

text \<open>\<open>UpdateData4\<close> up to its call of \<open>ComputeSize4\<close>.\<close>

definition MessageElement_UpdateFields4 ::
  "element_fields \<Rightarrow> MessageElementData option \<Rightarrow> element_fields result" where
  "MessageElement_UpdateFields4 f d =
     bind_r (MessageElement_UpdateType4 f d) MessageElement_UpdateFlags4"

fun MessageElement_UpdateData4 :: "MessageElement \<Rightarrow> MessageElement result"
and MessageElement_ComputeSize4 ::
  "element_fields \<Rightarrow> MessageElementData option \<Rightarrow> (32 word \<times> MessageElementData option) result"
and UpdateData4_elements :: "nat \<Rightarrow> MessageElement list \<Rightarrow> (nat \<times> MessageElement list) result" where
  "MessageElement_UpdateData4 (MessageElement f d) =
     bind_r (MessageElement_UpdateFields4 f d) (\<lambda>f'.
     bind_r (MessageElement_ComputeSize4 f' d) (\<lambda>(n, d').
       Inr (MessageElement (f'\<lparr>ElementSize := n\<rparr>) d')))"
| "MessageElement_ComputeSize4 f d =
     bind_r (MessageElement_ComputeSize4_head f) (\<lambda>s.
     bind_r
       (case type_group (ElementType f) of
          Group_void \<Rightarrow> Inr (s, d)
        | Group_array \<Rightarrow>
            bind_r (RRArrayElementSize (ElementType f)) (\<lambda>k.
              Inr (size_add s (size_mul (unat (DataCount f)) k), d))
        | Group_nested \<Rightarrow>
            (case d of
               Some (NestedElementList t tn es) \<Rightarrow>
                 bind_r (UpdateData4_elements s es) (\<lambda>(s', es').
                   Inr (s', Some (NestedElementList t tn es')))
             | Some (ArrayData a) \<Rightarrow> throw_r DataTypeMismatchException ''Data type cast error''
             | None \<Rightarrow> Inl (UndefinedBehaviour ''null element list''))
        | Group_default \<Rightarrow> throw_r DataTypeException ''Unknown data type'')
       (\<lambda>(s, d').
         bind_r (GetSizePlusUintX (size_add s (GetUintXByteCount (DataCount f)))) (\<lambda>s.
         bind_r (numeric_cast_u32 s) (\<lambda>n. Inr (n, d')))))"
| "UpdateData4_elements s [] = Inr (s, [])"
| "UpdateData4_elements s (e # es) =
     bind_r (MessageElement_UpdateData4 e) (\<lambda>e'.
     bind_r (UpdateData4_elements (size_add s (unat (ElementSize (flds e')))) es) (\<lambda>(s', es').
       Inr (s', e' # es')))"

declare MessageElement_ComputeSize4.simps [simp del]

section \<open>Write4\<close>

text \<open>The statements of \<open>Write4\<close> from the size to the data count.\<close>

definition MessageElement_Write4_head :: "element_fields \<Rightarrow> unit writes" where
  "MessageElement_Write4_head f =
     then_s (WriteUintX (ElementSize f))
    (then_s (WriteNumber (ElementFlags f))
    (then_s (when_s (flag_set (ElementFlags f) MessageElementFlags_ELEMENT_NAME_STR)
               (WriteString8WithXLen (ElementName f)))
    (then_s (when_s (flag_set (ElementFlags f) MessageElementFlags_ELEMENT_NAME_CODE)
               (WriteUintX (ElementNameCode f)))
    (then_s (when_s (flag_set (ElementFlags f) MessageElementFlags_ELEMENT_NUMBER)
               (WriteIntX (ElementNumber f)))
    (then_s (WriteNumber (DataTypes_code (ElementType f)))
    (then_s (when_s (flag_set (ElementFlags f) MessageElementFlags_ELEMENT_TYPE_NAME_STR)
               (WriteString8WithXLen (ElementTypeName f)))
    (then_s (when_s (flag_set (ElementFlags f) MessageElementFlags_ELEMENT_TYPE_NAME_CODE)
               (WriteUintX (ElementTypeNameCode f)))
    (then_s (when_s (flag_set (ElementFlags f) MessageElementFlags_META_INFO)
               (WriteString8WithXLen (ElementMetaData f)))
    (then_s (when_s (flag_set (ElementFlags f) MessageElementFlags_EXTENDED)
               (WriteExtended (ElementExtended f)))
            (WriteUintX (DataCount f)))))))))))"

text \<open>Updating keeps the shape of an element: the recursion of \<open>Write4\<close> ends.\<close>

lemma UpdateData4_nodes:
  "MessageElement_UpdateData4 e = Inr e' \<Longrightarrow> element_nodes e' = element_nodes e"
  "MessageElement_ComputeSize4 f d = Inr (n, d') \<Longrightarrow>
     element_nodes (MessageElement f d') = element_nodes (MessageElement f d)"
  "UpdateData4_elements s es = Inr (s', es') \<Longrightarrow>
     map element_nodes es' = map element_nodes es"
proof (induction e and f d and s es arbitrary: e' and n d' and s' es'
    rule: MessageElement_UpdateData4_MessageElement_ComputeSize4_UpdateData4_elements.induct)
  case (1 f d)
  then show ?case by (auto split: prod.splits)
next
  case (2 f d)
  show ?case
  proof (cases "type_group (ElementType f)")
    case Group_nested
    show ?thesis
    proof (cases d rule: data_cases)
      case (Nested t tn es)
      with "2.prems" Group_nested obtain s s' es' where h: "MessageElement_ComputeSize4_head f = Inr s"
        and u: "UpdateData4_elements s es = Inr (s', es')" "d' = Some (NestedElementList t tn es')"
        by (auto simp: MessageElement_ComputeSize4.simps split: prod.splits)
      from "2.IH" [OF h Group_nested Nested refl u(1)] Nested u(2) show ?thesis by simp
    qed (use "2.prems" Group_nested in
        \<open>auto simp: MessageElement_ComputeSize4.simps throw_r_def\<close>)
  qed (use "2.prems" in \<open>auto simp: MessageElement_ComputeSize4.simps [of f d] split: prod.splits\<close>)
next
  case (3 s)
  then show ?case by simp
next
  case (4 s e es)
  then show ?case by (auto split: prod.splits)
qed

lemma bind_s_cong [fundef_cong]:
  "m = m' \<Longrightarrow> (\<And>x s s'. m' s = Inr (x, s') \<Longrightarrow> k x = k' x) \<Longrightarrow> bind_s m k = bind_s m' k'"
  by (rule ext) (auto simp: bind_s_def split: sum.splits)

function MessageElement_Write4 :: "MessageElement \<Rightarrow> MessageElement writes"
and Write4_elements :: "MessageElement list \<Rightarrow> MessageElement list writes" where
  "MessageElement_Write4 e =
     bind_s (lift_s (MessageElement_UpdateData4 e)) (\<lambda>e'.
       limited_w (unat (ElementSize (flds e')))
         (then_s (MessageElement_Write4_head (flds e'))
           (case type_group (ElementType (flds e')) of
              Group_void \<Rightarrow> return_s e'
            | Group_array \<Rightarrow>
                (case dat e' of
                   Some (ArrayData a) \<Rightarrow> then_s (WriteArray a) (return_s e')
                 | _ \<Rightarrow> fail_s (UndefinedBehaviour ''static cast to RRBaseArray''))
            | Group_nested \<Rightarrow>
                (case dat e' of
                   Some (NestedElementList t tn es) \<Rightarrow>
                     bind_s (Write4_elements es) (\<lambda>es'.
                       return_s (MessageElement (flds e') (Some (NestedElementList t tn es'))))
                 | _ \<Rightarrow> fail_s (UndefinedBehaviour ''static cast to MessageElementNestedElementList''))
            | Group_default \<Rightarrow> throw_s DataTypeException ''Unknown data type'')))"
| "Write4_elements [] = return_s []"
| "Write4_elements (e # es) =
     bind_s (MessageElement_Write4 e) (\<lambda>e'.
     bind_s (Write4_elements es) (\<lambda>es'. return_s (e' # es')))"
  by pat_completeness auto
termination
proof (relation "measure (case_sum (\<lambda>e. 2 * element_nodes e)
    (\<lambda>es. Suc (2 * sum_list (map element_nodes es))))", goal_cases)
  case (2 e e' s s' d t tn es)
  then show ?case
    using UpdateData4_nodes(1) [of e e'] by (cases e') simp
qed simp_all

declare MessageElement_Write4.simps [simp del]

section \<open>Read4\<close>

text \<open>
  The array branch of the readers' \<open>switch\<close>: the declared size is checked against the limit,
  the array is allocated (\<open>new T[DataCount]\<close>) and filled.
\<close>

definition ReadArrayData :: "DataTypes \<Rightarrow> 32 word \<Rightarrow> MessageElementData option reads" where
  "ReadArrayData t count =
     bind_s (lift_s (RRArrayElementSize t)) (\<lambda>k.
     bind_s (lift_s (numeric_cast_i32 (size_mul k (unat count)))) (\<lambda>n.
     bind_s DistanceFromLimit_r (\<lambda>d.
       if n > d then throw_s DataSerializationException ''Error in message format''
       else
         then_s (heap_alloc (k * unat count))
           (bind_s (lift_s (AllocateRRArrayByType t (unat count))) (\<lambda>a.
            bind_s (ReadArray a) (\<lambda>a. return_s (Some (ArrayData a))))))))"

text \<open>
  The nested branch: \<open>l.reserve(DataCount)\<close> (a vector of 32-bit pointers), then one \<open>Read\<close> per
  child.
\<close>

definition ReadNestedData ::
  "MessageElement reads \<Rightarrow> DataTypes \<Rightarrow> string \<Rightarrow> 32 word \<Rightarrow> MessageElementData option reads" where
  "ReadNestedData rd t type_name count =
     then_s (heap_alloc (4 * unat count))
       (bind_s (repeat_s (unat count) rd) (\<lambda>l.
          return_s (Some (NestedElementList t type_name l))))"

definition MessageElement_Read4_body ::
  "MessageElement reads \<Rightarrow> 32 word \<Rightarrow> MessageElement reads" where
  "MessageElement_Read4_body rd element_size =
     bind_s (ReadNumber :: 8 word reads) (\<lambda>fl.
     bind_s (set_when (flag_set fl MessageElementFlags_ELEMENT_NAME_STR) ReadString8WithXLen '''') (\<lambda>name.
     bind_s (set_when (flag_set fl MessageElementFlags_ELEMENT_NAME_CODE) ReadUintX 0) (\<lambda>name_code.
     bind_s (set_when (flag_set fl MessageElementFlags_ELEMENT_NUMBER) ReadIntX 0) (\<lambda>number.
     bind_s (ReadNumber :: 16 word reads) (\<lambda>tc.
     bind_s (set_when (flag_set fl MessageElementFlags_ELEMENT_TYPE_NAME_STR) ReadString8WithXLen '''') (\<lambda>type_name.
     bind_s (set_when (flag_set fl MessageElementFlags_ELEMENT_TYPE_NAME_CODE) ReadUintX 0) (\<lambda>type_code.
     bind_s (set_when (flag_set fl MessageElementFlags_META_INFO) ReadString8WithXLen '''') (\<lambda>metadata.
     bind_s (set_when (flag_set fl MessageElementFlags_EXTENDED) ReadExtended []) (\<lambda>ext.
     bind_s ReadUintX (\<lambda>count.
     bind_s
       (case type_group (DataTypes_of_code tc) of
          Group_void \<Rightarrow> return_s None
        | Group_array \<Rightarrow> ReadArrayData (DataTypes_of_code tc) count
        | Group_nested \<Rightarrow> ReadNestedData rd (DataTypes_of_code tc) type_name count
        | Group_default \<Rightarrow> throw_s ProtocolException ''Invalid message element type'') (\<lambda>d.
     return_s (MessageElement
       \<lparr>ElementSize = element_size, ElementFlags = fl, ElementName = name,
        ElementNameCode = name_code, ElementNumber = number, ElementType = DataTypes_of_code tc,
        ElementTypeName = type_name, ElementTypeNameCode = type_code,
        ElementMetaData = metadata, ElementExtended = ext, DataCount = count\<rparr> d))))))))))))"

text \<open>
  The recursion is bounded by a fuel that decreases with the nesting depth.  Every level
  consumes at least one byte, so one more than the bytes left in the buffer is enough:
  see \<open>RR_Element4_Laws\<close>.
\<close>

fun MessageElement_Read4_fuel :: "nat \<Rightarrow> MessageElement reads" where
  "MessageElement_Read4_fuel 0 = fail_s OutOfFuel"
| "MessageElement_Read4_fuel (Suc k) =
     bind_s ReadUintX (\<lambda>element_size.
       limited_r (unat (element_size - of_nat (GetUintXByteCount element_size)))
         (MessageElement_Read4_body (MessageElement_Read4_fuel k) element_size))"

definition MessageElement_Read4 :: "MessageElement reads" where
  "MessageElement_Read4 r = MessageElement_Read4_fuel (Suc (length (r_buffer r))) r"

end
