(* ===== verification/RR_Element4_Laws.thy ===== *)
theory RR_Element4_Laws
  imports RR_Element4
begin

text \<open>
  Laws of version 4 elements: \<open>UpdateData4\<close> is idempotent, \<open>ElementSize\<close> is the number of bytes
  \<open>Write4\<close> produces, and \<open>Read4\<close> reads back what \<open>Write4\<close> wrote.
\<close>

section \<open>UpdateData4 is idempotent\<close>

lemma set_flag_idem_exp: "i < 8 \<Longrightarrow> bit f i = c \<Longrightarrow> set_flag f (2 ^ i) c = f"
  by (rule bit_word_eqI) (auto simp: bit_set_flag_exp)

lemma set_flag_idem [simp]:
  "bit f 3 = c \<Longrightarrow> set_flag f 8 c = f"
  "bit f 4 = c \<Longrightarrow> set_flag f 16 c = f"
  "bit f 5 = c \<Longrightarrow> set_flag f 32 c = f"
  "bit f 6 = c \<Longrightarrow> set_flag f 64 c = f"
  "bit f 7 = c \<Longrightarrow> set_flag f 128 c = f"
  using set_flag_idem_exp [of 3 f c] set_flag_idem_exp [of 4 f c] set_flag_idem_exp [of 5 f c]
    set_flag_idem_exp [of 6 f c] set_flag_idem_exp [of 7 f c]
  by simp_all

text \<open>Data of the same shape: the same array, or a list of the same type and length.\<close>

fun same_shape :: "MessageElementData option \<Rightarrow> MessageElementData option \<Rightarrow> bool" where
  "same_shape None None \<longleftrightarrow> True"
| "same_shape (Some (ArrayData a)) (Some (ArrayData b)) \<longleftrightarrow> a = b"
| "same_shape (Some (NestedElementList t n es)) (Some (NestedElementList t' n' es')) \<longleftrightarrow>
     t = t' \<and> n = n' \<and> length es = length es'"
| "same_shape _ _ \<longleftrightarrow> False"

lemma same_shape_refl [simp]: "same_shape d d"
  by (cases d rule: data_cases) auto

lemma same_shape_type: "same_shape d d' \<Longrightarrow> data_type d' = data_type d"
  by (cases d rule: data_cases; cases d' rule: data_cases) auto

lemma UpdateFields4_same_shape:
  "same_shape d d' \<Longrightarrow> MessageElement_UpdateFields4 f d' = MessageElement_UpdateFields4 f d"
  by (cases d rule: data_cases; cases d' rule: data_cases)
     (auto simp: MessageElement_UpdateFields4_def MessageElement_UpdateType4_def Let_def
        split: type_group.split)

text \<open>The fields \<open>UpdateType4\<close> computes depend on the data and one flag bit only.\<close>

lemma UpdateType4_fields:
  assumes "MessageElement_UpdateType4 f d = Inr f1"
  obtains tn n where "f1 = f\<lparr>ElementType := data_type d, ElementTypeName := tn, DataCount := n\<rparr>"
    and "\<And>g. bit (ElementFlags g) 4 = bit (ElementFlags f) 4 \<Longrightarrow>
      MessageElement_UpdateType4 g d
        = Inr (g\<lparr>ElementType := data_type d, ElementTypeName := tn, DataCount := n\<rparr>)"
proof (cases d rule: data_cases)
  case None
  with assms show ?thesis
    by (auto simp: MessageElement_UpdateType4_def type_group_def intro!: that)
next
  case (Array a)
  with assms show ?thesis
    by (auto simp: MessageElement_UpdateType4_def intro!: that)
next
  case (Nested t tn es)
  with assms show ?thesis
    by (cases "type_group t"; cases "bit (ElementFlags f) 4")
       (auto simp: MessageElement_UpdateType4_def
          numeric_cast_Inr
          intro: that [of 0 "''''"] that [of "of_nat (length es)" "''''"] that [of "of_nat (length es)" tn])
qed

lemma UpdateFlags4_Inr:
  "MessageElement_UpdateFlags4 f = Inr f' \<longleftrightarrow>
     \<not> ((bit (ElementFlags f) 0 \<or> bit (ElementFlags f) 1) \<and> bit (ElementFlags f) 2)
     \<and> f' = f\<lparr>ElementFlags :=
         set_flag (set_flag (set_flag (ElementFlags f) 8 (ElementTypeName f \<noteq> []))
           32 (ElementMetaData f \<noteq> [])) 128 (ElementExtended f \<noteq> [])\<rparr>"
  by (auto simp: MessageElement_UpdateFlags4_def)

lemma UpdateFields4_idem:
  assumes "MessageElement_UpdateFields4 f d = Inr f'"
  shows "MessageElement_UpdateFields4 (f'\<lparr>ElementSize := n\<rparr>) d = Inr (f'\<lparr>ElementSize := n\<rparr>)"
proof -
  from assms obtain f1 where t: "MessageElement_UpdateType4 f d = Inr f1"
    and u: "MessageElement_UpdateFlags4 f1 = Inr f'"
    by (auto simp: MessageElement_UpdateFields4_def)
  from t obtain tn k where f1: "f1 = f\<lparr>ElementType := data_type d, ElementTypeName := tn, DataCount := k\<rparr>"
    and gen: "\<And>g. bit (ElementFlags g) 4 = bit (ElementFlags f) 4 \<Longrightarrow>
      MessageElement_UpdateType4 g d
        = Inr (g\<lparr>ElementType := data_type d, ElementTypeName := tn, DataCount := k\<rparr>)"
    by (rule UpdateType4_fields) (rule that, assumption+)
  have "MessageElement_UpdateType4 (f'\<lparr>ElementSize := n\<rparr>) d = Inr (f'\<lparr>ElementSize := n\<rparr>)"
    using gen [of "f'\<lparr>ElementSize := n\<rparr>"] u f1 by (simp add: UpdateFlags4_Inr)
  moreover have "MessageElement_UpdateFlags4 (f'\<lparr>ElementSize := n\<rparr>) = Inr (f'\<lparr>ElementSize := n\<rparr>)"
    using u f1 by (simp add: UpdateFlags4_Inr)
  ultimately show ?thesis by (simp add: MessageElement_UpdateFields4_def)
qed

lemma ComputeSize4_head_size [simp]:
  "MessageElement_ComputeSize4_head (f\<lparr>ElementSize := n\<rparr>) = MessageElement_ComputeSize4_head f"
  by (simp add: MessageElement_ComputeSize4_head_def)

lemma ComputeSize4_size [simp]:
  "MessageElement_ComputeSize4 (f\<lparr>ElementSize := n\<rparr>) d = MessageElement_ComputeSize4 f d"
  by (simp add: MessageElement_ComputeSize4.simps cong: type_group.case_cong)

text \<open>What a successful \<open>ComputeSize4\<close> did, branch by branch.\<close>

lemma ComputeSize4_InrE:
  assumes "MessageElement_ComputeSize4 f d = Inr (n, d')"
  obtains (Void) s where "type_group (ElementType f) = Group_void" and "d' = d"
      and "MessageElement_ComputeSize4_head f = Inr s"
      and "bind_r (GetSizePlusUintX (size_add s (GetUintXByteCount (DataCount f)))) numeric_cast_u32 = Inr n"
  | (Array) s k where "type_group (ElementType f) = Group_array" and "d' = d"
      and "MessageElement_ComputeSize4_head f = Inr s" and "RRArrayElementSize (ElementType f) = Inr k"
      and "bind_r (GetSizePlusUintX (size_add (size_add s (size_mul (unat (DataCount f)) k))
             (GetUintXByteCount (DataCount f)))) numeric_cast_u32 = Inr n"
  | (Nested) s t tn es s' es' where "type_group (ElementType f) = Group_nested"
      and "d = Some (NestedElementList t tn es)" and "d' = Some (NestedElementList t tn es')"
      and "MessageElement_ComputeSize4_head f = Inr s"
      and "UpdateData4_elements s es = Inr (s', es')"
      and "bind_r (GetSizePlusUintX (size_add s' (GetUintXByteCount (DataCount f)))) numeric_cast_u32 = Inr n"
proof (cases "type_group (ElementType f)")
  case Group_void
  with assms show ?thesis by (auto simp: MessageElement_ComputeSize4.simps intro!: Void)
next
  case Group_array
  with assms show ?thesis by (auto simp: MessageElement_ComputeSize4.simps intro!: Array)
next
  case Group_nested
  with assms show ?thesis
    by (cases d rule: data_cases)
       (auto simp: MessageElement_ComputeSize4.simps throw_r_def split: prod.splits intro!: Nested)
next
  case Group_default
  with assms show ?thesis by (simp add: MessageElement_ComputeSize4.simps)
qed

lemma UpdateData4_elements_length:
  "UpdateData4_elements s es = Inr (s', es') \<Longrightarrow> length es' = length es"
  using UpdateData4_nodes(3) [of s es s' es'] by (metis length_map)

lemma ComputeSize4_shape: "MessageElement_ComputeSize4 f d = Inr (n, d') \<Longrightarrow> same_shape d d'"
  by (erule ComputeSize4_InrE) (auto simp: UpdateData4_elements_length)

lemma UpdateData4_idem_all:
  "MessageElement_UpdateData4 e = Inr e' \<Longrightarrow> MessageElement_UpdateData4 e' = Inr e'"
  "MessageElement_ComputeSize4 f d = Inr (n, d') \<Longrightarrow> MessageElement_ComputeSize4 f d' = Inr (n, d')"
  "UpdateData4_elements s es = Inr (s', es') \<Longrightarrow> UpdateData4_elements s es' = Inr (s', es')"
proof (induction e and f d and s es arbitrary: e' and n d' and s' es'
    rule: MessageElement_UpdateData4_MessageElement_ComputeSize4_UpdateData4_elements.induct)
  case (1 f d)
  from "1.prems" obtain f' n d' where f': "MessageElement_UpdateFields4 f d = Inr f'"
    and c: "MessageElement_ComputeSize4 f' d = Inr (n, d')"
    and e': "e' = MessageElement (f'\<lparr>ElementSize := n\<rparr>) d'"
    by (auto split: prod.splits)
  have "MessageElement_UpdateFields4 (f'\<lparr>ElementSize := n\<rparr>) d' = Inr (f'\<lparr>ElementSize := n\<rparr>)"
    using UpdateFields4_idem [OF f', of n] UpdateFields4_same_shape [OF ComputeSize4_shape [OF c]]
    by simp
  with "1.IH" [OF f' c] e' show ?case by simp
next
  case (2 f d)
  from "2.prems" show ?case
  proof (cases rule: ComputeSize4_InrE)
    case (Nested s t tn es s' es')
    from "2.IH" [OF Nested(4,1,2) refl Nested(5)] Nested show ?thesis
      by (auto simp: MessageElement_ComputeSize4.simps)
  qed (auto simp: MessageElement_ComputeSize4.simps)
next
  case (3 s)
  then show ?case by simp
next
  case (4 s e es)
  from "4.prems" obtain e' es'' where e': "MessageElement_UpdateData4 e = Inr e'"
    and rest: "UpdateData4_elements (size_add s (unat (ElementSize (flds e')))) es = Inr (s', es'')"
    and es': "es' = e' # es''"
    by (auto split: prod.splits)
  from "4.IH"(1) [OF e'] "4.IH"(2) [OF e' rest] es' show ?case by simp
qed

lemmas UpdateData4_idem = UpdateData4_idem_all(1)

section \<open>The encoding\<close>

definition element4_fields_bytes :: "element_fields \<Rightarrow> byte list" where
  "element4_fields_bytes f =
     num_bytes (ElementFlags f)
     @ (if flag_set (ElementFlags f) MessageElementFlags_ELEMENT_NAME_STR
        then xstring_bytes (ElementName f) else [])
     @ (if flag_set (ElementFlags f) MessageElementFlags_ELEMENT_NAME_CODE
        then uintx_bytes (ElementNameCode f) else [])
     @ (if flag_set (ElementFlags f) MessageElementFlags_ELEMENT_NUMBER
        then intx_bytes (ElementNumber f) else [])
     @ num_bytes (DataTypes_code (ElementType f))
     @ (if flag_set (ElementFlags f) MessageElementFlags_ELEMENT_TYPE_NAME_STR
        then xstring_bytes (ElementTypeName f) else [])
     @ (if flag_set (ElementFlags f) MessageElementFlags_ELEMENT_TYPE_NAME_CODE
        then uintx_bytes (ElementTypeNameCode f) else [])
     @ (if flag_set (ElementFlags f) MessageElementFlags_META_INFO
        then xstring_bytes (ElementMetaData f) else [])
     @ (if flag_set (ElementFlags f) MessageElementFlags_EXTENDED
        then extended_bytes (ElementExtended f) else [])
     @ uintx_bytes (DataCount f)"

definition element4_head_bytes :: "element_fields \<Rightarrow> byte list" where
  "element4_head_bytes f = uintx_bytes (ElementSize f) @ element4_fields_bytes f"

fun element4_bytes :: "MessageElement \<Rightarrow> byte list" where
  "element4_bytes (MessageElement f d) =
     element4_head_bytes f
     @ (case d of
          None \<Rightarrow> []
        | Some (ArrayData a) \<Rightarrow> array_bytes a
        | Some (NestedElementList t tn es) \<Rightarrow>
            if is_nested_type t then concat (map element4_bytes es) else [])"

text \<open>
  An element whose size and flag fields are up to date and whose encoding has less than
  \<open>2 ^ 31\<close> bytes, the largest message that \<open>DistanceFromLimit\<close> can handle.
\<close>

definition valid_element4 :: "MessageElement \<Rightarrow> bool" where
  "valid_element4 e \<longleftrightarrow> MessageElement_UpdateData4 e = Inr e \<and> length (element4_bytes e) < 2 ^ 31"

text \<open>What a reader can see: a field is only transmitted under its flag.\<close>

definition view_fields4 :: "element_fields \<Rightarrow> element_fields" where
  "view_fields4 f =
     f\<lparr>ElementName := if flag_set (ElementFlags f) MessageElementFlags_ELEMENT_NAME_STR
                     then ElementName f else '''',
       ElementNameCode := if flag_set (ElementFlags f) MessageElementFlags_ELEMENT_NAME_CODE
                         then ElementNameCode f else 0,
       ElementNumber := if flag_set (ElementFlags f) MessageElementFlags_ELEMENT_NUMBER
                       then ElementNumber f else 0,
       ElementTypeNameCode := if flag_set (ElementFlags f) MessageElementFlags_ELEMENT_TYPE_NAME_CODE
                             then ElementTypeNameCode f else 0\<rparr>"

fun element4_view :: "MessageElement \<Rightarrow> MessageElement" where
  "element4_view (MessageElement f d) =
     MessageElement (view_fields4 f)
       (case d of
          None \<Rightarrow> None
        | Some (ArrayData a) \<Rightarrow> Some (ArrayData a)
        | Some (NestedElementList t tn es) \<Rightarrow>
            if is_nested_type t
            then Some (NestedElementList t (ElementTypeName f) (map element4_view es))
            else None)"

section \<open>ElementSize is the length of the encoding\<close>

lemma GetSizePlusUintX_exact:
  assumes "bind_r (GetSizePlusUintX s) numeric_cast_u32 = Inr n" and "s < 2147483648"
  shows "unat n = s + GetUintXByteCount n" and "unat (n - of_nat (GetUintXByteCount n)) = s"
proof -
  obtain m where m: "GetSizePlusUintX s = Inr m" "n = of_nat m" "m < 4294967296"
    using assms(1) by (auto simp: numeric_cast_Inr)
  then have n: "unat n = m" by simp
  have *: "unat n = s + GetUintXByteCount n"
    using m(1) assms(2)
    by (auto simp: n GetSizePlusUintX_def GetUintXByteCount_def word_le_nat_alt split: if_splits)
  then show "unat n = s + GetUintXByteCount n" .
  have "of_nat (GetUintXByteCount n) \<le> n"
    unfolding word_le_nat_alt using * GetUintXByteCount_bounds(2) [of n] by simp
  then show "unat (n - of_nat (GetUintXByteCount n)) = s"
    using * GetUintXByteCount_bounds(2) [of n] by (simp add: unat_sub)
qed

lemma GetStringByteCount8WithXLen_Inr:
  "GetStringByteCount8WithXLen s = Inr k \<Longrightarrow> length (xstring_bytes s) = k \<and> length s < 4294967290"
  by (auto simp: GetStringByteCount8WithXLen_def GetUintXByteCount_def Let_def split: if_splits)

lemma add_when_exact:
  assumes "add_when c m s = Inr s'" and "\<And>k. m = Inr k \<Longrightarrow> k = l"
    and "s + (if c then l else 0) < 4294967296"
  shows "s' = s + (if c then l else 0)"
  using assms by (auto simp: add_when_def split: if_splits)

text \<open>The bytes after the size, up to the data; the count is added at the end of \<open>ComputeSize4\<close>.\<close>

lemma ComputeSize4_head_length:
  assumes "MessageElement_ComputeSize4_head f = Inr s"
    and "length (element4_head_bytes f) < 2147483648"
  shows "length (element4_head_bytes f)
    = GetUintXByteCount (ElementSize f) + s + GetUintXByteCount (DataCount f)"
proof -
  define fl where "fl = ElementFlags f"
  define a b c d e g h where
    "a = (if bit fl 0 then length (xstring_bytes (ElementName f)) else 0)" and
    "b = (if bit fl 1 then GetUintXByteCount (ElementNameCode f) else 0)" and
    "c = (if bit fl 2 then GetIntXByteCount (ElementNumber f) else 0)" and
    "d = (if bit fl 3 then length (xstring_bytes (ElementTypeName f)) else 0)" and
    "e = (if bit fl 4 then GetUintXByteCount (ElementTypeNameCode f) else 0)" and
    "g = (if bit fl 5 then length (xstring_bytes (ElementMetaData f)) else 0)" and
    "h = (if bit fl 7 then length (extended_bytes (ElementExtended f)) else 0)"
  have len: "length (element4_head_bytes f)
      = GetUintXByteCount (ElementSize f) + (3 + a + b + c + d + e + g + h) + GetUintXByteCount (DataCount f)"
    by (simp add: element4_head_bytes_def element4_fields_bytes_def fl_def a_def b_def c_def d_def e_def g_def h_def
        del: length_xstring_bytes length_extended_bytes)
  with assms(2) have small: "3 + a + b + c + d + e + g + h < 2147483648" by simp
  obtain s1 s2 s3 s4 s5 s6 where
    "add_when (bit fl 0) (GetStringByteCount8WithXLen (ElementName f)) 3 = Inr s1"
    "add_when (bit fl 1) (Inr (GetUintXByteCount (ElementNameCode f))) s1 = Inr s2"
    "add_when (bit fl 2) (Inr (GetIntXByteCount (ElementNumber f))) s2 = Inr s3"
    "add_when (bit fl 3) (GetStringByteCount8WithXLen (ElementTypeName f)) s3 = Inr s4"
    "add_when (bit fl 4) (Inr (GetUintXByteCount (ElementTypeNameCode f))) s4 = Inr s5"
    "add_when (bit fl 5) (GetStringByteCount8WithXLen (ElementMetaData f)) s5 = Inr s6"
    "add_when (bit fl 7) (Inr (size_add (GetUintXByteCount (of_nat (length (ElementExtended f))))
                      (length (ElementExtended f)))) s6 = Inr s"
    using assms(1) by (auto simp: MessageElement_ComputeSize4_head_def fl_def)
  note st = this
  have "s1 = 3 + a" unfolding a_def
    using small by (intro add_when_exact [OF st(1)]) (auto simp: a_def dest: GetStringByteCount8WithXLen_Inr)
  moreover have "s2 = s1 + b" unfolding b_def
    using small \<open>s1 = 3 + a\<close> by (intro add_when_exact [OF st(2)]) (auto simp: b_def)
  moreover have "s3 = s2 + c" unfolding c_def
    using small \<open>s1 = 3 + a\<close> \<open>s2 = s1 + b\<close> by (intro add_when_exact [OF st(3)]) (auto simp: c_def)
  ultimately have s3: "s3 = 3 + a + b + c" by simp
  have "s4 = s3 + d" unfolding d_def
    using small s3 by (intro add_when_exact [OF st(4)]) (auto simp: d_def dest: GetStringByteCount8WithXLen_Inr)
  moreover from this have "s5 = s4 + e" unfolding e_def
    using small s3 by (intro add_when_exact [OF st(5)]) (auto simp: e_def)
  ultimately have s5: "s5 = 3 + a + b + c + d + e" using s3 by simp
  have s6: "s6 = s5 + g" unfolding g_def
    using small s5 by (intro add_when_exact [OF st(6)]) (auto simp: g_def dest: GetStringByteCount8WithXLen_Inr)
  have "s = s6 + h"
    using small s5 s6 st(7) by (auto simp: h_def add_when_def split: if_splits)
  with s5 s6 have "s = 3 + a + b + c + d + e + g + h" by simp
  with len show ?thesis by simp
qed

text \<open>The consequences of \<open>UpdateData4 e = Inr e\<close> for the fields and the children.\<close>

lemma fixed_fields4:
  assumes "MessageElement_UpdateData4 (MessageElement f d) = Inr (MessageElement f d)"
  shows "MessageElement_UpdateFields4 f d = Inr f"
    and "MessageElement_ComputeSize4 f d = Inr (ElementSize f, d)"
proof -
  from assms obtain f' n where f': "MessageElement_UpdateFields4 f d = Inr f'"
    and c: "MessageElement_ComputeSize4 f' d = Inr (n, d)" and f: "f = f'\<lparr>ElementSize := n\<rparr>"
    by (auto split: prod.splits)
  show "MessageElement_ComputeSize4 f d = Inr (ElementSize f, d)"
    using c unfolding f by simp
  show "MessageElement_UpdateFields4 f d = Inr f"
    using UpdateFields4_idem [OF f', of n] by (simp only: f [symmetric])
qed

lemma fixed_flags4:
  assumes "MessageElement_UpdateFields4 f d = Inr f"
  shows "bit (ElementFlags f) 3 = (ElementTypeName f \<noteq> [])"
    and "bit (ElementFlags f) 5 = (ElementMetaData f \<noteq> [])"
    and "bit (ElementFlags f) 7 = (ElementExtended f \<noteq> [])"
    and "ElementType f = data_type d"
    and "\<not> ((bit (ElementFlags f) 0 \<or> bit (ElementFlags f) 1) \<and> bit (ElementFlags f) 2)"
proof -
  from assms obtain f1 where t: "MessageElement_UpdateType4 f d = Inr f1"
    and u: "MessageElement_UpdateFlags4 f1 = Inr f"
    by (auto simp: MessageElement_UpdateFields4_def)
  from t obtain tn k where f1: "f1 = f\<lparr>ElementType := data_type d, ElementTypeName := tn, DataCount := k\<rparr>"
    by (rule UpdateType4_fields)
  from u have "\<exists>g. f = g\<lparr>ElementFlags := set_flag (set_flag (set_flag (ElementFlags g) 8 (ElementTypeName g \<noteq> []))
           32 (ElementMetaData g \<noteq> [])) 128 (ElementExtended g \<noteq> [])\<rparr> \<and> ElementType g = data_type d
     \<and> \<not> ((bit (ElementFlags g) 0 \<or> bit (ElementFlags g) 1) \<and> bit (ElementFlags g) 2)"
    unfolding UpdateFlags4_Inr f1 by (intro exI [of _ f1]) (simp add: f1)
  then obtain g where g: "f = g\<lparr>ElementFlags := set_flag (set_flag (set_flag (ElementFlags g) 8 (ElementTypeName g \<noteq> []))
           32 (ElementMetaData g \<noteq> [])) 128 (ElementExtended g \<noteq> [])\<rparr>" "ElementType g = data_type d"
     "\<not> ((bit (ElementFlags g) 0 \<or> bit (ElementFlags g) 1) \<and> bit (ElementFlags g) 2)" by blast
  show "bit (ElementFlags f) 3 = (ElementTypeName f \<noteq> [])"
    "bit (ElementFlags f) 5 = (ElementMetaData f \<noteq> [])"
    "bit (ElementFlags f) 7 = (ElementExtended f \<noteq> [])"
    "ElementType f = data_type d"
    "\<not> ((bit (ElementFlags f) 0 \<or> bit (ElementFlags f) 1) \<and> bit (ElementFlags f) 2)"
    using g(2,3) by (simp_all add: g(1))
qed

lemma fixed_array4:
  assumes "MessageElement_UpdateFields4 f (Some (ArrayData a)) = Inr f"
  shows "array_size a < 4294967296" and "DataCount f = of_nat (array_size a)"
    and "ElementTypeName f = []"
proof -
  from assms obtain f1 n where n: "numeric_cast_u32 (array_size a) = Inr n"
    and f1: "f1 = f\<lparr>ElementType := array_type a, ElementTypeName := '''', DataCount := n\<rparr>"
    and u: "MessageElement_UpdateFlags4 f1 = Inr f"
    by (auto simp: MessageElement_UpdateFields4_def MessageElement_UpdateType4_def)
  from n show "array_size a < 4294967296" by (simp add: numeric_cast_Inr)
  have "DataCount f = DataCount f1" "ElementTypeName f = ElementTypeName f1"
    using u by (auto simp: UpdateFlags4_Inr)
  with n show "DataCount f = of_nat (array_size a)" "ElementTypeName f = []"
    by (simp_all add: f1 numeric_cast_Inr)
qed

lemma fixed_nested4:
  assumes "MessageElement_UpdateFields4 f (Some (NestedElementList t tn es)) = Inr f"
    and "is_nested_type t"
  shows "length es < 4294967296" and "DataCount f = of_nat (length es)"
proof -
  have nt: "type_group t = Group_nested" using assms(2) by (simp add: type_group_nested)
  from assms(1) obtain f1 where t: "MessageElement_UpdateType4 f (Some (NestedElementList t tn es)) = Inr f1"
    and u: "MessageElement_UpdateFlags4 f1 = Inr f"
    by (auto simp: MessageElement_UpdateFields4_def)
  from t nt have n: "length es < 4294967296 \<and> DataCount f1 = of_nat (length es)"
    by (auto simp: MessageElement_UpdateType4_def Let_def numeric_cast_Inr split: if_splits)
  then show "length es < 4294967296" ..
  show "DataCount f = of_nat (length es)"
    using n u by (auto simp: UpdateFlags4_Inr)
qed

text \<open>Nested data of a type that is none of the nested ones only passes as void.\<close>

lemma fixed_nested_type4:
  assumes "MessageElement_UpdateFields4 f (Some (NestedElementList t tn es)) = Inr f"
  shows "is_nested_type t \<or> t = DataTypes_void_t"
  using assms type_group_nested [of t] type_group_void [of t]
  by (cases "type_group t")
     (auto simp: MessageElement_UpdateFields4_def MessageElement_UpdateType4_def Let_def)

lemma fixed_children4:
  "UpdateData4_elements s es = Inr (s', es) \<Longrightarrow> c \<in> set es \<Longrightarrow> MessageElement_UpdateData4 c = Inr c"
  by (induction es arbitrary: s) (auto split: prod.splits)

lemma children_size4:
  "UpdateData4_elements s es = Inr (s', es) \<Longrightarrow>
   \<forall>c \<in> set es. unat (ElementSize (flds c)) = length (element4_bytes c) \<Longrightarrow>
   s + length (concat (map element4_bytes es)) < 4294967296 \<Longrightarrow>
   s' = s + length (concat (map element4_bytes es))"
proof (induction es arbitrary: s)
  case Nil
  then show ?case by simp
next
  case (Cons c es)
  then have u: "UpdateData4_elements (size_add s (unat (ElementSize (flds c)))) es = Inr (s', es)"
    by (auto split: prod.splits)
  have "size_add s (unat (ElementSize (flds c))) = s + length (element4_bytes c)"
    using Cons.prems by simp
  with Cons.IH [OF u] Cons.prems show ?case by simp
qed

lemma head4_size:
  assumes "MessageElement_ComputeSize4_head f = Inr s"
    and "length (element4_head_bytes f) + n < 2147483648"
    and "bind_r (GetSizePlusUintX (size_add (s + n) (GetUintXByteCount (DataCount f)))) numeric_cast_u32
      = Inr (ElementSize f)"
  shows "unat (ElementSize f) = length (element4_head_bytes f) + n"
    and "unat (ElementSize f - of_nat (GetUintXByteCount (ElementSize f))) =
      length (element4_head_bytes f) + n - GetUintXByteCount (ElementSize f)"
proof -
  have h: "length (element4_head_bytes f)
    = GetUintXByteCount (ElementSize f) + s + GetUintXByteCount (DataCount f)"
    using assms by (intro ComputeSize4_head_length) auto
  with assms(2) have "size_add (s + n) (GetUintXByteCount (DataCount f))
      = s + n + GetUintXByteCount (DataCount f)" by simp
  note sz = GetSizePlusUintX_exact [OF assms(3) [unfolded this]]
  show "unat (ElementSize f) = length (element4_head_bytes f) + n"
    using sz(1) h assms(2) by simp
  show "unat (ElementSize f - of_nat (GetUintXByteCount (ElementSize f))) =
      length (element4_head_bytes f) + n - GetUintXByteCount (ElementSize f)"
    using sz(2) h assms(2) by simp
qed

definition element4_data_bytes :: "MessageElementData option \<Rightarrow> byte list" where
  "element4_data_bytes d =
     (case d of
          None \<Rightarrow> []
        | Some (ArrayData a) \<Rightarrow> array_bytes a
        | Some (NestedElementList t tn es) \<Rightarrow>
            if is_nested_type t then concat (map element4_bytes es) else [])"

lemma element4_bytes_split:
  "element4_bytes (MessageElement f d) = element4_head_bytes f @ element4_data_bytes d"
  by (simp add: element4_data_bytes_def)

lemma valid_element4_children:
  assumes "valid_element4 (MessageElement f (Some (NestedElementList t tn es)))"
    and "is_nested_type t" and "c \<in> set es"
  shows "valid_element4 c"
proof -
  from assms(1) have fix4: "MessageElement_UpdateData4 (MessageElement f (Some (NestedElementList t tn es)))
    = Inr (MessageElement f (Some (NestedElementList t tn es)))"
    by (simp add: valid_element4_def)
  note c = fixed_fields4(2) [OF this]
  have "ElementType f = t" using fixed_flags4(4) [OF fixed_fields4(1) [OF fix4]] by simp
  with assms(2) have "type_group (ElementType f) = Group_nested" by (simp add: type_group_nested)
  with c obtain s s' where "UpdateData4_elements s es = Inr (s', es)"
    by (elim ComputeSize4_InrE) auto
  then have "MessageElement_UpdateData4 c = Inr c" using assms(3) by (rule fixed_children4)
  moreover have "length (element4_bytes c) \<le> length (concat (map element4_bytes es))"
    using assms(3) by (induction es) auto
  ultimately show ?thesis
    using assms(1,2) by (simp add: valid_element4_def)
qed

theorem element4_size_both:
  "valid_element4 (MessageElement f d) \<Longrightarrow>
   unat (ElementSize f) = length (element4_bytes (MessageElement f d))
   \<and> unat (ElementSize f - of_nat (GetUintXByteCount (ElementSize f)))
     = length (element4_bytes (MessageElement f d)) - GetUintXByteCount (ElementSize f)"
proof (induction "MessageElement f d" arbitrary: f d rule: element_induct)
  case (MessageElement f d)
  from MessageElement.prems have fix4: "MessageElement_UpdateData4 (MessageElement f d) = Inr (MessageElement f d)"
    and small: "length (element4_head_bytes f) + length (element4_data_bytes d) < 2147483648"
    by (simp_all add: valid_element4_def element4_bytes_split del: element4_bytes.simps)
  note ff = fixed_fields4(1) [OF fix4]
  note ty = fixed_flags4(4) [OF ff]
  from fixed_fields4(2) [OF fix4] show ?case
  proof (cases rule: ComputeSize4_InrE)
    case (Void s)
    then have "ElementType f = DataTypes_void_t"
      by (simp add: type_group_void)
    with ty have "element4_data_bytes d = []"
      by (cases d rule: data_cases) (auto simp: element4_data_bytes_def)
    with head4_size [of f s 0] small Void
    show ?thesis unfolding element4_bytes_split length_append by simp
  next
    case (Array s k)
    have "\<exists>a. d = Some (ArrayData a)"
    proof (cases d rule: data_cases)
      case (Nested t tn es)
      with Array(1) ty fixed_nested_type4 [OF ff [unfolded Nested]] show ?thesis
        by (cases t) (auto simp: type_group_array)
    qed (use Array(1) ty in \<open>auto simp: type_group_array\<close>)
    then obtain a where d: "d = Some (ArrayData a)" ..
    note fa = fixed_array4 [OF ff [unfolded d]]
    have "length (element4_data_bytes d) = array_size a * k"
      using Array(4) ty by (simp add: d element4_data_bytes_def array_bytes_length)
    moreover from this have "size_add s (size_mul (unat (DataCount f)) k) = s + array_size a * k"
      using small ComputeSize4_head_length [OF Array(3)] fa by simp
    ultimately show ?thesis unfolding element4_bytes_split length_append
      using head4_size [of f s "array_size a * k"] small Array(3,5) by simp
  next
    case (Nested s t tn es s' es')
    have nt: "is_nested_type t"
      using Nested(1,2) ty by (simp add: type_group_nested)
    have "\<forall>c \<in> set es. unat (ElementSize (flds c)) = length (element4_bytes c)"
    proof
      fix c assume c: "c \<in> set es"
      have "valid_element4 c"
        using MessageElement.prems nt c unfolding Nested(2) by (rule valid_element4_children)
      moreover obtain fc dc where "c = MessageElement fc dc" by (cases c)
      ultimately show "unat (ElementSize (flds c)) = length (element4_bytes c)"
        using MessageElement.hyps [OF Nested(2), of fc dc] c by simp
    qed
    moreover have data: "element4_data_bytes d = concat (map element4_bytes es)"
      using nt Nested(2) by (simp add: element4_data_bytes_def)
    ultimately have "s' = s + length (element4_data_bytes d)"
      using children_size4 [of s es s'] Nested(2,3,5) small ComputeSize4_head_length [OF Nested(4)]
      by simp
    then show ?thesis unfolding element4_bytes_split length_append
      using head4_size [of f s "length (element4_data_bytes d)"] small Nested(4,6) by simp
  qed
qed

section \<open>Write4 writes the encoding\<close>

lemma head4_lengths:
  assumes "length (element4_head_bytes f) < 2147483648"
  shows "flag_set (ElementFlags f) MessageElementFlags_ELEMENT_NAME_STR \<Longrightarrow> length (ElementName f) < 2147483648"
    and "flag_set (ElementFlags f) MessageElementFlags_ELEMENT_TYPE_NAME_STR \<Longrightarrow> length (ElementTypeName f) < 2147483648"
    and "flag_set (ElementFlags f) MessageElementFlags_META_INFO \<Longrightarrow> length (ElementMetaData f) < 2147483648"
    and "flag_set (ElementFlags f) MessageElementFlags_EXTENDED \<Longrightarrow> length (ElementExtended f) < 2147483648"
  using assms by (simp_all add: element4_head_bytes_def element4_fields_bytes_def)

lemma writes_Write4_head:
  assumes "length (element4_head_bytes f) < 2147483648"
  shows "writes (MessageElement_Write4_head f) (element4_head_bytes f) ()"
  unfolding MessageElement_Write4_head_def element4_head_bytes_def element4_fields_bytes_def
  by (rule writes_rule | use head4_lengths [OF assms] in force)+

lemma writes_Write4_elements:
  "\<forall>c \<in> set es. writes (MessageElement_Write4 c) (element4_bytes c) c \<Longrightarrow>
   writes (Write4_elements es) (concat (map element4_bytes es)) es"
proof (induction es)
  case Nil
  show ?case unfolding Write4_elements.simps list.map concat.simps by (rule writes_return)
next
  case (Cons c es)
  then have "writes (Write4_elements (c # es)) (element4_bytes c @ (concat (map element4_bytes es) @ [])) (c # es)"
    unfolding Write4_elements.simps by (intro writes_bind [of _ _ c] writes_bind [of _ _ es] writes_return) auto
  then show ?case by simp
qed

text \<open>The type of well-formed data, as the writers' second \<open>switch\<close> sees it.\<close>

lemma fixed_data_cases4:
  assumes "MessageElement_UpdateData4 (MessageElement f d) = Inr (MessageElement f d)"
  obtains (Void) "type_group (ElementType f) = Group_void" and "element4_data_bytes d = []"
    and "element4_view (MessageElement f d) = MessageElement (view_fields4 f) None"
  | (Array) a where "d = Some (ArrayData a)" and "ElementType f = array_type a"
  | (Nested) tn es where "d = Some (NestedElementList (ElementType f) tn es)"
    and "is_nested_type (ElementType f)"
proof -
  note ff = fixed_fields4(1) [OF assms]
  note ty = fixed_flags4(4) [OF ff]
  show ?thesis
  proof (cases d rule: data_cases)
    case None
    with ty show ?thesis by (intro Void) (simp_all add: type_group_void element4_data_bytes_def)
  next
    case Array': (Array a)
    with ty show ?thesis by (intro Array) auto
  next
    case Nested': (Nested t tn es)
    with ty have t: "t = ElementType f" by simp
    show ?thesis
    proof (cases "is_nested_type t")
      case True
      with Nested' t show ?thesis by (intro Nested) auto
    next
      case False
      with t Nested' fixed_nested_type4 [OF ff [unfolded Nested']] show ?thesis
        by (intro Void) (auto simp: type_group_void element4_data_bytes_def)
    qed
  qed
qed

theorem writes_Write4:
  "valid_element4 e \<Longrightarrow> writes (MessageElement_Write4 e) (element4_bytes e) e"
proof (induction e rule: element_induct)
  case (MessageElement f d)
  then have fix4: "MessageElement_UpdateData4 (MessageElement f d) = Inr (MessageElement f d)"
    by (simp add: valid_element4_def)
  have sz: "unat (ElementSize f) = length (element4_head_bytes f @ element4_data_bytes d)"
    using element4_size_both [OF MessageElement.prems] by (simp only: element4_bytes_split)
  define body where "body =
      (case type_group (ElementType f) of
         Group_void \<Rightarrow> return_s (MessageElement f d)
       | Group_array \<Rightarrow>
           (case d of
              Some (ArrayData a) \<Rightarrow> then_s (WriteArray a) (return_s (MessageElement f d))
            | _ \<Rightarrow> fail_s (UndefinedBehaviour ''static cast to RRBaseArray''))
       | Group_nested \<Rightarrow>
           (case d of
              Some (NestedElementList t tn es) \<Rightarrow>
                bind_s (Write4_elements es) (\<lambda>es'.
                  return_s (MessageElement f (Some (NestedElementList t tn es'))))
            | _ \<Rightarrow> fail_s (UndefinedBehaviour ''static cast to MessageElementNestedElementList''))
       | Group_default \<Rightarrow> throw_s DataTypeException ''Unknown data type'')"
  have W: "MessageElement_Write4 (MessageElement f d) =
    limited_w (unat (ElementSize f)) (then_s (MessageElement_Write4_head f) body)"
    unfolding MessageElement_Write4.simps [of "MessageElement f d"] fix4 bind_s_lift_Inr
      MessageElement.sel body_def by (rule refl)
  from MessageElement.prems have hd: "length (element4_head_bytes f) < 2147483648"
    by (simp add: valid_element4_def)
  have "writes body (element4_data_bytes d) (MessageElement f d)"
    using fix4
  proof (cases rule: fixed_data_cases4)
    case Void
    then show ?thesis by (simp add: body_def writes_return)
  next
    case (Array a)
    have "writes (then_s (WriteArray a) (return_s (MessageElement f d))) (array_bytes a @ []) (MessageElement f d)"
      by (intro writes_then [OF writes_WriteArray] writes_return)
    with Array show ?thesis by (simp add: body_def element4_data_bytes_def)
  next
    case (Nested tn es)
    have "\<forall>c \<in> set es. writes (MessageElement_Write4 c) (element4_bytes c) c"
      using MessageElement Nested valid_element4_children by blast
    then have "writes (bind_s (Write4_elements es) (\<lambda>es'.
          return_s (MessageElement f (Some (NestedElementList (ElementType f) tn es')))))
        (concat (map element4_bytes es) @ []) (MessageElement f d)"
      unfolding Nested(1) by (rule writes_bind [OF writes_Write4_elements writes_return])
    moreover have "type_group (ElementType f) = Group_nested"
      using Nested(2) by (simp add: type_group_nested)
    ultimately show ?thesis using Nested by (simp add: body_def element4_data_bytes_def)
  qed
  then show ?case unfolding W element4_bytes_split
    by (intro writes_limited [OF _ sz] writes_then [OF writes_Write4_head [OF hd]])
qed

section \<open>Read4 reads the encoding back\<close>

lemma reads_ReadArrayData:
  assumes "t = array_type a" and "n = of_nat (array_size a)"
    and "array_size a < 4294967296" and "length (array_bytes a) < 2147483648"
  shows "reads (ReadArrayData t n) (array_bytes a) (Some (ArrayData a))"
proof -
  obtain k where k: "RRArrayElementSize (array_type a) = Inr k"
    using RRArrayElementSize_defined [of "array_type a"] type_group_array [of "array_type a"] by auto
  from array_bytes_length [OF k] have len: "length (array_bytes a) = k * array_size a" by simp
  obtain a' where a': "AllocateRRArrayByType (array_type a) (array_size a) = Inr a'"
    "array_type a' = array_type a" "array_size a' = array_size a"
    using AllocateRRArrayByType_defined [of "array_type a"] type_group_array [of "array_type a"] by auto
  have "reads (bind_s (ReadArray a') (\<lambda>a. return_s (Some (ArrayData a)))) (array_bytes a @ []) (Some (ArrayData a))"
    using a' assms(4) by (intro reads_bind [OF reads_ReadArray] reads_return) auto
  then show ?thesis
    using assms(3,4) len unfolding ReadArrayData_def assms(1,2)
    by (simp add: k a'(1))
       (auto simp: a'(1) intro!: reads_limit_guard reads_guard_then heap_alloc_fits)
qed

text \<open>An encoded element has at least five bytes: the children fit the reserved vector.\<close>

lemma head4_bytes_min: "5 \<le> length (element4_head_bytes f)"
  using GetUintXByteCount_bounds(1) [of "ElementSize f"] GetUintXByteCount_bounds(1) [of "DataCount f"]
  by (simp add: element4_head_bytes_def element4_fields_bytes_def)

lemma element4_bytes_min: "5 \<le> length (element4_bytes e)"
  using head4_bytes_min by (cases e) (simp only: element4_bytes_split length_append trans_le_add1)

lemma children4_bytes_min: "5 * length es \<le> length (concat (map element4_bytes es))"
proof (induction es)
  case (Cons c es)
  then show ?case using element4_bytes_min [of c] by simp
qed simp

lemma child4_bytes_less:
  assumes "c \<in> set es" and "is_nested_type t"
  shows "length (element4_bytes c) < length (element4_bytes (MessageElement f (Some (NestedElementList t tn es))))"
proof -
  have "length (element4_bytes c) \<le> length (concat (map element4_bytes es))"
    using assms(1) by (induction es) auto
  then show ?thesis using assms(2) head4_bytes_min [of f] by simp
qed

lemma reads_Read4_body:
  assumes "MessageElement_UpdateFields4 f d = Inr f"
    and "length (element4_head_bytes f) < 2147483648" and "proper_type (ElementType f)"
    and "reads (case type_group (ElementType f) of
          Group_void \<Rightarrow> return_s None
        | Group_array \<Rightarrow> ReadArrayData (ElementType f) (DataCount f)
        | Group_nested \<Rightarrow> ReadNestedData rd (ElementType f) (ElementTypeName f) (DataCount f)
        | Group_default \<Rightarrow> throw_s ProtocolException ''Invalid message element type'') bs d'"
  shows "reads (MessageElement_Read4_body rd (ElementSize f)) (element4_fields_bytes f @ bs)
    (MessageElement (view_fields4 f) d')"
proof -
  note ff = fixed_flags4 [OF assms(1)]
  have d: "DataTypes_of_code (DataTypes_code (ElementType f)) = ElementType f"
    using assms(3) by simp
  have tn: "(if flag_set (ElementFlags f) MessageElementFlags_ELEMENT_TYPE_NAME_STR then ElementTypeName f else '''')
    = ElementTypeName f" using ff(1) by simp
  have "reads (MessageElement_Read4_body rd (ElementSize f)) (element4_fields_bytes f @ bs @ [])
    (MessageElement (view_fields4 f) d')"
    unfolding element4_fields_bytes_def MessageElement_Read4_body_def append_assoc
    apply (rule reads_bind [OF reads_ReadNumber8])
    apply (rule reads_bind [OF reads_set_when_if])
    apply (rule reads_xstring, use head4_lengths [OF assms(2)] in force)
    apply (rule reads_bind [OF reads_set_when_if [OF reads_ReadUintX]])
    apply (rule reads_bind [OF reads_set_when_if [OF reads_ReadIntX]])
    apply (rule reads_bind [OF reads_ReadNumber16])
    apply (rule reads_bind [OF reads_set_when_if])
    apply (rule reads_xstring, use head4_lengths [OF assms(2)] in force)
    apply (rule reads_bind [OF reads_set_when_if [OF reads_ReadUintX]])
    apply (rule reads_bind [OF reads_set_when_if])
    apply (rule reads_xstring, use head4_lengths [OF assms(2)] in force)
    apply (rule reads_bind [OF reads_set_when_if])
    apply (rule reads_extended, use head4_lengths [OF assms(2)] in force)
    apply (rule reads_bind [OF reads_ReadUintX])
    apply (unfold d tn)
    apply (rule reads_bind [OF assms(4)])
    apply (rule reads_return_eq)
    using ff(1-3) by (simp add: view_fields4_def)
  then show ?thesis by simp
qed

lemma fixed_proper4:
  assumes "MessageElement_UpdateData4 (MessageElement f d) = Inr (MessageElement f d)"
  shows "proper_type (ElementType f)"
  using assms
  by (cases rule: fixed_data_cases4) (auto simp: type_group_void)

lemma reads_ReadNestedData:
  assumes "\<forall>c \<in> set es. reads rd (element4_bytes c) (element4_view c)"
    and "length es < 4294967296"
  shows "reads (ReadNestedData rd t tn (of_nat (length es))) (concat (map element4_bytes es))
    (Some (NestedElementList t tn (map element4_view es)))"
proof -
  have "reads (bind_s (repeat_s (length es) rd) (\<lambda>l. return_s (Some (NestedElementList t tn l))))
      (concat (map element4_bytes es) @ []) (Some (NestedElementList t tn (map element4_view es)))"
    by (rule reads_bind [OF reads_repeat_all [OF assms(1)] reads_return])
  moreover have "4 * length es \<le> length (concat (map element4_bytes es))"
    using children4_bytes_min [of es] by linarith
  ultimately show ?thesis
    using assms(2) unfolding ReadNestedData_def
    by (auto intro!: reads_guard_then heap_alloc_fits)
qed

theorem reads_Read4_fuel:
  "valid_element4 e \<Longrightarrow> length (element4_bytes e) \<le> k \<Longrightarrow>
   reads (MessageElement_Read4_fuel k) (element4_bytes e) (element4_view e)"
proof (induction e arbitrary: k rule: element_induct)
  case (MessageElement f d)
  then obtain k' where k: "k = Suc k'"
    using element4_bytes_min [of "MessageElement f d"] by (cases k) auto
  from MessageElement.prems have fix4: "MessageElement_UpdateData4 (MessageElement f d) = Inr (MessageElement f d)"
    and hd: "length (element4_head_bytes f) < 2147483648"
    and small: "length (element4_data_bytes d) < 2147483648"
    by (simp_all add: valid_element4_def element4_bytes_split del: element4_bytes.simps)
  note ff = fixed_fields4(1) [OF fix4]
  have sz: "unat (ElementSize f - of_nat (GetUintXByteCount (ElementSize f)))
      = length (element4_fields_bytes f @ element4_data_bytes d)"
    using element4_size_both [OF MessageElement.prems(1)]
    by (simp only: element4_bytes_split element4_head_bytes_def) simp
  define d' where "d' = dat (element4_view (MessageElement f d))"
  then have v: "element4_view (MessageElement f d) = MessageElement (view_fields4 f) d'" by simp
  have "reads (case type_group (ElementType f) of
          Group_void \<Rightarrow> return_s None
        | Group_array \<Rightarrow> ReadArrayData (ElementType f) (DataCount f)
        | Group_nested \<Rightarrow> ReadNestedData (MessageElement_Read4_fuel k') (ElementType f) (ElementTypeName f) (DataCount f)
        | Group_default \<Rightarrow> throw_s ProtocolException ''Invalid message element type'') (element4_data_bytes d) d'"
    using fix4
  proof (cases rule: fixed_data_cases4)
    case Void
    then show ?thesis by (simp add: d'_def reads_return)
  next
    case (Array a)
    then show ?thesis
      using reads_ReadArrayData [of "ElementType f" a "DataCount f"] fixed_array4 [OF ff [unfolded Array(1)]] small
      by (simp add: d'_def element4_data_bytes_def)
  next
    case (Nested tn es)
    have "\<forall>c \<in> set es. reads (MessageElement_Read4_fuel k') (element4_bytes c) (element4_view c)"
    proof
      fix c assume c: "c \<in> set es"
      have "length (element4_bytes c) \<le> k'"
        using child4_bytes_less [OF c Nested(2), of f tn] MessageElement.prems(2) Nested(1) k by simp
      with MessageElement.IH [OF Nested(1) c] c valid_element4_children [OF _ Nested(2)] MessageElement.prems(1)
      show "reads (MessageElement_Read4_fuel k') (element4_bytes c) (element4_view c)"
        unfolding Nested(1) by blast
    qed
    then have "reads (ReadNestedData (MessageElement_Read4_fuel k') (ElementType f) (ElementTypeName f)
        (of_nat (length es))) (concat (map element4_bytes es))
      (Some (NestedElementList (ElementType f) (ElementTypeName f) (map element4_view es)))"
      using fixed_nested4(1) [OF ff [unfolded Nested(1)] Nested(2)] by (rule reads_ReadNestedData)
    moreover have "type_group (ElementType f) = Group_nested"
      using Nested(2) by (simp add: type_group_nested)
    moreover have "DataCount f = of_nat (length es)"
      by (rule fixed_nested4(2) [OF ff [unfolded Nested(1)] Nested(2)])
    ultimately show ?thesis
      using Nested(2) unfolding d'_def Nested(1) by (simp add: element4_data_bytes_def)
  qed
  note body = reads_Read4_body [OF ff hd fixed_proper4 [OF fix4] this]
  show ?case
    unfolding v k MessageElement_Read4_fuel.simps element4_bytes_split element4_head_bytes_def append_assoc
    by (rule reads_bind [OF reads_ReadUintX], rule reads_limited [OF body sz])
qed

theorem reads_Read4:
  assumes "valid_element4 e"
  shows "reads MessageElement_Read4 (element4_bytes e) (element4_view e)"
proof (rule readsI)
  fix r assume ok: "ok_reader r" and s: "sees r (element4_bytes e)"
  from sees_fits [OF this] have "length (element4_bytes e) \<le> Suc (length (r_buffer r))" by simp
  with assms have "reads (MessageElement_Read4_fuel (Suc (length (r_buffer r)))) (element4_bytes e) (element4_view e)"
    by (rule reads_Read4_fuel)
  with ok s show "MessageElement_Read4 r = Inr (element4_view e, advance (length (element4_bytes e)) r)"
    unfolding MessageElement_Read4_def by (auto dest: readsD)
qed

section \<open>The format as a codec\<close>

interpretation element4: sized_codec
  MessageElement_Write4 MessageElement_Read4 element4_bytes "\<lambda>e. e" element4_view valid_element4
  "\<lambda>e. unat (ElementSize (flds e))"
proof unfold_locales
  fix e assume v: "valid_element4 e"
  show "writes (MessageElement_Write4 e) (element4_bytes e) e" by (rule writes_Write4 [OF v])
  show "reads MessageElement_Read4 (element4_bytes e) (element4_view e)" by (rule reads_Read4 [OF v])
  show "length (element4_bytes e) = unat (ElementSize (flds e))"
    using v element4_size_both by (cases e) simp
qed

text \<open>Writing an element whose fields are stale is writing the updated element.\<close>

lemma Write4_updates:
  assumes "MessageElement_UpdateData4 e = Inr e'"
  shows "MessageElement_Write4 e = MessageElement_Write4 e'"
  unfolding MessageElement_Write4.simps [of e] MessageElement_Write4.simps [of e']
    assms UpdateData4_idem(1) [OF assms] ..

lemma valid_element4_updated:
  "MessageElement_UpdateData4 e = Inr e' \<Longrightarrow> length (element4_bytes e') < 2147483648 \<Longrightarrow> valid_element4 e'"
  using UpdateData4_idem(1) [of e e'] by (simp add: valid_element4_def)

end
