(* ===== verification/RR_Message4.thy ===== *)
theory RR_Message4
  imports RR_Element4_Laws
begin

text \<open>
  \<open>MessageEntry\<close>, \<open>MessageHeader\<close> and \<open>Message\<close> in message format version 4 (\<open>Message.cpp\<close>): the
  definitions.  Their laws are in \<open>RR_Message4_Laws\<close>.
\<close>

section \<open>Entries\<close>

text \<open>A sequence of \<open>if (c) s += m;\<close> statements.\<close>

fun add_whens :: "(bool \<times> nat result) list \<Rightarrow> nat \<Rightarrow> nat result" where
  "add_whens [] s = Inr s"
| "add_whens ((c, m) # cms) s = bind_r (add_when c m s) (add_whens cms)"

definition MessageEntry_size_parts4 :: "message_entry \<Rightarrow> (bool \<times> nat result) list" where
  "MessageEntry_size_parts4 m =
     [(flag_set (EntryFlags m) MessageEntryFlags_SERVICE_PATH_STR, GetStringByteCount8WithXLen (ServicePath m)),
      (flag_set (EntryFlags m) MessageEntryFlags_SERVICE_PATH_CODE, Inr (GetUintXByteCount (ServicePathCode m))),
      (flag_set (EntryFlags m) MessageEntryFlags_MEMBER_NAME_STR, GetStringByteCount8WithXLen (MemberName m)),
      (flag_set (EntryFlags m) MessageEntryFlags_MEMBER_NAME_CODE, Inr (GetUintXByteCount (MemberNameCode m))),
      (flag_set (EntryFlags m) MessageEntryFlags_REQUEST_ID, Inr (GetUintXByteCount (RequestID m))),
      (flag_set (EntryFlags m) MessageEntryFlags_ERROR, Inr 2),
      (flag_set (EntryFlags m) MessageEntryFlags_META_INFO, GetStringByteCount8WithXLen (EntryMetaData m)),
      (flag_set (EntryFlags m) MessageEntryFlags_EXTENDED,
         Inr (size_add (GetUintXByteCount (of_nat (length (EntryExtended m)))) (length (EntryExtended m)))),
      (True, Inr (GetUintXByteCount (of_nat (length (elements m)))))]"

definition MessageEntry_ComputeSize4 :: "message_entry \<Rightarrow> (32 word \<times> MessageElement list) result" where
  "MessageEntry_ComputeSize4 m =
     bind_r (UpdateData4_elements 3 (elements m)) (\<lambda>(s, es).
     bind_r (add_whens (MessageEntry_size_parts4 m) s) (\<lambda>s.
     bind_r (GetSizePlusUintX s) (\<lambda>s.
     bind_r (numeric_cast_u32 s) (\<lambda>n. Inr (n, es)))))"

definition MessageEntry_UpdateFlags4 :: "message_entry \<Rightarrow> message_entry" where
  "MessageEntry_UpdateFlags4 m =
     (let fl = set_flag (EntryFlags m) MessageEntryFlags_REQUEST_ID (RequestID m \<noteq> 0);
          fl = set_flag fl MessageEntryFlags_ERROR (EntryError m \<noteq> 0);
          fl = set_flag fl MessageEntryFlags_META_INFO (length (EntryMetaData m) > 0);
          fl = set_flag fl MessageFlags_EXTENDED (length (EntryExtended m) \<noteq> 0)
      in m\<lparr>EntryFlags := fl\<rparr>)"

definition MessageEntry_UpdateData4 :: "message_entry \<Rightarrow> message_entry result" where
  "MessageEntry_UpdateData4 m =
     (let m = MessageEntry_UpdateFlags4 m in
      bind_r (MessageEntry_ComputeSize4 m) (\<lambda>(n, es). Inr (m\<lparr>EntrySize := n, elements := es\<rparr>)))"

text \<open>The statements of \<open>Write4\<close> from the size to the element count.\<close>

definition MessageEntry_Write4_head :: "message_entry \<Rightarrow> unit writes" where
  "MessageEntry_Write4_head m =
     then_s (WriteUintX (EntrySize m))
    (then_s (WriteNumber (EntryFlags m))
    (then_s (WriteNumber (EntryType m))
    (then_s (when_s (flag_set (EntryFlags m) MessageEntryFlags_SERVICE_PATH_STR)
               (WriteString8WithXLen (ServicePath m)))
    (then_s (when_s (flag_set (EntryFlags m) MessageEntryFlags_SERVICE_PATH_CODE)
               (WriteUintX (ServicePathCode m)))
    (then_s (when_s (flag_set (EntryFlags m) MessageEntryFlags_MEMBER_NAME_STR)
               (WriteString8WithXLen (MemberName m)))
    (then_s (when_s (flag_set (EntryFlags m) MessageEntryFlags_MEMBER_NAME_CODE)
               (WriteUintX (MemberNameCode m)))
    (then_s (when_s (flag_set (EntryFlags m) MessageEntryFlags_REQUEST_ID)
               (WriteUintX (RequestID m)))
    (then_s (when_s (flag_set (EntryFlags m) MessageEntryFlags_ERROR)
               (WriteNumber (EntryError m)))
    (then_s (when_s (flag_set (EntryFlags m) MessageEntryFlags_META_INFO)
               (WriteString8WithXLen (EntryMetaData m)))
    (then_s (when_s (flag_set (EntryFlags m) MessageFlags_EXTENDED)
               (WriteExtended (EntryExtended m)))
            (bind_s (lift_s (numeric_cast_u32 (length (elements m)))) WriteUintX)))))))))))"

definition MessageEntry_Write4 :: "message_entry \<Rightarrow> message_entry writes" where
  "MessageEntry_Write4 m =
     bind_s (lift_s (MessageEntry_UpdateData4 m)) (\<lambda>m.
       limited_w (unat (EntrySize m))
         (then_s (MessageEntry_Write4_head m)
           (bind_s (for_s MessageElement_Write4 (elements m)) (\<lambda>es.
              return_s (m\<lparr>elements := es\<rparr>)))))"

definition MessageEntry_Read4_body :: "32 word \<Rightarrow> message_entry reads" where
  "MessageEntry_Read4_body entry_size =
     bind_s (ReadNumber :: 8 word reads) (\<lambda>fl.
     bind_s (ReadNumber :: 16 word reads) (\<lambda>entry_type.
     bind_s (set_when (flag_set fl MessageEntryFlags_SERVICE_PATH_STR) ReadString8WithXLen '''') (\<lambda>service_path.
     bind_s (set_when (flag_set fl MessageEntryFlags_SERVICE_PATH_CODE) ReadUintX 0) (\<lambda>service_path_code.
     bind_s (set_when (flag_set fl MessageEntryFlags_MEMBER_NAME_STR) ReadString8WithXLen '''') (\<lambda>member_name.
     bind_s (set_when (flag_set fl MessageEntryFlags_MEMBER_NAME_CODE) ReadUintX 0) (\<lambda>member_name_code.
     bind_s (set_when (flag_set fl MessageEntryFlags_REQUEST_ID) ReadUintX 0) (\<lambda>request_id.
     bind_s (set_when (flag_set fl MessageEntryFlags_ERROR) (ReadNumber :: 16 word reads) 0) (\<lambda>err.
     bind_s (set_when (flag_set fl MessageEntryFlags_META_INFO) ReadString8WithXLen '''') (\<lambda>metadata.
     bind_s (set_when (flag_set fl MessageFlags_EXTENDED) ReadExtended []) (\<lambda>ext.
     bind_s ReadUintX (\<lambda>ecount.
     then_s (heap_alloc (4 * unat ecount))
    (bind_s (repeat_s (unat ecount) MessageElement_Read4) (\<lambda>es.
     return_s
       \<lparr>EntrySize = entry_size, EntryFlags = fl, EntryType = entry_type, ServicePath = service_path,
        ServicePathCode = service_path_code, MemberName = member_name,
        MemberNameCode = member_name_code, RequestID = request_id, EntryError = err,
        EntryMetaData = metadata, EntryExtended = ext, elements = es\<rparr>)))))))))))))"

definition MessageEntry_Read4 :: "message_entry reads" where
  "MessageEntry_Read4 =
     bind_s ReadUintX (\<lambda>entry_size.
       limited_r (unat (entry_size - of_nat (GetUintXByteCount entry_size)))
         (MessageEntry_Read4_body entry_size))"

section \<open>Headers\<close>

text \<open>The string table loop of \<open>ComputeSize4\<close>, on the \<open>uint32_t\<close> counter \<open>s1\<close>.\<close>

fun StringTable_size :: "(32 word \<times> string) list \<Rightarrow> nat \<Rightarrow> nat result" where
  "StringTable_size [] s1 = Inr s1"
| "StringTable_size ((c, v) # t) s1 =
     bind_r (GetStringByteCount8WithXLen v) (\<lambda>n.
       StringTable_size t (size_add (size_add s1 (GetUintXByteCount c)) n))"

definition StringTable_section_size :: "(32 word \<times> string) list \<Rightarrow> nat result" where
  "StringTable_section_size t =
     bind_r (StringTable_size t 0) (\<lambda>s1.
       if s1 > 1024 then throw_r ProtocolException ''String table too large''
       else Inr (size_add s1 (GetUintXByteCount (of_nat (length t)))))"

definition MessageHeader_size_parts4 :: "message_header \<Rightarrow> (bool \<times> nat result) list" where
  "MessageHeader_size_parts4 h =
       [(flag_set (MessageFlags h) MessageFlags_ROUTING_INFO, Inr 32),
        (flag_set (MessageFlags h) MessageFlags_ROUTING_INFO, GetStringByteCount8WithXLen (SenderNodeName h)),
        (flag_set (MessageFlags h) MessageFlags_ROUTING_INFO, GetStringByteCount8WithXLen (ReceiverNodeName h)),
        (flag_set (MessageFlags h) MessageFlags_ENDPOINT_INFO, Inr (GetUintXByteCount (SenderEndpoint h))),
        (flag_set (MessageFlags h) MessageFlags_ENDPOINT_INFO, Inr (GetUintXByteCount (ReceiverEndpoint h))),
        (flag_set (MessageFlags h) MessageFlags_PRIORITY, Inr 2),
        (flag_set (MessageFlags h) MessageFlags_META_INFO, GetStringByteCount8WithXLen (HeaderMetaData h)),
        (flag_set (MessageFlags h) MessageFlags_META_INFO, Inr 4),
        (flag_set (MessageFlags h) MessageFlags_STRING_TABLE, StringTable_section_size (StringTable h)),
        (flag_set (MessageFlags h) MessageFlags_MULTIPLE_ENTRIES, Inr (GetUintXByteCount (ucast (EntryCount h)))),
        (flag_set (MessageFlags h) MessageFlags_EXTENDED,
           Inr (GetUintXByteCount (of_nat (length (HeaderExtended h))))),
        (flag_set (MessageFlags h) MessageFlags_EXTENDED, Inr (length (HeaderExtended h)))]"

definition MessageHeader_ComputeSize4 :: "message_header \<Rightarrow> 32 word result" where
  "MessageHeader_ComputeSize4 h =
     bind_r (add_whens (MessageHeader_size_parts4 h) 11) (\<lambda>s.
     bind_r (GetSizePlusUintX s) (\<lambda>s.
       if s > 4294967295 then throw_r ProtocolException ''MessageHeader exceeds maximum length''
       else numeric_cast_u32 s))"

definition MessageHeader_UpdateHeader4 ::
  "32 word \<Rightarrow> 16 word \<Rightarrow> message_header \<Rightarrow> message_header result" where
  "MessageHeader_UpdateHeader4 message_entry_size entry_count h =
     (let fl = set_flag (MessageFlags h) MessageFlags_MULTIPLE_ENTRIES (entry_count \<noteq> 1);
          fl = set_flag fl MessageFlags_META_INFO
                 (\<not> (length (HeaderMetaData h) = 0 \<and> MessageID h = 0 \<and> MessageResID h = 0));
          fl = set_flag fl MessageFlags_EXTENDED (length (HeaderExtended h) \<noteq> 0);
          h = h\<lparr>MessageFlags := fl, EntryCount := entry_count\<rparr>
      in bind_r (MessageHeader_ComputeSize4 h) (\<lambda>n.
           Inr (h\<lparr>HeaderSize := n, MessageSize := message_entry_size + n\<rparr>)))"

definition WriteNodeID :: "NodeID \<Rightarrow> unit writes" where
  "WriteNodeID i = then_s (for_s WriteNumber i) (return_s ())"

definition ReadNodeID :: "NodeID reads" where
  "ReadNodeID = repeat_s 16 ReadNumber"

definition WriteStringTable :: "(32 word \<times> string) list \<Rightarrow> unit writes" where
  "WriteStringTable t =
     then_s (WriteUintX (of_nat (length t)))
       (then_s (for_s (\<lambda>(c, v). then_s (WriteUintX c) (WriteString8WithXLen v)) t) (return_s ()))"

definition ReadStringTable :: "(32 word \<times> string) list reads" where
  "ReadStringTable =
     bind_s ReadUintX (\<lambda>s1.
       repeat_s (unat s1) (bind_s ReadUintX (\<lambda>c. bind_s ReadString8WithXLen (\<lambda>v. return_s (c, v)))))"

definition MessageHeader_Write4 :: "message_header \<Rightarrow> unit writes" where
  "MessageHeader_Write4 h =
     limited_w (unat (HeaderSize h))
      (then_s (WriteString8 ''RRAC'')
      (then_s (WriteNumber (MessageSize h))
      (then_s (WriteNumber (4 :: 16 word))
      (then_s (WriteUintX (HeaderSize h))
      (then_s (WriteNumber (MessageFlags h))
      (then_s (when_s (flag_set (MessageFlags h) MessageFlags_ROUTING_INFO)
        (then_s (WriteNodeID (SenderNodeID h))
        (then_s (WriteNodeID (ReceiverNodeID h))
        (then_s (WriteString8WithXLen (SenderNodeName h))
                (WriteString8WithXLen (ReceiverNodeName h))))))
      (then_s (when_s (flag_set (MessageFlags h) MessageFlags_ENDPOINT_INFO)
        (then_s (WriteUintX (SenderEndpoint h)) (WriteUintX (ReceiverEndpoint h))))
      (then_s (when_s (flag_set (MessageFlags h) MessageFlags_PRIORITY)
        (WriteNumber (Priority h)))
      (then_s (when_s (flag_set (MessageFlags h) MessageFlags_META_INFO)
        (then_s (WriteString8WithXLen (HeaderMetaData h))
        (then_s (WriteNumber (MessageID h)) (WriteNumber (MessageResID h)))))
      (then_s (when_s (flag_set (MessageFlags h) MessageFlags_STRING_TABLE)
        (WriteStringTable (StringTable h)))
      (then_s (when_s (flag_set (MessageFlags h) MessageFlags_MULTIPLE_ENTRIES)
        (WriteUintX (ucast (EntryCount h))))
              (when_s (flag_set (MessageFlags h) MessageFlags_EXTENDED)
        (WriteExtended (HeaderExtended h))))))))))))))"

text \<open>The entry count: \<open>if (c > 65535) throw\<close>, so that the \<open>numeric_cast\<close> never fails.\<close>

definition ReadEntryCount4 :: "16 word reads" where
  "ReadEntryCount4 =
     bind_s ReadUintX (\<lambda>c.
       if unat c > 65535 then throw_s ProtocolException ''Too many entries in message''
       else lift_s (numeric_cast_u16 (unat c)))"

definition MessageHeader_Read4_body :: "32 word \<Rightarrow> 32 word \<Rightarrow> message_header reads" where
  "MessageHeader_Read4_body message_size header_size =
     bind_s (ReadNumber :: 8 word reads) (\<lambda>fl.
     bind_s (set_when (flag_set fl MessageFlags_ROUTING_INFO)
       (bind_s ReadNodeID (\<lambda>si. bind_s ReadNodeID (\<lambda>ri.
        bind_s ReadString8WithXLen (\<lambda>sn. bind_s ReadString8WithXLen (\<lambda>rn.
        return_s (si, ri, sn, rn))))))
       (replicate 16 0, replicate 16 0, '''', '''')) (\<lambda>(si, ri, sn, rn).
     bind_s (set_when (flag_set fl MessageFlags_ENDPOINT_INFO)
       (bind_s ReadUintX (\<lambda>se. bind_s ReadUintX (\<lambda>re. return_s (se, re)))) (0, 0)) (\<lambda>(se, re).
     bind_s (set_when (flag_set fl MessageFlags_PRIORITY) (ReadNumber :: 16 word reads) 0) (\<lambda>prio.
     bind_s (set_when (flag_set fl MessageFlags_META_INFO)
       (bind_s ReadString8WithXLen (\<lambda>md. bind_s (ReadNumber :: 16 word reads) (\<lambda>mid.
        bind_s (ReadNumber :: 16 word reads) (\<lambda>mres. return_s (md, mid, mres)))))
       ('''', 0, 0)) (\<lambda>(md, mid, mres).
     bind_s (set_when (flag_set fl MessageFlags_STRING_TABLE) ReadStringTable []) (\<lambda>table.
     bind_s (set_when (flag_set fl MessageFlags_MULTIPLE_ENTRIES) ReadEntryCount4 1) (\<lambda>count.
     bind_s (set_when (flag_set fl MessageFlags_EXTENDED) ReadExtended []) (\<lambda>ext.
     return_s
       \<lparr>HeaderSize = header_size, MessageFlags = fl, SenderEndpoint = se, ReceiverEndpoint = re,
        SenderNodeName = sn, ReceiverNodeName = rn, SenderNodeID = si, ReceiverNodeID = ri,
        HeaderMetaData = md, EntryCount = count, MessageID = mid, MessageResID = mres,
        MessageSize = message_size, StringTable = table, Priority = prio,
        HeaderExtended = ext\<rparr>))))))))"

definition MessageHeader_Read4 :: "message_header reads" where
  "MessageHeader_Read4 =
     bind_s (ReadString8 4) (\<lambda>magic.
     if magic \<noteq> ''RRAC'' then throw_s ProtocolException ''Incorrect message magic''
     else
       bind_s (ReadNumber :: 32 word reads) (\<lambda>message_size.
       bind_s (ReadNumber :: 16 word reads) (\<lambda>version.
       if version \<noteq> 4 then throw_s ProtocolException ''Unknown protocol version''
       else
         bind_s ReadUintX (\<lambda>header_size.
           limited_r (unat (header_size - 10 - of_nat (GetUintXByteCount header_size)))
             (MessageHeader_Read4_body message_size header_size)))))"

section \<open>Messages\<close>

text \<open>The loop of \<open>ComputeSize4\<close>: the sum is a \<open>uint64_t\<close> that at most 65535 sizes cannot overflow.\<close>

fun UpdateData4_entries :: "nat \<Rightarrow> message_entry list \<Rightarrow> (nat \<times> message_entry list) result" where
  "UpdateData4_entries s [] = Inr (s, [])"
| "UpdateData4_entries s (e # es) =
     bind_r (MessageEntry_UpdateData4 e) (\<lambda>e.
     bind_r (UpdateData4_entries (s + unat (EntrySize e)) es) (\<lambda>(s, es). Inr (s, e # es)))"

text \<open>
  The second check of \<open>ComputeSize4\<close> compares a \<open>uint32_t\<close> with its own maximum and never fires.
\<close>

definition Message_ComputeSize4 :: "message \<Rightarrow> (32 word \<times> message) result" where
  "Message_ComputeSize4 m =
     (case header m of
        None \<Rightarrow> Inl (UndefinedBehaviour ''null header'')
      | Some h \<Rightarrow>
          bind_r (numeric_cast_u16 (length (entries m))) (\<lambda>count.
          bind_r (UpdateData4_entries 0 (entries m)) (\<lambda>(s, es).
          if s > 4294967295 then throw_r ProtocolException ''Message exceeds maximum length''
          else
            bind_r (numeric_cast_u32 s) (\<lambda>n.
            bind_r (MessageHeader_UpdateHeader4 n count (h\<lparr>EntryCount := count\<rparr>)) (\<lambda>h.
              if unat (MessageSize h) > 4294967295
              then throw_r ProtocolException ''Message exceeds maximum length''
              else Inr (MessageSize h, \<lparr>header = Some h, entries = es\<rparr>))))))"

text \<open>\<open>Write4\<close> does not check \<open>DistanceFromLimit\<close> before \<open>PopLimit\<close>.\<close>

definition Message_Write4 :: "message \<Rightarrow> message writes" where
  "Message_Write4 m =
     bind_s (lift_s (Message_ComputeSize4 m)) (\<lambda>(s, m).
     case header m of
       None \<Rightarrow> fail_s (UndefinedBehaviour ''null header'')
     | Some h \<Rightarrow>
         then_s (PushRelativeLimit_w (unat s))
        (then_s (MessageHeader_Write4 h)
        (bind_s (for_s MessageEntry_Write4 (entries m)) (\<lambda>es.
         then_s PopLimit_w (return_s (m\<lparr>entries := es\<rparr>))))))"

text \<open>\<open>Read4\<close> leaves the limit it pushed after the header on the stack.\<close>

definition Message_Read4 :: "message reads" where
  "Message_Read4 =
     bind_s MessageHeader_Read4 (\<lambda>h.
     then_s (PushRelativeLimit_r (unat (MessageSize h - HeaderSize h)))
    (bind_s (repeat_s (unat (EntryCount h)) MessageEntry_Read4) (\<lambda>es.
     return_s \<lparr>header = Some h, entries = es\<rparr>)))"

end
