(* ===== verification/RR_Message2.thy ===== *)
theory RR_Message2
  imports RR_Message4
begin

text \<open>
  Message format version 2 (\<open>UpdateData\<close>, \<open>ComputeSize\<close>, \<open>Write\<close>, \<open>Read\<close> of \<open>Message.cpp\<close>) for
  elements, entries, headers and messages: the definitions.  Their laws are in
  \<open>RR_Message2_Laws\<close>.  The argument \<open>lexical_cast\<close> is \<open>boost::lexical_cast<std::string>\<close> of an
  \<open>int32_t\<close>.
\<close>

section \<open>Elements\<close>

text \<open>The three string sizes of a record, each checked against a 16-bit length.\<close>

definition checked_sizes :: "(string \<times> string) list \<Rightarrow> nat result" where
  "checked_sizes xs =
     (case find (\<lambda>(s, _). GetStringByteCount8 s > 65535) xs of
        Some (_, what) \<Rightarrow> throw_r ProtocolException (what @ '' exceeds maximum length'')
      | None \<Rightarrow> Inr (sum_list (map (\<lambda>(s, _). GetStringByteCount8 s) xs)))"

definition MessageElement_UpdateName ::
  "(32 word \<Rightarrow> string) \<Rightarrow> element_fields \<Rightarrow> element_fields result" where
  "MessageElement_UpdateName lexical_cast f =
     (let f = if flag_set (ElementFlags f) MessageElementFlags_ELEMENT_NUMBER
                 \<and> \<not> flag_set (ElementFlags f) MessageElementFlags_ELEMENT_NAME_STR
              then f\<lparr>ElementName := lexical_cast (ElementNumber f),
                     ElementFlags := set_flag (set_flag (ElementFlags f)
                       MessageElementFlags_ELEMENT_NUMBER False) MessageElementFlags_ELEMENT_NAME_STR True\<rparr>
              else f
      in if ElementFlags f \<noteq> MessageElementFlags_Version2Compat
         then throw_r ProtocolException ''Invalid message flags for Version 2 message''
         else Inr f)"

definition MessageElement_UpdateType ::
  "element_fields \<Rightarrow> MessageElementData option \<Rightarrow> element_fields result" where
  "MessageElement_UpdateType f d =
     (let f = f\<lparr>ElementType := data_type d, ElementTypeName := ''''\<rparr> in
      case type_group (ElementType f) of
        Group_void \<Rightarrow> Inr (f\<lparr>DataCount := 0\<rparr>)
      | Group_array \<Rightarrow>
          (case d of
             Some (ArrayData a) \<Rightarrow>
               bind_r (numeric_cast_u32 (array_size a)) (\<lambda>n. Inr (f\<lparr>DataCount := n\<rparr>))
           | _ \<Rightarrow> throw_r DataTypeException '''')
      | Group_nested \<Rightarrow>
          (case d of
             Some (NestedElementList t tn es) \<Rightarrow>
               bind_r (numeric_cast_u32 (length es)) (\<lambda>n.
                 Inr (f\<lparr>DataCount := n, ElementTypeName := tn\<rparr>))
           | _ \<Rightarrow> throw_r DataTypeException '''')
      | Group_default \<Rightarrow> throw_r DataTypeException ''Unknown data type'')"

definition MessageElement_UpdateFields ::
  "(32 word \<Rightarrow> string) \<Rightarrow> element_fields \<Rightarrow> MessageElementData option \<Rightarrow> element_fields result" where
  "MessageElement_UpdateFields lc f d =
     bind_r (MessageElement_UpdateName lc f) (\<lambda>f. MessageElement_UpdateType f d)"

definition element_string_sizes :: "element_fields \<Rightarrow> nat result" where
  "element_string_sizes f = checked_sizes
     [(ElementName f, ''ElementName''), (ElementTypeName f, ''ElementTypeName''),
      (ElementMetaData f, ''MessageElement MetaData'')]"

text \<open>The sum \<open>s\<close> is a \<open>uint64_t\<close>; \<open>DataCount * RRArrayElementSize\<close> is a 32-bit product.\<close>

fun MessageElement_UpdateData :: "(32 word \<Rightarrow> string) \<Rightarrow> MessageElement \<Rightarrow> MessageElement result"
and MessageElement_ComputeSize ::
  "(32 word \<Rightarrow> string) \<Rightarrow> element_fields \<Rightarrow> MessageElementData option
   \<Rightarrow> (32 word \<times> MessageElementData option) result"
and UpdateData_elements ::
  "(32 word \<Rightarrow> string) \<Rightarrow> nat \<Rightarrow> MessageElement list \<Rightarrow> (nat \<times> MessageElement list) result" where
  "MessageElement_UpdateData lc (MessageElement f d) =
     bind_r (MessageElement_UpdateFields lc f d) (\<lambda>f'.
     bind_r (MessageElement_ComputeSize lc f' d) (\<lambda>(n, d').
       Inr (MessageElement (f'\<lparr>ElementSize := n\<rparr>) d')))"
| "MessageElement_ComputeSize lc f d =
     bind_r (element_string_sizes f) (\<lambda>s.
     bind_r
       (case type_group (ElementType f) of
          Group_void \<Rightarrow> Inr (16 + s, d)
        | Group_array \<Rightarrow>
            bind_r (RRArrayElementSize (ElementType f)) (\<lambda>k.
              Inr (16 + s + size_mul (unat (DataCount f)) k, d))
        | Group_nested \<Rightarrow>
            (case d of
               Some (NestedElementList t tn es) \<Rightarrow>
                 bind_r (UpdateData_elements lc (16 + s) es) (\<lambda>(s', es').
                   Inr (s', Some (NestedElementList t tn es')))
             | Some (ArrayData a) \<Rightarrow> throw_r DataTypeMismatchException ''Data type cast error''
             | None \<Rightarrow> Inl (UndefinedBehaviour ''null element list''))
        | Group_default \<Rightarrow> throw_r DataTypeException ''Unknown data type'')
       (\<lambda>(s, d').
         if s > 4294967295 then throw_r ProtocolException ''MessageElement exceeds maximum length''
         else bind_r (numeric_cast_u32 s) (\<lambda>n. Inr (n, d'))))"
| "UpdateData_elements lc s [] = Inr (s, [])"
| "UpdateData_elements lc s (e # es) =
     bind_r (MessageElement_UpdateData lc e) (\<lambda>e'.
     bind_r (UpdateData_elements lc (s + unat (ElementSize (flds e'))) es) (\<lambda>(s', es').
       Inr (s', e' # es')))"

declare MessageElement_ComputeSize.simps [simp del]

definition MessageElement_Write_head :: "element_fields \<Rightarrow> unit writes" where
  "MessageElement_Write_head f =
     then_s (WriteNumber (ElementSize f))
    (then_s (WriteString8With16Len (ElementName f))
    (then_s (WriteNumber (DataTypes_code (ElementType f)))
    (then_s (WriteString8With16Len (ElementTypeName f))
    (then_s (WriteString8With16Len (ElementMetaData f))
            (WriteNumber (DataCount f))))))"

lemma UpdateData_nodes:
  "MessageElement_UpdateData lc e = Inr e' \<Longrightarrow> element_nodes e' = element_nodes e"
  "MessageElement_ComputeSize lc f d = Inr (n, d') \<Longrightarrow>
     element_nodes (MessageElement f d') = element_nodes (MessageElement f d)"
  "UpdateData_elements lc s es = Inr (s', es') \<Longrightarrow>
     map element_nodes es' = map element_nodes es"
proof (induction lc e and lc f d and lc s es arbitrary: e' and n d' and s' es'
    rule: MessageElement_UpdateData_MessageElement_ComputeSize_UpdateData_elements.induct)
  case (1 lc f d)
  then show ?case by (auto split: prod.splits)
next
  case (2 lc f d)
  show ?case
  proof (cases "type_group (ElementType f)")
    case Group_nested
    show ?thesis
    proof (cases d rule: data_cases)
      case (Nested t tn es)
      with "2.prems" Group_nested obtain s s' es' where h: "element_string_sizes f = Inr s"
        and u: "UpdateData_elements lc (16 + s) es = Inr (s', es')" "d' = Some (NestedElementList t tn es')"
        by (auto simp: MessageElement_ComputeSize.simps split: prod.splits if_splits)
      from "2.IH" [OF h Group_nested Nested refl u(1)] Nested u(2) show ?thesis by simp
    qed (use "2.prems" Group_nested in
        \<open>auto simp: MessageElement_ComputeSize.simps throw_r_def\<close>)
  qed (use "2.prems" in \<open>auto simp: MessageElement_ComputeSize.simps [of lc f d] split: prod.splits if_splits\<close>)
next
  case (3 lc s)
  then show ?case by simp
next
  case (4 lc s e es)
  then show ?case by (auto split: prod.splits)
qed

function MessageElement_Write :: "(32 word \<Rightarrow> string) \<Rightarrow> MessageElement \<Rightarrow> MessageElement writes"
and Write_elements :: "(32 word \<Rightarrow> string) \<Rightarrow> MessageElement list \<Rightarrow> MessageElement list writes" where
  "MessageElement_Write lc e =
     bind_s (lift_s (MessageElement_UpdateData lc e)) (\<lambda>e'.
       limited_w (unat (ElementSize (flds e')))
         (then_s (MessageElement_Write_head (flds e'))
           (case type_group (ElementType (flds e')) of
              Group_void \<Rightarrow> return_s (MessageElement ((flds e')\<lparr>DataCount := 0\<rparr>) (dat e'))
            | Group_array \<Rightarrow>
                (case dat e' of
                   Some (ArrayData a) \<Rightarrow> then_s (WriteArray a) (return_s e')
                 | None \<Rightarrow> throw_s DataTypeException ''''
                 | _ \<Rightarrow> fail_s (UndefinedBehaviour ''static cast to RRBaseArray''))
            | Group_nested \<Rightarrow>
                (case dat e' of
                   Some (NestedElementList t tn es) \<Rightarrow>
                     bind_s (Write_elements lc es) (\<lambda>es'.
                       return_s (MessageElement (flds e') (Some (NestedElementList t tn es'))))
                 | None \<Rightarrow> throw_s DataTypeException ''Expected MessageElementNestedElementList''
                 | _ \<Rightarrow> fail_s (UndefinedBehaviour ''static cast to MessageElementNestedElementList''))
            | Group_default \<Rightarrow> throw_s DataTypeException ''Unknown data type'')))"
| "Write_elements lc [] = return_s []"
| "Write_elements lc (e # es) =
     bind_s (MessageElement_Write lc e) (\<lambda>e'.
     bind_s (Write_elements lc es) (\<lambda>es'. return_s (e' # es')))"
  by pat_completeness auto
termination
proof (relation "measure (case_sum (\<lambda>(lc, e). 2 * element_nodes e)
    (\<lambda>(lc, es). Suc (2 * sum_list (map element_nodes es))))", goal_cases)
  case (2 lc e e' s s' d t tn es)
  then show ?case
    using UpdateData_nodes(1) [of lc e e'] by (cases e') simp
qed simp_all

declare MessageElement_Write.simps [simp del]

definition MessageElement_Read_body ::
  "MessageElement reads \<Rightarrow> 32 word \<Rightarrow> MessageElement reads" where
  "MessageElement_Read_body rd element_size =
     bind_s ReadString8With16Len (\<lambda>name.
     bind_s (ReadNumber :: 16 word reads) (\<lambda>tc.
     bind_s ReadString8With16Len (\<lambda>type_name.
     bind_s ReadString8With16Len (\<lambda>metadata.
     bind_s (ReadNumber :: 32 word reads) (\<lambda>count.
     bind_s
       (case type_group (DataTypes_of_code tc) of
          Group_void \<Rightarrow> return_s None
        | Group_array \<Rightarrow> ReadArrayData (DataTypes_of_code tc) count
        | Group_nested \<Rightarrow> ReadNestedData rd (DataTypes_of_code tc) type_name count
        | Group_default \<Rightarrow> throw_s DataTypeException ''Unknown data type'') (\<lambda>d.
     return_s (MessageElement
       (default_element_fields\<lparr>ElementSize := element_size, ElementName := name,
          ElementType := DataTypes_of_code tc, ElementTypeName := type_name,
          ElementMetaData := metadata, DataCount := count\<rparr>) d)))))))"

fun MessageElement_Read_fuel :: "nat \<Rightarrow> MessageElement reads" where
  "MessageElement_Read_fuel 0 = fail_s OutOfFuel"
| "MessageElement_Read_fuel (Suc k) =
     bind_s (ReadNumber :: 32 word reads) (\<lambda>element_size.
       limited_r (unat (element_size - 4))
         (MessageElement_Read_body (MessageElement_Read_fuel k) element_size))"

definition MessageElement_Read :: "MessageElement reads" where
  "MessageElement_Read r = MessageElement_Read_fuel (Suc (length (r_buffer r))) r"

section \<open>Entries\<close>

definition MessageEntry_ComputeSize ::
  "(32 word \<Rightarrow> string) \<Rightarrow> message_entry \<Rightarrow> (32 word \<times> MessageElement list) result" where
  "MessageEntry_ComputeSize lc m =
     bind_r (UpdateData_elements lc 22 (elements m)) (\<lambda>(s, es).
     bind_r (checked_sizes
       [(ServicePath m, ''ServicePath''), (MemberName m, ''MemberName''),
        (EntryMetaData m, ''MessageEntry MetaData'')]) (\<lambda>k.
       if s + k > 4294967295 then throw_r ProtocolException ''MessageEntry exceeds maximum length''
       else bind_r (numeric_cast_u32 (s + k)) (\<lambda>n. Inr (n, es))))"

definition MessageEntry_UpdateData ::
  "(32 word \<Rightarrow> string) \<Rightarrow> message_entry \<Rightarrow> message_entry result" where
  "MessageEntry_UpdateData lc m =
     (if EntryFlags m \<noteq> MessageEntryFlags_Version2Compat
      then throw_r ProtocolException ''Invalid message flags for Version 2 message''
      else
        bind_r (MessageEntry_ComputeSize lc m) (\<lambda>(n, es).
          Inr (m\<lparr>EntrySize := n, elements := es\<rparr>)))"

definition MessageEntry_Write_head :: "message_entry \<Rightarrow> unit writes" where
  "MessageEntry_Write_head m =
     then_s (WriteNumber (EntrySize m))
    (then_s (WriteNumber (EntryType m))
    (then_s (WriteNumber (0 :: 16 word))
    (then_s (WriteString8With16Len (ServicePath m))
    (then_s (WriteString8With16Len (MemberName m))
    (then_s (WriteNumber (RequestID m))
    (then_s (WriteNumber (EntryError m))
    (then_s (WriteString8With16Len (EntryMetaData m))
            (bind_s (lift_s (numeric_cast_u16 (length (elements m)))) WriteNumber))))))))"

definition MessageEntry_Write ::
  "(32 word \<Rightarrow> string) \<Rightarrow> message_entry \<Rightarrow> message_entry writes" where
  "MessageEntry_Write lc m =
     bind_s (lift_s (MessageEntry_UpdateData lc m)) (\<lambda>m.
       limited_w (unat (EntrySize m))
         (then_s (MessageEntry_Write_head m)
           (bind_s (for_s (MessageElement_Write lc) (elements m)) (\<lambda>es.
              return_s (m\<lparr>elements := es\<rparr>)))))"

definition MessageEntry_Read_body :: "32 word \<Rightarrow> message_entry reads" where
  "MessageEntry_Read_body entry_size =
     bind_s (ReadNumber :: 16 word reads) (\<lambda>entry_type.
     bind_s (ReadNumber :: 16 word reads) (\<lambda>_.
     bind_s ReadString8With16Len (\<lambda>service_path.
     bind_s ReadString8With16Len (\<lambda>member_name.
     bind_s (ReadNumber :: 32 word reads) (\<lambda>request_id.
     bind_s (ReadNumber :: 16 word reads) (\<lambda>err.
     bind_s ReadString8With16Len (\<lambda>metadata.
     bind_s (ReadNumber :: 16 word reads) (\<lambda>ecount.
     then_s (heap_alloc (4 * unat ecount))
    (bind_s (repeat_s (unat ecount) MessageElement_Read) (\<lambda>es.
     return_s (CreateMessageEntry\<lparr>EntrySize := entry_size, EntryType := entry_type,
       ServicePath := service_path, MemberName := member_name, RequestID := request_id,
       EntryError := err, EntryMetaData := metadata, elements := es\<rparr>)))))))))))"

definition MessageEntry_Read :: "message_entry reads" where
  "MessageEntry_Read =
     bind_s (ReadNumber :: 32 word reads) (\<lambda>entry_size.
       limited_r (unat (entry_size - 4)) (MessageEntry_Read_body entry_size))"

section \<open>Headers\<close>

definition MessageHeader_ComputeSize :: "message_header \<Rightarrow> 16 word result" where
  "MessageHeader_ComputeSize h =
     bind_r (checked_sizes
       [(SenderNodeName h, ''SenderNodeName''), (ReceiverNodeName h, ''ReceiverNodeName''),
        (HeaderMetaData h, ''Header MetaData'')]) (\<lambda>k.
       if 64 + k > 65535 then throw_r ProtocolException ''MessageHeader exceeds maximum length''
       else numeric_cast_u16 (64 + k))"

definition MessageHeader_UpdateHeader ::
  "32 word \<Rightarrow> 16 word \<Rightarrow> message_header \<Rightarrow> message_header result" where
  "MessageHeader_UpdateHeader message_size entry_count h =
     (if MessageFlags h \<noteq> MessageFlags_Version2Compat
      then throw_r ProtocolException ''Invalid message flags for Version 2 message''
      else
        bind_r (MessageHeader_ComputeSize h) (\<lambda>n.
          Inr (h\<lparr>HeaderSize := ucast n, MessageSize := message_size, EntryCount := entry_count\<rparr>)))"

definition MessageHeader_Write :: "message_header \<Rightarrow> unit writes" where
  "MessageHeader_Write h =
     limited_w (unat (HeaderSize h))
      (then_s (WriteString8 ''RRAC'')
      (then_s (WriteNumber (MessageSize h))
      (then_s (WriteNumber (2 :: 16 word))
      (if unat (HeaderSize h) > 65535
       then throw_s ProtocolException ''Header too large for Message 2''
       else
       then_s (bind_s (lift_s (numeric_cast_u16 (unat (HeaderSize h)))) WriteNumber)
      (then_s (WriteNodeID (SenderNodeID h))
      (then_s (WriteNodeID (ReceiverNodeID h))
      (then_s (WriteNumber (SenderEndpoint h))
      (then_s (WriteNumber (ReceiverEndpoint h))
      (then_s (WriteString8With16Len (SenderNodeName h))
      (then_s (WriteString8With16Len (ReceiverNodeName h))
      (then_s (WriteString8With16Len (HeaderMetaData h))
      (then_s (WriteNumber (EntryCount h))
      (then_s (WriteNumber (MessageID h))
              (WriteNumber (MessageResID h)))))))))))))))"

definition MessageHeader_Read_body :: "32 word \<Rightarrow> 16 word \<Rightarrow> message_header reads" where
  "MessageHeader_Read_body message_size header_size =
     bind_s ReadNodeID (\<lambda>si.
     bind_s ReadNodeID (\<lambda>ri.
     bind_s (ReadNumber :: 32 word reads) (\<lambda>se.
     bind_s (ReadNumber :: 32 word reads) (\<lambda>re.
     bind_s ReadString8With16Len (\<lambda>sn.
     bind_s ReadString8With16Len (\<lambda>rn.
     bind_s ReadString8With16Len (\<lambda>md.
     bind_s (ReadNumber :: 16 word reads) (\<lambda>count.
     bind_s (ReadNumber :: 16 word reads) (\<lambda>mid.
     bind_s (ReadNumber :: 16 word reads) (\<lambda>mres.
     return_s (CreateMessageHeader\<lparr>HeaderSize := ucast header_size, SenderEndpoint := se,
       ReceiverEndpoint := re, SenderNodeName := sn, ReceiverNodeName := rn, SenderNodeID := si,
       ReceiverNodeID := ri, HeaderMetaData := md, EntryCount := count, MessageID := mid,
       MessageResID := mres, MessageSize := message_size\<rparr>)))))))))))"

definition MessageHeader_Read :: "message_header reads" where
  "MessageHeader_Read =
     bind_s (ReadString8 4) (\<lambda>magic.
     if magic \<noteq> ''RRAC'' then throw_s ProtocolException ''Incorrect message seed''
     else
       bind_s (ReadNumber :: 32 word reads) (\<lambda>message_size.
       bind_s (ReadNumber :: 16 word reads) (\<lambda>version.
       if version \<noteq> 2 then throw_s ProtocolException ''Uknown protocol version''
       else
         bind_s (ReadNumber :: 16 word reads) (\<lambda>header_size.
           limited_r (unat (ucast header_size - 12 :: 32 word))
             (MessageHeader_Read_body message_size header_size)))))"

section \<open>Messages\<close>

fun UpdateData_entries ::
  "(32 word \<Rightarrow> string) \<Rightarrow> nat \<Rightarrow> message_entry list \<Rightarrow> (nat \<times> message_entry list) result" where
  "UpdateData_entries lc s [] = Inr (s, [])"
| "UpdateData_entries lc s (e # es) =
     bind_r (MessageEntry_UpdateData lc e) (\<lambda>e.
     bind_r (UpdateData_entries lc (s + unat (EntrySize e)) es) (\<lambda>(s, es). Inr (s, e # es)))"

definition Message_ComputeSize ::
  "(32 word \<Rightarrow> string) \<Rightarrow> message \<Rightarrow> (32 word \<times> message) result" where
  "Message_ComputeSize lc m =
     (case header m of
        None \<Rightarrow> Inl (UndefinedBehaviour ''null header'')
      | Some h \<Rightarrow>
          bind_r (MessageHeader_ComputeSize h) (\<lambda>hs.
          bind_r (UpdateData_entries lc (unat hs) (entries m)) (\<lambda>(s, es).
          if s > 4294967295 then throw_r ProtocolException ''Message exceeds maximum length''
          else
            bind_r (numeric_cast_u32 s) (\<lambda>n.
            bind_r (numeric_cast_u16 (length (entries m))) (\<lambda>count.
            bind_r (MessageHeader_UpdateHeader n count h) (\<lambda>h.
              Inr (n, \<lparr>header = Some h, entries = es\<rparr>)))))))"

definition Message_Write :: "(32 word \<Rightarrow> string) \<Rightarrow> message \<Rightarrow> message writes" where
  "Message_Write lc m =
     bind_s (lift_s (Message_ComputeSize lc m)) (\<lambda>(s, m).
     case header m of
       None \<Rightarrow> fail_s (UndefinedBehaviour ''null header'')
     | Some h \<Rightarrow>
         then_s (PushRelativeLimit_w (unat s))
        (bind_s (lift_s (numeric_cast_u16 (length (entries m)))) (\<lambda>count.
         bind_s (lift_s (MessageHeader_UpdateHeader s count h)) (\<lambda>h.
         then_s (MessageHeader_Write h)
        (bind_s (for_s (MessageEntry_Write lc) (entries m)) (\<lambda>es.
         then_s PopLimit_w (return_s (m\<lparr>header := Some h, entries := es\<rparr>))))))))"

definition Message_Read :: "message reads" where
  "Message_Read =
     bind_s MessageHeader_Read (\<lambda>h.
     then_s (PushRelativeLimit_r (unat (MessageSize h - HeaderSize h)))
    (bind_s (repeat_s (unat (EntryCount h)) MessageEntry_Read) (\<lambda>es.
     return_s \<lparr>header = Some h, entries = es\<rparr>)))"

end
