(* ===== verification/RR_Message4_Laws.thy ===== *)
theory RR_Message4_Laws
  imports RR_Message4
begin

text \<open>
  Laws of version 4 entries, headers and messages: the size fields are the lengths of what is
  written, \<open>UpdateData4\<close> is idempotent, and reading gives back what was written.
\<close>

section \<open>Sums of conditional byte counts\<close>

definition len_when :: "bool \<Rightarrow> nat \<Rightarrow> nat" where
  "len_when c n = (if c then n else 0)"

lemma length_if_Nil [simp]: "length (if c then bs else []) = len_when c (length bs)"
  by (simp add: len_when_def)

lemma len_when_simps [simp]: "len_when True n = n" "len_when False n = 0"
  by (simp_all add: len_when_def)

lemma add_whens_exact:
  "add_whens cms s = Inr s' \<Longrightarrow>
   list_all2 (\<lambda>(c, m) l. c \<longrightarrow> (\<forall>k. m = Inr k \<longrightarrow> k = l)) cms ls \<Longrightarrow>
   s + sum_list (map2 (\<lambda>(c, m) l. len_when c l) cms ls) < 4294967296 \<Longrightarrow>
   s' = s + sum_list (map2 (\<lambda>(c, m) l. len_when c l) cms ls)"
proof (induction cms arbitrary: s ls)
  case Nil
  then show ?case by simp
next
  case (Cons cm cms)
  obtain c m where cm: "cm = (c, m)" by (cases cm)
  from Cons.prems(2) obtain l ls' where ls: "ls = l # ls'"
    and l: "\<And>k. c \<Longrightarrow> m = Inr k \<Longrightarrow> k = l"
    and rest: "list_all2 (\<lambda>(c, m) l. c \<longrightarrow> (\<forall>k. m = Inr k \<longrightarrow> k = l)) cms ls'"
    by (auto simp: cm list_all2_Cons1)
  from Cons.prems(1) obtain s1 where s1: "add_when c m s = Inr s1" and rec: "add_whens cms s1 = Inr s'"
    by (auto simp: cm)
  have "s1 = s + len_when c l"
    using s1 l Cons.prems(3) by (auto simp: ls cm add_when_def len_when_def split: if_splits)
  then show ?case
    using Cons.IH [OF rec rest] Cons.prems(3) by (simp add: ls cm)
qed

text \<open>The size field of a record: \<open>GetSizePlusUintX\<close> counts the bytes of the size itself.\<close>

lemma size_field_exact:
  assumes "bind_r (GetSizePlusUintX s) numeric_cast_u32 = Inr n"
    and "s + GetUintXByteCount n < 2147483648"
  shows "unat n = GetUintXByteCount n + s" and "unat (n - of_nat (GetUintXByteCount n)) = s"
  using GetSizePlusUintX_exact [OF assms(1)] assms(2) by simp_all

lemma size_add_uintx [simp]:
  "n < 4294967291 \<Longrightarrow> size_add (GetUintXByteCount v) n = GetUintXByteCount v + n"
  using GetUintXByteCount_bounds(2) [of v] by simp

section \<open>Entries\<close>

subsection \<open>UpdateData4\<close>

lemma UpdateFlags4_fixed_iff:
  "MessageEntry_UpdateFlags4 m = m \<longleftrightarrow>
     bit (EntryFlags m) 4 = (RequestID m \<noteq> 0) \<and> bit (EntryFlags m) 5 = (EntryError m \<noteq> 0)
     \<and> bit (EntryFlags m) 6 = (EntryMetaData m \<noteq> []) \<and> bit (EntryFlags m) 7 = (EntryExtended m \<noteq> [])"
  (is "?l \<longleftrightarrow> ?r")
proof
  assume ?l
  then have fl: "EntryFlags (MessageEntry_UpdateFlags4 m) = EntryFlags m" by simp
  show ?r
    unfolding fl [symmetric] by (simp add: MessageEntry_UpdateFlags4_def Let_def)
next
  assume ?r
  then show ?l by (simp add: MessageEntry_UpdateFlags4_def)
qed

lemma UpdateFlags4_result:
  "MessageEntry_UpdateFlags4 ((MessageEntry_UpdateFlags4 m)\<lparr>EntrySize := n, elements := es\<rparr>)
   = (MessageEntry_UpdateFlags4 m)\<lparr>EntrySize := n, elements := es\<rparr>"
  by (simp only: UpdateFlags4_fixed_iff) (simp add: MessageEntry_UpdateFlags4_def Let_def)

lemma EntryComputeSize4_InrE:
  assumes "MessageEntry_ComputeSize4 m = Inr (n, es)"
  obtains s s' where "UpdateData4_elements 3 (elements m) = Inr (s, es)"
    and "add_whens (MessageEntry_size_parts4 m) s = Inr s'"
    and "bind_r (GetSizePlusUintX s') numeric_cast_u32 = Inr n"
  using assms unfolding MessageEntry_ComputeSize4_def by (auto split: prod.splits)

lemma MessageEntry_size_parts4_update:
  "length es = length (elements m) \<Longrightarrow>
   MessageEntry_size_parts4 (m\<lparr>EntrySize := n, elements := es\<rparr>) = MessageEntry_size_parts4 m"
  by (simp add: MessageEntry_size_parts4_def)

lemma EntryUpdateData4_InrE:
  assumes "MessageEntry_UpdateData4 m = Inr m'"
  obtains n es where "MessageEntry_ComputeSize4 (MessageEntry_UpdateFlags4 m) = Inr (n, es)"
    and "m' = (MessageEntry_UpdateFlags4 m)\<lparr>EntrySize := n, elements := es\<rparr>"
  using assms by (auto simp: MessageEntry_UpdateData4_def Let_def split: prod.splits)

lemma EntryUpdateData4_idem:
  assumes "MessageEntry_UpdateData4 m = Inr m'"
  shows "MessageEntry_UpdateData4 m' = Inr m'"
proof -
  define f where "f = MessageEntry_UpdateFlags4 m"
  from assms obtain n es where c: "MessageEntry_ComputeSize4 f = Inr (n, es)"
    and m': "m' = f\<lparr>EntrySize := n, elements := es\<rparr>"
    by (auto simp: MessageEntry_UpdateData4_def f_def Let_def split: prod.splits)
  from c obtain s where "UpdateData4_elements 3 (elements f) = Inr (s, es)"
    by (rule EntryComputeSize4_InrE)
  moreover from this have "UpdateData4_elements 3 es = Inr (s, es)" by (rule UpdateData4_idem_all(3))
  ultimately have "MessageEntry_ComputeSize4 m' = Inr (n, es)"
    using c UpdateData4_elements_length
    by (fastforce simp: m' MessageEntry_ComputeSize4_def MessageEntry_size_parts4_update)
  moreover have "MessageEntry_UpdateFlags4 m' = m'"
    unfolding m' f_def by (rule UpdateFlags4_result)
  ultimately show ?thesis
    by (simp add: MessageEntry_UpdateData4_def) (simp add: m')
qed

lemma fixed_entry4:
  assumes "MessageEntry_UpdateData4 m = Inr m"
  shows "MessageEntry_UpdateFlags4 m = m"
    and "MessageEntry_ComputeSize4 m = Inr (EntrySize m, elements m)"
proof -
  from assms obtain n es where c: "MessageEntry_ComputeSize4 (MessageEntry_UpdateFlags4 m) = Inr (n, es)"
    and m: "m = (MessageEntry_UpdateFlags4 m)\<lparr>EntrySize := n, elements := es\<rparr>"
    by (rule EntryUpdateData4_InrE)
  show u: "MessageEntry_UpdateFlags4 m = m"
    using UpdateFlags4_result [where m = m and n = n and es = es] unfolding m [symmetric] .
  have "EntrySize m = n" "elements m = es"
    by (subst m, simp)+
  then show "MessageEntry_ComputeSize4 m = Inr (EntrySize m, elements m)"
    using c unfolding u by simp
qed

subsection \<open>The encoding\<close>

definition entry4_fields_bytes :: "message_entry \<Rightarrow> byte list" where
  "entry4_fields_bytes m =
     num_bytes (EntryFlags m) @ num_bytes (EntryType m)
     @ (if flag_set (EntryFlags m) MessageEntryFlags_SERVICE_PATH_STR then xstring_bytes (ServicePath m) else [])
     @ (if flag_set (EntryFlags m) MessageEntryFlags_SERVICE_PATH_CODE then uintx_bytes (ServicePathCode m) else [])
     @ (if flag_set (EntryFlags m) MessageEntryFlags_MEMBER_NAME_STR then xstring_bytes (MemberName m) else [])
     @ (if flag_set (EntryFlags m) MessageEntryFlags_MEMBER_NAME_CODE then uintx_bytes (MemberNameCode m) else [])
     @ (if flag_set (EntryFlags m) MessageEntryFlags_REQUEST_ID then uintx_bytes (RequestID m) else [])
     @ (if flag_set (EntryFlags m) MessageEntryFlags_ERROR then num_bytes (EntryError m) else [])
     @ (if flag_set (EntryFlags m) MessageEntryFlags_META_INFO then xstring_bytes (EntryMetaData m) else [])
     @ (if flag_set (EntryFlags m) MessageFlags_EXTENDED then extended_bytes (EntryExtended m) else [])
     @ uintx_bytes (of_nat (length (elements m)))"

definition entry4_bytes :: "message_entry \<Rightarrow> byte list" where
  "entry4_bytes m =
     uintx_bytes (EntrySize m) @ entry4_fields_bytes m @ concat (map element4_bytes (elements m))"

definition valid_entry4 :: "message_entry \<Rightarrow> bool" where
  "valid_entry4 m \<longleftrightarrow> MessageEntry_UpdateData4 m = Inr m \<and> length (entry4_bytes m) < 2 ^ 31"

definition entry4_view :: "message_entry \<Rightarrow> message_entry" where
  "entry4_view m =
     m\<lparr>ServicePath := if flag_set (EntryFlags m) MessageEntryFlags_SERVICE_PATH_STR then ServicePath m else '''',
       ServicePathCode := if flag_set (EntryFlags m) MessageEntryFlags_SERVICE_PATH_CODE then ServicePathCode m else 0,
       MemberName := if flag_set (EntryFlags m) MessageEntryFlags_MEMBER_NAME_STR then MemberName m else '''',
       MemberNameCode := if flag_set (EntryFlags m) MessageEntryFlags_MEMBER_NAME_CODE then MemberNameCode m else 0,
       elements := map element4_view (elements m)\<rparr>"

lemma entry4_lengths:
  assumes "length (entry4_fields_bytes m) < 2147483648"
  shows "bit (EntryFlags m) 0 \<Longrightarrow> length (ServicePath m) < 2147483648"
    and "bit (EntryFlags m) 2 \<Longrightarrow> length (MemberName m) < 2147483648"
    and "bit (EntryFlags m) 6 \<Longrightarrow> length (EntryMetaData m) < 2147483648"
    and "bit (EntryFlags m) 7 \<Longrightarrow> length (EntryExtended m) < 2147483648"
  using assms by (simp_all add: entry4_fields_bytes_def)

lemma valid_entry4_elements:
  assumes "valid_entry4 m" and "c \<in> set (elements m)"
  shows "valid_element4 c"
proof -
  from assms(1) have fix4: "MessageEntry_UpdateData4 m = Inr m" by (simp add: valid_entry4_def)
  from fixed_entry4(2) [OF this] obtain s where "UpdateData4_elements 3 (elements m) = Inr (s, elements m)"
    by (rule EntryComputeSize4_InrE)
  then have "MessageElement_UpdateData4 c = Inr c" using assms(2) by (rule fixed_children4)
  moreover have "length (element4_bytes c) \<le> length (concat (map element4_bytes (elements m)))"
    using assms(2) by (induction "elements m" arbitrary: m) (auto simp: in_set_conv_decomp)
  ultimately show ?thesis
    using assms(1) by (simp add: valid_entry4_def valid_element4_def entry4_bytes_def)
qed

lemma entry4_count:
  assumes "length (entry4_bytes m) < 2147483648"
  shows "length (elements m) < 2147483648"
  using assms children4_bytes_min [of "elements m"] by (simp add: entry4_bytes_def)

theorem entry4_size:
  assumes "valid_entry4 m"
  shows "unat (EntrySize m) = length (entry4_bytes m)"
    and "unat (EntrySize m - of_nat (GetUintXByteCount (EntrySize m)))
      = length (entry4_fields_bytes m @ concat (map element4_bytes (elements m)))"
proof -
  from assms have fix4: "MessageEntry_UpdateData4 m = Inr m"
    and small: "length (entry4_bytes m) < 2147483648" by (simp_all add: valid_entry4_def)
  define k where "k = length (concat (map element4_bytes (elements m)))"
  from fixed_entry4(2) [OF fix4] obtain s s' where
    u: "UpdateData4_elements 3 (elements m) = Inr (s, elements m)"
    and w: "add_whens (MessageEntry_size_parts4 m) s = Inr s'"
    and n: "bind_r (GetSizePlusUintX s') numeric_cast_u32 = Inr (EntrySize m)"
    by (rule EntryComputeSize4_InrE)
  have "\<forall>c \<in> set (elements m). unat (ElementSize (flds c)) = length (element4_bytes c)"
    using element4.bytecount valid_entry4_elements [OF assms] by simp
  then have s: "s = 3 + k"
    using children_size4 [OF u] small by (simp add: k_def entry4_bytes_def)
  define ls where "ls =
     [length (xstring_bytes (ServicePath m)), GetUintXByteCount (ServicePathCode m),
      length (xstring_bytes (MemberName m)), GetUintXByteCount (MemberNameCode m),
      GetUintXByteCount (RequestID m), 2, length (xstring_bytes (EntryMetaData m)),
      length (extended_bytes (EntryExtended m)), GetUintXByteCount (of_nat (length (elements m)))]"
  have len: "length (entry4_fields_bytes m) + k
      = s + sum_list (map2 (\<lambda>(c, m) l. len_when c l) (MessageEntry_size_parts4 m) ls)"
    by (simp add: entry4_fields_bytes_def s ls_def MessageEntry_size_parts4_def
        del: length_xstring_bytes length_extended_bytes)
  have "list_all2 (\<lambda>(c, m) l. c \<longrightarrow> (\<forall>k. m = Inr k \<longrightarrow> k = l)) (MessageEntry_size_parts4 m) ls"
    using entry4_lengths(4) [of m] small
    by (auto simp: ls_def MessageEntry_size_parts4_def entry4_bytes_def dest: GetStringByteCount8WithXLen_Inr)
  then have "s' = length (entry4_fields_bytes m) + k"
    unfolding len using small len
    by (intro add_whens_exact [OF w]) (auto simp: entry4_bytes_def k_def)
  then show "unat (EntrySize m) = length (entry4_bytes m)"
    "unat (EntrySize m - of_nat (GetUintXByteCount (EntrySize m)))
      = length (entry4_fields_bytes m @ concat (map element4_bytes (elements m)))"
    using size_field_exact [OF n] small by (simp_all add: entry4_bytes_def k_def)
qed

lemma valid_entry4_updated:
  "MessageEntry_UpdateData4 m = Inr m' \<Longrightarrow> length (entry4_bytes m') < 2147483648 \<Longrightarrow> valid_entry4 m'"
  using EntryUpdateData4_idem [of m m'] by (simp add: valid_entry4_def)

subsection \<open>Write4 and Read4\<close>

lemma writes_entry4_head:
  assumes "length (entry4_bytes m) < 2147483648"
  shows "writes (MessageEntry_Write4_head m) (uintx_bytes (EntrySize m) @ entry4_fields_bytes m) ()"
proof -
  have small: "length (entry4_fields_bytes m) < 2147483648"
    using assms by (simp add: entry4_bytes_def)
  have count: "writes (bind_s (lift_s (numeric_cast_u32 (length (elements m)))) WriteUintX)
      (uintx_bytes (of_nat (length (elements m)))) ()"
    using entry4_count [OF assms] by (simp add: writes_WriteUintX)
  show ?thesis
    unfolding MessageEntry_Write4_head_def entry4_fields_bytes_def
    by (rule count writes_rule | use entry4_lengths [OF small] in force)+
qed

theorem writes_entry4:
  assumes "valid_entry4 m"
  shows "writes (MessageEntry_Write4 m) (entry4_bytes m) m"
proof -
  from assms have fix4: "MessageEntry_UpdateData4 m = Inr m"
    and small: "length (entry4_bytes m) < 2147483648" by (simp_all add: valid_entry4_def)
  have "\<forall>c \<in> set (elements m). writes (MessageElement_Write4 c) (element4_bytes c) (id c)"
    using valid_entry4_elements [OF assms] by (simp add: writes_Write4)
  note es = writes_for_s [OF this]
  have "writes (bind_s (for_s MessageElement_Write4 (elements m)) (\<lambda>es. return_s (m\<lparr>elements := es\<rparr>)))
      (concat (map element4_bytes (elements m)) @ []) (m\<lparr>elements := map id (elements m)\<rparr>)"
    by (rule writes_bind [OF es writes_return])
  then have "writes (bind_s (for_s MessageElement_Write4 (elements m)) (\<lambda>es. return_s (m\<lparr>elements := es\<rparr>)))
      (concat (map element4_bytes (elements m))) m" by simp
  from writes_then [OF writes_entry4_head [OF small] this] show ?thesis
    unfolding MessageEntry_Write4_def fix4 bind_s_lift_Inr entry4_bytes_def append_assoc
    by (rule writes_limited) (simp add: entry4_size(1) [OF assms] entry4_bytes_def)
qed

theorem reads_entry4:
  assumes "valid_entry4 m"
  shows "reads MessageEntry_Read4 (entry4_bytes m) (entry4_view m)"
proof -
  from assms have fix4: "MessageEntry_UpdateData4 m = Inr m"
    and small: "length (entry4_bytes m) < 2147483648" by (simp_all add: valid_entry4_def)
  then have small': "length (entry4_fields_bytes m) < 2147483648" by (simp add: entry4_bytes_def)
  have fl: "bit (EntryFlags m) 4 = (RequestID m \<noteq> 0)" "bit (EntryFlags m) 5 = (EntryError m \<noteq> 0)"
    "bit (EntryFlags m) 6 = (EntryMetaData m \<noteq> [])" "bit (EntryFlags m) 7 = (EntryExtended m \<noteq> [])"
    using fixed_entry4(1) [OF fix4] by (simp_all add: UpdateFlags4_fixed_iff)
  have "\<forall>c \<in> set (elements m). reads MessageElement_Read4 (element4_bytes c) (element4_view c)"
    using valid_entry4_elements [OF assms] by (simp add: reads_Read4)
  note es = reads_repeat_all [OF this]
  have n: "unat (of_nat (length (elements m)) :: 32 word) = length (elements m)"
    using entry4_count [OF small] by simp
  have alloc: "heap_alloc (4 * length (elements m)) r = Inr ((), r)"
    if "ok_reader r" "sees r (concat (map element4_bytes (elements m)) @ [])" for r
    using that children4_bytes_min [of "elements m"] by (auto intro!: heap_alloc_fits)
  have "reads (MessageEntry_Read4_body (EntrySize m))
      (entry4_fields_bytes m @ concat (map element4_bytes (elements m)) @ []) (entry4_view m)"
    unfolding entry4_fields_bytes_def MessageEntry_Read4_body_def append_assoc
    apply (rule reads_bind [OF reads_ReadNumber8])
    apply (rule reads_bind [OF reads_ReadNumber16])
    apply (rule reads_bind [OF reads_set_when_if])
     apply (rule reads_xstring, use entry4_lengths [OF small'] in force)
    apply (rule reads_bind [OF reads_set_when_if [OF reads_ReadUintX]])
    apply (rule reads_bind [OF reads_set_when_if])
     apply (rule reads_xstring, use entry4_lengths [OF small'] in force)
    apply (rule reads_bind [OF reads_set_when_if [OF reads_ReadUintX]])
    apply (rule reads_bind [OF reads_set_when_if [OF reads_ReadUintX]])
    apply (rule reads_bind [OF reads_set_when_if [OF reads_ReadNumber16]])
    apply (rule reads_bind [OF reads_set_when_if])
     apply (rule reads_xstring, use entry4_lengths [OF small'] in force)
    apply (rule reads_bind [OF reads_set_when_if])
     apply (rule reads_extended, use entry4_lengths [OF small'] in force)
    apply (rule reads_bind [OF reads_ReadUintX])
    apply (unfold n)
    apply (rule reads_guard_then [OF alloc], assumption, assumption)
    apply (rule reads_bind [OF es])
    apply (rule reads_return_eq)
    using fl by (simp add: entry4_view_def)
  then have "reads (MessageEntry_Read4_body (EntrySize m))
      (entry4_fields_bytes m @ concat (map element4_bytes (elements m))) (entry4_view m)" by simp
  note body = reads_limited [OF this entry4_size(2) [OF assms]]
  show ?thesis
    unfolding MessageEntry_Read4_def entry4_bytes_def
    by (rule reads_bind [OF reads_ReadUintX], rule body)
qed

interpretation entry4: sized_codec
  MessageEntry_Write4 MessageEntry_Read4 entry4_bytes "\<lambda>m. m" entry4_view valid_entry4
  "\<lambda>m. unat (EntrySize m)"
  by unfold_locales (simp_all add: writes_entry4 reads_entry4 entry4_size(1))

lemma Entry_Write4_updates:
  assumes "MessageEntry_UpdateData4 m = Inr m'"
  shows "MessageEntry_Write4 m = MessageEntry_Write4 m'"
  by (simp add: MessageEntry_Write4_def assms EntryUpdateData4_idem [OF assms])

section \<open>Headers\<close>

subsection \<open>UpdateHeader4\<close>

lemma MessageHeader_size_parts4_update [simp]:
  "MessageHeader_size_parts4 (h\<lparr>HeaderSize := n, MessageSize := k\<rparr>) = MessageHeader_size_parts4 h"
  by (simp add: MessageHeader_size_parts4_def)

lemma MessageHeader_ComputeSize4_update [simp]:
  "MessageHeader_ComputeSize4 (h\<lparr>HeaderSize := n, MessageSize := k\<rparr>) = MessageHeader_ComputeSize4 h"
  by (simp add: MessageHeader_ComputeSize4_def)

definition header4_flags :: "message_header \<Rightarrow> bool" where
  "header4_flags h \<longleftrightarrow>
     bit (MessageFlags h) 6 = (EntryCount h \<noteq> 1)
     \<and> bit (MessageFlags h) 4 = (\<not> (HeaderMetaData h = [] \<and> MessageID h = 0 \<and> MessageResID h = 0))
     \<and> bit (MessageFlags h) 7 = (HeaderExtended h \<noteq> [])"

lemma UpdateHeader4_InrE:
  assumes "MessageHeader_UpdateHeader4 ms ec h = Inr h'"
  obtains fl n where "h' = h\<lparr>MessageFlags := fl, EntryCount := ec, HeaderSize := n, MessageSize := ms + n\<rparr>"
    and "MessageHeader_ComputeSize4 h' = Inr n" and "header4_flags h'"
proof -
  define fl where "fl = set_flag (set_flag (set_flag (MessageFlags h) 64 (ec \<noteq> 1)) 16
    (\<not> (length (HeaderMetaData h) = 0 \<and> MessageID h = 0 \<and> MessageResID h = 0))) 128
    (length (HeaderExtended h) \<noteq> 0)"
  define g where "g = h\<lparr>MessageFlags := fl, EntryCount := ec\<rparr>"
  from assms obtain n where n: "MessageHeader_ComputeSize4 g = Inr n"
    and h': "h' = g\<lparr>HeaderSize := n, MessageSize := ms + n\<rparr>"
    by (auto simp: MessageHeader_UpdateHeader4_def Let_def fl_def g_def)
  show ?thesis
  proof
    show "h' = h\<lparr>MessageFlags := fl, EntryCount := ec, HeaderSize := n, MessageSize := ms + n\<rparr>"
      by (simp add: h' g_def)
    show "MessageHeader_ComputeSize4 h' = Inr n" using n by (simp add: h')
    show "header4_flags h'" by (simp add: h' g_def fl_def header4_flags_def)
  qed
qed

lemma UpdateHeader4_fixed:
  assumes "header4_flags h" and "MessageHeader_ComputeSize4 h = Inr (HeaderSize h)"
    and "MessageSize h = ms + HeaderSize h" and "EntryCount h = ec"
  shows "MessageHeader_UpdateHeader4 ms ec h = Inr h"
proof -
  have "set_flag (set_flag (set_flag (MessageFlags h) 64 (ec \<noteq> 1)) 16
    (\<not> (length (HeaderMetaData h) = 0 \<and> MessageID h = 0 \<and> MessageResID h = 0))) 128
    (length (HeaderExtended h) \<noteq> 0) = MessageFlags h"
    using assms(1,4) by (simp add: header4_flags_def)
  moreover have "h\<lparr>EntryCount := ec\<rparr> = h"
    "h\<lparr>HeaderSize := HeaderSize h, MessageSize := ms + HeaderSize h\<rparr> = h"
    using assms(3,4) by (auto intro: message_header.equality)
  ultimately show ?thesis
    using assms(2) by (simp add: MessageHeader_UpdateHeader4_def Let_def)
qed

subsection \<open>The encoding\<close>

definition StringTable_bytes :: "(32 word \<times> string) list \<Rightarrow> byte list" where
  "StringTable_bytes t =
     uintx_bytes (of_nat (length t)) @ concat (map (\<lambda>(c, v). uintx_bytes c @ xstring_bytes v) t)"

definition header4_fields_bytes :: "message_header \<Rightarrow> byte list" where
  "header4_fields_bytes h =
     num_bytes (MessageFlags h)
     @ (if flag_set (MessageFlags h) MessageFlags_ROUTING_INFO
        then concat (map num_bytes (SenderNodeID h)) @ concat (map num_bytes (ReceiverNodeID h))
          @ xstring_bytes (SenderNodeName h) @ xstring_bytes (ReceiverNodeName h) else [])
     @ (if flag_set (MessageFlags h) MessageFlags_ENDPOINT_INFO
        then uintx_bytes (SenderEndpoint h) @ uintx_bytes (ReceiverEndpoint h) else [])
     @ (if flag_set (MessageFlags h) MessageFlags_PRIORITY then num_bytes (Priority h) else [])
     @ (if flag_set (MessageFlags h) MessageFlags_META_INFO
        then xstring_bytes (HeaderMetaData h) @ num_bytes (MessageID h) @ num_bytes (MessageResID h) else [])
     @ (if flag_set (MessageFlags h) MessageFlags_STRING_TABLE then StringTable_bytes (StringTable h) else [])
     @ (if flag_set (MessageFlags h) MessageFlags_MULTIPLE_ENTRIES
        then uintx_bytes (ucast (EntryCount h)) else [])
     @ (if flag_set (MessageFlags h) MessageFlags_EXTENDED then extended_bytes (HeaderExtended h) else [])"

definition header4_bytes :: "message_header \<Rightarrow> byte list" where
  "header4_bytes h =
     bytes_of_string ''RRAC'' @ num_bytes (MessageSize h) @ num_bytes (4 :: 16 word)
     @ uintx_bytes (HeaderSize h) @ header4_fields_bytes h"

definition valid_header4 :: "message_header \<Rightarrow> bool" where
  "valid_header4 h \<longleftrightarrow>
     header4_flags h \<and> MessageHeader_ComputeSize4 h = Inr (HeaderSize h)
     \<and> valid_NodeID (SenderNodeID h) \<and> valid_NodeID (ReceiverNodeID h)
     \<and> length (header4_bytes h) < 2 ^ 31"

definition header4_view :: "message_header \<Rightarrow> message_header" where
  "header4_view h =
     (let ri = flag_set (MessageFlags h) MessageFlags_ROUTING_INFO;
          ei = flag_set (MessageFlags h) MessageFlags_ENDPOINT_INFO in
      h\<lparr>SenderNodeID := if ri then SenderNodeID h else replicate 16 0,
        ReceiverNodeID := if ri then ReceiverNodeID h else replicate 16 0,
        SenderNodeName := if ri then SenderNodeName h else '''',
        ReceiverNodeName := if ri then ReceiverNodeName h else '''',
        SenderEndpoint := if ei then SenderEndpoint h else 0,
        ReceiverEndpoint := if ei then ReceiverEndpoint h else 0,
        Priority := if flag_set (MessageFlags h) MessageFlags_PRIORITY then Priority h else 0,
        StringTable := if flag_set (MessageFlags h) MessageFlags_STRING_TABLE then StringTable h else []\<rparr>)"

lemma header4_lengths:
  assumes "length (header4_fields_bytes h) < 2147483648"
  shows "bit (MessageFlags h) 0 \<Longrightarrow> length (SenderNodeName h) < 2147483648"
    and "bit (MessageFlags h) 0 \<Longrightarrow> length (ReceiverNodeName h) < 2147483648"
    and "bit (MessageFlags h) 4 \<Longrightarrow> length (HeaderMetaData h) < 2147483648"
    and "bit (MessageFlags h) 7 \<Longrightarrow> length (HeaderExtended h) < 2147483648"
    and "bit (MessageFlags h) 5 \<Longrightarrow> length (StringTable_bytes (StringTable h)) < 2147483648"
  using assms by (simp_all add: header4_fields_bytes_def)

lemma StringTable_size_exact:
  "StringTable_size t s = Inr s' \<Longrightarrow>
   s + length (concat (map (\<lambda>(c, v). uintx_bytes c @ xstring_bytes v) t)) < 4294967296 \<Longrightarrow>
   s' = s + length (concat (map (\<lambda>(c, v). uintx_bytes c @ xstring_bytes v) t))"
proof (induction t arbitrary: s)
  case Nil
  then show ?case by simp
next
  case (Cons cv t)
  obtain c v where cv: "cv = (c, v)" by (cases cv)
  from Cons.prems(1) obtain n where n: "GetStringByteCount8WithXLen v = Inr n"
    and rec: "StringTable_size t (size_add (size_add s (GetUintXByteCount c)) n) = Inr s'"
    by (auto simp: cv)
  have "length (xstring_bytes v) = n" using GetStringByteCount8WithXLen_Inr [OF n] by simp
  moreover from this have "size_add (size_add s (GetUintXByteCount c)) n = s + GetUintXByteCount c + n"
    using Cons.prems(2) by (simp add: cv del: length_xstring_bytes)
  ultimately show ?case
    using Cons.IH [OF rec] Cons.prems(2) by (simp add: cv del: length_xstring_bytes)
qed

lemma StringTable_section_size_exact:
  assumes "StringTable_section_size t = Inr k" and "length (StringTable_bytes t) < 2147483648"
  shows "k = length (StringTable_bytes t)"
  using assms StringTable_size_exact [of t 0]
  by (fastforce simp: StringTable_section_size_def StringTable_bytes_def split: if_splits)

lemma length_concat_num_bytes [simp]: "length (concat (map num_bytes (i :: byte list))) = length i"
  by (induction i) auto

theorem header4_size:
  assumes "valid_header4 h"
  shows "unat (HeaderSize h) = length (header4_bytes h)"
    and "unat (HeaderSize h - 10 - of_nat (GetUintXByteCount (HeaderSize h)))
      = length (header4_fields_bytes h)"
proof -
  from assms have small: "length (header4_bytes h) < 2147483648"
    and c: "MessageHeader_ComputeSize4 h = Inr (HeaderSize h)"
    and ids: "length (SenderNodeID h) = 16" "length (ReceiverNodeID h) = 16"
    by (simp_all add: valid_header4_def valid_NodeID_def)
  then have small': "length (header4_fields_bytes h) < 2147483648" by (simp add: header4_bytes_def)
  from c obtain s where w: "add_whens (MessageHeader_size_parts4 h) 11 = Inr s"
    and n: "bind_r (GetSizePlusUintX s) numeric_cast_u32 = Inr (HeaderSize h)"
    by (auto simp: MessageHeader_ComputeSize4_def split: if_splits)
  define ls where "ls =
     [32, length (xstring_bytes (SenderNodeName h)), length (xstring_bytes (ReceiverNodeName h)),
      GetUintXByteCount (SenderEndpoint h), GetUintXByteCount (ReceiverEndpoint h), 2,
      length (xstring_bytes (HeaderMetaData h)), 4, length (StringTable_bytes (StringTable h)),
      GetUintXByteCount (ucast (EntryCount h)),
      GetUintXByteCount (of_nat (length (HeaderExtended h))), length (HeaderExtended h)]"
  have len: "10 + length (header4_fields_bytes h)
      = 11 + sum_list (map2 (\<lambda>(c, m) l. len_when c l) (MessageHeader_size_parts4 h) ls)"
    by (simp add: header4_fields_bytes_def ls_def MessageHeader_size_parts4_def ids len_when_def
        del: length_xstring_bytes)
  have "list_all2 (\<lambda>(c, m) l. c \<longrightarrow> (\<forall>k. m = Inr k \<longrightarrow> k = l)) (MessageHeader_size_parts4 h) ls"
    using header4_lengths(5) [OF small']
    by (auto simp: ls_def MessageHeader_size_parts4_def dest: GetStringByteCount8WithXLen_Inr
        StringTable_section_size_exact simp del: length_xstring_bytes)
  then have s: "s = 10 + length (header4_fields_bytes h)"
    unfolding len using small' len
    by (intro add_whens_exact [OF w]) auto
  show h: "unat (HeaderSize h) = length (header4_bytes h)"
    using size_field_exact(1) [OF n] small by (simp add: header4_bytes_def s)
  have e: "HeaderSize h - 10 - of_nat (GetUintXByteCount (HeaderSize h))
      = HeaderSize h - of_nat (GetUintXByteCount (HeaderSize h)) - 10" by simp
  have "unat (HeaderSize h - of_nat (GetUintXByteCount (HeaderSize h))) = s"
    using size_field_exact(2) [OF n] small by (simp add: header4_bytes_def s)
  then show "unat (HeaderSize h - 10 - of_nat (GetUintXByteCount (HeaderSize h)))
      = length (header4_fields_bytes h)"
    unfolding e using s by (simp add: unat_sub word_le_nat_alt)
qed

subsection \<open>Write4 and Read4\<close>

lemma writes_then_return: "writes m bs x \<Longrightarrow> writes (then_s m (return_s v)) bs v"
  using writes_then [OF _ writes_return, of m bs x v] by simp

lemma writes_NodeID: "writes (WriteNodeID i) (concat (map num_bytes i)) ()"
  unfolding WriteNodeID_def
  by (rule writes_then_return, rule writes_for_s [where upd = "\<lambda>_. ()"]) (simp add: writes_WriteNumber)

lemma reads_NodeID: "valid_NodeID i \<Longrightarrow> reads ReadNodeID (concat (map num_bytes i)) i"
  using reads_repeat_all [of i ReadNumber num_bytes id]
  by (simp add: ReadNodeID_def valid_NodeID_def reads_ReadNumber8)

lemma StringTable_lengths:
  assumes "length (StringTable_bytes t) < 2147483648"
  shows "length t < 2147483648" and "(c, v) \<in> set t \<Longrightarrow> length v < 2147483648"
proof -
  have "length t \<le> length (concat (map (\<lambda>(c, v). uintx_bytes c @ xstring_bytes v) t))"
  proof (induction t)
    case (Cons cv t)
    then show ?case
      using GetUintXByteCount_bounds(1) [of "fst cv"] by (cases cv) simp
  qed simp
  with assms show "length t < 2147483648" by (simp add: StringTable_bytes_def)
  assume "(c, v) \<in> set t"
  then have "length v \<le> length (concat (map (\<lambda>(c, v). uintx_bytes c @ xstring_bytes v) t))"
    by (induction t) auto
  with assms show "length v < 2147483648" by (simp add: StringTable_bytes_def)
qed

lemma writes_StringTable:
  assumes "length (StringTable_bytes t) < 2147483648"
  shows "writes (WriteStringTable t) (StringTable_bytes t) ()"
proof -
  have "\<forall>cv \<in> set t. writes (case cv of (c, v) \<Rightarrow> then_s (WriteUintX c) (WriteString8WithXLen v))
      (case cv of (c, v) \<Rightarrow> uintx_bytes c @ xstring_bytes v) ()"
    using StringTable_lengths [OF assms] by (fastforce intro: writes_rule)
  note es = writes_for_s [OF this]
  show ?thesis
    unfolding WriteStringTable_def StringTable_bytes_def
    by (rule writes_then [OF writes_WriteUintX], rule writes_then_return, rule es)
qed

lemma reads_StringTable:
  assumes "length (StringTable_bytes t) < 2147483648"
  shows "reads ReadStringTable (StringTable_bytes t) t"
proof -
  have "\<forall>cv \<in> set t. reads (bind_s ReadUintX (\<lambda>c. bind_s ReadString8WithXLen (\<lambda>v. return_s (c, v))))
      (case cv of (c, v) \<Rightarrow> uintx_bytes c @ xstring_bytes v) (id cv)"
  proof
    fix cv assume cv: "cv \<in> set t"
    obtain c v where [simp]: "cv = (c, v)" by (cases cv)
    have "reads (bind_s ReadUintX (\<lambda>c. bind_s ReadString8WithXLen (\<lambda>v. return_s (c, v))))
      (uintx_bytes c @ xstring_bytes v @ []) (c, v)"
      using StringTable_lengths(2) [OF assms, of c v] cv
      by (intro reads_bind [OF reads_ReadUintX] reads_bind [OF reads_xstring] reads_return) simp
    then show "reads (bind_s ReadUintX (\<lambda>c. bind_s ReadString8WithXLen (\<lambda>v. return_s (c, v))))
      (case cv of (c, v) \<Rightarrow> uintx_bytes c @ xstring_bytes v) (id cv)" by simp
  qed
  note es = reads_repeat_all [OF this]
  show ?thesis
    unfolding ReadStringTable_def StringTable_bytes_def
    by (rule reads_bind [OF reads_ReadUintX])
       (use es StringTable_lengths(1) [OF assms] in simp)
qed

lemma reads_EntryCount4: "reads ReadEntryCount4 (uintx_bytes (ucast n)) n"
proof -
  have u: "unat (ucast n :: 32 word) = unat n"
    by (simp add: unsigned_ucast_eq take_bit_nat_eq_self_iff less_trans [OF unat_u16_less])
  moreover have "\<not> 65535 < unat n" using unat_u16_less [of n] by linarith
  moreover have "reads (lift_s (Inr n)) [] n" by (rule readsI) simp
  ultimately have "reads ReadEntryCount4 (uintx_bytes (ucast n) @ []) n"
    unfolding ReadEntryCount4_def
    by (intro reads_bind [OF reads_ReadUintX]) simp
  then show ?thesis by simp
qed

theorem writes_header4:
  assumes "valid_header4 h"
  shows "writes (MessageHeader_Write4 h) (header4_bytes h) ()"
proof -
  have small: "length (header4_fields_bytes h) < 2147483648"
    using assms by (simp add: valid_header4_def header4_bytes_def)
  have sz: "unat (HeaderSize h) = length (header4_bytes h)" by (rule header4_size(1) [OF assms])
  show ?thesis
    unfolding MessageHeader_Write4_def
    by (rule writes_limited [OF _ sz], unfold header4_bytes_def header4_fields_bytes_def)
       (rule writes_rule writes_NodeID writes_StringTable
        | use header4_lengths [OF small] in force)+
qed

lemma reads_set_when_prod4:
  "(c \<Longrightarrow> reads m bs (v1, v2, v3, v4)) \<Longrightarrow>
   reads (set_when c m (d1, d2, d3, d4)) (if c then bs else [])
     (if c then v1 else d1, if c then v2 else d2, if c then v3 else d3, if c then v4 else d4)"
  by (auto intro: reads_return)

lemma reads_set_when_prod3:
  "(c \<Longrightarrow> reads m bs (v1, v2, v3)) \<Longrightarrow>
   reads (set_when c m (d1, d2, d3)) (if c then bs else [])
     (if c then v1 else d1, if c then v2 else d2, if c then v3 else d3)"
  by (auto intro: reads_return)

lemma reads_set_when_prod2:
  "(c \<Longrightarrow> reads m bs (v1, v2)) \<Longrightarrow>
   reads (set_when c m (d1, d2)) (if c then bs else []) (if c then v1 else d1, if c then v2 else d2)"
  by (auto intro: reads_return)

text \<open>The three multi-field groups of the header, each under one flag.\<close>

lemma reads_header4_routing:
  assumes "valid_NodeID si" "valid_NodeID ri" "length sn < 2147483648" "length rn < 2147483648"
  shows "reads (bind_s ReadNodeID (\<lambda>si. bind_s ReadNodeID (\<lambda>ri.
        bind_s ReadString8WithXLen (\<lambda>sn. bind_s ReadString8WithXLen (\<lambda>rn. return_s (si, ri, sn, rn))))))
      (concat (map num_bytes si) @ concat (map num_bytes ri) @ xstring_bytes sn @ xstring_bytes rn)
      (si, ri, sn, rn)"
proof -
  have "reads (bind_s ReadNodeID (\<lambda>si. bind_s ReadNodeID (\<lambda>ri.
        bind_s ReadString8WithXLen (\<lambda>sn. bind_s ReadString8WithXLen (\<lambda>rn. return_s (si, ri, sn, rn))))))
      (concat (map num_bytes si) @ concat (map num_bytes ri) @ xstring_bytes sn @ xstring_bytes rn @ [])
      (si, ri, sn, rn)"
    using assms by (intro reads_bind [OF reads_NodeID] reads_bind [OF reads_xstring] reads_return) auto
  then show ?thesis by simp
qed

lemma reads_header4_endpoints:
  "reads (bind_s ReadUintX (\<lambda>se. bind_s ReadUintX (\<lambda>re. return_s (se, re))))
     (uintx_bytes se @ uintx_bytes re) (se, re)"
proof -
  have "reads (bind_s ReadUintX (\<lambda>se. bind_s ReadUintX (\<lambda>re. return_s (se, re))))
     (uintx_bytes se @ uintx_bytes re @ []) (se, re)"
    by (intro reads_bind [OF reads_ReadUintX] reads_return)
  then show ?thesis by simp
qed

lemma reads_header4_meta:
  assumes "length md < 2147483648"
  shows "reads (bind_s ReadString8WithXLen (\<lambda>md. bind_s (ReadNumber :: 16 word reads) (\<lambda>mid.
        bind_s (ReadNumber :: 16 word reads) (\<lambda>mres. return_s (md, mid, mres)))))
      (xstring_bytes md @ num_bytes mid @ num_bytes mres) (md, mid, mres)"
proof -
  have "reads (bind_s ReadString8WithXLen (\<lambda>md. bind_s (ReadNumber :: 16 word reads) (\<lambda>mid.
        bind_s (ReadNumber :: 16 word reads) (\<lambda>mres. return_s (md, mid, mres)))))
      (xstring_bytes md @ num_bytes mid @ num_bytes mres @ []) (md, mid, mres)"
    using assms
    by (intro reads_bind [OF reads_xstring] reads_bind [OF reads_ReadNumber16] reads_return) auto
  then show ?thesis by simp
qed

theorem reads_header4:
  assumes "valid_header4 h"
  shows "reads MessageHeader_Read4 (header4_bytes h) (header4_view h)"
proof -
  have small: "length (header4_fields_bytes h) < 2147483648"
    and fl: "header4_flags h" and ids: "valid_NodeID (SenderNodeID h)" "valid_NodeID (ReceiverNodeID h)"
    using assms by (simp_all add: valid_header4_def header4_bytes_def)
  note L = header4_lengths [OF small]
  have "reads (MessageHeader_Read4_body (MessageSize h) (HeaderSize h))
      (header4_fields_bytes h @ []) (header4_view h)"
    unfolding header4_fields_bytes_def MessageHeader_Read4_body_def append_assoc
    apply (rule reads_bind [OF reads_ReadNumber8])
    apply (rule reads_bind [OF reads_set_when_prod4])
     apply (rule reads_header4_routing; use ids L in force)
    apply (unfold prod.case)
    apply (rule reads_bind [OF reads_set_when_prod2 [OF reads_header4_endpoints]])
    apply (unfold prod.case)
    apply (rule reads_bind [OF reads_set_when_if [OF reads_ReadNumber16]])
    apply (rule reads_bind [OF reads_set_when_prod3])
     apply (rule reads_header4_meta; use L in force)
    apply (unfold prod.case)
    apply (rule reads_bind [OF reads_set_when_if])
     apply (rule reads_StringTable; use L in force)
    apply (rule reads_bind [OF reads_set_when_if [OF reads_EntryCount4]])
    apply (rule reads_bind [OF reads_set_when_if])
     apply (rule reads_extended; use L in force)
    apply (rule reads_return_eq)
    using fl by (auto simp: header4_view_def header4_flags_def Let_def)
  then have "reads (MessageHeader_Read4_body (MessageSize h) (HeaderSize h))
      (header4_fields_bytes h) (header4_view h)" by simp
  note body = reads_limited [OF this header4_size(2) [OF assms]]
  have "length ''RRAC'' = 4" by simp
  then have magic: "reads (ReadString8 4) (bytes_of_string ''RRAC'') ''RRAC''"
    using reads_ReadString8 [of "''RRAC''"] by metis
  show ?thesis
    unfolding MessageHeader_Read4_def header4_bytes_def
    by (rule reads_bind [OF magic], simp del: append_assoc,
        rule reads_bind [OF reads_ReadNumber32], rule reads_bind [OF reads_ReadNumber16],
        simp, rule reads_bind [OF reads_ReadUintX], rule body)
qed

lemma header4_EntryCount_view [simp]:
  "EntryCount (header4_view h) = EntryCount h" "MessageSize (header4_view h) = MessageSize h"
  "HeaderSize (header4_view h) = HeaderSize h"
  by (simp_all add: header4_view_def Let_def)

interpretation header4: sized_codec
  MessageHeader_Write4 MessageHeader_Read4 header4_bytes "\<lambda>_. ()" header4_view valid_header4
  "\<lambda>h. unat (HeaderSize h)"
  by unfold_locales (simp_all add: writes_header4 reads_header4 header4_size(1))

section \<open>Messages\<close>

fun message4_bytes :: "message \<Rightarrow> byte list" where
  "message4_bytes m =
     (case header m of None \<Rightarrow> [] | Some h \<Rightarrow> header4_bytes h) @ concat (map entry4_bytes (entries m))"

definition valid_message4 :: "message \<Rightarrow> bool" where
  "valid_message4 m \<longleftrightarrow>
     (case header m of
        None \<Rightarrow> False
      | Some h \<Rightarrow> Message_ComputeSize4 m = Inr (MessageSize h, m)
          \<and> valid_NodeID (SenderNodeID h) \<and> valid_NodeID (ReceiverNodeID h))
     \<and> length (message4_bytes m) < 2 ^ 31"

definition message4_view :: "message \<Rightarrow> message" where
  "message4_view m =
     \<lparr>header = map_option header4_view (header m), entries = map entry4_view (entries m)\<rparr>"

lemma UpdateData4_entries_idem:
  "UpdateData4_entries s es = Inr (s', es') \<Longrightarrow>
   UpdateData4_entries s es' = Inr (s', es') \<and> length es' = length es"
proof (induction es arbitrary: s s' es')
  case Nil
  then show ?case by simp
next
  case (Cons e es)
  from Cons.prems obtain e1 es1 where e1: "MessageEntry_UpdateData4 e = Inr e1"
    and es1: "UpdateData4_entries (s + unat (EntrySize e1)) es = Inr (s', es1)" "es' = e1 # es1"
    by (auto split: prod.splits)
  with Cons.IH [OF es1(1)] EntryUpdateData4_idem [OF e1] show ?case by simp
qed

lemma fixed_entries4:
  "UpdateData4_entries s es = Inr (s', es) \<Longrightarrow> \<forall>e \<in> set es. MessageEntry_UpdateData4 e = Inr e"
  by (induction es arbitrary: s) (auto split: prod.splits)

lemma entries_size4:
  "UpdateData4_entries s es = Inr (s', es) \<Longrightarrow>
   \<forall>e \<in> set es. unat (EntrySize e) = length (entry4_bytes e) \<Longrightarrow>
   s' = s + length (concat (map entry4_bytes es))"
proof (induction es arbitrary: s)
  case Nil
  then show ?case by simp
next
  case (Cons e es)
  then have "UpdateData4_entries (s + unat (EntrySize e)) es = Inr (s', es)"
    by (auto split: prod.splits)
  from Cons.IH [OF this] Cons.prems(2) show ?case by simp
qed

text \<open>What a successful \<open>ComputeSize4\<close> computed.\<close>

lemma MessageComputeSize4_InrE:
  assumes "Message_ComputeSize4 m = Inr (n, m')"
  obtains h h' s es where "header m = Some h" and "m' = \<lparr>header = Some h', entries = es\<rparr>"
    and "n = MessageSize h'" and "length (entries m) < 65536"
    and "UpdateData4_entries 0 (entries m) = Inr (s, es)" and "s \<le> 4294967295"
    and "MessageHeader_UpdateHeader4 (of_nat s) (of_nat (length (entries m)))
      (h\<lparr>EntryCount := of_nat (length (entries m))\<rparr>) = Inr h'"
  using assms
  by (auto simp: Message_ComputeSize4_def numeric_cast_Inr split: option.splits if_splits)

lemma MessageComputeSize4_idem:
  assumes "Message_ComputeSize4 m = Inr (n, m')"
  shows "Message_ComputeSize4 m' = Inr (n, m')"
  using assms
proof (cases rule: MessageComputeSize4_InrE)
  case (1 h h' s es)
  from 1(7) obtain fl k where h': "h' = h\<lparr>EntryCount := of_nat (length (entries m)), MessageFlags := fl,
      EntryCount := of_nat (length (entries m)), HeaderSize := k, MessageSize := of_nat s + k\<rparr>"
    and c: "MessageHeader_ComputeSize4 h' = Inr k" "header4_flags h'"
    by (rule UpdateHeader4_InrE)
  have es: "UpdateData4_entries 0 es = Inr (s, es)" "length es = length (entries m)"
    using UpdateData4_entries_idem [OF 1(5)] by auto
  have "h'\<lparr>EntryCount := of_nat (length es)\<rparr> = h'"
    using h' es(2) by (auto intro: message_header.equality)
  moreover have "MessageHeader_UpdateHeader4 (of_nat s) (of_nat (length es)) h' = Inr h'"
    using c h' es(2) by (intro UpdateHeader4_fixed) auto
  moreover have "unat (MessageSize h') \<le> 4294967295"
    using unat_u32_less [of "MessageSize h'"] by linarith
  ultimately show ?thesis
    using 1(2-6) es by (simp add: Message_ComputeSize4_def)
qed

lemma valid_message4_parts:
  assumes "valid_message4 m"
  obtains h where "header m = Some h" and "m = \<lparr>header = Some h, entries = entries m\<rparr>"
    and "Message_ComputeSize4 m = Inr (MessageSize h, m)"
    and "valid_header4 h" and "\<forall>e \<in> set (entries m). valid_entry4 e"
    and "EntryCount h = of_nat (length (entries m))" and "length (entries m) < 65536"
    and "unat (MessageSize h) = length (message4_bytes m)"
    and "unat (MessageSize h - HeaderSize h) = length (concat (map entry4_bytes (entries m)))"
proof -
  from assms obtain h where h: "header m = Some h" and c: "Message_ComputeSize4 m = Inr (MessageSize h, m)"
    and ids: "valid_NodeID (SenderNodeID h)" "valid_NodeID (ReceiverNodeID h)"
    and small: "length (header4_bytes h) + length (concat (map entry4_bytes (entries m))) < 2147483648"
    by (auto simp: valid_message4_def split: option.splits)
  from c obtain h0 h' s es where "header m = Some h0" and m: "m = \<lparr>header = Some h', entries = es\<rparr>"
    and len: "length (entries m) < 65536" and u: "UpdateData4_entries 0 (entries m) = Inr (s, es)"
    and up: "MessageHeader_UpdateHeader4 (of_nat s) (of_nat (length (entries m)))
      (h0\<lparr>EntryCount := of_nat (length (entries m))\<rparr>) = Inr h'"
    by (rule MessageComputeSize4_InrE)
  have eq: "h' = h" "es = entries m" using m h by (metis message.select_convs option.inject)+
  from up [unfolded eq] obtain fl k where
    h1: "h = h0\<lparr>EntryCount := of_nat (length (entries m)), MessageFlags := fl,
      EntryCount := of_nat (length (entries m)), HeaderSize := k, MessageSize := of_nat s + k\<rparr>"
    and ch: "MessageHeader_ComputeSize4 h = Inr k" "header4_flags h"
    by (rule UpdateHeader4_InrE)
  have hs: "HeaderSize h = k" "MessageSize h = of_nat s + k" "EntryCount h = of_nat (length (entries m))"
    by (simp_all add: h1)
  have vh: "valid_header4 h"
    using ch hs ids small by (simp add: valid_header4_def)
  have ve: "\<forall>e \<in> set (entries m). valid_entry4 e"
  proof
    fix e assume e: "e \<in> set (entries m)"
    have "length (entry4_bytes e) \<le> length (concat (map entry4_bytes (entries m)))"
      using e by (auto simp: in_set_conv_decomp)
    with fixed_entries4 [OF u [unfolded eq]] e small show "valid_entry4 e"
      by (simp add: valid_entry4_def)
  qed
  have s: "s = length (concat (map entry4_bytes (entries m)))"
    using entries_size4 [OF u [unfolded eq]] ve by (simp add: entry4_size(1))
  have k: "unat k = length (header4_bytes h)"
    using header4_size(1) [OF vh] hs by simp
  have "unat (of_nat s + k :: 32 word) = s + unat k"
    using small unfolding s k [symmetric] by (subst unat_plus_if') (simp add: s [symmetric])
  then have tot: "unat (MessageSize h) = length (message4_bytes m)"
    by (simp add: hs h s k)
  have "MessageSize h - HeaderSize h = of_nat s" by (simp add: hs)
  then have diff: "unat (MessageSize h - HeaderSize h) = length (concat (map entry4_bytes (entries m)))"
    using small s by simp
  have "m = \<lparr>header = Some h, entries = entries m\<rparr>" using h by simp
  from that [OF h this c vh ve hs(3) len tot diff] show ?thesis .
qed

text \<open>\<open>PushRelativeLimit(n); body; PopLimit()\<close> without a check in between.\<close>

lemma writes_scoped:
  assumes "writes body bs v" and "n = length bs"
  shows "writes (then_s (PushRelativeLimit_w n) (bind_s body (\<lambda>x. then_s PopLimit_w (return_s (f x))))) bs (f v)"
proof (rule writesI)
  fix w assume ok: "ok_writer w" and r: "room w (length bs)"
  note g = room_fits [OF ok r]
  then obtain l ls where l: "w_limits w = l # ls" "w_position w + length bs \<le> l" by auto
  define w' where "w' = w\<lparr>w_limits := (w_position w + length bs) # w_limits w\<rparr>"
  have push: "PushRelativeLimit_w n w = Inr ((), w')"
    using g l by (simp add: PushRelativeLimit_w_def bind_s_def Position_w_def CurrentLimit_w_def
        assms(2) w'_def)
  have "ok_writer w'" "room w' (length bs)"
    using ok r g by (auto simp: ok_writer_def room_def w'_def)
  then have body: "body w' = Inr (v, append_w bs w')"
    by (rule writesD [OF assms(1)])
  have pop: "PopLimit_w (append_w bs w') = Inr ((), append_w bs w)"
    by (simp add: PopLimit_w_def append_w_def w'_def)
  show "then_s (PushRelativeLimit_w n) (bind_s body (\<lambda>x. then_s PopLimit_w (return_s (f x)))) w
      = Inr (f v, append_w bs w)"
    by (simp add: push body pop)
qed

theorem writes_message4:
  assumes "valid_message4 m"
  shows "writes (Message_Write4 m) (message4_bytes m) m"
  using assms
proof (cases rule: valid_message4_parts)
  case (1 h)
  have "\<forall>e \<in> set (entries m). writes (MessageEntry_Write4 e) (entry4_bytes e) (id e)"
    using 1(5) by (simp add: writes_entry4)
  then have "writes (for_s MessageEntry_Write4 (entries m)) (concat (map entry4_bytes (entries m))) (entries m)"
    using writes_for_s [of "entries m" MessageEntry_Write4 entry4_bytes id] by simp
  note b = writes_then [OF writes_header4 [OF 1(4)] this]
  have w: "Message_Write4 m =
     then_s (PushRelativeLimit_w (unat (MessageSize h)))
       (bind_s (then_s (MessageHeader_Write4 h) (for_s MessageEntry_Write4 (entries m)))
         (\<lambda>es. then_s PopLimit_w (return_s (m\<lparr>entries := es\<rparr>))))"
    by (simp add: Message_Write4_def 1(3) 1(1) then_s_def bind_s_assoc)
  have "writes (Message_Write4 m) (header4_bytes h @ concat (map entry4_bytes (entries m)))
      (m\<lparr>entries := entries m\<rparr>)"
    unfolding w using 1(1,8) by (intro writes_scoped [OF b]) simp
  then show ?thesis using 1(1) by simp
qed

text \<open>\<open>Message::Read4\<close> leaves one more limit behind, at the end of the message.\<close>

definition reads_open :: "'a reads \<Rightarrow> byte list \<Rightarrow> 'a \<Rightarrow> bool" where
  "reads_open m bs v \<longleftrightarrow> (\<forall>r. ok_reader r \<longrightarrow> sees r bs \<longrightarrow>
     m r = Inr (v, (advance (length bs) r)\<lparr>r_limits := (r_position r + length bs) # r_limits r\<rparr>))"

lemma reads_open_section:
  assumes "reads rh bs h" and "n h = length cs" and "reads (body h) cs x"
  shows "reads_open (bind_s rh (\<lambda>h. then_s (PushRelativeLimit_r (n h)) (bind_s (body h) (\<lambda>x. return_s (f h x)))))
    (bs @ cs) (f h x)"
  unfolding reads_open_def
proof (intro allI impI)
  fix r assume ok: "ok_reader r" and s: "sees r (bs @ cs)"
  then have s1: "sees r bs" and s2: "sees (advance (length bs) r) cs" by (simp_all add: sees_append)
  note g = sees_fits [OF ok s]
  then obtain l ls where l: "r_limits r = l # ls" "r_position r + length (bs @ cs) \<le> l" "l \<le> length (r_buffer r)"
    by auto
  define r' where "r' = (advance (length bs) r)\<lparr>r_limits := (r_position r + length (bs @ cs)) # r_limits r\<rparr>"
  have push: "PushRelativeLimit_r (n h) (advance (length bs) r) = Inr ((), r')"
    using g l by (simp add: PushRelativeLimit_r_def bind_s_def Position_r_def CurrentLimit_r_def
        assms(2) r'_def advance_def)
  have "ok_reader r'" "sees r' cs"
    using ok s2 g by (auto simp: ok_reader_def sees_def r'_def advance_def)
  then have "body h r' = Inr (x, advance (length cs) r')"
    by (rule readsD [OF assms(3)])
  then show "bind_s rh (\<lambda>h. then_s (PushRelativeLimit_r (n h)) (bind_s (body h) (\<lambda>x. return_s (f h x)))) r
     = Inr (f h x, (advance (length (bs @ cs)) r)\<lparr>r_limits := (r_position r + length (bs @ cs)) # r_limits r\<rparr>)"
    by (simp add: readsD [OF assms(1) ok s1] push) (simp add: r'_def advance_def)
qed

theorem reads_message4:
  assumes "valid_message4 m"
  shows "reads_open Message_Read4 (message4_bytes m) (message4_view m)"
  using assms
proof (cases rule: valid_message4_parts)
  case (1 h)
  have "\<forall>e \<in> set (entries m). reads MessageEntry_Read4 (entry4_bytes e) (entry4_view e)"
    using 1(5) by (simp add: reads_entry4)
  then have body: "reads (repeat_s (unat (EntryCount (header4_view h))) MessageEntry_Read4)
      (concat (map entry4_bytes (entries m))) (map entry4_view (entries m))"
    using reads_repeat_all [of "entries m" MessageEntry_Read4 entry4_bytes entry4_view] 1(6,7) by simp
  have "reads_open Message_Read4 (header4_bytes h @ concat (map entry4_bytes (entries m)))
      \<lparr>header = Some (header4_view h), entries = map entry4_view (entries m)\<rparr>"
    unfolding Message_Read4_def
    by (rule reads_open_section [where n = "\<lambda>h. unat (MessageSize h - HeaderSize h)"
          and body = "\<lambda>h. repeat_s (unat (EntryCount h)) MessageEntry_Read4"
          and f = "\<lambda>h es. \<lparr>header = Some h, entries = es\<rparr>"])
       (use body in \<open>simp_all add: reads_header4 [OF 1(4)] 1(9)\<close>)
  then show ?thesis using 1(1) by (simp add: message4_view_def)
qed

lemma Message_Write4_updates:
  assumes "Message_ComputeSize4 m = Inr (n, m')"
  shows "Message_Write4 m = Message_Write4 m'"
  by (simp add: Message_Write4_def assms MessageComputeSize4_idem [OF assms])

end
