(* ===== verification/RR_Message2_Laws.thy ===== *)
theory RR_Message2_Laws
  imports RR_Message2 RR_Message4_Laws
begin

text \<open>
  Laws of message format version 2: size fields, idempotence of the updates and the round trips.
\<close>

section \<open>Strings with 16-bit lengths\<close>

lemma checked_sizes_Inr:
  "checked_sizes xs = Inr k \<longleftrightarrow>
     (\<forall>x \<in> set xs. length (fst x) < 65536) \<and> k = sum_list (map (\<lambda>x. length (fst x)) xs)"
proof -
  have "find (\<lambda>(s, _). GetStringByteCount8 s > 65535) xs = None \<longleftrightarrow> (\<forall>x \<in> set xs. length (fst x) < 65536)"
    by (auto simp: find_None_iff GetStringByteCount8_def)
  then show ?thesis
    unfolding checked_sizes_def
    by (cases "find (\<lambda>(s, _). GetStringByteCount8 s > 65535) xs")
       (auto simp: GetStringByteCount8_def case_prod_beta')
qed

section \<open>UpdateData of elements\<close>

lemma element_compat_bits [simp]:
  "bit MessageElementFlags_Version2Compat 0" "\<not> bit MessageElementFlags_Version2Compat 2"
  by (simp_all add: MessageElementFlags_Version2Compat_def bit_simps)

lemma UpdateName_Inr:
  assumes "MessageElement_UpdateName lc f = Inr f'"
  shows "ElementFlags f' = MessageElementFlags_Version2Compat"
  using assms by (auto simp: MessageElement_UpdateName_def Let_def split: if_splits)

lemma UpdateName_fixed:
  "ElementFlags f = MessageElementFlags_Version2Compat \<Longrightarrow> MessageElement_UpdateName lc f = Inr f"
  by (simp add: MessageElement_UpdateName_def)

lemma UpdateType_fields:
  assumes "MessageElement_UpdateType f d = Inr f1"
  obtains tn n where "f1 = f\<lparr>ElementType := data_type d, ElementTypeName := tn, DataCount := n\<rparr>"
    and "\<And>g. MessageElement_UpdateType g d
        = Inr (g\<lparr>ElementType := data_type d, ElementTypeName := tn, DataCount := n\<rparr>)"
proof (cases d rule: data_cases)
  case None
  with assms show ?thesis
    by (auto simp: MessageElement_UpdateType_def type_group_def intro!: that)
next
  case (Array a)
  with assms show ?thesis
    by (auto simp: MessageElement_UpdateType_def intro!: that)
next
  case (Nested t tn es)
  with assms show ?thesis
    by (cases "type_group t")
       (auto simp: MessageElement_UpdateType_def Let_def
          numeric_cast_Inr
          intro: that [of 0 "''''"] that [of "of_nat (length es)" tn])
qed

lemma UpdateFields_idem:
  assumes "MessageElement_UpdateFields lc f d = Inr f'"
  shows "MessageElement_UpdateFields lc (f'\<lparr>ElementSize := n\<rparr>) d = Inr (f'\<lparr>ElementSize := n\<rparr>)"
proof -
  from assms obtain f1 where u: "MessageElement_UpdateName lc f = Inr f1"
    and t: "MessageElement_UpdateType f1 d = Inr f'"
    by (auto simp: MessageElement_UpdateFields_def)
  from t obtain tn k where f': "f' = f1\<lparr>ElementType := data_type d, ElementTypeName := tn, DataCount := k\<rparr>"
    and gen: "\<And>g. MessageElement_UpdateType g d
        = Inr (g\<lparr>ElementType := data_type d, ElementTypeName := tn, DataCount := k\<rparr>)"
    by (rule UpdateType_fields) (rule that, assumption+)
  show ?thesis
    using UpdateName_Inr [OF u]
    by (simp add: MessageElement_UpdateFields_def UpdateName_fixed f' gen)
qed

lemma UpdateType_same_shape:
  "same_shape d d' \<Longrightarrow> MessageElement_UpdateType f d' = MessageElement_UpdateType f d"
  by (cases d rule: data_cases; cases d' rule: data_cases)
     (auto simp: MessageElement_UpdateType_def Let_def split: type_group.split)

lemma UpdateFields_same_shape:
  "same_shape d d' \<Longrightarrow> MessageElement_UpdateFields lc f d' = MessageElement_UpdateFields lc f d"
  by (simp add: MessageElement_UpdateFields_def UpdateType_same_shape)

lemma ComputeSize_size [simp]:
  "MessageElement_ComputeSize lc (f\<lparr>ElementSize := n\<rparr>) d = MessageElement_ComputeSize lc f d"
  by (simp add: MessageElement_ComputeSize.simps element_string_sizes_def cong: type_group.case_cong)

lemma ComputeSize_InrE:
  assumes "MessageElement_ComputeSize lc f d = Inr (n, d')"
  obtains (Void) s where "type_group (ElementType f) = Group_void" and "d' = d"
      and "element_string_sizes f = Inr s" and "16 + s < 4294967296" and "n = of_nat (16 + s)"
  | (Array) s k where "type_group (ElementType f) = Group_array" and "d' = d"
      and "element_string_sizes f = Inr s" and "RRArrayElementSize (ElementType f) = Inr k"
      and "16 + s + size_mul (unat (DataCount f)) k < 4294967296"
      and "n = of_nat (16 + s + size_mul (unat (DataCount f)) k)"
  | (Nested) s t tn es s' es' where "type_group (ElementType f) = Group_nested"
      and "d = Some (NestedElementList t tn es)" and "d' = Some (NestedElementList t tn es')"
      and "element_string_sizes f = Inr s"
      and "UpdateData_elements lc (16 + s) es = Inr (s', es')"
      and "s' < 4294967296" and "n = of_nat s'"
proof (cases "type_group (ElementType f)")
  case Group_void
  with assms show ?thesis
    by (auto simp: MessageElement_ComputeSize.simps numeric_cast_Inr split: if_splits intro!: Void)
next
  case Group_array
  with assms show ?thesis
    by (auto simp: MessageElement_ComputeSize.simps numeric_cast_Inr split: if_splits intro!: Array)
next
  case Group_nested
  with assms show ?thesis
    by (cases d rule: data_cases)
       (auto simp: MessageElement_ComputeSize.simps numeric_cast_Inr throw_r_def
          split: prod.splits if_splits intro!: Nested)
next
  case Group_default
  with assms show ?thesis by (auto simp: MessageElement_ComputeSize.simps)
qed

lemma UpdateData_elements_length:
  "UpdateData_elements lc s es = Inr (s', es') \<Longrightarrow> length es' = length es"
  using UpdateData_nodes(3) [of lc s es s' es'] by (metis length_map)

lemma ComputeSize_shape: "MessageElement_ComputeSize lc f d = Inr (n, d') \<Longrightarrow> same_shape d d'"
  by (erule ComputeSize_InrE) (auto simp: UpdateData_elements_length)

lemma UpdateData_idem_all:
  "MessageElement_UpdateData lc e = Inr e' \<Longrightarrow> MessageElement_UpdateData lc e' = Inr e'"
  "MessageElement_ComputeSize lc f d = Inr (n, d') \<Longrightarrow> MessageElement_ComputeSize lc f d' = Inr (n, d')"
  "UpdateData_elements lc s es = Inr (s', es') \<Longrightarrow> UpdateData_elements lc s es' = Inr (s', es')"
proof (induction lc e and lc f d and lc s es arbitrary: e' and n d' and s' es'
    rule: MessageElement_UpdateData_MessageElement_ComputeSize_UpdateData_elements.induct)
  case (1 lc f d)
  from "1.prems" obtain f' n d' where f': "MessageElement_UpdateFields lc f d = Inr f'"
    and c: "MessageElement_ComputeSize lc f' d = Inr (n, d')"
    and e': "e' = MessageElement (f'\<lparr>ElementSize := n\<rparr>) d'"
    by (auto split: prod.splits)
  have "MessageElement_UpdateFields lc (f'\<lparr>ElementSize := n\<rparr>) d' = Inr (f'\<lparr>ElementSize := n\<rparr>)"
    using UpdateFields_idem [OF f', of n] UpdateFields_same_shape [OF ComputeSize_shape [OF c]]
    by simp
  with "1.IH" [OF f' c] e' show ?case by simp
next
  case (2 lc f d)
  from "2.prems" show ?case
  proof (cases rule: ComputeSize_InrE)
    case (Nested s t tn es s' es')
    from "2.IH" [OF Nested(4,1,2) refl Nested(5)] Nested show ?thesis
      by (auto simp: MessageElement_ComputeSize.simps)
  qed (auto simp: MessageElement_ComputeSize.simps)
next
  case (3 lc s)
  then show ?case by simp
next
  case (4 lc s e es)
  from "4.prems" obtain e' es'' where e': "MessageElement_UpdateData lc e = Inr e'"
    and rest: "UpdateData_elements lc (s + unat (ElementSize (flds e'))) es = Inr (s', es'')"
    and es': "es' = e' # es''"
    by (auto split: prod.splits)
  from "4.IH"(1) [OF e'] "4.IH"(2) [OF e' rest] es' show ?case by simp
qed

lemmas UpdateData_idem = UpdateData_idem_all(1)

section \<open>The encoding of elements\<close>

definition element2_fields_bytes :: "element_fields \<Rightarrow> byte list" where
  "element2_fields_bytes f =
     string16_bytes (ElementName f) @ num_bytes (DataTypes_code (ElementType f))
     @ string16_bytes (ElementTypeName f) @ string16_bytes (ElementMetaData f)
     @ num_bytes (DataCount f)"

fun element2_bytes :: "MessageElement \<Rightarrow> byte list" where
  "element2_bytes (MessageElement f d) =
     num_bytes (ElementSize f) @ element2_fields_bytes f
     @ (case d of
          None \<Rightarrow> []
        | Some (ArrayData a) \<Rightarrow> array_bytes a
        | Some (NestedElementList t tn es) \<Rightarrow>
            if is_nested_type t then concat (map element2_bytes es) else [])"

definition element2_data_bytes :: "MessageElementData option \<Rightarrow> byte list" where
  "element2_data_bytes d =
     (case d of
          None \<Rightarrow> []
        | Some (ArrayData a) \<Rightarrow> array_bytes a
        | Some (NestedElementList t tn es) \<Rightarrow>
            if is_nested_type t then concat (map element2_bytes es) else [])"

lemma element2_bytes_split:
  "element2_bytes (MessageElement f d) = num_bytes (ElementSize f) @ element2_fields_bytes f @ element2_data_bytes d"
  by (simp add: element2_data_bytes_def)

lemma length_element2_fields:
  "length (element2_fields_bytes f)
    = 12 + length (ElementName f) + length (ElementTypeName f) + length (ElementMetaData f)"
  by (simp add: element2_fields_bytes_def)

definition valid_element2 :: "(32 word \<Rightarrow> string) \<Rightarrow> MessageElement \<Rightarrow> bool" where
  "valid_element2 lc e \<longleftrightarrow>
     MessageElement_UpdateData lc e = Inr e \<and> length (element2_bytes e) < 2 ^ 31"

definition view_fields2 :: "element_fields \<Rightarrow> element_fields" where
  "view_fields2 f = f\<lparr>ElementNameCode := 0, ElementNumber := 0, ElementTypeNameCode := 0, ElementExtended := []\<rparr>"

fun element2_view :: "MessageElement \<Rightarrow> MessageElement" where
  "element2_view (MessageElement f d) =
     MessageElement (view_fields2 f)
       (case d of
          None \<Rightarrow> None
        | Some (ArrayData a) \<Rightarrow> Some (ArrayData a)
        | Some (NestedElementList t tn es) \<Rightarrow>
            if is_nested_type t
            then Some (NestedElementList t (ElementTypeName f) (map element2_view es))
            else None)"

lemma fixed_fields2:
  assumes "MessageElement_UpdateData lc (MessageElement f d) = Inr (MessageElement f d)"
  shows "MessageElement_UpdateFields lc f d = Inr f"
    and "MessageElement_ComputeSize lc f d = Inr (ElementSize f, d)"
proof -
  from assms obtain f' n where f': "MessageElement_UpdateFields lc f d = Inr f'"
    and c: "MessageElement_ComputeSize lc f' d = Inr (n, d)" and f: "f = f'\<lparr>ElementSize := n\<rparr>"
    by (auto split: prod.splits)
  show "MessageElement_ComputeSize lc f d = Inr (ElementSize f, d)"
    using c unfolding f by simp
  show "MessageElement_UpdateFields lc f d = Inr f"
    using UpdateFields_idem [OF f', of n] by (simp only: f [symmetric])
qed

lemma fixed_type2:
  assumes "MessageElement_UpdateFields lc f d = Inr f"
  shows "ElementFlags f = MessageElementFlags_Version2Compat" and "ElementType f = data_type d"
    and "MessageElement_UpdateType f d = Inr f"
proof -
  from assms obtain f1 where u: "MessageElement_UpdateName lc f = Inr f1"
    and t: "MessageElement_UpdateType f1 d = Inr f"
    by (auto simp: MessageElement_UpdateFields_def)
  from t obtain tn k where f: "f = f1\<lparr>ElementType := data_type d, ElementTypeName := tn, DataCount := k\<rparr>"
    and gen: "\<And>g. MessageElement_UpdateType g d
        = Inr (g\<lparr>ElementType := data_type d, ElementTypeName := tn, DataCount := k\<rparr>)"
    by (rule UpdateType_fields) (rule that, assumption+)
  show "ElementFlags f = MessageElementFlags_Version2Compat" "ElementType f = data_type d"
    "MessageElement_UpdateType f d = Inr f"
    using UpdateName_Inr [OF u] by (simp_all add: gen f)
qed

lemma UpdateType_data:
  assumes "MessageElement_UpdateType f d = Inr f1"
  shows "d = Some (ArrayData a) \<Longrightarrow> array_size a < 4294967296 \<and> DataCount f1 = of_nat (array_size a)"
    and "d = Some (NestedElementList t tn es) \<Longrightarrow> is_nested_type t \<Longrightarrow>
      length es < 4294967296 \<and> DataCount f1 = of_nat (length es)"
    and "d = Some (NestedElementList t tn es) \<Longrightarrow> is_nested_type t \<or> t = DataTypes_void_t"
  using assms type_group_nested [of t] type_group_void [of t]
  by (cases "type_group t"; auto simp: MessageElement_UpdateType_def Let_def numeric_cast_Inr)+

lemma UpdateType_void:
  "MessageElement_UpdateType f d = Inr f1 \<Longrightarrow> data_type d = DataTypes_void_t \<Longrightarrow> DataCount f1 = 0"
  by (auto simp: MessageElement_UpdateType_def Let_def type_group_def)

lemmas fixed_data2 = UpdateType_data [OF fixed_type2(3)]

lemma fixed_data_cases2:
  assumes "MessageElement_UpdateData lc (MessageElement f d) = Inr (MessageElement f d)"
  obtains (Void) "type_group (ElementType f) = Group_void" and "ElementType f = DataTypes_void_t"
    and "element2_data_bytes d = []"
    and "element2_view (MessageElement f d) = MessageElement (view_fields2 f) None"
  | (Array) a where "d = Some (ArrayData a)" and "ElementType f = array_type a"
  | (Nested) tn es where "d = Some (NestedElementList (ElementType f) tn es)"
    and "is_nested_type (ElementType f)" and "type_group (ElementType f) = Group_nested"
proof -
  note ff = fixed_fields2(1) [OF assms]
  note ty = fixed_type2(2) [OF ff]
  show ?thesis
  proof (cases d rule: data_cases)
    case None
    with ty show ?thesis by (intro Void) (simp_all add: type_group_void element2_data_bytes_def)
  next
    case Array': (Array a)
    with ty show ?thesis by (intro Array) auto
  next
    case Nested': (Nested t tn es)
    with ty have t: "t = ElementType f" by simp
    show ?thesis
    proof (cases "is_nested_type t")
      case True
      with Nested' t show ?thesis by (intro Nested) (auto simp: type_group_nested)
    next
      case False
      with t Nested' fixed_data2(3) [OF ff Nested'] show ?thesis
        by (intro Void) (auto simp: type_group_void element2_data_bytes_def)
    qed
  qed
qed

section \<open>ElementSize is the length of the encoding\<close>

lemma element_string_sizes_Inr:
  "element_string_sizes f = Inr s \<longleftrightarrow>
     length (ElementName f) < 65536 \<and> length (ElementTypeName f) < 65536
     \<and> length (ElementMetaData f) < 65536
     \<and> s = length (ElementName f) + length (ElementTypeName f) + length (ElementMetaData f)"
  unfolding element_string_sizes_def checked_sizes_Inr by auto

lemma fixed_children2:
  "UpdateData_elements lc s es = Inr (s', es) \<Longrightarrow> c \<in> set es \<Longrightarrow> MessageElement_UpdateData lc c = Inr c"
  by (induction es arbitrary: s) (auto split: prod.splits)

lemma children_size2:
  "UpdateData_elements lc s es = Inr (s', es) \<Longrightarrow>
   \<forall>c \<in> set es. unat (ElementSize (flds c)) = length (element2_bytes c) \<Longrightarrow>
   s' = s + length (concat (map element2_bytes es))"
proof (induction es arbitrary: s)
  case Nil
  then show ?case by simp
next
  case (Cons c es)
  then have u: "UpdateData_elements lc (s + unat (ElementSize (flds c))) es = Inr (s', es)"
    by (auto split: prod.splits)
  from Cons.IH [OF u] Cons.prems show ?case by simp
qed

lemma valid_element2_children:
  assumes "valid_element2 lc (MessageElement f (Some (NestedElementList t tn es)))"
    and "is_nested_type t" and "c \<in> set es"
  shows "valid_element2 lc c"
proof -
  from assms(1) have fix2: "MessageElement_UpdateData lc (MessageElement f (Some (NestedElementList t tn es)))
    = Inr (MessageElement f (Some (NestedElementList t tn es)))"
    by (simp add: valid_element2_def)
  note c = fixed_fields2(2) [OF this]
  have "ElementType f = t" using fixed_type2(2) [OF fixed_fields2(1) [OF fix2]] by simp
  with assms(2) have "type_group (ElementType f) = Group_nested" by (simp add: type_group_nested)
  with c obtain s s' where "UpdateData_elements lc s es = Inr (s', es)"
    by (elim ComputeSize_InrE) auto
  then have "MessageElement_UpdateData lc c = Inr c" using assms(3) by (rule fixed_children2)
  moreover have "length (element2_bytes c) \<le> length (concat (map element2_bytes es))"
    using assms(3) by (induction es) auto
  ultimately show ?thesis
    using assms(1,2) by (simp add: valid_element2_def)
qed

theorem element2_size:
  "valid_element2 lc (MessageElement f d) \<Longrightarrow>
   unat (ElementSize f) = length (element2_bytes (MessageElement f d))"
proof (induction "MessageElement f d" arbitrary: f d rule: element_induct)
  case (MessageElement f d)
  from MessageElement.prems
  have fix2: "MessageElement_UpdateData lc (MessageElement f d) = Inr (MessageElement f d)"
    and small: "4 + length (element2_fields_bytes f) + length (element2_data_bytes d) < 2147483648"
    by (simp_all add: valid_element2_def element2_bytes_split del: element2_bytes.simps)
  note ff = fixed_fields2(1) [OF fix2]
  note ty = fixed_type2(2) [OF ff]
  have "length (element2_bytes (MessageElement f d))
      = 4 + length (element2_fields_bytes f) + length (element2_data_bytes d)"
    unfolding element2_bytes_split by simp
  moreover from fixed_fields2(2) [OF fix2]
  have "unat (ElementSize f) = 4 + length (element2_fields_bytes f) + length (element2_data_bytes d)"
  proof (cases rule: ComputeSize_InrE)
    case (Void s)
    then have "ElementType f = DataTypes_void_t"
      by (simp add: type_group_void)
    with ty have "element2_data_bytes d = []"
      by (cases d rule: data_cases) (auto simp: element2_data_bytes_def)
    moreover have "unat (ElementSize f) = 16 + s"
      using Void(4) unfolding Void(5) by (rule unat_of_nat_u32)
    ultimately show ?thesis
      using Void(3) by (simp add: length_element2_fields element_string_sizes_Inr)
  next
    case (Array s k)
    then obtain a where d: "d = Some (ArrayData a)"
      using fixed_data_cases2 [OF fix2] by (metis type_group.distinct)
    then have "length (element2_data_bytes d) = array_size a * k"
      using Array(4) ty by (simp add: element2_data_bytes_def array_bytes_length)
    moreover have "array_size a < 4294967296" "DataCount f = of_nat (array_size a)"
      using fixed_data2(1) [OF ff d] by auto
    moreover have "size_mul (unat (DataCount f)) k = array_size a * k"
      using small calculation by simp
    moreover have "unat (ElementSize f) = 16 + s + size_mul (unat (DataCount f)) k"
      using Array(5) unfolding Array(6) by (rule unat_of_nat_u32)
    ultimately show ?thesis
      using Array(3) by (simp add: length_element2_fields element_string_sizes_Inr)
  next
    case (Nested s t tn es s' es')
    have nt: "is_nested_type t"
      using Nested(1,2) ty by (simp add: type_group_nested)
    have "\<forall>c \<in> set es. unat (ElementSize (flds c)) = length (element2_bytes c)"
    proof
      fix c assume c: "c \<in> set es"
      have "valid_element2 lc c"
        using MessageElement.prems nt c unfolding Nested(2) by (rule valid_element2_children)
      moreover obtain fc dc where "c = MessageElement fc dc" by (cases c)
      ultimately show "unat (ElementSize (flds c)) = length (element2_bytes c)"
        using MessageElement.hyps [OF Nested(2), of fc dc] c by simp
    qed
    moreover have data: "element2_data_bytes d = concat (map element2_bytes es)"
      using nt Nested(2) by (simp add: element2_data_bytes_def)
    ultimately have "s' = 16 + s + length (element2_data_bytes d)"
      using children_size2 [of lc "16 + s" es s'] Nested(2,3,5) by simp
    moreover have "unat (ElementSize f) = s'"
      using Nested(6) unfolding Nested(7) by (rule unat_of_nat_u32)
    ultimately show ?thesis
      using Nested(4) by (simp add: length_element2_fields element_string_sizes_Inr)
  qed
  ultimately show ?case by simp
qed

lemma fixed_strings2:
  assumes "MessageElement_UpdateData lc (MessageElement f d) = Inr (MessageElement f d)"
  shows "length (ElementName f) < 65536" and "length (ElementTypeName f) < 65536"
    and "length (ElementMetaData f) < 65536"
  using fixed_fields2(2) [OF assms]
  by (auto elim!: ComputeSize_InrE simp: element_string_sizes_Inr)

section \<open>Write and Read of elements\<close>

lemma writes_Write_elements:
  "\<forall>c \<in> set es. writes (MessageElement_Write lc c) (element2_bytes c) c \<Longrightarrow>
   writes (Write_elements lc es) (concat (map element2_bytes es)) es"
proof (induction es)
  case Nil
  show ?case unfolding Write_elements.simps list.map concat.simps by (rule writes_return)
next
  case (Cons c es)
  then have "writes (Write_elements lc (c # es)) (element2_bytes c @ (concat (map element2_bytes es) @ [])) (c # es)"
    unfolding Write_elements.simps by (intro writes_bind [of _ _ c] writes_bind [of _ _ es] writes_return) auto
  then show ?case by simp
qed

theorem writes_Write2:
  "valid_element2 lc e \<Longrightarrow> writes (MessageElement_Write lc e) (element2_bytes e) e"
proof (induction e rule: element_induct)
  case (MessageElement f d)
  then have fix2: "MessageElement_UpdateData lc (MessageElement f d) = Inr (MessageElement f d)"
    by (simp add: valid_element2_def)
  have sz: "unat (ElementSize f)
      = length ((num_bytes (ElementSize f) @ element2_fields_bytes f) @ element2_data_bytes d)"
    using element2_size [OF MessageElement.prems] by (simp only: element2_bytes_split append_assoc)
  define body where "body =
      (case type_group (ElementType f) of
         Group_void \<Rightarrow> return_s (MessageElement (f\<lparr>DataCount := 0\<rparr>) d)
       | Group_array \<Rightarrow>
           (case d of
              Some (ArrayData a) \<Rightarrow> then_s (WriteArray a) (return_s (MessageElement f d))
            | None \<Rightarrow> throw_s DataTypeException ''''
            | _ \<Rightarrow> fail_s (UndefinedBehaviour ''static cast to RRBaseArray''))
       | Group_nested \<Rightarrow>
           (case d of
              Some (NestedElementList t tn es) \<Rightarrow>
                bind_s (Write_elements lc es) (\<lambda>es'.
                  return_s (MessageElement f (Some (NestedElementList t tn es'))))
            | None \<Rightarrow> throw_s DataTypeException ''Expected MessageElementNestedElementList''
            | _ \<Rightarrow> fail_s (UndefinedBehaviour ''static cast to MessageElementNestedElementList''))
       | Group_default \<Rightarrow> throw_s DataTypeException ''Unknown data type'')"
  have W: "MessageElement_Write lc (MessageElement f d) =
    limited_w (unat (ElementSize f)) (then_s (MessageElement_Write_head f) body)"
    unfolding MessageElement_Write.simps [of lc "MessageElement f d"] fix2 bind_s_lift_Inr
      MessageElement.sel body_def by (rule refl)
  have hd: "writes (MessageElement_Write_head f) (num_bytes (ElementSize f) @ element2_fields_bytes f) ()"
    unfolding MessageElement_Write_head_def element2_fields_bytes_def
    by (rule writes_rule | use fixed_strings2 [OF fix2] in simp)+
  have "writes body (element2_data_bytes d) (MessageElement f d)"
    using fix2
  proof (cases rule: fixed_data_cases2)
    case Void
    have "DataCount f = 0"
      using UpdateType_void [OF fixed_type2(3)] fixed_type2(2) fixed_fields2(1) [OF fix2] Void(2) by metis
    then have "f\<lparr>DataCount := 0\<rparr> = f" by (auto intro: element_fields.equality)
    with Void show ?thesis by (simp add: body_def writes_return)
  next
    case (Array a)
    have "writes (then_s (WriteArray a) (return_s (MessageElement f d))) (array_bytes a @ []) (MessageElement f d)"
      by (intro writes_then [OF writes_WriteArray] writes_return)
    with Array show ?thesis by (simp add: body_def element2_data_bytes_def)
  next
    case (Nested tn es)
    have "\<forall>c \<in> set es. writes (MessageElement_Write lc c) (element2_bytes c) c"
      using MessageElement Nested(1,2) valid_element2_children by blast
    then have "writes (bind_s (Write_elements lc es) (\<lambda>es'.
          return_s (MessageElement f (Some (NestedElementList (ElementType f) tn es')))))
        (concat (map element2_bytes es) @ []) (MessageElement f d)"
      unfolding Nested(1) by (rule writes_bind [OF writes_Write_elements writes_return])
    with Nested show ?thesis by (simp add: body_def element2_data_bytes_def)
  qed
  then show ?case unfolding W element2_bytes_split append_assoc [symmetric]
    by (intro writes_limited [OF _ sz] writes_then [OF hd])
qed

lemma element2_bytes_min: "16 \<le> length (element2_bytes e)"
  by (cases e) (simp only: element2_bytes_split length_append length_element2_fields, simp)

lemma children2_bytes_min: "16 * length es \<le> length (concat (map element2_bytes es))"
proof (induction es)
  case (Cons c es)
  then show ?case using element2_bytes_min [of c] by simp
qed simp

lemma child2_bytes_less:
  assumes "c \<in> set es" and "is_nested_type t"
  shows "length (element2_bytes c) < length (element2_bytes (MessageElement f (Some (NestedElementList t tn es))))"
proof -
  have "length (element2_bytes c) \<le> length (concat (map element2_bytes es))"
    using assms(1) by (induction es) auto
  then show ?thesis using assms(2) by simp
qed

lemma element_view2_fields:
  "ElementFlags f = MessageElementFlags_Version2Compat \<Longrightarrow>
   default_element_fields\<lparr>ElementSize := ElementSize f, ElementName := ElementName f,
     ElementType := ElementType f, ElementTypeName := ElementTypeName f,
     ElementMetaData := ElementMetaData f, DataCount := DataCount f\<rparr> = view_fields2 f"
  by (simp add: view_fields2_def default_element_fields_def)

lemma reads_Read2_body:
  assumes fix2: "MessageElement_UpdateData lc (MessageElement f d) = Inr (MessageElement f d)"
    and "proper_type (ElementType f)"
    and "reads (case type_group (ElementType f) of
          Group_void \<Rightarrow> return_s None
        | Group_array \<Rightarrow> ReadArrayData (ElementType f) (DataCount f)
        | Group_nested \<Rightarrow> ReadNestedData rd (ElementType f) (ElementTypeName f) (DataCount f)
        | Group_default \<Rightarrow> throw_s DataTypeException ''Unknown data type'') bs d'"
  shows "reads (MessageElement_Read_body rd (ElementSize f)) (element2_fields_bytes f @ bs)
    (MessageElement (view_fields2 f) d')"
proof -
  have d: "DataTypes_of_code (DataTypes_code (ElementType f)) = ElementType f"
    using assms(2) by simp
  note L = fixed_strings2 [OF fix2]
  have "reads (MessageElement_Read_body rd (ElementSize f)) (element2_fields_bytes f @ bs @ [])
    (MessageElement (view_fields2 f) d')"
    unfolding element2_fields_bytes_def MessageElement_Read_body_def append_assoc
    apply (rule reads_bind [OF reads_string16 [OF L(1)]])
    apply (rule reads_bind [OF reads_ReadNumber16])
    apply (rule reads_bind [OF reads_string16 [OF L(2)]])
    apply (rule reads_bind [OF reads_string16 [OF L(3)]])
    apply (rule reads_bind [OF reads_ReadNumber32])
    apply (unfold d)
    apply (rule reads_bind [OF assms(3)])
    apply (rule reads_return_eq)
    by (simp add: element_view2_fields fixed_type2(1) [OF fixed_fields2(1) [OF fix2]])
  then show ?thesis by simp
qed

lemma fixed_proper2:
  assumes "MessageElement_UpdateData lc (MessageElement f d) = Inr (MessageElement f d)"
  shows "proper_type (ElementType f)"
  using assms by (cases rule: fixed_data_cases2) auto

lemma reads_nested_list:
  assumes "\<forall>c \<in> set es. reads rd (enc c) (view c)" and "length es < 4294967296"
    and "4 * length es \<le> length (concat (map enc es))"
  shows "reads (ReadNestedData rd t tn (of_nat (length es))) (concat (map enc es))
    (Some (NestedElementList t tn (map view es)))"
proof -
  have "reads (bind_s (repeat_s (length es) rd) (\<lambda>l. return_s (Some (NestedElementList t tn l))))
      (concat (map enc es) @ []) (Some (NestedElementList t tn (map view es)))"
    by (rule reads_bind [OF reads_repeat_all [OF assms(1)] reads_return])
  then show ?thesis
    using assms(2,3) unfolding ReadNestedData_def
    by (auto intro!: reads_guard_then heap_alloc_fits)
qed

theorem reads_Read2_fuel:
  "valid_element2 lc e \<Longrightarrow> length (element2_bytes e) \<le> k \<Longrightarrow>
   reads (MessageElement_Read_fuel k) (element2_bytes e) (element2_view e)"
proof (induction e arbitrary: k rule: element_induct)
  case (MessageElement f d)
  then obtain k' where k: "k = Suc k'"
    using element2_bytes_min [of "MessageElement f d"] by (cases k) auto
  from MessageElement.prems
  have fix2: "MessageElement_UpdateData lc (MessageElement f d) = Inr (MessageElement f d)"
    and small: "4 + length (element2_fields_bytes f) + length (element2_data_bytes d) < 2147483648"
    by (simp_all add: valid_element2_def element2_bytes_split del: element2_bytes.simps)
  note ff = fixed_fields2(1) [OF fix2]
  have "unat (ElementSize f) = 4 + length (element2_fields_bytes f @ element2_data_bytes d)"
    using element2_size [OF MessageElement.prems(1)] by (simp only: element2_bytes_split) simp
  then have sz: "unat (ElementSize f - 4) = length (element2_fields_bytes f @ element2_data_bytes d)"
    by (simp add: unat_sub word_le_nat_alt)
  define d' where "d' = dat (element2_view (MessageElement f d))"
  then have v: "element2_view (MessageElement f d) = MessageElement (view_fields2 f) d'" by simp
  have "reads (case type_group (ElementType f) of
          Group_void \<Rightarrow> return_s None
        | Group_array \<Rightarrow> ReadArrayData (ElementType f) (DataCount f)
        | Group_nested \<Rightarrow> ReadNestedData (MessageElement_Read_fuel k') (ElementType f) (ElementTypeName f) (DataCount f)
        | Group_default \<Rightarrow> throw_s DataTypeException ''Unknown data type'') (element2_data_bytes d) d'"
    using fix2
  proof (cases rule: fixed_data_cases2)
    case Void
    then show ?thesis by (simp add: d'_def reads_return)
  next
    case (Array a)
    then show ?thesis
      using reads_ReadArrayData [of "ElementType f" a "DataCount f"] fixed_data2(1) [OF ff Array(1)] small
      by (simp add: d'_def element2_data_bytes_def)
  next
    case (Nested tn es)
    have "\<forall>c \<in> set es. reads (MessageElement_Read_fuel k') (element2_bytes c) (element2_view c)"
    proof
      fix c assume c: "c \<in> set es"
      have "length (element2_bytes c) \<le> k'"
        using child2_bytes_less [OF c Nested(2), of f tn] MessageElement.prems(2) Nested(1) k by simp
      with MessageElement.IH [OF Nested(1) c] c valid_element2_children [OF _ Nested(2)] MessageElement.prems(1)
      show "reads (MessageElement_Read_fuel k') (element2_bytes c) (element2_view c)"
        unfolding Nested(1) by blast
    qed
    moreover have "length es < 4294967296" "DataCount f = of_nat (length es)"
      using fixed_data2(2) [OF ff Nested(1,2)] by auto
    moreover have "4 * length es \<le> length (concat (map element2_bytes es))"
      using children2_bytes_min [of es] by linarith
    ultimately show ?thesis
      using Nested(2,3) reads_nested_list [of es "MessageElement_Read_fuel k'" element2_bytes element2_view]
      unfolding d'_def Nested(1) by (simp add: element2_data_bytes_def)
  qed
  note body = reads_Read2_body [OF fix2 fixed_proper2 [OF fix2] this]
  show ?case
    unfolding v k MessageElement_Read_fuel.simps element2_bytes_split
    by (rule reads_bind [OF reads_ReadNumber32], rule reads_limited [OF body sz])
qed

theorem reads_Read2:
  assumes "valid_element2 lc e"
  shows "reads MessageElement_Read (element2_bytes e) (element2_view e)"
proof (rule readsI)
  fix r assume ok: "ok_reader r" and s: "sees r (element2_bytes e)"
  from sees_fits [OF this] have "length (element2_bytes e) \<le> Suc (length (r_buffer r))" by simp
  with assms have "reads (MessageElement_Read_fuel (Suc (length (r_buffer r)))) (element2_bytes e) (element2_view e)"
    by (rule reads_Read2_fuel)
  with ok s show "MessageElement_Read r = Inr (element2_view e, advance (length (element2_bytes e)) r)"
    unfolding MessageElement_Read_def by (auto dest: readsD)
qed

interpretation element2: sized_codec
  "MessageElement_Write lc" MessageElement_Read element2_bytes "\<lambda>e. e" element2_view "valid_element2 lc"
  "\<lambda>e. unat (ElementSize (flds e))" for lc
proof unfold_locales
  fix e assume v: "valid_element2 lc e"
  show "writes (MessageElement_Write lc e) (element2_bytes e) e" by (rule writes_Write2 [OF v])
  show "reads MessageElement_Read (element2_bytes e) (element2_view e)" by (rule reads_Read2 [OF v])
  show "length (element2_bytes e) = unat (ElementSize (flds e))"
    using v element2_size by (cases e) simp
qed

section \<open>Entries\<close>

definition entry2_fields_bytes :: "message_entry \<Rightarrow> byte list" where
  "entry2_fields_bytes m =
     num_bytes (EntryType m) @ num_bytes (0 :: 16 word) @ string16_bytes (ServicePath m)
     @ string16_bytes (MemberName m) @ num_bytes (RequestID m) @ num_bytes (EntryError m)
     @ string16_bytes (EntryMetaData m) @ num_bytes (of_nat (length (elements m)) :: 16 word)"

definition entry2_bytes :: "message_entry \<Rightarrow> byte list" where
  "entry2_bytes m =
     num_bytes (EntrySize m) @ entry2_fields_bytes m @ concat (map element2_bytes (elements m))"

text \<open>The element count is written as a \<open>uint16_t\<close>: \<open>Write\<close> throws on more than 65535 elements.\<close>

definition valid_entry2 :: "(32 word \<Rightarrow> string) \<Rightarrow> message_entry \<Rightarrow> bool" where
  "valid_entry2 lc m \<longleftrightarrow>
     MessageEntry_UpdateData lc m = Inr m \<and> length (elements m) < 65536
     \<and> length (entry2_bytes m) < 2 ^ 31"

definition entry2_view :: "message_entry \<Rightarrow> message_entry" where
  "entry2_view m =
     m\<lparr>ServicePathCode := 0, MemberNameCode := 0, EntryExtended := [],
       elements := map element2_view (elements m)\<rparr>"

lemma EntryUpdateData2_InrE:
  assumes "MessageEntry_UpdateData lc m = Inr m'"
  obtains s k es where "EntryFlags m = MessageEntryFlags_Version2Compat"
    and "UpdateData_elements lc 22 (elements m) = Inr (s, es)"
    and "length (ServicePath m) < 65536" "length (MemberName m) < 65536" "length (EntryMetaData m) < 65536"
    and "k = length (ServicePath m) + length (MemberName m) + length (EntryMetaData m)"
    and "s + k < 4294967296" and "m' = m\<lparr>EntrySize := of_nat (s + k), elements := es\<rparr>"
  using assms
  by (auto simp: MessageEntry_UpdateData_def MessageEntry_ComputeSize_def checked_sizes_Inr
      numeric_cast_Inr add.assoc split: if_splits prod.splits)

lemma EntryUpdateData2_idem:
  assumes "MessageEntry_UpdateData lc m = Inr m'"
  shows "MessageEntry_UpdateData lc m' = Inr m'"
  using assms
proof (cases rule: EntryUpdateData2_InrE)
  case (1 s k es)
  have "UpdateData_elements lc 22 es = Inr (s, es)"
    using 1(2) by (rule UpdateData_idem_all(3))
  moreover have "checked_sizes [(ServicePath m, ''ServicePath''), (MemberName m, ''MemberName''),
        (EntryMetaData m, ''MessageEntry MetaData'')] = Inr k"
    using 1(3-6) by (simp add: checked_sizes_Inr)
  ultimately show ?thesis
    using 1(1,7) unfolding 1(8)
    by (simp add: MessageEntry_UpdateData_def MessageEntry_ComputeSize_def)
qed

lemma fixed_entry2:
  assumes "MessageEntry_UpdateData lc m = Inr m"
  obtains s where "EntryFlags m = MessageEntryFlags_Version2Compat"
    and "UpdateData_elements lc 22 (elements m) = Inr (s, elements m)"
    and "length (ServicePath m) < 65536" "length (MemberName m) < 65536" "length (EntryMetaData m) < 65536"
    and "unat (EntrySize m) = s + length (ServicePath m) + length (MemberName m) + length (EntryMetaData m)"
  using assms
proof (cases rule: EntryUpdateData2_InrE)
  case (1 s k es)
  have "EntrySize m = of_nat (s + k)" "elements m = es"
    by (subst 1(8), simp)+
  moreover have "unat (of_nat (s + k) :: 32 word) = s + k"
    using 1(7) by (rule unat_of_nat_u32)
  ultimately show ?thesis
    using 1(1-6) that by simp
qed

lemma fixed_entry2_strings:
  assumes "MessageEntry_UpdateData lc m = Inr m"
  shows "EntryFlags m = MessageEntryFlags_Version2Compat"
    and "length (ServicePath m) < 65536" and "length (MemberName m) < 65536"
    and "length (EntryMetaData m) < 65536"
  using assms by (auto elim: EntryUpdateData2_InrE)

lemma valid_entry2_elements:
  assumes "valid_entry2 lc m" and "c \<in> set (elements m)"
  shows "valid_element2 lc c"
proof -
  from assms(1) have fix2: "MessageEntry_UpdateData lc m = Inr m" by (simp add: valid_entry2_def)
  then obtain s where "UpdateData_elements lc 22 (elements m) = Inr (s, elements m)"
    by (rule fixed_entry2)
  then have "MessageElement_UpdateData lc c = Inr c" using assms(2) by (rule fixed_children2)
  moreover have "length (element2_bytes c) \<le> length (concat (map element2_bytes (elements m)))"
    using assms(2) by (auto simp: in_set_conv_decomp)
  ultimately show ?thesis
    using assms(1) by (simp add: valid_entry2_def valid_element2_def entry2_bytes_def)
qed

lemma entry2_size:
  assumes "valid_entry2 lc m"
  shows "unat (EntrySize m) = length (entry2_bytes m)"
    and "unat (EntrySize m - 4)
      = length (entry2_fields_bytes m @ concat (map element2_bytes (elements m)))"
proof -
  from assms have "MessageEntry_UpdateData lc m = Inr m" by (simp add: valid_entry2_def)
  then obtain s where u: "UpdateData_elements lc 22 (elements m) = Inr (s, elements m)"
    and sz: "unat (EntrySize m) = s + length (ServicePath m) + length (MemberName m) + length (EntryMetaData m)"
    by (rule fixed_entry2)
  have "\<forall>c \<in> set (elements m). unat (ElementSize (flds c)) = length (element2_bytes c)"
    using valid_entry2_elements [OF assms] by (metis element2.bytecount)
  then have "s = 22 + length (concat (map element2_bytes (elements m)))"
    using children_size2 [OF u] by simp
  then show t: "unat (EntrySize m) = length (entry2_bytes m)"
    using sz by (simp add: entry2_bytes_def entry2_fields_bytes_def)
  then show "unat (EntrySize m - 4)
      = length (entry2_fields_bytes m @ concat (map element2_bytes (elements m)))"
    by (simp add: entry2_bytes_def unat_sub word_le_nat_alt)
qed

theorem writes_entry2:
  assumes "valid_entry2 lc m"
  shows "writes (MessageEntry_Write lc m) (entry2_bytes m) m"
proof -
  from assms have fix2: "MessageEntry_UpdateData lc m = Inr m" and n: "length (elements m) < 65536"
    by (simp_all add: valid_entry2_def)
  note L = fixed_entry2_strings(2-4) [OF fix2]
  have "\<forall>c \<in> set (elements m). writes (MessageElement_Write lc c) (element2_bytes c) (id c)"
    using valid_entry2_elements [OF assms] by (simp add: writes_Write2)
  note es = writes_for_s [OF this]
  have "writes (bind_s (for_s (MessageElement_Write lc) (elements m)) (\<lambda>es. return_s (m\<lparr>elements := es\<rparr>)))
      (concat (map element2_bytes (elements m)) @ []) (m\<lparr>elements := map id (elements m)\<rparr>)"
    by (rule writes_bind [OF es writes_return])
  then have els: "writes (bind_s (for_s (MessageElement_Write lc) (elements m)) (\<lambda>es. return_s (m\<lparr>elements := es\<rparr>)))
      (concat (map element2_bytes (elements m))) m" by simp
  have count: "writes (bind_s (lift_s (numeric_cast_u16 (length (elements m)))) WriteNumber)
      (num_bytes (of_nat (length (elements m)) :: 16 word)) ()"
    using n by (simp add: writes_WriteNumber)
  have "writes (MessageEntry_Write_head m) (num_bytes (EntrySize m) @ entry2_fields_bytes m) ()"
    unfolding MessageEntry_Write_head_def entry2_fields_bytes_def
    by (rule count writes_rule | use L in simp)+
  from writes_then [OF this els] show ?thesis
    unfolding MessageEntry_Write_def fix2 bind_s_lift_Inr entry2_bytes_def append_assoc
    by (rule writes_limited) (simp add: entry2_size(1) [OF assms] entry2_bytes_def)
qed

lemma entry_view2_fields:
  "EntryFlags m = MessageEntryFlags_Version2Compat \<Longrightarrow>
   CreateMessageEntry\<lparr>EntrySize := EntrySize m, EntryType := EntryType m,
     ServicePath := ServicePath m, MemberName := MemberName m, RequestID := RequestID m,
     EntryError := EntryError m, EntryMetaData := EntryMetaData m,
     elements := map element2_view (elements m)\<rparr> = entry2_view m"
  by (simp add: entry2_view_def CreateMessageEntry_def)

theorem reads_entry2:
  assumes "valid_entry2 lc m"
  shows "reads MessageEntry_Read (entry2_bytes m) (entry2_view m)"
proof -
  from assms have fix2: "MessageEntry_UpdateData lc m = Inr m" and n: "length (elements m) < 65536"
    by (simp_all add: valid_entry2_def)
  note fl = fixed_entry2_strings(1) [OF fix2] and L = fixed_entry2_strings(2-4) [OF fix2]
  have "\<forall>c \<in> set (elements m). reads MessageElement_Read (element2_bytes c) (element2_view c)"
    using valid_entry2_elements [OF assms] reads_Read2 by blast
  note es = reads_repeat_all [OF this]
  have n': "unat (of_nat (length (elements m)) :: 16 word) = length (elements m)"
    using n by simp
  have alloc: "heap_alloc (4 * length (elements m)) r = Inr ((), r)"
    if "ok_reader r" "sees r (concat (map element2_bytes (elements m)) @ [])" for r
    using that children2_bytes_min [of "elements m"] by (auto intro!: heap_alloc_fits)
  have "reads (MessageEntry_Read_body (EntrySize m))
      (entry2_fields_bytes m @ concat (map element2_bytes (elements m)) @ []) (entry2_view m)"
    unfolding entry2_fields_bytes_def MessageEntry_Read_body_def append_assoc
    apply (rule reads_bind [OF reads_ReadNumber16])
    apply (rule reads_bind [OF reads_ReadNumber16])
    apply (rule reads_bind [OF reads_string16 [OF L(1)]])
    apply (rule reads_bind [OF reads_string16 [OF L(2)]])
    apply (rule reads_bind [OF reads_ReadNumber32])
    apply (rule reads_bind [OF reads_ReadNumber16])
    apply (rule reads_bind [OF reads_string16 [OF L(3)]])
    apply (rule reads_bind [OF reads_ReadNumber16])
    apply (unfold n')
    apply (rule reads_guard_then [OF alloc], assumption, assumption)
    apply (rule reads_bind [OF es])
    apply (rule reads_return_eq)
    by (rule entry_view2_fields [OF fl])
  then have "reads (MessageEntry_Read_body (EntrySize m))
      (entry2_fields_bytes m @ concat (map element2_bytes (elements m))) (entry2_view m)" by simp
  note body = reads_limited [OF this entry2_size(2) [OF assms]]
  show ?thesis
    unfolding MessageEntry_Read_def entry2_bytes_def
    by (rule reads_bind [OF reads_ReadNumber32], rule body)
qed

interpretation entry2: sized_codec
  "MessageEntry_Write lc" MessageEntry_Read entry2_bytes "\<lambda>m. m" entry2_view "valid_entry2 lc"
  "\<lambda>m. unat (EntrySize m)" for lc
  by unfold_locales (simp_all add: writes_entry2 reads_entry2 entry2_size(1))

section \<open>Headers\<close>

lemma unat_ucast_up_u16: "unat (ucast (k :: 16 word) :: 32 word) = unat k"
  by (rule unat_narrow) (simp add: less_trans [OF unat_u16_less])

definition header2_fields_bytes :: "message_header \<Rightarrow> byte list" where
  "header2_fields_bytes h =
     concat (map num_bytes (SenderNodeID h)) @ concat (map num_bytes (ReceiverNodeID h))
     @ num_bytes (SenderEndpoint h) @ num_bytes (ReceiverEndpoint h)
     @ string16_bytes (SenderNodeName h) @ string16_bytes (ReceiverNodeName h)
     @ string16_bytes (HeaderMetaData h) @ num_bytes (EntryCount h)
     @ num_bytes (MessageID h) @ num_bytes (MessageResID h)"

definition header2_bytes :: "message_header \<Rightarrow> byte list" where
  "header2_bytes h =
     bytes_of_string ''RRAC'' @ num_bytes (MessageSize h) @ num_bytes (2 :: 16 word)
     @ num_bytes (ucast (HeaderSize h) :: 16 word) @ header2_fields_bytes h"

definition valid_header2 :: "message_header \<Rightarrow> bool" where
  "valid_header2 h \<longleftrightarrow>
     MessageFlags h = MessageFlags_Version2Compat
     \<and> bind_r (MessageHeader_ComputeSize h) (\<lambda>n. Inr (ucast n)) = Inr (HeaderSize h)
     \<and> valid_NodeID (SenderNodeID h) \<and> valid_NodeID (ReceiverNodeID h)"

definition header2_view :: "message_header \<Rightarrow> message_header" where
  "header2_view h = h\<lparr>Priority := 0, StringTable := [], HeaderExtended := []\<rparr>"

lemma header2_lengths:
  assumes "valid_header2 h"
  shows "length (SenderNodeName h) < 65536" and "length (ReceiverNodeName h) < 65536"
    and "length (HeaderMetaData h) < 65536" and "unat (HeaderSize h) = length (header2_bytes h)"
    and "length (header2_bytes h) < 65536"
    and "unat (ucast (ucast (HeaderSize h) :: 16 word) - 12 :: 32 word) = length (header2_fields_bytes h)"
    and "ucast (ucast (HeaderSize h) :: 16 word) = HeaderSize h"
proof -
  define k where "k = length (SenderNodeName h) + length (ReceiverNodeName h) + length (HeaderMetaData h)"
  from assms have L: "length (SenderNodeName h) < 65536" "length (ReceiverNodeName h) < 65536"
    "length (HeaderMetaData h) < 65536"
    and k: "64 + k < 65536" and s: "HeaderSize h = ucast (of_nat (64 + k) :: 16 word)"
    by (auto simp: valid_header2_def MessageHeader_ComputeSize_def checked_sizes_Inr k_def
        numeric_cast_Inr add.assoc split: if_splits)
  show "length (SenderNodeName h) < 65536" "length (ReceiverNodeName h) < 65536"
    "length (HeaderMetaData h) < 65536" by (rule L)+
  have u: "unat (of_nat (64 + k) :: 16 word) = 64 + k"
    using k by (rule unat_of_nat_u16)
  have us: "unat (HeaderSize h) = 64 + k"
    unfolding s by (simp only: unsigned_ucast_eq u) (use k in \<open>simp add: take_bit_nat_eq_self_iff\<close>)
  have "length (header2_bytes h) = 64 + k"
    using assms by (simp add: header2_bytes_def header2_fields_bytes_def k_def valid_header2_def valid_NodeID_def)
  then show "unat (HeaderSize h) = length (header2_bytes h)" "length (header2_bytes h) < 65536"
    using us k by simp_all
  show c: "ucast (ucast (HeaderSize h) :: 16 word) = HeaderSize h"
    using us k by (intro widen_narrow) simp
  show "unat (ucast (ucast (HeaderSize h) :: 16 word) - 12 :: 32 word) = length (header2_fields_bytes h)"
    unfolding c using us \<open>length (header2_bytes h) = 64 + k\<close>
    by (simp add: unat_sub word_le_nat_alt header2_bytes_def)
qed

theorem writes_header2:
  assumes "valid_header2 h"
  shows "writes (MessageHeader_Write h) (header2_bytes h) ()"
proof -
  note L = header2_lengths [OF assms]
  have small: "\<not> unat (HeaderSize h) > 65535" using L(4,5) by simp
  have "numeric_cast_u16 (unat (HeaderSize h)) = Inr (ucast (HeaderSize h))"
    using small by simp
  then have sz: "writes (bind_s (lift_s (numeric_cast_u16 (unat (HeaderSize h)))) WriteNumber)
      (num_bytes (ucast (HeaderSize h) :: 16 word)) ()"
    by (simp only: bind_s_lift_Inr writes_WriteNumber)
  show ?thesis
    unfolding MessageHeader_Write_def if_not_P [OF small]
    by (rule writes_limited [OF _ L(4)], unfold header2_bytes_def header2_fields_bytes_def)
       (rule sz writes_rule writes_NodeID | use L(1-3) in simp)+
qed

lemma header_view2_fields:
  "MessageFlags h = MessageFlags_Version2Compat \<Longrightarrow>
   CreateMessageHeader\<lparr>HeaderSize := HeaderSize h, SenderEndpoint := SenderEndpoint h,
     ReceiverEndpoint := ReceiverEndpoint h, SenderNodeName := SenderNodeName h,
     ReceiverNodeName := ReceiverNodeName h, SenderNodeID := SenderNodeID h,
     ReceiverNodeID := ReceiverNodeID h, HeaderMetaData := HeaderMetaData h,
     EntryCount := EntryCount h, MessageID := MessageID h,
     MessageResID := MessageResID h, MessageSize := MessageSize h\<rparr> = header2_view h"
  by (simp add: header2_view_def CreateMessageHeader_def)

theorem reads_header2:
  assumes "valid_header2 h"
  shows "reads MessageHeader_Read (header2_bytes h) (header2_view h)"
proof -
  note L = header2_lengths [OF assms]
  have ids: "valid_NodeID (SenderNodeID h)" "valid_NodeID (ReceiverNodeID h)"
    and fl: "MessageFlags h = MessageFlags_Version2Compat"
    using assms by (simp_all add: valid_header2_def)
  have "reads (MessageHeader_Read_body (MessageSize h) (ucast (HeaderSize h)))
      (header2_fields_bytes h @ []) (header2_view h)"
    unfolding header2_fields_bytes_def MessageHeader_Read_body_def append_assoc L(7)
    apply (rule reads_bind [OF reads_NodeID [OF ids(1)]])
    apply (rule reads_bind [OF reads_NodeID [OF ids(2)]])
    apply (rule reads_bind [OF reads_ReadNumber32])
    apply (rule reads_bind [OF reads_ReadNumber32])
    apply (rule reads_bind [OF reads_string16 [OF L(1)]])
    apply (rule reads_bind [OF reads_string16 [OF L(2)]])
    apply (rule reads_bind [OF reads_string16 [OF L(3)]])
    apply (rule reads_bind [OF reads_ReadNumber16])
    apply (rule reads_bind [OF reads_ReadNumber16])
    apply (rule reads_bind [OF reads_ReadNumber16])
    apply (rule reads_return_eq)
    by (rule header_view2_fields [OF fl])
  then have "reads (MessageHeader_Read_body (MessageSize h) (ucast (HeaderSize h)))
      (header2_fields_bytes h) (header2_view h)" by simp
  note body = reads_limited [OF this L(6)]
  have "length ''RRAC'' = 4" by simp
  then have magic: "reads (ReadString8 4) (bytes_of_string ''RRAC'') ''RRAC''"
    using reads_ReadString8 [of "''RRAC''"] by metis
  show ?thesis
    unfolding MessageHeader_Read_def header2_bytes_def
    by (rule reads_bind [OF magic], simp del: append_assoc,
        rule reads_bind [OF reads_ReadNumber32], rule reads_bind [OF reads_ReadNumber16],
        simp, rule reads_bind [OF reads_ReadNumber16], rule body)
qed

lemma header2_view_simps [simp]:
  "EntryCount (header2_view h) = EntryCount h" "MessageSize (header2_view h) = MessageSize h"
  "HeaderSize (header2_view h) = HeaderSize h"
  by (simp_all add: header2_view_def)

interpretation header2: sized_codec
  MessageHeader_Write MessageHeader_Read header2_bytes "\<lambda>_. ()" header2_view valid_header2
  "\<lambda>h. unat (HeaderSize h)"
  by unfold_locales (simp_all add: writes_header2 reads_header2 header2_lengths(4))

section \<open>Messages\<close>

fun message2_bytes :: "message \<Rightarrow> byte list" where
  "message2_bytes m =
     (case header m of None \<Rightarrow> [] | Some h \<Rightarrow> header2_bytes h) @ concat (map entry2_bytes (entries m))"

definition valid_message2 :: "(32 word \<Rightarrow> string) \<Rightarrow> message \<Rightarrow> bool" where
  "valid_message2 lc m \<longleftrightarrow>
     (case header m of
        None \<Rightarrow> False
      | Some h \<Rightarrow> Message_ComputeSize lc m = Inr (MessageSize h, m)
          \<and> valid_NodeID (SenderNodeID h) \<and> valid_NodeID (ReceiverNodeID h))
     \<and> (\<forall>e \<in> set (entries m). length (elements e) < 65536)
     \<and> length (message2_bytes m) < 2 ^ 31"

definition message2_view :: "message \<Rightarrow> message" where
  "message2_view m =
     \<lparr>header = map_option header2_view (header m), entries = map entry2_view (entries m)\<rparr>"

lemma UpdateData_entries_idem:
  "UpdateData_entries lc s es = Inr (s', es') \<Longrightarrow>
   UpdateData_entries lc s es' = Inr (s', es') \<and> length es' = length es"
proof (induction es arbitrary: s s' es')
  case Nil
  then show ?case by simp
next
  case (Cons e es)
  from Cons.prems obtain e1 es1 where e1: "MessageEntry_UpdateData lc e = Inr e1"
    and es1: "UpdateData_entries lc (s + unat (EntrySize e1)) es = Inr (s', es1)" "es' = e1 # es1"
    by (auto split: prod.splits)
  with Cons.IH [OF es1(1)] EntryUpdateData2_idem [OF e1] show ?case by simp
qed

lemma fixed_entries2:
  "UpdateData_entries lc s es = Inr (s', es) \<Longrightarrow> \<forall>e \<in> set es. MessageEntry_UpdateData lc e = Inr e"
  by (induction es arbitrary: s) (auto split: prod.splits)

lemma entries_size2:
  "UpdateData_entries lc s es = Inr (s', es) \<Longrightarrow>
   \<forall>e \<in> set es. unat (EntrySize e) = length (entry2_bytes e) \<Longrightarrow>
   s' = s + length (concat (map entry2_bytes es))"
proof (induction es arbitrary: s)
  case Nil
  then show ?case by simp
next
  case (Cons e es)
  then have "UpdateData_entries lc (s + unat (EntrySize e)) es = Inr (s', es)"
    by (auto split: prod.splits)
  from Cons.IH [OF this] Cons.prems(2) show ?case by simp
qed

lemma UpdateHeader_Inr:
  "MessageHeader_UpdateHeader n c h = Inr h' \<longleftrightarrow>
     MessageFlags h = MessageFlags_Version2Compat
     \<and> (\<exists>k. MessageHeader_ComputeSize h = Inr k
        \<and> h' = h\<lparr>HeaderSize := ucast k, MessageSize := n, EntryCount := c\<rparr>)"
  by (auto simp: MessageHeader_UpdateHeader_def)

lemma MessageHeader_ComputeSize_update [simp]:
  "MessageHeader_ComputeSize (h\<lparr>HeaderSize := a, MessageSize := b, EntryCount := c\<rparr>) = MessageHeader_ComputeSize h"
  by (simp add: MessageHeader_ComputeSize_def)

lemma MessageComputeSize_InrE:
  assumes "Message_ComputeSize lc m = Inr (n, m')"
  obtains h k s es where "header m = Some h"
    and "MessageHeader_ComputeSize h = Inr k"
    and "UpdateData_entries lc (unat k) (entries m) = Inr (s, es)"
    and "s < 4294967296" and "n = of_nat s" and "length (entries m) < 65536"
    and "MessageFlags h = MessageFlags_Version2Compat"
    and "m' = \<lparr>header = Some (h\<lparr>HeaderSize := ucast k, MessageSize := of_nat s,
                  EntryCount := of_nat (length (entries m))\<rparr>), entries = es\<rparr>"
  using assms
  by (auto simp: Message_ComputeSize_def numeric_cast_Inr UpdateHeader_Inr
      split: option.splits if_splits prod.splits)

lemma MessageComputeSize_idem:
  assumes "Message_ComputeSize lc m = Inr (n, m')"
  shows "Message_ComputeSize lc m' = Inr (n, m')"
  using assms
proof (cases rule: MessageComputeSize_InrE)
  case (1 h k s es)
  have "UpdateData_entries lc (unat k) es = Inr (s, es)" "length es = length (entries m)"
    using UpdateData_entries_idem [OF 1(3)] by auto
  then show ?thesis
    using 1(2,4-7) unfolding 1(8)
    by (simp add: Message_ComputeSize_def MessageHeader_UpdateHeader_def)
qed

lemma valid_message2_parts:
  assumes "valid_message2 lc m"
  obtains h where "header m = Some h" and "Message_ComputeSize lc m = Inr (MessageSize h, m)"
    and "MessageHeader_UpdateHeader (MessageSize h) (of_nat (length (entries m))) h = Inr h"
    and "valid_header2 h" and "\<forall>e \<in> set (entries m). valid_entry2 lc e"
    and "EntryCount h = of_nat (length (entries m))" and "length (entries m) < 65536"
    and "unat (MessageSize h) = length (message2_bytes m)"
    and "unat (MessageSize h - HeaderSize h) = length (concat (map entry2_bytes (entries m)))"
proof -
  from assms obtain h where h: "header m = Some h" and c: "Message_ComputeSize lc m = Inr (MessageSize h, m)"
    and ids: "valid_NodeID (SenderNodeID h)" "valid_NodeID (ReceiverNodeID h)"
    and els: "\<forall>e \<in> set (entries m). length (elements e) < 65536"
    and small: "length (header2_bytes h) + length (concat (map entry2_bytes (entries m))) < 2147483648"
    by (auto simp: valid_message2_def split: option.splits)
  from c obtain h0 k s es where k: "MessageHeader_ComputeSize h0 = Inr k"
    and u: "UpdateData_entries lc (unat k) (entries m) = Inr (s, es)"
    and s: "s < 4294967296" "MessageSize h = of_nat s" and len: "length (entries m) < 65536"
    and fl: "MessageFlags h0 = MessageFlags_Version2Compat"
    and m: "m = \<lparr>header = Some (h0\<lparr>HeaderSize := ucast k, MessageSize := of_nat s,
                  EntryCount := of_nat (length (entries m))\<rparr>), entries = es\<rparr>"
    by (rule MessageComputeSize_InrE)
  have h1: "h = h0\<lparr>HeaderSize := ucast k, MessageSize := of_nat s,
                  EntryCount := of_nat (length (entries m))\<rparr>"
    using h by (subst (asm) m) simp
  have es: "es = entries m" by (subst m) simp
  have k': "MessageHeader_ComputeSize h = Inr k" "HeaderSize h = ucast k"
    "MessageFlags h = MessageFlags_Version2Compat" "EntryCount h = of_nat (length (entries m))"
    using k fl by (simp_all add: h1)
  have vh: "valid_header2 h"
    using k' ids by (simp add: valid_header2_def)
  have ve: "\<forall>e \<in> set (entries m). valid_entry2 lc e"
  proof
    fix e assume e: "e \<in> set (entries m)"
    have "length (entry2_bytes e) \<le> length (concat (map entry2_bytes (entries m)))"
      using e by (auto simp: in_set_conv_decomp)
    with fixed_entries2 [OF u [unfolded es]] e els small show "valid_entry2 lc e"
      by (simp add: valid_entry2_def)
  qed
  have k2: "unat k = length (header2_bytes h)"
    using header2_lengths(4) [OF vh] by (simp add: k' unat_ucast_up_u16)
  have s2: "s = length (header2_bytes h) + length (concat (map entry2_bytes (entries m)))"
    using entries_size2 [OF u [unfolded es]] ve k2 entry2_size(1) by metis
  have us: "unat (MessageSize h) = s" unfolding s(2) using s(1) by (rule unat_of_nat_u32)
  then have tot: "unat (MessageSize h) = length (message2_bytes m)" by (simp add: h s2)
  have diff: "unat (MessageSize h - HeaderSize h) = length (concat (map entry2_bytes (entries m)))"
    using us s2 header2_lengths(4) [OF vh] by (simp add: unat_sub word_le_nat_alt)
  have up: "MessageHeader_UpdateHeader (MessageSize h) (of_nat (length (entries m))) h = Inr h"
    unfolding UpdateHeader_Inr using k' by (auto intro: message_header.equality)
  from that [OF h c up vh ve k'(4) len tot diff] show ?thesis .
qed

theorem writes_message2:
  assumes "valid_message2 lc m"
  shows "writes (Message_Write lc m) (message2_bytes m) m"
  using assms
proof (cases rule: valid_message2_parts)
  case (1 h)
  have "\<forall>e \<in> set (entries m). writes (MessageEntry_Write lc e) (entry2_bytes e) (id e)"
    using 1(5) by (simp add: writes_entry2)
  then have "writes (for_s (MessageEntry_Write lc) (entries m)) (concat (map entry2_bytes (entries m))) (entries m)"
    using writes_for_s [of "entries m" "MessageEntry_Write lc" entry2_bytes id] by simp
  note b = writes_then [OF writes_header2 [OF 1(4)] this]
  have "numeric_cast_u16 (length (entries m)) = Inr (of_nat (length (entries m)))"
    using 1(7) by simp
  then have w: "Message_Write lc m =
     then_s (PushRelativeLimit_w (unat (MessageSize h)))
       (bind_s (then_s (MessageHeader_Write h) (for_s (MessageEntry_Write lc) (entries m)))
         (\<lambda>es. then_s PopLimit_w (return_s (m\<lparr>header := Some h, entries := es\<rparr>))))"
    by (simp add: Message_Write_def 1(1-3) then_s_def bind_s_assoc)
  have "writes (Message_Write lc m) (header2_bytes h @ concat (map entry2_bytes (entries m)))
      (m\<lparr>header := Some h, entries := entries m\<rparr>)"
    unfolding w using 1(1,8) by (intro writes_scoped [OF b]) simp
  moreover have "m\<lparr>header := Some h, entries := entries m\<rparr> = m" using 1(1) by (auto intro: message.equality)
  ultimately show ?thesis using 1(1) by simp
qed

theorem reads_message2:
  assumes "valid_message2 lc m"
  shows "reads_open Message_Read (message2_bytes m) (message2_view m)"
  using assms
proof (cases rule: valid_message2_parts)
  case (1 h)
  have "\<forall>e \<in> set (entries m). reads MessageEntry_Read (entry2_bytes e) (entry2_view e)"
    using 1(5) reads_entry2 by blast
  then have body: "reads (repeat_s (unat (EntryCount (header2_view h))) MessageEntry_Read)
      (concat (map entry2_bytes (entries m))) (map entry2_view (entries m))"
    using reads_repeat_all [of "entries m" MessageEntry_Read entry2_bytes entry2_view] 1(6,7)
    by simp
  have "reads_open Message_Read (header2_bytes h @ concat (map entry2_bytes (entries m)))
      \<lparr>header = Some (header2_view h), entries = map entry2_view (entries m)\<rparr>"
    unfolding Message_Read_def
    by (rule reads_open_section [where n = "\<lambda>h. unat (MessageSize h - HeaderSize h)"
          and body = "\<lambda>h. repeat_s (unat (EntryCount h)) MessageEntry_Read"
          and f = "\<lambda>h es. \<lparr>header = Some h, entries = es\<rparr>"])
       (use body in \<open>simp_all add: reads_header2 [OF 1(4)] 1(9)\<close>)
  then show ?thesis using 1(1) by (simp add: message2_view_def)
qed

lemma Message_Write_updates:
  assumes "Message_ComputeSize lc m = Inr (n, m')"
  shows "Message_Write lc m = Message_Write lc m'"
  by (simp add: Message_Write_def assms MessageComputeSize_idem [OF assms])

end
