(* ===== verification/RR_Safety.thy ===== *)
theory RR_Safety
  imports RR_Message2
begin

text \<open>
  Safety of the readers on arbitrary input.  \<open>safe L a n m\<close>: from any reader over \<open>L\<close> bytes of
  which at most \<open>n\<close> are left, whose limits lie inside the buffer, \<open>m\<close> either throws one of the
  library's exceptions or ends with the same buffer and limits and a position at least \<open>a\<close>
  further on and still inside the buffer.  In particular it neither touches memory outside
  the buffer nor runs out of fuel.  Nothing is assumed about the bytes.
\<close>

definition proper_error :: "rr_error \<Rightarrow> bool" where
  "proper_error e = (case e of UndefinedBehaviour _ \<Rightarrow> False | OutOfFuel \<Rightarrow> False | _ \<Rightarrow> True)"

lemma proper_error_simps [simp]:
  "proper_error (Exn c msg)" "proper_error BadNumericCast" "proper_error BadAlloc"
  "\<not> proper_error (UndefinedBehaviour msg)" "\<not> proper_error OutOfFuel"
  by (simp_all add: proper_error_def)

definition reader_inv :: "nat \<Rightarrow> reader \<Rightarrow> bool" where
  "reader_inv L r \<longleftrightarrow>
     length (r_buffer r) = L \<and> L < 2 ^ 31 \<and> r_limits r \<noteq> []
     \<and> (\<forall>l \<in> set (r_limits r). l \<le> L) \<and> r_position r \<le> L"

definition safe :: "nat \<Rightarrow> nat \<Rightarrow> nat \<Rightarrow> 'a reads \<Rightarrow> bool" where
  "safe L a n m \<longleftrightarrow>
     (\<forall>r. reader_inv L r \<longrightarrow> L - r_position r \<le> n \<longrightarrow>
        (case m r of
           Inl e \<Rightarrow> proper_error e
         | Inr (x, r') \<Rightarrow> r_buffer r' = r_buffer r \<and> r_limits r' = r_limits r
             \<and> r_position r + a \<le> r_position r' \<and> r_position r' \<le> L))"

lemma safeI:
  assumes "\<And>r e. reader_inv L r \<Longrightarrow> L - r_position r \<le> n \<Longrightarrow> m r = Inl e \<Longrightarrow> proper_error e"
    and "\<And>r x r'. reader_inv L r \<Longrightarrow> L - r_position r \<le> n \<Longrightarrow> m r = Inr (x, r') \<Longrightarrow>
      r_buffer r' = r_buffer r \<and> r_limits r' = r_limits r
      \<and> r_position r + a \<le> r_position r' \<and> r_position r' \<le> L"
  shows "safe L a n m"
  unfolding safe_def
proof (intro allI impI)
  fix r assume "reader_inv L r" "L - r_position r \<le> n"
  with assms [of r] show "case m r of Inl e \<Rightarrow> proper_error e
         | Inr (x, r') \<Rightarrow> r_buffer r' = r_buffer r \<and> r_limits r' = r_limits r
             \<and> r_position r + a \<le> r_position r' \<and> r_position r' \<le> L"
    by (cases "m r") auto
qed

lemma safe_Inl: "safe L a n m \<Longrightarrow> reader_inv L r \<Longrightarrow> L - r_position r \<le> n \<Longrightarrow> m r = Inl e \<Longrightarrow> proper_error e"
  by (force simp: safe_def)

lemma safe_Inr:
  "safe L a n m \<Longrightarrow> reader_inv L r \<Longrightarrow> L - r_position r \<le> n \<Longrightarrow> m r = Inr (x, r') \<Longrightarrow>
   r_buffer r' = r_buffer r \<and> r_limits r' = r_limits r
   \<and> r_position r + a \<le> r_position r' \<and> r_position r' \<le> L"
  by (force simp: safe_def)

lemma reader_inv_step:
  "reader_inv L r \<Longrightarrow> r_buffer r' = r_buffer r \<Longrightarrow> r_limits r' = r_limits r \<Longrightarrow>
   r_position r' \<le> L \<Longrightarrow> reader_inv L r'"
  by (simp add: reader_inv_def)

section \<open>Composition\<close>

lemma safe_bind_adv:
  assumes "safe L a n m" and "\<And>x. a \<le> n \<Longrightarrow> safe L b (n - a) (k x)"
  shows "safe L b n (bind_s m k)"
proof (rule safeI)
  fix r e assume inv: "reader_inv L r" and n: "L - r_position r \<le> n" and e: "bind_s m k r = Inl e"
  show "proper_error e"
  proof (cases "m r")
    case (Inl e')
    with e safe_Inl [OF assms(1) inv n Inl] show ?thesis by simp
  next
    case (Inr xr)
    obtain x r1 where xr: "m r = Inr (x, r1)" using Inr by (cases xr) auto
    note s = safe_Inr [OF assms(1) inv n this]
    then have an: "a \<le> n" and n1: "L - r_position r1 \<le> n - a" using n inv by (auto simp: reader_inv_def)
    have inv1: "reader_inv L r1" using reader_inv_step [OF inv] s by auto
    have "k x r1 = Inl e" using e xr by simp
    from safe_Inl [OF assms(2) [OF an] inv1 n1 this] show ?thesis .
  qed
next
  fix r y r' assume inv: "reader_inv L r" and n: "L - r_position r \<le> n" and e: "bind_s m k r = Inr (y, r')"
  then obtain x r1 where xr: "m r = Inr (x, r1)" and k: "k x r1 = Inr (y, r')"
    using bind_s_InrD by fastforce
  note s = safe_Inr [OF assms(1) inv n xr]
  then have an: "a \<le> n" and n1: "L - r_position r1 \<le> n - a" using n inv by (auto simp: reader_inv_def)
  have inv1: "reader_inv L r1" using reader_inv_step [OF inv] s by auto
  from safe_Inr [OF assms(2) [OF an] inv1 n1 k] s show "r_buffer r' = r_buffer r \<and> r_limits r' = r_limits r
      \<and> r_position r + b \<le> r_position r' \<and> r_position r' \<le> L" by auto
qed

lemma safe_bind [safe_rule]:
  "safe L 0 n m \<Longrightarrow> (\<And>x. safe L 0 n (k x)) \<Longrightarrow> safe L 0 n (bind_s m k)"
  by (rule safe_bind_adv [where a = 0]) simp_all

lemma safe_weaken: "safe L a n m \<Longrightarrow> b \<le> a \<Longrightarrow> n' \<le> n \<Longrightarrow> safe L b n' m"
  by (rule safeI) (force dest: safe_Inl safe_Inr)+

lemma safe_then [safe_rule]:
  "safe L 0 n m \<Longrightarrow> safe L 0 n k \<Longrightarrow> safe L 0 n (then_s m k)"
  unfolding then_s_def by (rule safe_bind)

lemma safe_return [safe_rule]: "safe L 0 n (return_s x)"
  by (rule safeI) (auto simp: reader_inv_def)

lemma safe_throw [safe_rule]: "safe L a n (throw_s c msg)"
  by (rule safeI) auto

lemma safe_lift: "(\<And>e. m = Inl e \<Longrightarrow> proper_error e) \<Longrightarrow> safe L 0 n (lift_s m)"
  by (cases m; rule safeI) (auto simp: reader_inv_def)

lemma safe_bind_lift [safe_rule]:
  "(\<And>e. m = Inl e \<Longrightarrow> proper_error e) \<Longrightarrow> (\<And>x. m = Inr x \<Longrightarrow> safe L 0 n (k x)) \<Longrightarrow>
   safe L 0 n (bind_s (lift_s m) k)"
proof (cases m)
  case (Inl e)
  assume "\<And>e. m = Inl e \<Longrightarrow> proper_error e"
  then show "safe L 0 n (bind_s (lift_s m) k)"
    using Inl by (intro safeI) auto
qed simp

lemma safe_set_when [safe_rule]: "safe L 0 n m \<Longrightarrow> safe L 0 n (set_when c m d)"
  by (cases c) (auto intro: safe_return)

lemma safe_if [safe_rule]:
  "(c \<Longrightarrow> safe L a n m) \<Longrightarrow> (\<not> c \<Longrightarrow> safe L a n k) \<Longrightarrow> safe L a n (if c then m else k)"
  by simp

lemma safe_repeat [safe_rule]: "safe L 0 n m \<Longrightarrow> safe L 0 n (repeat_s k m)"
  by (induction k) (auto intro!: safe_rule)

text \<open>An allocation that succeeds bounds the size, which rules out wrap-around later on.\<close>

lemma safe_alloc [safe_rule]:
  assumes "L + k < 4294967296 \<Longrightarrow> safe L b n m"
  shows "safe L b n (then_s (heap_alloc k) m)"
proof (cases "L + k < 4294967296")
  case True
  show ?thesis
  proof (rule safeI)
    fix r e assume r: "reader_inv L r" "L - r_position r \<le> n" and e: "then_s (heap_alloc k) m r = Inl e"
    from r(1) True have "heap_alloc k r = Inr ((), r)" by (simp add: heap_alloc_def reader_inv_def)
    with e safe_Inl [OF assms [OF True] r] show "proper_error e" by simp
  next
    fix r x r' assume r: "reader_inv L r" "L - r_position r \<le> n" and e: "then_s (heap_alloc k) m r = Inr (x, r')"
    from r(1) True have "heap_alloc k r = Inr ((), r)" by (simp add: heap_alloc_def reader_inv_def)
    with e safe_Inr [OF assms [OF True] r] show "r_buffer r' = r_buffer r \<and> r_limits r' = r_limits r
      \<and> r_position r + b \<le> r_position r' \<and> r_position r' \<le> L" by simp
  qed
next
  case False
  show ?thesis
    by (rule safeI) (use False in \<open>auto simp: then_s_def bind_s_def heap_alloc_def reader_inv_def\<close>)
qed

section \<open>The primitive reads\<close>

lemma safe_Read_adv:
  assumes "L + k < 4294967296"
  shows "safe L k n (Read k)"
proof (rule safeI)
  fix r e assume inv: "reader_inv L r" and e: "Read k r = Inl e"
  from inv obtain l ls where l: "r_limits r = l # ls" "l \<le> L"
    by (cases "r_limits r") (auto simp: reader_inv_def)
  with inv e assms show "proper_error e"
    by (auto simp: Read_def bind_s_def CurrentLimit_r_def Position_r_def memcpy_r_def reader_inv_def
        split: if_splits)
next
  fix r x r' assume inv: "reader_inv L r" and e: "Read k r = Inr (x, r')"
  from inv obtain l ls where l: "r_limits r = l # ls" "l \<le> L"
    by (cases "r_limits r") (auto simp: reader_inv_def)
  with inv e assms show "r_buffer r' = r_buffer r \<and> r_limits r' = r_limits r
      \<and> r_position r + k \<le> r_position r' \<and> r_position r' \<le> L"
    by (auto simp: Read_def bind_s_def CurrentLimit_r_def Position_r_def memcpy_r_def reader_inv_def
        split: if_splits)
qed

lemma safe_Read: "L + k < 4294967296 \<Longrightarrow> safe L 0 n (Read k)"
  by (rule safe_weaken [OF safe_Read_adv]) auto

text \<open>Buffers of \<open>2 ^ 31\<close> bytes and more are outside \<open>reader_inv\<close>.\<close>

lemma safe_vacuous: "\<not> L < 2147483648 \<Longrightarrow> safe L a n m"
  by (rule safeI) (auto simp: reader_inv_def)

lemma safe_small: "(L < 2147483648 \<Longrightarrow> safe L a n m) \<Longrightarrow> safe L a n m"
  using safe_vacuous by blast

lemma safe_bind_return: "safe L a n m \<Longrightarrow> safe L a n (bind_s m (\<lambda>x. return_s (f x)))"
proof (rule safeI)
  fix r e assume s: "safe L a n m" and r: "reader_inv L r" "L - r_position r \<le> n"
    and e: "bind_s m (\<lambda>x. return_s (f x)) r = Inl e"
  show "proper_error e" using safe_Inl [OF s r] e by (cases "m r") auto
next
  fix r x r' assume s: "safe L a n m" and r: "reader_inv L r" "L - r_position r \<le> n"
    and e: "bind_s m (\<lambda>x. return_s (f x)) r = Inr (x, r')"
  show "r_buffer r' = r_buffer r \<and> r_limits r' = r_limits r
      \<and> r_position r + a \<le> r_position r' \<and> r_position r' \<le> L"
    using safe_Inr [OF s r] e by (cases "m r") auto
qed

lemma safe_ReadNumber_adv:
  "LENGTH('n::len) div 8 \<le> 8 \<Longrightarrow> safe L (LENGTH('n) div 8) n (ReadNumber :: 'n word reads)"
  unfolding ReadNumber_def
  by (rule safe_small, rule safe_bind_return, rule safe_Read_adv) simp

lemma safe_ReadNumber0:
  "LENGTH('n::len) div 8 \<le> 8 \<Longrightarrow> safe L 0 n (ReadNumber :: 'n word reads)"
  by (rule safe_weaken [OF safe_ReadNumber_adv]) auto

lemma safe_ReadNumber [safe_rule]:
  "safe L 0 n (ReadNumber :: 8 word reads)" "safe L 0 n (ReadNumber :: 16 word reads)"
  "safe L 0 n (ReadNumber :: 32 word reads)" "safe L 0 n (ReadNumber :: 64 word reads)"
  by (rule safe_ReadNumber0, simp)+



lemma safe_bind_first:
  assumes "safe L a n m" and "\<And>x. safe L 0 n (k x)"
  shows "safe L a n (bind_s m k)"
proof (rule safeI)
  fix r e assume r: "reader_inv L r" "L - r_position r \<le> n" and e: "bind_s m k r = Inl e"
  have "safe L 0 n m" by (rule safe_weaken [OF assms(1)]) auto
  then have "safe L 0 n (bind_s m k)" using assms(2) by (rule safe_bind)
  from safe_Inl [OF this r e] show "proper_error e" .
next
  fix r y r' assume r: "reader_inv L r" "L - r_position r \<le> n" and e: "bind_s m k r = Inr (y, r')"
  then obtain x r1 where xr: "m r = Inr (x, r1)" and k: "k x r1 = Inr (y, r')"
    using bind_s_InrD by fastforce
  note s = safe_Inr [OF assms(1) r xr]
  have "reader_inv L r1" using reader_inv_step [OF r(1)] s by auto
  moreover have "L - r_position r1 \<le> n" using s r(2) by auto
  ultimately show "r_buffer r' = r_buffer r \<and> r_limits r' = r_limits r
      \<and> r_position r + a \<le> r_position r' \<and> r_position r' \<le> L"
    using safe_Inr [OF assms(2) _ _ k] s by fastforce
qed

lemma safe_u8_adv: "safe L (Suc 0) n (ReadNumber :: 8 word reads)"
  using safe_ReadNumber_adv [where 'n = 8, of L n] by simp

lemma safe_ReadUintX_adv: "safe L (Suc 0) n ReadUintX"
  unfolding ReadUintX_def by (rule safe_bind_first [OF safe_u8_adv]) (intro safe_rule)

lemma safe_ReadUintX [safe_rule]: "safe L 0 n ReadUintX"
  by (rule safe_weaken [OF safe_ReadUintX_adv]) auto

lemma safe_ReadIntX [safe_rule]: "safe L 0 n ReadIntX"
  unfolding ReadIntX_def by (intro safe_rule)

lemma safe_ReadUintX2: "safe L 0 n ReadUintX2" and safe_ReadIntX2: "safe L 0 n ReadIntX2"
  unfolding ReadUintX2_def ReadIntX2_def by (intro safe_rule)+

lemma safe_ReadString8 [safe_rule]: "safe L 0 n (ReadString8 k)"
  unfolding ReadString8_def
  by (rule safe_alloc, rule safe_bind_return, rule safe_Read) simp

lemma safe_ReadBytes [safe_rule]: "safe L 0 n (ReadBytes k)"
  unfolding ReadBytes_def
  by (rule safe_alloc, rule safe_if, rule safe_Read, simp, rule safe_return)

lemma safe_strings [safe_rule]:
  "safe L 0 n ReadString8WithXLen" "safe L 0 n ReadString8With16Len" "safe L 0 n ReadExtended"
  unfolding ReadString8WithXLen_def ReadString8With16Len_def ReadExtended_def
  by (intro safe_rule)+

lemma safe_DistanceFromLimit_bind [safe_rule]:
  assumes "\<And>d. safe L 0 n (k d)"
  shows "safe L 0 n (bind_s DistanceFromLimit_r k)"
proof (rule safe_bind [OF _ assms], rule safeI)
  fix r e assume inv: "reader_inv L r" and e: "DistanceFromLimit_r r = Inl e"
  from inv obtain l ls where l: "r_limits r = l # ls" "l \<le> L"
    by (cases "r_limits r") (auto simp: reader_inv_def)
  with inv e show "proper_error e"
    by (simp add: DistanceFromLimit_r_def bind_s_def CurrentLimit_r_def Position_r_def reader_inv_def)
next
  fix r x r' assume inv: "reader_inv L r" and e: "DistanceFromLimit_r r = Inr (x, r')"
  from inv obtain l ls where l: "r_limits r = l # ls" "l \<le> L"
    by (cases "r_limits r") (auto simp: reader_inv_def)
  with inv e show "r_buffer r' = r_buffer r \<and> r_limits r' = r_limits r
      \<and> r_position r + 0 \<le> r_position r' \<and> r_position r' \<le> L"
    by (simp add: DistanceFromLimit_r_def bind_s_def CurrentLimit_r_def Position_r_def reader_inv_def)
qed

section \<open>Limited sections\<close>

lemma safe_limited [safe_rule]:
  assumes "safe L 0 n body"
  shows "safe L 0 n (limited_r k body)"
  unfolding safe_def
proof (intro allI impI)
  fix r assume inv: "reader_inv L r" and n: "L - r_position r \<le> n"
  from inv obtain l ls where l: "r_limits r = l # ls" "l \<le> L"
    by (cases "r_limits r") (auto simp: reader_inv_def)
  define q where "q = size_add (r_position r) k"
  define rest where "rest = (\<lambda>x. bind_s DistanceFromLimit_r (\<lambda>d.
          if d \<noteq> 0 then throw_s DataSerializationException ''Error in message format''
          else then_s PopLimit_r (return_s (x :: 'a))))"
  have lim: "limited_r k body = then_s (PushRelativeLimit_r k) (bind_s body rest)"
    by (simp add: limited_r_def rest_def)
  show "case limited_r k body r of
           Inl e \<Rightarrow> proper_error e
         | Inr (x, r') \<Rightarrow> r_buffer r' = r_buffer r \<and> r_limits r' = r_limits r
             \<and> r_position r + 0 \<le> r_position r' \<and> r_position r' \<le> L"
  proof (cases "q > l")
    case True
    then have "PushRelativeLimit_r k r = Inl (Exn BufferLimitViolationException ''Binary reader error'')"
      by (simp add: PushRelativeLimit_r_def bind_s_def Position_r_def CurrentLimit_r_def l q_def)
    then show ?thesis by (simp add: lim)
  next
    case False
    define r1 where "r1 = r\<lparr>r_limits := q # r_limits r\<rparr>"
    have push: "PushRelativeLimit_r k r = Inr ((), r1)"
      using False by (simp add: PushRelativeLimit_r_def bind_s_def Position_r_def CurrentLimit_r_def l q_def r1_def)
    have inv1: "reader_inv L r1" and n1: "L - r_position r1 \<le> n"
      using inv n l False by (auto simp: reader_inv_def r1_def)
    show ?thesis
    proof (cases "body r1")
      case (Inl e)
      then show ?thesis using safe_Inl [OF assms inv1 n1 Inl] by (simp add: lim push)
    next
      case (Inr xr)
      then obtain x r2 where b: "body r1 = Inr (x, r2)" by (cases xr) auto
      note s = safe_Inr [OF assms inv1 n1 b]
      have rest: "rest x r2 = (if int q - int (r_position r2) \<noteq> 0
          then Inl (Exn DataSerializationException ''Error in message format'')
          else Inr (x, r2\<lparr>r_limits := r_limits r\<rparr>))"
        using s l False inv
        by (simp add: rest_def DistanceFromLimit_r_def bind_s_def CurrentLimit_r_def Position_r_def
            PopLimit_r_def then_s_def r1_def reader_inv_def)
      have "r_buffer r1 = r_buffer r" "r_position r1 = r_position r" by (simp_all add: r1_def)
      then show ?thesis
        using s by (simp add: lim push b rest)
    qed
  qed
qed

section \<open>Elements, entries, headers and messages\<close>

lemma safe_ReadArray:
  assumes "RRArrayElementSize (array_type a) = Inr k" and "L + k * array_size a < 4294967296"
  shows "safe L 0 n (ReadArray a)"
  using assms
  by (cases a) (auto intro!: safe_bind_return safe_Read simp: mult.commute)

lemma proper_lifts [simp]:
  "RRArrayElementSize t = Inl e \<Longrightarrow> proper_error e"
  "numeric_cast_i32 n = Inl e \<Longrightarrow> proper_error e"
  "numeric_cast_u16 n = Inl e \<Longrightarrow> proper_error e"
  by (cases t; auto simp: throw_r_def)
     (auto simp: numeric_cast_i32_def numeric_cast_u16_def split: if_splits)

lemma safe_ReadArrayData [safe_rule]:
  assumes "type_group t = Group_array"
  shows "safe L 0 n (ReadArrayData t c)"
proof -
  from assms have t: "IsTypeRRArray t" by (simp add: type_group_array)
  then obtain k where k: "RRArrayElementSize t = Inr k" using RRArrayElementSize_defined by blast
  obtain a where a: "AllocateRRArrayByType t (unat c) = Inr a" "array_type a = t" "array_size a = unat c"
    using AllocateRRArrayByType_defined [OF t] by blast
  show ?thesis
    unfolding ReadArrayData_def k a(1) bind_s_lift_Inr
    using k a(2,3)
    by (intro safe_bind_lift safe_DistanceFromLimit_bind safe_if safe_throw safe_alloc safe_bind_return
        safe_ReadArray) auto
qed

lemma safe_ReadNestedData [safe_rule]:
  "safe L 0 n rd \<Longrightarrow> safe L 0 n (ReadNestedData rd t tn c)"
  unfolding ReadNestedData_def by (intro safe_rule)

lemma safe_case_group [safe_rule]:
  "\<lbrakk>g = Group_void \<Longrightarrow> safe L a n m1; g = Group_array \<Longrightarrow> safe L a n m2;
    g = Group_nested \<Longrightarrow> safe L a n m3; g = Group_default \<Longrightarrow> safe L a n m4\<rbrakk> \<Longrightarrow>
   safe L a n (case g of Group_void \<Rightarrow> m1 | Group_array \<Rightarrow> m2 | Group_nested \<Rightarrow> m3 | Group_default \<Rightarrow> m4)"
  by (cases g) auto

lemma safe_case_prod [safe_rule]:
  "(\<And>x y. p = (x, y) \<Longrightarrow> safe L a n (f x y)) \<Longrightarrow> safe L a n (case p of (x, y) \<Rightarrow> f x y)"
  by (cases p) auto

lemma safe_Read4_body:
  assumes "safe L 0 n rd"
  shows "safe L 0 n (MessageElement_Read4_body rd sz)"
  unfolding MessageElement_Read4_body_def
  by (intro safe_rule safe_case_group assms)

lemma safe_Read4_fuel: "safe L 0 k (MessageElement_Read4_fuel (Suc k))"
proof (induction k)
  case 0
  show ?case unfolding MessageElement_Read4_fuel.simps
    by (rule safe_bind_adv [OF safe_ReadUintX_adv]) simp
next
  case (Suc k)
  show ?case unfolding MessageElement_Read4_fuel.simps(2) [of "Suc k"]
    by (rule safe_bind_adv [OF safe_ReadUintX_adv])
       (use Suc in \<open>simp add: safe_limited safe_Read4_body\<close>)
qed

lemma safe_by_length:
  assumes "\<And>L. safe L 0 L (f (Suc L))"
  shows "safe L 0 n (\<lambda>r. f (Suc (length (r_buffer r))) r)"
  unfolding safe_def
proof (intro allI impI)
  fix r assume r: "reader_inv L r" "L - r_position r \<le> n"
  then have "length (r_buffer r) = L" by (simp add: reader_inv_def)
  then show "case f (Suc (length (r_buffer r))) r of
           Inl e \<Rightarrow> proper_error e
         | Inr (x, r') \<Rightarrow> r_buffer r' = r_buffer r \<and> r_limits r' = r_limits r
             \<and> r_position r + 0 \<le> r_position r' \<and> r_position r' \<le> L"
    using assms [of L] r(1) unfolding safe_def by simp
qed

lemma safe_Read4 [safe_rule]: "safe L 0 n MessageElement_Read4"
  unfolding MessageElement_Read4_def [abs_def] by (rule safe_by_length, rule safe_Read4_fuel)

lemma safe_Entry_Read4 [safe_rule]: "safe L 0 n MessageEntry_Read4"
  unfolding MessageEntry_Read4_def MessageEntry_Read4_body_def by (intro safe_rule)

lemma safe_NodeID [safe_rule]: "safe L 0 n ReadNodeID"
  unfolding ReadNodeID_def by (intro safe_rule)

lemma safe_StringTable [safe_rule]: "safe L 0 n ReadStringTable"
  unfolding ReadStringTable_def by (intro safe_rule)

lemma safe_EntryCount4 [safe_rule]: "safe L 0 n ReadEntryCount4"
  unfolding ReadEntryCount4_def
  by (intro safe_bind safe_rule safe_lift) auto

lemma safe_Header_Read4 [safe_rule]: "safe L 0 n MessageHeader_Read4"
  unfolding MessageHeader_Read4_def MessageHeader_Read4_body_def by (intro safe_rule)

lemma safe_Read2_body:
  assumes "safe L 0 n rd"
  shows "safe L 0 n (MessageElement_Read_body rd sz)"
  unfolding MessageElement_Read_body_def
  by (intro safe_rule assms)

lemma safe_u32_adv: "safe L 1 n (ReadNumber :: 32 word reads)"
  by (rule safe_weaken [OF safe_ReadNumber_adv]) auto

lemma safe_Read2_fuel: "safe L 0 k (MessageElement_Read_fuel (Suc k))"
proof (induction k)
  case 0
  show ?case unfolding MessageElement_Read_fuel.simps
    by (rule safe_bind_adv [OF safe_u32_adv]) simp
next
  case (Suc k)
  show ?case unfolding MessageElement_Read_fuel.simps(2) [of "Suc k"]
    by (rule safe_bind_adv [OF safe_u32_adv])
       (use Suc in \<open>simp add: safe_limited safe_Read2_body\<close>)
qed

lemma safe_Read2 [safe_rule]: "safe L 0 n MessageElement_Read"
  unfolding MessageElement_Read_def [abs_def] by (rule safe_by_length, rule safe_Read2_fuel)

lemma safe_Entry_Read2 [safe_rule]: "safe L 0 n MessageEntry_Read"
  unfolding MessageEntry_Read_def MessageEntry_Read_body_def by (intro safe_rule)

lemma safe_Header_Read2 [safe_rule]: "safe L 0 n MessageHeader_Read"
  unfolding MessageHeader_Read_def MessageHeader_Read_body_def by (intro safe_rule)

text \<open>A reader that pushes one more limit, as the two \<open>Message\<close> readers do.\<close>

lemma open_section_proper:
  assumes "\<And>n. safe L 0 n hd4" and "\<And>h n. safe L 0 n (body h)"
    and inv: "reader_inv L r"
    and e: "bind_s hd4 (\<lambda>h. then_s (PushRelativeLimit_r (k h)) (bind_s (body h) (\<lambda>x. return_s (f h x)))) r = Inl e"
  shows "proper_error e"
proof (cases "hd4 r")
  case (Inl e')
  with e safe_Inl [OF assms(1) inv le_refl Inl] show ?thesis by simp
next
  case (Inr hr)
  then obtain h r1 where h: "hd4 r = Inr (h, r1)" by (cases hr) auto
  note s = safe_Inr [OF assms(1) inv le_refl h]
  have inv1: "reader_inv L r1" using reader_inv_step [OF inv] s by auto
  then obtain l ls where l: "r_limits r1 = l # ls" "l \<le> L"
    by (cases "r_limits r1") (auto simp: reader_inv_def)
  define q where "q = size_add (r_position r1) (k h)"
  define r2 where "r2 = r1\<lparr>r_limits := q # r_limits r1\<rparr>"
  have push: "PushRelativeLimit_r (k h) r1
      = (if q > l then Inl (Exn BufferLimitViolationException ''Binary reader error'') else Inr ((), r2))"
    by (simp add: PushRelativeLimit_r_def bind_s_def Position_r_def CurrentLimit_r_def l q_def r2_def)
  show ?thesis
  proof (cases "q > l")
    case True
    then show ?thesis using e h push by (auto simp: bind_s_def then_s_def)
  next
    case False
    then have inv2: "reader_inv L r2" using inv1 l by (auto simp: reader_inv_def r2_def)
    have "bind_s (body h) (\<lambda>x. return_s (f h x)) r2 = Inl e"
      using e h push False by simp
    then show ?thesis using safe_Inl [OF safe_bind_return [OF assms(2)] inv2 le_refl] by blast
  qed
qed

lemma Message_Read4_proper:
  assumes "reader_inv L r" and "Message_Read4 r = Inl e"
  shows "proper_error e"
  by (rule open_section_proper [OF safe_Header_Read4 safe_repeat [OF safe_Entry_Read4] assms(1)
        assms(2) [unfolded Message_Read4_def]])

lemma Message_Read_proper:
  assumes "reader_inv L r" and "Message_Read r = Inl e"
  shows "proper_error e"
  by (rule open_section_proper [OF safe_Header_Read2 safe_repeat [OF safe_Entry_Read2] assms(1)
        assms(2) [unfolded Message_Read_def]])

end
