(* ===== verification/RR_Typed.thy ===== *)
theory RR_Typed
  imports RR_Message2
begin

text \<open>
  The readers give well-typed values: whatever the bytes, the declared type, type name and count of
  an element that was read are those of its data, down to the innermost child.  \<open>yields Q m\<close>: every
  value that \<open>m\<close> returns has the property \<open>Q\<close>.
\<close>

section \<open>Well-typed elements, entries and messages\<close>

fun well_typed :: "MessageElement \<Rightarrow> bool" where
  "well_typed (MessageElement f d) \<longleftrightarrow>
     ElementType f = data_type d
     \<and> (case d of
          None \<Rightarrow> True
        | Some (ArrayData a) \<Rightarrow> array_size a = unat (DataCount f)
        | Some (NestedElementList t n es) \<Rightarrow>
            is_nested_type t \<and> n = ElementTypeName f \<and> length es = unat (DataCount f)
            \<and> (\<forall>c \<in> set es. well_typed c))"

definition well_typed_entry :: "message_entry \<Rightarrow> bool" where
  "well_typed_entry e \<longleftrightarrow> (\<forall>x \<in> set (elements e). well_typed x)"

definition well_typed_header :: "message_header \<Rightarrow> bool" where
  "well_typed_header h \<longleftrightarrow> valid_NodeID (SenderNodeID h) \<and> valid_NodeID (ReceiverNodeID h)"

definition well_typed_message :: "message \<Rightarrow> bool" where
  "well_typed_message m \<longleftrightarrow>
     (case header m of
        None \<Rightarrow> False
      | Some h \<Rightarrow> well_typed_header h \<and> length (entries m) = unat (EntryCount h))
     \<and> (\<forall>e \<in> set (entries m). well_typed_entry e)"

section \<open>What a computation yields\<close>

definition yields :: "('a \<Rightarrow> bool) \<Rightarrow> ('s, 'a) sm \<Rightarrow> bool" where
  "yields Q m \<longleftrightarrow> (\<forall>s x s'. m s = Inr (x, s') \<longrightarrow> Q x)"

named_theorems yields_rule "what a computation yields"

lemma yieldsI: "(\<And>s x s'. m s = Inr (x, s') \<Longrightarrow> Q x) \<Longrightarrow> yields Q m"
  by (simp add: yields_def)

lemma yields_bind: "yields P m \<Longrightarrow> (\<And>x. P x \<Longrightarrow> yields Q (k x)) \<Longrightarrow> yields Q (bind_s m k)"
  unfolding yields_def by (metis bind_s_InrD)

lemma yields_skip: "(\<And>x. yields Q (k x)) \<Longrightarrow> yields Q (bind_s m k)"
  by (rule yields_bind [where P = "\<lambda>_. True"]) (simp_all add: yields_def)

lemma yields_then [yields_rule]: "yields Q k \<Longrightarrow> yields Q (then_s m k)"
  unfolding then_s_def by (rule yields_skip)

lemma yields_return: "Q x \<Longrightarrow> yields Q (return_s x)"
  by (simp add: yields_def)

lemma yields_throw [yields_rule]: "yields Q (throw_s c msg)" "yields Q (fail_s e)"
  by (simp_all add: yields_def)

lemma yields_if [yields_rule]: "(c \<Longrightarrow> yields Q m) \<Longrightarrow> (\<not> c \<Longrightarrow> yields Q k) \<Longrightarrow> yields Q (if c then m else k)"
  by simp

lemma yields_set_when: "yields Q m \<Longrightarrow> Q d \<Longrightarrow> yields Q (set_when c m d)"
  by (cases c) (simp_all add: yields_def)

lemma yields_repeat: "yields Q m \<Longrightarrow> yields (\<lambda>xs. length xs = n \<and> (\<forall>x \<in> set xs. Q x)) (repeat_s n m)"
proof (induction n)
  case (Suc n)
  show ?case
    unfolding repeat_s.simps
    by (rule yields_bind [OF Suc.prems], rule yields_bind [OF Suc.IH [OF Suc.prems]], rule yields_return) auto
qed (auto intro: yields_return)

lemma yields_limited [yields_rule]: "yields Q m \<Longrightarrow> yields Q (limited_r n m)"
  unfolding limited_r_def
  by (rule yields_then, rule yields_bind, assumption, rule yields_skip)
    (intro yields_rule yields_return)

section \<open>Data\<close>

lemma Read_length: "Read n r = Inr (bs, r') \<Longrightarrow> length bs = n"
  by (auto simp: Read_def bind_s_def memcpy_r_def split: sum.splits if_splits prod.splits)

lemma length_chunks [simp]: "length (chunks k n bs) = n"
  by (induction k n bs rule: chunks.induct) simp_all

lemma ReadArray_type:
  assumes "ReadArray a r = Inr (b, r')"
  shows "array_type b = array_type a" and "array_size a < 4294967296 \<Longrightarrow> array_size b = array_size a"
proof -
  have "array_type b = array_type a \<and> (array_size a < 4294967296 \<longrightarrow> array_size b = array_size a)"
    using assms
    by (cases a) (auto dest!: bind_s_InrD Read_length simp: words_of_bytes_def pairs_of_bytes_def)
  then show "array_type b = array_type a" "array_size a < 4294967296 \<Longrightarrow> array_size b = array_size a"
    by blast+
qed

text \<open>What the declared type, name and count say of the data.\<close>

definition data_fits :: "DataTypes \<Rightarrow> string \<Rightarrow> 32 word \<Rightarrow> MessageElementData option \<Rightarrow> bool" where
  "data_fits t n count d \<longleftrightarrow> t = data_type d
     \<and> (case d of
          None \<Rightarrow> True
        | Some (ArrayData a) \<Rightarrow> array_size a = unat count
        | Some (NestedElementList t' n' es) \<Rightarrow>
            is_nested_type t' \<and> n' = n \<and> length es = unat count \<and> (\<forall>c \<in> set es. well_typed c))"

lemma well_typed_fits:
  "well_typed (MessageElement f d) \<longleftrightarrow> data_fits (ElementType f) (ElementTypeName f) (DataCount f) d"
  by (auto simp: data_fits_def split: option.splits MessageElementData.splits)

lemma yields_ReadArrayData:
  assumes "IsTypeRRArray t"
  shows "yields (data_fits t n count) (ReadArrayData t count)"
proof -
  obtain a where a: "AllocateRRArrayByType t (unat count) = Inr a" "array_type a = t" "array_size a = unat count"
    using AllocateRRArrayByType_defined [OF assms] by blast
  have "yields (\<lambda>b. array_type b = t \<and> array_size b = unat count) (ReadArray a)"
    using ReadArray_type [of a] a(2,3) unat_u32_less [of count] by (intro yieldsI) auto
  then have array: "yields (data_fits t n count) (bind_s (ReadArray a) (\<lambda>a. return_s (Some (ArrayData a))))"
    by (rule yields_bind) (auto intro!: yields_return simp: data_fits_def)
  show ?thesis
    unfolding ReadArrayData_def a(1) bind_s_lift_Inr
    by (rule yields_skip, rule yields_skip, rule yields_skip, rule yields_if, rule yields_throw(1), rule yields_then,
        rule array)
qed

lemma yields_ReadNestedData:
  assumes "yields well_typed rd" and "is_nested_type t"
  shows "yields (data_fits t n count) (ReadNestedData rd t n count)"
  unfolding ReadNestedData_def
  by (rule yields_then, rule yields_bind [OF yields_repeat [OF assms(1)]])
    (rule yields_return, use assms(2) in \<open>auto simp: data_fits_def\<close>)

lemma yields_data:
  assumes "yields well_typed rd"
  shows "yields (data_fits t n count)
    (case type_group t of
       Group_void \<Rightarrow> return_s None
     | Group_array \<Rightarrow> ReadArrayData t count
     | Group_nested \<Rightarrow> ReadNestedData rd t n count
     | Group_default \<Rightarrow> throw_s c msg)"
proof (cases "type_group t")
  case Group_void
  then have t: "t = DataTypes_void_t" by (simp add: type_group_void)
  show ?thesis
    unfolding Group_void type_group.case by (rule yields_return) (simp add: data_fits_def t)
next
  case Group_array
  with yields_ReadArrayData [of t n count] type_group_array [of t] show ?thesis by simp
next
  case Group_nested
  with yields_ReadNestedData [OF assms, of t n count] type_group_nested [of t] show ?thesis by simp
qed (simp add: yields_throw)

section \<open>The readers\<close>

lemma yields_Read4_body:
  assumes "yields well_typed rd"
  shows "yields well_typed (MessageElement_Read4_body rd n)"
  unfolding MessageElement_Read4_body_def
  by (rule yields_skip, rule yields_skip, rule yields_skip, rule yields_skip, rule yields_skip,
      rule yields_skip, rule yields_skip, rule yields_skip, rule yields_skip, rule yields_skip,
      rule yields_bind [OF yields_data [OF assms]])
    (rule yields_return, simp add: well_typed_fits del: well_typed.simps)

lemma yields_Read4: "yields well_typed MessageElement_Read4"
proof -
  have "yields well_typed (MessageElement_Read4_fuel k)" for k
  proof (induction k)
    case (Suc k)
    show ?case
      unfolding MessageElement_Read4_fuel.simps
      by (rule yields_skip, rule yields_limited, rule yields_Read4_body [OF Suc.IH])
  qed (simp add: yields_def)
  then show ?thesis unfolding yields_def MessageElement_Read4_def by blast
qed

lemma yields_Read_body:
  assumes "yields well_typed rd"
  shows "yields well_typed (MessageElement_Read_body rd n)"
  unfolding MessageElement_Read_body_def
  by (rule yields_skip, rule yields_skip, rule yields_skip, rule yields_skip, rule yields_skip,
      rule yields_bind [OF yields_data [OF assms]])
    (rule yields_return, simp add: well_typed_fits del: well_typed.simps)

lemma yields_Read: "yields well_typed MessageElement_Read"
proof -
  have "yields well_typed (MessageElement_Read_fuel k)" for k
  proof (induction k)
    case (Suc k)
    show ?case
      unfolding MessageElement_Read_fuel.simps
      by (rule yields_skip, rule yields_limited, rule yields_Read_body [OF Suc.IH])
  qed (simp add: yields_def)
  then show ?thesis unfolding yields_def MessageElement_Read_def by blast
qed

lemma yields_entry4: "yields well_typed_entry MessageEntry_Read4"
  unfolding MessageEntry_Read4_def
proof (rule yields_skip, rule yields_limited)
  fix n
  show "yields well_typed_entry (MessageEntry_Read4_body n)"
    unfolding MessageEntry_Read4_body_def
    by (rule yields_skip, rule yields_skip, rule yields_skip, rule yields_skip, rule yields_skip,
        rule yields_skip, rule yields_skip, rule yields_skip, rule yields_skip, rule yields_skip,
        rule yields_skip, rule yields_then, rule yields_bind [OF yields_repeat [OF yields_Read4]])
      (rule yields_return, simp add: well_typed_entry_def)
qed

lemma yields_entry: "yields well_typed_entry MessageEntry_Read"
  unfolding MessageEntry_Read_def
proof (rule yields_skip, rule yields_limited)
  fix n
  show "yields well_typed_entry (MessageEntry_Read_body n)"
    unfolding MessageEntry_Read_body_def
    by (rule yields_skip, rule yields_skip, rule yields_skip, rule yields_skip, rule yields_skip,
        rule yields_skip, rule yields_skip, rule yields_skip,
        rule yields_then, rule yields_bind [OF yields_repeat [OF yields_Read]])
      (rule yields_return, simp add: well_typed_entry_def)
qed

lemma yields_NodeID: "yields valid_NodeID ReadNodeID"
  unfolding ReadNodeID_def valid_NodeID_def
  by (rule yieldsI, drule yields_repeat [where Q = "\<lambda>_. True", unfolded yields_def, rule_format, rotated]) simp_all

lemma yields_prod: "(\<And>a b. x = (a, b) \<Longrightarrow> yields Q (f a b)) \<Longrightarrow> yields Q (case x of (a, b) \<Rightarrow> f a b)"
  by (cases x) simp

lemma yields_routing4:
  "yields (\<lambda>(si, ri, _, _). valid_NodeID si \<and> valid_NodeID ri)
     (set_when c
       (bind_s ReadNodeID (\<lambda>si. bind_s ReadNodeID (\<lambda>ri.
        bind_s ReadString8WithXLen (\<lambda>sn. bind_s ReadString8WithXLen (\<lambda>rn.
        return_s (si, ri, sn, rn))))))
       (replicate 16 0, replicate 16 0, '''', ''''))"
  by (rule yields_set_when, rule yields_bind [OF yields_NodeID], rule yields_bind [OF yields_NodeID],
      rule yields_skip, rule yields_skip, rule yields_return)
    (simp_all add: valid_NodeID_def)

lemma yields_header4: "yields well_typed_header MessageHeader_Read4"
  unfolding MessageHeader_Read4_def
proof (rule yields_skip, rule yields_if, rule yields_throw(1), rule yields_skip, rule yields_skip,
    rule yields_if, rule yields_throw(1), rule yields_skip, rule yields_limited)
  fix m n
  show "yields well_typed_header (MessageHeader_Read4_body m n)"
    unfolding MessageHeader_Read4_body_def
    by (rule yields_skip, rule yields_bind [OF yields_routing4], rule yields_prod, rule yields_prod, rule yields_prod,
        rule yields_skip, rule yields_prod, rule yields_skip, rule yields_skip, rule yields_prod, rule yields_prod,
        rule yields_skip, rule yields_skip, rule yields_skip, rule yields_return)
      (simp add: well_typed_header_def)
qed

lemma yields_header: "yields well_typed_header MessageHeader_Read"
  unfolding MessageHeader_Read_def
proof (rule yields_skip, rule yields_if, rule yields_throw(1), rule yields_skip, rule yields_skip,
    rule yields_if, rule yields_throw(1), rule yields_skip, rule yields_limited)
  fix m n
  show "yields well_typed_header (MessageHeader_Read_body m n)"
    unfolding MessageHeader_Read_body_def
    by (rule yields_bind [OF yields_NodeID], rule yields_bind [OF yields_NodeID],
        rule yields_skip, rule yields_skip, rule yields_skip, rule yields_skip, rule yields_skip,
        rule yields_skip, rule yields_skip, rule yields_skip, rule yields_return)
      (simp add: well_typed_header_def)
qed

lemma yields_message4: "yields well_typed_message Message_Read4"
  unfolding Message_Read4_def
  by (rule yields_bind [OF yields_header4], rule yields_then, rule yields_bind [OF yields_repeat [OF yields_entry4]],
      rule yields_return) (simp add: well_typed_message_def)

lemma yields_message: "yields well_typed_message Message_Read"
  unfolding Message_Read_def
  by (rule yields_bind [OF yields_header], rule yields_then, rule yields_bind [OF yields_repeat [OF yields_entry]],
      rule yields_return) (simp add: well_typed_message_def)

end
