(* ===== verification/RR_Wire.thy ===== *)
theory RR_Wire
  imports RR_Message2_Laws RR_Safety RR_Typed
begin

text \<open>
  The wire format as its users see it: the properties of writing and reading elements, entries
  and messages in versions 2 and 4, over concrete buffers.  \<open>reader_at w p\<close> is a reader that
  starts at position \<open>p\<close> of what the writer \<open>w\<close> has left in its buffer.
\<close>

section \<open>Messages that have been measured are well formed\<close>

lemma valid_message4_computed:
  assumes "Message_ComputeSize4 m = Inr (n, m')" and "header m = Some h"
    and "valid_NodeID (SenderNodeID h)" and "valid_NodeID (ReceiverNodeID h)"
    and "length (message4_bytes m') < 2147483648"
  shows "valid_message4 m'" and "unat n = length (message4_bytes m')"
proof -
  from assms(1) obtain h' where h': "header m' = Some h'" "n = MessageSize h'"
    "SenderNodeID h' = SenderNodeID h" "ReceiverNodeID h' = ReceiverNodeID h"
    using assms(2) by (auto elim!: MessageComputeSize4_InrE UpdateHeader4_InrE)
  with assms MessageComputeSize4_idem [OF assms(1)] show v: "valid_message4 m'"
    by (simp add: valid_message4_def)
  from v h' show "unat n = length (message4_bytes m')"
    by (auto elim: valid_message4_parts)
qed

lemma valid_message2_computed:
  assumes "Message_ComputeSize lc m = Inr (n, m')" and "header m = Some h"
    and "valid_NodeID (SenderNodeID h)" and "valid_NodeID (ReceiverNodeID h)"
    and "\<forall>e \<in> set (entries m'). length (elements e) < 65536"
    and "length (message2_bytes m') < 2147483648"
  shows "valid_message2 lc m'" and "unat n = length (message2_bytes m')"
proof -
  from assms(1) obtain h' where h': "header m' = Some h'" "n = MessageSize h'"
    "SenderNodeID h' = SenderNodeID h" "ReceiverNodeID h' = ReceiverNodeID h"
  proof (cases rule: MessageComputeSize_InrE)
    case (1 h0 k s es)
    with assms(2) show thesis
      by (intro that [of "h\<lparr>HeaderSize := ucast k, MessageSize := of_nat s,
            EntryCount := of_nat (length (entries m))\<rparr>"]) simp_all
  qed
  with assms MessageComputeSize_idem [OF assms(1)] show v: "valid_message2 lc m'"
    by (simp add: valid_message2_def)
  from v h' show "unat n = length (message2_bytes m')"
    by (auto elim: valid_message2_parts)
qed

lemma reads_openD:
  assumes "reads_open rd bs v" and "ok_writer w" and "room w (length bs)"
  shows "\<exists>r'. rd (reader_at (append_w bs w) (w_position w)) = Inr (v, r')
    \<and> r_position r' = w_position (append_w bs w)"
  using assms(1) reader_at_sees [OF assms(2,3)] unfolding reads_open_def
  by (auto simp: advance_def append_w_def reader_at_def ArrayBinaryReader_def)

lemma open_roundtrip:
  assumes "writes (wr :: 'a writes) bs x" and "reads_open rd bs v" and "ok_writer w" and "room w (length bs)"
  shows "\<exists>w'. wr w = Inr (x, w') \<and> w_position w' = w_position w + length bs
    \<and> (\<exists>r'. rd (reader_at w' (w_position w)) = Inr (v, r') \<and> r_position r' = w_position w')"
  using writesD [OF assms(1,3,4)] reads_openD [OF assms(2-4)] by (auto simp: append_w_def)

text \<open>A small message of either version, for the examples.\<close>

definition sample_header :: message_header where
  "sample_header = CreateMessageHeader\<lparr>SenderEndpoint := 7, ReceiverEndpoint := 300\<rparr>"

definition sample_message :: message where
  "sample_message =
     AddEntry 1101 ''d'' \<lparr>header = Some sample_header,
       entries = [AddElement ''value'' (Some (ArrayData (RRArray_int32 [5, - 1]))) (CreateMessageEntry_named 1 ''f'')]\<rparr>"

lemmas sample_simps = sample_message_def sample_header_def CreateMessageHeader_def AddEntry_def
  AddElement_def CreateMessageEntry_named_def CreateMessageEntry_def SetData_def
  CreateMessageElement_def default_element_fields_def

lemmas size_simps = add_when_def GetStringByteCount8WithXLen_def GetUintXByteCount_def
  GetIntXByteCount_def GetSizePlusUintX_def type_group_def MessageElementFlags_Version2Compat_def
  MessageFlags_Version2Compat_def MessageEntryFlags_Version2Compat_def flag_set_def set_flag_def

lemmas sizes4 = Message_ComputeSize4_def MessageEntry_UpdateData4_def MessageEntry_ComputeSize4_def
  MessageEntry_size_parts4_def MessageEntry_UpdateFlags4_def MessageHeader_UpdateHeader4_def
  MessageHeader_ComputeSize4_def MessageHeader_size_parts4_def MessageElement_UpdateFields4_def
  MessageElement_UpdateType4_def MessageElement_UpdateFlags4_def MessageElement_ComputeSize4.simps
  MessageElement_ComputeSize4_head_def

text \<open>What \<open>ComputeSize4\<close> makes of it.\<close>

definition sample_message4 :: message where
  "sample_message4 =
     \<lparr>header = Some (sample_header\<lparr>HeaderSize := 51, MessageFlags := 67, EntryCount := 2, MessageSize := 86\<rparr>),
      entries =
        [(CreateMessageEntry_named 1 ''f'')\<lparr>EntrySize := 27, EntryFlags := 5, elements :=
           [MessageElement (default_element_fields\<lparr>ElementSize := 19, ElementFlags := 1, ElementName := ''value'',
              ElementType := DataTypes_int32_t, DataCount := 2\<rparr>) (Some (ArrayData (RRArray_int32 [5, - 1])))]\<rparr>,
         (CreateMessageEntry_named 1101 ''d'')\<lparr>EntrySize := 8, EntryFlags := 5\<rparr>]\<rparr>"

lemma sample_computed4: "Message_ComputeSize4 sample_message = Inr (86, sample_message4)"
  by (simp add: sizes4 sample_simps size_simps sample_message4_def del: bind_r_Inr)

lemma sample_length4: "length (message4_bytes sample_message4) = 86"
  by (simp add: sample_message4_def sample_simps header4_bytes_def header4_fields_bytes_def
      entry4_bytes_def entry4_fields_bytes_def element4_fields_bytes_def element4_data_bytes_def size_simps
      element4_head_bytes_def uintx_bytes_def xstring_bytes_def num_bytes_def extended_bytes_def
      bytes_of_words_def)

lemma sample_bound4: "length (message4_bytes sample_message4) < 2147483648"
  unfolding sample_length4 by simp

lemmas sizes2 = Message_ComputeSize_def MessageHeader_ComputeSize_def MessageHeader_UpdateHeader_def
  MessageEntry_UpdateData_def MessageEntry_ComputeSize_def MessageElement_UpdateFields_def
  MessageElement_UpdateName_def MessageElement_UpdateType_def MessageElement_ComputeSize.simps
  checked_sizes_def GetStringByteCount8_def element_string_sizes_def

text \<open>What the version 2 \<open>ComputeSize\<close> makes of it.\<close>

definition sample_message2 :: message where
  "sample_message2 =
     \<lparr>header = Some (sample_header\<lparr>HeaderSize := 64, EntryCount := 2, MessageSize := 139\<rparr>),
      entries =
        [(CreateMessageEntry_named 1 ''f'')\<lparr>EntrySize := 52, elements :=
           [MessageElement (default_element_fields\<lparr>ElementSize := 29, ElementName := ''value'',
              ElementType := DataTypes_int32_t, DataCount := 2\<rparr>) (Some (ArrayData (RRArray_int32 [5, - 1])))]\<rparr>,
         (CreateMessageEntry_named 1101 ''d'')\<lparr>EntrySize := 23\<rparr>]\<rparr>"

lemma sample_computed2: "Message_ComputeSize lc sample_message = Inr (139, sample_message2)"
  by (simp add: sizes2 sample_simps size_simps sample_message2_def del: bind_r_Inr)

lemma sample_length2: "length (message2_bytes sample_message2) = 139"
  by (simp add: sample_message2_def sample_simps header2_bytes_def header2_fields_bytes_def
      entry2_bytes_def entry2_fields_bytes_def element2_fields_bytes_def element2_data_bytes_def size_simps
      string16_bytes_def num_bytes_def bytes_of_words_def)

lemma sample_bound2: "length (message2_bytes sample_message2) < 2147483648"
  unfolding sample_length2 by simp

lemma buffer_ok: "k < 2147483648 \<Longrightarrow> ok_writer (ArrayBinaryWriter (replicate k 0) 0 k)"
  by (simp add: ok_writer_def ArrayBinaryWriter_def)

lemma buffer_room: "n \<le> k \<Longrightarrow> room (ArrayBinaryWriter (replicate k 0) 0 k) n"
  by (simp add: room_def ArrayBinaryWriter_def)

lemma sample_header_ids: "header sample_message = Some sample_header"
  "valid_NodeID (SenderNodeID sample_header)" "valid_NodeID (ReceiverNodeID sample_header)"
  by (simp_all add: sample_simps valid_NodeID_def)

section \<open>Round trips of messages\<close>

text \<open>
  C1: A version 4 message survives the wire.  When \<open>ComputeSize4\<close> accepts a message (whose node
  ids have sixteen bytes) and its encoding is shorter than 2 GiB, \<open>Write4\<close> into any buffer with
  room for the computed size succeeds, writes exactly that many bytes, and \<open>Read4\<close> from where
  it began reads the message back (fields that their flags leave out have their defaults) and
  stops exactly where writing stopped.
\<close>

theorem message4_roundtrip:
  assumes "Message_ComputeSize4 m = Inr (n, m')" and "header m = Some h"
    and "valid_NodeID (SenderNodeID h)" and "valid_NodeID (ReceiverNodeID h)"
    and "length (message4_bytes m') < 2147483648" and "ok_writer w" and "room w (unat n)"
  shows "\<exists>w'. Message_Write4 m w = Inr (m', w') \<and> w_position w' = w_position w + unat n
    \<and> (\<exists>r'. Message_Read4 (reader_at w' (w_position w)) = Inr (message4_view m', r')
        \<and> r_position r' = w_position w')"
proof -
  note v = valid_message4_computed [OF assms(1-5)]
  from assms(7) have "room w (length (message4_bytes m'))" by (simp only: v(2))
  from open_roundtrip [OF writes_message4 [OF v(1)] reads_message4 [OF v(1)] assms(6) this]
  show ?thesis unfolding Message_Write4_updates [OF assms(1)] v(2) .
qed

text \<open>
  C2: The same for version 2 messages (\<open>lc\<close> is \<open>lexical_cast\<close> of element numbers): a message that
  \<open>ComputeSize\<close> accepts, with fewer than 65536 elements per entry, is written in exactly the
  computed size and read back, up to the fields that version 2 does not have.
\<close>

theorem message2_roundtrip:
  assumes "Message_ComputeSize lc m = Inr (n, m')" and "header m = Some h"
    and "valid_NodeID (SenderNodeID h)" and "valid_NodeID (ReceiverNodeID h)"
    and "\<forall>e \<in> set (entries m'). length (elements e) < 65536"
    and "length (message2_bytes m') < 2147483648" and "ok_writer w" and "room w (unat n)"
  shows "\<exists>w'. Message_Write lc m w = Inr (m', w') \<and> w_position w' = w_position w + unat n
    \<and> (\<exists>r'. Message_Read (reader_at w' (w_position w)) = Inr (message2_view m', r')
        \<and> r_position r' = w_position w')"
proof -
  note v = valid_message2_computed [OF assms(1-6)]
  from assms(8) have "room w (length (message2_bytes m'))" by (simp only: v(2))
  from open_roundtrip [OF writes_message2 [OF v(1)] reads_message2 [OF v(1)] assms(7) this]
  show ?thesis unfolding Message_Write_updates [OF assms(1)] v(2) .
qed

theorem message4_roundtrip_witness:
  "let w = ArrayBinaryWriter (replicate 100 0) 0 100
   in \<exists>w'. Message_Write4 sample_message w = Inr (sample_message4, w') \<and> w_position w' = w_position w + unat (86 :: 32 word)
    \<and> (\<exists>r'. Message_Read4 (reader_at w' (w_position w)) = Inr (message4_view sample_message4, r')
        \<and> r_position r' = w_position w')"
  unfolding Let_def
  by (rule message4_roundtrip [OF sample_computed4 sample_header_ids sample_bound4])
    (simp_all add: buffer_ok buffer_room)

theorem message2_roundtrip_witness:
  "let w = ArrayBinaryWriter (replicate 200 0) 0 200
   in \<exists>w'. Message_Write (\<lambda>_. ''0'') sample_message w = Inr (sample_message2, w')
    \<and> w_position w' = w_position w + unat (139 :: 32 word)
    \<and> (\<exists>r'. Message_Read (reader_at w' (w_position w)) = Inr (message2_view sample_message2, r')
        \<and> r_position r' = w_position w')"
  unfolding Let_def
  by (rule message2_roundtrip [OF sample_computed2 sample_header_ids _ sample_bound2])
    (simp_all add: buffer_ok buffer_room sample_message2_def sample_simps)

text \<open>
  C4: A message that was read is well typed, whatever the bytes and whichever version: the node
  identifiers have sixteen bytes, there are as many entries as the header says, and every element,
  at every depth, has the type, the type name and the count of its data, an array of exactly that
  many values or a list of exactly that many well-typed elements.
\<close>

theorem read_messages_well_typed:
  assumes "Message_Read4 r = Inr (m, r') \<or> Message_Read r = Inr (m, r')"
  shows "well_typed_message m"
  using assms yields_message4 yields_message unfolding yields_def by blast

theorem read_messages_well_typed_witness:
  "\<exists>r r'. Message_Read4 r = Inr (message4_view sample_message4, r')
    \<and> well_typed_message (message4_view sample_message4)"
proof -
  let ?w = "ArrayBinaryWriter (replicate 100 0) 0 100"
  note v = valid_message4_computed [OF sample_computed4 sample_header_ids sample_bound4]
  have ok: "ok_writer ?w" by (simp add: buffer_ok)
  have "room ?w (length (message4_bytes sample_message4))"
    unfolding sample_length4 by (simp add: buffer_room)
  from open_roundtrip [OF writes_message4 [OF v(1)] reads_message4 [OF v(1)] ok this]
  obtain r r' where r: "Message_Read4 r = Inr (message4_view sample_message4, r')" by blast
  with read_messages_well_typed [of r "message4_view sample_message4" r'] show ?thesis by blast
qed

section \<open>Elements\<close>

text \<open>A nested element: a vector of two numbered members.\<close>

definition sample_element :: MessageElement where
  "sample_element =
     CreateMessageElement_named ''m'' (Some (NestedElementList DataTypes_vector_t ''''
       [CreateMessageElement_numbered 3 (Some (ArrayData (RRArray_uint8 [1, 2, 3]))),
        CreateMessageElement_numbered (- 5) None]))"

definition sample_element4 :: MessageElement where
  "sample_element4 =
     MessageElement
       (default_element_fields\<lparr>ElementSize := 22, ElementFlags := 1, ElementName := ''m'',
          ElementType := DataTypes_vector_t, DataCount := 2\<rparr>)
       (Some (NestedElementList DataTypes_vector_t ''''
         [MessageElement
           (default_element_fields\<lparr>ElementSize := 9, ElementFlags := 4, ElementNumber := 3,
              ElementType := DataTypes_uint8_t, DataCount := 3\<rparr>)
           (Some (ArrayData (RRArray_uint8 [1, 2, 3]))),
          MessageElement
           (default_element_fields\<lparr>ElementSize := 6, ElementFlags := 4, ElementNumber := - 5\<rparr>) None]))"

lemma sample_element_updated: "MessageElement_UpdateData4 sample_element = Inr sample_element4"
  by (simp add: sizes4 size_simps sample_element_def sample_element4_def CreateMessageElement_numbered_def
      CreateMessageElement_named_def SetData_def default_element_fields_def Let_def del: bind_r_Inr)

lemma sample_element_length: "length (element4_bytes sample_element4) = 22"
  by (simp add: sample_element4_def default_element_fields_def element4_fields_bytes_def
      element4_data_bytes_def element4_head_bytes_def size_simps uintx_bytes_def xstring_bytes_def
      num_bytes_def bytes_of_words_def intx_bytes_def)

lemma element4_computed:
  assumes "MessageElement_UpdateData4 e = Inr e'" and "length (element4_bytes e') < 2147483648"
  shows "valid_element4 e'" and "unat (ElementSize (flds e')) = length (element4_bytes e')"
  using assms element4.bytecount [OF valid_element4_updated [OF assms]]
  by (simp_all add: valid_element4_updated)

text \<open>
  C13: An element of any nesting depth survives the wire in version 4: \<open>Write4\<close> first brings the
  element up to date and then writes exactly \<open>ElementSize\<close> bytes, from which \<open>Read4\<close> makes the
  updated element again (without the fields its flags leave out), consuming exactly these bytes.
\<close>

theorem element4_roundtrip:
  assumes "MessageElement_UpdateData4 e = Inr e'" and "length (element4_bytes e') < 2147483648"
    and "ok_writer w" and "room w (unat (ElementSize (flds e')))"
  shows "\<exists>w'. MessageElement_Write4 e w = Inr (e', w')
    \<and> w_position w' = w_position w + unat (ElementSize (flds e'))
    \<and> MessageElement_Read4 (reader_at w' (w_position w))
        = Inr (element4_view e', reader_at w' (w_position w'))"
  unfolding Write4_updates [OF assms(1)] element4_computed(2) [OF assms(1,2)]
  by (rule element4.roundtrip [OF element4_computed(1) [OF assms(1,2)] assms(3)])
    (use assms(4) in \<open>simp only: element4_computed(2) [OF assms(1,2)]\<close>)

theorem element4_roundtrip_witness:
  "let w = ArrayBinaryWriter (replicate 30 0) 0 30
   in \<exists>w'. MessageElement_Write4 sample_element w = Inr (sample_element4, w')
    \<and> w_position w' = w_position w + unat (ElementSize (flds sample_element4))
    \<and> MessageElement_Read4 (reader_at w' (w_position w))
        = Inr (element4_view sample_element4, reader_at w' (w_position w'))"
  unfolding Let_def
proof (rule element4_roundtrip [OF sample_element_updated])
  show "length (element4_bytes sample_element4) < 2147483648" unfolding sample_element_length by simp
qed (simp_all add: buffer_ok buffer_room sample_element4_def)



text \<open>
  C23: \<open>UpdateData4\<close> reaches a fixed point at once: updating an updated element changes nothing,
  and writing an element is writing the updated element.  (\<open>Write4\<close> of a nested element relies on
  it: it updates every child again.)
\<close>

theorem element4_update_idempotent:
  assumes "MessageElement_UpdateData4 e = Inr e'"
  shows "MessageElement_UpdateData4 e' = Inr e' \<and> MessageElement_Write4 e = MessageElement_Write4 e'"
  using UpdateData4_idem [OF assms] Write4_updates [OF assms] by simp

theorem element4_update_idempotent_witness:
  "MessageElement_UpdateData4 sample_element4 = Inr sample_element4
   \<and> MessageElement_Write4 sample_element = MessageElement_Write4 sample_element4"
  by (rule element4_update_idempotent [OF sample_element_updated])

text \<open>
  The same in version 2, for whole messages: measuring a measured message changes nothing,
  and writing a message is writing the measured one.
\<close>

theorem message2_measure_idempotent:
  assumes "Message_ComputeSize lc m = Inr (n, m')"
  shows "Message_ComputeSize lc m' = Inr (n, m') \<and> Message_Write lc m = Message_Write lc m'"
  using MessageComputeSize_idem [OF assms] Message_Write_updates [OF assms] by simp

theorem message2_measure_idempotent_witness:
  "Message_ComputeSize (\<lambda>_. ''0'') sample_message2 = Inr (139, sample_message2)
   \<and> Message_Write (\<lambda>_. ''0'') sample_message = Message_Write (\<lambda>_. ''0'') sample_message2"
  by (rule message2_measure_idempotent [OF sample_computed2])

section \<open>Variable length integers\<close>

lemma u32_room: "ok_writer w \<Longrightarrow> room w (GetUintXByteCount v) \<Longrightarrow>
    \<exists>w'. WriteUintX v w = Inr ((), w') \<and> w_position w' = w_position w + GetUintXByteCount v
    \<and> ReadUintX (reader_at w' (w_position w)) = Inr (v, reader_at w' (w_position w'))"
  using uintx.roundtrip [of w v] uintx.bytecount [of v] by simp

text \<open>
  C24: Variable length integers survive the wire.  \<open>WriteUintX\<close> of any \<open>uint32_t\<close> and \<open>WriteIntX2\<close> of any
  \<open>int64_t\<close> take as many bytes as the byte count functions announce (one for small values), and
  the readers give the value back.
\<close>

theorem variable_length_roundtrip:
  assumes "ok_writer w" and "room w (GetUintXByteCount u)" and "ok_writer w2" and "room w2 (GetIntX2ByteCount i)"
  shows "(\<exists>w'. WriteUintX u w = Inr ((), w') \<and> w_position w' = w_position w + GetUintXByteCount u
      \<and> ReadUintX (reader_at w' (w_position w)) = Inr (u, reader_at w' (w_position w')))
    \<and> (\<exists>w'. WriteIntX2 i w2 = Inr ((), w') \<and> w_position w' = w_position w2 + GetIntX2ByteCount i
      \<and> ReadIntX2 (reader_at w' (w_position w2)) = Inr (i, reader_at w' (w_position w')))"
  using u32_room [OF assms(1,2)] intx2.roundtrip [of w2 i] intx2.bytecount [of i] assms(3,4) by simp

theorem variable_length_roundtrip_witness:
  "let w = ArrayBinaryWriter (replicate 9 0) 0 9 in
    (\<exists>w'. WriteUintX 65536 w = Inr ((), w') \<and> w_position w' = w_position w + GetUintXByteCount 65536
      \<and> ReadUintX (reader_at w' (w_position w)) = Inr (65536, reader_at w' (w_position w')))
    \<and> (\<exists>w'. WriteIntX2 (- 129) w = Inr ((), w') \<and> w_position w' = w_position w + GetIntX2ByteCount (- 129)
      \<and> ReadIntX2 (reader_at w' (w_position w)) = Inr (- 129, reader_at w' (w_position w')))"
  unfolding Let_def
  by (rule variable_length_roundtrip)
    (simp_all add: buffer_ok buffer_room GetUintXByteCount_def GetIntX2ByteCount_def)

section \<open>Arbitrary input\<close>

lemma fresh_reader_inv:
  "length bs < 2147483648 \<Longrightarrow> reader_inv (length bs) (ArrayBinaryReader bs 0 (length bs))"
  by (simp add: reader_inv_def ArrayBinaryReader_def)

text \<open>
  C3: Reading hostile input is safe.  Whatever the bytes (fewer than 2 GiB), reading a message of
  either version ends in a message or in a C++ exception (a RobotRaconteur exception, a bad
  numeric cast or a failed allocation): the reader never leaves its buffer, never dereferences a
  null pointer and never recurses forever.
\<close>

theorem message_read_safe:
  assumes "length bs < 2147483648"
  shows "(\<forall>e. Message_Read4 (ArrayBinaryReader bs 0 (length bs)) = Inl e \<longrightarrow> proper_error e)
    \<and> (\<forall>e. Message_Read (ArrayBinaryReader bs 0 (length bs)) = Inl e \<longrightarrow> proper_error e)"
  using Message_Read4_proper [OF fresh_reader_inv [OF assms]] Message_Read_proper [OF fresh_reader_inv [OF assms]]
  by blast

theorem message_read_safe_witness:
  "let r = ArrayBinaryReader [82, 82, 65] 0 (length [82, 82, 65 :: byte]); e = Exn BufferLimitViolationException ''Range outside of buffer''
   in Message_Read4 r = Inl e \<and> proper_error e"
proof -
  let ?r = "ArrayBinaryReader [82, 82, 65] 0 (length [82, 82, 65 :: byte])"
  let ?e = "Exn BufferLimitViolationException ''Range outside of buffer''"
  have e: "Message_Read4 ?r = Inl ?e"
    by (simp add: Message_Read4_def MessageHeader_Read4_def ReadString8_def Read_def heap_alloc_def
        ArrayBinaryReader_def bind_s_def then_s_def CurrentLimit_r_def Position_r_def)
  with message_read_safe [of "[82, 82, 65]"] have "proper_error ?e" by simp
  with e show ?thesis unfolding Let_def by blast
qed



end
