(* ===== verification/RR_Pipe.thy ===== *)
theory RR_Pipe
  imports RR_MessageData "HOL-Library.AList"
begin

text \<open>
  Pipe endpoints (\<open>PipeMember.cpp\<close>): the packet queues of \<open>PipeEndpointBase\<close> and the packet
  messages of \<open>PipeBase\<close>.  A reliable endpoint numbers its packets and delivers them in the
  order of their numbers, whatever the order of arrival.
\<close>

section \<open>Endpoints\<close>

datatype MemberDefinition_Direction =
    MemberDefinition_Direction_both | MemberDefinition_Direction_readonly | MemberDefinition_Direction_writeonly

text \<open>\<open>out_of_order_packets\<close> is a map; it is kept as an association list with distinct keys.\<close>

record 'a pipe_endpoint =
  pipe_index :: "32 word"
  pipe_unreliable :: bool
  pipe_direction :: MemberDefinition_Direction
  send_packet_number :: "32 word"
  recv_packet_number :: "32 word"
  recv_packets :: "'a list"
  out_of_order_packets :: "(32 word \<times> 'a) list"
  RequestPacketAck :: bool
  ignore_incoming_packets :: bool
  pipe_closed :: bool

definition PipeEndpointBase ::
  "32 word \<Rightarrow> bool \<Rightarrow> MemberDefinition_Direction \<Rightarrow> 'a pipe_endpoint" where
  "PipeEndpointBase index unreliable direction =
     \<lparr>pipe_index = index, pipe_unreliable = unreliable, pipe_direction = direction,
      send_packet_number = 0, recv_packet_number = 0, recv_packets = [],
      out_of_order_packets = [], RequestPacketAck = False, ignore_incoming_packets = False,
      pipe_closed = False\<rparr>"

definition increment_packet_number :: "32 word \<Rightarrow> 32 word" where
  "increment_packet_number packetnum = (if packetnum < - 1 then packetnum + 1 else 0)"

definition Available :: "'a pipe_endpoint \<Rightarrow> nat" where
  "Available e = length (recv_packets e)"

text \<open>
  \<open>AsyncSendPacketBase\<close>: the number is taken before \<open>AsyncSendPipePacket\<close>, an argument here, is
  called, and kept when that throws.
\<close>

definition AsyncSendPacketBase ::
  "('a \<Rightarrow> 32 word \<Rightarrow> 32 word \<Rightarrow> bool \<Rightarrow> 'm result) \<Rightarrow> 'a \<Rightarrow> 'a pipe_endpoint
   \<Rightarrow> 'm result \<times> 'a pipe_endpoint" where
  "AsyncSendPacketBase async_send packet e =
     (if pipe_direction e = MemberDefinition_Direction_readonly
      then (throw_r ReadOnlyMemberException ''Read only pipe'', e)
      else
        (let n = (if send_packet_number e < - 1 then send_packet_number e + 1 else 0);
             e = e\<lparr>send_packet_number := n\<rparr>
         in (async_send packet (pipe_index e) n (RequestPacketAck e), e)))"

definition TryReceivePacketBase ::
  "bool \<Rightarrow> 'a pipe_endpoint \<Rightarrow> ('a option \<times> 'a pipe_endpoint) result" where
  "TryReceivePacketBase peek e =
     (if pipe_direction e = MemberDefinition_Direction_writeonly
      then throw_r WriteOnlyMemberException ''Write only pipe''
      else
        (case recv_packets e of
           [] \<Rightarrow> Inr (None, e)
         | p # ps \<Rightarrow> Inr (Some p, if \<not> peek then e\<lparr>recv_packets := ps\<rparr> else e)))"

definition ReceivePacketBase :: "'a pipe_endpoint \<Rightarrow> ('a \<times> 'a pipe_endpoint) result" where
  "ReceivePacketBase e =
     bind_r (TryReceivePacketBase False e) (\<lambda>(o', e).
       case o' of
         None \<Rightarrow> throw_r InvalidOperationException ''Pipe endpoint receive queue is empty''
       | Some p \<Rightarrow> Inr (p, e))"

definition PeekPacketBase :: "'a pipe_endpoint \<Rightarrow> ('a \<times> 'a pipe_endpoint) result" where
  "PeekPacketBase e =
     bind_r (TryReceivePacketBase True e) (\<lambda>(o', e).
       case o' of
         None \<Rightarrow> throw_r InvalidOperationException ''Pipe endpoint receive queue is empty''
       | Some p \<Rightarrow> Inr (p, e))"

definition SetIgnoreReceived :: "bool \<Rightarrow> 'a pipe_endpoint \<Rightarrow> 'a pipe_endpoint result" where
  "SetIgnoreReceived ignore e =
     (if \<not> ignore \<and> ignore_incoming_packets e
      then throw_r InvalidOperationException ''Cannot stop ignoring packets''
      else Inr (e\<lparr>ignore_incoming_packets := ignore\<rparr>))"

definition SetRequestPacketAck :: "bool \<Rightarrow> 'a pipe_endpoint \<Rightarrow> 'a pipe_endpoint" where
  "SetRequestPacketAck ack e = e\<lparr>RequestPacketAck := ack\<rparr>"

text \<open>\<open>std::map::insert\<close> does not replace an existing entry.\<close>

definition map_insert :: "32 word \<Rightarrow> 'a \<Rightarrow> (32 word \<times> 'a) list \<Rightarrow> (32 word \<times> 'a) list" where
  "map_insert k v m = (if map_of m k \<noteq> None then m else (k, v) # m)"

text \<open>The loop that moves queued packets behind the one that has just arrived.\<close>

function drain_out_of_order :: "'a pipe_endpoint \<Rightarrow> 'a pipe_endpoint" where
  "drain_out_of_order e =
     (case map_of (out_of_order_packets e) (increment_packet_number (recv_packet_number e)) of
        None \<Rightarrow> e
      | Some opacket \<Rightarrow>
          drain_out_of_order
            (let n = increment_packet_number (recv_packet_number e) in
             e\<lparr>recv_packet_number := n, recv_packets := recv_packets e @ [opacket],
               out_of_order_packets := AList.delete n (out_of_order_packets e)\<rparr>))"
  by pat_completeness auto
termination
proof (relation "measure (\<lambda>e. length (out_of_order_packets e))", goal_cases)
  case (2 e x)
  let ?n = "increment_packet_number (recv_packet_number e)"
  from 2 have "(?n, x) \<in> set (out_of_order_packets e)" by (rule map_of_SomeD)
  then have "length (AList.delete ?n (out_of_order_packets e)) < length (out_of_order_packets e)"
    unfolding AList.delete_eq by (rule length_filter_less) simp
  then show ?case by (simp add: Let_def)
qed simp

declare drain_out_of_order.simps [simp del]

text \<open>
  The listeners may take packets from the front of the queue: \<open>listener q\<close> is how many they
  take.  The packet event fires when something is left.  The result is the packets taken,
  whether the event fired, and the endpoint.
\<close>

definition notify_listeners ::
  "('a list \<Rightarrow> nat) \<Rightarrow> 'a pipe_endpoint \<Rightarrow> 'a list \<times> bool \<times> 'a pipe_endpoint" where
  "notify_listeners listener e =
     (let k = listener (recv_packets e); rest = drop k (recv_packets e)
      in (take k (recv_packets e), rest \<noteq> [], e\<lparr>recv_packets := rest\<rparr>))"

definition PipePacketReceived ::
  "('a list \<Rightarrow> nat) \<Rightarrow> 'a \<Rightarrow> 32 word \<Rightarrow> 'a pipe_endpoint \<Rightarrow> 'a list \<times> bool \<times> 'a pipe_endpoint" where
  "PipePacketReceived listener packet packetnum e =
     (if pipe_direction e = MemberDefinition_Direction_writeonly then ([], False, e)
      else if pipe_unreliable e then
        (if ignore_incoming_packets e then ([], False, e)
         else notify_listeners listener (e\<lparr>recv_packets := recv_packets e @ [packet]\<rparr>))
      else if ignore_incoming_packets e then ([], False, e)
      else if packetnum = increment_packet_number (recv_packet_number e) then
        notify_listeners listener
          (drain_out_of_order
            (e\<lparr>recv_packets := recv_packets e @ [packet],
               recv_packet_number := increment_packet_number (recv_packet_number e)\<rparr>))
      else
        ([], False, e\<lparr>out_of_order_packets := map_insert packetnum packet (out_of_order_packets e)\<rparr>))"

section \<open>Packet messages\<close>

text \<open>\<open>ScalarToRRArray\<close>, \<open>RRArrayToScalar\<close> and \<open>CastData\<close> at \<open>uint32_t\<close>.\<close>

definition ScalarToRRArray_u32 :: "32 word \<Rightarrow> MessageElementData" where
  "ScalarToRRArray_u32 v = ArrayData (RRArray_uint32 [v])"

definition CastData_u32 :: "MessageElement \<Rightarrow> 32 word list option result" where
  "CastData_u32 m =
     (case dat m of
        None \<Rightarrow> Inr None
      | Some (ArrayData (RRArray_uint32 xs)) \<Rightarrow> Inr (Some xs)
      | _ \<Rightarrow> throw_r DataTypeMismatchException ''Data type cast error'')"

definition RRArrayToScalar :: "'a list option \<Rightarrow> 'a result" where
  "RRArrayToScalar v =
     (case v of
        None \<Rightarrow> throw_r NullValueException ''Null pointer''
      | Some [] \<Rightarrow> throw_r OutOfRangeException ''Index out of range''
      | Some (x # _) \<Rightarrow> Inr x)"

definition CastDataToNestedList_type ::
  "DataTypes \<Rightarrow> MessageElement \<Rightarrow> (DataTypes \<times> string \<times> MessageElement list) option result" where
  "CastDataToNestedList_type expected_type m =
     (case dat m of
        None \<Rightarrow> Inr None
      | Some (ArrayData _) \<Rightarrow> throw_r DataTypeMismatchException ''Data type cast error''
      | Some (NestedElementList t tn es) \<Rightarrow>
          if t \<noteq> expected_type
          then throw_r DataTypeMismatchException ''Unexpected MessageElementNestedElementList type''
          else Inr (Some (t, tn, es)))"

text \<open>A packet value: a message element for a pipe of raw elements, else a value to be packed.\<close>

datatype 'a pipe_value = RawElement MessageElement | PackedValue (un_PackedValue: 'a)

text \<open>\<open>lexical_cast\<close> and \<open>PackData\<close> / \<open>UnpackData\<close> of the member's type are arguments.\<close>

definition PackPacket ::
  "(32 word \<Rightarrow> string) \<Rightarrow> ('a \<Rightarrow> MessageElementData option result) \<Rightarrow> bool \<Rightarrow>
   'a pipe_value \<Rightarrow> 32 word \<Rightarrow> 32 word \<Rightarrow> bool \<Rightarrow> MessageElement result" where
  "PackPacket lexical_cast PackData rawelements data index packetnumber requestack =
     bind_r
       (if \<not> rawelements then
          (case data of
             PackedValue v \<Rightarrow> bind_r (PackData v) (\<lambda>pdata. Inr (CreateMessageElement_named ''packet'' pdata))
           | RawElement _ \<Rightarrow> throw_r DataTypeMismatchException ''Data type cast error'')
        else
          (case data of
             RawElement pme \<Rightarrow> Inr (MessageElement ((flds pme)\<lparr>ElementName := ''packet''\<rparr>) (dat pme))
           | PackedValue _ \<Rightarrow> throw_r DataTypeMismatchException ''Data type cast error'')) (\<lambda>packet.
     Inr (CreateMessageElement_named (lexical_cast index)
       (Some (NestedElementList DataTypes_dictionary_t ''''
         ([CreateMessageElement_named ''packetnumber'' (Some (ScalarToRRArray_u32 packetnumber)), packet]
          @ (if requestack
             then [CreateMessageElement_named ''requestack'' (Some (ScalarToRRArray_u32 1))] else []))))))"

text \<open>What \<open>DispatchPacket\<close> hands to \<open>PipePacketReceived\<close>: the value and its number.\<close>

definition UnpackPacket ::
  "(MessageElement \<Rightarrow> 'a result) \<Rightarrow> bool \<Rightarrow> MessageElement
   \<Rightarrow> ('a pipe_value \<times> 32 word \<times> MessageElement list) result" where
  "UnpackPacket UnpackData rawelements me =
     bind_r (CastDataToNestedList_type DataTypes_dictionary_t me) (\<lambda>elems1.
     case elems1 of
       None \<Rightarrow> Inl (UndefinedBehaviour ''null element list'')
     | Some (_, _, es) \<Rightarrow>
         bind_r (FindElement es ''packetnumber'') (\<lambda>pn.
         bind_r (CastData_u32 pn) (\<lambda>pa.
         bind_r (RRArrayToScalar pa) (\<lambda>packetnumber.
         bind_r (FindElement es ''packet'') (\<lambda>p.
         bind_r (if \<not> rawelements then bind_r (UnpackData p) (\<lambda>v. Inr (PackedValue v))
                 else Inr (RawElement p)) (\<lambda>data.
         Inr (data, packetnumber, es)))))))"

definition DispatchPacket ::
  "(MessageElement \<Rightarrow> 'a result) \<Rightarrow> bool \<Rightarrow> ('a pipe_value list \<Rightarrow> nat) \<Rightarrow> MessageElement
   \<Rightarrow> 'a pipe_value pipe_endpoint
   \<Rightarrow> (bool \<times> 32 word \<times> 'a pipe_value list \<times> bool \<times> 'a pipe_value pipe_endpoint) result" where
  "DispatchPacket UnpackData rawelements listener me e =
     bind_r (UnpackPacket UnpackData rawelements me) (\<lambda>(data, packetnumber, es).
       (case PipePacketReceived listener data packetnumber e of
          (taken, fired, e) \<Rightarrow>
            Inr (TryFindElement es ''requestack'' \<noteq> None, packetnumber, taken, fired, e)))"

section \<open>Runs of a receiving endpoint\<close>

text \<open>
  A step of the receiver: a packet arrives from the network, or the user takes or looks at
  one.  The output is the packets handed over in the step.
\<close>

datatype 'a pipe_op = Arrive "32 word" 'a | Receive | Peek

fun pipe_step ::
  "('a list \<Rightarrow> nat) \<Rightarrow> 'a pipe_op \<Rightarrow> 'a pipe_endpoint \<Rightarrow> 'a list \<times> 'a pipe_endpoint" where
  "pipe_step listener (Arrive n p) e =
     (case PipePacketReceived listener p n e of (taken, _, e) \<Rightarrow> (taken, e))"
| "pipe_step listener Receive e =
     (case ReceivePacketBase e of Inl _ \<Rightarrow> ([], e) | Inr (p, e) \<Rightarrow> ([p], e))"
| "pipe_step listener Peek e =
     (case PeekPacketBase e of Inl _ \<Rightarrow> ([], e) | Inr (_, e) \<Rightarrow> ([], e))"

fun pipe_run ::
  "('a list \<Rightarrow> nat) \<Rightarrow> 'a pipe_op list \<Rightarrow> 'a pipe_endpoint \<Rightarrow> 'a list \<times> 'a pipe_endpoint" where
  "pipe_run listener [] e = ([], e)"
| "pipe_run listener (op # ops) e =
     (case pipe_step listener op e of
        (out, e) \<Rightarrow> (case pipe_run listener ops e of (outs, e) \<Rightarrow> (out @ outs, e)))"

text \<open>A sender that sends a list of packets, each of which reaches the network.\<close>

fun send_all ::
  "'a list \<Rightarrow> 'a pipe_endpoint \<Rightarrow> (32 word \<times> 'a) list \<times> 'a pipe_endpoint" where
  "send_all [] e = ([], e)"
| "send_all (p # ps) e =
     (case AsyncSendPacketBase (\<lambda>p i n ack. Inr (n, p)) p e of
        (Inl _, e) \<Rightarrow> send_all ps e
      | (Inr m, e) \<Rightarrow> (case send_all ps e of (ms, e) \<Rightarrow> (m # ms, e)))"

section \<open>Packet numbers\<close>

lemma increment_max [simp]: "increment_packet_number (- 1) = 0"
  by (simp add: increment_packet_number_def)

lemma increment_plus_one: "increment_packet_number n = n + 1"
  by (cases "n = - 1") (auto simp: increment_packet_number_def word_order.not_eq_extremum)

lemma increment_of_nat [simp]: "increment_packet_number (of_nat k) = of_nat (Suc k)"
  by (simp add: increment_plus_one add.commute)

lemma send_number_increment:
  "(if n < - 1 then n + 1 else 0) = increment_packet_number n"
  by (simp add: increment_packet_number_def)

lemma less_max [simp]: "n < (- 1 :: 32 word) \<longleftrightarrow> n \<noteq> - 1"
  using word_order.not_eq_extremum by blast

lemma of_nat_inj_32: "i < 4294967296 \<Longrightarrow> j < 4294967296 \<Longrightarrow> (of_nat i :: 32 word) = of_nat j \<Longrightarrow> i = j"
  by (metis unat_of_nat_u32)

section \<open>The receiver's invariant\<close>

text \<open>
  \<open>p i\<close> is the packet with number \<open>i\<close>, \<open>N\<close> the number of packets sent, \<open>A\<close> the numbers that
  have arrived and \<open>out\<close> what was handed over so far.
\<close>

definition queue_inv :: "(nat \<Rightarrow> 'a) \<Rightarrow> nat \<Rightarrow> nat set \<Rightarrow> 'a list \<Rightarrow> nat \<Rightarrow> 'a pipe_endpoint \<Rightarrow> bool" where
  "queue_inv p N A out k e \<longleftrightarrow>
     N < 4294967296 \<and> k \<le> N \<and> A \<subseteq> {1..N} \<and> {1..k} \<subseteq> A
     \<and> \<not> pipe_unreliable e \<and> \<not> ignore_incoming_packets e
     \<and> pipe_direction e \<noteq> MemberDefinition_Direction_writeonly
     \<and> recv_packet_number e = of_nat k
     \<and> out @ recv_packets e = map p [1..<Suc k]
     \<and> (\<forall>n x. (n, x) \<in> set (out_of_order_packets e) \<longrightarrow> (\<exists>i \<in> A. n = of_nat i \<and> x = p i))
     \<and> (\<forall>i \<in> A. k < i \<longrightarrow> of_nat i \<in> fst ` set (out_of_order_packets e))"

lemma queue_inv_next:
  assumes "queue_inv p N A out k e" and "Suc k \<in> A"
    and "\<And>n x. (n, x) \<in> set m \<Longrightarrow> (n, x) \<in> set (out_of_order_packets e)"
    and "\<And>n x. (n, x) \<in> set (out_of_order_packets e) \<Longrightarrow> n \<noteq> of_nat (Suc k) \<Longrightarrow> (n, x) \<in> set m"
    and "e' = e\<lparr>recv_packet_number := of_nat (Suc k), recv_packets := recv_packets e @ [p (Suc k)],
            out_of_order_packets := m\<rparr>"
  shows "queue_inv p N A out (Suc k) e'"
  unfolding queue_inv_def
proof (intro conjI)
  from assms(1,2) have k: "Suc k \<le> N" "N < 4294967296" by (auto simp: queue_inv_def)
  show "N < 4294967296" "Suc k \<le> N" by (rule k)+
  show "{1..Suc k} \<subseteq> A"
    using assms(1,2) by (auto simp: queue_inv_def le_Suc_eq)
  show "\<forall>i \<in> A. Suc k < i \<longrightarrow> of_nat i \<in> fst ` set (out_of_order_packets e')"
  proof (intro ballI impI)
    fix i assume i: "i \<in> A" "Suc k < i"
    with assms(1) have "of_nat i \<in> fst ` set (out_of_order_packets e)" "i \<le> N"
      by (auto simp: queue_inv_def)
    then obtain x where x: "(of_nat i, x) \<in> set (out_of_order_packets e)" by auto
    have "(of_nat i :: 32 word) \<noteq> of_nat (Suc k)"
      using of_nat_inj_32 [of i "Suc k"] i k \<open>i \<le> N\<close> by auto
    from assms(4) [OF x this] show "of_nat i \<in> fst ` set (out_of_order_packets e')"
      by (force simp: assms(5))
  qed
qed (use assms in \<open>auto simp: queue_inv_def\<close>)

text \<open>A number in \<open>A\<close> that follows \<open>k\<close> modulo \<open>2 ^ 32\<close> is \<open>Suc k\<close>.\<close>

lemma queue_inv_number:
  assumes "queue_inv p N A out k e" and "i \<in> A" and "(of_nat i :: 32 word) = of_nat (Suc k)"
  shows "i = Suc k"
proof -
  from assms(1,2) have b: "1 \<le> i" "i \<le> N" "k \<le> N" "N < 4294967296" by (auto simp: queue_inv_def)
  show ?thesis
  proof (cases "Suc k < 4294967296")
    case True
    with b assms(3) show ?thesis by (intro of_nat_inj_32) auto
  next
    case False
    with b have k: "Suc k = 4294967296" by simp
    have "(of_nat i :: 32 word) = 0" unfolding assms(3) k by simp
    with b of_nat_inj_32 [of i 0] show ?thesis by simp
  qed
qed

lemma queue_inv_drain:
  "queue_inv p N A out k e \<Longrightarrow>
   \<exists>k'. queue_inv p N A out k' (drain_out_of_order e) \<and> Suc k' \<notin> A"
proof (induction e arbitrary: k rule: drain_out_of_order.induct)
  case (1 e)
  let ?n = "of_nat (Suc k) :: 32 word"
  have n: "increment_packet_number (recv_packet_number e) = ?n"
    using "1.prems" unfolding queue_inv_def by (simp only: increment_of_nat)
  show ?case
  proof (cases "map_of (out_of_order_packets e) ?n")
    case None
    then have "drain_out_of_order e = e" by (subst drain_out_of_order.simps) (simp only: n option.case)
    moreover have "Suc k \<notin> A"
    proof
      assume "Suc k \<in> A"
      with "1.prems" have "?n \<in> fst ` set (out_of_order_packets e)" unfolding queue_inv_def by blast
      with None show False by (auto simp: map_of_eq_None_iff simp del: of_nat_Suc)
    qed
    ultimately show ?thesis using "1.prems" by auto
  next
    case (Some x)
    then have "(?n, x) \<in> set (out_of_order_packets e)" by (rule map_of_SomeD)
    with "1.prems" obtain i where i: "i \<in> A" "?n = of_nat i" "x = p i"
      unfolding queue_inv_def by blast
    have "i = Suc k" by (rule queue_inv_number [OF "1.prems" i(1) i(2) [symmetric]])
    with i have ik: "Suc k \<in> A" "x = p (Suc k)" by simp_all
    define e' where "e' = e\<lparr>recv_packet_number := ?n, recv_packets := recv_packets e @ [x],
        out_of_order_packets := AList.delete ?n (out_of_order_packets e)\<rparr>"
    have inv: "queue_inv p N A out (Suc k) e'"
      by (rule queue_inv_next [OF "1.prems"]) (use ik in \<open>auto simp: e'_def AList.delete_eq simp del: of_nat_Suc\<close>)
    have eq: "drain_out_of_order e = drain_out_of_order e'"
      by (subst drain_out_of_order.simps) (simp only: n Some option.case Let_def e'_def)
    show ?thesis
      unfolding eq by (rule "1.IH" [unfolded n Let_def, OF Some, folded e'_def, OF inv])
  qed
qed

lemma queue_inv_notify:
  assumes "queue_inv p N A out k e" and "notify_listeners listener e = (taken, fired, e')"
  shows "queue_inv p N A (out @ taken) k e'"
  using assms by (auto simp: notify_listeners_def queue_inv_def Let_def)

lemma queue_inv_more:
  "queue_inv p N A out k e \<Longrightarrow> i \<in> A \<Longrightarrow> queue_inv p N (insert i A) out k e"
  by (simp add: insert_absorb)

lemma queue_inv_insert:
  assumes "queue_inv p N A out k e" and "i \<in> {1..N}" and "i \<noteq> Suc k"
  shows "queue_inv p N (insert i A) out k
    (e\<lparr>out_of_order_packets := map_insert (of_nat i) (p i) (out_of_order_packets e)\<rparr>)"
proof -
  define m where "m = map_insert (of_nat i) (p i) (out_of_order_packets e)"
  have sub: "set m \<subseteq> insert (of_nat i, p i) (set (out_of_order_packets e))"
    and sup: "set (out_of_order_packets e) \<subseteq> set m"
    and key: "of_nat i \<in> fst ` set m"
    by (auto simp: m_def map_insert_def map_of_eq_None_iff image_iff)
  then have "\<forall>n x. (n, x) \<in> set m \<longrightarrow> (\<exists>j \<in> insert i A. n = of_nat j \<and> x = p j)"
    using assms(1) unfolding queue_inv_def by blast
  moreover have "\<forall>j \<in> insert i A. k < j \<longrightarrow> of_nat j \<in> fst ` set m"
    using assms(1) key sup unfolding queue_inv_def by blast
  moreover have "insert i A \<subseteq> {1..N}" "{1..k} \<subseteq> insert i A"
    using assms(1,2) unfolding queue_inv_def by auto
  ultimately show ?thesis
    using assms(1) unfolding m_def [symmetric] queue_inv_def by simp
qed

text \<open>The packet everyone waits for: it is put into the queue directly.\<close>

lemma queue_inv_direct:
  assumes "queue_inv p N A out k e" and "Suc k \<le> N"
  shows "queue_inv p N (insert (Suc k) A) out (Suc k)
    (e\<lparr>recv_packets := recv_packets e @ [p (Suc k)], recv_packet_number := of_nat (Suc k)\<rparr>)"
  using assms unfolding queue_inv_def by (auto simp: le_Suc_eq simp del: of_nat_Suc)

lemma queue_inv_arrive:
  assumes inv: "queue_inv p N A out k e" and "Suc k \<notin> A" and i: "i \<in> {1..N}"
    and r: "PipePacketReceived listener (p i) (of_nat i) e = (taken, fired, e')"
  shows "\<exists>k'. queue_inv p N (insert i A) (out @ taken) k' e' \<and> Suc k' \<notin> insert i A"
proof -
  have mode: "\<not> pipe_unreliable e" "\<not> ignore_incoming_packets e"
    "pipe_direction e \<noteq> MemberDefinition_Direction_writeonly"
    "increment_packet_number (recv_packet_number e) = of_nat (Suc k)"
    using inv unfolding queue_inv_def by (blast, blast, blast, simp only: increment_of_nat)
  have inv': "queue_inv p N (insert i A) out k
    (e\<lparr>out_of_order_packets := map_insert (of_nat i) (p i) (out_of_order_packets e)\<rparr>)" if "i \<noteq> Suc k"
    by (rule queue_inv_insert [OF inv i that])
  show ?thesis
  proof (cases "i = Suc k")
    case True
    define e1 where "e1 = e\<lparr>recv_packets := recv_packets e @ [p (Suc k)], recv_packet_number := of_nat (Suc k)\<rparr>"
    have "queue_inv p N (insert i A) out (Suc k) e1"
      unfolding True e1_def using inv i True by (intro queue_inv_direct) auto
    then obtain k' where d: "queue_inv p N (insert i A) out k' (drain_out_of_order e1)" "Suc k' \<notin> insert i A"
      using queue_inv_drain by blast
    have "notify_listeners listener (drain_out_of_order e1) = (taken, fired, e')"
      using r unfolding PipePacketReceived_def mode(4) True e1_def by (simp only: mode if_False if_True refl)
    with d show ?thesis using queue_inv_notify by blast
  next
    case False
    then have "(of_nat i :: 32 word) \<noteq> of_nat (Suc k)"
      using queue_inv_number [OF inv' [OF False], of i] by auto
    then have "taken = []" "e' = e\<lparr>out_of_order_packets := map_insert (of_nat i) (p i) (out_of_order_packets e)\<rparr>"
      using r unfolding PipePacketReceived_def mode(4) by (simp_all only: mode if_False prod.inject)
    then show ?thesis
      using inv' [OF False] False assms(2) by auto
  qed
qed

lemma queue_inv_receive:
  assumes "queue_inv p N A out k e"
  shows "pipe_step listener Receive e = (o1, e') \<Longrightarrow> queue_inv p N A (out @ o1) k e'"
    and "pipe_step listener Peek e = (o1, e') \<Longrightarrow> queue_inv p N A (out @ o1) k e'"
  using assms
  by (auto simp: ReceivePacketBase_def PeekPacketBase_def TryReceivePacketBase_def queue_inv_def
      throw_r_def split: list.splits if_splits)

section \<open>In-order delivery\<close>

fun arrived :: "'a pipe_op list \<Rightarrow> 32 word set" where
  "arrived [] = {}"
| "arrived (Arrive n _ # ops) = insert n (arrived ops)"
| "arrived (_ # ops) = arrived ops"

fun arrivals :: "'a pipe_op list \<Rightarrow> (32 word \<times> 'a) set" where
  "arrivals [] = {}"
| "arrivals (Arrive n p # ops) = insert (n, p) (arrivals ops)"
| "arrivals (_ # ops) = arrivals ops"

lemma queue_inv_run:
  "queue_inv p N A out k e \<Longrightarrow> Suc k \<notin> A \<Longrightarrow>
   arrivals ops \<subseteq> (\<lambda>i. (of_nat i, p i)) ` {1..N} \<Longrightarrow>
   pipe_run listener ops e = (outs, e') \<Longrightarrow>
   \<exists>k' A'. queue_inv p N A' (out @ outs) k' e' \<and> Suc k' \<notin> A'
     \<and> of_nat ` A' = of_nat ` A \<union> arrived ops"
proof (induction ops arbitrary: A out k e outs)
  case Nil
  then show ?case by auto
next
  case (Cons op ops)
  obtain o1 e1 where s: "pipe_step listener op e = (o1, e1)" by fastforce
  obtain o2 where rest: "pipe_run listener ops e1 = (o2, e')" and outs: "outs = o1 @ o2"
    using Cons.prems(4) s by (auto split: prod.splits)
  have *: "\<exists>k1 A1. queue_inv p N A1 (out @ o1) k1 e1 \<and> Suc k1 \<notin> A1
      \<and> of_nat ` A1 \<union> arrived ops = of_nat ` A \<union> arrived (op # ops)"
  proof (cases op)
    case (Arrive n x)
    then obtain i where i: "i \<in> {1..N}" "n = of_nat i" "x = p i" using Cons.prems(3) by auto
    obtain fired where "PipePacketReceived listener (p i) (of_nat i) e = (o1, fired, e1)"
      using s Arrive i by (auto split: prod.splits)
    from queue_inv_arrive [OF Cons.prems(1,2) i(1) this] obtain k1
      where "queue_inv p N (insert i A) (out @ o1) k1 e1" "Suc k1 \<notin> insert i A" by blast
    moreover have "of_nat ` insert i A \<union> arrived ops = of_nat ` A \<union> arrived (op # ops)"
      unfolding i(2) Arrive by auto
    ultimately show ?thesis by blast
  next
    case Receive
    have "queue_inv p N A (out @ o1) k e1"
      by (rule queue_inv_receive(1) [OF Cons.prems(1) s [unfolded Receive]])
    then show ?thesis using Cons.prems(2) Receive by (intro exI [of _ k] exI [of _ A]) simp
  next
    case Peek
    have "queue_inv p N A (out @ o1) k e1"
      by (rule queue_inv_receive(2) [OF Cons.prems(1) s [unfolded Peek]])
    then show ?thesis using Cons.prems(2) Peek by (intro exI [of _ k] exI [of _ A]) simp
  qed
  then obtain k1 A1 where 1: "queue_inv p N A1 (out @ o1) k1 e1" "Suc k1 \<notin> A1"
    "of_nat ` A1 \<union> arrived ops = of_nat ` A \<union> arrived (op # ops)" by blast
  moreover have "arrivals ops \<subseteq> (\<lambda>i. (of_nat i, p i)) ` {1..N}"
    using Cons.prems(3) by (cases op) auto
  ultimately obtain k' A' where 2: "queue_inv p N A' ((out @ o1) @ o2) k' e'" "Suc k' \<notin> A'"
     "of_nat ` A' = of_nat ` A1 \<union> arrived ops"
    using Cons.IH [OF 1(1,2) _ rest] by blast
  show ?case
    by (rule exI [of _ k'], rule exI [of _ A']) (use 2 1(3) in \<open>simp add: outs\<close>)
qed

section \<open>Senders\<close>

lemma send_all_numbers:
  "pipe_direction e \<noteq> MemberDefinition_Direction_readonly \<Longrightarrow> send_packet_number e = of_nat k \<Longrightarrow>
   fst (send_all ps e) = map (\<lambda>i. (of_nat (Suc (k + i)), ps ! i)) [0..<length ps]"
proof (induction ps arbitrary: e k)
  case (Cons p ps)
  let ?e = "e\<lparr>send_packet_number := of_nat (Suc k)\<rparr>"
  have s: "AsyncSendPacketBase (\<lambda>p i n ack. Inr (n, p)) p e = (Inr (of_nat (Suc k), p), ?e)"
    unfolding AsyncSendPacketBase_def Let_def send_number_increment Cons.prems(2) increment_of_nat
    using Cons.prems(1) by simp
  have "fst (send_all ps ?e) = map (\<lambda>i. (of_nat (Suc (Suc k + i)), ps ! i)) [0..<length ps]"
    by (rule Cons.IH) (use Cons.prems in auto)
  then have "fst (send_all (p # ps) e)
      = (of_nat (Suc k), p) # map (\<lambda>i. (of_nat (Suc (Suc k + i)), ps ! i)) [0..<length ps]"
    by (cases "send_all ps ?e") (simp add: s del: of_nat_Suc)
  also have "\<dots> = map (\<lambda>i. (of_nat (Suc (k + i)), (p # ps) ! i)) [0..<length (p # ps)]"
    by (simp only: length_Cons upt_conv_Cons map_Suc_upt [symmetric] zero_less_Suc list.map map_map comp_def)
      simp
  finally show ?case .
qed simp

lemma sent_set:
  assumes "pipe_direction e \<noteq> MemberDefinition_Direction_readonly" and "send_packet_number e = of_nat k"
  shows "set (fst (send_all ps e)) = (\<lambda>i. (of_nat (k + i), ps ! (i - 1))) ` {1..length ps}"
proof -
  have "{1..length ps} = Suc ` {0..<length ps}" by (simp add: image_Suc_atLeastLessThan atLeastLessThanSuc_atLeastAtMost)
  show ?thesis
    unfolding send_all_numbers [OF assms] \<open>{1..length ps} = _\<close> image_image set_map set_upt
    by (simp only: add_Suc_right diff_Suc_1)
qed

lemma fst_arrivals: "arrived ops = fst ` arrivals ops"
  by (induction ops rule: arrived.induct) auto

lemma queue_inv_fresh:
  assumes "N < 4294967296" and "d \<noteq> MemberDefinition_Direction_writeonly"
  shows "queue_inv p N {} [] 0 (PipeEndpointBase i False d)"
  using assms by (simp add: queue_inv_def PipeEndpointBase_def)

lemma map_upt_take:
  "k \<le> length ps \<Longrightarrow> map (\<lambda>i. ps ! (i - 1)) [1..<Suc k] = take k ps"
  by (rule nth_equalityI) (simp_all del: upt_Suc)

text \<open>A receiver of numbered packets, whatever the first number was.\<close>

lemma delivery_prefix:
  fixes i :: "32 word"
  assumes N: "length ps < 4294967296" and d: "d \<noteq> MemberDefinition_Direction_writeonly"
    and arr: "arrivals ops \<subseteq> (\<lambda>i. (of_nat i, ps ! (i - 1))) ` {1..length ps}"
    and run: "pipe_run listener ops (PipeEndpointBase i False d) = (outs, e')"
  shows "\<exists>k \<le> length ps. outs @ recv_packets e' = take k ps
      \<and> (\<forall>j \<in> {1..k}. of_nat j \<in> arrived ops) \<and> (k < length ps \<longrightarrow> of_nat (Suc k) \<notin> arrived ops)"
proof -
  have "\<exists>k' A'. queue_inv (\<lambda>i. ps ! (i - 1)) (length ps) A' ([] @ outs) k' e' \<and> Suc k' \<notin> A'
     \<and> of_nat ` A' = of_nat ` {} \<union> arrived ops"
    by (rule queue_inv_run [OF queue_inv_fresh [OF N d] _ arr run]) simp
  then obtain k A where q: "queue_inv (\<lambda>i. ps ! (i - 1)) (length ps) A outs k e'" "Suc k \<notin> A"
    and A: "arrived ops = of_nat ` A" by auto
  then have k: "k \<le> length ps" "outs @ recv_packets e' = take k ps" "{1..k} \<subseteq> A" "A \<subseteq> {1..length ps}"
    unfolding queue_inv_def using map_upt_take [of k ps] by auto
  have "(of_nat (Suc k) :: 32 word) \<notin> of_nat ` A" if "k < length ps"
  proof
    assume "(of_nat (Suc k) :: 32 word) \<in> of_nat ` A"
    then obtain j where j: "j \<in> A" "(of_nat j :: 32 word) = of_nat (Suc k)" by force
    from queue_inv_number [OF q(1) this] j(1) q(2) show False by simp
  qed
  with k A show ?thesis by blast
qed

section \<open>Properties\<close>

lemma takeWhile_arrived:
  assumes "k \<le> length ps" and "\<forall>j \<in> {1..k}. of_nat j \<in> A" and "k < length ps \<longrightarrow> (of_nat (Suc k) :: 32 word) \<notin> A"
  shows "map snd (takeWhile (\<lambda>m. fst m \<in> A) (map (\<lambda>i. (of_nat (Suc (0 + i)), ps ! i)) [0..<length ps])) = take k ps"
proof -
  let ?xs = "map (\<lambda>i. (of_nat (Suc (0 + i)) :: 32 word, ps ! i)) [0..<length ps]"
  have "takeWhile (\<lambda>m. fst m \<in> A) ?xs = take k ?xs"
  proof (rule takeWhile_eq_take_P_nth)
    fix i assume "i < k" "i < length ?xs"
    then show "fst (?xs ! i) \<in> A" using assms(2) by (simp del: of_nat_Suc)
  next
    assume "k < length ?xs"
    then show "\<not> fst (?xs ! k) \<in> A" using assms(3) by (simp del: of_nat_Suc)
  qed
  then show ?thesis
    using assms(1) by (intro nth_equalityI) (simp_all del: of_nat_Suc)
qed

text \<open>
  C5: A reliable pipe endpoint hands packets over in the order in which they were sent, each
  once, none skipped: whatever order the numbered packets arrive in, however often each of
  them arrives, and however the user and the listeners take packets in between, what was handed
  over followed by what waits in the queue is the longest prefix of the sent packets all of
  whose members have arrived.
\<close>

theorem pipe_in_order_delivery:
  assumes "length ps < 4294967296"
    and "sd \<noteq> MemberDefinition_Direction_readonly" and "rd \<noteq> MemberDefinition_Direction_writeonly"
    and "arrivals ops \<subseteq> set (fst (send_all ps (PipeEndpointBase i False sd)))"
    and "pipe_run listener ops (PipeEndpointBase j False rd) = (outs, e)"
  shows "outs @ recv_packets e =
    map snd (takeWhile (\<lambda>m. fst m \<in> arrived ops) (fst (send_all ps (PipeEndpointBase i False sd))))"
proof -
  have s: "pipe_direction (PipeEndpointBase i False sd) \<noteq> MemberDefinition_Direction_readonly"
    "send_packet_number (PipeEndpointBase i False sd) = of_nat 0"
    using assms(2) by (simp_all add: PipeEndpointBase_def)
  from assms(4) [unfolded sent_set [OF s]]
  have "arrivals ops \<subseteq> (\<lambda>i. (of_nat i, ps ! (i - 1))) ` {1..length ps}" by simp
  from delivery_prefix [OF assms(1,3) this assms(5)] obtain k where k: "k \<le> length ps"
    "outs @ recv_packets e = take k ps" "\<forall>n \<in> {1..k}. of_nat n \<in> arrived ops"
    "k < length ps \<longrightarrow> of_nat (Suc k) \<notin> arrived ops" by blast
  show ?thesis
    unfolding send_all_numbers [OF s] takeWhile_arrived [OF k(1,3,4)] by (rule k(2))
qed

theorem pipe_in_order_delivery_witness:
  "let ops = [Arrive 2 ''b'', Arrive 1 ''a'', Receive, Arrive 4 ''d''];
       sent = fst (send_all [''a'', ''b'', ''c'', ''d''] (PipeEndpointBase 5 False MemberDefinition_Direction_both));
       r = pipe_run (\<lambda>_. 0) ops (PipeEndpointBase 7 False MemberDefinition_Direction_both)
   in fst r @ recv_packets (snd r) = map snd (takeWhile (\<lambda>m. fst m \<in> arrived ops) sent)
     \<and> fst r = [''a''] \<and> recv_packets (snd r) = [''b'']"
proof -
  let ?ops = "[Arrive 2 ''b'', Arrive 1 ''a'', Receive, Arrive 4 ''d'']"
  let ?r = "pipe_run (\<lambda>_. 0) ?ops (PipeEndpointBase 7 False MemberDefinition_Direction_both)"
  have r: "fst ?r = [''a'']" "recv_packets (snd ?r) = [''b'']"
    by (simp_all add: PipeEndpointBase_def PipePacketReceived_def increment_plus_one map_insert_def
        notify_listeners_def ReceivePacketBase_def TryReceivePacketBase_def drain_out_of_order.simps)
  have "fst ?r @ recv_packets (snd ?r) =
      map snd (takeWhile (\<lambda>m. fst m \<in> arrived ?ops)
        (fst (send_all [''a'', ''b'', ''c'', ''d''] (PipeEndpointBase 5 False MemberDefinition_Direction_both))))"
    by (rule pipe_in_order_delivery [where rd = MemberDefinition_Direction_both and j = 7])
      (simp_all add: AsyncSendPacketBase_def PipeEndpointBase_def del: pipe_run.simps)
  with r show ?thesis unfolding Let_def by blast
qed



text \<open>A raw element travels under the name of the packet member.\<close>

definition received_value :: "'a pipe_value \<Rightarrow> 'a pipe_value" where
  "received_value data =
     (case data of
        RawElement pme \<Rightarrow> RawElement (MessageElement ((flds pme)\<lparr>ElementName := ''packet''\<rparr>) (dat pme))
      | PackedValue v \<Rightarrow> PackedValue v)"

lemma packet_element_name [simp]: "ElementName (flds (CreateMessageElement_named nm d)) = nm"
  by (simp add: CreateMessageElement_named_def SetData_def)

lemma packet_element_data [simp]: "dat (CreateMessageElement_named nm d) = d"
  by (simp add: CreateMessageElement_named_def SetData_def)

lemma packet_fields:
  "CastDataToNestedList_type t (CreateMessageElement_named nm (Some (NestedElementList t tn es)))
     = Inr (Some (t, tn, es))"
  by (simp add: CastDataToNestedList_type_def)

text \<open>
  C15: Packing a packet for the wire and dispatching it at the other end is receiving it: for any
  packing functions of the member's type that are inverse to each other, \<open>DispatchPacket\<close> on what
  \<open>PackPacket\<close> made hands exactly the value and its packet number to \<open>PipePacketReceived\<close>, and asks
  for an acknowledgement exactly when the sender requested one.
\<close>

theorem dispatch_packed_packet:
  assumes "PackPacket lexical_cast PackData raw data index n ack = Inr me"
    and "\<And>v d. PackData v = Inr d \<Longrightarrow> UnpackData (CreateMessageElement_named ''packet'' d) = Inr v"
  shows "DispatchPacket UnpackData raw listener me e =
    (case PipePacketReceived listener (received_value data) n e of
       (taken, fired, e) \<Rightarrow> Inr (ack, n, taken, fired, e))"
proof -
  obtain p where p: "ElementName (flds p) = ''packet''"
    "(if \<not> raw then bind_r (UnpackData p) (\<lambda>v. Inr (PackedValue v)) else Inr (RawElement p))
       = Inr (received_value data)"
    and me: "me = CreateMessageElement_named (lexical_cast index)
       (Some (NestedElementList DataTypes_dictionary_t ''''
         ([CreateMessageElement_named ''packetnumber'' (Some (ScalarToRRArray_u32 n)), p]
          @ (if ack then [CreateMessageElement_named ''requestack'' (Some (ScalarToRRArray_u32 1))] else []))))"
  proof (cases data)
    case (RawElement pme)
    with assms(1) show thesis
      by (intro that [of "MessageElement ((flds pme)\<lparr>ElementName := ''packet''\<rparr>) (dat pme)"])
        (auto simp: PackPacket_def bind_r_def throw_r_def received_value_def split: if_splits)
  next
    case (PackedValue v)
    with assms(1) obtain d where "PackData v = Inr d" "\<not> raw"
      by (auto simp: PackPacket_def bind_r_def throw_r_def split: if_splits sum.splits)
    with PackedValue assms(1) show thesis
      by (intro that [of "CreateMessageElement_named ''packet'' d"])
        (auto simp: PackPacket_def bind_r_def received_value_def assms(2))
  qed
  show ?thesis
    unfolding DispatchPacket_def UnpackPacket_def me packet_fields
    by (simp add: bind_r_def FindElement_def TryFindElement_def CastData_u32_def ScalarToRRArray_u32_def
        RRArrayToScalar_def packet_element_name p(1) packet_element_data)
      (use p in \<open>auto simp: bind_r_def split: sum.splits if_splits\<close>)
qed

theorem dispatch_packed_packet_witness:
  "let PackData = (\<lambda>v. Inr (Some (ArrayData (RRArray_uint32 [v]))));
       UnpackData = (\<lambda>p. bind_r (CastData_u32 p) RRArrayToScalar);
       me = projr (PackPacket (\<lambda>_. ''1'') PackData False (PackedValue 42) 1 9 True);
       e = PipeEndpointBase 1 True MemberDefinition_Direction_both
   in DispatchPacket UnpackData False (\<lambda>_. 0) me e
      = Inr (True, 9, [], True, e\<lparr>recv_packets := [PackedValue 42]\<rparr>)"
proof -
  let ?P = "\<lambda>v. Inr (Some (ArrayData (RRArray_uint32 [v]))) :: MessageElementData option result"
  let ?U = "\<lambda>p. bind_r (CastData_u32 p) RRArrayToScalar"
  let ?me = "projr (PackPacket (\<lambda>_. ''1'') ?P False (PackedValue 42) 1 9 True)"
  let ?e = "PipeEndpointBase 1 True MemberDefinition_Direction_both"
  have "PackPacket (\<lambda>_. ''1'') ?P False (PackedValue 42) 1 9 True = Inr ?me"
    by (simp add: PackPacket_def bind_r_def)
  then have "DispatchPacket ?U False (\<lambda>_. 0) ?me ?e =
    (case PipePacketReceived (\<lambda>_. 0) (received_value (PackedValue 42)) 9 ?e of
       (taken, fired, e) \<Rightarrow> Inr (True, 9, taken, fired, e))"
    by (rule dispatch_packed_packet)
      (auto simp: CastData_u32_def RRArrayToScalar_def bind_r_def)
  then show ?thesis
    unfolding Let_def
    by (simp only: received_value_def) (simp add: PipePacketReceived_def PipeEndpointBase_def notify_listeners_def)
qed



end
