(* ===== verification/RR_Error.thy ===== *)
theory RR_Error
  imports RR_MessageData
begin

text \<open>
  Exceptions and error entries (\<open>Error.h\<close>, \<open>Error.cpp\<close>): the exception classes with their codes and
  names, and \<open>RobotRaconteurExceptionUtil\<close>, which moves exceptions into message entries and back.
\<close>

section \<open>Exception classes\<close>

text \<open>The \<open>RR_EXCEPTION_TYPES_INIT\<close> table: the classes in order, their codes and type names.\<close>

definition all_exceptions :: "exception_class list" where
  "all_exceptions =
     [ConnectionException, ProtocolException, ServiceNotFoundException, ObjectNotFoundException,
      InvalidEndpointException, EndpointCommunicationFatalException, NodeNotFoundException,
      ServiceException, MemberNotFoundException, MemberFormatMismatchException,
      DataTypeMismatchException, DataTypeException, DataSerializationException,
      MessageEntryNotFoundException, MessageElementNotFoundException, UnknownException,
      InvalidOperationException, InvalidArgumentException, OperationFailedException,
      NullValueException, InternalErrorException, SystemResourcePermissionDeniedException,
      OutOfSystemResourceException, SystemResourceException, ResourceNotFoundException,
      IOException, BufferLimitViolationException, ServiceDefinitionException, OutOfRangeException,
      KeyNotFoundException, InvalidConfigurationException, InvalidStateException,
      RobotRaconteurRemoteException, RequestTimeoutException, ReadOnlyMemberException,
      WriteOnlyMemberException, NotImplementedException, MemberBusyException,
      ValueNotSetException, AuthenticationException, ObjectLockedException,
      PermissionDeniedException, AbortOperationException, OperationAbortedException,
      StopIterationException, OperationTimeoutException, OperationCancelledException]"

fun exp_code :: "exception_class \<Rightarrow> 16 word" where
  "exp_code ConnectionException = 1"
| "exp_code ProtocolException = 2"
| "exp_code ServiceNotFoundException = 3"
| "exp_code ObjectNotFoundException = 4"
| "exp_code InvalidEndpointException = 5"
| "exp_code EndpointCommunicationFatalException = 6"
| "exp_code NodeNotFoundException = 7"
| "exp_code ServiceException = 8"
| "exp_code MemberNotFoundException = 9"
| "exp_code MemberFormatMismatchException = 10"
| "exp_code DataTypeMismatchException = 11"
| "exp_code DataTypeException = 12"
| "exp_code DataSerializationException = 13"
| "exp_code MessageEntryNotFoundException = 14"
| "exp_code MessageElementNotFoundException = 15"
| "exp_code UnknownException = 16"
| "exp_code InvalidOperationException = 17"
| "exp_code InvalidArgumentException = 18"
| "exp_code OperationFailedException = 19"
| "exp_code NullValueException = 20"
| "exp_code InternalErrorException = 21"
| "exp_code SystemResourcePermissionDeniedException = 22"
| "exp_code OutOfSystemResourceException = 23"
| "exp_code SystemResourceException = 24"
| "exp_code ResourceNotFoundException = 25"
| "exp_code IOException = 26"
| "exp_code BufferLimitViolationException = 27"
| "exp_code ServiceDefinitionException = 28"
| "exp_code OutOfRangeException = 29"
| "exp_code KeyNotFoundException = 30"
| "exp_code InvalidConfigurationException = 31"
| "exp_code InvalidStateException = 32"
| "exp_code RobotRaconteurRemoteException = 100"
| "exp_code RequestTimeoutException = 101"
| "exp_code ReadOnlyMemberException = 102"
| "exp_code WriteOnlyMemberException = 103"
| "exp_code NotImplementedException = 104"
| "exp_code MemberBusyException = 105"
| "exp_code ValueNotSetException = 106"
| "exp_code AbortOperationException = 107"
| "exp_code OperationAbortedException = 108"
| "exp_code StopIterationException = 109"
| "exp_code OperationTimeoutException = 110"
| "exp_code OperationCancelledException = 111"
| "exp_code AuthenticationException = 150"
| "exp_code ObjectLockedException = 151"
| "exp_code PermissionDeniedException = 152"

text \<open>The classes declared with \<open>M2\<close> keep the error name they are given.\<close>

fun exp_type_str :: "exception_class \<Rightarrow> string option" where
  "exp_type_str ConnectionException = Some ''RobotRaconteur.ConnectionError''"
| "exp_type_str ProtocolException = Some ''RobotRaconteur.ProtocolError''"
| "exp_type_str ServiceNotFoundException = Some ''RobotRaconteur.ServiceNotFound''"
| "exp_type_str ObjectNotFoundException = Some ''RobotRaconteur.ObjectNotFound''"
| "exp_type_str InvalidEndpointException = Some ''RobotRaconteur.InvalidEndpoint''"
| "exp_type_str EndpointCommunicationFatalException = Some ''RobotRaconteur.EndpointCommunicationFatalError''"
| "exp_type_str NodeNotFoundException = Some ''RobotRaconteur.NodeNotFound''"
| "exp_type_str ServiceException = Some ''RobotRaconteur.ServiceError''"
| "exp_type_str MemberNotFoundException = Some ''RobotRaconteur.MemberNotFound''"
| "exp_type_str MemberFormatMismatchException = Some ''RobotRaconteur.MemberFormatMismatch''"
| "exp_type_str DataTypeMismatchException = Some ''RobotRaconteur.DataTypeMismatch''"
| "exp_type_str DataTypeException = Some ''RobotRaconteur.DataTypeError''"
| "exp_type_str DataSerializationException = Some ''RobotRaconteur.DataSerializationError''"
| "exp_type_str MessageEntryNotFoundException = Some ''RobotRaconteur.MessageEntryNotFound''"
| "exp_type_str MessageElementNotFoundException = Some ''RobotRaconteur.MessageElementNotFound''"
| "exp_type_str UnknownException = None"
| "exp_type_str InvalidOperationException = Some ''RobotRaconteur.InvalidOperation''"
| "exp_type_str InvalidArgumentException = Some ''RobotRaconteur.InvalidArgument''"
| "exp_type_str OperationFailedException = Some ''RobotRaconteur.OperationFailed''"
| "exp_type_str NullValueException = Some ''RobotRaconteur.NullValue''"
| "exp_type_str InternalErrorException = Some ''RobotRaconteur.InternalError''"
| "exp_type_str SystemResourcePermissionDeniedException = Some ''RobotRaconteur.SystemResourcePermissionDenied''"
| "exp_type_str OutOfSystemResourceException = Some ''RobotRaconteur.OutOfSystemResource''"
| "exp_type_str SystemResourceException = Some ''RobotRaconteur.SystemResourceError''"
| "exp_type_str ResourceNotFoundException = Some ''RobotRaconteur.ResourceNotFound''"
| "exp_type_str IOException = Some ''RobotRaconteur.IOError''"
| "exp_type_str BufferLimitViolationException = Some ''RobotRaconteur.BufferLimitViolation''"
| "exp_type_str ServiceDefinitionException = Some ''RobotRaconteur.ServiceDefinitionError''"
| "exp_type_str OutOfRangeException = Some ''RobotRaconteur.OutOfRange''"
| "exp_type_str KeyNotFoundException = Some ''RobotRaconteur.KeyNotFound''"
| "exp_type_str InvalidConfigurationException = Some ''RobotRaconteur.InvalidConfiguration''"
| "exp_type_str InvalidStateException = Some ''RobotRaconteur.InvalidState''"
| "exp_type_str RobotRaconteurRemoteException = None"
| "exp_type_str RequestTimeoutException = Some ''RobotRaconteur.RequestTimeout''"
| "exp_type_str ReadOnlyMemberException = Some ''RobotRaconteur.ReadOnlyMember''"
| "exp_type_str WriteOnlyMemberException = Some ''RobotRaconteur.WriteOnlyMember''"
| "exp_type_str NotImplementedException = Some ''RobotRaconteur.NotImplementedError''"
| "exp_type_str MemberBusyException = Some ''RobotRaconteur.MemberBusy''"
| "exp_type_str ValueNotSetException = Some ''RobotRaconteur.ValueNotSet''"
| "exp_type_str AuthenticationException = Some ''RobotRaconteur.AuthenticationError''"
| "exp_type_str ObjectLockedException = Some ''RobotRaconteur.ObjectLockedError''"
| "exp_type_str PermissionDeniedException = Some ''RobotRaconteur.PermissionDenied''"
| "exp_type_str AbortOperationException = Some ''RobotRaconteur.AbortOperation''"
| "exp_type_str OperationAbortedException = Some ''RobotRaconteur.OperationAborted''"
| "exp_type_str StopIterationException = Some ''RobotRaconteur.StopIteration''"
| "exp_type_str OperationTimeoutException = Some ''RobotRaconteur.OperationTimeout''"
| "exp_type_str OperationCancelledException = Some ''RobotRaconteur.OperationCancelled''"

text \<open>The \<open>switch\<close> over the codes; \<open>None\<close> is its \<open>default\<close>.\<close>

definition exception_of_code :: "16 word \<Rightarrow> exception_class option" where
  "exception_of_code code = find (\<lambda>c. exp_code c = code) all_exceptions"

section \<open>Exception objects\<close>

text \<open>\<open>exn_class\<close> is the dynamic class, \<open>None\<close> for \<open>RobotRaconteurException\<close> itself.\<close>

record 'p rr_exception =
  exn_class :: "exception_class option"
  ErrorCode :: "16 word"
  ErrorName :: string
  ErrorMessage :: string
  ErrorSubName :: string
  ErrorParam :: "'p option"
  what_string :: string

definition exception_ToString :: "string \<Rightarrow> string \<Rightarrow> string" where
  "exception_ToString name message = ''RobotRaconteurException: '' @ name @ '': '' @ message"

definition RobotRaconteurException_default :: "'p rr_exception" where
  "RobotRaconteurException_default =
     \<lparr>exn_class = None, ErrorCode = 0, ErrorName = '''', ErrorMessage = '''', ErrorSubName = '''',
      ErrorParam = None, what_string = exception_ToString '''' ''''\<rparr>"

definition RobotRaconteurException ::
  "16 word \<Rightarrow> string \<Rightarrow> string \<Rightarrow> string \<Rightarrow> 'p option \<Rightarrow> 'p rr_exception" where
  "RobotRaconteurException code name message sub_name param =
     \<lparr>exn_class = None, ErrorCode = code, ErrorName = name, ErrorMessage = message,
      ErrorSubName = sub_name, ErrorParam = param, what_string = exception_ToString name message\<rparr>"

text \<open>The constructor with an inner exception sets nothing: \<open>what_string\<close> stays empty.\<close>

definition RobotRaconteurException_inner :: "string \<Rightarrow> 'p rr_exception" where
  "RobotRaconteurException_inner message =
     \<lparr>exn_class = None, ErrorCode = 0, ErrorName = '''', ErrorMessage = '''', ErrorSubName = '''',
      ErrorParam = None, what_string = ''''\<rparr>"

text \<open>
  The constructors of the classes (\<open>RR_EXCEPTION_DEF_1\<close> and \<open>RR_EXCEPTION_DEF_2\<close>); the first kind
  takes no error name.
\<close>

definition make_exception ::
  "exception_class \<Rightarrow> string \<Rightarrow> string \<Rightarrow> string \<Rightarrow> 'p option \<Rightarrow> 'p rr_exception" where
  "make_exception c error_name message sub_name param =
     (RobotRaconteurException (exp_code c)
        (case exp_type_str c of Some s \<Rightarrow> s | None \<Rightarrow> error_name) message sub_name param)
     \<lparr>exn_class := Some c\<rparr>"

text \<open>A caught \<open>std::exception\<close>: one of ours, or another one with its RTTI name and \<open>what()\<close>.\<close>

datatype 'p std_exception = RR_exception "'p rr_exception" | Std_exception string string

section \<open>RobotRaconteurExceptionUtil\<close>

definition MessageErrorType_UnknownError :: "16 word" where
  "MessageErrorType_UnknownError = 16"

definition MessageErrorType_RemoteError :: "16 word" where
  "MessageErrorType_RemoteError = 100"

text \<open>
  \<open>PackVarType\<close> and \<open>UnpackVarType\<close> are arguments; what they throw is swallowed.
\<close>

definition ExceptionToMessageEntry ::
  "('p \<Rightarrow> MessageElementData option result) \<Rightarrow> 'p std_exception \<Rightarrow> message_entry \<Rightarrow> message_entry" where
  "ExceptionToMessageEntry PackVarType ex entry =
     (case ex of
        RR_exception r \<Rightarrow>
          (let entry = entry\<lparr>EntryError := ErrorCode r\<rparr>;
               entry = AddElement ''errorname'' (Some (ArrayData (stringToRRArray (ErrorName r)))) entry;
               entry = AddElement ''errorstring'' (Some (ArrayData (stringToRRArray (ErrorMessage r)))) entry;
               entry = (if ErrorSubName r \<noteq> []
                        then AddElement ''errorsubname'' (Some (ArrayData (stringToRRArray (ErrorSubName r)))) entry
                        else entry)
           in case ErrorParam r of
                None \<Rightarrow> entry
              | Some p \<Rightarrow>
                  (case PackVarType p of
                     Inl _ \<Rightarrow> entry
                   | Inr d \<Rightarrow> AddElement ''errorparam'' d entry))
      | Std_exception type_name what \<Rightarrow>
          (let entry = entry\<lparr>EntryError := MessageErrorType_RemoteError\<rparr>;
               entry = AddElement ''errorname'' (Some (ArrayData (stringToRRArray type_name))) entry
           in AddElement ''errorstring'' (Some (ArrayData (stringToRRArray what))) entry))"

text \<open>\<open>CastDataToString\<close>: the data as a character array.\<close>

definition CastDataToString :: "MessageElement \<Rightarrow> string result" where
  "CastDataToString m =
     bind_r
       (case dat m of
          None \<Rightarrow> Inr None
        | Some (ArrayData (RRArray_char s)) \<Rightarrow> Inr (Some s)
        | _ \<Rightarrow> throw_r DataTypeMismatchException ''Data type cast error'')
       RRArrayToString"

text \<open>The part that \<open>MessageEntryToException\<close> and \<open>ThrowMessageEntryException\<close> have in common.\<close>

definition read_error_entry ::
  "(MessageElement \<Rightarrow> 'p option result) \<Rightarrow> message_entry \<Rightarrow> (string \<times> string \<times> string \<times> 'p option) result" where
  "read_error_entry UnpackVarType entry =
     bind_r (bind_r (MessageEntry_FindElement entry ''errorname'') CastDataToString) (\<lambda>error_name.
     bind_r (bind_r (MessageEntry_FindElement entry ''errorstring'') CastDataToString) (\<lambda>error_string.
     bind_r (case MessageEntry_TryFindElement entry ''errorsubname'' of
               None \<Rightarrow> Inr ''''
             | Some m \<Rightarrow> CastDataToString m) (\<lambda>error_sub_name.
     Inr (error_name, error_string, error_sub_name,
       (case MessageEntry_TryFindElement entry ''errorparam'' of
          None \<Rightarrow> None
        | Some m \<Rightarrow> (case UnpackVarType m of Inl _ \<Rightarrow> None | Inr p \<Rightarrow> p))))))"

definition MessageEntryToException ::
  "(MessageElement \<Rightarrow> 'p option result) \<Rightarrow> message_entry \<Rightarrow> 'p rr_exception result" where
  "MessageEntryToException UnpackVarType entry =
     bind_r (read_error_entry UnpackVarType entry) (\<lambda>(error_name, error_string, error_sub_name, error_param).
       Inr (case exception_of_code (EntryError entry) of
              Some c \<Rightarrow> make_exception c error_name error_string error_sub_name error_param
            | None \<Rightarrow> RobotRaconteurException (EntryError entry) error_name error_string error_sub_name error_param))"

text \<open>
  \<open>ThrowMessageEntryException\<close> always throws: the exception it makes, or one that reading the
  entry throws (\<open>Inl\<close> of the inner sum).
\<close>

definition ThrowMessageEntryException ::
  "(MessageElement \<Rightarrow> 'p option result) \<Rightarrow> message_entry \<Rightarrow> rr_error + 'p rr_exception" where
  "ThrowMessageEntryException UnpackVarType entry =
     (case read_error_entry UnpackVarType entry of
        Inl e \<Rightarrow> Inl e
      | Inr (error_name, error_string, error_sub_name, error_param) \<Rightarrow>
          (case exception_of_code (EntryError entry) of
             Some c \<Rightarrow> Inr (make_exception c error_name error_string error_sub_name error_param)
           | None \<Rightarrow> Inr (RobotRaconteurException (EntryError entry) error_name error_string
                           error_sub_name error_param)))"

definition DownCastException :: "'p rr_exception \<Rightarrow> 'p rr_exception" where
  "DownCastException err =
     (case exception_of_code (ErrorCode err) of
        Some c \<Rightarrow> make_exception c (ErrorName err) (ErrorMessage err) (ErrorSubName err) (ErrorParam err)
      | None \<Rightarrow> RobotRaconteurException (ErrorCode err) (ErrorName err) (ErrorMessage err)
                  (ErrorSubName err) (ErrorParam err))"

definition ExceptionToSharedPtr :: "'p std_exception \<Rightarrow> 16 word \<Rightarrow> 'p rr_exception" where
  "ExceptionToSharedPtr err default_type =
     (case err of
        RR_exception err2 \<Rightarrow> DownCastException err2
      | Std_exception type_name what \<Rightarrow>
          (if default_type = MessageErrorType_UnknownError
           then make_exception UnknownException type_name what '''' None
           else DownCastException (RobotRaconteurException default_type type_name what '''' None)))"

section \<open>The table\<close>

lemma exception_of_exp_code [simp]: "exception_of_code (exp_code c) = Some c"
  by (cases c) (simp_all add: exception_of_code_def all_exceptions_def)

lemma exception_of_code_Some: "exception_of_code code = Some c \<Longrightarrow> exp_code c = code"
  by (auto simp: exception_of_code_def find_Some_iff)

lemma exp_code_nonzero: "exp_code c \<noteq> 0"
  by (cases c) simp_all

lemma exp_code_inj [simp]: "exp_code c = exp_code d \<longleftrightarrow> c = d"
  by (metis exception_of_exp_code option.inject)

lemma exception_of_code_0 [simp]: "exception_of_code 0 = None"
  using exp_code_nonzero exception_of_code_Some by (metis not_None_eq)

section \<open>Objects\<close>

lemma make_exception_code [simp]: "ErrorCode (make_exception c n msg sub p) = exp_code c"
  by (simp add: make_exception_def RobotRaconteurException_def)

lemma DownCast_code [simp]: "ErrorCode (DownCastException err) = ErrorCode err"
  by (auto simp: DownCastException_def RobotRaconteurException_def split: option.splits
      dest: exception_of_code_Some)

lemma DownCast_make [simp]: "DownCastException (make_exception c n msg sub p) = make_exception c n msg sub p"
  by (auto simp: DownCastException_def make_exception_def RobotRaconteurException_def split: option.splits)

lemma DownCast_base:
  "exception_of_code code = None \<Longrightarrow>
   DownCastException (RobotRaconteurException code n msg sub p) = RobotRaconteurException code n msg sub p"
  by (simp add: DownCastException_def RobotRaconteurException_def)

lemma DownCast_idem [simp]: "DownCastException (DownCastException err) = DownCastException err"
  by (cases "exception_of_code (ErrorCode err)")
    (simp_all add: DownCastException_def [of err] DownCast_base)

section \<open>Entries\<close>

definition error_names :: "string set" where
  "error_names = {''errorname'', ''errorstring'', ''errorsubname'', ''errorparam''}"

definition no_error_elements :: "message_entry \<Rightarrow> bool" where
  "no_error_elements entry \<longleftrightarrow> (\<forall>e \<in> set (elements entry). ElementName (flds e) \<notin> error_names)"

lemma find_no_error:
  assumes "no_error_elements entry" and "nm \<in> error_names"
  shows "find (\<lambda>e. ElementName (flds e) = nm) (elements entry @ es) = find (\<lambda>e. ElementName (flds e) = nm) es"
proof -
  have "find (\<lambda>e. ElementName (flds e) = nm) (xs @ es) = find (\<lambda>e. ElementName (flds e) = nm) es"
    if "\<forall>e \<in> set xs. ElementName (flds e) \<notin> error_names" for xs
    using that assms(2) by (induction xs) auto
  then show ?thesis using assms(1) by (simp add: no_error_elements_def)
qed

text \<open>The element that \<open>AddElement\<close> appends.\<close>

definition added_element :: "string \<Rightarrow> MessageElementData option \<Rightarrow> MessageElement" where
  "added_element name v = SetData v (MessageElement ((flds CreateMessageElement)\<lparr>ElementName := name\<rparr>) None)"

lemma added_element_simps [simp]:
  "ElementName (flds (added_element name v)) = name" "dat (added_element name v) = v"
  by (simp_all add: added_element_def SetData_def CreateMessageElement_def)

lemma AddElement_added: "AddElement name v m = m\<lparr>elements := elements m @ [added_element name v]\<rparr>"
  by (simp add: AddElement_def added_element_def)

text \<open>The elements of an error entry.\<close>

definition error_elements ::
  "string \<Rightarrow> string \<Rightarrow> string \<Rightarrow> MessageElementData option option \<Rightarrow> MessageElement list" where
  "error_elements name msg sub param =
     [added_element ''errorname'' (Some (ArrayData (RRArray_char name))),
      added_element ''errorstring'' (Some (ArrayData (RRArray_char msg)))]
     @ (if sub \<noteq> [] then [added_element ''errorsubname'' (Some (ArrayData (RRArray_char sub)))] else [])
     @ (case param of None \<Rightarrow> [] | Some d \<Rightarrow> [added_element ''errorparam'' d])"

text \<open>What \<open>PackVarType\<close> makes of the parameter; errors are swallowed.\<close>

definition packed_param :: "('p \<Rightarrow> MessageElementData option result) \<Rightarrow> 'p option \<Rightarrow> MessageElementData option option" where
  "packed_param PackVarType param =
     (case param of None \<Rightarrow> None | Some p \<Rightarrow> (case PackVarType p of Inl _ \<Rightarrow> None | Inr d \<Rightarrow> Some d))"

lemma ExceptionToMessageEntry_RR:
  "ExceptionToMessageEntry PackVarType (RR_exception r) entry =
     entry\<lparr>EntryError := ErrorCode r, elements := elements entry
       @ error_elements (ErrorName r) (ErrorMessage r) (ErrorSubName r) (packed_param PackVarType (ErrorParam r))\<rparr>"
  by (simp add: ExceptionToMessageEntry_def AddElement_added error_elements_def packed_param_def
      stringToRRArray_def split: option.splits sum.splits)

lemma ExceptionToMessageEntry_Std:
  "ExceptionToMessageEntry PackVarType (Std_exception tn what) entry =
     entry\<lparr>EntryError := 100, elements := elements entry @ error_elements tn what '''' None\<rparr>"
  by (simp add: ExceptionToMessageEntry_def AddElement_added error_elements_def
      stringToRRArray_def MessageErrorType_RemoteError_def)

text \<open>The parameter that arrives.\<close>

definition unpacked_param :: "(MessageElement \<Rightarrow> 'p option result) \<Rightarrow> MessageElementData option option \<Rightarrow> 'p option" where
  "unpacked_param UnpackVarType param =
     (case param of None \<Rightarrow> None
      | Some d \<Rightarrow> (case UnpackVarType (added_element ''errorparam'' d) of Inl _ \<Rightarrow> None | Inr p \<Rightarrow> p))"

lemma unpacked_param_None [simp]: "unpacked_param UnpackVarType None = None"
  unfolding unpacked_param_def option.case ..

lemma read_error_elements:
  assumes "no_error_elements entry" and "elements e = elements entry @ error_elements name msg sub param"
  shows "read_error_entry UnpackVarType e = Inr (name, msg, sub, unpacked_param UnpackVarType param)"
proof -
  have f: "find (\<lambda>x. ElementName (flds x) = nm) (elements e)
      = find (\<lambda>x. ElementName (flds x) = nm) (error_elements name msg sub param)" if "nm \<in> error_names" for nm
    unfolding assms(2) by (rule find_no_error [OF assms(1) that])
  show ?thesis
    by (auto simp: read_error_entry_def MessageEntry_FindElement_def MessageEntry_TryFindElement_def f
        error_names_def error_elements_def CastDataToString_def RRArrayToString_def unpacked_param_def bind_r_def
        split: option.splits sum.splits)
qed

lemma MessageEntryToException_error_elements:
  assumes "no_error_elements entry" and "elements e = elements entry @ error_elements name msg sub param"
  shows "MessageEntryToException UnpackVarType e = Inr (DownCastException
    (RobotRaconteurException (EntryError e) name msg sub (unpacked_param UnpackVarType param)))"
  by (simp add: MessageEntryToException_def read_error_elements [OF assms] DownCastException_def
      RobotRaconteurException_def split: option.split)

section \<open>Properties\<close>

text \<open>
  C26: An exception survives the trip through a message entry.  For every \<open>RobotRaconteurException\<close>
  put into an entry that has no error elements yet, reading the entry back gives the exception
  downcast to the class of its code, with the same name (where the class leaves it open),
  message, sub-name and parameter, provided the parameter can be packed and unpacked.
\<close>

theorem error_entry_roundtrip:
  assumes "no_error_elements entry"
    and "\<And>p. ErrorParam r = Some p \<Longrightarrow>
      \<exists>d. PackVarType p = Inr d \<and> UnpackVarType (added_element ''errorparam'' d) = Inr (Some p)"
  shows "MessageEntryToException UnpackVarType (ExceptionToMessageEntry PackVarType (RR_exception r) entry)
    = Inr (DownCastException r)"
proof -
  have "unpacked_param UnpackVarType (packed_param PackVarType (ErrorParam r)) = ErrorParam r"
    using assms(2) by (cases "ErrorParam r") (auto simp: packed_param_def unpacked_param_def)
  then show ?thesis
    unfolding ExceptionToMessageEntry_RR
    by (subst MessageEntryToException_error_elements [OF assms(1)])
      (auto simp: DownCastException_def RobotRaconteurException_def split: option.split)
qed

theorem error_entry_roundtrip_witness:
  "let r = make_exception MemberNotFoundException '''' ''no such member'' ''sub'' (Some (3 :: nat));
       Pack = (\<lambda>p. Inr (Some (ArrayData (RRArray_char (replicate p CHR ''x'')))));
       Unpack = (\<lambda>m. bind_r (CastDataToString m) (\<lambda>s. Inr (Some (length s))))
   in MessageEntryToException Unpack (ExceptionToMessageEntry Pack (RR_exception r) (CreateMessageEntry_named 2 ''f''))
      = Inr (DownCastException r)"
  unfolding Let_def
  by (rule error_entry_roundtrip)
    (simp_all add: no_error_elements_def CreateMessageEntry_named_def CreateMessageEntry_def make_exception_def
      RobotRaconteurException_def CastDataToString_def RRArrayToString_def bind_r_def)

text \<open>
  C27: Downcasting restores the dynamic class from the error code and loses nothing: an exception
  made by the constructor of any class is its own downcast, downcasting twice is downcasting
  once, and the class of the result is the one that the code stands for.
\<close>

theorem downcast_restores_class:
  "DownCastException (make_exception c name msg sub param) = make_exception c name msg sub param
   \<and> DownCastException (DownCastException err) = DownCastException err
   \<and> ErrorCode (DownCastException err) = ErrorCode err
   \<and> exn_class (DownCastException err) = exception_of_code (ErrorCode err)"
  by (simp add: DownCastException_def make_exception_def RobotRaconteurException_def split: option.split)
    (auto simp: DownCastException_def make_exception_def RobotRaconteurException_def
      dest: exception_of_code_Some split: option.split)

text \<open>
  C28: An exception of another C++ library reaches the other side as a
  \<open>RobotRaconteurRemoteException\<close> that carries its RTTI name and its \<open>what()\<close> text.
\<close>

theorem foreign_exception_arrives:
  assumes "no_error_elements entry"
  shows "MessageEntryToException UnpackVarType
      (ExceptionToMessageEntry PackVarType (Std_exception type_name what) entry)
    = Inr (make_exception RobotRaconteurRemoteException type_name what '''' None)"
proof -
  have "exception_of_code 100 = Some RobotRaconteurRemoteException"
    using exception_of_exp_code [of RobotRaconteurRemoteException] by simp
  then show ?thesis
    unfolding ExceptionToMessageEntry_Std
    by (subst MessageEntryToException_error_elements [OF assms])
      (auto simp: DownCastException_def RobotRaconteurException_def split: option.split)
qed

theorem foreign_exception_arrives_witness:
  "MessageEntryToException (\<lambda>_. Inr (Some True))
      (ExceptionToMessageEntry (\<lambda>_. Inl BadAlloc) (Std_exception ''St9bad_alloc'' ''bad'') CreateMessageEntry)
    = Inr (make_exception RobotRaconteurRemoteException ''St9bad_alloc'' ''bad'' '''' None)"
  by (rule foreign_exception_arrives) (simp add: no_error_elements_def CreateMessageEntry_def)

text \<open>
  A failure is visible as one: an entry made from an exception of any declared class, or from
  an exception of another library, has a non-zero error code.
\<close>

theorem error_entry_is_error:
  "EntryError (ExceptionToMessageEntry PackVarType (RR_exception (make_exception c name msg sub param)) entry) \<noteq> 0
   \<and> EntryError (ExceptionToMessageEntry PackVarType (Std_exception type_name what) entry) \<noteq> 0"
  by (simp add: ExceptionToMessageEntry_RR ExceptionToMessageEntry_Std exp_code_nonzero)

text \<open>
  C29: The constructor of \<open>RobotRaconteurException\<close> that takes an inner exception loses everything:
  whatever the message, the entry made from such an exception carries the error code of success,
  and the node that reads it gets a nameless exception without a message, although the
  documentation of the constructor promises the code of an unknown error.
\<close>

theorem inner_exception_lost:
  assumes "no_error_elements entry"
  shows "EntryError (ExceptionToMessageEntry PackVarType (RR_exception (RobotRaconteurException_inner message)) entry) = 0
    \<and> MessageEntryToException UnpackVarType
        (ExceptionToMessageEntry PackVarType (RR_exception (RobotRaconteurException_inner message)) entry)
      = Inr (RobotRaconteurException 0 '''' '''' '''' None)"
proof
  show "EntryError (ExceptionToMessageEntry PackVarType (RR_exception (RobotRaconteurException_inner message)) entry) = 0"
    by (simp add: ExceptionToMessageEntry_RR RobotRaconteurException_inner_def)
  show "MessageEntryToException UnpackVarType
        (ExceptionToMessageEntry PackVarType (RR_exception (RobotRaconteurException_inner message)) entry)
      = Inr (RobotRaconteurException 0 '''' '''' '''' None)"
    unfolding ExceptionToMessageEntry_RR
    by (subst MessageEntryToException_error_elements [OF assms])
      (auto simp: DownCast_base RobotRaconteurException_inner_def packed_param_def)
qed

theorem inner_exception_lost_witness:
  "EntryError (ExceptionToMessageEntry (\<lambda>p :: nat. Inl BadAlloc) (RR_exception (RobotRaconteurException_inner ''lost''))
      CreateMessageEntry) = 0
   \<and> MessageEntryToException (\<lambda>_. Inr (Some 3))
       (ExceptionToMessageEntry (\<lambda>p :: nat. Inl BadAlloc) (RR_exception (RobotRaconteurException_inner ''lost''))
         CreateMessageEntry)
     = Inr (RobotRaconteurException 0 '''' '''' '''' None)"
  by (rule inner_exception_lost) (simp add: no_error_elements_def CreateMessageEntry_def)

end
