(* ===== verification/RR_AsyncReader.thy ===== *)
theory RR_AsyncReader
  imports RR_MessageData
begin

text \<open>
  The resumable message reader (\<open>AsyncMessageReader.h\<close>, \<open>AsyncMessageReader.cpp\<close>): a state machine
  with an explicit stack that reads a message from whatever bytes are there and asks for more.

  Every frame of the stack holds a pointer to the object it reads, which the object of the frame
  below holds as its last child.  Here a frame holds the object itself, and \<open>pop_state\<close> puts it into
  its parent: the code never looks at a child through its parent while the child is being read.
\<close>

section \<open>State\<close>

datatype state_type =
    Message_init | Message_done
  | MessageHeader_init | MessageHeader_headersize | MessageHeader_flags | MessageHeader_routing1
  | MessageHeader_routing2 | MessageHeader_routing3 | MessageHeader_routing4
  | MessageHeader_endpoint1 | MessageHeader_endpoint2 | MessageHeader_priority
  | MessageHeader_metainfo | MessageHeader_messageid1 | MessageHeader_messageid2
  | MessageHeader_stringtable1 | MessageHeader_stringtable2 | MessageHeader_stringtable3
  | MessageHeader_entrycount | MessageHeader_extended1 | MessageHeader_extended2
  | Message_readentries
  | MessageEntry_init | MessageEntry_finishread | MessageEntry_entrysize | MessageEntry_entryflags
  | MessageEntry_entrytype | MessageEntry_servicepathstr | MessageEntry_servicepathcode
  | MessageEntry_membernamestr | MessageEntry_membernamecode | MessageEntry_requestid
  | MessageEntry_error | MessageEntry_metainfo | MessageEntry_extended1 | MessageEntry_extended2
  | MessageEntry_elementcount | MessageEntry_readelements
  | MessageElement_init | MessageElement_elementsize | MessageElement_elementflags
  | MessageElement_elementnamestr | MessageElement_elementnamecode | MessageElement_elementnumber
  | MessageElement_elementtype | MessageElement_elementtypestr | MessageElement_elementtypecode
  | MessageElement_metainfo | MessageElement_extended1 | MessageElement_extended2
  | MessageElement_datacount | MessageElement_readdata | MessageElement_finishreaddata
  | MessageElement_readarray1 | MessageElement_readarray2 | MessageElement_readnested1
  | MessageElement_readnested2 | MessageElement_readnested3
  | Header_readstring | MessageEntry_pad

text \<open>What \<open>ptrdata\<close> points to: a string field of the object of the frame below.\<close>

datatype string_field =
    Field_SenderNodeName | Field_ReceiverNodeName | Field_HeaderMetaData | Field_StringTable
  | Field_ServicePath | Field_MemberName | Field_EntryMetaData
  | Field_ElementName | Field_ElementTypeName | Field_ElementMetaData

text \<open>
  The object of a frame.  An array that is being filled is the allocated array and the bytes
  that have been put into it.
\<close>

datatype frame_data =
    Frame_message message
  | Frame_header message_header
  | Frame_entry message_entry
  | Frame_element MessageElement
  | Frame_array rr_array "byte list"
  | Frame_nested DataTypes string "MessageElement list"
  | Frame_string string_field

record state_data =
  st_state :: state_type
  st_pop_state :: state_type
  st_limit :: nat
  st_data :: frame_data
  st_param1 :: nat
  st_param2 :: nat
  st_param3 :: string

text \<open>
  \<open>ar_buf\<close> holds the unread bytes of the internal buffer (between \<open>buf_read_pos\<close> and
  \<open>buf_avail_pos\<close>, which are reset together once they meet), \<open>ar_other\<close> the bytes of the buffer
  sequence of the current call, \<open>ar_continue\<close> the bytes that the caller has read directly into
  the continuation buffers before the call.  The back of \<open>state_stack\<close> is the head of the list.
\<close>

record async_reader =
  ar_version :: "16 word"
  ar_stack :: "state_data list"
  ar_buf :: "byte list"
  ar_other :: "byte list"
  ar_continue :: "byte list"
  ar_messages :: "message list"
  ar_pos :: nat

type_synonym 'a ar = "(async_reader, 'a) sm"

definition buf_len :: nat where
  "buf_len = 128"

text \<open>\<open>ReadReturn_continue_buffers\<close> comes with a buffer of the given size in the array.\<close>

datatype read_return = ReadReturn_done | ReadReturn_continue_nobuffers | ReadReturn_continue_buffers nat

definition size_sub :: "nat \<Rightarrow> nat \<Rightarrow> nat" where
  "size_sub a b = (a + 2 ^ 32 - b) mod 2 ^ 32"

section \<open>The stack\<close>

definition top_frame :: "state_data ar" where
  "top_frame s =
     (case ar_stack s of
        [] \<Rightarrow> Inl (UndefinedBehaviour ''back() of an empty vector'')
      | d # _ \<Rightarrow> Inr (d, s))"

definition upd_top :: "(state_data \<Rightarrow> state_data) \<Rightarrow> unit ar" where
  "upd_top f s =
     (case ar_stack s of
        [] \<Rightarrow> Inl (UndefinedBehaviour ''back() of an empty vector'')
      | d # ds \<Rightarrow> Inr ((), s\<lparr>ar_stack := f d # ds\<rparr>))"

definition message_len :: "nat ar" where
  "message_len s =
     (if ar_stack s = [] then Inl (UndefinedBehaviour ''front() of an empty vector'')
      else Inr (st_limit (last (ar_stack s)), s))"

definition set_message_len :: "nat \<Rightarrow> unit ar" where
  "set_message_len n s =
     (if ar_stack s = [] then Inl (UndefinedBehaviour ''front() of an empty vector'')
      else Inr ((), s\<lparr>ar_stack := butlast (ar_stack s) @ [(last (ar_stack s))\<lparr>st_limit := n\<rparr>]\<rparr>))"

definition set_state :: "state_type \<Rightarrow> unit ar" where
  "set_state st = upd_top (\<lambda>d. d\<lparr>st_state := st\<rparr>)"

definition set_limit :: "nat \<Rightarrow> unit ar" where
  "set_limit n = upd_top (\<lambda>d. d\<lparr>st_limit := n\<rparr>)"

definition set_param1 :: "nat \<Rightarrow> unit ar" where
  "set_param1 n = upd_top (\<lambda>d. d\<lparr>st_param1 := n\<rparr>)"

definition message_pos :: "nat ar" where
  "message_pos s = Inr (ar_pos s, s)"

definition distance_from_limit :: "nat ar" where
  "distance_from_limit =
     bind_s top_frame (\<lambda>d. bind_s message_pos (\<lambda>p. return_s (size_sub (st_limit d) p)))"

text \<open>The elements of an array from the bytes of its storage.\<close>

fun fill_array :: "rr_array \<Rightarrow> byte list \<Rightarrow> rr_array" where
  "fill_array (RRArray_double xs) bs = RRArray_double (words_of_bytes (length xs) bs)"
| "fill_array (RRArray_single xs) bs = RRArray_single (words_of_bytes (length xs) bs)"
| "fill_array (RRArray_int8 xs) bs = RRArray_int8 (words_of_bytes (length xs) bs)"
| "fill_array (RRArray_uint8 xs) bs = RRArray_uint8 (words_of_bytes (length xs) bs)"
| "fill_array (RRArray_int16 xs) bs = RRArray_int16 (words_of_bytes (length xs) bs)"
| "fill_array (RRArray_uint16 xs) bs = RRArray_uint16 (words_of_bytes (length xs) bs)"
| "fill_array (RRArray_int32 xs) bs = RRArray_int32 (words_of_bytes (length xs) bs)"
| "fill_array (RRArray_uint32 xs) bs = RRArray_uint32 (words_of_bytes (length xs) bs)"
| "fill_array (RRArray_int64 xs) bs = RRArray_int64 (words_of_bytes (length xs) bs)"
| "fill_array (RRArray_uint64 xs) bs = RRArray_uint64 (words_of_bytes (length xs) bs)"
| "fill_array (RRArray_char xs) bs = RRArray_char (string_of_bytes bs)"
| "fill_array (RRArray_cdouble xs) bs = RRArray_cdouble (pairs_of_bytes (length xs) bs)"
| "fill_array (RRArray_csingle xs) bs = RRArray_csingle (pairs_of_bytes (length xs) bs)"
| "fill_array (RRArray_bool xs) bs = RRArray_bool (words_of_bytes (length xs) bs)"

text \<open>A finished object becomes the last child of its parent.\<close>

fun write_back :: "frame_data \<Rightarrow> frame_data \<Rightarrow> frame_data" where
  "write_back (Frame_header h) (Frame_message m) = Frame_message (m\<lparr>header := Some h\<rparr>)"
| "write_back (Frame_entry e) (Frame_message m) = Frame_message (m\<lparr>entries := entries m @ [e]\<rparr>)"
| "write_back (Frame_element el) (Frame_entry e) = Frame_entry (e\<lparr>elements := elements e @ [el]\<rparr>)"
| "write_back (Frame_element el) (Frame_nested t n es) = Frame_nested t n (es @ [el])"
| "write_back (Frame_array a bs) (Frame_element el) =
     Frame_element (MessageElement (flds el) (Some (ArrayData (fill_array a bs))))"
| "write_back (Frame_nested t n es) (Frame_element el) =
     Frame_element (MessageElement (flds el) (Some (NestedElementList t n es)))"
| "write_back _ p = p"

definition pop_state :: "unit ar" where
  "pop_state s =
     (case ar_stack s of
        [] \<Rightarrow> Inl (UndefinedBehaviour ''back() of an empty vector'')
      | [_] \<Rightarrow> Inl (Exn InvalidOperationException ''Message read stack empty'')
      | d # p # ds \<Rightarrow>
          Inr ((), s\<lparr>ar_stack := p\<lparr>st_state := st_pop_state d,
                                 st_data := write_back (st_data d) (st_data p)\<rparr> # ds\<rparr>))"

definition push_state ::
  "state_type \<Rightarrow> state_type \<Rightarrow> nat \<Rightarrow> frame_data \<Rightarrow> nat \<Rightarrow> nat \<Rightarrow> string \<Rightarrow> unit ar" where
  "push_state new_state pop_st relative_limit data p1 p2 p3 =
     bind_s message_pos (\<lambda>pos.
     bind_s message_len (\<lambda>len s.
       if size_add pos relative_limit > len then Inl (Exn ProtocolException ''Invalid message limit'')
       else Inr ((), s\<lparr>ar_stack :=
              \<lparr>st_state = new_state, st_pop_state = pop_st, st_limit = size_add pos relative_limit,
               st_data = data, st_param1 = p1, st_param2 = p2, st_param3 = p3\<rparr> # ar_stack s\<rparr>)))"

section \<open>Bytes\<close>

text \<open>
  \<open>prepare_continue\<close> saves what fits of the other buffers in the internal one; the rest is not
  used and has to be supplied again.
\<close>

definition prepare_continue :: "unit ar" where
  "prepare_continue s =
     (let n2 = min (buf_len - length (ar_buf s)) (length (ar_other s)) in
      Inr ((), s\<lparr>ar_buf := ar_buf s @ take n2 (ar_other s), ar_other := drop n2 (ar_other s)\<rparr>))"

definition available :: "nat ar" where
  "available s = Inr (size_add (length (ar_buf s)) (length (ar_other s)), s)"

definition read_some_bytes :: "nat \<Rightarrow> byte list ar" where
  "read_some_bytes len =
     (if len = 0 then return_s []
      else
        bind_s distance_from_limit (\<lambda>dist.
        let len = min len dist in
        if len = 0 then throw_s ProtocolException ''Message limit error''
        else (\<lambda>s.
          let bs = take len (ar_buf s @ ar_other s) in
          Inr (bs, s\<lparr>ar_buf := drop len (ar_buf s),
                     ar_other := drop (len - length (ar_buf s)) (ar_other s),
                     ar_pos := size_add (ar_pos s) (length bs)\<rparr>))))"

definition read_all_bytes :: "nat \<Rightarrow> byte list option ar" where
  "read_all_bytes len =
     bind_s distance_from_limit (\<lambda>dist.
     if dist < len then throw_s ProtocolException ''Message limit error''
     else
       bind_s available (\<lambda>a.
       if a < len then return_s None
       else bind_s (read_some_bytes len) (\<lambda>bs. return_s (Some bs))))"

definition peek_byte :: "byte option ar" where
  "peek_byte =
     bind_s distance_from_limit (\<lambda>dist.
     if dist = 0 then throw_s ProtocolException ''Message limit error''
     else (\<lambda>s. Inr (case ar_buf s @ ar_other s of [] \<Rightarrow> None | b # _ \<Rightarrow> Some b, s)))"

definition read_number :: "'n::len word option ar" where
  "read_number =
     bind_s (read_all_bytes (LENGTH('n) div 8)) (\<lambda>r. return_s (map_option (\<lambda>bs. of_nat (le_nat bs)) r))"

text \<open>A \<open>read_number\<close> whose result is not checked: the variable stays uninitialised when it fails.\<close>

definition read_number_unchecked :: "'n::len word ar" where
  "read_number_unchecked =
     bind_s read_number (\<lambda>r. case r of
       None \<Rightarrow> fail_s (UndefinedBehaviour ''uninitialised number'') | Some v \<Rightarrow> return_s v)"

definition read_uint_x :: "32 word option ar" where
  "read_uint_x =
     bind_s peek_byte (\<lambda>b. case b of
       None \<Rightarrow> return_s None
     | Some b1 \<Rightarrow>
         if b1 \<le> 252 then
           bind_s (read_number :: 8 word option ar) (\<lambda>_. return_s (Some (ucast b1)))
         else if b1 = 253 then
           bind_s available (\<lambda>a1. if a1 < 3 then return_s None
             else
               bind_s (read_number :: 8 word option ar) (\<lambda>_.
               bind_s (read_number_unchecked :: 16 word ar) (\<lambda>num2. return_s (Some (ucast num2)))))
         else if b1 = 254 then
           bind_s available (\<lambda>a1. if a1 < 5 then return_s None
             else
               bind_s (read_number :: 8 word option ar) (\<lambda>_.
               bind_s (read_number_unchecked :: 32 word ar) (\<lambda>num. return_s (Some num))))
         else throw_s ProtocolException ''Invalid uint_x in read'')"

definition read_int_x :: "32 word option ar" where
  "read_int_x =
     bind_s peek_byte (\<lambda>b. case b of
       None \<Rightarrow> return_s None
     | Some b1 \<Rightarrow>
         if sint b1 \<le> 124 then
           bind_s (read_number :: 8 word option ar) (\<lambda>_. return_s (Some (scast b1)))
         else if sint b1 = 125 then
           bind_s available (\<lambda>a1. if a1 < 3 then return_s None
             else
               bind_s (read_number :: 8 word option ar) (\<lambda>_.
               bind_s (read_number_unchecked :: 16 word ar) (\<lambda>num2. return_s (Some (scast num2)))))
         else if sint b1 = 126 then
           bind_s available (\<lambda>a1. if a1 < 5 then return_s None
             else
               bind_s (read_number :: 8 word option ar) (\<lambda>_.
               bind_s (read_number_unchecked :: 32 word ar) (\<lambda>num. return_s (Some num))))
         else throw_s ProtocolException ''Invalid uint_x in read'')"

section \<open>Strings\<close>

fun set_field :: "string_field \<Rightarrow> string \<Rightarrow> frame_data \<Rightarrow> frame_data" where
  "set_field Field_SenderNodeName v (Frame_header h) = Frame_header (h\<lparr>SenderNodeName := v\<rparr>)"
| "set_field Field_ReceiverNodeName v (Frame_header h) = Frame_header (h\<lparr>ReceiverNodeName := v\<rparr>)"
| "set_field Field_HeaderMetaData v (Frame_header h) = Frame_header (h\<lparr>HeaderMetaData := v\<rparr>)"
| "set_field Field_StringTable v (Frame_header h) =
     Frame_header (h\<lparr>StringTable := butlast (StringTable h) @ [(fst (last (StringTable h)), v)]\<rparr>)"
| "set_field Field_ServicePath v (Frame_entry e) = Frame_entry (e\<lparr>ServicePath := v\<rparr>)"
| "set_field Field_MemberName v (Frame_entry e) = Frame_entry (e\<lparr>MemberName := v\<rparr>)"
| "set_field Field_EntryMetaData v (Frame_entry e) = Frame_entry (e\<lparr>EntryMetaData := v\<rparr>)"
| "set_field Field_ElementName v (Frame_element el) =
     Frame_element (MessageElement ((flds el)\<lparr>ElementName := v\<rparr>) (dat el))"
| "set_field Field_ElementTypeName v (Frame_element el) =
     Frame_element (MessageElement ((flds el)\<lparr>ElementTypeName := v\<rparr>) (dat el))"
| "set_field Field_ElementMetaData v (Frame_element el) =
     Frame_element (MessageElement ((flds el)\<lparr>ElementMetaData := v\<rparr>) (dat el))"
| "set_field _ v d = d"

text \<open>
  The common part of \<open>read_string\<close> and \<open>read_string4\<close>, once the length is known: take what is there,
  and leave the rest to a \<open>Header_readstring\<close> frame.
\<close>

definition read_string_body :: "nat \<Rightarrow> string_field \<Rightarrow> state_type \<Rightarrow> unit option ar" where
  "read_string_body l f next_state =
     bind_s (read_some_bytes l) (\<lambda>bs.
     if length bs = l then
       then_s (upd_top (\<lambda>d. d\<lparr>st_data := set_field f (string_of_bytes bs) (st_data d)\<rparr>)) (return_s (Some ()))
     else
       then_s (push_state Header_readstring next_state (l - length bs) (Frame_string f) (length bs) 0
                 (string_of_bytes bs @ replicate (l - length bs) (CHR 0x00)))
         (return_s None))"

definition read_string :: "string_field \<Rightarrow> state_type \<Rightarrow> unit option ar" where
  "read_string f next_state =
     bind_s (read_number :: 16 word option ar) (\<lambda>r. case r of
       None \<Rightarrow> return_s None
     | Some l \<Rightarrow> read_string_body (unat l) f next_state)"

definition read_string4 :: "string_field \<Rightarrow> state_type \<Rightarrow> unit option ar" where
  "read_string4 f next_state =
     bind_s read_uint_x (\<lambda>r. case r of
       None \<Rightarrow> return_s None
     | Some l \<Rightarrow> read_string_body (unat l) f next_state)"

section \<open>Steps\<close>

text \<open>
  The macro \<open>R\<close> leaves the function when bytes are missing.  A step is one \<open>case\<close> of the \<open>switch\<close>;
  \<open>None\<close> goes on with the loop.  A \<open>case\<close> that falls through has set the state of the one below.
\<close>

type_synonym step = "read_return option ar"

definition continue :: step where
  "continue = return_s None"

definition goto :: "state_type \<Rightarrow> step" where
  "goto st = then_s (set_state st) continue"

definition R :: "'a option ar \<Rightarrow> ('a \<Rightarrow> step) \<Rightarrow> step" where
  "R m k =
     bind_s m (\<lambda>r. case r of
       None \<Rightarrow> then_s prepare_continue (return_s (Some ReadReturn_continue_nobuffers))
     | Some x \<Rightarrow> k x)"

definition DO_POP_STATE :: step where
  "DO_POP_STATE = then_s pop_state continue"

text \<open>\<open>data<T>()\<close>: a static cast of the object of the top frame.\<close>

definition data_header :: "(message_header \<Rightarrow> 'a ar) \<Rightarrow> 'a ar" where
  "data_header k =
     bind_s top_frame (\<lambda>d. case st_data d of
       Frame_header h \<Rightarrow> k h | _ \<Rightarrow> fail_s (UndefinedBehaviour ''static cast to MessageHeader''))"

definition data_entry :: "(message_entry \<Rightarrow> 'a ar) \<Rightarrow> 'a ar" where
  "data_entry k =
     bind_s top_frame (\<lambda>d. case st_data d of
       Frame_entry e \<Rightarrow> k e | _ \<Rightarrow> fail_s (UndefinedBehaviour ''static cast to MessageEntry''))"

definition data_element :: "(MessageElement \<Rightarrow> 'a ar) \<Rightarrow> 'a ar" where
  "data_element k =
     bind_s top_frame (\<lambda>d. case st_data d of
       Frame_element e \<Rightarrow> k e | _ \<Rightarrow> fail_s (UndefinedBehaviour ''static cast to MessageElement''))"

definition data_message :: "(message \<Rightarrow> 'a ar) \<Rightarrow> 'a ar" where
  "data_message k =
     bind_s top_frame (\<lambda>d. case st_data d of
       Frame_message m \<Rightarrow> k m | _ \<Rightarrow> fail_s (UndefinedBehaviour ''static cast to Message''))"

definition set_data :: "frame_data \<Rightarrow> unit ar" where
  "set_data x = upd_top (\<lambda>d. d\<lparr>st_data := x\<rparr>)"

definition upd_header :: "(message_header \<Rightarrow> message_header) \<Rightarrow> unit ar" where
  "upd_header f = data_header (\<lambda>h. set_data (Frame_header (f h)))"

definition upd_entry :: "(message_entry \<Rightarrow> message_entry) \<Rightarrow> unit ar" where
  "upd_entry f = data_entry (\<lambda>e. set_data (Frame_entry (f e)))"

definition upd_element :: "(element_fields \<Rightarrow> element_fields) \<Rightarrow> unit ar" where
  "upd_element f = data_element (\<lambda>e. set_data (Frame_element (MessageElement (f (flds e)) (dat e))))"

definition param1 :: "nat ar" where
  "param1 = bind_s top_frame (\<lambda>d. return_s (st_param1 d))"

definition alloc :: "nat \<Rightarrow> unit ar" where
  "alloc n = (if n < 2 ^ 32 then return_s () else fail_s BadAlloc)"

text \<open>\<open>R(read_number(x)); state() = next;\<close>\<close>

definition R_header ::
  "'b option ar \<Rightarrow> ('b \<Rightarrow> message_header \<Rightarrow> message_header) \<Rightarrow> state_type \<Rightarrow> step" where
  "R_header m f st = R m (\<lambda>v. then_s (upd_header (f v)) (goto st))"

definition R_entry ::
  "'b option ar \<Rightarrow> ('b \<Rightarrow> message_entry \<Rightarrow> message_entry) \<Rightarrow> state_type \<Rightarrow> step" where
  "R_entry m f st = R m (\<lambda>v. then_s (upd_entry (f v)) (goto st))"

definition R_element ::
  "'b option ar \<Rightarrow> ('b \<Rightarrow> element_fields \<Rightarrow> element_fields) \<Rightarrow> state_type \<Rightarrow> step" where
  "R_element m f st = R m (\<lambda>v. then_s (upd_element (f v)) (goto st))"

definition R_string :: "unit option ar \<Rightarrow> state_type \<Rightarrow> step" where
  "R_string m st = R m (\<lambda>_. goto st)"

text \<open>\<open>Extended.resize(n)\<close>, and \<open>if (!Extended.empty()) R(read_all_bytes(&Extended[0], Extended.size()))\<close>.\<close>

definition read_extended :: "byte list \<Rightarrow> byte list option ar" where
  "read_extended ext = (if ext \<noteq> [] then read_all_bytes (length ext) else return_s (Some []))"

section \<open>States common to both versions\<close>

definition step_Message_init :: step where
  "step_Message_init s =
     (if ar_stack s = [] then Inl (UndefinedBehaviour ''state_stack[0]'')
      else goto MessageHeader_init
        (s\<lparr>ar_stack := butlast (ar_stack s) @ [(last (ar_stack s))\<lparr>st_data := Frame_message CreateMessage\<rparr>]\<rparr>))"

definition step_Message_done :: step where
  "step_Message_done =
     then_s prepare_continue
       (bind_s distance_from_limit (\<lambda>dist.
        if dist \<noteq> 0 then throw_s ProtocolException ''Message did not consume all data''
        else data_message (\<lambda>m s. Inr (Some ReadReturn_done, s\<lparr>ar_messages := ar_messages s @ [m]\<rparr>))))"

definition step_Message_readentries :: step where
  "step_Message_readentries =
     data_message (\<lambda>m. case header m of
       None \<Rightarrow> fail_s (UndefinedBehaviour ''null header'')
     | Some h \<Rightarrow>
         if length (entries m) \<ge> unat (EntryCount h) then goto Message_done else goto MessageEntry_init)"

definition step_MessageEntry_init :: step where
  "step_MessageEntry_init =
     bind_s distance_from_limit (\<lambda>dist.
       then_s (push_state MessageEntry_entrysize Message_readentries dist (Frame_entry CreateMessageEntry) 0 0 '''')
         continue)"

definition step_finish :: "string \<Rightarrow> step" where
  "step_finish what =
     bind_s distance_from_limit (\<lambda>dist.
       if dist \<noteq> 0 then throw_s ProtocolException what else DO_POP_STATE)"

definition step_MessageEntry_readelements :: step where
  "step_MessageEntry_readelements =
     data_entry (\<lambda>e. bind_s param1 (\<lambda>c.
       if length (elements e) \<ge> c then goto MessageEntry_finishread else goto MessageElement_init))"

definition step_new_element :: "state_type \<Rightarrow> step" where
  "step_new_element pop_st =
     bind_s distance_from_limit (\<lambda>dist.
       then_s (push_state MessageElement_elementsize pop_st dist (Frame_element CreateMessageElement) 0 0 '''')
         continue)"

text \<open>The size of an element, once it has been read at the position \<open>p\<close> of its first byte.\<close>

definition element_size :: "nat \<Rightarrow> 32 word \<Rightarrow> state_type \<Rightarrow> step" where
  "element_size p l st =
     (if l < 4 then throw_s ProtocolException ''Message element too short''
      else
        then_s (upd_element (\<lambda>f. f\<lparr>ElementSize := l\<rparr>))
          (bind_s top_frame (\<lambda>d.
           if size_add p (unat l) > st_limit d then throw_s ProtocolException ''Message element out of bounds''
           else then_s (set_limit (size_add p (unat l))) (goto st))))"

definition entry_size :: "nat \<Rightarrow> 32 word \<Rightarrow> state_type \<Rightarrow> step" where
  "entry_size p l st =
     then_s (upd_entry (\<lambda>e. e\<lparr>EntrySize := l\<rparr>))
       (if l < 4 then throw_s ProtocolException ''Message entry too short''
        else
          bind_s message_len (\<lambda>len.
          if size_add p (unat l) > len then throw_s ProtocolException ''Message entry out of bounds''
          else then_s (set_limit (size_add p (unat l))) (goto st)))"

definition step_MessageElement_readdata :: step where
  "step_MessageElement_readdata =
     data_element (\<lambda>el. case type_group (ElementType (flds el)) of
       Group_void \<Rightarrow> DO_POP_STATE
     | Group_array \<Rightarrow> goto MessageElement_readarray1
     | Group_nested \<Rightarrow> goto MessageElement_readnested1
     | Group_default \<Rightarrow> throw_s DataTypeException ''Invalid data type'')"

text \<open>\<open>l = el->ElementSize; el->SetData(a); el->ElementSize = l\<close>.\<close>

definition set_element_data :: "MessageElementData \<Rightarrow> MessageElement \<Rightarrow> MessageElement" where
  "set_element_data a el =
     (let el' = SetData (Some a) el in MessageElement ((flds el')\<lparr>ElementSize := ElementSize (flds el)\<rparr>) (dat el'))"

definition continue_buffers :: "nat \<Rightarrow> step" where
  "continue_buffers n = then_s prepare_continue (return_s (Some (ReadReturn_continue_buffers n)))"

definition step_MessageElement_readarray1 :: step where
  "step_MessageElement_readarray1 =
     data_element (\<lambda>el.
     bind_s (lift_s (RRArrayElementSize (ElementType (flds el)))) (\<lambda>k.
     then_s (alloc (k * unat (DataCount (flds el))))
    (bind_s (lift_s (AllocateRRArrayByType (ElementType (flds el)) (unat (DataCount (flds el))))) (\<lambda>a.
     let n = size_mul k (array_size a) in
     bind_s (read_some_bytes n) (\<lambda>bs.
     let p = length bs in
     if p \<ge> n then
       then_s (set_data (Frame_element (set_element_data (ArrayData (fill_array a bs)) el)))
         (goto MessageElement_finishreaddata)
     else
       then_s (set_data (Frame_element (set_element_data (ArrayData a) el)))
      (then_s (push_state MessageElement_readarray2 MessageElement_finishreaddata (n - p) (Frame_array a bs) p n '''')
      (then_s (set_state MessageElement_readarray2) (continue_buffers (n - p)))))))))"

text \<open>
  The bytes in \<open>ar_continue\<close> have been put behind the first \<open>param1\<close> bytes of the array by the
  caller; there may be at most \<open>param2 - param1\<close> of them.
\<close>

definition step_MessageElement_readarray2 :: step where
  "step_MessageElement_readarray2 =
     bind_s top_frame (\<lambda>d s.
       case st_data d of
         Frame_array a bs \<Rightarrow>
           (let l = size_sub (st_param2 d) (st_param1 d); cl = length (ar_continue s) in
            if ar_buf s \<noteq> [] then
              Inl (Exn InvalidOperationException ''Invalid stream position for async read'')
            else if ar_other s \<noteq> [] \<and> cl \<noteq> 0 then
              Inl (Exn InvalidOperationException ''Cannot use other_bufs and continue_read_bufs at the same time'')
            else if cl = 0 then
              (let bs2 = take l (ar_other s); n2 = length bs2;
                   s = s\<lparr>ar_other := drop n2 (ar_other s), ar_pos := size_add (ar_pos s) n2\<rparr> in
               if n2 \<ge> l then
                 then_s (set_data (Frame_array a (bs @ bs2))) DO_POP_STATE s
               else
                 then_s (upd_top (\<lambda>d. d\<lparr>st_data := Frame_array a (bs @ bs2), st_param1 := size_add (st_param1 d) n2,
                                        st_state := MessageElement_readarray2\<rparr>))
                   (continue_buffers (l - n2)) s)
            else
              (let p1 = size_add (st_param1 d) cl; cs = ar_continue s;
                   s = s\<lparr>ar_continue := [], ar_pos := size_add (ar_pos s) cl\<rparr> in
               if p1 > st_param2 d then Inl (Exn ProtocolException ''Stream reading error'')
               else
                 then_s (upd_top (\<lambda>d. d\<lparr>st_data := Frame_array a (bs @ cs), st_param1 := p1\<rparr>))
                   (if p1 < st_param2 d then continue_buffers (st_param2 d - p1) else DO_POP_STATE) s))
       | _ \<Rightarrow> Inl (UndefinedBehaviour ''static cast to RRBaseArray''))"

definition step_MessageElement_readnested1 :: step where
  "step_MessageElement_readnested1 =
     data_element (\<lambda>el.
     then_s (alloc (4 * unat (DataCount (flds el))))
    (then_s (set_data (Frame_element
        (set_element_data (NestedElementList (ElementType (flds el)) (ElementTypeName (flds el)) []) el)))
    (bind_s distance_from_limit (\<lambda>dist.
     then_s (push_state MessageElement_readnested2 MessageElement_finishreaddata dist
               (Frame_nested (ElementType (flds el)) (ElementTypeName (flds el)) [])
               (unat (DataCount (flds el))) 0 '''')
       continue))))"

definition step_MessageElement_readnested2 :: step where
  "step_MessageElement_readnested2 =
     bind_s top_frame (\<lambda>d. case st_data d of
       Frame_nested t n es \<Rightarrow>
         if length es \<ge> st_param1 d then DO_POP_STATE else goto MessageElement_readnested3
     | _ \<Rightarrow> fail_s (UndefinedBehaviour ''static cast to MessageElementNestedElementList''))"

text \<open>\<open>s.at(p1)\<close> throws \<open>std::out_of_range\<close> past the end; it is never reached there.\<close>

definition step_Header_readstring :: step where
  "step_Header_readstring =
     bind_s top_frame (\<lambda>d.
     let p1 = st_param1 d; s = st_param3 d in
     if \<not> p1 < length s then fail_s (UndefinedBehaviour ''out_of_range'')
     else
       bind_s (read_some_bytes (length s - p1)) (\<lambda>bs.
       let s = take p1 s @ string_of_bytes bs @ drop (p1 + length bs) s; p1 = p1 + length bs in
       then_s (upd_top (\<lambda>d. d\<lparr>st_param1 := p1, st_param3 := s\<rparr>))
         (if p1 = length s then
            (case st_data d of
               Frame_string f \<Rightarrow>
                 then_s pop_state
                   (then_s (upd_top (\<lambda>d. d\<lparr>st_data := set_field f s (st_data d)\<rparr>)) continue)
             | _ \<Rightarrow> fail_s (UndefinedBehaviour ''null ptrdata''))
          else R (return_s None :: unit option ar) (\<lambda>_. continue))))"

fun step_common :: "state_type \<Rightarrow> step" where
  "step_common Message_init = step_Message_init"
| "step_common Message_done = step_Message_done"
| "step_common Message_readentries = step_Message_readentries"
| "step_common MessageEntry_init = step_MessageEntry_init"
| "step_common MessageEntry_finishread = step_finish ''MessageEntry did not consume all data''"
| "step_common MessageEntry_readelements = step_MessageEntry_readelements"
| "step_common MessageElement_init = step_new_element MessageEntry_readelements"
| "step_common MessageElement_readdata = step_MessageElement_readdata"
| "step_common MessageElement_finishreaddata = step_finish ''Element did not consume all data''"
| "step_common MessageElement_readarray1 = step_MessageElement_readarray1"
| "step_common MessageElement_readarray2 = step_MessageElement_readarray2"
| "step_common MessageElement_readnested1 = step_MessageElement_readnested1"
| "step_common MessageElement_readnested2 = step_MessageElement_readnested2"
| "step_common MessageElement_readnested3 = step_new_element MessageElement_readnested2"
| "step_common Header_readstring = step_Header_readstring"
| "step_common _ = throw_s InvalidOperationException ''Invalid read state''"

text \<open>The loop; \<open>None\<close> would be a loop that never ends.\<close>

partial_function (option) read_loop ::
  "step \<Rightarrow> async_reader \<Rightarrow> (read_return \<times> async_reader) result option" where
  "read_loop m s =
     (case m s of
        Inl e \<Rightarrow> Some (Inl e)
      | Inr (r, s) \<Rightarrow> (case r of None \<Rightarrow> read_loop m s | Some x \<Rightarrow> Some (Inr (x, s))))"

definition AsyncMessageReader_Reset :: "async_reader \<Rightarrow> async_reader" where
  "AsyncMessageReader_Reset s =
     \<lparr>ar_version = 2,
      ar_stack = [\<lparr>st_state = Message_init, st_pop_state = Message_init, st_limit = 12,
                   st_data = Frame_message CreateMessage, st_param1 = 0, st_param2 = 0, st_param3 = ''''\<rparr>],
      ar_buf = [], ar_other = ar_other s, ar_continue = [], ar_messages = [], ar_pos = 0\<rparr>"

text \<open>The constructor resets the object.\<close>

definition AsyncMessageReaderImpl :: async_reader where
  "AsyncMessageReaderImpl =
     AsyncMessageReader_Reset
       \<lparr>ar_version = 0, ar_stack = [], ar_buf = [], ar_other = [], ar_continue = [], ar_messages = [], ar_pos = 0\<rparr>"

definition MessageReady :: "async_reader \<Rightarrow> bool" where
  "MessageReady s \<longleftrightarrow> ar_messages s \<noteq> []"

definition GetNextMessage :: "message ar" where
  "GetNextMessage s =
     (case ar_messages s of
        [] \<Rightarrow> Inl (Exn InvalidOperationException ''Message not ready'')
      | m # ms \<Rightarrow> Inr (m, s\<lparr>ar_messages := ms\<rparr>))"

text \<open>
  A call of \<open>Read\<close> or \<open>Read4\<close>: the loop over the steps of the version, from the new buffers.  The
  result is what is returned and \<open>other_bufs_used\<close>.
\<close>

definition read_call ::
  "step \<Rightarrow> byte list \<Rightarrow> byte list \<Rightarrow> async_reader \<Rightarrow> ((read_return \<times> nat) \<times> async_reader) result option" where
  "read_call m other_bufs continue_bytes s =
     map_option
       (\<lambda>r. bind_r r (\<lambda>(x, s). Inr ((x, length other_bufs - length (ar_other s)), s)))
       (read_loop m (s\<lparr>ar_other := other_bufs, ar_continue := continue_bytes\<rparr>))"

section \<open>Read4\<close>

text \<open>Reading a header: \<open>MessageHeader_init\<close> and the states up to \<open>Message_readentries\<close>.\<close>

definition step4_MessageHeader_init :: step where
  "step4_MessageHeader_init =
     bind_s available (\<lambda>a.
     if a < 12 then throw_s ProtocolException ''Initial message header not available''
     else
       bind_s (read_all_bytes 4) (\<lambda>magic.
       if magic \<noteq> Some (bytes_of_string ''RRAC'') then throw_s ProtocolException ''Invalid message magic''
       else
         bind_s (read_number_unchecked :: 32 word ar) (\<lambda>size.
         bind_s (read_number_unchecked :: 16 word ar) (\<lambda>v.
         then_s (\<lambda>s. Inr ((), s\<lparr>ar_version := v\<rparr>))
        (then_s (set_message_len (unat size))
        (then_s (push_state MessageHeader_headersize Message_readentries (size_sub (unat size) 10)
                  (Frame_header (CreateMessageHeader\<lparr>MessageSize := size\<rparr>)) 0 0 '''')
           continue))))))"

text \<open>\<open>if (flags & f) { R(m); } state() = next;\<close>\<close>

definition entry_when :: "byte \<Rightarrow> (message_entry \<Rightarrow> step) \<Rightarrow> state_type \<Rightarrow> step" where
  "entry_when f m st = data_entry (\<lambda>e. if flag_set (EntryFlags e) f then m e else goto st)"

definition element_when :: "byte \<Rightarrow> (MessageElement \<Rightarrow> step) \<Rightarrow> state_type \<Rightarrow> step" where
  "element_when f m st = data_element (\<lambda>e. if flag_set (ElementFlags (flds e)) f then m e else goto st)"

fun step4_element :: "state_type \<Rightarrow> step" where
  "step4_element MessageElement_elementsize =
     bind_s message_pos (\<lambda>p. R read_uint_x (\<lambda>l. element_size p l MessageElement_elementflags))"
| "step4_element MessageElement_elementflags =
     R_element (read_number :: 8 word option ar) (\<lambda>v f. f\<lparr>ElementFlags := v\<rparr>) MessageElement_elementnamestr"
| "step4_element MessageElement_elementnamestr =
     element_when MessageElementFlags_ELEMENT_NAME_STR
       (\<lambda>_. R_string (read_string4 Field_ElementName MessageElement_elementnamecode) MessageElement_elementnamecode)
       MessageElement_elementnamecode"
| "step4_element MessageElement_elementnamecode =
     element_when MessageElementFlags_ELEMENT_NAME_CODE
       (\<lambda>_. R_element read_uint_x (\<lambda>v f. f\<lparr>ElementNameCode := v\<rparr>) MessageElement_elementnumber)
       MessageElement_elementnumber"
| "step4_element MessageElement_elementnumber =
     element_when MessageElementFlags_ELEMENT_NUMBER
       (\<lambda>_. R_element read_int_x (\<lambda>v f. f\<lparr>ElementNumber := v\<rparr>) MessageElement_elementtype)
       MessageElement_elementtype"
| "step4_element MessageElement_elementtype =
     R_element (read_number :: 16 word option ar) (\<lambda>v f. f\<lparr>ElementType := DataTypes_of_code v\<rparr>)
       MessageElement_elementtypestr"
| "step4_element MessageElement_elementtypestr =
     element_when MessageElementFlags_ELEMENT_TYPE_NAME_STR
       (\<lambda>_. R_string (read_string4 Field_ElementTypeName MessageElement_elementtypecode) MessageElement_elementtypecode)
       MessageElement_elementtypecode"
| "step4_element MessageElement_elementtypecode =
     element_when MessageElementFlags_ELEMENT_TYPE_NAME_CODE
       (\<lambda>_. R_element read_uint_x (\<lambda>v f. f\<lparr>ElementTypeNameCode := v\<rparr>) MessageElement_metainfo)
       MessageElement_metainfo"
| "step4_element MessageElement_metainfo =
     element_when MessageElementFlags_META_INFO
       (\<lambda>_. R_string (read_string4 Field_ElementMetaData MessageElement_extended1) MessageElement_extended1)
       MessageElement_extended1"
| "step4_element MessageElement_extended1 =
     element_when MessageElementFlags_EXTENDED
       (\<lambda>_. R_element read_uint_x (\<lambda>n f. f\<lparr>ElementExtended := replicate (unat n) 0\<rparr>) MessageElement_extended2)
       MessageElement_datacount"
| "step4_element MessageElement_extended2 =
     data_element (\<lambda>e. R_element (read_extended (ElementExtended (flds e))) (\<lambda>v f. f\<lparr>ElementExtended := v\<rparr>)
       MessageElement_datacount)"
| "step4_element MessageElement_datacount =
     R_element read_uint_x (\<lambda>v f. f\<lparr>DataCount := v\<rparr>) MessageElement_readdata"
| "step4_element st = step_common st"

fun step4_entry :: "state_type \<Rightarrow> step" where
  "step4_entry MessageEntry_entrysize =
     bind_s message_pos (\<lambda>p. R read_uint_x (\<lambda>l. entry_size p l MessageEntry_entryflags))"
| "step4_entry MessageEntry_entryflags =
     R_entry (read_number :: 8 word option ar) (\<lambda>v e. e\<lparr>EntryFlags := v\<rparr>) MessageEntry_entrytype"
| "step4_entry MessageEntry_entrytype =
     R_entry (read_number :: 16 word option ar) (\<lambda>v e. e\<lparr>EntryType := v\<rparr>) MessageEntry_servicepathstr"
| "step4_entry MessageEntry_servicepathstr =
     entry_when MessageEntryFlags_SERVICE_PATH_STR
       (\<lambda>_. R_string (read_string4 Field_ServicePath MessageEntry_servicepathcode) MessageEntry_servicepathcode)
       MessageEntry_servicepathcode"
| "step4_entry MessageEntry_servicepathcode =
     entry_when MessageEntryFlags_SERVICE_PATH_CODE
       (\<lambda>_. R_entry read_uint_x (\<lambda>v e. e\<lparr>ServicePathCode := v\<rparr>) MessageEntry_membernamestr)
       MessageEntry_membernamestr"
| "step4_entry MessageEntry_membernamestr =
     entry_when MessageEntryFlags_MEMBER_NAME_STR
       (\<lambda>_. R_string (read_string4 Field_MemberName MessageEntry_membernamecode) MessageEntry_membernamecode)
       MessageEntry_membernamecode"
| "step4_entry MessageEntry_membernamecode =
     entry_when MessageEntryFlags_MEMBER_NAME_CODE
       (\<lambda>_. R_entry read_uint_x (\<lambda>v e. e\<lparr>MemberNameCode := v\<rparr>) MessageEntry_requestid)
       MessageEntry_requestid"
| "step4_entry MessageEntry_requestid =
     entry_when MessageEntryFlags_REQUEST_ID
       (\<lambda>_. R_entry read_uint_x (\<lambda>v e. e\<lparr>RequestID := v\<rparr>) MessageEntry_error)
       MessageEntry_error"
| "step4_entry MessageEntry_error =
     entry_when MessageEntryFlags_ERROR
       (\<lambda>_. R_entry (read_number :: 16 word option ar) (\<lambda>v e. e\<lparr>EntryError := v\<rparr>) MessageEntry_metainfo)
       MessageEntry_metainfo"
| "step4_entry MessageEntry_metainfo =
     entry_when MessageEntryFlags_META_INFO
       (\<lambda>_. R_string (read_string4 Field_EntryMetaData MessageEntry_extended1) MessageEntry_extended1)
       MessageEntry_extended1"
| "step4_entry MessageEntry_extended1 =
     entry_when MessageEntryFlags_EXTENDED
       (\<lambda>_. R_entry read_uint_x (\<lambda>n e. e\<lparr>EntryExtended := replicate (unat n) 0\<rparr>) MessageEntry_extended2)
       MessageEntry_elementcount"
| "step4_entry MessageEntry_extended2 =
     data_entry (\<lambda>e. R_entry (read_extended (EntryExtended e)) (\<lambda>v e. e\<lparr>EntryExtended := v\<rparr>)
       MessageEntry_elementcount)"
| "step4_entry MessageEntry_elementcount =
     data_entry (\<lambda>_. R read_uint_x (\<lambda>c.
       then_s (set_param1 (unat c)) (then_s (alloc (4 * unat c)) (goto MessageEntry_readelements))))"
| "step4_entry st = step4_element st"

text \<open>The states of the header; the others go to the functions above.\<close>

fun step4_header :: "state_type \<Rightarrow> step" where
  "step4_header MessageHeader_init = step4_MessageHeader_init"
|  "step4_header MessageHeader_headersize =
     R read_uint_x (\<lambda>l.
       then_s (set_limit (unat l)) (then_s (upd_header (\<lambda>h. h\<lparr>HeaderSize := l\<rparr>)) (goto MessageHeader_flags)))"
| "step4_header MessageHeader_flags =
     R_header (read_number :: 8 word option ar) (\<lambda>v h. h\<lparr>MessageFlags := v\<rparr>) MessageHeader_routing1"
| "step4_header MessageHeader_routing1 =
     data_header (\<lambda>h.
       if \<not> flag_set (MessageFlags h) MessageFlags_ROUTING_INFO then goto MessageHeader_endpoint1
       else R_header (read_all_bytes 16) (\<lambda>v h. h\<lparr>SenderNodeID := v\<rparr>) MessageHeader_routing2)"
| "step4_header MessageHeader_routing2 =
     R_header (read_all_bytes 16) (\<lambda>v h. h\<lparr>ReceiverNodeID := v\<rparr>) MessageHeader_routing3"
| "step4_header MessageHeader_routing3 =
     R_string (read_string4 Field_SenderNodeName MessageHeader_routing4) MessageHeader_routing4"
| "step4_header MessageHeader_routing4 =
     R_string (read_string4 Field_ReceiverNodeName MessageHeader_endpoint1) MessageHeader_endpoint1"
| "step4_header MessageHeader_endpoint1 =
     data_header (\<lambda>h.
       if \<not> flag_set (MessageFlags h) MessageFlags_ENDPOINT_INFO then goto MessageHeader_priority
       else R_header read_uint_x (\<lambda>v h. h\<lparr>SenderEndpoint := v\<rparr>) MessageHeader_endpoint2)"
| "step4_header MessageHeader_endpoint2 =
     R_header read_uint_x (\<lambda>v h. h\<lparr>ReceiverEndpoint := v\<rparr>) MessageHeader_priority"
| "step4_header MessageHeader_priority =
     data_header (\<lambda>h.
       if \<not> flag_set (MessageFlags h) MessageFlags_PRIORITY then goto MessageHeader_metainfo
       else R_header (read_number :: 16 word option ar) (\<lambda>v h. h\<lparr>Priority := v\<rparr>) MessageHeader_metainfo)"
| "step4_header MessageHeader_metainfo =
     data_header (\<lambda>h.
       if \<not> flag_set (MessageFlags h) MessageFlags_META_INFO then goto MessageHeader_stringtable1
       else R_string (read_string4 Field_HeaderMetaData MessageHeader_messageid1) MessageHeader_messageid1)"
| "step4_header MessageHeader_messageid1 =
     R_header (read_number :: 16 word option ar) (\<lambda>v h. h\<lparr>MessageID := v\<rparr>) MessageHeader_messageid2"
| "step4_header MessageHeader_messageid2 =
     R_header (read_number :: 16 word option ar) (\<lambda>v h. h\<lparr>MessageResID := v\<rparr>) MessageHeader_stringtable1"
| "step4_header MessageHeader_stringtable1 =
     data_header (\<lambda>h.
       if \<not> flag_set (MessageFlags h) MessageFlags_STRING_TABLE then goto MessageHeader_entrycount
       else R read_uint_x (\<lambda>n. then_s (set_param1 (unat n)) (goto MessageHeader_stringtable2)))"
| "step4_header MessageHeader_stringtable2 =
     bind_s param1 (\<lambda>c.
       if c = 0 then goto MessageHeader_entrycount
       else
         R read_uint_x (\<lambda>code.
           then_s (upd_header (\<lambda>h. h\<lparr>StringTable := StringTable h @ [(code, '''')]\<rparr>))
             (then_s (set_param1 (c - 1)) (goto MessageHeader_stringtable3))))"
| "step4_header MessageHeader_stringtable3 =
     R_string (read_string4 Field_StringTable MessageHeader_stringtable2) MessageHeader_stringtable2"
| "step4_header MessageHeader_entrycount =
     data_header (\<lambda>h.
       if \<not> flag_set (MessageFlags h) MessageFlags_MULTIPLE_ENTRIES then
         then_s (upd_header (\<lambda>h. h\<lparr>EntryCount := 1\<rparr>)) (goto MessageHeader_extended1)
       else
         R read_uint_x (\<lambda>c.
           if unat c > 65535 then throw_s ProtocolException ''Too many entries in message''
           else
             bind_s (lift_s (numeric_cast_u16 (unat c))) (\<lambda>n.
               then_s (upd_header (\<lambda>h. h\<lparr>EntryCount := n\<rparr>)) (goto MessageHeader_extended1))))"
| "step4_header MessageHeader_extended1 =
     data_header (\<lambda>h.
       if \<not> flag_set (MessageFlags h) MessageFlags_EXTENDED then then_s pop_state (goto Message_readentries)
       else R read_uint_x (\<lambda>n.
         then_s (upd_header (\<lambda>h. h\<lparr>HeaderExtended := replicate (unat n) 0\<rparr>)) (goto MessageHeader_extended2)))"
| "step4_header MessageHeader_extended2 =
     data_header (\<lambda>h.
       R (read_extended (HeaderExtended h)) (\<lambda>ext.
         then_s (upd_header (\<lambda>h. h\<lparr>HeaderExtended := ext\<rparr>)) (then_s pop_state (goto Message_readentries))))"
| "step4_header st = step4_entry st"

definition step4 :: step where
  "step4 = bind_s top_frame (\<lambda>d. step4_header (st_state d))"

definition AsyncMessageReader_Read4 ::
  "byte list \<Rightarrow> byte list \<Rightarrow> async_reader \<Rightarrow> ((read_return \<times> nat) \<times> async_reader) result option" where
  "AsyncMessageReader_Read4 = read_call step4"

section \<open>Read\<close>

definition step2_MessageHeader_init :: step where
  "step2_MessageHeader_init =
     bind_s available (\<lambda>a.
     if a < 12 then throw_s ProtocolException ''Initial message header not available''
     else
       bind_s (read_all_bytes 4) (\<lambda>magic.
       if magic \<noteq> Some (bytes_of_string ''RRAC'') then throw_s ProtocolException ''Invalid message magic''
       else
         bind_s (read_number_unchecked :: 32 word ar) (\<lambda>size.
         bind_s (read_number_unchecked :: 16 word ar) (\<lambda>v.
         then_s (\<lambda>s. Inr ((), s\<lparr>ar_version := v\<rparr>))
        (bind_s (read_number :: 16 word option ar) (\<lambda>hs.
         let header_size = (case hs of None \<Rightarrow> 0 | Some v \<Rightarrow> v) in
         then_s (set_message_len (unat size))
        (then_s (push_state MessageHeader_routing1 Message_readentries (size_sub (unat header_size) 12)
                  (Frame_header (CreateMessageHeader\<lparr>MessageSize := size, HeaderSize := ucast header_size\<rparr>)) 0 0 '''')
           continue)))))))"

fun step2_element :: "state_type \<Rightarrow> step" where
  "step2_element MessageElement_elementsize =
     bind_s message_pos (\<lambda>p. R (read_number :: 32 word option ar) (\<lambda>l. element_size p l MessageElement_elementnamestr))"
| "step2_element MessageElement_elementnamestr =
     R_string (read_string Field_ElementName MessageElement_elementtype) MessageElement_elementtype"
| "step2_element MessageElement_elementtype =
     R_element (read_number :: 16 word option ar) (\<lambda>v f. f\<lparr>ElementType := DataTypes_of_code v\<rparr>)
       MessageElement_elementtypestr"
| "step2_element MessageElement_elementtypestr =
     R_string (read_string Field_ElementTypeName MessageElement_metainfo) MessageElement_metainfo"
| "step2_element MessageElement_metainfo =
     R_string (read_string Field_ElementMetaData MessageElement_datacount) MessageElement_datacount"
| "step2_element MessageElement_datacount =
     R_element (read_number :: 32 word option ar) (\<lambda>v f. f\<lparr>DataCount := v\<rparr>) MessageElement_readdata"
| "step2_element st = step_common st"

fun step2_entry :: "state_type \<Rightarrow> step" where
  "step2_entry MessageEntry_entrysize =
     bind_s message_pos (\<lambda>p. R (read_number :: 32 word option ar) (\<lambda>l. entry_size p l MessageEntry_entrytype))"
| "step2_entry MessageEntry_entrytype =
     R_entry (read_number :: 16 word option ar) (\<lambda>v e. e\<lparr>EntryType := v\<rparr>) MessageEntry_pad"
| "step2_entry MessageEntry_pad =
     R_entry (read_number :: 16 word option ar) (\<lambda>_ e. e) MessageEntry_servicepathstr"
| "step2_entry MessageEntry_servicepathstr =
     R_string (read_string Field_ServicePath MessageEntry_membernamestr) MessageEntry_membernamestr"
| "step2_entry MessageEntry_membernamestr =
     R_string (read_string Field_MemberName MessageEntry_requestid) MessageEntry_requestid"
| "step2_entry MessageEntry_requestid =
     R_entry (read_number :: 32 word option ar) (\<lambda>v e. e\<lparr>RequestID := v\<rparr>) MessageEntry_error"
| "step2_entry MessageEntry_error =
     R_entry (read_number :: 16 word option ar) (\<lambda>v e. e\<lparr>EntryError := v\<rparr>) MessageEntry_metainfo"
| "step2_entry MessageEntry_metainfo =
     R_string (read_string Field_EntryMetaData MessageEntry_elementcount) MessageEntry_elementcount"
| "step2_entry MessageEntry_elementcount =
     R (read_number :: 16 word option ar) (\<lambda>c.
       then_s (set_param1 (unat c)) (then_s (alloc (4 * unat c)) (goto MessageEntry_readelements)))"
| "step2_entry st = step2_element st"

fun step2_header :: "state_type \<Rightarrow> step" where
  "step2_header MessageHeader_init = step2_MessageHeader_init"
| "step2_header MessageHeader_routing1 =
     R_header (read_all_bytes 16) (\<lambda>v h. h\<lparr>SenderNodeID := v\<rparr>) MessageHeader_routing2"
| "step2_header MessageHeader_routing2 =
     R_header (read_all_bytes 16) (\<lambda>v h. h\<lparr>ReceiverNodeID := v\<rparr>) MessageHeader_endpoint1"
| "step2_header MessageHeader_endpoint1 =
     R_header (read_number :: 32 word option ar) (\<lambda>v h. h\<lparr>SenderEndpoint := v\<rparr>) MessageHeader_endpoint2"
| "step2_header MessageHeader_endpoint2 =
     R_header (read_number :: 32 word option ar) (\<lambda>v h. h\<lparr>ReceiverEndpoint := v\<rparr>) MessageHeader_routing3"
| "step2_header MessageHeader_routing3 =
     R_string (read_string Field_SenderNodeName MessageHeader_routing4) MessageHeader_routing4"
| "step2_header MessageHeader_routing4 =
     R_string (read_string Field_ReceiverNodeName MessageHeader_metainfo) MessageHeader_metainfo"
| "step2_header MessageHeader_metainfo =
     R_string (read_string Field_HeaderMetaData MessageHeader_entrycount) MessageHeader_entrycount"
| "step2_header MessageHeader_entrycount =
     R_header (read_number :: 16 word option ar) (\<lambda>v h. h\<lparr>EntryCount := v\<rparr>) MessageHeader_messageid1"
| "step2_header MessageHeader_messageid1 =
     R_header (read_number :: 16 word option ar) (\<lambda>v h. h\<lparr>MessageID := v\<rparr>) MessageHeader_messageid2"
| "step2_header MessageHeader_messageid2 =
     R (read_number :: 16 word option ar) (\<lambda>v.
       then_s (upd_header (\<lambda>h. h\<lparr>MessageResID := v\<rparr>)) (then_s pop_state (goto Message_readentries)))"
| "step2_header st = step2_entry st"

definition step2 :: step where
  "step2 = bind_s top_frame (\<lambda>d. step2_header (st_state d))"

definition AsyncMessageReader_Read ::
  "byte list \<Rightarrow> byte list \<Rightarrow> async_reader \<Rightarrow> ((read_return \<times> nat) \<times> async_reader) result option" where
  "AsyncMessageReader_Read = read_call step2"

end
