(* ===== verification/RR_Transport.thy ===== *)
theory RR_Transport
  imports RR_AsyncReader RR_Message2 RR_Message4
begin

unbundle bit_operations_syntax

text \<open>
  The receiving half of \<open>ASIOStreamBaseTransport\<close> (\<open>ASIOStreamBaseTransport.h\<close>,
  \<open>ASIOStreamBaseTransport.cpp\<close>): a chain of handlers, each of which ends in asking the stream for
  more bytes, in posting itself again, in a message, or in closing the connection.

  The bytes of the stream arrive between two handlers, in portions of any size that fits the
  buffers that were offered; \<open>stream_step\<close> is one such portion together with the handler it runs.
  Logging and the times of the last message are not part of the state.
\<close>

section \<open>State\<close>

text \<open>
  A region of memory offered to the stream: part of \<open>streamseed\<close>, part of \<open>recvbuf\<close>, or a
  continuation buffer of the resumable reader.
\<close>

datatype stream_buffer = Seed_buffer nat nat | Recv_buffer nat nat | Continue_buffer nat

fun stream_buffer_size :: "stream_buffer \<Rightarrow> nat" where
  "stream_buffer_size (Seed_buffer off n) = n"
| "stream_buffer_size (Recv_buffer off n) = n"
| "stream_buffer_size (Continue_buffer n) = n"

fun buffer_advance :: "nat \<Rightarrow> stream_buffer \<Rightarrow> stream_buffer" where
  "buffer_advance k (Seed_buffer off n) = Seed_buffer (off + k) (n - k)"
| "buffer_advance k (Recv_buffer off n) = Recv_buffer (off + k) (n - k)"
| "buffer_advance k (Continue_buffer n) = Continue_buffer (n - k)"

fun buffers_consume :: "stream_buffer list \<Rightarrow> nat \<Rightarrow> stream_buffer list" where
  "buffers_consume [] count = []"
| "buffers_consume (b # bs) count =
     (if count = 0 then b # bs
      else if count > stream_buffer_size b then buffers_consume bs (count - stream_buffer_size b)
      else buffer_advance count b # bs)"

definition buffers_size :: "stream_buffer list \<Rightarrow> nat" where
  "buffers_size bs = sum_list (map stream_buffer_size bs)"

text \<open>
  \<open>continue_memory\<close> is what the stream has put into the continuation buffers and the reader has not
  been told of.
\<close>

record stream_transport =
  tr_connected :: bool
  disable_async_io :: bool
  max_message_size :: int
  recv_large_transfer_authorized :: bool
  receiving :: bool
  recv_pause_request :: bool
  recv_paused :: bool
  send_version4 :: bool
  streamseed :: "byte list"
  recvbuf :: "byte list"
  recvbuf_pos :: nat
  recvbuf_end :: nat
  active_recv_bufs :: "stream_buffer list"
  continue_memory :: "byte list"
  tr_reader :: async_reader
  async_recv_size :: nat
  async_recv_pos :: nat
  async_recv_version :: "16 word"
  async_recv_continue_buf_count :: nat

text \<open>The constructor; the memory of the new buffers is uninitialised and here zero.\<close>

definition ASIOStreamBaseTransport :: stream_transport where
  "ASIOStreamBaseTransport =
     \<lparr>tr_connected = True, disable_async_io = True, max_message_size = 12 * 1024 * 1024,
      recv_large_transfer_authorized = False, receiving = False, recv_pause_request = False, recv_paused = False,
      send_version4 = False, streamseed = replicate 8 0, recvbuf = replicate 4096 0, recvbuf_pos = 0, recvbuf_end = 0,
      active_recv_bufs = [], continue_memory = [], tr_reader = AsyncMessageReaderImpl, async_recv_size = 0,
      async_recv_pos = 0, async_recv_version = 0, async_recv_continue_buf_count = 0\<rparr>"

text \<open>What the transport asks of the node and of the virtual functions of its subclass.\<close>

record transport_env =
  GetRemoteNodeID :: NodeID
  GetNode_NodeID :: NodeID
  GetNode_NodeName :: string
  GetRemoteEndpoint :: "32 word"
  GetLocalEndpoint :: "32 word"
  IsLargeTransferAuthorized :: bool

type_synonym 'a tr = "(stream_transport, 'a) sm"

datatype stream_handler = H_EndReceiveMessage1 nat | H_EndReceiveMessage2 nat nat | H_EndReceiveMessage5

datatype receive_action =
    Async_read_some "stream_buffer list" stream_handler
  | Post_receive nat
  | Received message
  | Close_transport

text \<open>\<open>std::min (l, 1024)\<close> limits what is asked for at once.\<close>

definition recv_chunk :: nat where
  "recv_chunk = 1024"

section \<open>Memory\<close>

definition store_bytes :: "nat \<Rightarrow> byte list \<Rightarrow> byte list \<Rightarrow> byte list result" where
  "store_bytes off bs mem =
     (if off + length bs \<le> length mem then Inr (take off mem @ bs @ drop (off + length bs) mem)
      else Inl (UndefinedBehaviour ''write outside the buffer''))"

text \<open>The stream fills the buffers in their order.\<close>

fun stream_fill :: "stream_buffer list \<Rightarrow> byte list \<Rightarrow> unit tr" where
  "stream_fill [] bs t = Inr ((), t)"
| "stream_fill (b # bufs) bs t =
     (let now = take (stream_buffer_size b) bs; later = drop (stream_buffer_size b) bs in
      case b of
        Seed_buffer off n \<Rightarrow> bind_r (store_bytes off now (streamseed t)) (\<lambda>mem. stream_fill bufs later (t\<lparr>streamseed := mem\<rparr>))
      | Recv_buffer off n \<Rightarrow> bind_r (store_bytes off now (recvbuf t)) (\<lambda>mem. stream_fill bufs later (t\<lparr>recvbuf := mem\<rparr>))
      | Continue_buffer n \<Rightarrow> stream_fill bufs later (t\<lparr>continue_memory := continue_memory t @ now\<rparr>))"

text \<open>What \<open>recvbuf\<close> holds between \<open>recvbuf_pos\<close> and \<open>recvbuf_end\<close>.\<close>

definition recvbuf_unread :: "stream_transport \<Rightarrow> byte list" where
  "recvbuf_unread t = take (recvbuf_end t - recvbuf_pos t) (drop (recvbuf_pos t) (recvbuf t))"

section \<open>Errors\<close>

text \<open>
  \<open>catch (std::exception&) { Close(); }\<close>: what a failed handler has changed is not looked at after
  \<open>Close\<close>, which is why the state before it is kept.
\<close>

definition Close :: "receive_action tr" where
  "Close t = Inr (Close_transport, t\<lparr>tr_connected := False\<rparr>)"

definition closing_on_exception :: "receive_action tr \<Rightarrow> receive_action tr" where
  "closing_on_exception m t =
     (case m t of
        Inl (UndefinedBehaviour e) \<Rightarrow> Inl (UndefinedBehaviour e)
      | Inl OutOfFuel \<Rightarrow> Inl OutOfFuel
      | Inl e \<Rightarrow> Close t
      | Inr r \<Rightarrow> Inr r)"

section \<open>Beginning to receive\<close>

definition BeginReceiveMessage1 :: "receive_action tr" where
  "BeginReceiveMessage1 t =
     (let t = t\<lparr>receiving := True\<rparr> in
      if disable_async_io t then Inr (Async_read_some [Seed_buffer 0 8] (H_EndReceiveMessage1 0), t)
      else
        Inr (Async_read_some [Recv_buffer 0 16] H_EndReceiveMessage5,
             t\<lparr>active_recv_bufs := [Recv_buffer 0 16], recvbuf_pos := 0, recvbuf_end := 0, async_recv_size := 0,
               async_recv_pos := 0, async_recv_version := 2, async_recv_continue_buf_count := 0\<rparr>))"

text \<open>The checks of the size that both ways of receiving make.\<close>

definition check_message_size :: "string \<Rightarrow> transport_env \<Rightarrow> 32 word \<Rightarrow> unit tr" where
  "check_message_size unauthorized env sz =
     bind_s (lift_s (numeric_cast_i32 (unat sz))) (\<lambda>n t.
     if n > max_message_size t then Inl (Exn ProtocolException ''Received too large a message'')
     else if \<not> recv_large_transfer_authorized t then
       (if IsLargeTransferAuthorized env then Inr ((), t\<lparr>recv_large_transfer_authorized := True\<rparr>)
        else if sz > 512 * 1024 then Inl (Exn ProtocolException unauthorized)
        else Inr ((), t))
     else Inr ((), t))"

text \<open>A message without routing information gets that of the connection.\<close>

definition restore_routing :: "transport_env \<Rightarrow> message \<Rightarrow> message result" where
  "restore_routing env m =
     (case header m of
        None \<Rightarrow> Inl (UndefinedBehaviour ''null header'')
      | Some h \<Rightarrow>
          let h1 = (if \<not> flag_set (MessageFlags h) MessageFlags_ROUTING_INFO
                    then h\<lparr>SenderNodeID := GetRemoteNodeID env, ReceiverNodeID := GetNode_NodeID env\<rparr> else h);
              h2 = (if \<not> flag_set (MessageFlags h) MessageFlags_ENDPOINT_INFO
                    then h1\<lparr>SenderEndpoint := GetRemoteEndpoint env, ReceiverEndpoint := GetLocalEndpoint env\<rparr> else h1)
          in Inr (m\<lparr>header := Some h2\<rparr>))"

section \<open>Receiving into one buffer\<close>

text \<open>
  The new \<open>recvbuf\<close> of a long message is uninitialised; it is filled before it is read.  The new
  length is computed with 32 bits.
\<close>

definition recvbuf_resize :: "32 word \<Rightarrow> unit tr" where
  "recvbuf_resize sz t =
     Inr ((), if length (recvbuf t) < unat sz then t\<lparr>recvbuf := replicate (unat (sz * 12 div 10)) 0\<rparr> else t)"

definition EndReceiveMessage1 :: "transport_env \<Rightarrow> nat \<Rightarrow> bool \<Rightarrow> nat \<Rightarrow> receive_action tr" where
  "EndReceiveMessage1 env startpos error bytes_transferred =
     (if error then Close
      else
        closing_on_exception (\<lambda>t.
        if bytes_transferred < 8 - startpos then
          let new_startpos = startpos + bytes_transferred in
          Inr (Async_read_some [Seed_buffer new_startpos (8 - new_startpos)] (H_EndReceiveMessage1 new_startpos), t)
        else
          let seed = take 4 (streamseed t); sz = of_nat (le_nat (take 4 (drop 4 (streamseed t)))) :: 32 word in
          if seed \<noteq> bytes_of_string ''RRAC'' then Inl (Exn ProtocolException ''Received invalid magic'')
          else if sz < 8 then Inl (Exn ProtocolException ''Received too small a message'')
          else
            then_s (check_message_size ''Received too large a message before authorized'' env sz)
           (then_s (recvbuf_resize sz)
           (\<lambda>t. bind_r (store_bytes 0 (streamseed t) (recvbuf t)) (\<lambda>mem.
              Inr (Async_read_some [Recv_buffer 8 (unat sz - 8)] (H_EndReceiveMessage2 8 (unat sz)),
                   t\<lparr>recvbuf := mem\<rparr>)))) t))"

definition deserialize_message :: "transport_env \<Rightarrow> message reads" where
  "deserialize_message env =
     bind_s (ReadString8 4) (\<lambda>_.
     bind_s (ReadNumber :: 32 word reads) (\<lambda>_.
     bind_s (ReadNumber :: 16 word reads) (\<lambda>message_version.
     then_s (Seek_r 0)
       (if message_version = 4
        then bind_s Message_Read4 (\<lambda>m. lift_s (restore_routing env m))
        else Message_Read))))"

definition EndReceiveMessage2 :: "transport_env \<Rightarrow> nat \<Rightarrow> nat \<Rightarrow> bool \<Rightarrow> nat \<Rightarrow> receive_action tr" where
  "EndReceiveMessage2 env startpos message_size error bytes_transferred =
     (if error then Close
      else
        closing_on_exception (\<lambda>t.
        if bytes_transferred < message_size - startpos then
          let new_startpos = startpos + bytes_transferred in
          Inr (Async_read_some [Recv_buffer new_startpos (message_size - new_startpos)]
                 (H_EndReceiveMessage2 new_startpos message_size), t)
        else
          bind_r (deserialize_message env (ArrayBinaryReader (recvbuf t) 0 message_size))
            (\<lambda>(m, _). Inr (Received m, t))))"

section \<open>Receiving with the resumable reader\<close>

text \<open>
  The first bytes of a message: the magic, the size and the version.  The result is the next
  action when there are not sixteen of them yet.
\<close>

definition receive_start :: "transport_env \<Rightarrow> receive_action option tr" where
  "receive_start env t =
     (if recvbuf_end t - recvbuf_pos t < 16 then
        Inr (Some (Async_read_some (active_recv_bufs t) H_EndReceiveMessage5), t)
      else
        let recvbuf1 = drop (recvbuf_pos t) (recvbuf t); magic = take 4 recvbuf1;
            sz = of_nat (le_nat (take 4 (drop 4 recvbuf1))) :: 32 word;
            message_version = of_nat (le_nat (take 2 (drop 8 recvbuf1))) :: 16 word in
        if magic \<noteq> bytes_of_string ''RRAC'' then Inl (Exn ProtocolException ''Received invalid magic'')
        else if sz < 16 then Inl (Exn ProtocolException ''Received too small a message'')
        else
          then_s (check_message_size ''Received too large a message before authorization'' env sz)
            (\<lambda>t. Inr (None, t\<lparr>async_recv_size := unat sz, async_recv_version := message_version,
                             tr_reader := AsyncMessageReader_Reset (tr_reader t)\<rparr>)) t)"

definition receive_begin :: "transport_env \<Rightarrow> nat \<Rightarrow> receive_action option tr" where
  "receive_begin env bytes_transferred t =
     (if async_recv_size t = 0 then
        (if length (active_recv_bufs t) \<noteq> 1 then Inl (Exn ProtocolException '''')
         else
           let t = t\<lparr>recvbuf_end := recvbuf_end t + bytes_transferred\<rparr> in
           receive_start env
             (if recvbuf_end t - recvbuf_pos t < 16
              then t\<lparr>active_recv_bufs := buffers_consume (active_recv_bufs t) bytes_transferred\<rparr> else t))
      else if async_recv_continue_buf_count t = 0 then
        Inr (None, t\<lparr>recvbuf_end := recvbuf_end t + bytes_transferred\<rparr>)
      else Inr (None, t))"

text \<open>\<open>Read\<close> or \<open>Read4\<close>, by the version of the message.\<close>

definition reader_call :: "exception_class \<Rightarrow> byte list \<Rightarrow> byte list \<Rightarrow> (read_return \<times> nat) tr" where
  "reader_call invalid bufs continue_bytes t =
     (let call = (if async_recv_version t = 2 then Some AsyncMessageReader_Read
                  else if async_recv_version t = 4 then Some AsyncMessageReader_Read4 else None) in
      case call of
        None \<Rightarrow> Inl (Exn invalid ''Received invalid message version'')
      | Some read \<Rightarrow>
          (case read bufs continue_bytes (tr_reader t) of
             None \<Rightarrow> Inl OutOfFuel
           | Some r \<Rightarrow> bind_r r (\<lambda>(x, rd). Inr (x, t\<lparr>tr_reader := rd\<rparr>))))"

text \<open>The unread bytes of \<open>recvbuf\<close> go to the reader.\<close>

definition read_recvbuf :: "string \<Rightarrow> read_return tr" where
  "read_recvbuf too_many t =
     bind_s (reader_call InvalidOperationException (recvbuf_unread t) []) (\<lambda>(ret, bufs_read) t.
       if bufs_read > recvbuf_end t - recvbuf_pos t then Inl (Exn ProtocolException too_many)
       else
         let t = t\<lparr>recvbuf_pos := recvbuf_pos t + bufs_read, async_recv_pos := async_recv_pos t + bufs_read\<rparr> in
         Inr (ret, if recvbuf_pos t = recvbuf_end t then t\<lparr>recvbuf_pos := 0, recvbuf_end := 0\<rparr> else t)) t"

definition receive_read :: "nat \<Rightarrow> read_return tr" where
  "receive_read bytes_transferred t =
     (if async_recv_continue_buf_count t = 0 then
        bind_s (read_recvbuf '''') (\<lambda>ret t.
          if (case ret of ReadReturn_continue_buffers _ \<Rightarrow> True | _ \<Rightarrow> False) \<and> recvbuf_end t \<noteq> 0
          then Inl (Exn ProtocolException ''Asyncio internal error'') else Inr (ret, t)) t
      else if async_recv_continue_buf_count t > length (active_recv_bufs t) then
        Inl (Exn ProtocolException ''Asyncio internal error'')
      else
        let continue_buffer_bytes = buffers_size (take (async_recv_continue_buf_count t) (active_recv_bufs t));
            b1 = min bytes_transferred continue_buffer_bytes;
            t = t\<lparr>recvbuf_end := recvbuf_end t + (bytes_transferred - b1)\<rparr> in
        if bytes_transferred > continue_buffer_bytes \<and> recvbuf_end t > length (recvbuf t)
        then Inl (Exn ProtocolException ''Asyncio internal error'')
        else if b1 > length (continue_memory t) then Inl (UndefinedBehaviour ''bytes that the stream has not written'')
        else
          bind_s (reader_call ProtocolException [] (take b1 (continue_memory t))) (\<lambda>(ret, bufs_read) t.
          if bufs_read \<noteq> 0 then Inl (Exn ProtocolException ''Asyncio internal error'')
          else
            let t = t\<lparr>async_recv_pos := async_recv_pos t + b1, continue_memory := []\<rparr> in
            if ret \<noteq> ReadReturn_done \<and> recvbuf_pos t \<noteq> recvbuf_end t then read_recvbuf ''Asyncio internal error'' t else Inr (ret, t)) t)"

text \<open>What to do next: go on with what is left in \<open>recvbuf\<close>, or ask for more.\<close>

definition receive_more :: "read_return \<Rightarrow> receive_action tr" where
  "receive_more ret t =
     (if recvbuf_pos t \<noteq> recvbuf_end t then
        let l1 = recvbuf_end t - recvbuf_pos t; l2 = length (recvbuf t) - recvbuf_pos t in
        if l2 < 128 \<and> l1 > l2 then Inl (UndefinedBehaviour ''memmove outside the buffer'')
        else
          let t = (if l2 < 128
                   then t\<lparr>recvbuf := take l1 (drop (recvbuf_pos t) (recvbuf t)) @ drop l1 (recvbuf t), recvbuf_pos := 0\<rparr>
                   else t);
              l3 = min (min l2 (size_sub (async_recv_size t) (async_recv_pos t))) recv_chunk in
          Inr (Post_receive l1,
               t\<lparr>recvbuf_end := recvbuf_pos t, active_recv_bufs := [Recv_buffer (async_recv_pos t) l3]\<rparr>)
      else
        let t = t\<lparr>recvbuf_pos := 0, recvbuf_end := 0\<rparr>; l3 = size_sub (async_recv_size t) (async_recv_pos t) in
        case ret of
          ReadReturn_continue_buffers l2 \<Rightarrow>
            (if l2 > l3 then Inl (Exn ProtocolException '''')
             else
               let l1 = min (min (length (recvbuf t)) (l3 - l2)) recv_chunk;
                   bufs = Continue_buffer l2 # (if l1 > 0 then [Recv_buffer 0 l1] else []) in
               Inr (Async_read_some bufs H_EndReceiveMessage5,
                    t\<lparr>async_recv_continue_buf_count := 1, active_recv_bufs := bufs, continue_memory := []\<rparr>))
        | _ \<Rightarrow>
            (let bufs = [Recv_buffer 0 (min (min (length (recvbuf t)) l3) recv_chunk)] in
             Inr (Async_read_some bufs H_EndReceiveMessage5,
                  t\<lparr>async_recv_continue_buf_count := 0, active_recv_bufs := bufs\<rparr>)))"

definition receive_next :: "transport_env \<Rightarrow> read_return \<Rightarrow> receive_action tr" where
  "receive_next env ret t =
     (if recvbuf_pos t > length (recvbuf t) then Inl (Exn ProtocolException ''Received message protocol error'')
      else if async_recv_pos t > async_recv_size t then
        Inl (Exn ProtocolException ''Received message protocol error'')
      else if ret = ReadReturn_done then
        (if async_recv_pos t \<noteq> async_recv_size t then Inl (Exn ProtocolException ''Message did not read all data'')
         else
           let t = t\<lparr>async_recv_size := 0, async_recv_pos := 0, async_recv_continue_buf_count := 0,
                     active_recv_bufs := []\<rparr> in
           if MessageReady (tr_reader t) then
             bind_r (GetNextMessage (tr_reader t)) (\<lambda>(m, rd).
             bind_r (restore_routing env m) (\<lambda>m.
             if recvbuf_pos t \<noteq> recvbuf_end t then Inl (Exn ProtocolException ''Still data in buffer'')
             else Inr (Received m, t\<lparr>tr_reader := rd\<rparr>)))
           else receive_more ret t)
      else receive_more ret t)"

definition EndReceiveMessage5 :: "transport_env \<Rightarrow> bool \<Rightarrow> nat \<Rightarrow> receive_action tr" where
  "EndReceiveMessage5 env error bytes_transferred =
     (if error \<or> bytes_transferred = 0 then Close
      else
        closing_on_exception
          (bind_s (receive_begin env bytes_transferred) (\<lambda>a. case a of
             Some a \<Rightarrow> return_s a
           | None \<Rightarrow> bind_s (receive_read bytes_transferred) (receive_next env))))"

section \<open>The stream\<close>

definition run_handler :: "transport_env \<Rightarrow> stream_handler \<Rightarrow> bool \<Rightarrow> nat \<Rightarrow> receive_action tr" where
  "run_handler env h error n =
     (case h of
        H_EndReceiveMessage1 startpos \<Rightarrow> EndReceiveMessage1 env startpos error n
      | H_EndReceiveMessage2 startpos message_size \<Rightarrow> EndReceiveMessage2 env startpos message_size error n
      | H_EndReceiveMessage5 \<Rightarrow> EndReceiveMessage5 env error n)"

text \<open>A portion of the stream arrives and its handler runs.\<close>

definition stream_arrives ::
  "transport_env \<Rightarrow> stream_buffer list \<Rightarrow> stream_handler \<Rightarrow> byte list \<Rightarrow> receive_action tr" where
  "stream_arrives env bufs h bs = then_s (stream_fill bufs bs) (run_handler env h False (length bs))"

text \<open>The transport, what it asks for, and what is still in the stream.\<close>

type_synonym stream_config = "stream_transport \<times> receive_action \<times> byte list"

inductive stream_step :: "transport_env \<Rightarrow> stream_config \<Rightarrow> stream_config \<Rightarrow> bool" for env where
  arrive: "bs \<noteq> [] \<Longrightarrow> length bs \<le> buffers_size bufs \<Longrightarrow> stream_arrives env bufs h bs t = Inr (a, t') \<Longrightarrow>
    stream_step env (t, Async_read_some bufs h, bs @ rest) (t', a, rest)"
| posted: "EndReceiveMessage5 env False n t = Inr (a, t') \<Longrightarrow>
    stream_step env (t, Post_receive n, rest) (t', a, rest)"

inductive_cases stream_step_readE: "stream_step env (t, Async_read_some bufs h, s) c"
inductive_cases stream_step_receivedE: "stream_step env (t, Received m, s) c"

section \<open>After a message\<close>

abbreviation (input) MessageEntryType_StreamOp :: "16 word" where "MessageEntryType_StreamOp \<equiv> 1"
abbreviation (input) MessageEntryType_StreamOpRet :: "16 word" where "MessageEntryType_StreamOpRet \<equiv> 2"
abbreviation (input) MessageEntryType_StreamCheckCapability :: "16 word"
  where "MessageEntryType_StreamCheckCapability \<equiv> 3"
abbreviation (input) MessageEntryType_StreamCheckCapabilityRet :: "16 word"
  where "MessageEntryType_StreamCheckCapabilityRet \<equiv> 4"
abbreviation (input) MessageEntryType_ConnectionTest :: "16 word" where "MessageEntryType_ConnectionTest \<equiv> 111"
abbreviation (input) MessageEntryType_ConnectionTestRet :: "16 word" where "MessageEntryType_ConnectionTestRet \<equiv> 112"

text \<open>
  What is done with a received message, and whether the transport reads on: a response that is sent,
  a request of the stream itself, or a message for the node; \<open>Receive_paused\<close> is the call of the
  handler that waits for the pause.
\<close>

datatype receive_event =
    Send_response message | StreamOp_message message | Capability_message message | Dispatch_message message
  | Receive_paused

definition EndReceiveMessage4 :: "(receive_event list \<times> receive_action option) tr" where
  "EndReceiveMessage4 t =
     (if recv_pause_request t then
        Inr (([Receive_paused], None), t\<lparr>receiving := False, recv_paused := True\<rparr>)
      else
        bind_s BeginReceiveMessage1 (\<lambda>a. return_s ([], Some a))
          (if recv_paused t then t\<lparr>recv_paused := False\<rparr> else t))"

text \<open>The answer to a heartbeat.\<close>

definition connection_test_response :: "transport_env \<Rightarrow> bool \<Rightarrow> message_header \<Rightarrow> message_entry \<Rightarrow> message" where
  "connection_test_response env send_4 h e =
     (let rh = CreateMessageHeader\<lparr>ReceiverNodeName := SenderNodeName h, SenderNodeName := GetNode_NodeName env,
                 ReceiverNodeID := SenderNodeID h, ReceiverEndpoint := SenderEndpoint h,
                 SenderEndpoint := ReceiverEndpoint h, SenderNodeID := GetNode_NodeID env\<rparr>;
          rh = (if send_4 then rh\<lparr>MessageFlags := MessageFlags rh AND NOT (MessageFlags_ROUTING_INFO OR MessageFlags_ENDPOINT_INFO)\<rparr>
                else rh);
          re = (CreateMessageEntry_named MessageEntryType_ConnectionTestRet (MemberName e))
                 \<lparr>RequestID := RequestID e, ServicePath := ServicePath e\<rparr> in
      \<lparr>header = Some rh, entries = [re]\<rparr>)"

definition EndReceiveMessage3 :: "transport_env \<Rightarrow> message \<Rightarrow> (receive_event list \<times> receive_action option) tr" where
  "EndReceiveMessage3 env m =
     (case entries m of
        [] \<Rightarrow> return_s ([], None)
      | e # _ \<Rightarrow>
          if EntryType e = MessageEntryType_ConnectionTest then
            bind_s EndReceiveMessage4 (\<lambda>(evs, a).
              case header m of
                None \<Rightarrow> fail_s (UndefinedBehaviour ''null header'')
              | Some h \<Rightarrow> (\<lambda>t. Inr ((evs @ [Send_response (connection_test_response env (send_version4 t) h e)], a), t)))
          else if EntryType e = MessageEntryType_ConnectionTestRet then EndReceiveMessage4
          else if EntryType e = MessageEntryType_StreamOp \<or> EntryType e = MessageEntryType_StreamOpRet then
            bind_s EndReceiveMessage4 (\<lambda>(evs, a). return_s (StreamOp_message m # evs, a))
          else if EntryType e = MessageEntryType_StreamCheckCapability
               \<or> EntryType e = MessageEntryType_StreamCheckCapabilityRet then
            bind_s EndReceiveMessage4 (\<lambda>(evs, a). return_s (Capability_message m # evs, a))
          else
            bind_s EndReceiveMessage4 (\<lambda>(evs, a). return_s (evs @ [Dispatch_message m], a)))"

section \<open>Pausing\<close>

definition AsyncPauseReceive :: "receive_event list tr" where
  "AsyncPauseReceive t =
     (if recv_pause_request t \<or> recv_paused t then Inl (Exn InvalidOperationException ''Already pausing'')
      else if \<not> receiving t then Inr ([Receive_paused], t\<lparr>recv_pause_request := True, recv_paused := True\<rparr>)
      else Inr ([], t\<lparr>recv_pause_request := True\<rparr>))"

definition AsyncResumeReceive :: "receive_action option tr" where
  "AsyncResumeReceive t =
     (if \<not> recv_pause_request t then Inr (None, t)
      else if recv_pause_request t \<and> \<not> recv_paused t then Inl (Exn InvalidOperationException ''Invalid operation'')
      else
        let t = t\<lparr>recv_pause_request := False, recv_paused := False\<rparr> in
        if \<not> tr_connected t then Inr (None, t)
        else if receiving t then Inr (None, t)
        else bind_s BeginReceiveMessage1 (\<lambda>a. return_s (Some a)) t)"

end
