(* ===== verification/RR_AsyncReader_Laws.thy ===== *)
theory RR_AsyncReader_Laws
  imports RR_AsyncReader RR_Message4_Laws
begin

text \<open>
  The resumable reader does not care how a message is cut into pieces: \<open>feeds\<close> says that a state
  of the machine takes a byte sequence, in whatever portions it arrives, to another state, and
  its laws give the byte sequences that the states of \<open>Read4\<close> and \<open>Read\<close> take.
\<close>

section \<open>Feeding a state\<close>

text \<open>What does not change while a message is read, a stack, a position, and the bytes at hand.\<close>

type_synonym config = "state_data list \<times> nat"

definition on :: "async_reader \<Rightarrow> config \<Rightarrow> byte list \<Rightarrow> byte list \<Rightarrow> async_reader" where
  "on s0 c buf oth =
     s0\<lparr>ar_stack := fst c, ar_buf := buf, ar_other := oth, ar_continue := [], ar_pos := snd c\<rparr>"

lemma on_simps [simp]:
  "ar_buf (on s0 c buf oth) = buf" "ar_other (on s0 c buf oth) = oth"
  "ar_continue (on s0 c buf oth) = []" "ar_stack (on s0 c buf oth) = fst c"
  "ar_pos (on s0 c buf oth) = snd c" "ar_version (on s0 c buf oth) = ar_version s0"
  "ar_messages (on s0 c buf oth) = ar_messages s0"
  by (simp_all add: on_def)

lemma on_updates [simp]:
  "(on s0 c buf oth)\<lparr>ar_stack := stk\<rparr> = on s0 (stk, snd c) buf oth"
  "(on s0 c buf oth)\<lparr>ar_pos := p\<rparr> = on s0 (fst c, p) buf oth"
  "(on s0 c buf oth)\<lparr>ar_buf := b\<rparr> = on s0 c b oth"
  "(on s0 c buf oth)\<lparr>ar_other := x\<rparr> = on s0 c buf x"
  by (simp_all add: on_def)

text \<open>A step that goes on uses bytes of the buffers of the call from the front.\<close>

definition suffix_of :: "byte list \<Rightarrow> byte list \<Rightarrow> bool" where
  "suffix_of ys xs \<longleftrightarrow> (\<exists>w. xs = w @ ys)"

lemma suffix_of_refl [simp]: "suffix_of xs xs"
  by (simp add: suffix_of_def)

lemma suffix_of_drop [simp]: "suffix_of (drop n xs) xs"
  unfolding suffix_of_def by (metis append_take_drop_id)

lemma suffix_of_Nil [simp]: "suffix_of [] xs" "suffix_of ys [] \<longleftrightarrow> ys = []"
  by (auto simp: suffix_of_def)

lemma suffix_of_trans: "suffix_of zs ys \<Longrightarrow> suffix_of ys xs \<Longrightarrow> suffix_of zs xs"
  by (auto simp: suffix_of_def)

definition goes :: "step \<Rightarrow> async_reader \<Rightarrow> async_reader \<Rightarrow> bool" where
  "goes m s s' \<longleftrightarrow> m s = Inr (None, s') \<and> suffix_of (ar_other s') (ar_other s)"

abbreviation goes_to :: "step \<Rightarrow> async_reader \<Rightarrow> async_reader \<Rightarrow> bool" where
  "goes_to m \<equiv> (goes m)\<^sup>*\<^sup>*"

lemma goes_suffix: "goes_to m s s' \<Longrightarrow> suffix_of (ar_other s') (ar_other s)"
  by (induction rule: rtranclp_induct) (auto simp: goes_def intro: suffix_of_trans)

lemma goes_det: "goes m s s1 \<Longrightarrow> goes m s s2 \<Longrightarrow> s1 = s2"
  by (simp add: goes_def)

text \<open>
  A caller that was offered a continuation buffer of \<open>n\<close> bytes may fill it or pass the bytes on:
  there is no difference, and they are all taken.
\<close>

definition fillable :: "step \<Rightarrow> async_reader \<Rightarrow> config \<Rightarrow> nat \<Rightarrow> bool" where
  "fillable m s0 c n \<longleftrightarrow>
     (\<forall>cs. cs \<noteq> [] \<longrightarrow> length cs \<le> n \<longrightarrow>
        (\<exists>x c'. m (on s0 c [] cs) = Inr (x, on s0 c' [] [])
          \<and> m ((on s0 c [] [])\<lparr>ar_continue := cs\<rparr>) = Inr (x, on s0 c' [] [])))"

definition waits ::
  "bool \<Rightarrow> step \<Rightarrow> async_reader \<Rightarrow> async_reader \<Rightarrow> read_return \<Rightarrow> config
    \<Rightarrow> byte list \<Rightarrow> byte list \<Rightarrow> byte list \<Rightarrow> bool" where
  "waits lv m s0 s r c buf oth ys \<longleftrightarrow>
     (\<exists>s1. goes_to m s s1 \<and> m s1 = Inr (Some r, on s0 c buf oth) \<and> suffix_of oth (ar_other s1))
     \<and> length buf + length oth \<le> length (ar_buf s) + length (ar_other s)
     \<and> (case r of
          ReadReturn_done \<Rightarrow> False
        | ReadReturn_continue_nobuffers \<Rightarrow> oth = [] \<or> lv
        | ReadReturn_continue_buffers n \<Rightarrow> buf = [] \<and> oth = [] \<and> fillable m s0 c n \<and> 0 < n \<and> n \<le> length ys)"

lemma waits_goes:
  assumes "goes_to m s s1" and "length (ar_buf s1) + length (ar_other s1) \<le> length (ar_buf s) + length (ar_other s)"
    and "waits lv m s0 s1 r c buf oth ys"
  shows "waits lv m s0 s r c buf oth ys"
proof -
  from assms(3) obtain s2 where s2: "goes_to m s1 s2" "m s2 = Inr (Some r, on s0 c buf oth)" "suffix_of oth (ar_other s2)"
    unfolding waits_def by blast
  from rtranclp_trans [OF assms(1) s2(1)] s2(2,3) assms(2,3) show ?thesis
    unfolding waits_def by (meson le_trans)
qed

lemma waits_more: "waits lv m s0 s r c buf oth ys \<Longrightarrow> waits lv m s0 s r c buf oth (ys @ cs)"
  by (auto simp: waits_def split: read_return.splits)

text \<open>
  With the bytes \<open>bs\<close> at hand the state goes to \<open>t\<close>; with fewer it waits in a state that takes
  what is left of \<open>bs\<close>.
\<close>

coinductive feeds ::
  "bool \<Rightarrow> step \<Rightarrow> async_reader \<Rightarrow> config \<Rightarrow> config \<Rightarrow> byte list \<Rightarrow> byte list \<Rightarrow> bool"
  for lv m s0 t where
  feedsI:
  "(\<And>oth zs. buf @ oth = bs @ zs \<Longrightarrow> length (buf @ oth) < 2 ^ 32 \<Longrightarrow>
      \<exists>buf' oth'. goes_to m (on s0 c buf oth) (on s0 t buf' oth') \<and> buf' @ oth' = zs) \<Longrightarrow>
   (\<And>oth ys. bs = (buf @ oth) @ ys \<Longrightarrow> ys \<noteq> [] \<Longrightarrow> length (buf @ oth) < 2 ^ 32 \<Longrightarrow>
      \<exists>r c' buf' oth'. waits lv m s0 (on s0 c buf oth) r c' buf' oth' ys
        \<and> feeds lv m s0 t c' buf' ((buf' @ oth') @ ys)) \<Longrightarrow>
   feeds lv m s0 t c buf bs"

lemma feeds_all:
  assumes "feeds lv m s0 t c buf bs" and "buf @ oth = bs @ zs" and "length (buf @ oth) < 2 ^ 32"
  obtains buf' oth' where "goes_to m (on s0 c buf oth) (on s0 t buf' oth')" and "buf' @ oth' = zs"
  using assms by (cases rule: feeds.cases) blast

lemma feeds_part:
  assumes "feeds lv m s0 t c buf bs" and "bs = (buf @ oth) @ ys" and "ys \<noteq> []" and "length (buf @ oth) < 2 ^ 32"
  obtains r c' buf' oth' where "waits lv m s0 (on s0 c buf oth) r c' buf' oth' ys"
    and "feeds lv m s0 t c' buf' ((buf' @ oth') @ ys)"
  using assms by (cases rule: feeds.cases) blast

lemma append_split_less:
  assumes "xs @ cs = zs @ ys" and "length zs < length xs"
  obtains us where "xs = zs @ us" and "ys = us @ cs" and "us \<noteq> []"
proof -
  define us where "us = drop (length zs) xs"
  have "take (length zs) xs = zs"
    using arg_cong [OF assms(1), of "take (length zs)"] assms(2) by simp
  then have xs: "xs = zs @ us" unfolding us_def by (metis append_take_drop_id)
  with assms(1) have "ys = us @ cs" by simp
  moreover have "us \<noteq> []" using assms(2) xs by auto
  ultimately show thesis using xs that by blast
qed

lemma append_split_le:
  assumes "xs @ cs = zs @ ys" and "length xs \<le> length zs"
  obtains us where "zs = xs @ us" and "cs = us @ ys"
proof -
  define us where "us = drop (length xs) zs"
  have "take (length xs) zs = xs"
    using arg_cong [OF assms(1), of "take (length xs)"] assms(2) by simp
  then have zs: "zs = xs @ us" unfolding us_def by (metis append_take_drop_id)
  with assms(1) have "cs = us @ ys" by simp
  with zs show thesis using that by blast
qed

text \<open>A segment: from one configuration to another, whatever is in the internal buffer.\<close>

definition seg :: "bool \<Rightarrow> step \<Rightarrow> async_reader \<Rightarrow> config \<Rightarrow> byte list \<Rightarrow> config \<Rightarrow> bool" where
  "seg lv m s0 c bs t \<longleftrightarrow> (\<forall>buf. feeds lv m s0 t c buf bs)"

text \<open>Coinduction, with the two cases apart.\<close>

lemma feeds_coinduct:
  assumes X: "X c buf bs"
    and all: "\<And>c buf bs oth zs. X c buf bs \<Longrightarrow> buf @ oth = bs @ zs \<Longrightarrow> length (buf @ oth) < 2 ^ 32 \<Longrightarrow>
      \<exists>buf' oth'. goes_to m (on s0 c buf oth) (on s0 t buf' oth') \<and> buf' @ oth' = zs"
    and part: "\<And>c buf bs oth ys. X c buf bs \<Longrightarrow> bs = (buf @ oth) @ ys \<Longrightarrow> ys \<noteq> [] \<Longrightarrow>
      length (buf @ oth) < 2 ^ 32 \<Longrightarrow>
      \<exists>r c' buf' oth'. waits lv m s0 (on s0 c buf oth) r c' buf' oth' ys
        \<and> (X c' buf' ((buf' @ oth') @ ys) \<or> feeds lv m s0 t c' buf' ((buf' @ oth') @ ys))"
  shows "feeds lv m s0 t c buf bs"
proof (rule feeds.coinduct [of X, OF X])
  fix c buf bs assume x: "X c buf bs"
  show "\<exists>buf' bs' c'. c = c' \<and> buf = buf' \<and> bs = bs'
      \<and> (\<forall>oth zs. buf' @ oth = bs' @ zs \<longrightarrow> length (buf' @ oth) < 2 ^ 32 \<longrightarrow>
           (\<exists>buf'' oth'. goes_to m (on s0 c' buf' oth) (on s0 t buf'' oth') \<and> buf'' @ oth' = zs))
      \<and> (\<forall>oth ys. bs' = (buf' @ oth) @ ys \<longrightarrow> ys \<noteq> [] \<longrightarrow> length (buf' @ oth) < 2 ^ 32 \<longrightarrow>
           (\<exists>r c'' buf'' oth'. waits lv m s0 (on s0 c' buf' oth) r c'' buf'' oth' ys
              \<and> (X c'' buf'' ((buf'' @ oth') @ ys) \<or> feeds lv m s0 t c'' buf'' ((buf'' @ oth') @ ys))))"
    apply (rule exI [of _ buf], rule exI [of _ bs], rule exI [of _ c])
    apply (intro conjI refl allI impI)
    subgoal by (rule all [OF x])
    subgoal by (rule part [OF x])
    done
qed

lemma feeds_trans:
  assumes "feeds lv m s0 d c buf bs" and "seg lv m s0 d cs t"
  shows "feeds lv m s0 t c buf (bs @ cs)"
proof -
  have d: "feeds lv m s0 t d b cs" for b using assms(2) by (simp add: seg_def)
  define X where "X = (\<lambda>c buf bs'. \<exists>bs. bs' = bs @ cs \<and> feeds lv m s0 d c buf bs)"
  have "X c buf (bs @ cs)" using assms(1) by (auto simp: X_def)
  then show ?thesis
  proof (rule feeds_coinduct)
    fix c buf bs' oth zs
    assume "X c buf bs'" and p: "buf @ oth = bs' @ zs" "length (buf @ oth) < 2 ^ 32"
    then obtain bs where bs: "bs' = bs @ cs" and f: "feeds lv m s0 d c buf bs" by (auto simp: X_def)
    have "buf @ oth = bs @ (cs @ zs)" using p(1) bs by simp
    from feeds_all [OF f this p(2)] obtain buf1 oth1 where
      1: "goes_to m (on s0 c buf oth) (on s0 d buf1 oth1)" "buf1 @ oth1 = cs @ zs"
      by blast
    have len: "length (buf1 @ oth1) < 2 ^ 32" using 1(2) p bs by simp
    from feeds_all [OF d 1(2) len] obtain buf2 oth2 where
      2: "goes_to m (on s0 d buf1 oth1) (on s0 t buf2 oth2)" "buf2 @ oth2 = zs"
      by blast
    from rtranclp_trans [OF 1(1) 2(1)] 2(2)
    show "\<exists>buf' oth'. goes_to m (on s0 c buf oth) (on s0 t buf' oth') \<and> buf' @ oth' = zs" by blast
  next
    fix c buf bs' oth ys
    assume "X c buf bs'" and p: "bs' = (buf @ oth) @ ys" "ys \<noteq> []" "length (buf @ oth) < 2 ^ 32"
    then obtain bs where bs: "bs @ cs = (buf @ oth) @ ys" and f: "feeds lv m s0 d c buf bs" by (auto simp: X_def)
    show "\<exists>r c' buf' oth'. waits lv m s0 (on s0 c buf oth) r c' buf' oth' ys
        \<and> (X c' buf' ((buf' @ oth') @ ys) \<or> feeds lv m s0 t c' buf' ((buf' @ oth') @ ys))"
    proof (cases "length bs \<le> length (buf @ oth)")
      case True
      from append_split_le [OF bs this] obtain zs where z: "buf @ oth = bs @ zs" "cs = zs @ ys" by blast
      from feeds_all [OF f z(1) p(3)] obtain buf1 oth1 where
        1: "goes_to m (on s0 c buf oth) (on s0 d buf1 oth1)" "buf1 @ oth1 = zs"
        by blast
      have len: "length (buf1 @ oth1) < 2 ^ 32" using 1(2) p z by simp
      have "cs = (buf1 @ oth1) @ ys" using 1(2) z(2) by simp
      from feeds_part [OF d this p(2) len] obtain r c' buf' oth' where
        2: "waits lv m s0 (on s0 d buf1 oth1) r c' buf' oth' ys" "feeds lv m s0 t c' buf' ((buf' @ oth') @ ys)"
        by blast
      have "length buf1 + length oth1 \<le> length buf + length oth"
        using arg_cong [OF 1(2), of length] arg_cong [OF z(1), of length] by simp
      then have "waits lv m s0 (on s0 c buf oth) r c' buf' oth' ys" by (intro waits_goes [OF 1(1) _ 2(1)]) simp
      with 2(2) show ?thesis by blast
    next
      case False
      then have "length (buf @ oth) < length bs" by simp
      from append_split_less [OF bs this] obtain ys1 where
        y: "bs = (buf @ oth) @ ys1" "ys = ys1 @ cs" "ys1 \<noteq> []" by blast
      from feeds_part [OF f y(1,3) p(3)] obtain r c' buf' oth' where
        1: "waits lv m s0 (on s0 c buf oth) r c' buf' oth' ys1" "feeds lv m s0 d c' buf' ((buf' @ oth') @ ys1)"
        by blast
      have "(buf' @ oth') @ ys = ((buf' @ oth') @ ys1) @ cs" by (simp add: y(2))
      with 1(2) have "X c' buf' ((buf' @ oth') @ ys)" unfolding X_def by blast
      with waits_more [OF 1(1), of cs] y(2) show ?thesis by blast
    qed
  qed
qed

lemma segD: "seg lv m s0 c bs t \<Longrightarrow> feeds lv m s0 t c buf bs"
  by (simp add: seg_def)

lemma seg_trans: "seg lv m s0 c bs d \<Longrightarrow> seg lv m s0 d cs t \<Longrightarrow> seg lv m s0 c (bs @ cs) t"
  unfolding seg_def [of lv m s0 c] by (blast intro: feeds_trans)

lemma seg_Nil [simp]: "seg lv m s0 c [] c"
  unfolding seg_def by (intro allI feeds.feedsI) auto

text \<open>A step that needs no byte.\<close>

definition moves :: "step \<Rightarrow> async_reader \<Rightarrow> config \<Rightarrow> config \<Rightarrow> bool" where
  "moves m s0 c d \<longleftrightarrow> (\<forall>buf oth. m (on s0 c buf oth) = Inr (None, on s0 d buf oth))"

lemma moves_seg: "moves m s0 c d \<Longrightarrow> seg lv m s0 c [] d"
  unfolding seg_def moves_def
  by (intro allI feeds.feedsI) (fastforce simp: goes_def)+

lemma moves_seg_trans: "moves m s0 c d \<Longrightarrow> seg lv m s0 d bs t \<Longrightarrow> seg lv m s0 c bs t"
  using seg_trans [OF moves_seg] by fastforce

lemma seg_moves_trans: "seg lv m s0 c bs d \<Longrightarrow> moves m s0 d t \<Longrightarrow> seg lv m s0 c bs t"
  using seg_trans [OF _ moves_seg] by fastforce

section \<open>Taking bytes\<close>

text \<open>
  A reader that takes \<open>bs\<close> when they are there and leaves everything as it is when they are not all
  there yet.
\<close>

definition takes :: "'a option ar \<Rightarrow> byte list \<Rightarrow> 'a \<Rightarrow> bool" where
  "takes rd bs v \<longleftrightarrow>
     (\<forall>s0 d ds p buf oth.
        p + length bs \<le> st_limit d \<longrightarrow> st_limit d < 4294967296 \<longrightarrow> length buf + length oth < 4294967296 \<longrightarrow>
        (\<forall>zs. buf @ oth = bs @ zs \<longrightarrow>
           rd (on s0 (d # ds, p) buf oth) = Inr (Some v,
             on s0 (d # ds, p + length bs) (drop (length bs) buf) (drop (length bs - length buf) oth)))
        \<and> (\<forall>ys. bs = (buf @ oth) @ ys \<longrightarrow> ys \<noteq> [] \<longrightarrow>
           rd (on s0 (d # ds, p) buf oth) = Inr (None, on s0 (d # ds, p) buf oth)))"

lemma takesI:
  assumes "\<And>s0 d ds p buf oth zs. p + length bs \<le> st_limit d \<Longrightarrow> st_limit d < 4294967296 \<Longrightarrow>
      length buf + length oth < 4294967296 \<Longrightarrow> buf @ oth = bs @ zs \<Longrightarrow>
      rd (on s0 (d # ds, p) buf oth) = Inr (Some v,
        on s0 (d # ds, p + length bs) (drop (length bs) buf) (drop (length bs - length buf) oth))"
    and "\<And>s0 d ds p buf oth ys. p + length bs \<le> st_limit d \<Longrightarrow> st_limit d < 4294967296 \<Longrightarrow>
      length buf + length oth < 4294967296 \<Longrightarrow> bs = (buf @ oth) @ ys \<Longrightarrow> ys \<noteq> [] \<Longrightarrow>
      rd (on s0 (d # ds, p) buf oth) = Inr (None, on s0 (d # ds, p) buf oth)"
  shows "takes rd bs v"
  unfolding takes_def using assms by blast

lemma takes_all:
  assumes "takes rd bs v" and "p + length bs \<le> st_limit d" and "st_limit d < 4294967296"
    and "length buf + length oth < 4294967296" and "buf @ oth = bs @ zs"
  shows "rd (on s0 (d # ds, p) buf oth) = Inr (Some v,
    on s0 (d # ds, p + length bs) (drop (length bs) buf) (drop (length bs - length buf) oth))"
  using assms unfolding takes_def by blast

lemma takes_part:
  assumes "takes rd bs v" and "p + length bs \<le> st_limit d" and "st_limit d < 4294967296"
    and "length buf + length oth < 4294967296" and "bs = (buf @ oth) @ ys" and "ys \<noteq> []"
  shows "rd (on s0 (d # ds, p) buf oth) = Inr (None, on s0 (d # ds, p) buf oth)"
  using assms unfolding takes_def by blast

lemma rest_bytes: "buf @ oth = bs @ zs \<Longrightarrow> drop (length bs) buf @ drop (length bs - length buf) oth = zs"
proof -
  assume "buf @ oth = bs @ zs"
  then have "drop (length bs) (buf @ oth) = zs" by simp
  then show ?thesis by simp
qed

lemma size_sub_small [simp]: "b \<le> a \<Longrightarrow> a < 4294967296 \<Longrightarrow> size_sub a b = a - b"
proof -
  assume "b \<le> a" "a < 4294967296"
  then have "a + 2 ^ 32 - b = (a - b) + 2 ^ 32" and "a - b < 2 ^ 32" by simp_all
  then show ?thesis unfolding size_sub_def by (simp only: mod_add_self2 mod_less)
qed

lemma distance_on [simp]:
  "p \<le> st_limit d \<Longrightarrow> st_limit d < 4294967296 \<Longrightarrow>
   distance_from_limit (on s0 (d # ds, p) buf oth) = Inr (st_limit d - p, on s0 (d # ds, p) buf oth)"
  by (simp add: distance_from_limit_def bind_s_def top_frame_def message_pos_def)

lemma available_on [simp]:
  "length buf + length oth < 4294967296 \<Longrightarrow>
   available (on s0 c buf oth) = Inr (length buf + length oth, on s0 c buf oth)"
  by (simp add: available_def)

lemma read_some_bytes_on:
  assumes "p + len \<le> st_limit d" and "st_limit d < 4294967296"
  shows "read_some_bytes len (on s0 (d # ds, p) buf oth) =
    Inr (take len (buf @ oth),
      on s0 (d # ds, p + length (take len (buf @ oth))) (drop len buf) (drop (len - length buf) oth))"
proof (cases "len = 0")
  case True
  then show ?thesis by (simp add: read_some_bytes_def)
next
  case False
  have "p + length (take len (buf @ oth)) < 4294967296" using assms by simp
  then show ?thesis
    using assms False by (simp add: read_some_bytes_def Let_def)
qed

lemma read_some_all:
  assumes "p + length bs \<le> st_limit d" and "st_limit d < 4294967296" and "buf @ oth = bs @ zs"
  shows "read_some_bytes (length bs) (on s0 (d # ds, p) buf oth) =
    Inr (bs, on s0 (d # ds, p + length bs) (drop (length bs) buf) (drop (length bs - length buf) oth))"
proof -
  have take: "take (length bs) (buf @ oth) = bs" unfolding assms(3) by simp
  from read_some_bytes_on [OF assms(1,2), of s0 ds buf oth] show ?thesis by (simp only: take)
qed

lemma read_some_part:
  assumes "p + n \<le> st_limit d" and "st_limit d < 4294967296" and "buf @ oth = bs" and "length bs \<le> n"
  shows "read_some_bytes n (on s0 (d # ds, p) buf oth) = Inr (bs, on s0 (d # ds, p + length bs) [] [])"
proof -
  have "length bs = length buf + length oth" using assms(3) by auto
  then have "take n (buf @ oth) = bs" "drop n buf = []" "drop (n - length buf) oth = []"
    using assms(3,4) by simp_all
  with read_some_bytes_on [OF assms(1,2), of s0 ds buf oth] show ?thesis by (simp only:)
qed

lemma read_all_bytes_on:
  assumes "p + len \<le> st_limit d" and "st_limit d < 4294967296" and "length buf + length oth < 4294967296"
  shows "read_all_bytes len (on s0 (d # ds, p) buf oth) =
    (if length buf + length oth < len then Inr (None, on s0 (d # ds, p) buf oth)
     else Inr (Some (take len (buf @ oth)),
       on s0 (d # ds, p + len) (drop len buf) (drop (len - length buf) oth)))"
  using assms by (simp add: read_all_bytes_def read_some_bytes_on min_def del: take_append)

lemma takes_read_all: "takes (read_all_bytes (length bs)) bs bs"
proof (rule takesI, goal_cases)
  case (1 s0 d ds p buf oth zs)
  have "\<not> length buf + length oth < length bs" using arg_cong [OF 1(4), of length] by simp
  moreover have "take (length bs) (buf @ oth) = bs" unfolding 1(4) by simp
  ultimately show ?case using 1(1-3) by (simp only: read_all_bytes_on if_False)
next
  case (2 s0 d ds p buf oth ys)
  have "length buf + length oth < length bs" using 2(4,5) by simp
  then show ?case using 2(1-3) by (simp only: read_all_bytes_on if_True)
qed

lemma takes_read_all_bytes: "length bs = n \<Longrightarrow> takes (read_all_bytes n) bs bs"
  using takes_read_all by blast

lemma takes_map:
  assumes "takes rd bs v"
  shows "takes (bind_s rd (\<lambda>r. return_s (map_option f r))) bs (f v)"
proof (rule takesI, goal_cases)
  case 1
  show ?case by (simp add: bind_s_Inr [where m = rd, OF takes_all [OF assms 1]])
next
  case 2
  show ?case by (simp add: bind_s_Inr [where m = rd, OF takes_part [OF assms 2]])
qed

lemma takes_read_number:
  assumes "8 dvd LENGTH('n::len)"
  shows "takes (read_number :: 'n word option ar) (num_bytes v) v"
proof -
  have "of_nat (le_nat (num_bytes v)) = v" by (simp add: le_nat_num_bytes [OF assms])
  with takes_map [OF takes_read_all_bytes [OF length_num_bytes [of v]], of "\<lambda>bs. of_nat (le_nat bs) :: 'n word"]
  show ?thesis unfolding read_number_def by simp
qed

text \<open>Numbers of variable length: look at the first byte, and take the number when it is all there.\<close>

lemma drop_drop_bytes:
  "drop (n - length (drop k buf)) (drop (k - length buf) oth) = drop (k + n - length buf) oth"
proof -
  have "n - (length buf - k) + (k - length buf) = k + n - length buf" by arith
  then show ?thesis by (simp only: drop_drop length_drop)
qed

lemma num_bytes_byte [simp]: "num_bytes (b :: 8 word) = [b]"
proof -
  have "unat b mod 256 = unat b" using unat_u8_less [of b] by (rule mod_less)
  then show ?thesis by (simp add: num_bytes_def)
qed

lemma peek_byte_on:
  assumes "p < st_limit d" and "st_limit d < 4294967296"
  shows "peek_byte (on s0 (d # ds, p) buf oth) =
    Inr (case buf @ oth of [] \<Rightarrow> None | b # _ \<Rightarrow> Some b, on s0 (d # ds, p) buf oth)"
  using assms by (simp add: peek_byte_def)

lemma takes_peek:
  assumes all: "\<And>s0 d ds p buf oth zs. p + length (b # bs) \<le> st_limit d \<Longrightarrow> st_limit d < 4294967296 \<Longrightarrow>
      length buf + length oth < 4294967296 \<Longrightarrow> buf @ oth = (b # bs) @ zs \<Longrightarrow>
      k b (on s0 (d # ds, p) buf oth) = Inr (Some v,
        on s0 (d # ds, p + length (b # bs)) (drop (length (b # bs)) buf) (drop (length (b # bs) - length buf) oth))"
    and part: "\<And>s0 d ds p buf oth ys. p + length (b # bs) \<le> st_limit d \<Longrightarrow> st_limit d < 4294967296 \<Longrightarrow>
      length buf + length oth < 4294967296 \<Longrightarrow> b # bs = (buf @ oth) @ ys \<Longrightarrow> ys \<noteq> [] \<Longrightarrow> buf @ oth \<noteq> [] \<Longrightarrow>
      k b (on s0 (d # ds, p) buf oth) = Inr (None, on s0 (d # ds, p) buf oth)"
  shows "takes (bind_s peek_byte (\<lambda>x. case x of None \<Rightarrow> return_s None | Some b \<Rightarrow> k b)) (b # bs) v"
proof (rule takesI, goal_cases)
  case (1 s0 d ds p buf oth zs)
  then have "peek_byte (on s0 (d # ds, p) buf oth) = Inr (Some b, on s0 (d # ds, p) buf oth)"
    by (simp add: peek_byte_on)
  with all [OF 1] show ?case by simp
next
  case (2 s0 d ds p buf oth ys)
  show ?case
  proof (cases "buf @ oth = []")
    case True
    then have "peek_byte (on s0 (d # ds, p) buf oth) = Inr (None, on s0 (d # ds, p) buf oth)"
      using 2(1,2) by (simp add: peek_byte_on)
    then show ?thesis by simp
  next
    case False
    with 2(4) obtain ws where "buf @ oth = b # ws" by (cases "buf @ oth") auto
    then have "peek_byte (on s0 (d # ds, p) buf oth) = Inr (Some b, on s0 (d # ds, p) buf oth)"
      using 2(1,2) by (simp add: peek_byte_on)
    with part [OF 2 False] show ?thesis by simp
  qed
qed

lemma takes_byte_only:
  assumes "p + 1 \<le> st_limit d" and "st_limit d < 4294967296"
    and "length buf + length oth < 4294967296" and "buf @ oth = b # zs"
  shows "bind_s (read_number :: 8 word option ar) (\<lambda>_. return_s (Some v)) (on s0 (d # ds, p) buf oth) =
    Inr (Some v, on s0 (d # ds, p + 1) (drop 1 buf) (drop (1 - length buf) oth))"
proof -
  have "(read_number :: 8 word option ar) (on s0 (d # ds, p) buf oth) = Inr (Some b,
      on s0 (d # ds, p + 1) (drop 1 buf) (drop (1 - length buf) oth))"
    using takes_all [OF takes_read_number [of b], of p d buf oth zs] assms by simp
  then show ?thesis by simp
qed

lemma takes_payload:
  fixes a :: "'n::len word"
  assumes "8 dvd LENGTH('n)" and "n = Suc (LENGTH('n) div 8)"
  shows "takes (bind_s available (\<lambda>a1. if a1 < n then return_s None else
      bind_s (read_number :: 8 word option ar) (\<lambda>_.
      bind_s (read_number_unchecked :: 'n word ar) (\<lambda>x. return_s (Some (f x)))))) (b # num_bytes a) (f a)"
proof (rule takesI, goal_cases)
  case (1 s0 d ds p buf oth zs)
  let ?s = "on s0 (d # ds, p + 1) (drop 1 buf) (drop (1 - length buf) oth)"
  have zs: "drop 1 buf @ drop (1 - length buf) oth = num_bytes a @ zs"
    using rest_bytes [of buf oth "[b]"] 1(4) by simp
  have byte: "(read_number :: 8 word option ar) (on s0 (d # ds, p) buf oth) = Inr (Some b, ?s)"
    using takes_all [OF takes_read_number [of b], of p d buf oth "num_bytes a @ zs"] 1 by simp
  have "length (drop 1 buf) + length (drop (1 - length buf) oth) < 4294967296" using 1(3) by simp
  with takes_all [OF takes_read_number [OF assms(1), of a] _ _ _ zs, of "p + 1" d s0 ds] 1(1,2)
  have "(read_number :: 'n word option ar) ?s = Inr (Some a, on s0 (d # ds, p + 1 + length (num_bytes a))
      (drop (length (num_bytes a)) (drop 1 buf))
      (drop (length (num_bytes a) - length (drop 1 buf)) (drop (1 - length buf) oth)))"
    by (simp del: length_num_bytes length_drop drop_drop)
  then have "read_number_unchecked ?s = Inr (a, on s0 (d # ds, p + length (b # num_bytes a))
      (drop (length (b # num_bytes a)) buf) (drop (length (b # num_bytes a) - length buf) oth))"
    unfolding drop_drop_bytes by (simp add: read_number_unchecked_def)
  moreover have "\<not> length buf + length oth < n"
    using arg_cong [OF 1(4), of length] assms(2) by simp
  ultimately show ?case using 1(3) byte by simp
next
  case (2 s0 d ds p buf oth ys)
  have "length buf + length oth < n" using arg_cong [OF 2(4), of length] 2(5) assms(2) by (cases ys) auto
  with 2(3) show ?case by simp
qed

lemma takes_peek_takes:
  assumes "takes (k b) (b # bs) v"
  shows "takes (bind_s peek_byte (\<lambda>x. case x of None \<Rightarrow> return_s None | Some b \<Rightarrow> k b)) (b # bs) v"
  by (rule takes_peek) (erule (3) takes_all [OF assms], erule (4) takes_part [OF assms])

lemma takes_peek_only:
  assumes "k b = bind_s (read_number :: 8 word option ar) (\<lambda>_. return_s (Some v))"
  shows "takes (bind_s peek_byte (\<lambda>x. case x of None \<Rightarrow> return_s None | Some b \<Rightarrow> k b)) [b] v"
proof (rule takes_peek, goal_cases)
  case (1 s0 d ds p buf oth zs)
  then show ?case unfolding assms using takes_byte_only [of p d buf oth b zs v s0 ds] by simp
next
  case (2 s0 d ds p buf oth ys)
  then show ?case by (cases "buf @ oth") auto
qed

lemma takes_read_uint_x: "takes read_uint_x (uintx_bytes v) v"
proof -
  consider "v \<le> 252" | "\<not> v \<le> 252" "v \<le> 65535" | "\<not> v \<le> 252" "\<not> v \<le> 65535" by blast
  then show ?thesis
  proof cases
    case 1
    then have "unat v \<le> 252" by (simp add: word_le_nat_alt)
    then have "(ucast v :: 8 word) \<le> 252" "(ucast (ucast v :: 8 word) :: 32 word) = v"
      by (simp_all add: word_le_nat_alt unat_narrow widen_narrow)
    with 1 show ?thesis
      unfolding read_uint_x_def uintx_bytes_def by (simp add: takes_peek_only)
  next
    case 2
    then have "unat v < 2 ^ LENGTH(16)" by (simp add: word_le_nat_alt)
    then have w: "(ucast (ucast v :: 16 word) :: 32 word) = v" by (rule widen_narrow)
    have "uintx_bytes v = 253 # num_bytes (ucast v :: 16 word)" using 2 by (simp add: uintx_bytes_def)
    with takes_payload [of 3 "ucast :: 16 word \<Rightarrow> 32 word" 253 "ucast v :: 16 word"] w show ?thesis
      unfolding read_uint_x_def by (simp add: takes_peek_takes)
  next
    case 3
    then have "uintx_bytes v = 254 # num_bytes v" by (simp add: uintx_bytes_def)
    with takes_payload [of 5 "\<lambda>x. x" 254 v] show ?thesis
      unfolding read_uint_x_def by (simp add: takes_peek_takes)
  qed
qed

lemma short_number [simp]: "GetUintXByteCount v \<le> 128" "GetIntXByteCount v \<le> 128"
  by (simp_all add: GetUintXByteCount_def GetIntXByteCount_def)

lemma takes_read_int_x: "takes read_int_x (intx_bytes v) v"
proof -
  consider "- 128 \<le> sint v \<and> sint v \<le> 124"
    | "\<not> (- 128 \<le> sint v \<and> sint v \<le> 124)" "- 32768 \<le> sint v \<and> sint v \<le> 32767"
    | "\<not> (- 128 \<le> sint v \<and> sint v \<le> 124)" "\<not> (- 32768 \<le> sint v \<and> sint v \<le> 32767)" by blast
  then show ?thesis
  proof cases
    case 1
    then have "sint (ucast v :: 8 word) = sint v" by (intro sint_narrow) auto
    with 1 have "sint (ucast v :: 8 word) \<le> 124" "(scast (ucast v :: 8 word) :: 32 word) = v"
      by (simp_all add: scast_of_sint)
    with 1 show ?thesis
      unfolding read_int_x_def intx_bytes_def by (simp add: takes_peek_only)
  next
    case 2
    then have "sint (ucast v :: 16 word) = sint v" by (intro sint_narrow) auto
    then have w: "(scast (ucast v :: 16 word) :: 32 word) = v" by (rule scast_of_sint)
    have "intx_bytes v = 125 # num_bytes (ucast v :: 16 word)" using 2 by (auto simp: intx_bytes_def)
    with takes_payload [of 3 "scast :: 16 word \<Rightarrow> 32 word" 125 "ucast v :: 16 word"] w show ?thesis
      unfolding read_int_x_def by (simp add: takes_peek_takes)
  next
    case 3
    then have "intx_bytes v = 126 # num_bytes v" by (auto simp: intx_bytes_def)
    with takes_payload [of 5 "\<lambda>x. x" 126 v] show ?thesis
      unfolding read_int_x_def by (simp add: takes_peek_takes)
  qed
qed

section \<open>Steps that take bytes\<close>

lemma prepare_continue_on:
  "prepare_continue (on s0 c buf oth) =
     (let n2 = min (buf_len - length buf) (length oth) in
      Inr ((), on s0 c (buf @ take n2 oth) (drop n2 oth)))"
  by (simp add: prepare_continue_def Let_def)

text \<open>Waiting keeps every byte.\<close>

lemma stall_on:
  obtains buf' oth' where
    "then_s prepare_continue (return_s (Some r)) (on s0 c buf oth) = Inr (Some r, on s0 c buf' oth')"
    and "buf' @ oth' = buf @ oth" and "suffix_of oth' oth" and "oth' = [] \<or> 128 < length buf + length oth"
proof
  let ?n = "min (buf_len - length buf) (length oth)"
  show "then_s prepare_continue (return_s (Some r)) (on s0 c buf oth)
      = Inr (Some r, on s0 c (buf @ take ?n oth) (drop ?n oth))"
    by (simp add: then_s_def bind_s_def prepare_continue_on Let_def)
qed (simp_all add: buf_len_def, arith)

lemma stall_on_empty:
  "then_s prepare_continue (return_s (Some r)) (on s0 c [] []) = Inr (Some r, on s0 c [] [])"
  by (simp add: then_s_def bind_s_def prepare_continue_on Let_def)

lemma goes_one:
  assumes "m (on s0 c buf oth) = Inr (None, on s0 d buf' oth')" and "suffix_of oth' oth"
  shows "goes_to m (on s0 c buf oth) (on s0 d buf' oth')"
  using assms by (intro r_into_rtranclp) (simp add: goes_def)

lemma waits_one:
  assumes "m s = Inr (Some ReadReturn_continue_nobuffers, on s0 c buf oth)" and "suffix_of oth (ar_other s)"
    and "oth = [] \<or> lv" and "length buf + length oth \<le> length (ar_buf s) + length (ar_other s)"
  shows "waits lv m s0 s ReadReturn_continue_nobuffers c buf oth ys"
  using assms unfolding waits_def by auto

lemma seg_R:
  assumes rd: "takes rd bs v" and lim: "p + length bs \<le> st_limit d" "st_limit d < 4294967296"
    and size: "length bs \<le> 128 \<or> lv"
    and m: "\<And>buf oth. m (on s0 (d # ds, p) buf oth) = R rd k (on s0 (d # ds, p) buf oth)"
    and k: "\<And>buf oth. k v (on s0 (d # ds, p + length bs) buf oth) = Inr (None, on s0 t buf oth)"
  shows "seg lv m s0 (d # ds, p) bs t"
  unfolding seg_def
proof
  fix buf
  define X where "X = (\<lambda>c (b :: byte list) bs'. c = (d # ds, p) \<and> bs' = bs)"
  have "X (d # ds, p) buf bs" by (simp add: X_def)
  then show "feeds lv m s0 t (d # ds, p) buf bs"
  proof (rule feeds_coinduct)
    fix c buf bs' oth zs
    assume "X c buf bs'" and b: "buf @ oth = bs' @ zs" "length (buf @ oth) < 2 ^ 32"
    then have c: "c = (d # ds, p)" "bs' = bs" by (simp_all add: X_def)
    have "length buf + length oth < 4294967296" using b(2) by simp
    from takes_all [OF rd lim this b(1) [unfolded c]]
    have "m (on s0 c buf oth) = Inr (None, on s0 t (drop (length bs) buf) (drop (length bs - length buf) oth))"
      unfolding c m R_def by (simp add: k)
    then have "goes_to m (on s0 c buf oth) (on s0 t (drop (length bs) buf) (drop (length bs - length buf) oth))"
      by (rule goes_one) simp
    moreover have "drop (length bs) buf @ drop (length bs - length buf) oth = zs"
      using b(1) unfolding c by (rule rest_bytes)
    ultimately show "\<exists>buf' oth'. goes_to m (on s0 c buf oth) (on s0 t buf' oth') \<and> buf' @ oth' = zs" by blast
  next
    fix c buf bs' oth ys
    assume "X c buf bs'" and b: "bs' = (buf @ oth) @ ys" "ys \<noteq> []" "length (buf @ oth) < 2 ^ 32"
    then have c: "c = (d # ds, p)" "bs' = bs" by (simp_all add: X_def)
    obtain buf' oth' where st:
      "then_s prepare_continue (return_s (Some ReadReturn_continue_nobuffers)) (on s0 c buf oth)
        = Inr (Some ReadReturn_continue_nobuffers, on s0 c buf' oth')"
      "buf' @ oth' = buf @ oth" "suffix_of oth' oth" "oth' = [] \<or> 128 < length buf + length oth"
      by (rule stall_on)
    have short: "oth' = [] \<or> lv" using size st(4) arg_cong [OF b(1), of length] unfolding c by auto
    have "rd (on s0 c buf oth) = Inr (None, on s0 c buf oth)"
      using takes_part [OF rd lim, of buf oth ys s0 ds] b unfolding c by simp
    then have "m (on s0 c buf oth) = Inr (Some ReadReturn_continue_nobuffers, on s0 c buf' oth')"
      using st(1) unfolding c m R_def by simp
    then have "waits lv m s0 (on s0 c buf oth) ReadReturn_continue_nobuffers c buf' oth' ys"
      by (rule waits_one) (use arg_cong [OF st(2), of length] in \<open>simp_all add: st(3) short\<close>)
    moreover have "X c buf' ((buf' @ oth') @ ys)" using b(1) by (simp add: X_def c st(2))
    ultimately show "\<exists>r c' buf' oth'. waits lv m s0 (on s0 c buf oth) r c' buf' oth' ys
        \<and> (X c' buf' ((buf' @ oth') @ ys) \<or> feeds lv m s0 t c' buf' ((buf' @ oth') @ ys))" by blast
  qed
qed

section \<open>Strings\<close>

definition string_frame :: "state_type \<Rightarrow> nat \<Rightarrow> string_field \<Rightarrow> string \<Rightarrow> nat \<Rightarrow> state_data" where
  "string_frame nxt L f v k =
     \<lparr>st_state = Header_readstring, st_pop_state = nxt, st_limit = L, st_data = Frame_string f,
      st_param1 = k, st_param2 = 0, st_param3 = take k v @ replicate (length v - k) (CHR 0x00)\<rparr>"

definition filled :: "state_type \<Rightarrow> string_field \<Rightarrow> string \<Rightarrow> state_data \<Rightarrow> state_data" where
  "filled nxt f v d = d\<lparr>st_state := nxt, st_data := set_field f v (st_data d)\<rparr>"

lemma string_of_bytes_append [simp]: "string_of_bytes (xs @ ys) = string_of_bytes xs @ string_of_bytes ys"
  by (simp add: string_of_bytes_def)

lemma readstring_all:
  assumes "k < length v" and "p + (length v - k) = L" and "L < 4294967296"
    and "buf @ oth = bytes_of_string (drop k v) @ zs"
  shows "step_Header_readstring (on s0 (string_frame nxt L f v k # d # ds, p) buf oth) =
    Inr (None, on s0 (filled nxt f v d # ds, L) (drop (length v - k) buf) (drop (length v - k - length buf) oth))"
proof -
  let ?d = "string_frame nxt L f v k"
  have "read_some_bytes (length v - k) (on s0 (?d # d # ds, p) buf oth) =
    Inr (bytes_of_string (drop k v), on s0 (?d # d # ds, L) (drop (length v - k) buf)
      (drop (length v - k - length buf) oth))"
    using read_some_bytes_on [of p "length v - k" ?d s0 "d # ds" buf oth] assms
    by (simp add: string_frame_def)
  then show ?thesis
    using assms(1,2)
    by (simp add: step_Header_readstring_def bind_s_def then_s_def top_frame_def Let_def upd_top_def
        pop_state_def continue_def string_frame_def filled_def)
qed

lemma readstring_part:
  assumes "k < length v" and "p + (length v - k) = L" and "L < 4294967296"
    and us: "buf @ oth = us" and v: "bytes_of_string (drop k v) = us @ ys" and "ys \<noteq> []"
  shows "step_Header_readstring (on s0 (string_frame nxt L f v k # d # ds, p) buf oth) =
    Inr (Some ReadReturn_continue_nobuffers,
      on s0 (string_frame nxt L f v (k + length us) # d # ds, p + length us) [] [])"
proof -
  let ?d = "string_frame nxt L f v k"
  have n: "length v - k = length us + length ys" using arg_cong [OF v, of length] by simp
  have "read_some_bytes (length v - k) (on s0 (?d # d # ds, p) buf oth) =
    Inr (us, on s0 (?d # d # ds, p + length us) [] [])"
    by (rule read_some_part [OF _ _ us]) (use assms(2,3) n in \<open>simp_all add: string_frame_def\<close>)
  moreover have "drop k v = string_of_bytes us @ string_of_bytes ys"
    using arg_cong [OF v, of string_of_bytes] by simp
  then have "string_of_bytes us = take (length us) (drop k v)" by simp
  then have "take k v @ string_of_bytes us = take (k + length us) v"
    by (simp only: take_add)
  then have "take k v @ string_of_bytes us @ zs = take (k + length us) v @ zs" for zs
    by (metis append_assoc)
  moreover have "length ys \<noteq> 0" using assms(6) by simp
  then have "k + length us \<noteq> length v" "k + length us \<le> length v" using n assms(1) by arith+
  ultimately show ?thesis
    using assms(1)
    by (simp add: step_Header_readstring_def bind_s_def then_s_def top_frame_def Let_def upd_top_def R_def
        prepare_continue_on string_frame_def)
qed

section \<open>Arrays\<close>

lemma fill_array_bytes:
  assumes "array_type a' = array_type a" and "array_size a' = array_size a"
  shows "fill_array a' (array_bytes a) = a"
  using assms
  by (cases a; cases a') (simp_all add: words_of_bytes_of_words pairs_of_bytes_of_pairs del: One_nat_def)

definition array_frame :: "nat \<Rightarrow> rr_array \<Rightarrow> nat \<Rightarrow> byte list \<Rightarrow> state_data" where
  "array_frame L a0 n done =
     \<lparr>st_state = MessageElement_readarray2, st_pop_state = MessageElement_finishreaddata, st_limit = L,
      st_data = Frame_array a0 done, st_param1 = length done, st_param2 = n, st_param3 = ''''\<rparr>"

definition with_data :: "state_type \<Rightarrow> frame_data \<Rightarrow> state_data \<Rightarrow> state_data" where
  "with_data st x d = d\<lparr>st_state := st, st_data := x\<rparr>"

lemma with_data_simps [simp]:
  "st_state (with_data st x d) = st" "st_data (with_data st x d) = x" "st_limit (with_data st x d) = st_limit d"
  "st_param1 (with_data st x d) = st_param1 d" "st_pop_state (with_data st x d) = st_pop_state d"
  "with_data st x (with_data st' x' d) = with_data st x d" "with_data st x (d\<lparr>st_data := x'\<rparr>) = with_data st x d"
  by (simp_all add: with_data_def)

lemma readarray2_all:
  assumes "length done + length cs = n" and "cs \<noteq> []" and "p + length cs = L" and "L < 4294967296" and "n < 4294967296"
  shows "step_MessageElement_readarray2 (on s0 (array_frame L a0 n done # d # ds, p) [] (cs @ zs)) =
    Inr (None, on s0 (with_data MessageElement_finishreaddata
      (write_back (Frame_array a0 (done @ cs)) (st_data d)) d # ds, L) [] zs)"
proof -
  have "n - length done = length cs" using assms(1) by simp
  then show ?thesis
    using assms
    by (simp add: step_MessageElement_readarray2_def bind_s_def then_s_def top_frame_def array_frame_def Let_def
        set_data_def upd_top_def DO_POP_STATE_def pop_state_def continue_def with_data_def)
qed

lemma readarray2_part:
  assumes "length done + length cs < n" and "p + (n - length done) = L" and "L < 4294967296" and "n < 4294967296"
  shows "step_MessageElement_readarray2 (on s0 (array_frame L a0 n done # d # ds, p) [] cs) =
    Inr (Some (ReadReturn_continue_buffers (n - length (done @ cs))),
      on s0 (array_frame L a0 n (done @ cs) # d # ds, p + length cs) [] [])"
proof -
  have "length cs < n - length done" "n - length done - length cs = n - (length done + length cs)"
    "take (n - length done) cs = cs"
    using assms(1) by simp_all
  then show ?thesis
    using assms
    by (simp add: step_MessageElement_readarray2_def bind_s_def then_s_def top_frame_def array_frame_def Let_def
        upd_top_def continue_buffers_def prepare_continue_on continue_def)
qed

lemma readarray2_continue:
  assumes "length done + length cs \<le> n" and "cs \<noteq> []" and "p + (n - length done) = L"
    and "L < 4294967296" and "n < 4294967296"
  shows "step_MessageElement_readarray2 ((on s0 (array_frame L a0 n done # d # ds, p) [] [])\<lparr>ar_continue := cs\<rparr>) =
    step_MessageElement_readarray2 (on s0 (array_frame L a0 n done # d # ds, p) [] cs)"
proof (cases "length done + length cs = n")
  case True
  then have n: "n - length done = length cs" "p + length cs = L" using assms(3) by simp_all
  from readarray2_all [OF True assms(2) n(2) assms(4,5), of s0 a0 d ds "[]"]
  have rhs: "step_MessageElement_readarray2 (on s0 (array_frame L a0 n done # d # ds, p) [] cs) =
    Inr (None, on s0 (with_data MessageElement_finishreaddata
      (write_back (Frame_array a0 (done @ cs)) (st_data d)) d # ds, L) [] [])" by simp
  show ?thesis
    unfolding rhs using True n assms(2,4,5)
    by (simp add: step_MessageElement_readarray2_def bind_s_def then_s_def top_frame_def array_frame_def Let_def
        upd_top_def DO_POP_STATE_def pop_state_def continue_def with_data_def on_def)
next
  case False
  with assms(1) have n: "length done + length cs < n" by simp
  show ?thesis
    unfolding readarray2_part [OF n assms(3-5)] using n assms(2-5)
    by (simp add: step_MessageElement_readarray2_def bind_s_def then_s_def top_frame_def array_frame_def Let_def
        upd_top_def continue_buffers_def prepare_continue_def continue_def on_def)
qed

lemma set_element_data_array:
  assumes "ElementType (flds el) = array_type a"
  shows "set_element_data (ArrayData a) el = MessageElement (flds el) (Some (ArrayData a))"
proof (cases el)
  case (MessageElement f d)
  with assms show ?thesis
    by (cases f) (simp add: set_element_data_def SetData_def)
qed

text \<open>The first part of an array: all of it, or what is there.\<close>

lemma readarray1_on:
  assumes el: "st_data d = Frame_element el" "ElementType (flds el) = array_type a"
      "unat (DataCount (flds el)) = array_size a"
    and lim: "p + length (array_bytes a) \<le> st_limit d" "st_limit d \<le> st_limit (last (d # ds))"
      "st_limit (last (d # ds)) < 4294967296"
  obtains a0 where "array_type a0 = array_type a" and "array_size a0 = array_size a"
    and "\<And>buf oth zs. buf @ oth = array_bytes a @ zs \<Longrightarrow>
      step_MessageElement_readarray1 (on s0 (d # ds, p) buf oth) = Inr (None,
        on s0 (with_data MessageElement_finishreaddata
          (Frame_element (MessageElement (flds el) (Some (ArrayData a)))) d # ds, p + length (array_bytes a))
          (drop (length (array_bytes a)) buf) (drop (length (array_bytes a) - length buf) oth))"
    and "\<And>buf oth done ys. buf @ oth = done \<Longrightarrow> array_bytes a = done @ ys \<Longrightarrow> ys \<noteq> [] \<Longrightarrow>
      step_MessageElement_readarray1 (on s0 (d # ds, p) buf oth) =
        Inr (Some (ReadReturn_continue_buffers (length ys)),
          on s0 (array_frame (p + length (array_bytes a)) a0 (length (array_bytes a)) done
            # d\<lparr>st_data := Frame_element (MessageElement (flds el) (Some (ArrayData a0)))\<rparr> # ds,
            p + length done) [] [])"
proof -
  let ?n = "length (array_bytes a)"
  obtain k where k: "RRArrayElementSize (array_type a) = Inr k"
    using RRArrayElementSize_defined [of "array_type a"] type_group_array [of "array_type a"] by auto
  then have n: "?n = array_size a * k" by (rule array_bytes_length)
  obtain a0 where a0: "AllocateRRArrayByType (array_type a) (array_size a) = Inr a0"
    "array_type a0 = array_type a" "array_size a0 = array_size a"
    using AllocateRRArrayByType_defined [of "array_type a" "array_size a"] type_group_array [of "array_type a"] by auto
  have small: "?n < 4294967296" "st_limit d < 4294967296" using lim by simp_all
  then have mul: "k * array_size a < 4294967296" "size_mul k (array_size a0) = ?n"
    using n by (simp_all add: a0(3) mult.commute)
  have e: "set_element_data (ArrayData a) el = MessageElement (flds el) (Some (ArrayData a))"
    "set_element_data (ArrayData a0) el = MessageElement (flds el) (Some (ArrayData a0))"
    using el(2) a0(2) by (simp_all add: set_element_data_array)
  show thesis
  proof (rule that [OF a0(2,3)])
    fix buf oth zs assume b: "buf @ oth = array_bytes a @ zs"
    have "read_some_bytes ?n (on s0 (d # ds, p) buf oth) = Inr (array_bytes a, on s0 (d # ds, p + ?n)
        (drop ?n buf) (drop (?n - length buf) oth))" by (rule read_some_all [OF lim(1) small(2) b])
    then show "step_MessageElement_readarray1 (on s0 (d # ds, p) buf oth) = Inr (None,
        on s0 (with_data MessageElement_finishreaddata
          (Frame_element (MessageElement (flds el) (Some (ArrayData a)))) d # ds, p + ?n)
          (drop ?n buf) (drop (?n - length buf) oth))"
      using mul small k a0
      by (simp add: step_MessageElement_readarray1_def data_element_def bind_s_def then_s_def top_frame_def el alloc_def
          Let_def e fill_array_bytes set_data_def upd_top_def goto_def set_state_def continue_def with_data_def)
  next
    fix buf oth "done" ys assume b: "buf @ oth = done" "array_bytes a = done @ ys" "ys \<noteq> []"
    have len: "?n = length done + length ys" using b(2) by simp
    have "read_some_bytes ?n (on s0 (d # ds, p) buf oth) = Inr (done, on s0 (d # ds, p + length done) [] [])"
      by (rule read_some_part [OF lim(1) small(2) b(1)]) (simp add: len)
    moreover have "\<not> ?n \<le> length done" "?n - length done = length ys" using len b(3) by simp_all
    moreover have "size_add (p + length done) (length ys) = p + ?n"
      "\<not> st_limit d < p + length done + length ys"
      "ds \<noteq> [] \<Longrightarrow> \<not> st_limit (last ds) < p + length done + length ys"
      using len lim by simp_all
    ultimately show "step_MessageElement_readarray1 (on s0 (d # ds, p) buf oth) =
        Inr (Some (ReadReturn_continue_buffers (length ys)),
          on s0 (array_frame (p + ?n) a0 ?n done
            # d\<lparr>st_data := Frame_element (MessageElement (flds el) (Some (ArrayData a0)))\<rparr> # ds,
            p + length done) [] [])"
      using mul small k a0
      by (simp add: step_MessageElement_readarray1_def data_element_def bind_s_def then_s_def top_frame_def el alloc_def
          Let_def e set_data_def upd_top_def set_state_def push_state_def message_pos_def message_len_def
          continue_buffers_def prepare_continue_on array_frame_def)
  qed
qed

section \<open>Frames\<close>

definition elem_frame :: "state_type \<Rightarrow> nat \<Rightarrow> state_data" where
  "elem_frame pop L =
     \<lparr>st_state = MessageElement_elementsize, st_pop_state = pop, st_limit = L,
      st_data = Frame_element CreateMessageElement, st_param1 = 0, st_param2 = 0, st_param3 = ''''\<rparr>"

definition nested_frame :: "nat \<Rightarrow> DataTypes \<Rightarrow> string \<Rightarrow> nat \<Rightarrow> MessageElement list \<Rightarrow> state_data" where
  "nested_frame L t tn c es =
     \<lparr>st_state = MessageElement_readnested2, st_pop_state = MessageElement_finishreaddata, st_limit = L,
      st_data = Frame_nested t tn es, st_param1 = c, st_param2 = 0, st_param3 = ''''\<rparr>"

text \<open>The parent after the object of the frame above has been finished.\<close>

definition popped :: "state_data \<Rightarrow> state_data \<Rightarrow> state_data" where
  "popped d p = with_data (st_pop_state d) (write_back (st_data d) (st_data p)) p"

lemma pop_state_on: "pop_state (on s0 (d # q # ds, p) buf oth) = Inr ((), on s0 (popped d q # ds, p) buf oth)"
  by (simp add: pop_state_def popped_def with_data_def)

text \<open>The limit of the message bounds every frame.\<close>

definition bounded :: "nat \<Rightarrow> state_data list \<Rightarrow> bool" where
  "bounded L ds \<longleftrightarrow> ds \<noteq> [] \<and> L \<le> st_limit (last ds) \<and> st_limit (last ds) < 4294967296"

lemma bounded_less: "bounded L ds \<Longrightarrow> L < 4294967296"
  by (auto simp: bounded_def)

lemma bounded_le: "bounded L ds \<Longrightarrow> L' \<le> L \<Longrightarrow> bounded L' ds"
  by (auto simp: bounded_def)

lemma bounded_Cons [simp]: "ds \<noteq> [] \<Longrightarrow> bounded L (d # ds) \<longleftrightarrow> bounded L ds"
  by (auto simp: bounded_def)

lemma push_state_on:
  assumes "bounded (p + n) ds"
  shows "push_state st pop n x p1 p2 p3 (on s0 (ds, p) buf oth) = Inr ((),
    on s0 (\<lparr>st_state = st, st_pop_state = pop, st_limit = p + n, st_data = x, st_param1 = p1, st_param2 = p2,
      st_param3 = p3\<rparr> # ds, p) buf oth)"
  using assms bounded_less [OF assms]
  by (simp add: push_state_def bounded_def bind_s_def message_pos_def message_len_def)

lemma movesI: "(\<And>buf oth. m (on s0 c buf oth) = Inr (None, on s0 d buf oth)) \<Longrightarrow> moves m s0 c d"
  by (simp add: moves_def)

definition common_states :: "state_type set" where
  "common_states =
     {Message_init, Message_done, Message_readentries, MessageEntry_init, MessageEntry_finishread,
      MessageEntry_readelements, MessageElement_init, MessageElement_readdata, MessageElement_finishreaddata,
      MessageElement_readarray1, MessageElement_readarray2, MessageElement_readnested1,
      MessageElement_readnested2, MessageElement_readnested3, Header_readstring}"

text \<open>What the two switches have in common.\<close>

locale reader_steps =
  fixes m :: step
  assumes common: "ar_stack s = d # ds \<Longrightarrow> st_state d \<in> common_states \<Longrightarrow> m s = step_common (st_state d) s"
begin

lemma common_on:
  assumes "st_state d = st" and "st \<in> common_states"
  shows "m (on s0 (d # ds, p) buf oth) = step_common st (on s0 (d # ds, p) buf oth)"
  using common [of "on s0 (d # ds, p) buf oth" d ds] assms by simp

lemma readstring_on:
  "m (on s0 (string_frame nxt L f v k # ds, p) buf oth)
    = step_Header_readstring (on s0 (string_frame nxt L f v k # ds, p) buf oth)"
  by (subst common_on [of _ Header_readstring]) (simp_all add: string_frame_def common_states_def)

lemma feeds_readstring:
  assumes "k < length v" and "p + (length v - k) = L" and "L < 4294967296"
  shows "feeds lv m s0 (filled nxt f v d # ds, L) (string_frame nxt L f v k # d # ds, p) buf (bytes_of_string (drop k v))"
proof -
  define X where "X = (\<lambda>c (b :: byte list) bs. \<exists>k. k < length v
    \<and> c = (string_frame nxt L f v k # d # ds, L - (length v - k)) \<and> L \<ge> length v - k \<and> bs = bytes_of_string (drop k v))"
  have "X (string_frame nxt L f v k # d # ds, p) buf (bytes_of_string (drop k v))"
    using assms unfolding X_def by (intro exI [of _ k]) auto
  then show ?thesis
  proof (rule feeds_coinduct)
    fix c buf bs oth zs
    assume "X c buf bs" and b: "buf @ oth = bs @ zs" "length (buf @ oth) < 2 ^ 32"
    then obtain k where k: "k < length v" "c = (string_frame nxt L f v k # d # ds, L - (length v - k))"
      "L \<ge> length v - k" "bs = bytes_of_string (drop k v)" by (auto simp: X_def)
    have "m (on s0 c buf oth) = Inr (None, on s0 (filled nxt f v d # ds, L)
        (drop (length v - k) buf) (drop (length v - k - length buf) oth))"
      unfolding k(2) readstring_on by (rule readstring_all) (use k(1,3) assms(3) b(1) k(4) in auto)
    then have "goes_to m (on s0 c buf oth) (on s0 (filled nxt f v d # ds, L)
        (drop (length v - k) buf) (drop (length v - k - length buf) oth))"
      by (rule goes_one) simp
    moreover have "drop (length v - k) buf @ drop (length v - k - length buf) oth = zs"
      using rest_bytes [OF b(1)] k(4) by simp
    ultimately show "\<exists>buf' oth'. goes_to m (on s0 c buf oth) (on s0 (filled nxt f v d # ds, L) buf' oth')
      \<and> buf' @ oth' = zs" by blast
  next
    fix c buf bs oth ys
    assume "X c buf bs" and b: "bs = (buf @ oth) @ ys" "ys \<noteq> []" "length (buf @ oth) < 2 ^ 32"
    then obtain k where k: "k < length v" "c = (string_frame nxt L f v k # d # ds, L - (length v - k))"
      "L \<ge> length v - k" "bs = bytes_of_string (drop k v)" by (auto simp: X_def)
    let ?n = "length (buf @ oth)"
    let ?c = "(string_frame nxt L f v (k + ?n) # d # ds, L - (length v - k) + ?n)"
    have eq: "bytes_of_string (drop k v) = (buf @ oth) @ ys" using b(1) k(4) by simp
    have "m (on s0 c buf oth) = Inr (Some ReadReturn_continue_nobuffers, on s0 ?c [] [])"
      unfolding k(2) readstring_on
      by (rule readstring_part [OF k(1) _ assms(3) refl eq b(2)]) (use k(3) in simp)
    then have "waits lv m s0 (on s0 c buf oth) ReadReturn_continue_nobuffers ?c [] [] ys"
      by (rule waits_one) simp_all
    moreover have "X ?c [] ys"
    proof -
      from arg_cong [OF eq, of length] have "length v - k = ?n + length ys" by simp
      with b(2) k(3) have "k + ?n < length v" "L - (length v - k) + ?n = L - (length v - (k + ?n))"
        "L \<ge> length v - (k + ?n)" by (auto simp: neq_Nil_conv)
      moreover have "ys = bytes_of_string (drop (k + ?n) v)"
        using arg_cong [OF eq, of "drop ?n"] by (simp add: bytes_of_string_def drop_map add.commute)
      ultimately show ?thesis unfolding X_def by blast
    qed
    ultimately show "\<exists>r c' buf' oth'. waits lv m s0 (on s0 c buf oth) r c' buf' oth' ys
        \<and> (X c' buf' ((buf' @ oth') @ ys) \<or> feeds lv m s0 (filled nxt f v d # ds, L) c' buf' ((buf' @ oth') @ ys))"
      by (intro exI [of _ ReadReturn_continue_nobuffers] exI [of _ ?c] exI [of _ "[]"]) simp
  qed
qed

text \<open>A string: its length, then the characters, which a frame of its own reads when some are missing.\<close>

lemma seg_string_body:
  assumes rd: "takes rd lb l" and l: "unat l = length v" and lb: "length lb \<le> 128"
    and lim: "p + length lb + length v \<le> st_limit d" "st_limit d \<le> st_limit (last (d # ds))"
      "st_limit (last (d # ds)) < 4294967296"
    and m: "\<And>buf oth. m (on s0 (d # ds, p) buf oth) =
      R (bind_s rd (\<lambda>r. case r of None \<Rightarrow> return_s None | Some l \<Rightarrow> read_string_body (unat l) f nxt))
        (\<lambda>_. goto nxt) (on s0 (d # ds, p) buf oth)"
  shows "seg lv m s0 (d # ds, p) (lb @ bytes_of_string v) (filled nxt f v d # ds, p + length lb + length v)"
  unfolding seg_def
proof
  fix buf
  let ?rd = "bind_s rd (\<lambda>r. case r of None \<Rightarrow> return_s None | Some l \<Rightarrow> read_string_body (unat l) f nxt)"
  define L where "L = p + length lb + length v"
  have d: "st_limit d < 4294967296" "p + length lb \<le> st_limit d" "L \<le> st_limit d" "L < 4294967296"
    using lim by (simp_all add: L_def)
  define X where "X = (\<lambda>c (b :: byte list) bs. c = (d # ds, p) \<and> bs = lb @ bytes_of_string v)"
  have "X (d # ds, p) buf (lb @ bytes_of_string v)" by (simp add: X_def)
  then have "feeds lv m s0 (filled nxt f v d # ds, L) (d # ds, p) buf (lb @ bytes_of_string v)"
  proof (rule feeds_coinduct)
    fix c buf bs oth zs
    assume "X c buf bs" and b: "buf @ oth = bs @ zs" "length (buf @ oth) < 2 ^ 32"
    then have c: "c = (d # ds, p)" "bs = lb @ bytes_of_string v" by (simp_all add: X_def)
    define buf1 oth1 where "buf1 = drop (length lb) buf" and "oth1 = drop (length lb - length buf) oth"
    have len: "length buf + length oth < 4294967296" using b(2) by simp
    have e: "buf @ oth = lb @ (bytes_of_string v @ zs)" using b(1) c(2) by simp
    have e1: "buf1 @ oth1 = bytes_of_string v @ zs"
      unfolding buf1_def oth1_def using rest_bytes [OF e] .
    have "rd (on s0 c buf oth) = Inr (Some l, on s0 (d # ds, p + length lb) buf1 oth1)"
      unfolding c buf1_def oth1_def by (rule takes_all [OF rd d(2,1) len e])
    moreover have "read_some_bytes (length v) (on s0 (d # ds, p + length lb) buf1 oth1) =
        Inr (bytes_of_string v, on s0 (d # ds, L) (drop (length v) buf1) (drop (length v - length buf1) oth1))"
      using read_some_bytes_on [of "p + length lb" "length v" d s0 ds buf1 oth1] d e1 by (simp add: L_def)
    ultimately have "?rd (on s0 c buf oth) = Inr (Some (), on s0 (filled st f v d # ds, L)
        (drop (length v) buf1) (drop (length v - length buf1) oth1))" if "st = st_state d" for st
      using that by (simp add: read_string_body_def l then_s_def bind_s_def upd_top_def filled_def)
    then have "m (on s0 c buf oth) = Inr (None, on s0 (filled nxt f v d # ds, L)
        (drop (length v) buf1) (drop (length v - length buf1) oth1))"
      unfolding c m R_def by (simp add: goto_def set_state_def upd_top_def then_s_def bind_s_def filled_def continue_def)
    then have "goes_to m (on s0 c buf oth) (on s0 (filled nxt f v d # ds, L)
        (drop (length v) buf1) (drop (length v - length buf1) oth1))"
      by (rule goes_one) (simp add: oth1_def)
    moreover have "drop (length v) buf1 @ drop (length v - length buf1) oth1 = zs"
      using rest_bytes [OF e1] by simp
    ultimately show "\<exists>buf' oth'. goes_to m (on s0 c buf oth) (on s0 (filled nxt f v d # ds, L) buf' oth')
      \<and> buf' @ oth' = zs" by blast
  next
    fix c buf bs oth ys
    assume "X c buf bs" and b: "bs = (buf @ oth) @ ys" "ys \<noteq> []" "length (buf @ oth) < 2 ^ 32"
    then have c: "c = (d # ds, p)" and e: "lb @ bytes_of_string v = (buf @ oth) @ ys" by (simp_all add: X_def)
    have len: "length buf + length oth < 4294967296" using b(3) by simp
    show "\<exists>r c' buf' oth'. waits lv m s0 (on s0 c buf oth) r c' buf' oth' ys
        \<and> (X c' buf' ((buf' @ oth') @ ys) \<or> feeds lv m s0 (filled nxt f v d # ds, L) c' buf' ((buf' @ oth') @ ys))"
    proof (cases "length lb \<le> length (buf @ oth)")
      case False
      then have "length (buf @ oth) < length lb" by simp
      from append_split_less [OF e this] obtain us where us: "lb = (buf @ oth) @ us" "us \<noteq> []" by blast
      obtain buf' oth' where st:
        "then_s prepare_continue (return_s (Some ReadReturn_continue_nobuffers)) (on s0 c buf oth)
          = Inr (Some ReadReturn_continue_nobuffers, on s0 c buf' oth')"
        "buf' @ oth' = buf @ oth" "suffix_of oth' oth" "oth' = [] \<or> 128 < length buf + length oth"
        by (rule stall_on)
      have "rd (on s0 c buf oth) = Inr (None, on s0 c buf oth)"
        unfolding c by (rule takes_part [OF rd d(2,1) len us])
      then have "m (on s0 c buf oth) = Inr (Some ReadReturn_continue_nobuffers, on s0 c buf' oth')"
        using st(1) unfolding c m R_def by simp
      moreover have "oth' = []" using st(4) lb arg_cong [OF us(1), of length] by simp
      ultimately have "waits lv m s0 (on s0 c buf oth) ReadReturn_continue_nobuffers c buf' oth' ys"
        by (intro waits_one) (use arg_cong [OF st(2), of length] in \<open>simp_all add: st(3)\<close>)
      moreover have "X c buf' ((buf' @ oth') @ ys)" by (simp add: X_def c e st(2))
      ultimately show ?thesis by blast
    next
      case True
      from append_split_le [OF e True] obtain us where us: "buf @ oth = lb @ us" "bytes_of_string v = us @ ys" by blast
      define buf1 oth1 where "buf1 = drop (length lb) buf" and "oth1 = drop (length lb - length buf) oth"
      have e1: "buf1 @ oth1 = us" unfolding buf1_def oth1_def by (rule rest_bytes [OF us(1)])
      have n: "length us < length v" "length v - length us = length ys"
        using arg_cong [OF us(2), of length] b(2) by auto
      have take: "string_of_bytes us = take (length us) v"
        using arg_cong [OF us(2), of "\<lambda>bs. take (length us) (string_of_bytes bs)"] by simp
      let ?c = "(string_frame nxt L f v (length us) # d # ds, p + length lb + length us)"
      have "rd (on s0 c buf oth) = Inr (Some l, on s0 (d # ds, p + length lb) buf1 oth1)"
        unfolding c buf1_def oth1_def by (rule takes_all [OF rd d(2,1) len us(1)])
      moreover have "read_some_bytes (length v) (on s0 (d # ds, p + length lb) buf1 oth1) =
          Inr (us, on s0 (d # ds, p + length lb + length us) [] [])"
        by (rule read_some_part [OF _ d(1) e1]) (use d(3) n(1) in \<open>simp_all add: L_def\<close>)
      moreover have "p + length lb + length us + (length v - length us) = L" using n(1) by (simp add: L_def)
      ultimately have "?rd (on s0 c buf oth) = Inr (None, on s0 ?c [] [])"
        using n(1) d lim take
        by (simp add: read_string_body_def l then_s_def bind_s_def push_state_def message_pos_def message_len_def
            string_frame_def)
      then have "m (on s0 c buf oth) = Inr (Some ReadReturn_continue_nobuffers, on s0 ?c [] [])"
        unfolding c m R_def by (simp add: stall_on_empty)
      then have "waits lv m s0 (on s0 c buf oth) ReadReturn_continue_nobuffers ?c [] [] ys"
        by (rule waits_one) simp_all
      moreover have "ys = bytes_of_string (drop (length us) v)"
        using arg_cong [OF us(2), of "drop (length us)"] by (simp add: bytes_of_string_def drop_map)
      with feeds_readstring [of "length us" v "p + length lb + length us" L lv s0 nxt f d ds "[]"] n(1) d(4)
      have "feeds lv m s0 (filled nxt f v d # ds, L) ?c [] ys" by (simp add: L_def)
      ultimately show ?thesis
        by (intro exI [of _ ReadReturn_continue_nobuffers] exI [of _ ?c] exI [of _ "[]"]) simp
    qed
  qed
  then show "feeds lv m s0 (filled nxt f v d # ds, p + length lb + length v) (d # ds, p) buf (lb @ bytes_of_string v)"
    by (simp only: L_def)
qed

lemma readarray2_on:
  "m (on s0 (array_frame L a0 n done # ds, p) buf oth)
    = step_MessageElement_readarray2 (on s0 (array_frame L a0 n done # ds, p) buf oth)"
  by (subst common_on [of _ MessageElement_readarray2]) (simp_all add: array_frame_def common_states_def)

lemma readarray2_continue_on:
  "m ((on s0 (array_frame L a0 n done # ds, p) buf oth)\<lparr>ar_continue := cs\<rparr>)
    = step_MessageElement_readarray2 ((on s0 (array_frame L a0 n done # ds, p) buf oth)\<lparr>ar_continue := cs\<rparr>)"
  by (subst common [where d = "array_frame L a0 n done" and ds = ds])
    (simp_all add: array_frame_def common_states_def)

lemma fillable_array:
  assumes "length done + k = n" and "p + k = L" and "L < 4294967296" and "n < 4294967296"
  shows "fillable m s0 (array_frame L a0 n done # d # ds, p) k"
  unfolding fillable_def readarray2_on readarray2_continue_on
proof (intro allI impI)
  fix cs :: "byte list" assume cs: "cs \<noteq> []" "length cs \<le> k"
  let ?c = "(array_frame L a0 n done # d # ds, p)"
  note cont = readarray2_continue [of "done" cs n p L s0 a0 d ds]
  show "\<exists>x c'. step_MessageElement_readarray2 (on s0 ?c [] cs) = Inr (x, on s0 c' [] [])
    \<and> step_MessageElement_readarray2 ((on s0 ?c [] [])\<lparr>ar_continue := cs\<rparr>) = Inr (x, on s0 c' [] [])"
  proof (cases "length cs = k")
    case True
    with readarray2_all [of "done" cs n p L s0 a0 d ds "[]"] cont cs assms show ?thesis by (simp; blast)
  next
    case False
    with readarray2_part [of "done" cs n p L s0 a0 d ds] cont cs assms show ?thesis by (simp; blast)
  qed
qed

lemma feeds_readarray2:
  assumes "bs = done @ rest" and "rest \<noteq> []" and "p + length rest = L" and "L < 4294967296"
    and "length bs < 4294967296"
  shows "feeds lv m s0 (with_data MessageElement_finishreaddata (write_back (Frame_array a0 bs) (st_data d)) d # ds, L)
    (array_frame L a0 (length bs) done # d # ds, p) [] rest"
proof -
  let ?t = "(with_data MessageElement_finishreaddata (write_back (Frame_array a0 bs) (st_data d)) d # ds, L)"
  let ?n = "length bs"
  define X where "X = (\<lambda>c (buf :: byte list) rest. \<exists>done. buf = [] \<and> bs = done @ rest \<and> rest \<noteq> []
    \<and> c = (array_frame L a0 ?n done # d # ds, L - length rest) \<and> length rest \<le> L \<and> ?n < 4294967296)"
  have "X (array_frame L a0 ?n done # d # ds, p) [] rest"
    using assms unfolding X_def by (intro exI [of _ "done"]) auto
  then show ?thesis
  proof (rule feeds_coinduct)
    fix c buf rest oth zs
    assume "X c buf rest" and b: "buf @ oth = rest @ zs"
    then obtain "done" where X: "buf = []" "bs = done @ rest" "rest \<noteq> []"
      "c = (array_frame L a0 ?n done # d # ds, L - length rest)" "length rest \<le> L" "?n < 4294967296"
      by (auto simp: X_def)
    have "m (on s0 c buf oth) = Inr (None, on s0 ?t [] zs)"
      using readarray2_all [of "done" rest ?n "L - length rest" L s0 a0 d ds zs] X(2,3,5,6) assms(4) b
      unfolding X(1,4) readarray2_on by simp
    then have "goes_to m (on s0 c buf oth) (on s0 ?t [] zs)"
      by (rule goes_one) (use b X(1) in \<open>auto simp: suffix_of_def\<close>)
    then show "\<exists>buf' oth'. goes_to m (on s0 c buf oth) (on s0 ?t buf' oth') \<and> buf' @ oth' = zs" by fastforce
  next
    fix c buf rest oth ys
    assume "X c buf rest" and b: "rest = (buf @ oth) @ ys" "ys \<noteq> []"
    then obtain "done" where X: "buf = []" "bs = done @ rest" "rest \<noteq> []"
      "c = (array_frame L a0 ?n done # d # ds, L - length rest)" "length rest \<le> L" "?n < 4294967296"
      by (auto simp: X_def)
    let ?c = "(array_frame L a0 ?n (done @ oth) # d # ds, L - length ys)"
    have n: "?n = length done + length oth + length ys" "length rest = length oth + length ys"
      using X(1,2) b(1) by simp_all
    have "m (on s0 c buf oth) = Inr (Some (ReadReturn_continue_buffers (length ys)), on s0 ?c [] [])"
      using readarray2_part [of "done" oth ?n "L - length rest" L s0 a0 d ds] n X(5,6) assms(4) b(2)
      unfolding X(1,4) readarray2_on by simp
    moreover have "fillable m s0 ?c (length ys)"
      by (rule fillable_array) (use n X(5,6) assms(4) in simp_all)
    ultimately have "waits lv m s0 (on s0 c buf oth) (ReadReturn_continue_buffers (length ys)) ?c [] [] ys"
      using b(2) unfolding waits_def by auto
    moreover have "X ?c [] ys"
      unfolding X_def using X(1,2,5,6) b n by (intro exI [of _ "done @ oth"]) auto
    ultimately show "\<exists>r c' buf' oth'. waits lv m s0 (on s0 c buf oth) r c' buf' oth' ys
        \<and> (X c' buf' ((buf' @ oth') @ ys) \<or> feeds lv m s0 ?t c' buf' ((buf' @ oth') @ ys))"
      by (intro exI [of _ "ReadReturn_continue_buffers (length ys)"] exI [of _ ?c] exI [of _ "[]"]) simp
  qed
qed

lemma common_moves:
  assumes "st_state d = st" and "st \<in> common_states"
    and "\<And>buf oth. step_common st (on s0 (d # ds, p) buf oth) = Inr (None, on s0 c buf oth)"
  shows "moves m s0 (d # ds, p) c"
  by (rule movesI) (simp only: common_on [OF assms(1,2)] assms(3))

lemma moves_finish_entry:
  assumes "st_state d = MessageEntry_finishread" and "st_limit d = p" and "p < 4294967296"
  shows "moves m s0 (d # q # ds, p) (popped d q # ds, p)"
  by (rule common_moves [OF assms(1)])
    (use assms(2,3) in \<open>simp_all add: common_states_def step_finish_def DO_POP_STATE_def pop_state_on continue_def\<close>)

lemma moves_finish_element:
  assumes "st_state d = MessageElement_finishreaddata" and "st_limit d = p" and "p < 4294967296"
  shows "moves m s0 (d # q # ds, p) (popped d q # ds, p)"
  by (rule common_moves [OF assms(1)])
    (use assms(2,3) in \<open>simp_all add: common_states_def step_finish_def DO_POP_STATE_def pop_state_on continue_def\<close>)

lemma moves_readdata:
  assumes "st_state d = MessageElement_readdata" and "st_data d = Frame_element el"
  shows "type_group (ElementType (flds el)) = Group_void \<Longrightarrow> moves m s0 (d # q # ds, p) (popped d q # ds, p)"
    and "type_group (ElementType (flds el)) = Group_array \<Longrightarrow>
      moves m s0 (d # ds, p) (with_data MessageElement_readarray1 (st_data d) d # ds, p)"
    and "type_group (ElementType (flds el)) = Group_nested \<Longrightarrow>
      moves m s0 (d # ds, p) (with_data MessageElement_readnested1 (st_data d) d # ds, p)"
  by (rule common_moves [OF assms(1)];
      simp add: common_states_def step_MessageElement_readdata_def data_element_def bind_s_def top_frame_def
        assms(2) DO_POP_STATE_def then_s_def pop_state_on continue_def goto_def set_state_def upd_top_def with_data_def)+

text \<open>The data of an array element.\<close>

lemma seg_readarray1:
  assumes d: "st_state d = MessageElement_readarray1" "st_data d = Frame_element el"
      "ElementType (flds el) = array_type a" "unat (DataCount (flds el)) = array_size a"
    and lim: "p + length (array_bytes a) \<le> st_limit d" "bounded (st_limit d) ds"
  shows "seg lv m s0 (d # ds, p) (array_bytes a)
    (with_data MessageElement_finishreaddata (Frame_element (MessageElement (flds el) (Some (ArrayData a)))) d # ds,
     p + length (array_bytes a))"
  unfolding seg_def
proof
  fix buf
  let ?bs = "array_bytes a"
  let ?n = "length ?bs"
  let ?t = "(with_data MessageElement_finishreaddata
    (Frame_element (MessageElement (flds el) (Some (ArrayData a)))) d # ds, p + ?n)"
  have less: "p + ?n < 4294967296" "?n < 4294967296" using lim bounded_less [OF lim(2)] by simp_all
  have m1: "m (on s0 (d # ds, p) buf oth) = step_MessageElement_readarray1 (on s0 (d # ds, p) buf oth)" for buf oth
    by (subst common_on [OF d(1)]) (simp_all add: common_states_def)
  have "st_limit d \<le> st_limit (last (d # ds))" "st_limit (last (d # ds)) < 4294967296"
    using lim(2) by (simp_all add: bounded_def)
  from readarray1_on [OF d(2-4) lim(1) this, of s0] obtain a0 where
    a0: "array_type a0 = array_type a" "array_size a0 = array_size a"
    and all: "\<And>buf oth zs. buf @ oth = ?bs @ zs \<Longrightarrow>
      step_MessageElement_readarray1 (on s0 (d # ds, p) buf oth) = Inr (None,
        on s0 ?t (drop ?n buf) (drop (?n - length buf) oth))"
    and part: "\<And>buf oth done ys. buf @ oth = done \<Longrightarrow> ?bs = done @ ys \<Longrightarrow> ys \<noteq> [] \<Longrightarrow>
      step_MessageElement_readarray1 (on s0 (d # ds, p) buf oth) =
        Inr (Some (ReadReturn_continue_buffers (length ys)),
          on s0 (array_frame (p + ?n) a0 ?n done
            # d\<lparr>st_data := Frame_element (MessageElement (flds el) (Some (ArrayData a0)))\<rparr> # ds,
            p + length done) [] [])"
    by blast
  let ?d' = "d\<lparr>st_data := Frame_element (MessageElement (flds el) (Some (ArrayData a0)))\<rparr>"
  show "feeds lv m s0 ?t (d # ds, p) buf ?bs"
  proof (rule feeds.feedsI)
    fix oth zs assume b: "buf @ oth = ?bs @ zs"
    have "goes_to m (on s0 (d # ds, p) buf oth) (on s0 ?t (drop ?n buf) (drop (?n - length buf) oth))"
      by (rule goes_one) (simp_all only: m1 all [OF b] suffix_of_drop)
    with rest_bytes [OF b]
    show "\<exists>buf' oth'. goes_to m (on s0 (d # ds, p) buf oth) (on s0 ?t buf' oth') \<and> buf' @ oth' = zs" by blast
  next
    fix oth ys assume b: "?bs = (buf @ oth) @ ys" "ys \<noteq> []"
    let ?c = "(array_frame (p + ?n) a0 ?n (buf @ oth) # ?d' # ds, p + length (buf @ oth))"
    have n: "?n = length (buf @ oth) + length ys" using arg_cong [OF b(1), of length] by simp
    have "fillable m s0 ?c (length ys)"
      by (rule fillable_array) (use n less in simp_all)
    with m1 part [OF refl b] b(2) have "waits lv m s0 (on s0 (d # ds, p) buf oth) (ReadReturn_continue_buffers (length ys)) ?c [] [] ys"
      unfolding waits_def by auto
    moreover have "feeds lv m s0 ?t ?c [] ys"
      using feeds_readarray2 [OF b, of "p + length (buf @ oth)" "p + ?n" lv s0 a0 ?d' ds] n less
        fill_array_bytes [OF a0] by simp
    ultimately show "\<exists>r c' buf' oth'. waits lv m s0 (on s0 (d # ds, p) buf oth) r c' buf' oth' ys
        \<and> feeds lv m s0 ?t c' buf' ((buf' @ oth') @ ys)"
      by (intro exI [of _ "ReadReturn_continue_buffers (length ys)"] exI [of _ ?c] exI [of _ "[]"]) simp
  qed
qed

lemma seg_array_data:
  assumes d: "st_state d = MessageElement_readdata" "st_data d = Frame_element el"
      "ElementType (flds el) = array_type a" "unat (DataCount (flds el)) = array_size a"
    and lim: "st_limit d = p + length (array_bytes a)" "bounded (st_limit d) (q # ds)"
  shows "seg lv m s0 (d # q # ds, p) (array_bytes a)
    (with_data (st_pop_state d)
      (write_back (Frame_element (MessageElement (flds el) (Some (ArrayData a)))) (st_data q)) q # ds,
     p + length (array_bytes a))"
proof (rule moves_seg_trans)
  let ?d1 = "with_data MessageElement_readarray1 (st_data d) d"
  have "type_group (ElementType (flds el)) = Group_array" using d(3) by simp
  then show "moves m s0 (d # q # ds, p) (?d1 # q # ds, p)" by (rule moves_readdata(2) [OF d(1,2)])
  let ?d2 = "with_data MessageElement_finishreaddata
    (Frame_element (MessageElement (flds el) (Some (ArrayData a)))) d"
  have "seg lv m s0 (?d1 # q # ds, p) (array_bytes a) (?d2 # q # ds, p + length (array_bytes a))"
    using seg_readarray1 [of ?d1 el a p "q # ds" lv s0] d(2-4) lim by simp
  moreover have "moves m s0 (?d2 # q # ds, p + length (array_bytes a)) (popped ?d2 q # ds, p + length (array_bytes a))"
    by (rule moves_finish_element) (use lim bounded_less [OF lim(2)] in simp_all)
  ultimately show "seg lv m s0 (?d1 # q # ds, p) (array_bytes a)
    (with_data (st_pop_state d)
      (write_back (Frame_element (MessageElement (flds el) (Some (ArrayData a)))) (st_data q)) q # ds,
     p + length (array_bytes a))"
    unfolding popped_def by (simp add: seg_moves_trans)
qed

text \<open>The data of an element without any.\<close>

lemma seg_void_data:
  assumes "st_state d = MessageElement_readdata" and "st_data d = Frame_element el"
    and "ElementType (flds el) = DataTypes_void_t"
  shows "seg lv m s0 (d # q # ds, p) [] (with_data (st_pop_state d) (write_back (Frame_element el) (st_data q)) q # ds, p)"
  using moves_seg [OF moves_readdata(1) [OF assms(1,2)]] assms(2,3) by (simp add: popped_def type_group_void)

text \<open>Nested elements, given how one element is read.\<close>

lemma moves_readnested1:
  assumes d: "st_state d = MessageElement_readnested1" "st_data d = Frame_element el" "st_limit d = L"
    and el: "is_nested_type (ElementType (flds el))" "unat (DataCount (flds el)) = c" "4 * c < 4294967296"
    and lim: "p \<le> L" "bounded L ds"
  shows "moves m s0 (d # ds, p)
    (nested_frame L (ElementType (flds el)) (ElementTypeName (flds el)) c []
      # d\<lparr>st_data := Frame_element (MessageElement (flds el)
          (Some (NestedElementList (ElementType (flds el)) (ElementTypeName (flds el)) [])))\<rparr> # ds, p)"
proof (rule common_moves [OF d(1)])
  fix buf oth
  let ?t = "ElementType (flds el)" and ?tn = "ElementTypeName (flds el)"
  let ?d = "d\<lparr>st_data := Frame_element (MessageElement (flds el) (Some (NestedElementList ?t ?tn [])))\<rparr>"
  have e: "set_element_data (NestedElementList ?t ?tn []) el = MessageElement (flds el) (Some (NestedElementList ?t ?tn []))"
    by (cases el; cases "flds el") (simp add: set_element_data_def SetData_def)
  have "bounded (p + (L - p)) (?d # ds)" using lim by (auto simp: bounded_def)
  from push_state_on [OF this]
  show "step_common MessageElement_readnested1 (on s0 (d # ds, p) buf oth) = Inr (None,
    on s0 (nested_frame L ?t ?tn c [] # ?d # ds, p) buf oth)"
    using lim(1) bounded_less [OF lim(2)] el(3)
    by (simp add: step_MessageElement_readnested1_def data_element_def bind_s_def then_s_def top_frame_def d alloc_def
        el(1,2) e set_data_def upd_top_def nested_frame_def continue_def)
qed (simp add: common_states_def)

lemma moves_readnested2:
  "length es < c \<Longrightarrow> moves m s0 (nested_frame L t tn c es # ds, p)
     (with_data MessageElement_readnested3 (Frame_nested t tn es) (nested_frame L t tn c es) # ds, p)"
  "length es \<ge> c \<Longrightarrow> moves m s0 (nested_frame L t tn c es # q # ds, p) (popped (nested_frame L t tn c es) q # ds, p)"
  by (rule common_moves [of _ MessageElement_readnested2];
      simp add: nested_frame_def common_states_def step_MessageElement_readnested2_def bind_s_def top_frame_def
        DO_POP_STATE_def then_s_def pop_state_on continue_def goto_def set_state_def upd_top_def with_data_def)+

lemma moves_new_element:
  assumes "st_state d = MessageElement_init \<and> pop = MessageEntry_readelements
      \<or> st_state d = MessageElement_readnested3 \<and> pop = MessageElement_readnested2"
    and "p \<le> st_limit d" and "bounded (st_limit d) (d # ds)"
  shows "moves m s0 (d # ds, p) (elem_frame pop (st_limit d) # d # ds, p)"
proof (rule common_moves [OF refl])
  fix buf oth
  have "bounded (p + (st_limit d - p)) (d # ds)" using assms(2,3) by simp
  from push_state_on [OF this] show "step_common (st_state d) (on s0 (d # ds, p) buf oth)
    = Inr (None, on s0 (elem_frame pop (st_limit d) # d # ds, p) buf oth)"
    using assms(1,2) bounded_less [OF assms(3)]
    by (auto simp: step_new_element_def bind_s_def then_s_def elem_frame_def continue_def)
qed (use assms(1) in \<open>auto simp: common_states_def\<close>)

text \<open>How one element is read into its parent.\<close>

definition reads_element :: "bool \<Rightarrow> async_reader \<Rightarrow> state_type \<Rightarrow> byte list \<Rightarrow> MessageElement \<Rightarrow> bool" where
  "reads_element lv s0 pop bs v \<longleftrightarrow>
     (\<forall>L q ds p. p + length bs \<le> L \<longrightarrow> bounded L (q # ds) \<longrightarrow>
        seg lv m s0 (elem_frame pop L # q # ds, p) bs
          (with_data pop (write_back (Frame_element v) (st_data q)) q # ds, p + length bs))"

lemma reads_elementD:
  assumes "reads_element lv s0 pop bs v" and "p + length bs \<le> L" and "bounded L (q # ds)"
  shows "seg lv m s0 (elem_frame pop L # q # ds, p) bs
    (with_data pop (write_back (Frame_element v) (st_data q)) q # ds, p + length bs)"
  using assms unfolding reads_element_def by blast

lemma seg_nested_children:
  assumes "\<forall>e \<in> set es. reads_element lv s0 MessageElement_readnested2 (B e) (V e)"
    and "p + length (concat (map B es)) \<le> L" and "bounded L ds" and "c = length done + length es"
  shows "seg lv m s0 (nested_frame L t tn c done # ds, p) (concat (map B es))
    (nested_frame L t tn c (done @ map V es) # ds, p + length (concat (map B es)))"
  using assms
proof (induction es arbitrary: "done" p)
  case Nil
  then show ?case by simp
next
  case (Cons e es)
  let ?q = "with_data MessageElement_readnested3 (Frame_nested t tn done) (nested_frame L t tn c done)"
  have ne: "ds \<noteq> []" using Cons.prems(3) by (auto simp: bounded_def)
  have L: "st_limit (nested_frame L t tn c done) = L" by (simp add: nested_frame_def)
  have 1: "moves m s0 (nested_frame L t tn c done # ds, p) (?q # ds, p)"
    by (rule moves_readnested2) (use Cons.prems(4) in simp)
  have 2: "moves m s0 (?q # ds, p) (elem_frame MessageElement_readnested2 L # ?q # ds, p)"
    using moves_new_element [of ?q MessageElement_readnested2 p ds s0] Cons.prems(2,3) ne L by simp
  have "seg lv m s0 (elem_frame MessageElement_readnested2 L # ?q # ds, p) (B e)
      (with_data MessageElement_readnested2 (write_back (Frame_element (V e)) (st_data ?q)) ?q # ds, p + length (B e))"
    by (rule reads_elementD) (use Cons.prems(1-3) ne in simp_all)
  moreover have "with_data MessageElement_readnested2 (write_back (Frame_element (V e)) (st_data ?q)) ?q
      = nested_frame L t tn c (done @ [V e])"
    by (simp add: nested_frame_def with_data_def)
  ultimately have 3: "seg lv m s0 (elem_frame MessageElement_readnested2 L # ?q # ds, p) (B e)
      (nested_frame L t tn c (done @ [V e]) # ds, p + length (B e))" by (simp only:)
  note head = moves_seg_trans [OF 1 moves_seg_trans [OF 2 3]]
  have "seg lv m s0 (nested_frame L t tn c (done @ [V e]) # ds, p + length (B e)) (concat (map B es))
      (nested_frame L t tn c ((done @ [V e]) @ map V es) # ds, p + length (B e) + length (concat (map B es)))"
    by (rule Cons.IH) (use Cons.prems in simp_all)
  from seg_trans [OF head this] show ?case by (simp add: add.assoc)
qed

lemma seg_nested_data:
  assumes d: "st_state d = MessageElement_readdata" "st_data d = Frame_element el"
    and el: "is_nested_type (ElementType (flds el))" "unat (DataCount (flds el)) = length es"
      "4 * length es < 4294967296"
    and lim: "st_limit d = p + length (concat (map B es))" "bounded (st_limit d) (q # ds)"
    and ch: "\<forall>e \<in> set es. reads_element lv s0 MessageElement_readnested2 (B e) (V e)"
  shows "seg lv m s0 (d # q # ds, p) (concat (map B es))
    (with_data (st_pop_state d)
      (write_back (Frame_element (MessageElement (flds el)
        (Some (NestedElementList (ElementType (flds el)) (ElementTypeName (flds el)) (map V es))))) (st_data q)) q # ds,
     p + length (concat (map B es)))"
proof -
  let ?n = "length (concat (map B es))" and ?t = "ElementType (flds el)" and ?tn = "ElementTypeName (flds el)"
  let ?L = "p + ?n"
  let ?d1 = "with_data MessageElement_readnested1 (st_data d) d"
  let ?d2 = "?d1\<lparr>st_data := Frame_element (MessageElement (flds el) (Some (NestedElementList ?t ?tn [])))\<rparr>"
  let ?v = "Frame_element (MessageElement (flds el) (Some (NestedElementList ?t ?tn (map V es))))"
  let ?d3 = "with_data MessageElement_finishreaddata ?v d"
  let ?f = "nested_frame ?L ?t ?tn (length es)"
  have b: "bounded ?L (q # ds)" "bounded ?L (?d2 # q # ds)" "?L < 4294967296"
    using lim bounded_less [OF lim(2)] by simp_all
  have "type_group ?t = Group_nested" using el(1) by (simp add: type_group_nested)
  then have 1: "moves m s0 (d # q # ds, p) (?d1 # q # ds, p)" by (rule moves_readdata(3) [OF d])
  have 2: "moves m s0 (?d1 # q # ds, p) (?f [] # ?d2 # q # ds, p)"
    using moves_readnested1 [of ?d1 el ?L "length es" p "q # ds" s0] d(2) el lim(1) b(1) by simp
  have 3: "seg lv m s0 (?f [] # ?d2 # q # ds, p) (concat (map B es)) (?f ([] @ map V es) # ?d2 # q # ds, p + ?n)"
    by (rule seg_nested_children [OF ch]) (use b(2) in simp_all)
  have "popped (?f (map V es)) ?d2 = ?d3"
    by (simp add: popped_def nested_frame_def with_data_def)
  with moves_readnested2(2) [of "length es" "map V es" s0 ?L ?t ?tn ?d2 "q # ds" "p + ?n"]
  have 4: "moves m s0 (?f (map V es) # ?d2 # q # ds, p + ?n) (?d3 # q # ds, p + ?n)" by simp
  have 5: "moves m s0 (?d3 # q # ds, p + ?n) (popped ?d3 q # ds, p + ?n)"
    by (rule moves_finish_element) (use lim(1) b(3) in simp_all)
  have "seg lv m s0 (d # q # ds, p) (concat (map B es)) (popped ?d3 q # ds, p + ?n)"
    using seg_moves_trans [OF seg_moves_trans [OF moves_seg_trans [OF 1 moves_seg_trans [OF 2 3]]]] 4 5
    by simp
  then show ?thesis by (simp add: popped_def)
qed

end

end
