(* ===== verification/RR_AsyncReader_Message.thy ===== *)
theory RR_AsyncReader_Message
  imports RR_AsyncReader_Laws
begin

text \<open>
  The resumable reader above the elements, for both versions: an entry from how its elements are
  read, a message from how its entries are read, and the end of a message.
\<close>

section \<open>Frames of entries and of the message\<close>

definition xframe :: "nat \<times> nat \<Rightarrow> state_type \<Rightarrow> message_entry \<Rightarrow> state_data" where
  "xframe c st e =
     \<lparr>st_state = st, st_pop_state = Message_readentries, st_limit = fst c, st_data = Frame_entry e,
      st_param1 = snd c, st_param2 = 0, st_param3 = ''''\<rparr>"

definition mframe :: "nat \<Rightarrow> state_type \<Rightarrow> message \<Rightarrow> state_data" where
  "mframe L st msg =
     \<lparr>st_state = st, st_pop_state = Message_init, st_limit = L, st_data = Frame_message msg,
      st_param1 = 0, st_param2 = 0, st_param3 = ''''\<rparr>"

lemma xframe_simps [simp]:
  "st_state (xframe c st e) = st" "st_pop_state (xframe c st e) = Message_readentries"
  "st_limit (xframe c st e) = fst c" "st_data (xframe c st e) = Frame_entry e" "st_param1 (xframe c st e) = snd c"
  "with_data st' (Frame_entry e') (xframe c st e) = xframe c st' e'"
  by (simp_all add: xframe_def with_data_def)

lemma mframe_simps [simp]:
  "st_state (mframe L st msg) = st" "st_limit (mframe L st msg) = L" "st_data (mframe L st msg) = Frame_message msg"
  "with_data st' (Frame_message msg') (mframe L st msg) = mframe L st' msg'"
  by (simp_all add: mframe_def with_data_def)

context reader_steps
begin

lemma moves_readelements:
  "length (elements e) < c \<Longrightarrow> moves m s0 (xframe (L, c) MessageEntry_readelements e # ds, p)
     (xframe (L, c) MessageElement_init e # ds, p)"
  "c \<le> length (elements e) \<Longrightarrow> moves m s0 (xframe (L, c) MessageEntry_readelements e # ds, p)
     (xframe (L, c) MessageEntry_finishread e # ds, p)"
  by (rule common_moves [of _ MessageEntry_readelements];
      simp add: common_states_def step_MessageEntry_readelements_def data_entry_def param1_def bind_s_def top_frame_def
        then_s_def goto_def set_state_def upd_top_def continue_def xframe_def)+

lemma seg_entry_elements:
  assumes "\<forall>e \<in> set es. reads_element lv s0 MessageEntry_readelements (B e) (V e)"
    and "p + length (concat (map B es)) \<le> L" and "bounded L ds" and "c = length (elements x) + length es"
  shows "seg lv m s0 (xframe (L, c) MessageEntry_readelements x # ds, p) (concat (map B es))
    (xframe (L, c) MessageEntry_readelements (x\<lparr>elements := elements x @ map V es\<rparr>) # ds,
     p + length (concat (map B es)))"
  using assms
proof (induction es arbitrary: x p)
  case Nil
  then show ?case by simp
next
  case (Cons e es)
  let ?q = "xframe (L, c) MessageElement_init x"
  let ?x = "x\<lparr>elements := elements x @ [V e]\<rparr>"
  have ne: "ds \<noteq> []" using Cons.prems(3) by (auto simp: bounded_def)
  have 1: "moves m s0 (xframe (L, c) MessageEntry_readelements x # ds, p) (?q # ds, p)"
    by (rule moves_readelements) (use Cons.prems(4) in simp)
  have 2: "moves m s0 (?q # ds, p) (elem_frame MessageEntry_readelements L # ?q # ds, p)"
    using moves_new_element [of ?q MessageEntry_readelements p ds s0] Cons.prems(2,3) ne by simp
  have "seg lv m s0 (elem_frame MessageEntry_readelements L # ?q # ds, p) (B e)
      (with_data MessageEntry_readelements (write_back (Frame_element (V e)) (st_data ?q)) ?q # ds, p + length (B e))"
    by (rule reads_elementD) (use Cons.prems(1-3) ne in simp_all)
  then have 3: "seg lv m s0 (elem_frame MessageEntry_readelements L # ?q # ds, p) (B e)
      (xframe (L, c) MessageEntry_readelements ?x # ds, p + length (B e))" by simp
  note head = moves_seg_trans [OF 1 moves_seg_trans [OF 2 3]]
  have "seg lv m s0 (xframe (L, c) MessageEntry_readelements ?x # ds, p + length (B e)) (concat (map B es))
      (xframe (L, c) MessageEntry_readelements (?x\<lparr>elements := elements ?x @ map V es\<rparr>) # ds,
       p + length (B e) + length (concat (map B es)))"
    by (rule Cons.IH) (use Cons.prems in simp_all)
  from seg_trans [OF head this] show ?case by (simp add: add.assoc)
qed

text \<open>From the count of the elements to the end of the entry.\<close>

lemma seg_entry_rest:
  assumes ch: "\<forall>e \<in> set es. reads_element lv s0 MessageEntry_readelements (B e) (V e)"
    and lim: "L = p + length (concat (map B es))" "bounded L (q # ds)" and x: "elements x = []"
  shows "seg lv m s0 (xframe (L, length es) MessageEntry_readelements x # q # ds, p) (concat (map B es))
    (with_data Message_readentries (write_back (Frame_entry (x\<lparr>elements := map V es\<rparr>)) (st_data q)) q # ds, L)"
proof -
  let ?x = "x\<lparr>elements := map V es\<rparr>"
  have "seg lv m s0 (xframe (L, length es) MessageEntry_readelements x # q # ds, p) (concat (map B es))
      (xframe (L, length es) MessageEntry_readelements (x\<lparr>elements := elements x @ map V es\<rparr>) # q # ds,
       p + length (concat (map B es)))"
    by (rule seg_entry_elements [OF ch _ lim(2)]) (use lim(1) x in simp_all)
  then have 1: "seg lv m s0 (xframe (L, length es) MessageEntry_readelements x # q # ds, p) (concat (map B es))
      (xframe (L, length es) MessageEntry_readelements ?x # q # ds, L)" using x lim(1) by simp
  have 2: "moves m s0 (xframe (L, length es) MessageEntry_readelements ?x # q # ds, L)
      (xframe (L, length es) MessageEntry_finishread ?x # q # ds, L)"
    by (rule moves_readelements) simp
  have 3: "moves m s0 (xframe (L, length es) MessageEntry_finishread ?x # q # ds, L)
      (popped (xframe (L, length es) MessageEntry_finishread ?x) q # ds, L)"
    by (rule moves_finish_entry) (use bounded_less [OF lim(2)] in simp_all)
  from seg_moves_trans [OF seg_moves_trans [OF 1 2] 3] show ?thesis by (simp add: popped_def)
qed

text \<open>How one entry is read into the message.\<close>

definition reads_entry :: "bool \<Rightarrow> async_reader \<Rightarrow> byte list \<Rightarrow> message_entry \<Rightarrow> bool" where
  "reads_entry lv s0 bs v \<longleftrightarrow>
     (\<forall>L q ds p. p + length bs \<le> L \<longrightarrow> bounded L (q # ds) \<longrightarrow>
        seg lv m s0 (xframe (L, 0) MessageEntry_entrysize CreateMessageEntry # q # ds, p) bs
          (with_data Message_readentries (write_back (Frame_entry v) (st_data q)) q # ds, p + length bs))"

lemma reads_entryD:
  assumes "reads_entry lv s0 bs v" and "p + length bs \<le> L" and "bounded L (q # ds)"
  shows "seg lv m s0 (xframe (L, 0) MessageEntry_entrysize CreateMessageEntry # q # ds, p) bs
    (with_data Message_readentries (write_back (Frame_entry v) (st_data q)) q # ds, p + length bs)"
  using assms unfolding reads_entry_def by blast

lemma moves_readentries:
  assumes "header msg = Some h"
  shows "length (entries msg) < unat (EntryCount h) \<Longrightarrow>
      moves m s0 ([mframe L Message_readentries msg], p) ([mframe L MessageEntry_init msg], p)"
    and "unat (EntryCount h) \<le> length (entries msg) \<Longrightarrow>
      moves m s0 ([mframe L Message_readentries msg], p) ([mframe L Message_done msg], p)"
  using assms
  by - (rule common_moves [of _ Message_readentries];
      simp add: common_states_def step_Message_readentries_def data_message_def bind_s_def top_frame_def
        then_s_def goto_def set_state_def upd_top_def continue_def mframe_def)+

lemma moves_new_entry:
  assumes "p \<le> L" and "L < 4294967296"
  shows "moves m s0 ([mframe L MessageEntry_init msg], p)
    ([xframe (L, 0) MessageEntry_entrysize CreateMessageEntry, mframe L MessageEntry_init msg], p)"
proof (rule common_moves [of _ MessageEntry_init])
  fix buf oth
  let ?q = "mframe L MessageEntry_init msg"
  have "bounded (p + (L - p)) [?q]" using assms by (simp add: bounded_def)
  from push_state_on [OF this]
  show "step_common MessageEntry_init (on s0 ([?q], p) buf oth)
    = Inr (None, on s0 ([xframe (L, 0) MessageEntry_entrysize CreateMessageEntry, ?q], p) buf oth)"
    using assms by (simp add: step_MessageEntry_init_def bind_s_def then_s_def xframe_def continue_def)
qed (simp_all add: common_states_def)

lemma seg_message_entries:
  assumes "\<forall>e \<in> set es. reads_entry lv s0 (B e) (V e)" and "header msg = Some h"
    and "p + length (concat (map B es)) \<le> L" and "L < 4294967296"
    and "unat (EntryCount h) = length (entries msg) + length es"
  shows "seg lv m s0 ([mframe L Message_readentries msg], p) (concat (map B es))
    ([mframe L Message_done (msg\<lparr>entries := entries msg @ map V es\<rparr>)], p + length (concat (map B es)))"
  using assms
proof (induction es arbitrary: msg p)
  case Nil
  have "moves m s0 ([mframe L Message_readentries msg], p) ([mframe L Message_done msg], p)"
    by (rule moves_readentries(2) [OF Nil.prems(2)]) (use Nil.prems(5) in simp)
  then show ?case by (simp add: moves_seg)
next
  case (Cons e es)
  let ?q = "mframe L MessageEntry_init msg" and ?m = "msg\<lparr>entries := entries msg @ [V e]\<rparr>"
  have 1: "moves m s0 ([mframe L Message_readentries msg], p) ([?q], p)"
    by (rule moves_readentries [OF Cons.prems(2)]) (use Cons.prems(5) in simp)
  have 2: "moves m s0 ([?q], p) ([xframe (L, 0) MessageEntry_entrysize CreateMessageEntry, ?q], p)"
    by (rule moves_new_entry) (use Cons.prems in simp_all)
  have "seg lv m s0 ([xframe (L, 0) MessageEntry_entrysize CreateMessageEntry, ?q], p) (B e)
      ([with_data Message_readentries (write_back (Frame_entry (V e)) (st_data ?q)) ?q], p + length (B e))"
    by (rule reads_entryD) (use Cons.prems in \<open>simp_all add: bounded_def\<close>)
  then have 3: "seg lv m s0 ([xframe (L, 0) MessageEntry_entrysize CreateMessageEntry, ?q], p) (B e)
      ([mframe L Message_readentries ?m], p + length (B e))" by simp
  note head = moves_seg_trans [OF 1 moves_seg_trans [OF 2 3]]
  have "seg lv m s0 ([mframe L Message_readentries ?m], p + length (B e)) (concat (map B es))
      ([mframe L Message_done (?m\<lparr>entries := entries ?m @ map V es\<rparr>)],
       p + length (B e) + length (concat (map B es)))"
    by (rule Cons.IH) (use Cons.prems in simp_all)
  from seg_trans [OF head this] show ?case by (simp add: add.assoc)
qed

text \<open>The end of the message: it is queued, and what follows it is kept for the next one.\<close>

lemma done_on:
  assumes "L < 4294967296"
  obtains buf' oth' where
    "m (on s0 ([mframe L Message_done msg], L) buf oth) = Inr (Some ReadReturn_done,
       (on s0 ([mframe L Message_done msg], L) buf' oth')\<lparr>ar_messages := ar_messages s0 @ [msg]\<rparr>)"
    and "buf' @ oth' = buf @ oth"
proof -
  let ?n = "min (buf_len - length buf) (length oth)"
  have "m (on s0 ([mframe L Message_done msg], L) buf oth) = Inr (Some ReadReturn_done,
      (on s0 ([mframe L Message_done msg], L) (buf @ take ?n oth) (drop ?n oth))\<lparr>ar_messages := ar_messages s0 @ [msg]\<rparr>)"
    using assms
    by (subst common_on [of _ Message_done])
      (simp_all add: common_states_def step_Message_done_def then_s_def bind_s_def prepare_continue_on Let_def
        data_message_def top_frame_def)
  then show thesis by (rule that) simp
qed

end

section \<open>Calls\<close>

lemma read_loop_return: "m s = Inr (Some r, s') \<Longrightarrow> read_loop m s = Some (Inr (r, s'))"
  by (subst read_loop.simps) simp

lemma read_loop_goes: "goes_to m s s' \<Longrightarrow> read_loop m s = read_loop m s'"
proof (induction rule: converse_rtranclp_induct)
  case (step s s1)
  then have "read_loop m s = read_loop m s1" by (subst read_loop.simps) (simp add: goes_def)
  with step.IH show ?case by simp
qed simp

lemma suffix_of_length: "suffix_of ys xs \<Longrightarrow> drop (length xs - length ys) xs = ys"
  by (auto simp: suffix_of_def)

lemma read_call_goes:
  assumes "goes_to m (s\<lparr>ar_other := xs, ar_continue := cs\<rparr>) s1" and "m s1 = Inr (Some r, s')"
  shows "read_call m xs cs s = Some (Inr ((r, length xs - length (ar_other s')), s'))"
  using read_loop_goes [OF assms(1)] read_loop_return [of m s1, OF assms(2)] by (simp add: read_call_def)

text \<open>
  A call that has some of the bytes that are missing: it asks for more, and what it has not used
  is the end of what it was given.
\<close>

lemma read_call_part:
  assumes start: "goes_to m (s\<lparr>ar_other := xs, ar_continue := []\<rparr>) (on s0 c buf oth)"
    and f: "feeds lv m s0 t c buf ((buf @ oth) @ ys)" and ys: "ys \<noteq> []" and len: "length (buf @ oth) < 2 ^ 32"
  obtains r c' buf' used where
    "read_call m xs [] s = Some (Inr ((r, used), on s0 c' buf' (drop used xs)))"
    and "used \<le> length xs" and "length buf' + (length xs - used) \<le> length buf + length oth" and "feeds lv m s0 t c' buf' ((buf' @ drop used xs) @ ys)"
    and "r = ReadReturn_continue_nobuffers \<and> (used = length xs \<or> lv)
      \<or> (\<exists>n. r = ReadReturn_continue_buffers n \<and> buf' = [] \<and> used = length xs \<and> fillable m s0 c' n
            \<and> 0 < n \<and> n \<le> length ys)"
proof -
  from feeds_part [OF f refl ys len] obtain r c' buf' oth' where
    w: "waits lv m s0 (on s0 c buf oth) r c' buf' oth' ys" and f': "feeds lv m s0 t c' buf' ((buf' @ oth') @ ys)"
    by blast
  from w obtain s1 where s1: "goes_to m (on s0 c buf oth) s1" "m s1 = Inr (Some r, on s0 c' buf' oth')"
    "suffix_of oth' (ar_other s1)" unfolding waits_def by blast
  have "suffix_of oth xs" using goes_suffix [OF start] by simp
  moreover have "suffix_of (ar_other s1) oth" using goes_suffix [OF s1(1)] by simp
  ultimately have suf: "suffix_of oth' xs" using s1(3) by (blast intro: suffix_of_trans)
  define used where "used = length xs - length oth'"
  have oth': "oth' = drop used xs" using suffix_of_length [OF suf] by (simp add: used_def)
  have call: "read_call m xs [] s = Some (Inr ((r, used), on s0 c' buf' oth'))"
    using read_call_goes [OF rtranclp_trans [OF start s1(1)] s1(2)] by (simp add: used_def)
  have le: "used \<le> length xs" and all: "oth' = [] \<Longrightarrow> used = length xs" by (simp_all add: used_def)
  have "r = ReadReturn_continue_nobuffers \<and> (used = length xs \<or> lv)
      \<or> (\<exists>n. r = ReadReturn_continue_buffers n \<and> buf' = [] \<and> used = length xs \<and> fillable m s0 c' n
            \<and> 0 < n \<and> n \<le> length ys)"
    using w all by (cases r) (auto simp: waits_def)
  moreover have "length buf' + (length xs - used) \<le> length buf + length oth"
    using w by (simp add: waits_def oth')
  ultimately show thesis using that [OF call [unfolded oth'] le _ f' [unfolded oth']] by blast
qed

text \<open>A call that has all the bytes that are missing.\<close>

lemma read_call_all:
  assumes start: "goes_to m (s\<lparr>ar_other := xs, ar_continue := []\<rparr>) (on s0 c buf oth)"
    and f: "feeds lv m s0 t c buf (buf @ oth)" and len: "length (buf @ oth) < 2 ^ 32"
    and fin: "m (on s0 t [] []) = Inr (Some ReadReturn_done, s')" "ar_other s' = []"
  shows "read_call m xs [] s = Some (Inr ((ReadReturn_done, length xs), s'))"
proof -
  from feeds_all [OF f _ len, of "[]"] obtain b' o' where
    g: "goes_to m (on s0 c buf oth) (on s0 t b' o')" and "b' @ o' = []" by auto
  then have "goes_to m (s\<lparr>ar_other := xs, ar_continue := []\<rparr>) (on s0 t [] [])"
    using rtranclp_trans [OF start] by simp
  from read_call_goes [OF this fin(1)] show ?thesis by (simp add: fin(2))
qed

text \<open>Bytes in the continuation buffers instead of the buffers of the call.\<close>

lemma read_call_continue:
  assumes "fillable m s0 c n" and "cs \<noteq> []" and "length cs \<le> n"
  shows "read_call m [] cs (on s0 c [] o') =
    map_option (\<lambda>r. bind_r r (\<lambda>((x, _), s). Inr ((x, 0), s))) (read_call m cs [] (on s0 c [] o'))"
proof -
  from assms obtain x c' where x: "m (on s0 c [] cs) = Inr (x, on s0 c' [] [])"
    "m ((on s0 c [] [])\<lparr>ar_continue := cs\<rparr>) = Inr (x, on s0 c' [] [])"
    unfolding fillable_def by blast
  have e: "(on s0 c [] o')\<lparr>ar_other := cs, ar_continue := []\<rparr> = on s0 c [] cs"
    "(on s0 c [] o')\<lparr>ar_other := [], ar_continue := cs\<rparr> = (on s0 c [] [])\<lparr>ar_continue := cs\<rparr>"
    by (simp_all add: on_def)
  have "read_loop m (on s0 c [] cs) = read_loop m ((on s0 c [] [])\<lparr>ar_continue := cs\<rparr>)"
    by (subst (1 2) read_loop.simps) (simp add: x)
  then show ?thesis
    unfolding read_call_def e
    by (simp add: map_option.compositionality o_def bind_r_def split_def cong: option.map_cong)
      (auto split: sum.splits option.splits intro!: map_option_cong)
qed

text \<open>
  A reader between two calls: \<open>ys\<close> is what is missing of a message of \<open>N\<close> bytes that will be read as
  \<open>mv\<close>, \<open>ret\<close> is what the last call returned.  When nothing is missing the message is there.
\<close>

definition reader_at ::
  "step \<Rightarrow> message \<Rightarrow> nat \<Rightarrow> byte list \<Rightarrow> read_return \<Rightarrow> async_reader \<Rightarrow> bool" where
  "reader_at m mv N ys ret rd \<longleftrightarrow>
     (if ys = [] then ret = ReadReturn_done \<and> ar_messages rd = [mv]
      else
        \<exists>s0 c buf. ar_messages s0 = [] \<and> rd = on s0 c buf []
          \<and> feeds False m s0 ([mframe N Message_done mv], N) c buf (buf @ ys) \<and> length buf + length ys \<le> N
          \<and> (ret = ReadReturn_continue_nobuffers
             \<or> (\<exists>n. ret = ReadReturn_continue_buffers n \<and> buf = [] \<and> fillable m s0 c n \<and> 0 < n \<and> n \<le> length ys)))"

lemma on_continue [simp]: "(on s0 c buf oth)\<lparr>ar_continue := []\<rparr> = on s0 c buf oth"
  by (simp add: on_def)

context reader_steps
begin

lemma reader_at_goes:
  assumes start: "goes_to m (rd\<lparr>ar_other := bs, ar_continue := []\<rparr>) (on s0 c buf oth)"
    and f: "feeds False m s0 ([mframe N Message_done mv], N) c buf ((buf @ oth) @ ys)"
    and len: "length buf + length oth + length ys \<le> N" "N < 4294967296" and s0: "ar_messages s0 = []"
  obtains ret rd' where "read_call m bs [] rd = Some (Inr ((ret, length bs), rd'))" and "reader_at m mv N ys ret rd'"
proof (cases "ys = []")
  case True
  obtain b' o' where "m (on s0 ([mframe N Message_done mv], N) [] []) = Inr (Some ReadReturn_done,
      (on s0 ([mframe N Message_done mv], N) b' o')\<lparr>ar_messages := ar_messages s0 @ [mv]\<rparr>)" and "b' @ o' = [] @ []"
    by (rule done_on [OF len(2)])
  then have "read_call m bs [] rd = Some (Inr ((ReadReturn_done, length bs),
      (on s0 ([mframe N Message_done mv], N) b' o')\<lparr>ar_messages := ar_messages s0 @ [mv]\<rparr>))"
    using f True len by (intro read_call_all [OF start]) simp_all
  then show thesis using that True s0 by (simp add: reader_at_def)
next
  case False
  have "length (buf @ oth) < 2 ^ 32" using len by simp
  from read_call_part [OF start f False this] obtain r c' buf' used where
    call: "read_call m bs [] rd = Some (Inr ((r, used), on s0 c' buf' (drop used bs)))"
    and le: "used \<le> length bs" "length buf' + (length bs - used) \<le> length buf + length oth"
    and f': "feeds False m s0 ([mframe N Message_done mv], N) c' buf' ((buf' @ drop used bs) @ ys)"
    and r: "r = ReadReturn_continue_nobuffers \<and> (used = length bs \<or> False)
      \<or> (\<exists>n. r = ReadReturn_continue_buffers n \<and> buf' = [] \<and> used = length bs \<and> fillable m s0 c' n
            \<and> 0 < n \<and> n \<le> length ys)" .
  then have used: "used = length bs" by auto
  have "length buf' + length ys \<le> N" using le(2) len(1) used by simp
  moreover have "feeds False m s0 ([mframe N Message_done mv], N) c' buf' (buf' @ ys)" using f' used by simp
  ultimately have "reader_at m mv N ys r (on s0 c' buf' [])"
    unfolding reader_at_def if_not_P [OF False] using s0 r
    by (intro exI [of _ s0] exI [of _ c'] exI [of _ buf'] conjI refl) auto
  with that call used show thesis by simp
qed

lemma reader_at_call:
  assumes "reader_at m mv N (bs @ ys) ret rd" and "bs \<noteq> []" and "N < 4294967296"
  obtains ret' rd' where "read_call m bs [] rd = Some (Inr ((ret', length bs), rd'))" and "reader_at m mv N ys ret' rd'"
proof -
  from assms(1,2) obtain s0 c buf where s0: "ar_messages s0 = []" and rd: "rd = on s0 c buf []"
    and f: "feeds False m s0 ([mframe N Message_done mv], N) c buf (buf @ bs @ ys)"
    and len: "length buf + length (bs @ ys) \<le> N"
    unfolding reader_at_def by auto
  have "goes_to m (rd\<lparr>ar_other := bs, ar_continue := []\<rparr>) (on s0 c buf bs)" by (simp add: rd)
  from reader_at_goes [OF this _ _ assms(3) s0, of mv ys] that f len show thesis by auto
qed

lemma reader_at_continue:
  assumes "reader_at m mv N (bs @ ys) (ReadReturn_continue_buffers n) rd" and "bs \<noteq> []" and "length bs \<le> n"
    and "N < 4294967296"
  obtains ret' rd' where "read_call m [] bs rd = Some (Inr ((ret', 0), rd'))" and "reader_at m mv N ys ret' rd'"
proof -
  from assms(1,2) obtain s0 c where rd: "rd = on s0 c [] []" and f: "fillable m s0 c n"
    unfolding reader_at_def by auto
  from reader_at_call [OF assms(1,2,4)] obtain ret' rd' where
    "read_call m bs [] rd = Some (Inr ((ret', length bs), rd'))" and at: "reader_at m mv N ys ret' rd'" .
  with read_call_continue [OF f assms(2,3), of "[]"] have "read_call m [] bs rd = Some (Inr ((ret', 0), rd'))"
    by (simp add: rd)
  with that at show thesis by blast
qed

end

end
