(* ===== verification/RR_AsyncReader4_Laws.thy ===== *)
theory RR_AsyncReader4_Laws
  imports RR_AsyncReader_Message
begin

text \<open>
  The resumable reader of version 4 takes the encoding of a valid element, entry and header to the
  state that holds what the one-shot \<open>Read4\<close> reads, in whatever portions the bytes arrive.
\<close>

interpretation r4: reader_steps step4
proof
  fix s :: async_reader and d ds
  assume "ar_stack s = d # ds" and "st_state d \<in> common_states"
  then show "step4 s = step_common (st_state d) s"
    by (auto simp: step4_def bind_s_def top_frame_def common_states_def)
qed

lemma step4_on: "step4 (on s0 (d # ds, p) buf oth) = step4_header (st_state d) (on s0 (d # ds, p) buf oth)"
  by (simp add: step4_def bind_s_def top_frame_def)

lemma takes_read8: "takes (read_number :: 8 word option ar) (num_bytes v) v"
  by (rule takes_read_number) simp

lemma takes_read16: "takes (read_number :: 16 word option ar) (num_bytes v) v"
  by (rule takes_read_number) simp

lemma takes_read32: "takes (read_number :: 32 word option ar) (num_bytes v) v"
  by (rule takes_read_number) simp

lemma takes_read_extended:
  assumes "length ext = n"
  shows "takes (read_extended (replicate n 0)) ext ext"
proof (cases "n = 0")
  case True
  then show ?thesis using assms by (intro takesI) (simp_all add: read_extended_def)
next
  case False
  then show ?thesis using takes_read_all_bytes [OF assms] by (simp add: read_extended_def)
qed

section \<open>Fields under flags\<close>

text \<open>
  What headers, entries and elements have in common: an object in a frame \<open>mk c st x\<close> (\<open>c\<close> stands
  for what does not change while its fields are read), with flags that say which fields follow,
  and the two ways in which a state reads a field.
\<close>

locale flagged_fields =
  fixes mk :: "'c \<Rightarrow> state_type \<Rightarrow> 'x \<Rightarrow> state_data" and lim :: "'c \<Rightarrow> nat" and flags :: "'x \<Rightarrow> byte"
    and upd :: "('x \<Rightarrow> 'x) \<Rightarrow> unit ar" and if_flag :: "byte \<Rightarrow> step \<Rightarrow> state_type \<Rightarrow> step"
    and fields :: "string_field set" and set_string :: "string_field \<Rightarrow> string \<Rightarrow> 'x \<Rightarrow> 'x"
  assumes state: "st_state (mk c st x) = st"
    and limit: "st_limit (mk c st x) = lim c"
    and upd_on: "then_s (upd g) (goto nxt) (on s0 (mk c st x # ds, p) buf oth)
      = Inr (None, on s0 (mk c nxt (g x) # ds, p) buf oth)"
    and if_flag_on: "if_flag fl k nxt (on s0 (mk c st x # ds, p) buf oth) =
      (if flag_set (flags x) fl then k (on s0 (mk c st x # ds, p) buf oth)
       else Inr (None, on s0 (mk c nxt x # ds, p) buf oth))"
    and filled_mk: "f \<in> fields \<Longrightarrow> filled nxt f v (mk c st x) = mk c nxt (set_string f v x)"
begin

lemma seg_field:
  assumes "step4_header st = R rd (\<lambda>v. then_s (upd (g v)) (goto nxt))" and "takes rd bs v"
    and "p + length bs \<le> lim c" and "lim c < 4294967296" and "x' = g v x" and "length bs \<le> 128"
  shows "seg lv step4 s0 (mk c st x # ds, p) bs (mk c nxt x' # ds, p + length bs)"
  unfolding assms(5)
  by (rule seg_R [OF assms(2), where k = "\<lambda>v. then_s (upd (g v)) (goto nxt)"])
    (use assms(3,4,6) in \<open>simp_all add: limit state step4_on assms(1) upd_on\<close>)

lemma seg_skip:
  assumes "step4_header st = if_flag fl k nxt" and "\<not> flag_set (flags x) fl"
  shows "seg lv step4 s0 (mk c st x # ds, p) [] (mk c nxt x # ds, p)"
  by (rule moves_seg, rule movesI) (simp add: step4_on state assms if_flag_on)

lemma seg_flagged:
  assumes "step4_header st = if_flag fl (R rd (\<lambda>v. then_s (upd (g v)) (goto nxt))) nxt'"
    and "flag_set (flags x) fl" and "takes rd bs v"
    and "p + length bs \<le> lim c" and "lim c < 4294967296" and "x' = g v x" and "length bs \<le> 128"
  shows "seg lv step4 s0 (mk c st x # ds, p) bs (mk c nxt x' # ds, p + length bs)"
  unfolding assms(6)
  by (rule seg_R [OF assms(3), where k = "\<lambda>v. then_s (upd (g v)) (goto nxt)"])
    (use assms(2,4,5,7) in \<open>simp_all add: limit state step4_on assms(1) if_flag_on upd_on\<close>)

lemma seg_when:
  assumes "step4_header st = if_flag fl (R rd (\<lambda>v. then_s (upd (g v)) (goto nxt))) nxt" and "takes rd bs v"
    and "p + length (if flag_set (flags x) fl then bs else []) \<le> lim c" and "lim c < 4294967296"
    and "x' = (if flag_set (flags x) fl then g v x else x)" and "length bs \<le> 128"
  shows "seg lv step4 s0 (mk c st x # ds, p) (if flag_set (flags x) fl then bs else [])
    (mk c nxt x' # ds, p + length (if flag_set (flags x) fl then bs else []))"
proof (cases "flag_set (flags x) fl")
  case True
  with seg_flagged [OF assms(1) True assms(2)] assms(3-6) show ?thesis by simp
next
  case False
  with seg_skip [OF assms(1) False] assms(5) show ?thesis by simp
qed

lemma seg_string:
  assumes "step4_header st = R (read_string4 f nxt) (\<lambda>_. goto nxt)" and "f \<in> fields"
    and "p + length (xstring_bytes v) \<le> lim c" and "bounded (lim c) ds" and "x' = set_string f v x"
  shows "seg lv step4 s0 (mk c st x # ds, p) (xstring_bytes v) (mk c nxt x' # ds, p + length (xstring_bytes v))"
proof -
  have "length v < 4294967296" using assms(3) bounded_less [OF assms(4)] by (simp add: xstring_bytes_def)
  then have "seg lv step4 s0 (mk c st x # ds, p) (uintx_bytes (of_nat (length v)) @ bytes_of_string v)
      (filled nxt f v (mk c st x) # ds, p + length (uintx_bytes (of_nat (length v))) + length v)"
    using assms(3,4)
    by (intro r4.seg_string_body [OF takes_read_uint_x])
      (auto simp: xstring_bytes_def bounded_def step4_on limit state assms(1) read_string4_def)
  with assms(2,5) show ?thesis by (simp add: filled_mk xstring_bytes_def add.assoc del: length_xstring_bytes)
qed

lemma seg_string_flagged:
  assumes "step4_header st = if_flag fl (R (read_string4 f nxt) (\<lambda>_. goto nxt)) nxt'" and "f \<in> fields"
    and "flag_set (flags x) fl"
    and "p + length (xstring_bytes v) \<le> lim c" and "bounded (lim c) ds" and "x' = set_string f v x"
  shows "seg lv step4 s0 (mk c st x # ds, p) (xstring_bytes v) (mk c nxt x' # ds, p + length (xstring_bytes v))"
proof -
  have "length v < 4294967296" using assms(4) bounded_less [OF assms(5)] by (simp add: xstring_bytes_def)
  then have "seg lv step4 s0 (mk c st x # ds, p) (uintx_bytes (of_nat (length v)) @ bytes_of_string v)
      (filled nxt f v (mk c st x) # ds, p + length (uintx_bytes (of_nat (length v))) + length v)"
    using assms(3-5)
    by (intro r4.seg_string_body [OF takes_read_uint_x])
      (auto simp: xstring_bytes_def bounded_def step4_on limit state assms(1) if_flag_on read_string4_def)
  with assms(2,6) show ?thesis by (simp add: filled_mk xstring_bytes_def add.assoc del: length_xstring_bytes)
qed

lemma seg_string_when:
  assumes "step4_header st = if_flag fl (R (read_string4 f nxt) (\<lambda>_. goto nxt)) nxt" and "f \<in> fields"
    and "p + length (if flag_set (flags x) fl then xstring_bytes v else []) \<le> lim c" and "bounded (lim c) ds"
    and "x' = (if flag_set (flags x) fl then set_string f v x else x)"
  shows "seg lv step4 s0 (mk c st x # ds, p) (if flag_set (flags x) fl then xstring_bytes v else [])
    (mk c nxt x' # ds, p + length (if flag_set (flags x) fl then xstring_bytes v else []))"
proof (cases "flag_set (flags x) fl")
  case True
  with seg_string_flagged [OF assms(1,2) True, of p v c ds x' lv s0] assms(3-5)
  show ?thesis by (simp del: length_xstring_bytes)
next
  case False
  with seg_skip [OF assms(1) False] assms(5) show ?thesis by simp
qed

text \<open>A byte vector: its length in one state, its bytes in the next.\<close>

lemma seg_extended_when:
  assumes "step4_header st = if_flag fl (R read_uint_x (\<lambda>n. then_s (upd (set_ext (replicate (unat n) 0))) (goto st2))) nxt"
    and ext2: "\<And>buf oth p. step4_header st2 (on s0 (mk c st2 (set_ext (replicate (length ext) 0) x) # ds, p) buf oth)
      = R (read_extended (replicate (length ext) 0)) (\<lambda>v. then_s (upd (set_ext v)) (goto nxt))
          (on s0 (mk c st2 (set_ext (replicate (length ext) 0) x) # ds, p) buf oth)"
    and upd: "\<And>xs ys. set_ext xs (set_ext ys x) = set_ext xs x"
    and lim: "p + length (if flag_set (flags x) fl then extended_bytes ext else []) \<le> lim c" "lim c < 4294967296"
    and x': "x' = (if flag_set (flags x) fl then set_ext ext x else x)"
    and size: "length ext \<le> 128 \<or> lv"
  shows "seg lv step4 s0 (mk c st x # ds, p) (if flag_set (flags x) fl then extended_bytes ext else [])
    (mk c nxt x' # ds, p + length (if flag_set (flags x) fl then extended_bytes ext else []))"
proof (cases "flag_set (flags x) fl")
  case True
  let ?lb = "uintx_bytes (of_nat (length ext))"
  let ?x = "set_ext (replicate (length ext) 0) x"
  have l: "p + length ?lb + length ext \<le> lim c" using lim(1) True by (simp add: extended_bytes_def)
  then have len: "length ext < 4294967296" using lim(2) by simp
  have "seg lv step4 s0 (mk c st x # ds, p) ?lb (mk c st2 ?x # ds, p + length ?lb)"
    by (rule seg_flagged [OF assms(1) True takes_read_uint_x]) (use l lim(2) len in simp_all)
  moreover have "seg lv step4 s0 (mk c st2 ?x # ds, p + length ?lb) ext
      (mk c nxt (set_ext ext x) # ds, p + length ?lb + length ext)"
    by (rule seg_R [OF takes_read_extended [OF refl], where k = "\<lambda>v. then_s (upd (set_ext v)) (goto nxt)"])
      (use l lim(2) size in \<open>simp_all add: step4_on state limit ext2 upd_on upd\<close>)
  ultimately have "seg lv step4 s0 (mk c st x # ds, p) (?lb @ ext)
      (mk c nxt (set_ext ext x) # ds, p + length ?lb + length ext)"
    by (rule seg_trans)
  with True x' show ?thesis by (simp add: extended_bytes_def add.assoc del: length_extended_bytes)
next
  case False
  with seg_skip [OF assms(1) False] x' show ?thesis by simp
qed

end

section \<open>Elements\<close>

definition eframe :: "state_type \<times> nat \<Rightarrow> state_type \<Rightarrow> element_fields \<Rightarrow> state_data" where
  "eframe c st f =
     \<lparr>st_state = st, st_pop_state = fst c, st_limit = snd c, st_data = Frame_element (MessageElement f None),
      st_param1 = 0, st_param2 = 0, st_param3 = ''''\<rparr>"

lemma eframe_simps [simp]:
  "st_state (eframe c st f) = st" "st_pop_state (eframe c st f) = fst c" "st_limit (eframe c st f) = snd c"
  "st_data (eframe c st f) = Frame_element (MessageElement f None)"
  by (simp_all add: eframe_def)

lemma elem_frame_eframe: "elem_frame pop L = eframe (pop, L) MessageElement_elementsize default_element_fields"
  by (simp add: elem_frame_def eframe_def CreateMessageElement_def)

interpretation el: flagged_fields eframe snd ElementFlags upd_element "\<lambda>fl k. element_when fl (\<lambda>_. k)"
  "{Field_ElementName, Field_ElementTypeName, Field_ElementMetaData}"
  "\<lambda>f v x. case set_field f v (Frame_element (MessageElement x None)) of Frame_element e \<Rightarrow> flds e"
  by unfold_locales
    (auto simp: then_s_def bind_s_def upd_element_def element_when_def data_element_def top_frame_def set_data_def
      upd_top_def goto_def set_state_def continue_def eframe_def filled_def)

lemma seg_element_size:
  assumes "4 \<le> unat l" and "p + unat l \<le> L" and "length (uintx_bytes l) \<le> unat l" and "L < 4294967296"
  shows "seg lv step4 s0 (eframe (pop, L) MessageElement_elementsize f # ds, p) (uintx_bytes l)
    (eframe (pop, p + unat l) MessageElement_elementflags (f\<lparr>ElementSize := l\<rparr>) # ds, p + length (uintx_bytes l))"
proof (rule seg_R [OF takes_read_uint_x, where k = "\<lambda>l. element_size p l MessageElement_elementflags"])
  fix buf oth
  have "\<not> l < 4" using assms(1) by (simp add: word_less_nat_alt)
  then show "element_size p l MessageElement_elementflags
      (on s0 (eframe (pop, L) MessageElement_elementsize f # ds, p + length (uintx_bytes l)) buf oth) =
    Inr (None, on s0 (eframe (pop, p + unat l) MessageElement_elementflags (f\<lparr>ElementSize := l\<rparr>) # ds,
      p + length (uintx_bytes l)) buf oth)"
    using assms(2,4)
    by (simp add: element_size_def then_s_def bind_s_def upd_element_def data_element_def top_frame_def set_data_def
        upd_top_def set_limit_def goto_def set_state_def continue_def eframe_def)
qed (use assms in \<open>simp_all add: step4_on bind_s_def message_pos_def\<close>)

section \<open>The fields of an element\<close>

lemma seg_element_fields:
  assumes lim: "p + length (element4_fields_bytes f) \<le> L" and b: "bounded L ds"
    and ty: "proper_type (ElementType f)"
    and fl: "bit (ElementFlags f) 3 = (ElementTypeName f \<noteq> [])" "bit (ElementFlags f) 5 = (ElementMetaData f \<noteq> [])"
      "bit (ElementFlags f) 7 = (ElementExtended f \<noteq> [])"
    and short: "length (ElementExtended f) \<le> 128 \<or> lv"
  shows "seg lv step4 s0 (eframe (pop, L) MessageElement_elementflags (default_element_fields\<lparr>ElementSize := ElementSize f\<rparr>) # ds, p)
    (element4_fields_bytes f)
    (eframe (pop, L) MessageElement_readdata (view_fields4 f) # ds, p + length (element4_fields_bytes f))"
proof -
  define F where "F = ElementFlags f"
  define b1 b2 b3 b4 b5 b6 b7 where
    "b1 = (if flag_set F MessageElementFlags_ELEMENT_NAME_STR then xstring_bytes (ElementName f) else [])" and
    "b2 = (if flag_set F MessageElementFlags_ELEMENT_NAME_CODE then uintx_bytes (ElementNameCode f) else [])" and
    "b3 = (if flag_set F MessageElementFlags_ELEMENT_NUMBER then intx_bytes (ElementNumber f) else [])" and
    "b4 = (if flag_set F MessageElementFlags_ELEMENT_TYPE_NAME_STR then xstring_bytes (ElementTypeName f) else [])" and
    "b5 = (if flag_set F MessageElementFlags_ELEMENT_TYPE_NAME_CODE then uintx_bytes (ElementTypeNameCode f) else [])" and
    "b6 = (if flag_set F MessageElementFlags_META_INFO then xstring_bytes (ElementMetaData f) else [])" and
    "b7 = (if flag_set F MessageElementFlags_EXTENDED then extended_bytes (ElementExtended f) else [])"
  define f0 f1 f2 f3 f4 f5 f6 f7 f8 f9 where
    "f0 = default_element_fields\<lparr>ElementSize := ElementSize f\<rparr>" and
    "f1 = f0\<lparr>ElementFlags := F\<rparr>" and
    "f2 = (if flag_set F MessageElementFlags_ELEMENT_NAME_STR then f1\<lparr>ElementName := ElementName f\<rparr> else f1)" and
    "f3 = (if flag_set F MessageElementFlags_ELEMENT_NAME_CODE then f2\<lparr>ElementNameCode := ElementNameCode f\<rparr> else f2)" and
    "f4 = (if flag_set F MessageElementFlags_ELEMENT_NUMBER then f3\<lparr>ElementNumber := ElementNumber f\<rparr> else f3)" and
    "f5 = f4\<lparr>ElementType := ElementType f\<rparr>" and
    "f6 = (if flag_set F MessageElementFlags_ELEMENT_TYPE_NAME_STR then f5\<lparr>ElementTypeName := ElementTypeName f\<rparr> else f5)" and
    "f7 = (if flag_set F MessageElementFlags_ELEMENT_TYPE_NAME_CODE then f6\<lparr>ElementTypeNameCode := ElementTypeNameCode f\<rparr> else f6)" and
    "f8 = (if flag_set F MessageElementFlags_META_INFO then f7\<lparr>ElementMetaData := ElementMetaData f\<rparr> else f7)" and
    "f9 = (if flag_set F MessageElementFlags_EXTENDED then f8\<lparr>ElementExtended := ElementExtended f\<rparr> else f8)"
  have F: "ElementFlags f1 = F" "ElementFlags f2 = F" "ElementFlags f3 = F" "ElementFlags f4 = F" "ElementFlags f5 = F"
    "ElementFlags f6 = F" "ElementFlags f7 = F" "ElementFlags f8 = F"
    by (simp_all add: f1_def f2_def f3_def f4_def f5_def f6_def f7_def f8_def)
  let ?n1 = "num_bytes F" and ?n2 = "num_bytes (DataTypes_code (ElementType f))" and ?n3 = "uintx_bytes (DataCount f)"
  have bs: "element4_fields_bytes f = ?n1 @ b1 @ b2 @ b3 @ ?n2 @ b4 @ b5 @ b6 @ b7 @ ?n3"
    by (simp add: element4_fields_bytes_def b1_def b2_def b3_def b4_def b5_def b6_def b7_def F_def)
  let ?P = "\<lambda>bs. p + length bs"
  have lims: "p + length ?n1 \<le> L" "p + length ?n1 + length b1 \<le> L" "p + length ?n1 + length b1 + length b2 \<le> L"
    "p + length ?n1 + length b1 + length b2 + length b3 \<le> L"
    "p + length ?n1 + length b1 + length b2 + length b3 + length ?n2 \<le> L"
    "p + length ?n1 + length b1 + length b2 + length b3 + length ?n2 + length b4 \<le> L"
    "p + length ?n1 + length b1 + length b2 + length b3 + length ?n2 + length b4 + length b5 \<le> L"
    "p + length ?n1 + length b1 + length b2 + length b3 + length ?n2 + length b4 + length b5 + length b6 \<le> L"
    "p + length ?n1 + length b1 + length b2 + length b3 + length ?n2 + length b4 + length b5 + length b6 + length b7 \<le> L"
    "p + length ?n1 + length b1 + length b2 + length b3 + length ?n2 + length b4 + length b5 + length b6 + length b7
      + length ?n3 \<le> L"
    using lim unfolding bs length_append by linarith+
  have "seg lv step4 s0 (eframe (pop, L) MessageElement_elementflags f0 # ds, p)
      (?n1 @ b1 @ b2 @ b3 @ ?n2 @ b4 @ b5 @ b6 @ b7 @ ?n3)
      (eframe (pop, L) MessageElement_readdata (f9\<lparr>DataCount := DataCount f\<rparr>) # ds,
        p + length ?n1 + length b1 + length b2 + length b3 + length ?n2 + length b4 + length b5 + length b6 + length b7
          + length ?n3)"
  proof -
    let ?c = "(pop, L)"
    have l: "snd ?c < 4294967296" "bounded (snd ?c) ds" using b bounded_less [OF b] by simp_all
    note defs = R_element_def R_string_def
    note s1 = el.seg_field [OF _ takes_read8, of MessageElement_elementflags "\<lambda>v f. f\<lparr>ElementFlags := v\<rparr>" MessageElement_elementnamestr
      p F ?c f1 f0 lv s0 ds]
    note s2 = el.seg_string_when [of MessageElement_elementnamestr MessageElementFlags_ELEMENT_NAME_STR Field_ElementName
      MessageElement_elementnamecode _ f1 "ElementName f" ?c ds f2 lv s0, unfolded F, folded b1_def]
    note s3 = el.seg_when [OF _ takes_read_uint_x, of MessageElement_elementnamecode MessageElementFlags_ELEMENT_NAME_CODE
      "\<lambda>v f. f\<lparr>ElementNameCode := v\<rparr>" MessageElement_elementnumber _ f2 "ElementNameCode f" ?c f3 lv s0 ds, unfolded F, folded b2_def]
    note s4 = el.seg_when [OF _ takes_read_int_x, of MessageElement_elementnumber MessageElementFlags_ELEMENT_NUMBER
      "\<lambda>v f. f\<lparr>ElementNumber := v\<rparr>" MessageElement_elementtype _ f3 "ElementNumber f" ?c f4 lv s0 ds, unfolded F, folded b3_def]
    note s5 = el.seg_field [OF _ takes_read16, of MessageElement_elementtype "\<lambda>v f. f\<lparr>ElementType := DataTypes_of_code v\<rparr>"
      MessageElement_elementtypestr _ "DataTypes_code (ElementType f)" ?c f5 f4 lv s0 ds]
    note s6 = el.seg_string_when [of MessageElement_elementtypestr MessageElementFlags_ELEMENT_TYPE_NAME_STR Field_ElementTypeName
      MessageElement_elementtypecode _ f5 "ElementTypeName f" ?c ds f6 lv s0, unfolded F, folded b4_def]
    note s7 = el.seg_when [OF _ takes_read_uint_x, of MessageElement_elementtypecode MessageElementFlags_ELEMENT_TYPE_NAME_CODE
      "\<lambda>v f. f\<lparr>ElementTypeNameCode := v\<rparr>" MessageElement_metainfo _ f6 "ElementTypeNameCode f" ?c f7 lv s0 ds, unfolded F, folded b5_def]
    note s8 = el.seg_string_when [of MessageElement_metainfo MessageElementFlags_META_INFO Field_ElementMetaData
      MessageElement_extended1 _ f7 "ElementMetaData f" ?c ds f8 lv s0, unfolded F, folded b6_def]
    note s9 = el.seg_extended_when [of MessageElement_extended1 MessageElementFlags_EXTENDED "\<lambda>v f. f\<lparr>ElementExtended := v\<rparr>"
      MessageElement_extended2 MessageElement_datacount s0 ?c "ElementExtended f" f8 ds _ f9 lv, unfolded F, folded b7_def]
    note s10 = el.seg_field [OF _ takes_read_uint_x, of MessageElement_datacount "\<lambda>v f. f\<lparr>DataCount := v\<rparr>" MessageElement_readdata
      _ "DataCount f" ?c "f9\<lparr>DataCount := DataCount f\<rparr>" f9 lv s0 ds]
    have code: "DataTypes_of_code (DataTypes_code (ElementType f)) = ElementType f" using ty by simp
    have ext2: "step4_header MessageElement_extended2 (on s0 (eframe ?c MessageElement_extended2
        (f8\<lparr>ElementExtended := replicate (length (ElementExtended f)) 0\<rparr>) # ds, p) buf oth) =
      R (read_extended (replicate (length (ElementExtended f)) 0))
        (\<lambda>v. then_s (upd_element (\<lambda>f. f\<lparr>ElementExtended := v\<rparr>)) (goto MessageElement_datacount))
        (on s0 (eframe ?c MessageElement_extended2
          (f8\<lparr>ElementExtended := replicate (length (ElementExtended f)) 0\<rparr>) # ds, p) buf oth)" for p buf oth
      by (simp add: data_element_def bind_s_def top_frame_def R_element_def)
    show ?thesis
      by (rule seg_trans [OF s1 seg_trans [OF s2 seg_trans [OF s3 seg_trans [OF s4 seg_trans [OF s5
            seg_trans [OF s6 seg_trans [OF s7 seg_trans [OF s8 seg_trans [OF s9 s10]]]]]]]]])
        (use lims l ext2 short in \<open>simp_all only: snd_conv defs step4_header.simps step4_entry.simps step4_element.simps\<close>,
         simp_all add: f1_def f2_def f3_def f4_def f5_def f6_def f7_def f8_def f9_def code)
  qed
  moreover have "f9\<lparr>DataCount := DataCount f\<rparr> = view_fields4 f"
  proof -
    have "ElementFlags f9 = F" "ElementSize f9 = ElementSize f" "ElementType f9 = ElementType f"
      "ElementTypeName f9 = ElementTypeName f" "ElementMetaData f9 = ElementMetaData f"
      "ElementExtended f9 = ElementExtended f"
      "ElementName f9 = (if flag_set F MessageElementFlags_ELEMENT_NAME_STR then ElementName f else '''')"
      "ElementNameCode f9 = (if flag_set F MessageElementFlags_ELEMENT_NAME_CODE then ElementNameCode f else 0)"
      "ElementNumber f9 = (if flag_set F MessageElementFlags_ELEMENT_NUMBER then ElementNumber f else 0)"
      "ElementTypeNameCode f9 = (if flag_set F MessageElementFlags_ELEMENT_TYPE_NAME_CODE then ElementTypeNameCode f else 0)"
      using fl by (simp_all add: f0_def f1_def f2_def f3_def f4_def f5_def f6_def f7_def f8_def f9_def F_def
        default_element_fields_def)
    then show ?thesis by (cases f9; cases f) (simp add: view_fields4_def F_def)
  qed
  ultimately show ?thesis
    by (simp only: bs f0_def length_append add.assoc)
qed

section \<open>Whole elements\<close>

text \<open>No extended field is longer than the internal buffer.\<close>

fun short_element4 :: "MessageElement \<Rightarrow> bool" where
  "short_element4 (MessageElement f d) \<longleftrightarrow>
     length (ElementExtended f) \<le> 128
     \<and> (case d of Some (NestedElementList t tn es) \<Rightarrow> list_all short_element4 es | _ \<Rightarrow> True)"

lemma reads_element4:
  assumes "valid_element4 e" and "short_element4 e \<or> lv"
  shows "r4.reads_element lv s0 pop (element4_bytes e) (element4_view e)"
  using assms
proof (induction e arbitrary: pop rule: element_induct)
  case (MessageElement f d)
  show ?case
    unfolding r4.reads_element_def
  proof (intro allI impI)
    fix L q ds p
    assume lim: "p + length (element4_bytes (MessageElement f d)) \<le> L" and b: "bounded L (q # ds)"
    from MessageElement.prems(1) have fix4: "MessageElement_UpdateData4 (MessageElement f d) = Inr (MessageElement f d)"
      by (simp add: valid_element4_def)
    note ff = fixed_fields4(1) [OF fix4]
    note fl = fixed_flags4(1-3) [OF ff]
    define N where "N = length (element4_bytes (MessageElement f d))"
    let ?z = "uintx_bytes (ElementSize f)"
    let ?db = "element4_data_bytes d"
    have sz: "unat (ElementSize f) = N" using element4_size_both [OF MessageElement.prems(1)] by (simp add: N_def)
    have n: "N = length ?z + length (element4_fields_bytes f) + length ?db"
      by (simp only: N_def element4_bytes_split element4_head_bytes_def length_append add.assoc)
    have b': "bounded (p + N) (q # ds)" using b lim unfolding N_def by (rule bounded_le)
    have 1: "seg lv step4 s0 (eframe (pop, L) MessageElement_elementsize default_element_fields # q # ds, p) ?z
        (eframe (pop, p + N) MessageElement_elementflags (default_element_fields\<lparr>ElementSize := ElementSize f\<rparr>) # q # ds,
          p + length ?z)"
      using seg_element_size [of "ElementSize f" p L lv s0 pop default_element_fields "q # ds"] sz n lim
        element4_bytes_min [of "MessageElement f d"] bounded_less [OF b]
      unfolding N_def [symmetric] by simp
    have 2: "seg lv step4 s0
        (eframe (pop, p + N) MessageElement_elementflags (default_element_fields\<lparr>ElementSize := ElementSize f\<rparr>) # q # ds,
          p + length ?z) (element4_fields_bytes f)
        (eframe (pop, p + N) MessageElement_readdata (view_fields4 f) # q # ds,
          p + length ?z + length (element4_fields_bytes f))"
      by (rule seg_element_fields [OF _ b' fixed_proper4 [OF fix4] fl]) (use n MessageElement.prems(2) in auto)
    let ?d = "eframe (pop, p + N) MessageElement_readdata (view_fields4 f)"
    define P where "P = p + length ?z + length (element4_fields_bytes f)"
    let ?t = "(with_data pop (write_back (Frame_element (element4_view (MessageElement f d))) (st_data q)) q # ds, p + N)"
    have pn: "P + length ?db = p + N" using n by (simp add: P_def)
    have 3: "seg lv step4 s0 (?d # q # ds, P) ?db ?t"
      using fix4
    proof (cases rule: fixed_data_cases4)
      case Void
      have "ElementType (view_fields4 f) = DataTypes_void_t"
        using Void(1) by (simp add: view_fields4_def type_group_void)
      with r4.seg_void_data [of ?d "MessageElement (view_fields4 f) None" lv s0 q ds P] pn Void
      show ?thesis by (simp del: element4_view.simps)
    next
      case (Array a)
      note fa = fixed_array4 [OF ff [unfolded Array(1)]]
      have "?db = array_bytes a" by (simp add: Array(1) element4_data_bytes_def)
      with r4.seg_array_data [of ?d "MessageElement (view_fields4 f) None" a P q ds lv s0] Array fa pn b'
      show ?thesis by (simp add: view_fields4_def)
    next
      case (Nested tn es)
      note fn = fixed_nested4 [OF ff [unfolded Nested(1)] Nested(2)]
      have db: "?db = concat (map element4_bytes es)" using Nested by (simp add: element4_data_bytes_def)
      have "\<forall>c \<in> set es. r4.reads_element lv s0 MessageElement_readnested2 (element4_bytes c) (element4_view c)"
      proof
        fix c assume c: "c \<in> set es"
        show "r4.reads_element lv s0 MessageElement_readnested2 (element4_bytes c) (element4_view c)"
          by (rule MessageElement.IH [OF Nested(1) c])
            (use valid_element4_children [OF _ Nested(2) c] MessageElement.prems c Nested(1) in \<open>auto simp: list_all_iff\<close>)
      qed
      moreover have "4 * length es < 4294967296"
      proof -
        have "length ?db \<le> N" using n by simp
        then show ?thesis
          using children4_bytes_min [of es] db MessageElement.prems unfolding valid_element4_def N_def [symmetric] by simp
      qed
      ultimately show ?thesis
        using r4.seg_nested_data [of ?d "MessageElement (view_fields4 f) None" es P element4_bytes q ds lv s0]
          Nested fn pn b' db
        by (simp add: view_fields4_def)
    qed
    from seg_trans [OF 1 seg_trans [OF 2 3 [unfolded P_def]]]
    show "seg lv step4 s0 (elem_frame pop L # q # ds, p) (element4_bytes (MessageElement f d))
        (with_data pop (write_back (Frame_element (element4_view (MessageElement f d))) (st_data q)) q # ds,
          p + length (element4_bytes (MessageElement f d)))"
      unfolding N_def [symmetric]
      by (simp only: elem_frame_eframe element4_bytes_split element4_head_bytes_def append_assoc)
  qed
qed

end
