(* ===== verification/RR_AsyncReader4_Message.thy ===== *)
theory RR_AsyncReader4_Message
  imports RR_AsyncReader4_Laws
begin

text \<open>
  The resumable reader of version 4 above the elements: entries, the header and whole messages.
\<close>

section \<open>Entries\<close>

interpretation en: flagged_fields xframe fst EntryFlags upd_entry "\<lambda>fl k. entry_when fl (\<lambda>_. k)"
  "{Field_ServicePath, Field_MemberName, Field_EntryMetaData}"
  "\<lambda>f v x. case set_field f v (Frame_entry x) of Frame_entry e \<Rightarrow> e"
  by unfold_locales
    (auto simp: then_s_def bind_s_def upd_entry_def entry_when_def data_entry_def top_frame_def set_data_def
      upd_top_def goto_def set_state_def continue_def xframe_def filled_def)

lemma seg_entry_size:
  assumes "4 \<le> unat l" and "p + unat l \<le> L" and "length (uintx_bytes l) \<le> unat l" and "bounded L (q # ds)"
  shows "seg lv step4 s0 (xframe (L, 0) MessageEntry_entrysize e # q # ds, p) (uintx_bytes l)
    (xframe (p + unat l, 0) MessageEntry_entryflags (e\<lparr>EntrySize := l\<rparr>) # q # ds, p + length (uintx_bytes l))"
proof (rule seg_R [OF takes_read_uint_x, where k = "\<lambda>l. entry_size p l MessageEntry_entryflags"])
  fix buf oth
  have "\<not> l < 4" using assms(1) by (simp add: word_less_nat_alt)
  moreover have "p + unat l \<le> st_limit (last (q # ds))" "st_limit (last (q # ds)) < 4294967296"
    using assms(2,4) by (auto simp: bounded_def)
  ultimately show "entry_size p l MessageEntry_entryflags
      (on s0 (xframe (L, 0) MessageEntry_entrysize e # q # ds, p + length (uintx_bytes l)) buf oth) =
    Inr (None, on s0 (xframe (p + unat l, 0) MessageEntry_entryflags (e\<lparr>EntrySize := l\<rparr>) # q # ds,
      p + length (uintx_bytes l)) buf oth)"
    by (simp add: entry_size_def then_s_def bind_s_def upd_entry_def data_entry_def top_frame_def set_data_def
        upd_top_def set_limit_def goto_def set_state_def continue_def message_len_def)
      (simp add: xframe_def)
qed (use assms bounded_less [OF assms(4)] in \<open>simp_all add: step4_on bind_s_def message_pos_def\<close>)

lemma seg_entry_count:
  assumes "p + length (uintx_bytes (of_nat c)) \<le> L" and "L < 4294967296" and "4 * c < 4294967296"
  shows "seg lv step4 s0 (xframe (L, 0) MessageEntry_elementcount e # ds, p) (uintx_bytes (of_nat c))
    (xframe (L, c) MessageEntry_readelements e # ds, p + length (uintx_bytes (of_nat c)))"
proof (rule seg_R [OF takes_read_uint_x, where k = "\<lambda>c. then_s (set_param1 (unat c))
    (then_s (alloc (4 * unat c)) (goto MessageEntry_readelements))"])
  fix buf oth p
  have "unat (of_nat c :: 32 word) = c" using assms(3) by simp
  then show "then_s (set_param1 (unat (of_nat c :: 32 word))) (then_s (alloc (4 * unat (of_nat c :: 32 word)))
      (goto MessageEntry_readelements)) (on s0 (xframe (L, 0) MessageEntry_elementcount e # ds, p) buf oth) =
    Inr (None, on s0 (xframe (L, c) MessageEntry_readelements e # ds, p) buf oth)"
    using assms(3)
    by (simp add: then_s_def bind_s_def set_param1_def alloc_def upd_top_def goto_def set_state_def continue_def xframe_def)
qed (use assms in \<open>simp_all add: step4_on bind_s_def data_entry_def top_frame_def\<close>)

text \<open>The fields of an entry, up to the number of its elements.\<close>

lemma seg_entry_fields:
  assumes lim: "p + length (entry4_fields_bytes f) \<le> L" and b: "bounded L ds"
    and fl: "MessageEntry_UpdateFlags4 f = f" and short: "length (EntryExtended f) \<le> 128 \<or> lv"
    and count: "4 * length (elements f) < 4294967296"
  shows "seg lv step4 s0 (xframe (L, 0) MessageEntry_entryflags (CreateMessageEntry\<lparr>EntrySize := EntrySize f\<rparr>) # ds, p)
    (entry4_fields_bytes f)
    (xframe (L, length (elements f)) MessageEntry_readelements ((entry4_view f)\<lparr>elements := []\<rparr>) # ds,
     p + length (entry4_fields_bytes f))"
proof -
  define F where "F = EntryFlags f"
  define b1 b2 b3 b4 b5 b6 b7 b8 where
    "b1 = (if flag_set F MessageEntryFlags_SERVICE_PATH_STR then xstring_bytes (ServicePath f) else [])" and
    "b2 = (if flag_set F MessageEntryFlags_SERVICE_PATH_CODE then uintx_bytes (ServicePathCode f) else [])" and
    "b3 = (if flag_set F MessageEntryFlags_MEMBER_NAME_STR then xstring_bytes (MemberName f) else [])" and
    "b4 = (if flag_set F MessageEntryFlags_MEMBER_NAME_CODE then uintx_bytes (MemberNameCode f) else [])" and
    "b5 = (if flag_set F MessageEntryFlags_REQUEST_ID then uintx_bytes (RequestID f) else [])" and
    "b6 = (if flag_set F MessageEntryFlags_ERROR then num_bytes (EntryError f) else [])" and
    "b7 = (if flag_set F MessageEntryFlags_META_INFO then xstring_bytes (EntryMetaData f) else [])" and
    "b8 = (if flag_set F MessageEntryFlags_EXTENDED then extended_bytes (EntryExtended f) else [])"
  define f0 f1 f2 f3 f4 f5 f6 f7 f8 f9 f10 where
    "f0 = CreateMessageEntry\<lparr>EntrySize := EntrySize f\<rparr>" and
    "f1 = f0\<lparr>EntryFlags := F\<rparr>" and
    "f2 = f1\<lparr>EntryType := EntryType f\<rparr>" and
    "f3 = (if flag_set F MessageEntryFlags_SERVICE_PATH_STR then f2\<lparr>ServicePath := ServicePath f\<rparr> else f2)" and
    "f4 = (if flag_set F MessageEntryFlags_SERVICE_PATH_CODE then f3\<lparr>ServicePathCode := ServicePathCode f\<rparr> else f3)" and
    "f5 = (if flag_set F MessageEntryFlags_MEMBER_NAME_STR then f4\<lparr>MemberName := MemberName f\<rparr> else f4)" and
    "f6 = (if flag_set F MessageEntryFlags_MEMBER_NAME_CODE then f5\<lparr>MemberNameCode := MemberNameCode f\<rparr> else f5)" and
    "f7 = (if flag_set F MessageEntryFlags_REQUEST_ID then f6\<lparr>RequestID := RequestID f\<rparr> else f6)" and
    "f8 = (if flag_set F MessageEntryFlags_ERROR then f7\<lparr>EntryError := EntryError f\<rparr> else f7)" and
    "f9 = (if flag_set F MessageEntryFlags_META_INFO then f8\<lparr>EntryMetaData := EntryMetaData f\<rparr> else f8)" and
    "f10 = (if flag_set F MessageEntryFlags_EXTENDED then f9\<lparr>EntryExtended := EntryExtended f\<rparr> else f9)"
  have F: "EntryFlags f1 = F" "EntryFlags f2 = F" "EntryFlags f3 = F" "EntryFlags f4 = F" "EntryFlags f5 = F"
    "EntryFlags f6 = F" "EntryFlags f7 = F" "EntryFlags f8 = F" "EntryFlags f9 = F"
    by (simp_all add: f1_def f2_def f3_def f4_def f5_def f6_def f7_def f8_def f9_def)
  let ?n1 = "num_bytes F" and ?n2 = "num_bytes (EntryType f)"
    and ?n3 = "uintx_bytes (of_nat (length (elements f)))"
  have bs: "entry4_fields_bytes f = ?n1 @ ?n2 @ b1 @ b2 @ b3 @ b4 @ b5 @ b6 @ b7 @ b8 @ ?n3"
    by (simp add: entry4_fields_bytes_def b1_def b2_def b3_def b4_def b5_def b6_def b7_def b8_def F_def)
  have lims: "p + length ?n1 \<le> L" "p + length ?n1 + length ?n2 \<le> L" "p + length ?n1 + length ?n2 + length b1 \<le> L"
    "p + length ?n1 + length ?n2 + length b1 + length b2 \<le> L"
    "p + length ?n1 + length ?n2 + length b1 + length b2 + length b3 \<le> L"
    "p + length ?n1 + length ?n2 + length b1 + length b2 + length b3 + length b4 \<le> L"
    "p + length ?n1 + length ?n2 + length b1 + length b2 + length b3 + length b4 + length b5 \<le> L"
    "p + length ?n1 + length ?n2 + length b1 + length b2 + length b3 + length b4 + length b5 + length b6 \<le> L"
    "p + length ?n1 + length ?n2 + length b1 + length b2 + length b3 + length b4 + length b5 + length b6 + length b7 \<le> L"
    "p + length ?n1 + length ?n2 + length b1 + length b2 + length b3 + length b4 + length b5 + length b6 + length b7
      + length b8 \<le> L"
    "p + length ?n1 + length ?n2 + length b1 + length b2 + length b3 + length b4 + length b5 + length b6 + length b7
      + length b8 + length ?n3 \<le> L"
    using lim unfolding bs length_append by linarith+
  have "seg lv step4 s0 (xframe (L, 0) MessageEntry_entryflags f0 # ds, p)
      (?n1 @ ?n2 @ b1 @ b2 @ b3 @ b4 @ b5 @ b6 @ b7 @ b8 @ ?n3)
      (xframe (L, length (elements f)) MessageEntry_readelements f10 # ds,
        p + length ?n1 + length ?n2 + length b1 + length b2 + length b3 + length b4 + length b5 + length b6 + length b7
          + length b8 + length ?n3)"
  proof -
    let ?c = "(L, 0)"
    have l: "fst ?c < 4294967296" "bounded (fst ?c) ds" "L < 4294967296" using b bounded_less [OF b] by simp_all
    note defs = R_entry_def R_string_def
    note s1 = en.seg_field [OF _ takes_read8, of MessageEntry_entryflags "\<lambda>v f. f\<lparr>EntryFlags := v\<rparr>" MessageEntry_entrytype
      p F ?c f1 f0 lv s0 ds]
    note s2 = en.seg_field [OF _ takes_read16, of MessageEntry_entrytype "\<lambda>v f. f\<lparr>EntryType := v\<rparr>"
      MessageEntry_servicepathstr _ "EntryType f" ?c f2 f1 lv s0 ds]
    note s3 = en.seg_string_when [of MessageEntry_servicepathstr MessageEntryFlags_SERVICE_PATH_STR Field_ServicePath
      MessageEntry_servicepathcode _ f2 "ServicePath f" ?c ds f3 lv s0, unfolded F, folded b1_def]
    note s4 = en.seg_when [OF _ takes_read_uint_x, of MessageEntry_servicepathcode MessageEntryFlags_SERVICE_PATH_CODE
      "\<lambda>v f. f\<lparr>ServicePathCode := v\<rparr>" MessageEntry_membernamestr _ f3 "ServicePathCode f" ?c f4 lv s0 ds,
      unfolded F, folded b2_def]
    note s5 = en.seg_string_when [of MessageEntry_membernamestr MessageEntryFlags_MEMBER_NAME_STR Field_MemberName
      MessageEntry_membernamecode _ f4 "MemberName f" ?c ds f5 lv s0, unfolded F, folded b3_def]
    note s6 = en.seg_when [OF _ takes_read_uint_x, of MessageEntry_membernamecode MessageEntryFlags_MEMBER_NAME_CODE
      "\<lambda>v f. f\<lparr>MemberNameCode := v\<rparr>" MessageEntry_requestid _ f5 "MemberNameCode f" ?c f6 lv s0 ds,
      unfolded F, folded b4_def]
    note s7 = en.seg_when [OF _ takes_read_uint_x, of MessageEntry_requestid MessageEntryFlags_REQUEST_ID
      "\<lambda>v f. f\<lparr>RequestID := v\<rparr>" MessageEntry_error _ f6 "RequestID f" ?c f7 lv s0 ds, unfolded F, folded b5_def]
    note s8 = en.seg_when [OF _ takes_read16, of MessageEntry_error MessageEntryFlags_ERROR
      "\<lambda>v f. f\<lparr>EntryError := v\<rparr>" MessageEntry_metainfo _ f7 "EntryError f" ?c f8 lv s0 ds, unfolded F, folded b6_def]
    note s9 = en.seg_string_when [of MessageEntry_metainfo MessageEntryFlags_META_INFO Field_EntryMetaData
      MessageEntry_extended1 _ f8 "EntryMetaData f" ?c ds f9 lv s0, unfolded F, folded b7_def]
    note s10 = en.seg_extended_when [of MessageEntry_extended1 MessageEntryFlags_EXTENDED "\<lambda>v f. f\<lparr>EntryExtended := v\<rparr>"
      MessageEntry_extended2 MessageEntry_elementcount s0 ?c "EntryExtended f" f9 ds _ f10 lv, unfolded F, folded b8_def]
    note s11 = seg_entry_count [of _ "length (elements f)" L lv s0 f10 ds]
    have ext2: "step4_header MessageEntry_extended2 (on s0 (xframe ?c MessageEntry_extended2
        (f9\<lparr>EntryExtended := replicate (length (EntryExtended f)) 0\<rparr>) # ds, p) buf oth) =
      R (read_extended (replicate (length (EntryExtended f)) 0))
        (\<lambda>v. then_s (upd_entry (\<lambda>f. f\<lparr>EntryExtended := v\<rparr>)) (goto MessageEntry_elementcount))
        (on s0 (xframe ?c MessageEntry_extended2
          (f9\<lparr>EntryExtended := replicate (length (EntryExtended f)) 0\<rparr>) # ds, p) buf oth)" for p buf oth
      by (simp add: data_entry_def bind_s_def top_frame_def R_entry_def)
    show ?thesis
      by (rule seg_trans [OF s1 seg_trans [OF s2 seg_trans [OF s3 seg_trans [OF s4 seg_trans [OF s5
            seg_trans [OF s6 seg_trans [OF s7 seg_trans [OF s8 seg_trans [OF s9 seg_trans [OF s10 s11]]]]]]]]]])
        (use lims l ext2 short count in \<open>simp_all only: fst_conv defs step4_header.simps step4_entry.simps\<close>,
         simp_all add: f1_def f2_def f3_def f4_def f5_def f6_def f7_def f8_def f9_def f10_def)
  qed
  moreover have "f10 = (entry4_view f)\<lparr>elements := []\<rparr>"
    using fl
    by (simp add: UpdateFlags4_fixed_iff f0_def f1_def f2_def f3_def f4_def f5_def f6_def f7_def f8_def f9_def f10_def F_def
        CreateMessageEntry_def entry4_view_def)
  ultimately show ?thesis by (simp only: bs f0_def length_append add.assoc)
qed

section \<open>Whole entries\<close>

definition short_entry4 :: "message_entry \<Rightarrow> bool" where
  "short_entry4 e \<longleftrightarrow> length (EntryExtended e) \<le> 128 \<and> list_all short_element4 (elements e)"

lemma reads_async_entry4:
  assumes "valid_entry4 e" and "short_entry4 e \<or> lv"
  shows "r4.reads_entry lv s0 (entry4_bytes e) (entry4_view e)"
  unfolding r4.reads_entry_def
proof (intro allI impI)
  fix L q ds p
  assume lim: "p + length (entry4_bytes e) \<le> L" and b: "bounded L (q # ds)"
  from assms(1) have fix4: "MessageEntry_UpdateData4 e = Inr e" and small: "length (entry4_bytes e) < 2147483648"
    by (simp_all add: valid_entry4_def)
  define N where "N = length (entry4_bytes e)"
  let ?z = "uintx_bytes (EntrySize e)" and ?f = "entry4_fields_bytes e"
    and ?db = "concat (map element4_bytes (elements e))"
  let ?v = "(entry4_view e)\<lparr>elements := []\<rparr>"
  have sz: "unat (EntrySize e) = N" using entry4_size(1) [OF assms(1)] by (simp add: N_def)
  have n: "N = length ?z + length ?f + length ?db" by (simp only: N_def entry4_bytes_def length_append add.assoc)
  have f4: "4 \<le> length ?f" using GetUintXByteCount_bounds(1) [of "of_nat (length (elements e))"]
    by (simp add: entry4_fields_bytes_def)
  have b': "bounded (p + N) (q # ds)" using b lim unfolding N_def by (rule bounded_le)
  have 1: "seg lv step4 s0 (xframe (L, 0) MessageEntry_entrysize CreateMessageEntry # q # ds, p) ?z
      (xframe (p + N, 0) MessageEntry_entryflags (CreateMessageEntry\<lparr>EntrySize := EntrySize e\<rparr>) # q # ds, p + length ?z)"
    using seg_entry_size [of "EntrySize e" p L q ds lv s0 CreateMessageEntry] sz n lim f4 b
    unfolding N_def [symmetric] by simp
  have 2: "seg lv step4 s0
      (xframe (p + N, 0) MessageEntry_entryflags (CreateMessageEntry\<lparr>EntrySize := EntrySize e\<rparr>) # q # ds, p + length ?z)
      ?f (xframe (p + N, length (elements e)) MessageEntry_readelements ?v # q # ds, p + length ?z + length ?f)"
    by (rule seg_entry_fields [OF _ b' fixed_entry4(1) [OF fix4]])
      (use n assms(2) children4_bytes_min [of "elements e"] small in \<open>auto simp: short_entry4_def N_def [symmetric]\<close>)
  have 3: "seg lv step4 s0 (xframe (p + N, length (elements e)) MessageEntry_readelements ?v # q # ds,
        p + length ?z + length ?f) ?db
      (with_data Message_readentries
        (write_back (Frame_entry (?v\<lparr>elements := map element4_view (elements e)\<rparr>)) (st_data q)) q # ds, p + N)"
  proof (rule r4.seg_entry_rest [OF _ _ b'])
    show "\<forall>c \<in> set (elements e). r4.reads_element lv s0 MessageEntry_readelements (element4_bytes c) (element4_view c)"
      using reads_element4 valid_entry4_elements [OF assms(1)] assms(2) by (auto simp: short_entry4_def list_all_iff)
  qed (use n in simp_all)
  have "?v\<lparr>elements := map element4_view (elements e)\<rparr> = entry4_view e" by (simp add: entry4_view_def)
  with seg_trans [OF 1 seg_trans [OF 2 3]]
  show "seg lv step4 s0 (xframe (L, 0) MessageEntry_entrysize CreateMessageEntry # q # ds, p) (entry4_bytes e)
      (with_data Message_readentries (write_back (Frame_entry (entry4_view e)) (st_data q)) q # ds,
        p + length (entry4_bytes e))"
    unfolding N_def [symmetric] by (simp add: entry4_bytes_def)
qed

section \<open>The header\<close>

definition hframe :: "nat \<times> nat \<Rightarrow> state_type \<Rightarrow> message_header \<Rightarrow> state_data" where
  "hframe c st h =
     \<lparr>st_state = st, st_pop_state = Message_readentries, st_limit = fst c, st_data = Frame_header h,
      st_param1 = snd c, st_param2 = 0, st_param3 = ''''\<rparr>"

lemma hframe_simps [simp]:
  "st_state (hframe c st h) = st" "st_limit (hframe c st h) = fst c" "st_data (hframe c st h) = Frame_header h"
  "st_param1 (hframe c st h) = snd c"
  by (simp_all add: hframe_def)

interpretation hd: flagged_fields hframe fst MessageFlags upd_header
  "\<lambda>fl k nxt. data_header (\<lambda>h. if \<not> flag_set (MessageFlags h) fl then goto nxt else k)"
  "{Field_SenderNodeName, Field_ReceiverNodeName, Field_HeaderMetaData, Field_StringTable}"
  "\<lambda>f v x. case set_field f v (Frame_header x) of Frame_header h \<Rightarrow> h"
  by unfold_locales
    (auto simp: then_s_def bind_s_def upd_header_def data_header_def top_frame_def set_data_def
      upd_top_def goto_def set_state_def continue_def hframe_def filled_def)

lemma seg_header_routing:
  assumes lim: "p + length (if flag_set (MessageFlags h) MessageFlags_ROUTING_INFO
        then si @ ri @ xstring_bytes sn @ xstring_bytes rn else []) \<le> L" and b: "bounded L ds"
    and ids: "length si = 16" "length ri = 16"
    and h': "h' = (if flag_set (MessageFlags h) MessageFlags_ROUTING_INFO
      then h\<lparr>SenderNodeID := si, ReceiverNodeID := ri, SenderNodeName := sn, ReceiverNodeName := rn\<rparr> else h)"
  shows "seg lv step4 s0 (hframe (L, k) MessageHeader_routing1 h # ds, p)
    (if flag_set (MessageFlags h) MessageFlags_ROUTING_INFO then si @ ri @ xstring_bytes sn @ xstring_bytes rn else [])
    (hframe (L, k) MessageHeader_endpoint1 h' # ds, p + length (if flag_set (MessageFlags h) MessageFlags_ROUTING_INFO
      then si @ ri @ xstring_bytes sn @ xstring_bytes rn else []))"
proof (cases "flag_set (MessageFlags h) MessageFlags_ROUTING_INFO")
  case True
  let ?c = "(L, k)"
  have l: "fst ?c < 4294967296" "bounded (fst ?c) ds" using b bounded_less [OF b] by simp_all
  have lims: "p + length si \<le> L" "p + length si + length ri \<le> L"
    "p + length si + length ri + length (xstring_bytes sn) \<le> L"
    "p + length si + length ri + length (xstring_bytes sn) + length (xstring_bytes rn) \<le> L"
    using lim True by (simp_all only: if_True length_append)
  let ?h1 = "h\<lparr>SenderNodeID := si\<rparr>"
  let ?h2 = "?h1\<lparr>ReceiverNodeID := ri\<rparr>"
  let ?h3 = "?h2\<lparr>SenderNodeName := sn\<rparr>"
  let ?h4 = "?h3\<lparr>ReceiverNodeName := rn\<rparr>"
  note s1 = hd.seg_flagged [OF _ True takes_read_all_bytes [OF ids(1)], of MessageHeader_routing1 MessageHeader_endpoint1
    "\<lambda>v h. h\<lparr>SenderNodeID := v\<rparr>" MessageHeader_routing2 p ?c ?h1 lv s0 ds]
  note s2 = hd.seg_field [OF _ takes_read_all_bytes [OF ids(2)], of MessageHeader_routing2
    "\<lambda>v h. h\<lparr>ReceiverNodeID := v\<rparr>" MessageHeader_routing3 _ ?c ?h2 ?h1 lv s0 ds]
  note s3 = hd.seg_string [of MessageHeader_routing3 Field_SenderNodeName MessageHeader_routing4 _ sn ?c ds ?h3 ?h2 lv s0]
  note s4 = hd.seg_string [of MessageHeader_routing4 Field_ReceiverNodeName MessageHeader_endpoint1 _ rn ?c ds ?h4 ?h3 lv s0]
  have "seg lv step4 s0 (hframe ?c MessageHeader_routing1 h # ds, p) (si @ ri @ xstring_bytes sn @ xstring_bytes rn)
      (hframe ?c MessageHeader_endpoint1 ?h4 # ds,
        p + length si + length ri + length (xstring_bytes sn) + length (xstring_bytes rn))"
    by (rule seg_trans [OF s1 seg_trans [OF s2 seg_trans [OF s3 s4]]])
      (use lims l ids in \<open>simp_all only: fst_conv R_header_def R_string_def step4_header.simps\<close>, simp_all)
  with True h' show ?thesis by (simp add: add.assoc del: length_xstring_bytes)
next
  case False
  with hd.seg_skip [of MessageHeader_routing1 MessageFlags_ROUTING_INFO MessageHeader_endpoint1 _ h lv s0 "(L, k)" ds p] h'
  show ?thesis by simp
qed

lemma seg_header_endpoint:
  assumes lim: "p + length (if flag_set (MessageFlags h) MessageFlags_ENDPOINT_INFO
        then uintx_bytes se @ uintx_bytes re else []) \<le> L" and b: "bounded L ds"
    and h': "h' = (if flag_set (MessageFlags h) MessageFlags_ENDPOINT_INFO
      then h\<lparr>SenderEndpoint := se, ReceiverEndpoint := re\<rparr> else h)"
  shows "seg lv step4 s0 (hframe (L, k) MessageHeader_endpoint1 h # ds, p)
    (if flag_set (MessageFlags h) MessageFlags_ENDPOINT_INFO then uintx_bytes se @ uintx_bytes re else [])
    (hframe (L, k) MessageHeader_priority h' # ds, p + length (if flag_set (MessageFlags h) MessageFlags_ENDPOINT_INFO
      then uintx_bytes se @ uintx_bytes re else []))"
proof (cases "flag_set (MessageFlags h) MessageFlags_ENDPOINT_INFO")
  case True
  let ?c = "(L, k)"
  have l: "fst ?c < 4294967296" using bounded_less [OF b] by simp
  have lims: "p + length (uintx_bytes se) \<le> L" "p + length (uintx_bytes se) + length (uintx_bytes re) \<le> L"
    using lim True by (simp_all only: if_True length_append)
  let ?h1 = "h\<lparr>SenderEndpoint := se\<rparr>"
  let ?h2 = "?h1\<lparr>ReceiverEndpoint := re\<rparr>"
  note s1 = hd.seg_flagged [OF _ True takes_read_uint_x, of MessageHeader_endpoint1 MessageHeader_priority
    "\<lambda>v h. h\<lparr>SenderEndpoint := v\<rparr>" MessageHeader_endpoint2 p se ?c ?h1 lv s0 ds]
  note s2 = hd.seg_field [OF _ takes_read_uint_x, of MessageHeader_endpoint2
    "\<lambda>v h. h\<lparr>ReceiverEndpoint := v\<rparr>" MessageHeader_priority _ re ?c ?h2 ?h1 lv s0 ds]
  have "seg lv step4 s0 (hframe ?c MessageHeader_endpoint1 h # ds, p) (uintx_bytes se @ uintx_bytes re)
      (hframe ?c MessageHeader_priority ?h2 # ds, p + length (uintx_bytes se) + length (uintx_bytes re))"
    by (rule seg_trans [OF s1 s2])
      (use lims l in \<open>simp_all only: fst_conv R_header_def step4_header.simps\<close>, simp_all)
  with True h' show ?thesis by (simp add: add.assoc)
next
  case False
  with hd.seg_skip [of MessageHeader_endpoint1 MessageFlags_ENDPOINT_INFO MessageHeader_priority _ h lv s0 "(L, k)" ds p] h'
  show ?thesis by simp
qed

lemma seg_header_meta:
  assumes lim: "p + length (if flag_set (MessageFlags h) MessageFlags_META_INFO
        then xstring_bytes md @ num_bytes i @ num_bytes r else []) \<le> L" and b: "bounded L ds"
    and h': "h' = (if flag_set (MessageFlags h) MessageFlags_META_INFO
      then h\<lparr>HeaderMetaData := md, MessageID := i, MessageResID := r\<rparr> else h)"
  shows "seg lv step4 s0 (hframe (L, k) MessageHeader_metainfo h # ds, p)
    (if flag_set (MessageFlags h) MessageFlags_META_INFO then xstring_bytes md @ num_bytes i @ num_bytes r else [])
    (hframe (L, k) MessageHeader_stringtable1 h' # ds, p + length (if flag_set (MessageFlags h) MessageFlags_META_INFO
      then xstring_bytes md @ num_bytes i @ num_bytes r else []))"
proof (cases "flag_set (MessageFlags h) MessageFlags_META_INFO")
  case True
  let ?c = "(L, k)"
  have l: "fst ?c < 4294967296" "bounded (fst ?c) ds" using b bounded_less [OF b] by simp_all
  have lims: "p + length (xstring_bytes md) \<le> L" "p + length (xstring_bytes md) + length (num_bytes i) \<le> L"
    "p + length (xstring_bytes md) + length (num_bytes i) + length (num_bytes r) \<le> L"
    using lim True by (simp_all only: if_True length_append)
  let ?h1 = "h\<lparr>HeaderMetaData := md\<rparr>"
  let ?h2 = "?h1\<lparr>MessageID := i\<rparr>"
  let ?h3 = "?h2\<lparr>MessageResID := r\<rparr>"
  note s1 = hd.seg_string_flagged [of MessageHeader_metainfo MessageFlags_META_INFO MessageHeader_stringtable1
    Field_HeaderMetaData MessageHeader_messageid1 h p md ?c ds ?h1 lv s0]
  note s2 = hd.seg_field [OF _ takes_read16, of MessageHeader_messageid1
    "\<lambda>v h. h\<lparr>MessageID := v\<rparr>" MessageHeader_messageid2 _ i ?c ?h2 ?h1 lv s0 ds]
  note s3 = hd.seg_field [OF _ takes_read16, of MessageHeader_messageid2
    "\<lambda>v h. h\<lparr>MessageResID := v\<rparr>" MessageHeader_stringtable1 _ r ?c ?h3 ?h2 lv s0 ds]
  have "seg lv step4 s0 (hframe ?c MessageHeader_metainfo h # ds, p) (xstring_bytes md @ num_bytes i @ num_bytes r)
      (hframe ?c MessageHeader_stringtable1 ?h3 # ds,
        p + length (xstring_bytes md) + length (num_bytes i) + length (num_bytes r))"
    by (rule seg_trans [OF s1 seg_trans [OF s2 s3]])
      (use lims l True in \<open>simp_all only: fst_conv R_header_def R_string_def step4_header.simps\<close>, simp_all)
  with True h' show ?thesis by (simp only: if_True length_append add.assoc)
next
  case False
  with hd.seg_skip [of MessageHeader_metainfo MessageFlags_META_INFO MessageHeader_stringtable1 _ h lv s0 "(L, k)" ds p] h'
  show ?thesis by simp
qed

text \<open>The string table: a count in the frame, and one code and string after the other.\<close>

lemma moves_stringtable_end:
  "moves step4 s0 (hframe (L, 0) MessageHeader_stringtable2 h # ds, p) (hframe (L, 0) MessageHeader_entrycount h # ds, p)"
  by (rule movesI)
    (simp add: step4_on param1_def bind_s_def top_frame_def goto_def then_s_def set_state_def upd_top_def continue_def
      hframe_def)

lemma seg_stringtable_code:
  assumes "p + length (uintx_bytes c) \<le> L" and "L < 4294967296"
  shows "seg lv step4 s0 (hframe (L, Suc k) MessageHeader_stringtable2 h # ds, p) (uintx_bytes c)
    (hframe (L, k) MessageHeader_stringtable3 (h\<lparr>StringTable := StringTable h @ [(c, '''')]\<rparr>) # ds,
     p + length (uintx_bytes c))"
  by (rule seg_R [OF takes_read_uint_x, where k = "\<lambda>code.
      then_s (upd_header (\<lambda>h. h\<lparr>StringTable := StringTable h @ [(code, '''')]\<rparr>))
        (then_s (set_param1 (Suc k - 1)) (goto MessageHeader_stringtable3))"])
    (use assms in \<open>simp_all add: step4_on param1_def bind_s_def top_frame_def then_s_def upd_header_def data_header_def
      set_data_def upd_top_def set_param1_def goto_def set_state_def continue_def hframe_def\<close>)

lemma seg_stringtable_rows:
  assumes "p + length (concat (map (\<lambda>(c, v). uintx_bytes c @ xstring_bytes v) t)) \<le> L" and "bounded L ds"
  shows "seg lv step4 s0 (hframe (L, length t) MessageHeader_stringtable2 h # ds, p)
    (concat (map (\<lambda>(c, v). uintx_bytes c @ xstring_bytes v) t))
    (hframe (L, 0) MessageHeader_entrycount (h\<lparr>StringTable := StringTable h @ t\<rparr>) # ds,
     p + length (concat (map (\<lambda>(c, v). uintx_bytes c @ xstring_bytes v) t)))"
  using assms
proof (induction t arbitrary: h p)
  case Nil
  then show ?case using moves_seg [OF moves_stringtable_end] by simp
next
  case (Cons cv t)
  obtain c v where cv: "cv = (c, v)" by (cases cv)
  let ?h1 = "h\<lparr>StringTable := StringTable h @ [(c, '''')]\<rparr>" and ?h2 = "h\<lparr>StringTable := StringTable h @ [(c, v)]\<rparr>"
  define T where "T = concat (map (\<lambda>(c, v). uintx_bytes c @ xstring_bytes v) t)"
  have lims: "p + length (uintx_bytes c) \<le> L" "p + length (uintx_bytes c) + length (xstring_bytes v) \<le> L"
    "p + length (uintx_bytes c) + length (xstring_bytes v) + length T \<le> L"
    using Cons.prems(1) by (simp_all add: cv T_def del: length_xstring_bytes)
  have 1: "seg lv step4 s0 (hframe (L, length (cv # t)) MessageHeader_stringtable2 h # ds, p) (uintx_bytes c)
      (hframe (L, length t) MessageHeader_stringtable3 ?h1 # ds, p + length (uintx_bytes c))"
    using seg_stringtable_code [OF lims(1) bounded_less [OF Cons.prems(2)]] by simp
  have 2: "seg lv step4 s0 (hframe (L, length t) MessageHeader_stringtable3 ?h1 # ds, p + length (uintx_bytes c))
      (xstring_bytes v) (hframe (L, length t) MessageHeader_stringtable2 ?h2 # ds,
        p + length (uintx_bytes c) + length (xstring_bytes v))"
    by (rule hd.seg_string [of _ Field_StringTable])
      (use lims Cons.prems(2) in \<open>simp_all add: R_string_def del: length_xstring_bytes\<close>)
  have 3: "seg lv step4 s0 (hframe (L, length t) MessageHeader_stringtable2 ?h2 # ds,
        p + length (uintx_bytes c) + length (xstring_bytes v)) T
      (hframe (L, 0) MessageHeader_entrycount (?h2\<lparr>StringTable := StringTable ?h2 @ t\<rparr>) # ds,
        p + length (uintx_bytes c) + length (xstring_bytes v) + length T)"
    unfolding T_def by (rule Cons.IH) (use lims(3) Cons.prems(2) in \<open>simp_all add: T_def\<close>)
  from seg_trans [OF 1 seg_trans [OF 2 3]] show ?case
    by (simp add: cv T_def [symmetric] add.assoc del: length_xstring_bytes)
qed

lemma length_stringtable_rows: "length t \<le> length (concat (map (\<lambda>(c, v). uintx_bytes c @ xstring_bytes v) t))"
proof (induction t)
  case (Cons cv t)
  obtain c v where "cv = (c, v)" by (cases cv)
  with Cons.IH GetUintXByteCount_bounds(1) [of c] show ?case by simp
qed simp

lemma seg_header_stringtable:
  assumes lim: "p + length (if flag_set (MessageFlags h) MessageFlags_STRING_TABLE then StringTable_bytes t else []) \<le> L"
    and b: "bounded L ds" and h: "StringTable h = []"
    and h': "h' = (if flag_set (MessageFlags h) MessageFlags_STRING_TABLE then h\<lparr>StringTable := t\<rparr> else h)"
  shows "seg lv step4 s0 (hframe (L, 0) MessageHeader_stringtable1 h # ds, p)
    (if flag_set (MessageFlags h) MessageFlags_STRING_TABLE then StringTable_bytes t else [])
    (hframe (L, 0) MessageHeader_entrycount h' # ds,
     p + length (if flag_set (MessageFlags h) MessageFlags_STRING_TABLE then StringTable_bytes t else []))"
proof (cases "flag_set (MessageFlags h) MessageFlags_STRING_TABLE")
  case True
  let ?n = "uintx_bytes (of_nat (length t))"
  define T where "T = concat (map (\<lambda>(c, v). uintx_bytes c @ xstring_bytes v) t)"
  have lims: "p + length ?n \<le> L" "p + length ?n + length T \<le> L"
    using lim True by (simp_all add: StringTable_bytes_def T_def)
  have "length t \<le> length T"
    unfolding T_def by (rule length_stringtable_rows)
  with lims(2) bounded_less [OF b] have t: "length t < 4294967296" by simp
  have 1: "seg lv step4 s0 (hframe (L, 0) MessageHeader_stringtable1 h # ds, p) ?n
      (hframe (L, length t) MessageHeader_stringtable2 h # ds, p + length ?n)"
    by (rule seg_R [OF takes_read_uint_x, where k = "\<lambda>n. then_s (set_param1 (unat n)) (goto MessageHeader_stringtable2)"])
      (use lims(1) bounded_less [OF b] t True in \<open>simp_all add: step4_on data_header_def bind_s_def top_frame_def
        then_s_def set_param1_def upd_top_def goto_def set_state_def continue_def hframe_def\<close>)
  have 2: "seg lv step4 s0 (hframe (L, length t) MessageHeader_stringtable2 h # ds, p + length ?n) T
      (hframe (L, 0) MessageHeader_entrycount (h\<lparr>StringTable := StringTable h @ t\<rparr>) # ds, p + length ?n + length T)"
    unfolding T_def by (rule seg_stringtable_rows [OF _ b]) (use lims(2) in \<open>simp add: T_def\<close>)
  from seg_trans [OF 1 2] True h h' show ?thesis
    by (simp add: StringTable_bytes_def T_def [symmetric] add.assoc)
next
  case False
  with hd.seg_skip [of MessageHeader_stringtable1 MessageFlags_STRING_TABLE MessageHeader_entrycount _ h lv s0 "(L, 0)" ds p] h'
  show ?thesis by simp
qed

lemma seg_header_entrycount:
  assumes lim: "p + length (if flag_set (MessageFlags h) MessageFlags_MULTIPLE_ENTRIES
      then uintx_bytes (ucast c) else []) \<le> L" and b: "bounded L ds"
    and fl: "flag_set (MessageFlags h) MessageFlags_MULTIPLE_ENTRIES \<or> c = 1"
  shows "seg lv step4 s0 (hframe (L, 0) MessageHeader_entrycount h # ds, p)
    (if flag_set (MessageFlags h) MessageFlags_MULTIPLE_ENTRIES then uintx_bytes (ucast c) else [])
    (hframe (L, 0) MessageHeader_extended1 (h\<lparr>EntryCount := c\<rparr>) # ds,
     p + length (if flag_set (MessageFlags h) MessageFlags_MULTIPLE_ENTRIES then uintx_bytes (ucast c) else []))"
proof (cases "flag_set (MessageFlags h) MessageFlags_MULTIPLE_ENTRIES")
  case True
  have c: "unat (ucast c :: 32 word) = unat c" by (rule unat_narrow) (simp add: less_trans [OF unat_u16_less])
  moreover have "\<not> 65535 < unat c" using unat_u16_less [of c] by linarith
  moreover from this have "numeric_cast_u16 (unat c) = Inr c" by (simp add: numeric_cast_u16_def)
  ultimately have "seg lv step4 s0 (hframe (L, 0) MessageHeader_entrycount h # ds, p) (uintx_bytes (ucast c))
    (hframe (L, 0) MessageHeader_extended1 (h\<lparr>EntryCount := c\<rparr>) # ds, p + length (uintx_bytes (ucast c)))"
    by (intro seg_R [OF takes_read_uint_x, where k = "\<lambda>c.
           if unat c > 65535 then throw_s ProtocolException ''Too many entries in message''
           else
             bind_s (lift_s (numeric_cast_u16 (unat c))) (\<lambda>n.
               then_s (upd_header (\<lambda>h. h\<lparr>EntryCount := n\<rparr>)) (goto MessageHeader_extended1))"])
      (use lim bounded_less [OF b] True in \<open>simp_all add: step4_on data_header_def bind_s_def top_frame_def
        then_s_def upd_header_def set_data_def upd_top_def goto_def set_state_def continue_def hframe_def lift_s_def\<close>)
  with True show ?thesis by simp
next
  case False
  then have "moves step4 s0 (hframe (L, 0) MessageHeader_entrycount h # ds, p)
      (hframe (L, 0) MessageHeader_extended1 (h\<lparr>EntryCount := c\<rparr>) # ds, p)"
    using fl
    by (intro movesI)
      (simp add: step4_on data_header_def bind_s_def top_frame_def then_s_def upd_header_def set_data_def upd_top_def
        goto_def set_state_def continue_def hframe_def)
  with False show ?thesis by (simp add: moves_seg)
qed

text \<open>The end of the header: it becomes the header of the message.\<close>

lemma upd_header_on:
  "upd_header g (on s0 (hframe c st h # ds, p) buf oth) = Inr ((), on s0 (hframe c st (g h) # ds, p) buf oth)"
  by (simp add: upd_header_def data_header_def bind_s_def top_frame_def set_data_def upd_top_def hframe_def)

lemma pop_header_on:
  "then_s pop_state (goto Message_readentries) (on s0 ([hframe c st h, mframe L st' msg], p) buf oth)
   = Inr (None, on s0 ([mframe L Message_readentries (msg\<lparr>header := Some h\<rparr>)], p) buf oth)"
  by (simp add: then_s_def bind_s_def pop_state_on popped_def goto_def set_state_def upd_top_def continue_def hframe_def
      mframe_def with_data_def)

lemma seg_header_extended:
  assumes lim: "p + length (if flag_set (MessageFlags h) MessageFlags_EXTENDED then extended_bytes ext else []) \<le> L"
    and b: "L < 4294967296" and short: "length ext \<le> 128 \<or> lv"
    and h': "h' = (if flag_set (MessageFlags h) MessageFlags_EXTENDED then h\<lparr>HeaderExtended := ext\<rparr> else h)"
  shows "seg lv step4 s0 ([hframe (L, 0) MessageHeader_extended1 h, mframe K st msg], p)
    (if flag_set (MessageFlags h) MessageFlags_EXTENDED then extended_bytes ext else [])
    ([mframe K Message_readentries (msg\<lparr>header := Some h'\<rparr>)],
     p + length (if flag_set (MessageFlags h) MessageFlags_EXTENDED then extended_bytes ext else []))"
proof (cases "flag_set (MessageFlags h) MessageFlags_EXTENDED")
  case True
  let ?n = "uintx_bytes (of_nat (length ext))" and ?q = "mframe K st msg"
  let ?h1 = "h\<lparr>HeaderExtended := replicate (length ext) 0\<rparr>"
  have l: "p + length ?n \<le> L" "p + length ?n + length ext \<le> L" using lim True by (simp_all add: extended_bytes_def)
  then have len: "length ext < 4294967296" using b by simp
  have 1: "seg lv step4 s0 ([hframe (L, 0) MessageHeader_extended1 h, ?q], p) ?n
      ([hframe (L, 0) MessageHeader_extended2 ?h1, ?q], p + length ?n)"
    by (rule seg_R [OF takes_read_uint_x, where k = "\<lambda>n. then_s
          (upd_header (\<lambda>h. h\<lparr>HeaderExtended := replicate (unat n) 0\<rparr>)) (goto MessageHeader_extended2)"])
      (use l b len True in \<open>simp_all add: step4_on data_header_def bind_s_def top_frame_def then_s_def upd_header_def
        set_data_def upd_top_def goto_def set_state_def continue_def hframe_def\<close>)
  have 2: "seg lv step4 s0 ([hframe (L, 0) MessageHeader_extended2 ?h1, ?q], p + length ?n) ext
      ([mframe K Message_readentries (msg\<lparr>header := Some (h\<lparr>HeaderExtended := ext\<rparr>)\<rparr>)], p + length ?n + length ext)"
    by (rule seg_R [OF takes_read_extended [OF refl], where k = "\<lambda>ext.
         then_s (upd_header (\<lambda>h. h\<lparr>HeaderExtended := ext\<rparr>)) (then_s pop_state (goto Message_readentries))"])
      (use l b short in \<open>simp_all add: step4_on data_header_def bind_s_def top_frame_def then_s_def [of "upd_header _"]
        upd_header_on pop_header_on\<close>)
  from seg_trans [OF 1 2] True h' show ?thesis by (simp add: extended_bytes_def add.assoc)
next
  case False
  then have "moves step4 s0 ([hframe (L, 0) MessageHeader_extended1 h, mframe K st msg], p)
      ([mframe K Message_readentries (msg\<lparr>header := Some h\<rparr>)], p)"
    by (intro movesI) (simp add: step4_on data_header_def bind_s_def top_frame_def pop_header_on del: mframe_simps)
  with False h' show ?thesis by (simp add: moves_seg)
qed

lemma concat_bytes [simp]: "concat (map num_bytes (bs :: byte list)) = bs"
  by (induction bs) simp_all

lemma seg_header_fields:
  assumes lim: "p + length (header4_fields_bytes h) \<le> L" and b: "bounded L [mframe K st msg]"
    and fl: "header4_flags h" and ids: "valid_NodeID (SenderNodeID h)" "valid_NodeID (ReceiverNodeID h)"
    and short: "length (HeaderExtended h) \<le> 128 \<or> lv"
  shows "seg lv step4 s0 ([hframe (L, 0) MessageHeader_flags
        (CreateMessageHeader\<lparr>MessageSize := MessageSize h, HeaderSize := HeaderSize h\<rparr>), mframe K st msg], p)
    (header4_fields_bytes h)
    ([mframe K Message_readentries (msg\<lparr>header := Some (header4_view h)\<rparr>)], p + length (header4_fields_bytes h))"
proof -
  define F where "F = MessageFlags h"
  define b1 b2 b3 b4 b5 b6 b7 where
    "b1 = (if flag_set F MessageFlags_ROUTING_INFO then SenderNodeID h @ ReceiverNodeID h
      @ xstring_bytes (SenderNodeName h) @ xstring_bytes (ReceiverNodeName h) else [])" and
    "b2 = (if flag_set F MessageFlags_ENDPOINT_INFO
      then uintx_bytes (SenderEndpoint h) @ uintx_bytes (ReceiverEndpoint h) else [])" and
    "b3 = (if flag_set F MessageFlags_PRIORITY then num_bytes (Priority h) else [])" and
    "b4 = (if flag_set F MessageFlags_META_INFO
      then xstring_bytes (HeaderMetaData h) @ num_bytes (MessageID h) @ num_bytes (MessageResID h) else [])" and
    "b5 = (if flag_set F MessageFlags_STRING_TABLE then StringTable_bytes (StringTable h) else [])" and
    "b6 = (if flag_set F MessageFlags_MULTIPLE_ENTRIES then uintx_bytes (ucast (EntryCount h)) else [])" and
    "b7 = (if flag_set F MessageFlags_EXTENDED then extended_bytes (HeaderExtended h) else [])"
  define h0 h1 h2 h3 h4 h5 h6 h7 h8 where
    "h0 = CreateMessageHeader\<lparr>MessageSize := MessageSize h, HeaderSize := HeaderSize h\<rparr>" and
    "h1 = h0\<lparr>MessageFlags := F\<rparr>" and
    "h2 = (if flag_set F MessageFlags_ROUTING_INFO then h1\<lparr>SenderNodeID := SenderNodeID h,
      ReceiverNodeID := ReceiverNodeID h, SenderNodeName := SenderNodeName h, ReceiverNodeName := ReceiverNodeName h\<rparr>
      else h1)" and
    "h3 = (if flag_set F MessageFlags_ENDPOINT_INFO
      then h2\<lparr>SenderEndpoint := SenderEndpoint h, ReceiverEndpoint := ReceiverEndpoint h\<rparr> else h2)" and
    "h4 = (if flag_set F MessageFlags_PRIORITY then h3\<lparr>Priority := Priority h\<rparr> else h3)" and
    "h5 = (if flag_set F MessageFlags_META_INFO
      then h4\<lparr>HeaderMetaData := HeaderMetaData h, MessageID := MessageID h, MessageResID := MessageResID h\<rparr> else h4)" and
    "h6 = (if flag_set F MessageFlags_STRING_TABLE then h5\<lparr>StringTable := StringTable h\<rparr> else h5)" and
    "h7 = h6\<lparr>EntryCount := EntryCount h\<rparr>" and
    "h8 = (if flag_set F MessageFlags_EXTENDED then h7\<lparr>HeaderExtended := HeaderExtended h\<rparr> else h7)"
  have F: "MessageFlags h1 = F" "MessageFlags h2 = F" "MessageFlags h3 = F" "MessageFlags h4 = F" "MessageFlags h5 = F"
    "MessageFlags h6 = F" "MessageFlags h7 = F"
    by (simp_all add: h1_def h2_def h3_def h4_def h5_def h6_def h7_def)
  let ?n1 = "num_bytes F" and ?ds = "[mframe K st msg]" and ?c = "(L, 0)"
  have bs: "header4_fields_bytes h = ?n1 @ b1 @ b2 @ b3 @ b4 @ b5 @ b6 @ b7"
    by (simp add: header4_fields_bytes_def b1_def b2_def b3_def b4_def b5_def b6_def b7_def F_def)
  have lims: "p + length ?n1 \<le> L" "p + length ?n1 + length b1 \<le> L" "p + length ?n1 + length b1 + length b2 \<le> L"
    "p + length ?n1 + length b1 + length b2 + length b3 \<le> L"
    "p + length ?n1 + length b1 + length b2 + length b3 + length b4 \<le> L"
    "p + length ?n1 + length b1 + length b2 + length b3 + length b4 + length b5 \<le> L"
    "p + length ?n1 + length b1 + length b2 + length b3 + length b4 + length b5 + length b6 \<le> L"
    "p + length ?n1 + length b1 + length b2 + length b3 + length b4 + length b5 + length b6 + length b7 \<le> L"
    using lim unfolding bs length_append by linarith+
  have l: "L < 4294967296" by (rule bounded_less [OF b])
  have 1: "seg lv step4 s0 (hframe ?c MessageHeader_flags h0 # ?ds, p) ?n1
      (hframe ?c MessageHeader_routing1 h1 # ?ds, p + length ?n1)"
    by (rule hd.seg_field [OF _ takes_read8, where g = "\<lambda>v h. h\<lparr>MessageFlags := v\<rparr>"])
      (use lims(1) l in \<open>simp_all add: R_header_def h1_def\<close>)
  note 2 = seg_header_routing [of _ h1 "SenderNodeID h" "ReceiverNodeID h" "SenderNodeName h" "ReceiverNodeName h"
    L ?ds h2 lv s0 0, unfolded F, folded b1_def]
  note 3 = seg_header_endpoint [of _ h2 "SenderEndpoint h" "ReceiverEndpoint h" L ?ds h3 lv s0 0, unfolded F, folded b2_def]
  note 4 = hd.seg_when [OF _ takes_read16, of MessageHeader_priority MessageFlags_PRIORITY MessageHeader_metainfo
    "\<lambda>v h. h\<lparr>Priority := v\<rparr>" _ h3 "Priority h" ?c h4 lv s0 ?ds, unfolded F, folded b3_def]
  note 5 = seg_header_meta [of _ h4 "HeaderMetaData h" "MessageID h" "MessageResID h" L ?ds h5 lv s0 0,
    unfolded F, folded b4_def]
  note 6 = seg_header_stringtable [of _ h5 "StringTable h" L ?ds h6 lv s0, unfolded F, folded b5_def]
  note 7 = seg_header_entrycount [of _ h6 "EntryCount h" L ?ds lv s0, unfolded F, folded b6_def h7_def]
  note 8 = seg_header_extended [of _ h7 "HeaderExtended h" L lv h8 s0 K st msg, unfolded F, folded b7_def]
  have "seg lv step4 s0 (hframe ?c MessageHeader_flags h0 # ?ds, p) (?n1 @ b1 @ b2 @ b3 @ b4 @ b5 @ b6 @ b7)
      ([mframe K Message_readentries (msg\<lparr>header := Some h8\<rparr>)],
        p + length ?n1 + length b1 + length b2 + length b3 + length b4 + length b5 + length b6 + length b7)"
  proof (rule seg_trans [OF 1 seg_trans [OF 2 seg_trans [OF 3 seg_trans [OF 4 seg_trans [OF 5
      seg_trans [OF 6 seg_trans [OF 7 8]]]]]]])
    show "length (SenderNodeID h) = 16" "length (ReceiverNodeID h) = 16" using ids by (simp_all add: valid_NodeID_def)
    show "flag_set F MessageFlags_MULTIPLE_ENTRIES \<or> EntryCount h = 1"
      using fl by (auto simp: header4_flags_def F_def)
    show "StringTable h5 = []"
      by (simp add: h0_def h1_def h2_def h3_def h4_def h5_def CreateMessageHeader_def)
  qed (use lims b l short in \<open>simp_all only: fst_conv step4_header.simps R_header_def\<close>,
       simp_all add: h2_def h3_def h4_def h5_def h6_def h8_def)
  moreover have "h8 = header4_view h"
    using fl
    by (simp add: h0_def h1_def h2_def h3_def h4_def h5_def h6_def h7_def h8_def F_def header4_view_def Let_def
        header4_flags_def CreateMessageHeader_def)
  ultimately show ?thesis by (simp only: bs h0_def length_append add.assoc)
qed

section \<open>Messages\<close>

definition short_message4 :: "message \<Rightarrow> bool" where
  "short_message4 m \<longleftrightarrow>
     (case header m of None \<Rightarrow> True | Some h \<Rightarrow> length (HeaderExtended h) \<le> 128) \<and> list_all short_entry4 (entries m)"

definition started :: "32 word \<Rightarrow> config" where
  "started sz =
     ([hframe (unat sz, 0) MessageHeader_headersize (CreateMessageHeader\<lparr>MessageSize := sz\<rparr>),
       mframe (unat sz) MessageHeader_init CreateMessage], 10)"

text \<open>The beginning of a message, from its first bytes.\<close>

lemma start4_on:
  assumes oth: "oth = bytes_of_string ''RRAC'' @ num_bytes sz @ num_bytes v @ rest"
    and len: "12 \<le> length oth" "length oth < 4294967296" and sz: "10 \<le> unat sz"
  shows "goes_to step4 (on s0 ([mframe 12 Message_init CreateMessage], 0) [] oth)
    (on (s0\<lparr>ar_version := v\<rparr>) (started sz) [] rest)"
proof -
  let ?c1 = "([mframe 12 MessageHeader_init CreateMessage], 0)"
  have 1: "goes step4 (on s0 ([mframe 12 Message_init CreateMessage], 0) [] oth) (on s0 ?c1 [] oth)"
    unfolding goes_def
    by (subst r4.common_on [of _ Message_init])
      (simp_all add: common_states_def step_Message_init_def goto_def then_s_def bind_s_def set_state_def upd_top_def
        continue_def mframe_def)
  define o1 o2 where "o1 = num_bytes sz @ num_bytes v @ rest" and "o2 = num_bytes v @ rest"
  have o: "oth = bytes_of_string ''RRAC'' @ o1" "o1 = num_bytes sz @ o2" "o2 = num_bytes v @ rest"
    by (simp_all add: oth o1_def o2_def)
  let ?d = "mframe 12 MessageHeader_init CreateMessage"
  have lens: "length o1 < 4294967296" "length o2 < 4294967296" using len(2) o by simp_all
  let ?B = "bytes_of_string ''RRAC''"
  have l4: "length ?B = 4" by simp
  have d4: "drop 4 oth = o1" unfolding o(1) by simp
  have "read_all_bytes 4 (on s0 ([?d], 0) [] oth) =
      Inr (Some ?B, on s0 ([?d], 0 + length ?B) (drop (length ?B) []) (drop (length ?B - length ([] :: byte list)) oth))"
    by (rule takes_all [OF takes_read_all_bytes [OF l4], where zs = o1]) (use len(2) o(1) in simp_all)
  then have magic: "read_all_bytes 4 (on s0 ([?d], 0) [] oth) = Inr (Some ?B, on s0 ([?d], 4) [] o1)"
    by (simp only: l4 drop_Nil list.size diff_zero add_0 d4)
  have n1: "read_number_unchecked (on s0 ([?d], 4) [] o1) = Inr (sz, on s0 ([?d], 8) [] o2)"
    using takes_all [OF takes_read32 [of sz], of 4 ?d "[]" o1 o2 s0 "[]"] o(2) lens(1)
    by (simp add: read_number_unchecked_def bind_s_def)
  have n2: "read_number_unchecked (on s0 ([?d], 8) [] o2) = Inr (v, on s0 ([?d], 10) [] rest)"
    using takes_all [OF takes_read16 [of v], of 8 ?d "[]" o2 rest s0 "[]"] o(3) lens(2)
    by (simp add: read_number_unchecked_def bind_s_def)
  have u: "(on s0 c b x)\<lparr>ar_version := v\<rparr> = on (s0\<lparr>ar_version := v\<rparr>) c b x" for c b x by (simp add: on_def)
  have "step4 (on s0 ?c1 [] oth) = Inr (None, on (s0\<lparr>ar_version := v\<rparr>) (started sz) [] rest)"
  proof -
    have "bounded (10 + (unat sz - 10)) [mframe (unat sz) MessageHeader_init CreateMessage]"
      using sz unat_u32_less [of sz] by (simp add: bounded_def)
    note push = push_state_on [OF this]
    have lim: "set_message_len (unat sz) (on s1 ([?d], 10) [] rest)
        = Inr ((), on s1 ([mframe (unat sz) MessageHeader_init CreateMessage], 10) [] rest)" for s1
      by (simp add: set_message_len_def mframe_def)
    have sub: "size_sub (unat sz) 10 = unat sz - 10" using sz unat_u32_less [of sz] by simp
    have a: "available (on s0 ([?d], 0) [] oth) = Inr (length oth, on s0 ([?d], 0) [] oth)" using len(2) by simp
    have "step4 (on s0 ?c1 [] oth) = step4_MessageHeader_init (on s0 ?c1 [] oth)" by (simp add: step4_on)
    also have "\<dots> = Inr (None, on (s0\<lparr>ar_version := v\<rparr>) (started sz) [] rest)"
      using len(1) sz
      by (simp add: step4_MessageHeader_init_def a magic n1 n2 u lim sub push continue_def started_def hframe_def)
    finally show ?thesis .
  qed
  then have 2: "goes step4 (on s0 ?c1 [] oth) (on (s0\<lparr>ar_version := v\<rparr>) (started sz) [] rest)"
    by (simp add: goes_def suffix_of_def oth)
  show ?thesis by (rule converse_rtranclp_into_rtranclp [where r = "goes step4", OF 1],
      rule r_into_rtranclp [where r = "goes step4", OF 2])
qed

lemma seg_header_size:
  assumes "10 + length (uintx_bytes l) \<le> unat sz" and "unat l \<le> unat sz"
  shows "seg lv step4 s0 (started sz) (uintx_bytes l)
    ([hframe (unat l, 0) MessageHeader_flags (CreateMessageHeader\<lparr>MessageSize := sz, HeaderSize := l\<rparr>),
      mframe (unat sz) MessageHeader_init CreateMessage], 10 + length (uintx_bytes l))"
  unfolding started_def
  by (rule seg_R [OF takes_read_uint_x, where k = "\<lambda>l.
       then_s (set_limit (unat l)) (then_s (upd_header (\<lambda>h. h\<lparr>HeaderSize := l\<rparr>)) (goto MessageHeader_flags))"])
    (use assms unat_u32_less [of sz] in \<open>simp_all add: step4_on then_s_def bind_s_def set_limit_def upd_top_def
      upd_header_def data_header_def top_frame_def set_data_def goto_def set_state_def continue_def hframe_def\<close>)

text \<open>A valid message is its header and its entries, in whatever portions its bytes arrive.\<close>

theorem seg_message4:
  assumes m: "valid_message4 m" "header m = Some h" and short: "short_message4 m \<or> lv"
  shows "seg lv step4 s0 (started (MessageSize h)) (drop 10 (message4_bytes m))
    ([mframe (length (message4_bytes m)) Message_done (message4_view m)], length (message4_bytes m))"
  using m(1)
proof (cases rule: valid_message4_parts)
  case (1 h')
  define N where "N = length (message4_bytes m)"
  have h': "h' = h" using 1(1) m(2) by simp
  note vh = 1(4) [unfolded h'] and n = 1(8) [unfolded h']
  let ?z = "uintx_bytes (HeaderSize h)" and ?f = "header4_fields_bytes h" and ?es = "concat (map entry4_bytes (entries m))"
  have msg: "message4_bytes m = header4_bytes h @ ?es" using m(2) by simp
  have hb: "header4_bytes h = (bytes_of_string ''RRAC'' @ num_bytes (MessageSize h) @ num_bytes (4 :: 16 word)) @ ?z @ ?f"
    by (simp add: header4_bytes_def)
  have drop: "drop 10 (message4_bytes m) = ?z @ ?f @ ?es" unfolding msg hb by simp
  have len: "N = 10 + length ?z + length ?f + length ?es" unfolding N_def msg hb by simp
  have hs: "unat (HeaderSize h) = 10 + length ?z + length ?f" using header4_size(1) [OF vh] unfolding hb by simp
  have size: "unat (MessageSize h) = N" using n by (simp add: N_def)
  have N: "N < 4294967296" using size unat_u32_less [of "MessageSize h"] by simp
  let ?q = "mframe N MessageHeader_init CreateMessage"
  have a: "seg lv step4 s0 (started (MessageSize h)) ?z
      ([hframe (unat (HeaderSize h), 0) MessageHeader_flags
        (CreateMessageHeader\<lparr>MessageSize := MessageSize h, HeaderSize := HeaderSize h\<rparr>), ?q], 10 + length ?z)"
    using seg_header_size [of "HeaderSize h" "MessageSize h" lv s0] hs len size by simp
  let ?m = "CreateMessage\<lparr>header := Some (header4_view h)\<rparr>"
  have b: "seg lv step4 s0 ([hframe (unat (HeaderSize h), 0) MessageHeader_flags
        (CreateMessageHeader\<lparr>MessageSize := MessageSize h, HeaderSize := HeaderSize h\<rparr>), ?q], 10 + length ?z) ?f
      ([mframe N Message_readentries ?m], 10 + length ?z + length ?f)"
  proof (rule seg_header_fields)
    show "length (HeaderExtended h) \<le> 128 \<or> lv" using short m(2) by (auto simp: short_message4_def)
  qed (use vh hs len N in \<open>simp_all add: valid_header4_def bounded_def\<close>)
  have c: "seg lv step4 s0 ([mframe N Message_readentries ?m], 10 + length ?z + length ?f) ?es
      ([mframe N Message_done (?m\<lparr>entries := entries ?m @ map entry4_view (entries m)\<rparr>)],
        10 + length ?z + length ?f + length ?es)"
  proof (rule r4.seg_message_entries)
    show "\<forall>e \<in> set (entries m). r4.reads_entry lv s0 (entry4_bytes e) (entry4_view e)"
      using reads_async_entry4 1(5) short by (auto simp: short_message4_def list_all_iff)
    show "unat (EntryCount (header4_view h)) = length (entries ?m) + length (entries m)"
      using 1(6,7) h' by (simp add: CreateMessage_def)
  qed (use len N in simp_all)
  have "?m\<lparr>entries := entries ?m @ map entry4_view (entries m)\<rparr> = message4_view m"
    using m(2) by (simp add: CreateMessage_def message4_view_def)
  with seg_trans [OF a seg_trans [OF b c]] show ?thesis
    unfolding drop N_def [symmetric] using len by simp
qed

end
