(* ===== verification/RR_Transport_Laws.thy ===== *)
theory RR_Transport_Laws
  imports RR_Transport RR_AsyncReader4_Message RR_Message2_Laws
begin

text \<open>
  The receiving half of the transport takes the bytes of a message from the stream, in whatever
  portions they arrive, to the message.
\<close>

section \<open>Memory\<close>

lemma stream_fill_recv:
  assumes "length bs \<le> n" and "off + n \<le> length (recvbuf t)"
  shows "stream_fill [Recv_buffer off n] bs t =
    Inr ((), t\<lparr>recvbuf := take off (recvbuf t) @ bs @ drop (off + length bs) (recvbuf t)\<rparr>)"
  using assms by (simp add: store_bytes_def Let_def)

lemma stream_fill_continue:
  "stream_fill (Continue_buffer n # bufs) bs t =
     stream_fill bufs (drop n bs) (t\<lparr>continue_memory := continue_memory t @ take n bs\<rparr>)"
  by simp

declare stream_fill.simps(2) [simp del]

section \<open>The reader of the transport\<close>

definition version_step :: "16 word \<Rightarrow> step" where
  "version_step v = (if v = 2 then step2 else step4)"

lemma reader_call_on:
  assumes "async_recv_version t = v" and "v = 2 \<or> v = 4"
    and "read_call (version_step v) bs cs (tr_reader t) = Some (Inr (x, rd))"
  shows "reader_call ex bs cs t = Inr (x, t\<lparr>tr_reader := rd\<rparr>)"
  using assms
  by (auto simp: reader_call_def version_step_def AsyncMessageReader_Read_def AsyncMessageReader_Read4_def)

interpretation rv: reader_steps "version_step v" for v
proof
  fix s :: async_reader and d ds
  assume "ar_stack s = d # ds" and "st_state d \<in> common_states"
  then show "version_step v s = step_common (st_state d) s"
    by (auto simp: version_step_def step2_def step4_def bind_s_def top_frame_def common_states_def)
qed

text \<open>
  Between two handlers: \<open>ys\<close> is what is missing of the message of \<open>N\<close> bytes, and the transport has
  offered the buffers that the reader asked for.
\<close>

definition reading_message :: "16 word \<Rightarrow> message \<Rightarrow> nat \<Rightarrow> byte list \<Rightarrow> read_return \<Rightarrow> stream_transport \<Rightarrow> bool" where
  "reading_message v mv N ys ret t \<longleftrightarrow>
     reader_at (version_step v) mv N ys ret (tr_reader t) \<and> (v = 2 \<or> v = 4) \<and> async_recv_version t = v
     \<and> async_recv_size t = N \<and> async_recv_pos t + length ys = N \<and> recvbuf_pos t = 0 \<and> recvbuf_end t = 0 \<and> recvbuf t \<noteq> []"

definition awaits_bytes :: "16 word \<Rightarrow> message \<Rightarrow> nat \<Rightarrow> byte list \<Rightarrow> stream_transport \<Rightarrow> bool" where
  "awaits_bytes v mv N ys t \<longleftrightarrow>
     ys \<noteq> [] \<and>
     (\<exists>ret l. reading_message v mv N ys ret t \<and> l \<le> length (recvbuf t) \<and>
        (case ret of
           ReadReturn_continue_buffers n \<Rightarrow>
             n + l \<le> length ys \<and> async_recv_continue_buf_count t = 1 \<and> continue_memory t = []
             \<and> active_recv_bufs t = Continue_buffer n # (if l > 0 then [Recv_buffer 0 l] else [])
         | _ \<Rightarrow> 0 < l \<and> l \<le> length ys \<and> async_recv_continue_buf_count t = 0
             \<and> active_recv_bufs t = [Recv_buffer 0 l]))"

lemma receive_next_message:
  assumes "reading_message v mv N [] ret t" and "restore_routing env mv = Inr m'"
  obtains t' where "receive_next env ret t = Inr (Received m', t')"
  using assms
  by (auto simp: receive_next_def reading_message_def reader_at_def MessageReady_def GetNextMessage_def)

lemma receive_next_more:
  assumes "reading_message v mv N ys ret t" and "ys \<noteq> []" and "N < 4294967296"
  obtains t' where "receive_next env ret t = Inr (Async_read_some (active_recv_bufs t') H_EndReceiveMessage5, t')"
    and "awaits_bytes v mv N ys t'"
proof -
  from assms have t: "recvbuf_pos t = 0" "recvbuf_end t = 0" "recvbuf t \<noteq> []" "async_recv_size t = N"
    "async_recv_pos t + length ys = N" "async_recv_version t = v" and at: "reader_at (version_step v) mv N ys ret (tr_reader t)"
    by (simp_all add: reading_message_def)
  then have sub: "size_sub N (async_recv_pos t) = length ys" using assms(3) by simp
  from at assms(2) have ret: "ret = ReadReturn_continue_nobuffers
      \<or> (\<exists>n. ret = ReadReturn_continue_buffers n \<and> 0 < n \<and> n \<le> length ys)"
    by (auto simp: reader_at_def)
  then show thesis
  proof (elim disjE exE conjE)
    assume r: "ret = ReadReturn_continue_nobuffers"
    define l where "l = min (min (length (recvbuf t)) (length ys)) recv_chunk"
    define t' where "t' = t\<lparr>recvbuf_pos := 0, recvbuf_end := 0, async_recv_continue_buf_count := 0,
      active_recv_bufs := [Recv_buffer 0 l]\<rparr>"
    have l: "0 < l" "l \<le> length ys" "l \<le> length (recvbuf t)" using t(3) assms(2) by (auto simp: l_def recv_chunk_def)
    have "receive_next env ret t = Inr (Async_read_some (active_recv_bufs t') H_EndReceiveMessage5, t')"
      using t sub r by (simp add: receive_next_def receive_more_def Let_def t'_def l_def)
    moreover have "awaits_bytes v mv N ys t'"
      unfolding awaits_bytes_def
      using assms(1,2) l r by (auto simp: reading_message_def t'_def intro!: exI [of _ ret] exI [of _ l])
    ultimately show thesis by (rule that)
  next
    fix n assume r: "ret = ReadReturn_continue_buffers n" "0 < n" "n \<le> length ys"
    define l where "l = min (min (length (recvbuf t)) (length ys - n)) recv_chunk"
    define bufs where "bufs = Continue_buffer n # (if l > 0 then [Recv_buffer 0 l] else [])"
    define t' where "t' = t\<lparr>recvbuf_pos := 0, recvbuf_end := 0, async_recv_continue_buf_count := 1,
      active_recv_bufs := bufs, continue_memory := []\<rparr>"
    have l: "n + l \<le> length ys" "l \<le> length (recvbuf t)" using r(3) by (auto simp: l_def)
    have "receive_next env ret t = Inr (Async_read_some (active_recv_bufs t') H_EndReceiveMessage5, t')"
      using t sub r by (simp add: receive_next_def receive_more_def Let_def t'_def l_def bufs_def)
    moreover have "awaits_bytes v mv N ys t'"
      unfolding awaits_bytes_def
      using assms(1,2) l r by (auto simp: reading_message_def t'_def bufs_def intro!: exI [of _ ret] exI [of _ l])
    ultimately show thesis by (rule that)
  qed
qed

text \<open>The bytes in \<open>recvbuf\<close> go to the reader.\<close>

lemma read_recvbuf_call:
  assumes call: "read_call (version_step v) bs [] (tr_reader t) = Some (Inr ((ret', length bs), rd'))"
    and at: "reader_at (version_step v) mv N ys ret' rd'" "v = 2 \<or> v = 4"
    and t: "recvbuf_unread t = bs" "recvbuf_pos t = 0" "recvbuf_end t = length bs"
      "async_recv_version t = v" "async_recv_size t = N" "async_recv_pos t + length (bs @ ys) = N" "recvbuf t \<noteq> []"
  obtains t' where "read_recvbuf w t = Inr (ret', t')" and "reading_message v mv N ys ret' t'"
proof -
  define t' where "t' = t\<lparr>tr_reader := rd', recvbuf_pos := 0, recvbuf_end := 0,
    async_recv_pos := async_recv_pos t + length bs\<rparr>"
  have "read_recvbuf w t = Inr (ret', t')"
    using reader_call_on [OF t(4) at(2) call] t
    by (simp add: read_recvbuf_def bind_s_def Let_def t'_def)
  moreover have "reading_message v mv N ys ret' t'"
    using at t by (simp add: reading_message_def t'_def)
  ultimately show thesis by (rule that)
qed

lemma read_recvbuf_on:
  assumes at: "reader_at (version_step v) mv N (bs @ ys) ret (tr_reader t)" "v = 2 \<or> v = 4" and bs: "bs \<noteq> []"
    and N: "N < 4294967296" and t: "recvbuf_unread t = bs" "recvbuf_pos t = 0" "recvbuf_end t = length bs"
      "async_recv_version t = v" "async_recv_size t = N" "async_recv_pos t + length (bs @ ys) = N" "recvbuf t \<noteq> []"
  obtains ret' t' where "read_recvbuf w t = Inr (ret', t')" and "reading_message v mv N ys ret' t'"
proof -
  from rv.reader_at_call [OF at(1) bs N] obtain ret' rd' where
    "read_call (version_step v) bs [] (tr_reader t) = Some (Inr ((ret', length bs), rd'))"
    "reader_at (version_step v) mv N ys ret' rd'" .
  from read_recvbuf_call [OF this at(2) t] that show thesis by blast
qed

text \<open>A portion of the message arrives.\<close>

lemma reader_at_not_done: "reader_at m mv N ys ret rd \<Longrightarrow> ys \<noteq> [] \<Longrightarrow> ret \<noteq> ReadReturn_done"
  by (auto simp: reader_at_def)

lemma arrives_plain:
  assumes rm: "reading_message v mv N (bs @ ys) ret t" and bs: "bs \<noteq> []" "length bs \<le> l" and N: "N < 4294967296"
    and t: "l \<le> length (recvbuf t)" "async_recv_continue_buf_count t = 0"
  obtains t1 ret' t2 t3 where "stream_fill [Recv_buffer 0 l] bs t = Inr ((), t1)"
    and "receive_begin env (length bs) t1 = Inr (None, t2)" and "receive_read (length bs) t2 = Inr (ret', t3)"
    and "reading_message v mv N ys ret' t3"
proof -
  note rm' = rm [unfolded reading_message_def]
  have size: "async_recv_size t \<noteq> 0" using rm' bs(1) by (cases bs) auto
  define t1 where "t1 = t\<lparr>recvbuf := bs @ drop (length bs) (recvbuf t)\<rparr>"
  define t2 where "t2 = t1\<lparr>recvbuf_end := length bs\<rparr>"
  have 1: "stream_fill [Recv_buffer 0 l] bs t = Inr ((), t1)"
    using bs(2) t(1) by (simp add: stream_fill_recv t1_def)
  have 2: "receive_begin env (length bs) t1 = Inr (None, t2)"
    using size t(2) rm' by (simp add: receive_begin_def t1_def t2_def)
  have "recvbuf_unread t2 = bs" using rm' by (simp add: recvbuf_unread_def t1_def t2_def)
  then obtain ret' t3 where r: "read_recvbuf '''' t2 = Inr (ret', t3)" and rm3: "reading_message v mv N ys ret' t3"
    by (rule read_recvbuf_on [of v mv N bs ys ret t2, rotated 4]) (use rm' bs N in \<open>auto simp: t1_def t2_def\<close>)
  then have "recvbuf_end t3 = 0" by (simp add: reading_message_def)
  then have "receive_read (length bs) t2 = Inr (ret', t3)"
    using r t(2) by (simp add: receive_read_def t1_def t2_def)
  from that [OF 1 2 this rm3] show thesis .
qed

lemma arrives_continue:
  assumes rm: "reading_message v mv N (bs @ ys) (ReadReturn_continue_buffers n) t" and bs: "bs \<noteq> []" "length bs \<le> n + l"
    and N: "N < 4294967296" and t: "l \<le> length (recvbuf t)" "async_recv_continue_buf_count t = 1" "continue_memory t = []"
      "active_recv_bufs t = Continue_buffer n # (if l > 0 then [Recv_buffer 0 l] else [])"
  obtains t1 ret' t2 t3 where "stream_fill (active_recv_bufs t) bs t = Inr ((), t1)"
    and "receive_begin env (length bs) t1 = Inr (None, t2)" and "receive_read (length bs) t2 = Inr (ret', t3)"
    and "reading_message v mv N ys ret' t3"
proof -
  note rm' = rm [unfolded reading_message_def]
  have size: "async_recv_size t \<noteq> 0" using rm' bs(1) by (cases bs) auto
  define cs later where "cs = take n bs" and "later = drop n bs"
  have bs': "bs = cs @ later" and len: "length cs = min (length bs) n" "length later = length bs - n" "length cs \<le> n"
    by (simp_all add: cs_def later_def)
  have n: "0 < n" using rm' bs(1) by (auto simp: reader_at_def)
  then have cs: "cs \<noteq> []" using bs(1) by (simp add: cs_def)
  define t1 where "t1 = t\<lparr>continue_memory := cs, recvbuf := later @ drop (length later) (recvbuf t)\<rparr>"
  have 1: "stream_fill (active_recv_bufs t) bs t = Inr ((), t1)"
    using bs(2) t len
    by (auto simp: stream_fill_continue stream_fill_recv t1_def cs_def [symmetric] later_def [symmetric])
  have 2: "receive_begin env (length bs) t1 = Inr (None, t1)"
    using size t by (simp add: receive_begin_def t1_def)
  have at: "reader_at (version_step v) mv N (cs @ (later @ ys)) (ReadReturn_continue_buffers n) (tr_reader t)"
    using rm' bs' by simp
  obtain ret1 rd1 where call: "read_call (version_step v) [] cs (tr_reader t) = Some (Inr ((ret1, 0), rd1))"
    and at1: "reader_at (version_step v) mv N (later @ ys) ret1 rd1"
    by (rule rv.reader_at_continue [OF at cs len(3) N])
  define k where "k = length later"
  have k0: "k = 0 \<longleftrightarrow> later = []" by (simp add: k_def)
  define t2 where "t2 = t1\<lparr>recvbuf_end := k, tr_reader := rd1, async_recv_pos := async_recv_pos t + length cs,
    continue_memory := []\<rparr>"
  have sz: "buffers_size (take 1 (active_recv_bufs t)) = n" using t(4) by (simp add: buffers_size_def)
  have b1: "min (length bs) n = length cs" "length bs - length cs = k" using len by (simp_all add: k_def)
  have room: "\<not> length (recvbuf t1) < k"
    using bs(2) t(1) len by (simp add: t1_def k_def)
  have f: "async_recv_continue_buf_count t1 = 1" "active_recv_bufs t1 \<noteq> []"
    "buffers_size (take 1 (active_recv_bufs t1)) = n" "continue_memory t1 = cs" "recvbuf_end t1 = 0" "recvbuf_pos t1 = 0"
    "async_recv_pos t1 = async_recv_pos t"
    using t sz rm' by (simp_all add: t1_def)
  have rc: "reader_call ProtocolException [] cs (t1\<lparr>recvbuf_end := k\<rparr>) =
      Inr ((ret1, 0), t1\<lparr>recvbuf_end := k, tr_reader := rd1\<rparr>)"
    by (rule reader_call_on [of _ v]) (use rm' call in \<open>simp_all add: t1_def\<close>)
  have read: "receive_read (length bs) t1 =
      (if ret1 \<noteq> ReadReturn_done \<and> k \<noteq> 0 then read_recvbuf ''Asyncio internal error'' t2 else Inr (ret1, t2))"
    using rc room f by (simp add: receive_read_def Let_def b1 bind_s_def t2_def)
  show thesis
  proof (cases "later = []")
    case True
    then have "reading_message v mv N ys ret1 t2"
      using at1 rm' bs' by (simp add: reading_message_def t2_def t1_def k_def)
    moreover have "receive_read (length bs) t1 = Inr (ret1, t2)" using read True k0 by simp
    ultimately show thesis using that [OF 1 2] by blast
  next
    case False
    then have nd: "ret1 \<noteq> ReadReturn_done" using reader_at_not_done [OF at1] by simp
    have "recvbuf_unread t2 = later" using rm' by (simp add: recvbuf_unread_def t1_def t2_def k_def)
    then obtain ret' t3 where r: "read_recvbuf ''Asyncio internal error'' t2 = Inr (ret', t3)" and rm3: "reading_message v mv N ys ret' t3"
      by (rule read_recvbuf_on [of v mv N later ys ret1 t2, rotated 4])
        (use rm' at1 False N bs' in \<open>auto simp: t1_def t2_def k_def\<close>)
    have "receive_read (length bs) t1 = Inr (ret', t3)" using read False nd r k0 by simp
    from that [OF 1 2 this rm3] show thesis .
  qed
qed

text \<open>One portion and its handler.\<close>

definition reads_on :: "transport_env \<Rightarrow> 16 word \<Rightarrow> message \<Rightarrow> message \<Rightarrow> nat \<Rightarrow> byte list \<Rightarrow> receive_action \<Rightarrow> stream_transport \<Rightarrow> bool"
where
  "reads_on env v mv m' N ys a t \<longleftrightarrow>
     (if ys = [] then a = Received m'
      else a = Async_read_some (active_recv_bufs t) H_EndReceiveMessage5 \<and> awaits_bytes v mv N ys t)"

lemma reads_on_next:
  assumes rm: "reading_message v mv N ys ret t" and N: "N < 4294967296" and m': "restore_routing env mv = Inr m'"
  obtains a t' where "receive_next env ret t = Inr (a, t')" and "reads_on env v mv m' N ys a t'"
proof (cases "ys = []")
  case True
  with receive_next_message [OF rm [unfolded True] m'] that show thesis by (auto simp: reads_on_def)
next
  case False
  with receive_next_more [OF rm False N, where env = env] that show thesis by (auto simp: reads_on_def)
qed

lemma EndReceiveMessage5_on:
  assumes "bs \<noteq> []" and "receive_begin env (length bs) t = Inr (None, t1)" and "receive_read (length bs) t1 = Inr (ret, t2)"
    and "receive_next env ret t2 = Inr (a, t3)"
  shows "EndReceiveMessage5 env False (length bs) t = Inr (a, t3)"
  using assms by (simp add: EndReceiveMessage5_def closing_on_exception_def)

lemma stream_arrives_on:
  assumes aw: "awaits_bytes v mv N (bs @ ys) t" and bs: "bs \<noteq> []" "length bs \<le> buffers_size (active_recv_bufs t)"
    and N: "N < 4294967296" and m': "restore_routing env mv = Inr m'"
  obtains a t' where "stream_arrives env (active_recv_bufs t) H_EndReceiveMessage5 bs t = Inr (a, t')"
    and "reads_on env v mv m' N ys a t'"
proof -
  from aw obtain ret l where rm: "reading_message v mv N (bs @ ys) ret t" and l: "l \<le> length (recvbuf t)"
    and c: "case ret of
           ReadReturn_continue_buffers n \<Rightarrow>
             n + l \<le> length (bs @ ys) \<and> async_recv_continue_buf_count t = 1 \<and> continue_memory t = []
             \<and> active_recv_bufs t = Continue_buffer n # (if l > 0 then [Recv_buffer 0 l] else [])
         | _ \<Rightarrow> 0 < l \<and> l \<le> length (bs @ ys) \<and> async_recv_continue_buf_count t = 0
             \<and> active_recv_bufs t = [Recv_buffer 0 l]"
    unfolding awaits_bytes_def by blast
  obtain t1 ret' t2 t3 where *: "stream_fill (active_recv_bufs t) bs t = Inr ((), t1)"
    "receive_begin env (length bs) t1 = Inr (None, t2)" "receive_read (length bs) t2 = Inr (ret', t3)"
    "reading_message v mv N ys ret' t3"
  proof (cases ret)
    case (ReadReturn_continue_buffers n)
    with c bs(2) have a: "active_recv_bufs t = Continue_buffer n # (if l > 0 then [Recv_buffer 0 l] else [])"
      "async_recv_continue_buf_count t = 1" "continue_memory t = []" "length bs \<le> n + l"
      by (auto simp: buffers_size_def split: if_splits)
    from arrives_continue [OF rm [unfolded ReadReturn_continue_buffers] bs(1) a(4) N l a(2,3,1)] that show thesis .
  next
    case ReadReturn_done
    with c bs(2) have a: "active_recv_bufs t = [Recv_buffer 0 l]" "async_recv_continue_buf_count t = 0" "length bs \<le> l"
      by (auto simp: buffers_size_def)
    obtain t1 ret' t2 t3 where "stream_fill [Recv_buffer 0 l] bs t = Inr ((), t1)"
      "receive_begin env (length bs) t1 = Inr (None, t2)" "receive_read (length bs) t2 = Inr (ret', t3)"
      "reading_message v mv N ys ret' t3"
      by (rule arrives_plain [OF rm bs(1) a(3) N l a(2)])
    then show thesis by (intro that) (simp_all only: a(1))
  next
    case ReadReturn_continue_nobuffers
    with c bs(2) have a: "active_recv_bufs t = [Recv_buffer 0 l]" "async_recv_continue_buf_count t = 0" "length bs \<le> l"
      by (auto simp: buffers_size_def)
    obtain t1 ret' t2 t3 where "stream_fill [Recv_buffer 0 l] bs t = Inr ((), t1)"
      "receive_begin env (length bs) t1 = Inr (None, t2)" "receive_read (length bs) t2 = Inr (ret', t3)"
      "reading_message v mv N ys ret' t3"
      by (rule arrives_plain [OF rm bs(1) a(3) N l a(2)])
    then show thesis by (intro that) (simp_all only: a(1))
  qed
  from reads_on_next [OF *(4) N m'] obtain a t' where "receive_next env ret' t3 = Inr (a, t')"
    and "reads_on env v mv m' N ys a t'" .
  with EndReceiveMessage5_on [OF bs(1) *(2,3)] *(1) that show thesis
    by (simp add: stream_arrives_def run_handler_def)
qed

section \<open>The first bytes\<close>

definition accepts_size :: "transport_env \<Rightarrow> nat \<Rightarrow> stream_transport \<Rightarrow> bool" where
  "accepts_size env N t \<longleftrightarrow>
     N < 2147483648 \<and> int N \<le> max_message_size t
     \<and> (recv_large_transfer_authorized t \<or> IsLargeTransferAuthorized env \<or> N \<le> 524288)"

lemma check_message_size_on:
  assumes "accepts_size env (unat sz) t"
  shows "check_message_size w env sz t = Inr ((), t\<lparr>recv_large_transfer_authorized :=
      recv_large_transfer_authorized t \<or> IsLargeTransferAuthorized env\<rparr>)"
proof -
  have "sz > 512 * 1024 \<longleftrightarrow> unat sz > 524288" by (simp add: word_less_nat_alt)
  with assms show ?thesis by (auto simp: check_message_size_def accepts_size_def)
qed

text \<open>\<open>M\<close> is a message of version \<open>v\<close> that a new resumable reader reads as \<open>mv\<close>, in any portions.\<close>

definition framed :: "16 word \<Rightarrow> byte list \<Rightarrow> bool" where
  "framed v M \<longleftrightarrow>
     (v = 2 \<or> v = 4) \<and> length M < 4294967296
     \<and> (\<exists>rest. M = bytes_of_string ''RRAC'' @ num_bytes (of_nat (length M) :: 32 word) @ num_bytes v @ rest)"

definition reads_as :: "16 word \<Rightarrow> message \<Rightarrow> byte list \<Rightarrow> bool" where
  "reads_as v mv M \<longleftrightarrow>
     framed v M
     \<and> (\<forall>bs ys rd. M = bs @ ys \<longrightarrow> 12 \<le> length bs \<longrightarrow>
          (\<exists>ret rd'. read_call (version_step v) bs [] (AsyncMessageReader_Reset rd) = Some (Inr ((ret, length bs), rd'))
             \<and> reader_at (version_step v) mv (length M) ys ret rd'))"

definition awaits_start :: "byte list \<Rightarrow> nat \<Rightarrow> stream_transport \<Rightarrow> bool" where
  "awaits_start M k t \<longleftrightarrow>
     k < 16 \<and> take k (recvbuf t) = take k M \<and> 16 \<le> length (recvbuf t) \<and> recvbuf_pos t = 0 \<and> recvbuf_end t = k
     \<and> async_recv_size t = 0 \<and> async_recv_pos t = 0 \<and> async_recv_continue_buf_count t = 0
     \<and> active_recv_bufs t = [Recv_buffer k (16 - k)]"

text \<open>Fewer than sixteen bytes: ask for the others.\<close>

lemma start_arrives_part:
  assumes aw: "awaits_start M k t" and bs: "bs \<noteq> []" "drop k M = bs @ ys" "k + length bs < 16"
    and M: "16 \<le> length M"
  obtains t' where "stream_arrives env (active_recv_bufs t) H_EndReceiveMessage5 bs t =
      Inr (Async_read_some (active_recv_bufs t') H_EndReceiveMessage5, t')"
    and "awaits_start M (k + length bs) t'" and "\<And>N. accepts_size env N t' = accepts_size env N t"
proof -
  note aw' = aw [unfolded awaits_start_def]
  define mem where "mem = take k (recvbuf t) @ bs @ drop (k + length bs) (recvbuf t)"
  have fill: "stream_fill (active_recv_bufs t) bs t = Inr ((), t\<lparr>recvbuf := mem\<rparr>)"
    using aw' bs(3) by (simp add: stream_fill_recv mem_def)
  define t' where "t' = t\<lparr>recvbuf := mem, recvbuf_end := k + length bs,
    active_recv_bufs := [Recv_buffer (k + length bs) (16 - k - length bs)]\<rparr>"
  have "bs \<noteq> [] \<Longrightarrow> \<not> 16 - k < length bs" using bs(3) by simp
  then have beg: "receive_begin env (length bs) (t\<lparr>recvbuf := mem\<rparr>)
      = Inr (Some (Async_read_some (active_recv_bufs t') H_EndReceiveMessage5), t')"
    using aw' bs by (simp add: receive_begin_def receive_start_def Let_def t'_def)
  have "take (k + length bs) M = take k M @ bs"
    using bs(2) aw' M by (metis append_take_drop_id length_take min.absorb2 take_add append_eq_conv_conj)
  moreover have "take (k + length bs) mem = take k (recvbuf t) @ bs"
    using aw' M by (simp add: mem_def)
  moreover have "length mem = length (recvbuf t)" using aw' bs(3) M by (simp add: mem_def)
  ultimately have "awaits_start M (k + length bs) t'"
    using aw' bs(3) by (simp add: awaits_start_def t'_def)
  moreover have "stream_arrives env (active_recv_bufs t) H_EndReceiveMessage5 bs t =
      Inr (Async_read_some (active_recv_bufs t') H_EndReceiveMessage5, t')"
    using fill beg bs(1)
    by (simp add: stream_arrives_def run_handler_def EndReceiveMessage5_def closing_on_exception_def)
  moreover have "accepts_size env N t' = accepts_size env N t" for N by (simp add: accepts_size_def t'_def)
  ultimately show thesis using that by blast
qed

text \<open>All sixteen: the message begins.\<close>

lemma start_arrives_all:
  assumes aw: "awaits_start M k t" and bs: "drop k M = bs @ ys" "k + length bs = 16"
    and M: "16 \<le> length M" "reads_as v mv M" and ok: "accepts_size env (length M) t" and m': "restore_routing env mv = Inr m'"
  obtains a t' where "stream_arrives env (active_recv_bufs t) H_EndReceiveMessage5 bs t = Inr (a, t')"
    and "reads_on env v mv m' (length M) ys a t'"
proof -
  note aw' = aw [unfolded awaits_start_def] and M' = M(2) [unfolded reads_as_def framed_def]
  define mem where "mem = take k (recvbuf t) @ bs @ drop 16 (recvbuf t)"
  have bs0: "bs \<noteq> []" using aw' bs(2) by auto
  have fill: "stream_fill (active_recv_bufs t) bs t = Inr ((), t\<lparr>recvbuf := mem\<rparr>)"
    using aw' bs(2) by (simp add: stream_fill_recv mem_def)
  have split: "M = take 16 M @ ys" "take 16 M = take k M @ bs"
  proof -
    have "M = take k M @ bs @ ys" using bs(1) by (metis append_take_drop_id)
    moreover have "length (take k M @ bs) = 16" using aw' bs(2) M(1) by simp
    ultimately show "take 16 M = take k M @ bs" by (metis append_assoc append_eq_conv_conj)
    with \<open>M = take k M @ bs @ ys\<close> show "M = take 16 M @ ys" by simp
  qed
  have "length (take k M) = k" using aw' M(1) by simp
  then have mem: "take 16 mem = take 16 M" "length mem = length (recvbuf t)" "mem \<noteq> []"
    using aw' bs(2) split(2) bs0 by (auto simp: mem_def)
  from M' obtain rest where rest: "M = bytes_of_string ''RRAC'' @ num_bytes (of_nat (length M) :: 32 word) @ num_bytes v @ rest"
    by blast
  have "take 4 mem = bytes_of_string ''RRAC''" "take 4 (drop 4 mem) = num_bytes (of_nat (length M) :: 32 word)"
    "take 2 (drop 8 mem) = num_bytes v"
  proof -
    have "take 4 mem = take 4 (take 16 mem)" "take 4 (drop 4 mem) = take 4 (drop 4 (take 16 mem))"
      "take 2 (drop 8 mem) = take 2 (drop 8 (take 16 mem))"
      by (simp_all add: drop_take)
    moreover have "take 4 (take 16 M) = take 4 M" "take 4 (drop 4 (take 16 M)) = take 4 (drop 4 M)"
      "take 2 (drop 8 (take 16 M)) = take 2 (drop 8 M)"
      by (simp_all add: drop_take)
    moreover have "take 4 M = bytes_of_string ''RRAC''" by (subst rest) simp
    moreover have "take 4 (drop 4 M) = num_bytes (of_nat (length M) :: 32 word)" by (subst rest) simp
    moreover have "take 2 (drop 8 M) = num_bytes v" by (subst rest) simp
    ultimately show "take 4 mem = bytes_of_string ''RRAC''" "take 4 (drop 4 mem) = num_bytes (of_nat (length M) :: 32 word)"
      "take 2 (drop 8 mem) = num_bytes v"
      by (simp_all only: mem(1))
  qed
  note fields = this
  have size: "unat (of_nat (length M) :: 32 word) = length M" using M' by simp
  have ck: "check_message_size w env (of_nat (length M)) (t\<lparr>recvbuf := mem, recvbuf_end := 16\<rparr>) =
      Inr ((), t\<lparr>recvbuf := mem, recvbuf_end := 16, recv_large_transfer_authorized :=
        recv_large_transfer_authorized t \<or> IsLargeTransferAuthorized env\<rparr>)" for w
    by (subst check_message_size_on) (use ok size in \<open>simp_all add: accepts_size_def\<close>)
  define t1 where "t1 = t\<lparr>recvbuf := mem, recvbuf_end := 16,
    recv_large_transfer_authorized := recv_large_transfer_authorized t \<or> IsLargeTransferAuthorized env,
    async_recv_size := length M, async_recv_version := v, tr_reader := AsyncMessageReader_Reset (tr_reader t)\<rparr>"
  have "\<not> (of_nat (length M) :: 32 word) < 16" using size M(1) by (simp add: word_less_nat_alt)
  moreover have "of_nat (le_nat (num_bytes (of_nat (length M) :: 32 word))) = (of_nat (length M) :: 32 word)"
    "of_nat (le_nat (num_bytes v)) = v" by (simp_all add: le_nat_num_bytes)
  ultimately have start: "receive_start env (t\<lparr>recvbuf := mem, recvbuf_end := 16\<rparr>) = Inr (None, t1)"
    using aw' size by (simp add: receive_start_def Let_def fields ck t1_def)
  have beg: "receive_begin env (length bs) (t\<lparr>recvbuf := mem\<rparr>) = Inr (None, t1)"
    using start aw' bs(2) by (simp add: receive_begin_def Let_def)
  have "12 \<le> length (take 16 M)" using M(1) by simp
  with M' split(1) obtain ret rd' where
    call: "read_call (version_step v) (take 16 M) [] (AsyncMessageReader_Reset (tr_reader t)) = Some (Inr ((ret, length (take 16 M)), rd'))"
    and at: "reader_at (version_step v) mv (length M) ys ret rd'" by blast
  have unread: "recvbuf_unread t1 = take 16 M" using aw' mem(1) by (simp add: recvbuf_unread_def t1_def)
  have 16: "length (take 16 M) = 16" using M(1) by simp
  obtain t2 where r: "read_recvbuf '''' t1 = Inr (ret, t2)" and rm: "reading_message v mv (length M) ys ret t2"
    by (rule read_recvbuf_call [of v "take 16 M" t1 ret rd' mv "length M" ys])
      (use call at M' unread 16 aw' mem(3) split(1) in \<open>simp_all add: t1_def\<close>)
  have "recvbuf_end t2 = 0" using rm by (simp add: reading_message_def)
  then have read: "receive_read (length bs) t1 = Inr (ret, t2)"
    using r aw' by (simp add: receive_read_def t1_def)
  obtain a t' where nx: "receive_next env ret t2 = Inr (a, t')" "reads_on env v mv m' (length M) ys a t'"
    by (rule reads_on_next [OF rm _ m']) (use M' in simp)
  have "stream_arrives env (active_recv_bufs t) H_EndReceiveMessage5 bs t = Inr (a, t')"
    using EndReceiveMessage5_on [OF bs0 beg read nx(1)] fill by (simp add: stream_arrives_def run_handler_def)
  from that [OF this nx(2)] show thesis .
qed

section \<open>Deliveries\<close>

text \<open>
  A configuration that asks for bytes of the current message only (\<open>rest\<close> is what follows it in the
  stream), and that has a next step for every portion that fits.
\<close>

definition asks_within :: "transport_env \<Rightarrow> byte list \<Rightarrow> stream_config \<Rightarrow> bool" where
  "asks_within env rest c \<longleftrightarrow>
     (\<exists>t bufs h ys. c = (t, Async_read_some bufs h, ys @ rest) \<and> 0 < buffers_size bufs \<and> buffers_size bufs \<le> length ys
        \<and> (\<forall>bs r. ys @ rest = bs @ r \<longrightarrow> bs \<noteq> [] \<longrightarrow> length bs \<le> buffers_size bufs \<longrightarrow>
             (\<exists>t' a. stream_step env c (t', a, r))))"

text \<open>
  The message can be received; every run has at most \<open>N\<close> steps and is at the message or asks for
  more of it.
\<close>

definition delivers :: "transport_env \<Rightarrow> stream_config \<Rightarrow> nat \<Rightarrow> message \<Rightarrow> byte list \<Rightarrow> bool" where
  "delivers env c N m rest \<longleftrightarrow>
     (\<exists>t. (stream_step env)\<^sup>*\<^sup>* c (t, Received m, rest))
     \<and> (\<forall>n c'. (stream_step env ^^ n) c c' \<longrightarrow>
          n \<le> N \<and> ((\<exists>t. c' = (t, Received m, rest)) \<or> asks_within env rest c'))"

text \<open>
  What a way of receiving has to show for that: \<open>d ys\<close> holds of the configurations in which \<open>ys\<close> is
  missing of the message.
\<close>

locale delivery =
  fixes env :: transport_env and d :: "byte list \<Rightarrow> stream_config \<Rightarrow> bool" and m :: message and rest :: "byte list"
  assumes asks: "d ys (t, a, s) \<Longrightarrow> s = ys @ rest \<and>
      (if ys = [] then a = Received m
       else \<exists>bufs h. a = Async_read_some bufs h \<and> 0 < buffers_size bufs \<and> buffers_size bufs \<le> length ys)"
    and arrives: "d (bs @ ys) (t, Async_read_some bufs h, s) \<Longrightarrow> bs \<noteq> [] \<Longrightarrow> length bs \<le> buffers_size bufs \<Longrightarrow>
      \<exists>a t'. stream_arrives env bufs h bs t = Inr (a, t') \<and> d ys (t', a, ys @ rest)"
begin

lemma portion:
  assumes "d ys (t, Async_read_some bufs h, s)" and "s = bs @ r" and "bs \<noteq> []" and "length bs \<le> buffers_size bufs"
  obtains ys' a t' where "ys = bs @ ys'" and "r = ys' @ rest" and "stream_arrives env bufs h bs t = Inr (a, t')"
    and "d ys' (t', a, r)"
proof -
  from asks [OF assms(1)] have s: "s = ys @ rest" and len: "length bs \<le> length ys"
    using assms(4) by (auto split: if_splits)
  define ys' where "ys' = drop (length bs) ys"
  have "take (length bs) (bs @ r) = take (length bs) (ys @ rest)" "drop (length bs) (bs @ r) = drop (length bs) (ys @ rest)"
    using s assms(2) by simp_all
  then have "take (length bs) ys = bs" and r: "r = ys' @ rest" using len by (simp_all add: ys'_def)
  then have ys: "ys = bs @ ys'" by (metis append_take_drop_id ys'_def)
  from arrives [OF assms(1) [unfolded ys] assms(3,4)] that [OF ys r] r show thesis by blast
qed

lemma step:
  assumes "d ys c" and "stream_step env c c'"
  obtains bs ys' where "ys = bs @ ys'" and "bs \<noteq> []" and "d ys' c'"
proof -
  obtain t a s where c: "c = (t, a, s)" by (cases c)
  from asks [OF assms(1) [unfolded c]] consider "a = Received m" | bufs h where "a = Async_read_some bufs h"
    by (auto split: if_splits)
  then show thesis
  proof cases
    case 1
    with assms(2) c show thesis by (auto elim: stream_step_receivedE)
  next
    case (2 bufs h)
    from assms(2) [unfolded c 2] obtain bs r a1 t1 where bs: "bs \<noteq> []" "length bs \<le> buffers_size bufs"
      and eq: "s = bs @ r" "c' = (t1, a1, r)" and arr: "stream_arrives env bufs h bs t = Inr (a1, t1)"
      by (rule stream_step_readE) auto
    from portion [OF assms(1) [unfolded c 2] eq(1) bs] arr that bs(1) eq(2) show thesis by auto
  qed
qed

lemma within:
  assumes "d ys (t, a, s)" and "ys \<noteq> []"
  shows "asks_within env rest (t, a, s)"
proof -
  from asks [OF assms(1)] assms(2) obtain bufs h where b: "a = Async_read_some bufs h" "s = ys @ rest"
    "0 < buffers_size bufs" "buffers_size bufs \<le> length ys" by auto
  have "\<exists>t' a'. stream_step env (t, a, s) (t', a', r)"
    if s: "ys @ rest = bs @ r" and bs: "bs \<noteq> []" "length bs \<le> buffers_size bufs" for bs r
  proof -
    from s b(2) have s': "s = bs @ r" by simp
    from portion [OF assms(1) [unfolded b(1)] s' bs] obtain a1 t1 where
      "stream_arrives env bufs h bs t = Inr (a1, t1)" by metis
    from stream_step.arrive [OF bs this] show ?thesis unfolding b(1) s' by blast
  qed
  with b show ?thesis unfolding asks_within_def by blast
qed

lemma run:
  assumes "(stream_step env ^^ n) c c'" and "d ys c"
  shows "\<exists>ys'. d ys' c' \<and> n + length ys' \<le> length ys"
  using assms(1)
proof (induction n arbitrary: c')
  case 0
  with assms(2) show ?case by auto
next
  case (Suc n)
  from Suc.prems obtain c1 where c1: "(stream_step env ^^ n) c c1" "stream_step env c1 c'" by auto
  from Suc.IH [OF c1(1)] obtain ys1 where ys1: "d ys1 c1" "n + length ys1 \<le> length ys" by blast
  from step [OF ys1(1) c1(2)] obtain bs ys' where "ys1 = bs @ ys'" "bs \<noteq> []" "d ys' c'" .
  moreover from this have "Suc (length ys') \<le> length ys1" by (cases bs) auto
  ultimately show ?case using ys1(2) by (intro exI [of _ ys']) simp
qed

lemma ends:
  assumes "d ys c"
  shows "\<exists>t. (stream_step env)\<^sup>*\<^sup>* c (t, Received m, rest)"
  using assms
proof (induction ys arbitrary: c)
  case Nil
  obtain t a s where c: "c = (t, a, s)" by (cases c)
  from asks [OF Nil [unfolded c]] c show ?case by auto
next
  case (Cons b ys)
  obtain t a s where c: "c = (t, a, s)" by (cases c)
  from asks [OF Cons.prems [unfolded c]] obtain bufs h where
    a: "a = Async_read_some bufs h" "s = [b] @ (ys @ rest)" "0 < buffers_size bufs" by auto
  have ne: "[b] \<noteq> []" and len: "length [b] \<le> buffers_size bufs" using a(3) by simp_all
  have "d ([b] @ ys) (t, Async_read_some bufs h, s)" using Cons.prems c a(1) by simp
  from arrives [OF this ne len] obtain a1 t1 where
    arr: "stream_arrives env bufs h [b] t = Inr (a1, t1)" and d1: "d ys (t1, a1, ys @ rest)" by blast
  have step: "stream_step env c (t1, a1, ys @ rest)"
    unfolding c a(1,2) by (rule stream_step.arrive [OF ne len arr])
  from Cons.IH [OF d1] obtain t' where "(stream_step env)\<^sup>*\<^sup>* (t1, a1, ys @ rest) (t', Received m, rest)" by blast
  with step show ?case by (meson converse_rtranclp_into_rtranclp)
qed

lemma delivers:
  assumes "d ys c"
  shows "delivers env c (length ys) m rest"
  unfolding delivers_def
proof (intro conjI allI impI)
  show "\<exists>t. (stream_step env)\<^sup>*\<^sup>* c (t, Received m, rest)" by (rule ends [OF assms])
  fix n c' assume "(stream_step env ^^ n) c c'"
  from run [OF this assms] obtain ys' where d: "d ys' c'" and n: "n + length ys' \<le> length ys" by blast
  from n show "n \<le> length ys" by simp
  obtain t a s where c: "c' = (t, a, s)" by (cases c')
  show "(\<exists>t. c' = (t, Received m, rest)) \<or> asks_within env rest c'"
  proof (cases "ys' = []")
    case True
    with asks [OF d [unfolded c]] c show ?thesis by simp
  next
    case False
    from within [OF d [unfolded c] this] c show ?thesis by simp
  qed
qed

end

section \<open>A whole message\<close>

lemma take_12_append: "12 \<le> length bs \<Longrightarrow> A @ B @ C @ rest = bs @ ys \<Longrightarrow> length (A @ B @ C) = 10 \<Longrightarrow>
    \<exists>r. bs = A @ B @ C @ r \<and> rest = r @ ys"
  by (auto simp: append_eq_append_conv2 append_assoc [symmetric] simp del: append_assoc)

lemma reads_as4:
  assumes m: "valid_message4 m" and short: "short_message4 m"
  shows "reads_as 4 (message4_view m) (message4_bytes m)"
  using m
proof (cases rule: valid_message4_parts)
  case (1 h)
  define M where "M = message4_bytes m"
  have N: "unat (MessageSize h) = length M" using 1(8) by (simp add: M_def)
  then have lt: "length M < 4294967296" using unat_u32_less [of "MessageSize h"] by simp
  have sz: "(of_nat (length M) :: 32 word) = MessageSize h" by (simp add: N [symmetric])
  obtain tl where M: "M = bytes_of_string ''RRAC'' @ num_bytes (MessageSize h) @ num_bytes (4 :: 16 word) @ tl"
    using 1(1) by (simp add: M_def header4_bytes_def)
  have tl: "drop 10 M = tl" by (simp add: M)
  have main: "\<exists>ret rd'. read_call (version_step 4) bs [] (AsyncMessageReader_Reset rd) = Some (Inr ((ret, length bs), rd'))
      \<and> reader_at (version_step 4) (message4_view m) (length M) ys ret rd'"
    if split: "M = bs @ ys" and bs: "12 \<le> length bs" for bs ys rd
  proof -
    obtain r where r: "bs = bytes_of_string ''RRAC'' @ num_bytes (MessageSize h) @ num_bytes (4 :: 16 word) @ r" "tl = r @ ys"
      using take_12_append [OF bs split [unfolded M]] by auto
    have bs32: "length bs < 4294967296" using split lt by simp
    have N10: "10 \<le> unat (MessageSize h)" using N split bs by simp
    define s0 where "s0 = AsyncMessageReader_Reset rd"
    have reset: "s0\<lparr>ar_other := bs, ar_continue := []\<rparr> = on s0 ([mframe 12 Message_init CreateMessage], 0) [] bs"
      "ar_messages s0 = []"
      by (simp_all add: s0_def AsyncMessageReader_Reset_def on_def mframe_def)
    have start: "goes_to step4 (s0\<lparr>ar_other := bs, ar_continue := []\<rparr>) (on (s0\<lparr>ar_version := 4\<rparr>) (started (MessageSize h)) [] r)"
      unfolding reset(1) by (rule start4_on [OF r(1) bs bs32 N10])
    have "seg False step4 (s0\<lparr>ar_version := 4\<rparr>) (started (MessageSize h)) tl ([mframe (length M) Message_done (message4_view m)], length M)"
      using seg_message4 [OF m 1(1) disjI1 [OF short], where lv = False and ?s0.0 = "s0\<lparr>ar_version := 4\<rparr>"]
      by (simp only: M_def [symmetric] tl)
    then have f: "feeds False step4 (s0\<lparr>ar_version := 4\<rparr>) ([mframe (length M) Message_done (message4_view m)], length M)
        (started (MessageSize h)) [] (([] @ r) @ ys)"
      using r(2) by (simp add: seg_def)
    have len: "length ([] :: byte list) + length r + length ys \<le> length M" using split r(1) by simp
    have "ar_messages (s0\<lparr>ar_version := 4\<rparr>) = []" using reset(2) by simp
    from r4.reader_at_goes [OF start f len lt this] obtain ret rd' where
      "read_call step4 bs [] s0 = Some (Inr ((ret, length bs), rd'))" "reader_at step4 (message4_view m) (length M) ys ret rd'" .
    moreover have "version_step 4 = step4" by (simp add: version_step_def)
    ultimately show ?thesis unfolding s0_def by auto
  qed
  show ?thesis
    unfolding reads_as_def framed_def M_def [symmetric] sz using lt M main by blast
qed

text \<open>
  While the message \<open>M\<close> is on its way, with \<open>rest\<close> behind it in the stream: \<open>ys\<close> is what is missing.
\<close>

definition delivering ::
  "transport_env \<Rightarrow> 16 word \<Rightarrow> message \<Rightarrow> message \<Rightarrow> byte list \<Rightarrow> byte list \<Rightarrow> byte list \<Rightarrow> stream_config \<Rightarrow> bool" where
  "delivering env v mv m' M rest ys c \<longleftrightarrow>
     16 \<le> length M \<and> reads_as v mv M \<and> restore_routing env mv = Inr m' \<and>
     (case c of (t, a, s) \<Rightarrow>
        s = ys @ rest
        \<and> (reads_on env v mv m' (length M) ys a t
           \<or> (\<exists>k. awaits_start M k t \<and> ys = drop k M \<and> a = Async_read_some (active_recv_bufs t) H_EndReceiveMessage5
                  \<and> accepts_size env (length M) t)))"

lemma awaits_bytes_size:
  assumes "awaits_bytes v mv N ys t"
  shows "0 < buffers_size (active_recv_bufs t) \<and> buffers_size (active_recv_bufs t) \<le> length ys"
proof -
  from assms obtain ret l where rm: "reading_message v mv N ys ret t" and ys: "ys \<noteq> []"
    and c: "case ret of
           ReadReturn_continue_buffers n \<Rightarrow>
             n + l \<le> length ys \<and> async_recv_continue_buf_count t = 1 \<and> continue_memory t = []
             \<and> active_recv_bufs t = Continue_buffer n # (if l > 0 then [Recv_buffer 0 l] else [])
         | _ \<Rightarrow> 0 < l \<and> l \<le> length ys \<and> async_recv_continue_buf_count t = 0
             \<and> active_recv_bufs t = [Recv_buffer 0 l]"
    unfolding awaits_bytes_def by blast
  have "0 < n" if "ret = ReadReturn_continue_buffers n" for n
    using rm ys that by (auto simp: reading_message_def reader_at_def)
  with c show ?thesis by (cases ret) (auto simp: buffers_size_def)
qed

interpretation resumable: delivery env "delivering env v mv m' M rest" m' rest for env v mv m' M rest
proof
  fix ys t a s
  assume d: "delivering env v mv m' M rest ys (t, a, s)"
  then consider (r) "reads_on env v mv m' (length M) ys a t"
    | (s) k where "awaits_start M k t" "ys = drop k M" "a = Async_read_some (active_recv_bufs t) H_EndReceiveMessage5"
    unfolding delivering_def by auto
  then have "if ys = [] then a = Received m'
       else \<exists>bufs h. a = Async_read_some bufs h \<and> 0 < buffers_size bufs \<and> buffers_size bufs \<le> length ys"
  proof cases
    case r
    with awaits_bytes_size show ?thesis by (auto simp: reads_on_def)
  next
    case (s k)
    then have "buffers_size (active_recv_bufs t) = 16 - k" "k < 16" by (simp_all add: awaits_start_def buffers_size_def)
    with s d show ?thesis by (auto simp: delivering_def)
  qed
  then show "s = ys @ rest \<and> (if ys = [] then a = Received m'
       else \<exists>bufs h. a = Async_read_some bufs h \<and> 0 < buffers_size bufs \<and> buffers_size bufs \<le> length ys)"
    using d by (simp add: delivering_def)
next
  fix bs ys t bufs h s
  assume d: "delivering env v mv m' M rest (bs @ ys) (t, Async_read_some bufs h, s)"
    and bs: "bs \<noteq> []" "length bs \<le> buffers_size bufs"
  from d have M: "16 \<le> length M" "reads_as v mv M" and m': "restore_routing env mv = Inr m'" by (simp_all add: delivering_def)
  have N: "length M < 4294967296" using M(2) by (simp add: reads_as_def framed_def)
  from d consider (r) "awaits_bytes v mv (length M) (bs @ ys) t" "bufs = active_recv_bufs t" "h = H_EndReceiveMessage5"
    | (s) k where "awaits_start M k t" "bs @ ys = drop k M" "bufs = active_recv_bufs t" "h = H_EndReceiveMessage5"
        "accepts_size env (length M) t"
    using bs(1) unfolding delivering_def by (auto simp: reads_on_def)
  then show "\<exists>a t'. stream_arrives env bufs h bs t = Inr (a, t') \<and> delivering env v mv m' M rest ys (t', a, ys @ rest)"
  proof cases
    case r
    from stream_arrives_on [OF r(1) bs(1) bs(2) [unfolded r(2)] N m'] obtain a t' where
      "stream_arrives env (active_recv_bufs t) H_EndReceiveMessage5 bs t = Inr (a, t')" "reads_on env v mv m' (length M) ys a t'" .
    with M m' r(2,3) show ?thesis by (simp add: delivering_def)
  next
    case (s k)
    have k: "k < 16" "buffers_size bufs = 16 - k" using s(1,3) by (simp_all add: awaits_start_def buffers_size_def)
    show ?thesis
    proof (cases "k + length bs < 16")
      case True
      from start_arrives_part [OF s(1) bs(1) s(2) [symmetric] True M(1)] obtain t' where
        "stream_arrives env (active_recv_bufs t) H_EndReceiveMessage5 bs t =
           Inr (Async_read_some (active_recv_bufs t') H_EndReceiveMessage5, t')"
        "awaits_start M (k + length bs) t'" "\<And>N. accepts_size env N t' = accepts_size env N t" by blast
      moreover have "ys = drop (k + length bs) M"
        using s(2) by (metis add.commute append_eq_conv_conj drop_drop)
      ultimately show ?thesis using M m' s(3,4,5) by (auto simp: delivering_def)
    next
      case False
      then have "k + length bs = 16" using bs(2) k by simp
      from start_arrives_all [OF s(1) s(2) [symmetric] this M s(5) m'] obtain a t' where
        "stream_arrives env (active_recv_bufs t) H_EndReceiveMessage5 bs t = Inr (a, t')"
        "reads_on env v mv m' (length M) ys a t'" .
      with M m' s(3,4) show ?thesis by (simp add: delivering_def)
    qed
  qed
qed

lemma BeginReceiveMessage1_on:
  assumes "\<not> disable_async_io t" and "16 \<le> length (recvbuf t)" and "accepts_size env (length M) t"
    and "16 \<le> length M" and "reads_as v mv M" and "restore_routing env mv = Inr m'"
    and "BeginReceiveMessage1 t = Inr (a, t0)"
  shows "delivering env v mv m' M rest M (t0, a, M @ rest)"
  using assms
  by (auto simp: BeginReceiveMessage1_def Let_def delivering_def awaits_start_def accepts_size_def intro!: exI [of _ 0])

end
