(* ===== verification/RR_Transport_Buffered.thy ===== *)
theory RR_Transport_Buffered
  imports RR_Transport_Laws
begin

text \<open>
  Receiving with \<open>disable_async_io\<close>: the whole message is collected in \<open>recvbuf\<close> and then
  deserialised at once.
\<close>

section \<open>Deserialising\<close>

definition decodes :: "transport_env \<Rightarrow> 16 word \<Rightarrow> byte list \<Rightarrow> message \<Rightarrow> bool" where
  "decodes env v M m \<longleftrightarrow>
     framed v M
     \<and> (if v = 4 then \<exists>mv. reads_open Message_Read4 M mv \<and> restore_routing env mv = Inr m
        else reads_open Message_Read M m)"

lemma deserialize_on:
  assumes d: "decodes env v M m" and mem: "take (length M) mem = M" "length mem < 2147483648"
  obtains r where "deserialize_message env (ArrayBinaryReader mem 0 (length M)) = Inr (m, r)"
proof -
  define r0 where "r0 = ArrayBinaryReader mem 0 (length M)"
  from d obtain tl where v: "v = 2 \<or> v = 4"
    and M: "M = bytes_of_string ''RRAC'' @ num_bytes (of_nat (length M) :: 32 word) @ num_bytes v @ tl"
    by (auto simp: decodes_def framed_def)
  have len: "length M \<le> length mem" using arg_cong [OF mem(1), of length] by simp
  have ok: "ok_reader r0" using mem(2) len by (simp add: ok_reader_def r0_def ArrayBinaryReader_def)
  have sees: "sees r0 M" using mem(1) by (simp add: sees_def r0_def ArrayBinaryReader_def)
  define r1 where "r1 = advance 4 r0"
  define r2 where "r2 = advance 8 r0"
  define r3 where "r3 = advance 10 r0"
  have "sees r0 (bytes_of_string ''RRAC'' @ num_bytes (of_nat (length M) :: 32 word) @ num_bytes v @ tl)"
    using sees by (subst (asm) M)
  moreover have four: "Suc (Suc (Suc (Suc 0))) = 4" by simp
  ultimately have s: "sees r0 (bytes_of_string ''RRAC'')" "sees r1 (num_bytes (of_nat (length M) :: 32 word))" "sees r2 (num_bytes v)"
    by (simp_all add: sees_append r1_def r2_def)
  have "length ''RRAC'' = 4" by simp
  then have "reads (ReadString8 4) (bytes_of_string ''RRAC'') ''RRAC''"
    using reads_ReadString8 [of "''RRAC''"] by metis
  then have 1: "ReadString8 4 r0 = Inr (''RRAC'', r1)" using readsD [OF _ ok s(1)] by (simp add: r1_def four)
  have 2: "ReadNumber r1 = Inr (of_nat (length M) :: 32 word, r2)"
    using readsD [OF reads_ReadNumber32 _ s(2)] ok by (simp add: r1_def r2_def)
  have 3: "ReadNumber r2 = Inr (v, r3)"
    using readsD [OF reads_ReadNumber16 _ s(3)] ok by (simp add: r2_def r3_def)
  have 4: "Seek_r 0 r3 = Inr ((), r0)"
    by (simp add: Seek_r_def bind_s_def CurrentLimit_r_def r3_def r0_def advance_def ArrayBinaryReader_def)
  have eq: "deserialize_message env r0 =
      (if v = 4 then bind_s Message_Read4 (\<lambda>m. lift_s (restore_routing env m)) else Message_Read) r0"
    by (simp add: deserialize_message_def bind_s_def then_s_def 1 2 3 4)
  show thesis
  proof (cases "v = 4")
    case True
    with d obtain mv where mv: "reads_open Message_Read4 M mv" "restore_routing env mv = Inr m" by (auto simp: decodes_def)
    then obtain r where "Message_Read4 r0 = Inr (mv, r)" using ok sees by (auto simp: reads_open_def)
    with mv(2) True that show thesis by (simp add: eq [unfolded r0_def] r0_def bind_s_def lift_s_def)
  next
    case False
    with d have "reads_open Message_Read M m" by (simp add: decodes_def)
    then obtain r where "Message_Read r0 = Inr (m, r)" using ok sees by (auto simp: reads_open_def)
    with False that show thesis by (simp add: eq [unfolded r0_def] r0_def)
  qed
qed

section \<open>The first eight bytes\<close>

text \<open>\<open>recvbuf_resize\<close> computes with 32 bits: the length of the message must leave room for that.\<close>

definition buffers_for :: "byte list \<Rightarrow> stream_transport \<Rightarrow> bool" where
  "buffers_for M t \<longleftrightarrow> length M * 12 < 4294967296 \<and> 8 \<le> length (recvbuf t) \<and> length (recvbuf t) < 2147483648"

definition collects_seed :: "transport_env \<Rightarrow> byte list \<Rightarrow> nat \<Rightarrow> stream_transport \<Rightarrow> bool" where
  "collects_seed env M k t \<longleftrightarrow>
     k < 8 \<and> length (streamseed t) = 8 \<and> take k (streamseed t) = take k M \<and> accepts_size env (length M) t \<and> buffers_for M t"

definition collects_rest :: "byte list \<Rightarrow> nat \<Rightarrow> stream_transport \<Rightarrow> bool" where
  "collects_rest M k t \<longleftrightarrow>
     8 \<le> k \<and> k < length M \<and> length M \<le> length (recvbuf t) \<and> length (recvbuf t) < 2147483648
     \<and> take k (recvbuf t) = take k M"

lemma seed_arrives_part:
  assumes c: "collects_seed env M k t" and bs: "bs \<noteq> []" "drop k M = bs @ ys" "k + length bs < 8" and M: "8 \<le> length M"
  obtains t' where "stream_arrives env [Seed_buffer k (8 - k)] (H_EndReceiveMessage1 k) bs t =
      Inr (Async_read_some [Seed_buffer (k + length bs) (8 - (k + length bs))] (H_EndReceiveMessage1 (k + length bs)), t')"
    and "collects_seed env M (k + length bs) t'"
proof -
  note c' = c [unfolded collects_seed_def]
  define mem where "mem = take k (streamseed t) @ bs @ drop (k + length bs) (streamseed t)"
  define t' where "t' = t\<lparr>streamseed := mem\<rparr>"
  have "stream_fill [Seed_buffer k (8 - k)] bs t = Inr ((), t')"
    using c' bs(3) by (simp add: stream_fill.simps store_bytes_def Let_def t'_def mem_def)
  moreover have "length bs < 8 - k" using bs(3) by simp
  ultimately have "stream_arrives env [Seed_buffer k (8 - k)] (H_EndReceiveMessage1 k) bs t =
      Inr (Async_read_some [Seed_buffer (k + length bs) (8 - (k + length bs))] (H_EndReceiveMessage1 (k + length bs)), t')"
    using bs(3) by (simp add: stream_arrives_def run_handler_def EndReceiveMessage1_def closing_on_exception_def Let_def)
  moreover have "take (k + length bs) M = take k M @ bs" using bs(2) by (simp add: take_add)
  then have "collects_seed env M (k + length bs) t'"
    using c' bs(3) M by (simp add: collects_seed_def t'_def mem_def accepts_size_def buffers_for_def)
  ultimately show thesis by (rule that)
qed

text \<open>The eight bytes give the length; the others go behind them.\<close>

lemma seed_arrives_all:
  assumes c: "collects_seed env M k t" and bs: "drop k M = bs @ ys" "k + length bs = 8"
    and M: "16 \<le> length M" and f: "framed v M"
  obtains t' where "stream_arrives env [Seed_buffer k (8 - k)] (H_EndReceiveMessage1 k) bs t =
      Inr (Async_read_some [Recv_buffer 8 (length M - 8)] (H_EndReceiveMessage2 8 (length M)), t')"
    and "collects_rest M 8 t'"
proof -
  note c' = c [unfolded collects_seed_def]
  have mem: "take k (streamseed t) @ bs = take 8 M"
  proof -
    have "take (k + length bs) M = take k M @ bs" using bs(1) by (simp add: take_add)
    then show ?thesis using c' bs(2) by simp
  qed
  define t1 where "t1 = t\<lparr>streamseed := take 8 M\<rparr>"
  have "drop 8 (streamseed t) = []" using c' by simp
  then have fill: "stream_fill [Seed_buffer k (8 - k)] bs t = Inr ((), t1)"
    using c' bs(2) mem by (simp add: stream_fill.simps store_bytes_def Let_def t1_def)
  define sz where "sz = (of_nat (length M) :: 32 word)"
  have size: "unat sz = length M" using f by (simp add: sz_def framed_def)
  obtain tl where tl: "M = bytes_of_string ''RRAC'' @ num_bytes sz @ num_bytes v @ tl"
    using f by (auto simp: framed_def sz_def)
  have seed: "take 4 (take 8 M) = bytes_of_string ''RRAC''" "take 4 (drop 4 (take 8 M)) = num_bytes sz"
    by (subst tl, simp)+
  have "of_nat (le_nat (num_bytes sz)) = sz" by (simp add: le_nat_num_bytes)
  note fields = seed this
  have ge: "\<not> sz < 8" using size M by (simp add: word_less_nat_alt)
  define t2 where "t2 = t1\<lparr>recv_large_transfer_authorized := recv_large_transfer_authorized t \<or> IsLargeTransferAuthorized env\<rparr>"
  have check: "check_message_size w env sz t1 = Inr ((), t2)" for w
    by (subst check_message_size_on) (use c' size in \<open>simp_all add: t1_def t2_def accepts_size_def\<close>)
  have small: "length M * 12 < 4294967296" using c' by (simp add: buffers_for_def)
  then have new: "unat (sz * 12 div 10) = length M * 12 div 10"
    using size by (simp add: unat_div unat_word_ariths)
  define rb where "rb = (if length (recvbuf t) < length M then replicate (length M * 12 div 10) 0 else recvbuf t)"
  have resize: "recvbuf_resize sz t2 = Inr ((), t2\<lparr>recvbuf := rb\<rparr>)"
    by (simp add: recvbuf_resize_def size new rb_def t2_def t1_def)
  have rb: "length M \<le> length rb" "length rb < 2147483648" "8 \<le> length rb"
    using small M c' by (auto simp: rb_def buffers_for_def)
  define t' where "t' = t2\<lparr>recvbuf := take 8 M @ drop 8 rb\<rparr>"
  have "8 - k = length bs" using bs(2) by simp
  then have "stream_arrives env [Seed_buffer k (8 - k)] (H_EndReceiveMessage1 k) bs t =
      Inr (Async_read_some [Recv_buffer 8 (length M - 8)] (H_EndReceiveMessage2 8 (length M)), t')"
    using fill check resize fields ge size M rb
    by (simp add: stream_arrives_def run_handler_def EndReceiveMessage1_def closing_on_exception_def Let_def
        then_s_def bind_s_def store_bytes_def t1_def t2_def t'_def)
  moreover have "collects_rest M 8 t'"
    using M rb by (simp add: collects_rest_def t'_def)
  ultimately show thesis by (rule that)
qed

section \<open>The others\<close>

lemma rest_arrives_part:
  assumes c: "collects_rest M k t" and bs: "bs \<noteq> []" "drop k M = bs @ ys" "k + length bs < length M"
  obtains t' where "stream_arrives env [Recv_buffer k (length M - k)] (H_EndReceiveMessage2 k (length M)) bs t =
      Inr (Async_read_some [Recv_buffer (k + length bs) (length M - (k + length bs))]
        (H_EndReceiveMessage2 (k + length bs) (length M)), t')"
    and "collects_rest M (k + length bs) t'"
proof -
  note c' = c [unfolded collects_rest_def]
  define mem where "mem = take k (recvbuf t) @ bs @ drop (k + length bs) (recvbuf t)"
  have fill: "stream_fill [Recv_buffer k (length M - k)] bs t = Inr ((), t\<lparr>recvbuf := mem\<rparr>)"
    using c' bs(3) by (simp add: stream_fill_recv mem_def)
  have less: "length bs < length M - k" using bs(3) by simp
  have "stream_arrives env [Recv_buffer k (length M - k)] (H_EndReceiveMessage2 k (length M)) bs t =
      Inr (Async_read_some [Recv_buffer (k + length bs) (length M - (k + length bs))]
        (H_EndReceiveMessage2 (k + length bs) (length M)), t\<lparr>recvbuf := mem\<rparr>)"
    using fill less by (simp add: stream_arrives_def run_handler_def EndReceiveMessage2_def closing_on_exception_def Let_def)
  moreover have "take (k + length bs) M = take k M @ bs" using bs(2) by (simp add: take_add)
  then have "collects_rest M (k + length bs) (t\<lparr>recvbuf := mem\<rparr>)"
    using c' bs(3) by (simp add: collects_rest_def mem_def)
  ultimately show thesis by (rule that)
qed

lemma rest_arrives_all:
  assumes c: "collects_rest M k t" and bs: "drop k M = bs" and d: "decodes env v M m"
  obtains t' where "stream_arrives env [Recv_buffer k (length M - k)] (H_EndReceiveMessage2 k (length M)) bs t =
      Inr (Received m, t')"
proof -
  note c' = c [unfolded collects_rest_def]
  have len: "length bs = length M - k" using bs by auto
  define mem where "mem = take k (recvbuf t) @ bs @ drop (length M) (recvbuf t)"
  have fill: "stream_fill [Recv_buffer k (length M - k)] bs t = Inr ((), t\<lparr>recvbuf := mem\<rparr>)"
    using c' len by (simp add: stream_fill_recv mem_def)
  have "take k M @ bs = M" using bs by (metis append_take_drop_id)
  then have mem: "take (length M) mem = M" "length mem < 2147483648"
    using c' len by (simp_all add: mem_def) 
  obtain r where "deserialize_message env (ArrayBinaryReader mem 0 (length M)) = Inr (m, r)"
    by (rule deserialize_on [OF d mem])
  with fill len that show thesis
    by (simp add: stream_arrives_def run_handler_def EndReceiveMessage2_def closing_on_exception_def)
qed

section \<open>A whole message\<close>

definition collecting :: "transport_env \<Rightarrow> 16 word \<Rightarrow> message \<Rightarrow> byte list \<Rightarrow> byte list \<Rightarrow> byte list \<Rightarrow> stream_config \<Rightarrow> bool" where
  "collecting env v m M rest ys c \<longleftrightarrow>
     16 \<le> length M \<and> decodes env v M m \<and>
     (case c of (t, a, s) \<Rightarrow>
        s = ys @ rest
        \<and> (ys = [] \<and> a = Received m
           \<or> (\<exists>k. collects_seed env M k t \<and> ys = drop k M \<and> a = Async_read_some [Seed_buffer k (8 - k)] (H_EndReceiveMessage1 k))
           \<or> (\<exists>k. collects_rest M k t \<and> ys = drop k M
                  \<and> a = Async_read_some [Recv_buffer k (length M - k)] (H_EndReceiveMessage2 k (length M)))))"

lemma drop_split: "drop k M = bs @ ys \<Longrightarrow> ys = drop (k + length bs) M"
  by (metis add.commute append_eq_conv_conj drop_drop)

lemma collectingI:
  assumes "16 \<le> length M" and "decodes env v M m"
  shows "collects_seed env M k t \<Longrightarrow> ys = drop k M \<Longrightarrow>
      collecting env v m M rest ys (t, Async_read_some [Seed_buffer k (8 - k)] (H_EndReceiveMessage1 k), ys @ rest)"
    and "collects_rest M k t \<Longrightarrow> ys = drop k M \<Longrightarrow>
      collecting env v m M rest ys (t, Async_read_some [Recv_buffer k (length M - k)] (H_EndReceiveMessage2 k (length M)), ys @ rest)"
    and "ys = [] \<Longrightarrow> collecting env v m M rest ys (t, Received m, ys @ rest)"
  using assms by (simp_all add: collecting_def)

interpretation buffered: delivery env "collecting env v m M rest" m rest for env v m M rest
proof
  fix ys t a s
  assume "collecting env v m M rest ys (t, a, s)"
  then show "s = ys @ rest \<and> (if ys = [] then a = Received m
       else \<exists>bufs h. a = Async_read_some bufs h \<and> 0 < buffers_size bufs \<and> buffers_size bufs \<le> length ys)"
    by (auto simp: collecting_def collects_seed_def collects_rest_def buffers_size_def)
next
  fix bs ys t bufs h s
  assume c: "collecting env v m M rest (bs @ ys) (t, Async_read_some bufs h, s)"
    and bs: "bs \<noteq> []" "length bs \<le> buffers_size bufs"
  from c have M: "16 \<le> length M" and d: "decodes env v M m" by (simp_all add: collecting_def)
  from d have f: "framed v M" by (simp add: decodes_def)
  from c bs(1) consider
    (seed) k where "collects_seed env M k t" "drop k M = bs @ ys" "bufs = [Seed_buffer k (8 - k)]" "h = H_EndReceiveMessage1 k"
    | (more) k where "collects_rest M k t" "drop k M = bs @ ys" "bufs = [Recv_buffer k (length M - k)]"
        "h = H_EndReceiveMessage2 k (length M)"
    unfolding collecting_def by auto
  then show "\<exists>a t'. stream_arrives env bufs h bs t = Inr (a, t') \<and> collecting env v m M rest ys (t', a, ys @ rest)"
  proof cases
    case (seed k)
    then have k: "k < 8" "length bs \<le> 8 - k" using bs(2) by (simp_all add: collects_seed_def buffers_size_def)
    note ys = drop_split [OF seed(2)]
    show ?thesis
    proof (cases "k + length bs < 8")
      case True
      from M have "8 \<le> length M" by simp
      obtain t' where t': "collects_seed env M (k + length bs) t'"
        "stream_arrives env [Seed_buffer k (8 - k)] (H_EndReceiveMessage1 k) bs t =
          Inr (Async_read_some [Seed_buffer (k + length bs) (8 - (k + length bs))] (H_EndReceiveMessage1 (k + length bs)), t')"
        by (rule seed_arrives_part [OF seed(1) bs(1) seed(2) True \<open>8 \<le> length M\<close>])
      from collectingI(1) [OF M d t'(1) ys] t'(2) seed(3,4) show ?thesis by blast
    next
      case False
      then have 8: "k + length bs = 8" using k by simp
      obtain t' where t': "collects_rest M 8 t'"
        "stream_arrives env [Seed_buffer k (8 - k)] (H_EndReceiveMessage1 k) bs t =
          Inr (Async_read_some [Recv_buffer 8 (length M - 8)] (H_EndReceiveMessage2 8 (length M)), t')"
        by (rule seed_arrives_all [OF seed(1,2) 8 M f])
      from collectingI(2) [OF M d t'(1) ys [unfolded 8]] t'(2) seed(3,4) show ?thesis by blast
    qed
  next
    case (more k)
    then have k: "k + length bs \<le> length M" using bs(2) by (auto simp: collects_rest_def buffers_size_def)
    note ys = drop_split [OF more(2)]
    show ?thesis
    proof (cases "k + length bs < length M")
      case True
      obtain t' where t': "collects_rest M (k + length bs) t'"
        "stream_arrives env [Recv_buffer k (length M - k)] (H_EndReceiveMessage2 k (length M)) bs t =
          Inr (Async_read_some [Recv_buffer (k + length bs) (length M - (k + length bs))]
            (H_EndReceiveMessage2 (k + length bs) (length M)), t')"
        by (rule rest_arrives_part [OF more(1) bs(1) more(2) True])
      from collectingI(2) [OF M d t'(1) ys] t'(2) more(3,4) show ?thesis by blast
    next
      case False
      then have "ys = []" using ys k by simp
      with more(2) have all: "drop k M = bs" by simp
      obtain t' where t': "stream_arrives env [Recv_buffer k (length M - k)] (H_EndReceiveMessage2 k (length M)) bs t = Inr (Received m, t')"
        by (rule rest_arrives_all [OF more(1) all d])
      from collectingI(3) [OF M d \<open>ys = []\<close>] t' more(3,4) show ?thesis by blast
    qed
  qed
qed

lemma BeginReceiveMessage1_collects:
  assumes "disable_async_io t" and "length (streamseed t) = 8" and "accepts_size env (length M) t" and "buffers_for M t"
    and "16 \<le> length M" and "decodes env v M m" and "BeginReceiveMessage1 t = Inr (a, t0)"
  shows "collecting env v m M rest M (t0, a, M @ rest)"
  using assms
  by (auto simp: BeginReceiveMessage1_def Let_def collecting_def collects_seed_def accepts_size_def buffers_for_def
      intro!: exI [of _ 0])

end
