(* ===== verification/RR_Session.thy ===== *)
theory RR_Session
  imports RR_Transport_Buffered "HOL-Library.Sublist"
begin

text \<open>
  Message after message: what the handlers leave alone, and the sequence of messages that a stream
  of encodings becomes.
\<close>

section \<open>What the handlers keep\<close>

definition kept :: "stream_transport \<Rightarrow> stream_transport \<Rightarrow> bool" where
  "kept t t' \<longleftrightarrow>
     disable_async_io t' = disable_async_io t \<and> max_message_size t' = max_message_size t
     \<and> recv_pause_request t' = recv_pause_request t \<and> length (streamseed t') = length (streamseed t)
     \<and> (recv_large_transfer_authorized t \<longrightarrow> recv_large_transfer_authorized t')
     \<and> (max_message_size t \<le> 357913941 \<longrightarrow> length (recvbuf t) \<le> length (recvbuf t'))
     \<and> (length (recvbuf t) < 2147483648 \<longrightarrow> length (recvbuf t') < 2147483648)"

lemma kept_refl [simp]: "kept t t"
  by (simp add: kept_def)

lemma kept_trans: "kept t t' \<Longrightarrow> kept t' t'' \<Longrightarrow> kept t t''"
  by (auto simp: kept_def)

definition keeps :: "'a tr \<Rightarrow> bool" where
  "keeps m \<longleftrightarrow> (\<forall>t x t'. m t = Inr (x, t') \<longrightarrow> kept t t')"

lemma keepsI: "(\<And>t x t'. m t = Inr (x, t') \<Longrightarrow> kept t t') \<Longrightarrow> keeps m"
  by (auto simp: keeps_def)

lemma keepsD: "keeps m \<Longrightarrow> m t = Inr (x, t') \<Longrightarrow> kept t t'"
  by (auto simp: keeps_def)

named_theorems keeps_rule

lemma keeps_bind [keeps_rule]:
  assumes "keeps m" and "\<And>x. keeps (k x)"
  shows "keeps (bind_s m k)"
proof (rule keepsI)
  fix t x t' assume "bind_s m k t = Inr (x, t')"
  then obtain y u where "m t = Inr (y, u)" "k y u = Inr (x, t')" by (auto simp: bind_s_def split: sum.splits)
  with assms keepsD kept_trans show "kept t t'" by meson
qed

lemma keeps_then [keeps_rule]: "keeps m \<Longrightarrow> keeps k \<Longrightarrow> keeps (then_s m k)"
  unfolding then_s_def by (rule keeps_bind)

lemma keeps_return [keeps_rule]: "keeps (return_s x)"
  by (auto simp: keeps_def return_s_def)

lemma keeps_lift [keeps_rule]: "keeps (lift_s r)"
  by (cases r) (auto simp: keeps_def lift_s_def)

lemma keeps_fail [keeps_rule]: "keeps (fail_s e)"
  by (auto simp: keeps_def fail_s_def)

lemma keeps_closing [keeps_rule]: "keeps m \<Longrightarrow> keeps (closing_on_exception m)"
  by (auto simp: keeps_def closing_on_exception_def Close_def kept_def split: sum.splits rr_error.splits)

lemma keeps_stream_fill: "keeps (stream_fill bufs bs)"
proof (rule keepsI)
  fix t x t' assume "stream_fill bufs bs t = Inr (x, t')"
  then show "kept t t'"
  proof (induction bufs bs t rule: stream_fill.induct)
    case (2 b bufs bs t)
    show ?case
    proof (cases b)
      case (Seed_buffer off n)
      with 2(4) obtain mem where mem: "store_bytes off (take n bs) (streamseed t) = Inr mem"
        "stream_fill bufs (drop n bs) (t\<lparr>streamseed := mem\<rparr>) = Inr (x, t')"
        by (auto simp: stream_fill.simps Let_def split: sum.splits)
      from 2(1) [OF refl refl Seed_buffer _] mem Seed_buffer have "kept (t\<lparr>streamseed := mem\<rparr>) t'" by simp
      with mem(1) show ?thesis by (auto simp: kept_def store_bytes_def split: if_splits)
    next
      case (Recv_buffer off n)
      with 2(4) obtain mem where mem: "store_bytes off (take n bs) (recvbuf t) = Inr mem"
        "stream_fill bufs (drop n bs) (t\<lparr>recvbuf := mem\<rparr>) = Inr (x, t')"
        by (auto simp: stream_fill.simps Let_def split: sum.splits)
      from 2(2) [OF refl refl Recv_buffer _] mem Recv_buffer have "kept (t\<lparr>recvbuf := mem\<rparr>) t'" by simp
      with mem(1) show ?thesis by (auto simp: kept_def store_bytes_def split: if_splits)
    next
      case (Continue_buffer n)
      from 2(3) [OF refl refl Continue_buffer] 2(4) Continue_buffer show ?thesis
        by (auto simp: kept_def stream_fill.simps Let_def)
    qed
  qed simp
qed

lemma keeps_check: "keeps (check_message_size w env sz)"
  unfolding check_message_size_def
  by (intro keeps_rule) (auto simp: keeps_def kept_def split: if_splits)

lemma keeps_receive_begin: "keeps (receive_begin env n)"
proof -
  have start: "kept t t'" if "receive_start env t = Inr (x, t')" for t x t'
    using that by (auto simp: receive_start_def Let_def then_s_def bind_s_def split: if_splits sum.splits
        dest!: keepsD [OF keeps_check] elim!: kept_trans simp: kept_def)
  show ?thesis
    by (rule keepsI)
      (auto simp: receive_begin_def Let_def split: if_splits dest!: start simp: kept_def)
qed

lemma keeps_reader_call: "keeps (reader_call ex bs cs)"
  by (rule keepsI) (auto simp: reader_call_def Let_def kept_def split: if_splits option.splits sum.splits)

lemma keeps_read_recvbuf: "keeps (read_recvbuf w)"
proof (rule keepsI)
  fix t x t' assume "read_recvbuf w t = Inr (x, t')"
  then obtain y u where "reader_call InvalidOperationException (recvbuf_unread t) [] t = Inr (y, u)" and "kept u t'"
    by (auto simp: read_recvbuf_def bind_s_def Let_def kept_def split: sum.splits if_splits)
  with keepsD [OF keeps_reader_call] kept_trans show "kept t t'" by blast
qed

lemma keeps_receive_read: "keeps (receive_read n)"
proof (rule keepsI)
  fix t x t' assume r: "receive_read n t = Inr (x, t')"
  show "kept t t'"
  proof (cases "async_recv_continue_buf_count t = 0")
    case True
    with r show ?thesis
      by (auto simp: receive_read_def bind_s_def split: sum.splits if_splits dest: keepsD [OF keeps_read_recvbuf])
  next
    case False
    define u where "u = t\<lparr>recvbuf_end := recvbuf_end t + (n - min n
      (buffers_size (take (async_recv_continue_buf_count t) (active_recv_bufs t))))\<rparr>"
    from r False obtain cs ret v b where "reader_call ProtocolException [] cs u = Inr ((ret, 0), v)"
      and "(if ret \<noteq> ReadReturn_done \<and> recvbuf_pos v \<noteq> recvbuf_end v then read_recvbuf ''Asyncio internal error'' (v\<lparr>async_recv_pos := b, continue_memory := []\<rparr>)
        else Inr (ret, v\<lparr>async_recv_pos := b, continue_memory := []\<rparr>)) = Inr (x, t')"
      by (auto simp: receive_read_def bind_s_def Let_def u_def split: sum.splits if_splits)
    moreover from this(2) have "kept v t'"
      by (auto split: if_splits dest!: keepsD [OF keeps_read_recvbuf] simp: kept_def)
    moreover have "kept t u" by (simp add: kept_def u_def)
    ultimately show ?thesis using keepsD [OF keeps_reader_call] kept_trans by meson
  qed
qed

lemma keeps_receive_more: "keeps (receive_more ret)"
  by (rule keepsI) (auto simp: receive_more_def Let_def kept_def split: if_splits read_return.splits)

lemma keeps_receive_next: "keeps (receive_next env ret)"
proof (rule keepsI)
  fix t x t' assume "receive_next env ret t = Inr (x, t')"
  then obtain u where "kept t u" and "kept u t'"
    by (auto simp: receive_next_def Let_def split: if_splits sum.splits dest!: keepsD [OF keeps_receive_more])
      (auto simp: kept_def)
  then show "kept t t'" by (rule kept_trans)
qed

lemma keeps_EndReceiveMessage5: "keeps (EndReceiveMessage5 env error n)"
  unfolding EndReceiveMessage5_def
  by (auto intro!: keeps_rule keeps_receive_begin keeps_receive_read keeps_receive_next split: option.splits)
    (auto simp: keeps_def Close_def kept_def)

lemma keeps_recvbuf_resize:
  assumes "unat sz * 12 < 4294967296 \<or> 357913941 < max_message_size t" and "recvbuf_resize sz t = Inr (x, t')"
  shows "kept t t'"
proof -
  have "unat (sz * 12) < 10 * 2147483648" by (rule less_trans [OF unat_u32_less]) simp
  then have "unat (sz * 12 div 10) < 2147483648" by (simp add: unat_div less_mult_imp_div_less)
  moreover have "unat sz \<le> unat (sz * 12 div 10)" if "unat sz * 12 < 4294967296"
    using that by (simp add: unat_div unat_word_ariths)
  ultimately show ?thesis using assms by (auto simp: recvbuf_resize_def kept_def split: if_splits)
qed

lemma keeps_EndReceiveMessage1: "keeps (EndReceiveMessage1 env k error n)"
proof -
  have main: "keeps (then_s (check_message_size w env sz)
           (then_s (recvbuf_resize sz)
           (\<lambda>t. bind_r (store_bytes 0 (streamseed t) (recvbuf t)) (\<lambda>mem.
              Inr (Async_read_some [Recv_buffer 8 (unat sz - 8)] (H_EndReceiveMessage2 8 (unat sz)),
                   t\<lparr>recvbuf := mem\<rparr>)))))" for w and sz :: "32 word"
  proof (rule keepsI)
    fix t x t'
    assume "then_s (check_message_size w env sz)
           (then_s (recvbuf_resize sz)
           (\<lambda>t. bind_r (store_bytes 0 (streamseed t) (recvbuf t)) (\<lambda>mem.
              Inr (Async_read_some [Recv_buffer 8 (unat sz - 8)] (H_EndReceiveMessage2 8 (unat sz)),
                   t\<lparr>recvbuf := mem\<rparr>)))) t = Inr (x, t')"
    then obtain u v where u: "check_message_size w env sz t = Inr ((), u)" and v: "recvbuf_resize sz u = Inr ((), v)"
      and t': "kept v t'"
      by (auto simp: then_s_def bind_s_def store_bytes_def kept_def split: sum.splits if_splits)
    from u have "int (unat sz) \<le> max_message_size u"
      by (auto simp: check_message_size_def bind_s_def lift_s_def numeric_cast_i32_def split: if_splits)
    then have "unat sz * 12 < 4294967296 \<or> 357913941 < max_message_size u" by linarith
    from keepsD [OF keeps_check u] keeps_recvbuf_resize [OF this v] t' show "kept t t'"
      by (blast intro: kept_trans)
  qed
  show ?thesis
  proof (cases error)
    case True
    then show ?thesis by (auto simp: EndReceiveMessage1_def keeps_def Close_def kept_def)
  next
    case False
    show ?thesis
      unfolding EndReceiveMessage1_def Let_def if_not_P [OF False]
      by (rule keeps_closing, rule keepsI) (auto dest!: keepsD [OF main] split: if_splits)
  qed
qed

lemma keeps_EndReceiveMessage2: "keeps (EndReceiveMessage2 env k N error n)"
proof -
  have main: "keeps (\<lambda>t. if n < N - k then
          Inr (Async_read_some [Recv_buffer (k + n) (N - (k + n))] (H_EndReceiveMessage2 (k + n) N), t)
        else
          bind_r (deserialize_message env (ArrayBinaryReader (recvbuf t) 0 N))
            (\<lambda>(m, _). Inr (Received m, t)))"
    by (rule keepsI) (auto split: if_splits sum.splits)
  show ?thesis
  proof (cases error)
    case True
    then show ?thesis by (auto simp: EndReceiveMessage2_def keeps_def Close_def kept_def)
  next
    case False
    show ?thesis
      unfolding EndReceiveMessage2_def Let_def if_not_P [OF False] by (rule keeps_closing [OF main])
  qed
qed

lemma keeps_run_handler: "keeps (run_handler env h error n)"
  by (cases h) (simp_all add: run_handler_def keeps_EndReceiveMessage1 keeps_EndReceiveMessage2 keeps_EndReceiveMessage5)

lemma stream_step_kept: "stream_step env (t, a, s) (t', a', s') \<Longrightarrow> kept t t'"
  by (erule stream_step.cases)
    (auto simp: stream_arrives_def dest!: keepsD [OF keeps_then [OF keeps_stream_fill keeps_run_handler]]
      keepsD [OF keeps_EndReceiveMessage5])

section \<open>Message after message\<close>

lemma EndReceiveMessage3_next:
  assumes "entries m \<noteq> []" and "header m \<noteq> None" and "\<not> recv_pause_request t"
  obtains evs a t' where "EndReceiveMessage3 env m t = Inr ((evs, Some a), t')"
    and "BeginReceiveMessage1 (t\<lparr>recv_paused := False\<rparr>) = Inr (a, t')"
proof -
  obtain e es where e: "entries m = e # es" using assms(1) by (cases "entries m") auto
  obtain h where h: "header m = Some h" using assms(2) by auto
  obtain a t' where b: "BeginReceiveMessage1 (t\<lparr>recv_paused := False\<rparr>) = Inr (a, t')"
    by (cases "disable_async_io t") (auto simp: BeginReceiveMessage1_def Let_def)
  have eq: "(if recv_paused t then t\<lparr>recv_paused := False\<rparr> else t) = t\<lparr>recv_paused := False\<rparr>" by simp
  have 4: "EndReceiveMessage4 t = Inr (([], Some a), t')"
    unfolding EndReceiveMessage4_def if_not_P [OF assms(3)] eq using b by (simp add: bind_s_def return_s_def)
  have "\<exists>evs. EndReceiveMessage3 env m t = Inr ((evs, Some a), t')"
    using e h by (auto simp: EndReceiveMessage3_def bind_s_def return_s_def 4)
  with b that show thesis by blast
qed

text \<open>A received message is handed on and the next one begins.\<close>

inductive session_step ::
  "transport_env \<Rightarrow> stream_config \<times> message list \<Rightarrow> stream_config \<times> message list \<Rightarrow> bool" for env where
  stream: "stream_step env c c' \<Longrightarrow> session_step env (c, ms) (c', ms)"
| handed_on: "EndReceiveMessage3 env m t = Inr ((evs, Some a), t') \<Longrightarrow>
    session_step env ((t, Received m, s), ms) ((t', a, s), ms @ [m])"

inductive_cases session_stepE: "session_step env (c, ms) d"

lemma kept_paused: "kept t t' \<Longrightarrow> kept t (t'\<lparr>recv_paused := b\<rparr>)"
  by (simp add: kept_def)

lemma BeginReceiveMessage1_kept: "BeginReceiveMessage1 t = Inr (a, t') \<Longrightarrow> kept t t'"
  and BeginReceiveMessage1_asks: "BeginReceiveMessage1 t = Inr (a, t') \<Longrightarrow> \<exists>bufs h. a = Async_read_some bufs h"
  by (auto simp: BeginReceiveMessage1_def Let_def kept_def split: if_splits)

text \<open>
  Whatever the portions and the moments at which messages are handed on: what has been received is
  a prefix of \<open>ms\<close>, and the run can go on until all of \<open>ms\<close> has been.
\<close>

definition receives_in_order :: "transport_env \<Rightarrow> stream_config \<Rightarrow> message list \<Rightarrow> bool" where
  "receives_in_order env c ms \<longleftrightarrow>
     (\<forall>c' out. (session_step env)\<^sup>*\<^sup>* (c, []) (c', out) \<longrightarrow>
        prefix out ms \<and> (\<exists>t a. (session_step env)\<^sup>*\<^sup>* (c', out) ((t, a, []), ms)))"

text \<open>
  What a way of receiving has to show for a whole stream: \<open>good M r\<close> are the messages \<open>r\<close> and their
  encodings \<open>M\<close> it can receive, \<open>ready\<close> the states in which it can, and \<open>d\<close> its \<open>delivery\<close>.
\<close>

locale message_session =
  fixes env :: transport_env and ready :: "stream_transport \<Rightarrow> bool" and good :: "byte list \<Rightarrow> message \<Rightarrow> bool"
    and d :: "byte list \<Rightarrow> message \<Rightarrow> byte list \<Rightarrow> byte list \<Rightarrow> stream_config \<Rightarrow> bool"
  assumes delivery: "delivery env (d M r rest) r rest"
    and begins: "ready t \<Longrightarrow> good M r \<Longrightarrow> BeginReceiveMessage1 t = Inr (a, t0) \<Longrightarrow> d M r rest M (t0, a, M @ rest)"
    and ready_kept: "ready t \<Longrightarrow> kept t t' \<Longrightarrow> ready t'"
    and ready_receives: "ready t \<Longrightarrow> \<not> recv_pause_request t"
    and good_message: "good M r \<Longrightarrow> entries r \<noteq> [] \<and> header r \<noteq> None"
begin

text \<open>\<open>todo\<close> are the messages still to be received, the first of them perhaps in part.\<close>

definition receiving_all :: "(byte list \<times> message) list \<Rightarrow> stream_config \<Rightarrow> bool" where
  "receiving_all todo c \<longleftrightarrow>
     (\<forall>p \<in> set todo. good (fst p) (snd p)) \<and>
     (case c of (t, a, s) \<Rightarrow> ready t \<and>
        (case todo of
           [] \<Rightarrow> s = [] \<and> (\<exists>bufs h. a = Async_read_some bufs h)
         | p # ps \<Rightarrow> \<exists>ys. d (fst p) (snd p) (concat (map fst ps)) ys c))"

lemma receiving_first:
  assumes "ready t" and "\<forall>p \<in> set todo. good (fst p) (snd p)" and "BeginReceiveMessage1 t = Inr (a, t0)"
  shows "receiving_all todo (t0, a, concat (map fst todo))"
proof -
  have "ready t0" by (rule ready_kept [OF assms(1) BeginReceiveMessage1_kept [OF assms(3)]])
  then show ?thesis
    using assms(2) begins [OF assms(1) _ assms(3)] BeginReceiveMessage1_asks [OF assms(3)]
    by (cases todo) (auto simp: receiving_all_def)
qed

lemma handed_on:
  assumes all: "receiving_all todo (t, Received m, s)"
  obtains M ps where "todo = (M, m) # ps" and "s = concat (map fst ps)" and "ready t" and "good M m"
proof -
  from all obtain M r ps ys where todo: "todo = (M, r) # ps" and d: "d M r (concat (map fst ps)) ys (t, Received m, s)"
    and "ready t" "good M r" by (auto simp: receiving_all_def split: list.splits)
  with delivery.asks [OF delivery d] that show thesis by (auto split: if_splits)
qed

lemma moves:
  assumes all: "receiving_all todo c" and step: "session_step env (c, ms) d'"
  obtains todo' ms' c' where "d' = (c', ms')" and "ms' @ map snd todo' = ms @ map snd todo" and "receiving_all todo' c'"
proof -
  from step consider (stream) c' where "d' = (c', ms)" "stream_step env c c'"
    | (handed) m t evs a t' s where "c = (t, Received m, s)" "d' = ((t', a, s), ms @ [m])"
        "EndReceiveMessage3 env m t = Inr ((evs, Some a), t')"
    by (elim session_stepE) auto
  then show thesis
  proof cases
    case (stream c')
    obtain t a s t' a' s' where c: "c = (t, a, s)" "c' = (t', a', s')" by (cases c, cases c')
    have r: "ready t'" using all stream_step_kept [OF stream(2) [unfolded c]] ready_kept by (auto simp: receiving_all_def c)
    show thesis
    proof (cases todo)
      case Nil
      with all c obtain bufs h where "a = Async_read_some bufs h" "s = []" by (auto simp: receiving_all_def)
      with stream(2) c show thesis by (auto elim: stream_step_readE)
    next
      case (Cons p ps)
      with all obtain ys where "d (fst p) (snd p) (concat (map fst ps)) ys c" by (auto simp: receiving_all_def c)
      from delivery.step [OF delivery this stream(2)] obtain ys' where "d (fst p) (snd p) (concat (map fst ps)) ys' c'" .
      with all r Cons c that [OF stream(1), of todo] show thesis by (auto simp: receiving_all_def)
    qed
  next
    case (handed m t evs a t' s)
    from handed_on [OF all [unfolded handed(1)]] obtain M ps where todo: "todo = (M, m) # ps" and s: "s = concat (map fst ps)"
      and r: "ready t" and g: "good M m" .
    note gm = good_message [OF g]
    obtain evs' a' t'' where "EndReceiveMessage3 env m t = Inr ((evs', Some a'), t'')"
      "BeginReceiveMessage1 (t\<lparr>recv_paused := False\<rparr>) = Inr (a', t'')"
      by (rule EndReceiveMessage3_next [OF conjunct1 [OF gm] conjunct2 [OF gm] ready_receives [OF r]])
    with handed(3) have b: "BeginReceiveMessage1 (t\<lparr>recv_paused := False\<rparr>) = Inr (a, t')" by simp
    have "ready (t\<lparr>recv_paused := False\<rparr>)" by (rule ready_kept [OF r kept_paused [OF kept_refl]])
    from receiving_first [OF this _ b, of ps] all todo s have "receiving_all ps (t', a, s)"
      by (auto simp: receiving_all_def)
    with that [OF handed(2)] todo show thesis by auto
  qed
qed

lemma run:
  assumes "(session_step env)\<^sup>*\<^sup>* (c, ms) d'" and "receiving_all todo c"
  shows "\<exists>todo' ms' c'. d' = (c', ms') \<and> ms' @ map snd todo' = ms @ map snd todo \<and> receiving_all todo' c'"
  using assms(1)
proof (induction rule: rtranclp_induct)
  case base
  with assms(2) show ?case by blast
next
  case (step e e')
  then obtain todo' ms' c' where e: "e = (c', ms')" "ms' @ map snd todo' = ms @ map snd todo" "receiving_all todo' c'" by blast
  from step(2) have "session_step env (c', ms') e'" by (simp add: e(1))
  from moves [OF e(3) this] e(2) show ?case by metis
qed

lemma streams: "(stream_step env)\<^sup>*\<^sup>* c c' \<Longrightarrow> (session_step env)\<^sup>*\<^sup>* (c, ms) (c', ms)"
  by (induction rule: rtranclp_induct) (auto intro: rtranclp.rtrancl_into_rtrancl session_step.stream)

lemma streams_kept: "(stream_step env)\<^sup>*\<^sup>* c c' \<Longrightarrow> kept (fst c) (fst c')"
proof (induction rule: rtranclp_induct)
  case (step c1 c2)
  obtain t a s t' a' s' where "c1 = (t, a, s)" "c2 = (t', a', s')" by (cases c1, cases c2)
  with step stream_step_kept show ?case by (auto intro: kept_trans)
qed simp

lemma completes:
  assumes "receiving_all todo c"
  shows "\<exists>t a. (session_step env)\<^sup>*\<^sup>* (c, ms) ((t, a, []), ms @ map snd todo)"
  using assms
proof (induction todo arbitrary: c ms)
  case Nil
  obtain t a s where "c = (t, a, s)" by (cases c)
  with Nil show ?case by (auto simp: receiving_all_def)
next
  case (Cons p ps)
  obtain t a s where c: "c = (t, a, s)" by (cases c)
  from Cons.prems obtain ys where r: "ready t" and g: "good (fst p) (snd p)" "\<forall>q \<in> set ps. good (fst q) (snd q)"
    and d: "d (fst p) (snd p) (concat (map fst ps)) ys c"
    by (auto simp: receiving_all_def c)
  from delivery.ends [OF delivery d] obtain t1 where
    run: "(stream_step env)\<^sup>*\<^sup>* c (t1, Received (snd p), concat (map fst ps))" by blast
  have "ready t1" using ready_kept [OF r] streams_kept [OF run] by (simp add: c)
  note gm = good_message [OF g(1)]
  obtain evs a2 t2 where e: "EndReceiveMessage3 env (snd p) t1 = Inr ((evs, Some a2), t2)"
    and b: "BeginReceiveMessage1 (t1\<lparr>recv_paused := False\<rparr>) = Inr (a2, t2)"
    by (rule EndReceiveMessage3_next [OF conjunct1 [OF gm] conjunct2 [OF gm] ready_receives [OF \<open>ready t1\<close>]])
  have "ready (t1\<lparr>recv_paused := False\<rparr>)" by (rule ready_kept [OF \<open>ready t1\<close> kept_paused [OF kept_refl]])
  from Cons.IH [OF receiving_first [OF this g(2) b], of "ms @ [snd p]"] obtain t3 a3 where
    "(session_step env)\<^sup>*\<^sup>* ((t2, a2, concat (map fst ps)), ms @ [snd p]) ((t3, a3, []), (ms @ [snd p]) @ map snd ps)" by blast
  from rtranclp_trans [OF streams [OF run] converse_rtranclp_into_rtranclp [OF session_step.handed_on [OF e] this]]
  show ?case by auto
qed

lemma receives:
  assumes "ready t" and "\<forall>p \<in> set todo. good (fst p) (snd p)" and "BeginReceiveMessage1 t = Inr (a, t0)"
  shows "receives_in_order env (t0, a, concat (map fst todo)) (map snd todo)"
  unfolding receives_in_order_def
proof (intro allI impI)
  fix c' out assume "(session_step env)\<^sup>*\<^sup>* ((t0, a, concat (map fst todo)), []) (c', out)"
  from run [OF this receiving_first [OF assms]] obtain todo' where eq: "out @ map snd todo' = map snd todo"
    and all: "receiving_all todo' c'" by auto
  have "prefix out (map snd todo)" using eq [symmetric] by (rule prefixI)
  moreover have "\<exists>t a. (session_step env)\<^sup>*\<^sup>* (c', out) ((t, a, []), map snd todo)"
    using completes [OF all, of out] unfolding eq .
  ultimately show "prefix out (map snd todo) \<and> (\<exists>t a. (session_step env)\<^sup>*\<^sup>* (c', out) ((t, a, []), map snd todo))" ..
qed

end

section \<open>The two ways of receiving\<close>

lemma delivery_ex:
  assumes "\<And>x y. delivery env (d x y) m rest"
  shows "delivery env (\<lambda>ys c. \<exists>x y. d x y ys c) m rest"
proof
  fix ys t a s assume "\<exists>x y. d x y ys (t, a, s)"
  then show "s = ys @ rest \<and> (if ys = [] then a = Received m
       else \<exists>bufs h. a = Async_read_some bufs h \<and> 0 < buffers_size bufs \<and> buffers_size bufs \<le> length ys)"
    using delivery.asks [OF assms] by blast
next
  fix bs ys t bufs h s
  assume "\<exists>x y. d x y (bs @ ys) (t, Async_read_some bufs h, s)" and "bs \<noteq> []" and "length bs \<le> buffers_size bufs"
  then show "\<exists>a t'. stream_arrives env bufs h bs t = Inr (a, t') \<and> (\<exists>x y. d x y ys (t', a, ys @ rest))"
    using delivery.arrives [OF assms] by blast
qed

text \<open>Messages no longer than \<open>K\<close>, which is not more than the transport accepts.\<close>

definition acceptable :: "transport_env \<Rightarrow> int \<Rightarrow> byte list \<Rightarrow> message \<Rightarrow> bool" where
  "acceptable env K M r \<longleftrightarrow>
     16 \<le> length M \<and> int (length M) \<le> K \<and> (IsLargeTransferAuthorized env \<or> length M \<le> 524288)
     \<and> entries r \<noteq> [] \<and> header r \<noteq> None"

definition receiver_ready :: "int \<Rightarrow> stream_transport \<Rightarrow> bool" where
  "receiver_ready K t \<longleftrightarrow>
     K \<le> max_message_size t \<and> max_message_size t \<le> 357913941 \<and> \<not> recv_pause_request t
     \<and> length (streamseed t) = 8 \<and> 16 \<le> length (recvbuf t) \<and> length (recvbuf t) < 2147483648"

lemma receiver_ready_kept: "receiver_ready K t \<Longrightarrow> kept t t' \<Longrightarrow> receiver_ready K t'"
  by (auto simp: receiver_ready_def kept_def)

lemma acceptable_size: "acceptable env K M r \<Longrightarrow> receiver_ready K t \<Longrightarrow> accepts_size env (length M) t"
  by (auto simp: acceptable_def receiver_ready_def accepts_size_def)

interpretation resumable_session: message_session env "\<lambda>t. \<not> disable_async_io t \<and> receiver_ready K t"
  "\<lambda>M r. acceptable env K M r \<and> (\<exists>v mv. reads_as v mv M \<and> restore_routing env mv = Inr r)"
  "\<lambda>M r rest ys c. \<exists>v mv. delivering env v mv r M rest ys c" for env K
proof (rule message_session.intro)
  show "delivery env (\<lambda>ys c. \<exists>v mv. delivering env v mv r M rest ys c) r rest" for M r rest
    by (rule delivery_ex) (rule resumable.delivery_axioms)
  fix t M r a t0 rest
  assume t: "\<not> disable_async_io t \<and> receiver_ready K t"
    and M: "acceptable env K M r \<and> (\<exists>v mv. reads_as v mv M \<and> restore_routing env mv = Inr r)"
    and b: "BeginReceiveMessage1 t = Inr (a, t0)"
  from M obtain v mv where v: "reads_as v mv M" "restore_routing env mv = Inr r" by blast
  have "delivering env v mv r M rest M (t0, a, M @ rest)"
    by (rule BeginReceiveMessage1_on [OF _ _ acceptable_size _ v b])
      (use t M in \<open>auto simp: receiver_ready_def acceptable_def\<close>)
  then show "\<exists>v mv. delivering env v mv r M rest M (t0, a, M @ rest)" by blast
next
  fix t t'
  assume "\<not> disable_async_io t \<and> receiver_ready K t" and "kept t t'"
  then show "\<not> disable_async_io t' \<and> receiver_ready K t'" using receiver_ready_kept by (auto simp: kept_def)
qed (simp_all add: receiver_ready_def acceptable_def)

interpretation buffered_session: message_session env "\<lambda>t. disable_async_io t \<and> receiver_ready K t"
  "\<lambda>M r. acceptable env K M r \<and> (\<exists>v. decodes env v M r)"
  "\<lambda>M r rest ys c. \<exists>v (_ :: unit). collecting env v r M rest ys c" for env K
proof (rule message_session.intro)
  show "delivery env (\<lambda>ys c. \<exists>v (_ :: unit). collecting env v r M rest ys c) r rest" for M r rest
    by (rule delivery_ex) (rule buffered.delivery_axioms)
  fix t M r a t0 rest
  assume t: "disable_async_io t \<and> receiver_ready K t"
    and M: "acceptable env K M r \<and> (\<exists>v. decodes env v M r)"
    and b: "BeginReceiveMessage1 t = Inr (a, t0)"
  from M obtain v where v: "decodes env v M r" by blast
  have "collecting env v r M rest M (t0, a, M @ rest)"
    by (rule BeginReceiveMessage1_collects [OF _ _ acceptable_size _ _ v b])
      (use t M in \<open>auto simp: receiver_ready_def acceptable_def buffers_for_def\<close>)
  then show "\<exists>v (_ :: unit). collecting env v r M rest M (t0, a, M @ rest)" by blast
next
  fix t t'
  assume "disable_async_io t \<and> receiver_ready K t" and "kept t t'"
  then show "disable_async_io t' \<and> receiver_ready K t'" using receiver_ready_kept by (auto simp: kept_def)
qed (simp_all add: receiver_ready_def acceptable_def)

end
