(* ===== verification/RR_Receive.thy ===== *)
theory RR_Receive
  imports RR_Session RR_Wire
begin

text \<open>The properties of the receiving half of the transport.\<close>

section \<open>Encodings as the transport sees them\<close>

lemma decodes4:
  assumes "valid_message4 m" and "restore_routing env (message4_view m) = Inr m'"
  shows "decodes env 4 (message4_bytes m) m'"
  using assms(1)
proof (cases rule: valid_message4_parts)
  case (1 h)
  have N: "unat (MessageSize h) = length (message4_bytes m)" using 1(8) .
  then have "length (message4_bytes m) < 4294967296" using unat_u32_less [of "MessageSize h"] by simp
  moreover have "of_nat (unat (MessageSize h)) = MessageSize h" by simp
  then have "(of_nat (length (message4_bytes m)) :: 32 word) = MessageSize h" by (simp only: N)
  moreover have "\<exists>rest. message4_bytes m = bytes_of_string ''RRAC'' @ num_bytes (MessageSize h) @ num_bytes (4 :: 16 word) @ rest"
    using 1(1) by (simp add: header4_bytes_def)
  ultimately have "framed 4 (message4_bytes m)" by (simp only: framed_def) blast
  with reads_message4 [OF assms(1)] assms(2) show ?thesis unfolding decodes_def by auto
qed

lemma decodes2:
  assumes "valid_message2 lc m"
  shows "decodes env 2 (message2_bytes m) (message2_view m)"
  using assms
proof (cases rule: valid_message2_parts)
  case (1 h)
  have N: "unat (MessageSize h) = length (message2_bytes m)" using 1(8) .
  then have "length (message2_bytes m) < 4294967296" using unat_u32_less [of "MessageSize h"] by simp
  moreover have "of_nat (unat (MessageSize h)) = MessageSize h" by simp
  then have "(of_nat (length (message2_bytes m)) :: 32 word) = MessageSize h" by (simp only: N)
  moreover have "\<exists>rest. message2_bytes m = bytes_of_string ''RRAC'' @ num_bytes (MessageSize h) @ num_bytes (2 :: 16 word) @ rest"
    using 1(1) by (simp add: header2_bytes_def)
  ultimately have "framed 2 (message2_bytes m)" by (simp only: framed_def) blast
  with reads_message2 [OF assms] show ?thesis unfolding decodes_def by simp
qed

text \<open>A version 4 message as it is received: with the routing information of the connection.\<close>

definition received4 :: "transport_env \<Rightarrow> message \<Rightarrow> message" where
  "received4 env m = (case restore_routing env (message4_view m) of Inr r \<Rightarrow> r | Inl _ \<Rightarrow> message4_view m)"

lemma restore_routing_received:
  assumes "valid_message4 m"
  shows "restore_routing env (message4_view m) = Inr (received4 env m)"
proof -
  from assms obtain h where "header m = Some h" by (rule valid_message4_parts)
  then show ?thesis by (simp add: received4_def restore_routing_def message4_view_def Let_def)
qed

text \<open>The bytes \<open>M\<close> of a message and the message \<open>r\<close> that is received, for either version.\<close>

definition encoded :: "transport_env \<Rightarrow> byte list \<Rightarrow> message \<Rightarrow> bool" where
  "encoded env M r \<longleftrightarrow>
     (\<exists>m. valid_message4 m \<and> M = message4_bytes m \<and> r = received4 env m)
     \<or> (\<exists>lc m. valid_message2 lc m \<and> M = message2_bytes m \<and> r = message2_view m)"

lemma encoded_decodes: "encoded env M r \<Longrightarrow> \<exists>v. decodes env v M r"
  unfolding encoded_def using decodes4 [OF _ restore_routing_received] decodes2 by blast

definition receivable4 :: "transport_env \<Rightarrow> int \<Rightarrow> message \<Rightarrow> bool" where
  "receivable4 env K m \<longleftrightarrow>
     valid_message4 m \<and> short_message4 m \<and> acceptable env K (message4_bytes m) (received4 env m)"

lemma resumable_stream4:
  assumes "list_all (receivable4 env K) ms"
    and "\<not> disable_async_io t" and "receiver_ready K t" and "BeginReceiveMessage1 t = Inr (a, t0)"
  shows "receives_in_order env (t0, a, concat (map message4_bytes ms)) (map (received4 env) ms)"
proof -
  let ?ps = "map (\<lambda>m. (message4_bytes m, received4 env m)) ms"
  have "\<forall>p \<in> set ?ps. acceptable env K (fst p) (snd p)
      \<and> (\<exists>v mv. reads_as v mv (fst p) \<and> restore_routing env mv = Inr (snd p))"
    using assms(1) reads_as4 restore_routing_received unfolding receivable4_def list_all_iff by auto blast
  from resumable_session.receives [OF conjI [OF assms(2,3)] this assms(4)] show ?thesis
    by (simp only: map_map comp_def fst_conv snd_conv)
qed

lemma buffered_stream:
  assumes "\<forall>p \<in> set ps. encoded env (fst p) (snd p) \<and> acceptable env K (fst p) (snd p)"
    and "disable_async_io t" and "receiver_ready K t" and "BeginReceiveMessage1 t = Inr (a, t0)"
  shows "receives_in_order env (t0, a, concat (map fst ps)) (map snd ps)"
  by (rule buffered_session.receives [OF conjI [OF assms(2,3)] _ assms(4)]) (use assms(1) encoded_decodes in blast)

lemma buffered_stream4:
  assumes "list_all (receivable4 env K) ms"
    and "disable_async_io t" and "receiver_ready K t" and "BeginReceiveMessage1 t = Inr (a, t0)"
  shows "receives_in_order env (t0, a, concat (map message4_bytes ms)) (map (received4 env) ms)"
proof -
  have "\<forall>p \<in> set (map (\<lambda>m. (message4_bytes m, received4 env m)) ms). encoded env (fst p) (snd p) \<and> acceptable env K (fst p) (snd p)"
    using assms(1) by (auto simp: receivable4_def list_all_iff encoded_def simp del: message4_bytes.simps)
  from buffered_stream [OF this assms(2-4)] show ?thesis by (simp only: map_map comp_def fst_conv snd_conv)
qed

lemma receives_in_order_agree:
  assumes "receives_in_order env c1 ms" and "receives_in_order env c2 ms"
    and "(session_step env)\<^sup>*\<^sup>* (c1, []) (c1', out1)" and "(session_step env)\<^sup>*\<^sup>* (c2, []) (c2', out2)"
  shows "prefix out1 out2 \<or> prefix out2 out1"
  using assms prefix_same_cases unfolding receives_in_order_def by blast

lemma receives_in_orderD:
  "receives_in_order env c ms \<Longrightarrow> \<exists>t a. (session_step env)\<^sup>*\<^sup>* (c, []) ((t, a, []), ms)"
  unfolding receives_in_order_def by blast

section \<open>The examples\<close>

definition sample_env :: transport_env where
  "sample_env =
     \<lparr>GetRemoteNodeID = replicate 16 1, GetNode_NodeID = replicate 16 2, GetNode_NodeName = ''node'',
      GetRemoteEndpoint = 7, GetLocalEndpoint = 300, IsLargeTransferAuthorized = False\<rparr>"

definition sample_transport :: "bool \<Rightarrow> stream_transport" where
  "sample_transport b = ASIOStreamBaseTransport\<lparr>disable_async_io := b\<rparr>"

lemma sample_transport_simps [simp]:
  "disable_async_io (sample_transport b) = b" "length (recvbuf (sample_transport b)) = 4096"
  "length (streamseed (sample_transport b)) = 8" "max_message_size (sample_transport b) = 12582912"
  "recv_pause_request (sample_transport b) = False"
  by (simp_all add: sample_transport_def ASIOStreamBaseTransport_def)

lemma sample_transport_begins:
  "BeginReceiveMessage1 (sample_transport True) =
     Inr (Async_read_some [Seed_buffer 0 8] (H_EndReceiveMessage1 0), (sample_transport True)\<lparr>receiving := True\<rparr>)"
  by (simp add: BeginReceiveMessage1_def)

lemma sample_valid4: "valid_message4 sample_message4"
  by (rule valid_message4_computed(1) [OF sample_computed4 sample_header_ids sample_bound4])

lemma sample_short4: "short_message4 sample_message4"
  by (simp add: short_message4_def sample_message4_def sample_simps short_entry4_def)

lemma sample_accepts: "N \<le> 524288 \<Longrightarrow> accepts_size sample_env N (sample_transport b)"
  by (simp add: accepts_size_def sample_env_def)

section \<open>The properties\<close>



text \<open>
  C8: The same for receiving into one buffer (\<open>disable_async_io\<close>), for messages of either version and
  without a bound on extended fields.
\<close>

theorem buffered_receive:
  assumes "encoded env M r" and "16 \<le> length M" and "disable_async_io t" and "length (streamseed t) = 8"
    and "accepts_size env (length M) t" and "buffers_for M t" and "BeginReceiveMessage1 t = Inr (a, t0)"
  shows "delivers env (t0, a, M @ rest) (length M) r rest"
proof -
  from encoded_decodes [OF assms(1)] obtain v where "decodes env v M r" by blast
  from buffered.delivers [OF BeginReceiveMessage1_collects [OF assms(3-6,2) this assms(7)]] show ?thesis .
qed

theorem buffered_receive_witness:
  "delivers sample_env ((sample_transport True)\<lparr>receiving := True\<rparr>,
      Async_read_some [Seed_buffer 0 8] (H_EndReceiveMessage1 0), message2_bytes sample_message2 @ [9])
    139 (message2_view sample_message2) [9]"
proof -
  have "valid_message2 (\<lambda>_. ''0'') sample_message2"
    by (rule valid_message2_computed(1) [OF sample_computed2 sample_header_ids _ sample_bound2])
      (simp add: sample_message2_def sample_simps)
  then have e: "encoded sample_env (message2_bytes sample_message2) (message2_view sample_message2)"
    by (auto simp: encoded_def)
  have l: "length (message2_bytes sample_message2) = 139" by (rule sample_length2)
  from buffered_receive [OF e _ _ _ _ _ sample_transport_begins, of "[9]"]
  show ?thesis unfolding l by (simp add: sample_accepts buffers_for_def l del: message2_bytes.simps)
qed



lemma sample_acceptable4: "acceptable sample_env 1000 (message4_bytes sample_message4) (received4 sample_env sample_message4)"
proof -
  have "entries (received4 sample_env sample_message4) \<noteq> []" "header (received4 sample_env sample_message4) \<noteq> None"
    by (simp_all add: received4_def restore_routing_def message4_view_def sample_message4_def Let_def)
  with sample_length4 show ?thesis by (simp only: acceptable_def) simp
qed

lemma sample_receivable4: "receivable4 sample_env 1000 sample_message4"
  using sample_valid4 sample_short4 sample_acceptable4 by (simp add: receivable4_def del: message4_bytes.simps)

lemma sample_ready: "receiver_ready 1000 (sample_transport b)"
  by (simp add: receiver_ready_def)







text \<open>
  C12: A message without entries ends receiving for good: \<open>EndReceiveMessage3\<close> does nothing with it, does
  not begin the next message, and leaves \<open>receiving\<close> set, so that a later pause is never granted and a
  resume starts nothing or fails.
\<close>

theorem empty_message_ends_receiving:
  assumes "entries m = []" and "receiving t" and "\<not> recv_paused t" and "EndReceiveMessage3 env m t = Inr ((evs, a), t')"
  shows "evs = [] \<and> a = None \<and> receiving t'
    \<and> (case AsyncPauseReceive t' of
         Inl e \<Rightarrow> True
       | Inr (evs', t'') \<Rightarrow> evs' = [] \<and> AsyncResumeReceive t'' = Inl (Exn InvalidOperationException ''Invalid operation''))
    \<and> (case AsyncResumeReceive t' of Inl e \<Rightarrow> True | Inr (b, t'') \<Rightarrow> b = None)"
  using assms
  by (auto simp: EndReceiveMessage3_def return_s_def AsyncPauseReceive_def AsyncResumeReceive_def)

theorem empty_message_ends_receiving_witness:
  "\<exists>evs a t'. EndReceiveMessage3 sample_env \<lparr>header = Some sample_header, entries = []\<rparr> ((sample_transport True)\<lparr>receiving := True\<rparr>)
       = Inr ((evs, a), t')
     \<and> evs = [] \<and> a = None \<and> receiving t'"
proof -
  have p: "\<not> recv_paused ((sample_transport True)\<lparr>receiving := True\<rparr>)"
    by (simp add: sample_transport_def ASIOStreamBaseTransport_def)
  have "EndReceiveMessage3 sample_env \<lparr>header = Some sample_header, entries = []\<rparr> ((sample_transport True)\<lparr>receiving := True\<rparr>)
      = Inr (([], None), (sample_transport True)\<lparr>receiving := True\<rparr>)"
    by (simp add: EndReceiveMessage3_def return_s_def)
  from empty_message_ends_receiving [OF _ _ p this] this show ?thesis by simp
qed

end
