(* ===== verification/RR_AsyncWriter.thy ===== *)
theory RR_AsyncWriter
  imports RR_Element4 RR_Message4 RR_Message2
begin

unbundle bit_operations_syntax

text \<open>
  The resumable message writer (\<open>AsyncMessageWriter.h\<close>, \<open>AsyncMessageWriter.cpp\<close>): the state machine
  that writes a message into whatever buffers the caller has, and is called again for the rest.

  The writer does not change the objects it writes, so that a frame holds the object (or the string)
  it points to.  The functions and states have the suffix \<open>_w\<close>, to tell them from those of the reader.
\<close>

section \<open>State\<close>

datatype write_state =
    Message_init_w | Message_done_w
  | MessageHeader_init_w | MessageHeader_magic_w | MessageHeader_messagesize_w | MessageHeader_version_w
  | MessageHeader_headersize_w | MessageHeader_flags_w | MessageHeader_routing1_w | MessageHeader_routing2_w
  | MessageHeader_routing3_w | MessageHeader_routing4_w | MessageHeader_endpoint1_w | MessageHeader_endpoint2_w
  | MessageHeader_priority_w | MessageHeader_metainfo_w | MessageHeader_messageid1_w | MessageHeader_messageid2_w
  | MessageHeader_stringtable1_w | MessageHeader_stringtable2_w | MessageHeader_stringtable3_w
  | MessageHeader_entrycount_w | MessageHeader_extended1_w | MessageHeader_extended2_w
  | Message_writeentries_w
  | MessageEntry_init_w | MessageEntry_finishwrite_w | MessageEntry_entrysize_w | MessageEntry_entryflags_w
  | MessageEntry_entrytype_w | MessageEntry_servicepathstr_w | MessageEntry_servicepathcode_w
  | MessageEntry_membernamestr_w | MessageEntry_membernamecode_w | MessageEntry_requestid_w
  | MessageEntry_error_w | MessageEntry_metainfo_w | MessageEntry_extended1_w | MessageEntry_extended2_w
  | MessageEntry_elementcount_w | MessageEntry_writeelements_w
  | MessageElement_init_w | MessageElement_elementsize_w | MessageElement_elementflags_w
  | MessageElement_elementnamestr_w | MessageElement_elementnamecode_w | MessageElement_elementnumber_w
  | MessageElement_elementtype_w | MessageElement_elementtypestr_w | MessageElement_elementtypecode_w
  | MessageElement_metainfo_w | MessageElement_extended1_w | MessageElement_extended2_w
  | MessageElement_datacount_w | MessageElement_writedata_w | MessageElement_finishwritedata_w
  | MessageElement_writearray1_w | MessageElement_writearray2_w | MessageElement_writenested1_w
  | MessageElement_writenested2_w
  | Header_writestring_w | MessageEntry_pad_w

text \<open>What \<open>data\<close> and \<open>ptrdata\<close> of a frame point to.\<close>

datatype write_data =
    Write_message message
  | Write_header message_header
  | Write_entry message_entry
  | Write_element MessageElement
  | Write_array rr_array
  | Write_nested "MessageElement list"
  | Write_string string

record write_frame =
  wf_state :: write_state
  wf_pop_state :: write_state
  wf_limit :: nat
  wf_data :: write_data
  wf_param1 :: nat
  wf_param2 :: nat

text \<open>
  \<open>aw_room\<close> is the size of \<open>current_work_bufs\<close>, \<open>aw_work\<close> the bytes between \<open>current_work_bufs_start\<close> and
  \<open>current_work_bufs\<close>, \<open>aw_bufs\<close> the bytes that \<open>write_bufs\<close> refers to, \<open>aw_size\<close> the size of \<open>work_bufs\<close> and
  \<open>aw_used\<close> the result \<open>work_bufs_used\<close>.  The back of \<open>state_stack\<close> is the head of the list.
\<close>

record async_writer =
  aw_version :: "16 word"
  aw_stack :: "write_frame list"
  aw_pos :: nat
  aw_quota_pos :: nat
  aw_room :: nat
  aw_work :: "byte list"
  aw_bufs :: "byte list"
  aw_size :: nat
  aw_used :: nat

type_synonym 'a aw = "(async_writer, 'a) sm"

datatype write_return = WriteReturn_done | WriteReturn_continue | WriteReturn_last

definition size_sub_w :: "nat \<Rightarrow> nat \<Rightarrow> nat" where
  "size_sub_w a b = (a + 2 ^ 32 - b) mod 2 ^ 32"

section \<open>The stack\<close>

definition top_frame_w :: "write_frame aw" where
  "top_frame_w s =
     (case aw_stack s of
        [] \<Rightarrow> Inl (UndefinedBehaviour ''back() of an empty vector'')
      | d # _ \<Rightarrow> Inr (d, s))"

definition upd_top_w :: "(write_frame \<Rightarrow> write_frame) \<Rightarrow> unit aw" where
  "upd_top_w f s =
     (case aw_stack s of
        [] \<Rightarrow> Inl (UndefinedBehaviour ''back() of an empty vector'')
      | d # ds \<Rightarrow> Inr ((), s\<lparr>aw_stack := f d # ds\<rparr>))"

definition message_len_w :: "nat aw" where
  "message_len_w s =
     (if aw_stack s = [] then Inl (UndefinedBehaviour ''front() of an empty vector'')
      else Inr (wf_limit (last (aw_stack s)), s))"

definition set_state_w :: "write_state \<Rightarrow> unit aw" where
  "set_state_w st = upd_top_w (\<lambda>d. d\<lparr>wf_state := st\<rparr>)"

definition set_param1_w :: "nat \<Rightarrow> unit aw" where
  "set_param1_w n = upd_top_w (\<lambda>d. d\<lparr>wf_param1 := n\<rparr>)"

definition set_param2_w :: "nat \<Rightarrow> unit aw" where
  "set_param2_w n = upd_top_w (\<lambda>d. d\<lparr>wf_param2 := n\<rparr>)"

definition distance_from_limit_w :: "nat aw" where
  "distance_from_limit_w =
     bind_s top_frame_w (\<lambda>d s. Inr (size_sub_w (wf_limit d) (aw_pos s), s))"

definition pop_state_w :: "unit aw" where
  "pop_state_w s =
     (case aw_stack s of
        [] \<Rightarrow> Inl (Exn InvalidOperationException ''Message writer stack empty'')
      | [_] \<Rightarrow> Inl (Exn InvalidOperationException ''Message writer stack empty'')
      | d # p # ds \<Rightarrow> Inr ((), s\<lparr>aw_stack := p\<lparr>wf_state := wf_pop_state d\<rparr> # ds\<rparr>))"

definition push_state_w :: "write_state \<Rightarrow> write_state \<Rightarrow> nat \<Rightarrow> write_data \<Rightarrow> nat \<Rightarrow> nat \<Rightarrow> unit aw" where
  "push_state_w new_state pop_st relative_limit data p1 p2 =
     bind_s message_len_w (\<lambda>len s.
       if size_add (aw_pos s) relative_limit > len then Inl (Exn ProtocolException ''Invalid message limit'')
       else Inr ((), s\<lparr>aw_stack :=
              \<lparr>wf_state = new_state, wf_pop_state = pop_st, wf_limit = size_add (aw_pos s) relative_limit,
               wf_data = data, wf_param1 = p1, wf_param2 = p2\<rparr> # aw_stack s\<rparr>))"

section \<open>Bytes\<close>

text \<open>What has been put into the work buffers joins the result.\<close>

definition prepare_continue_w :: "unit aw" where
  "prepare_continue_w s =
     Inr ((), s\<lparr>aw_bufs := aw_bufs s @ aw_work s, aw_work := [], aw_used := aw_size s - aw_room s\<rparr>)"

definition quota_available_w :: "nat aw" where
  "quota_available_w s = Inr (size_sub_w (aw_quota_pos s) (aw_pos s), s)"

definition work_bufs_available_w :: "nat aw" where
  "work_bufs_available_w s = Inr (min (size_sub_w (aw_quota_pos s) (aw_pos s)) (aw_room s), s)"

definition write_some_bytes_w :: "byte list \<Rightarrow> nat aw" where
  "write_some_bytes_w bs =
     (if bs = [] then return_s 0
      else
        bind_s distance_from_limit_w (\<lambda>dist.
        let len = min (length bs) dist in
        if len = 0 then throw_s ProtocolException ''Message limit error''
        else
          bind_s quota_available_w (\<lambda>q s.
          let n = min (min len q) (aw_room s) in
          Inr (n, s\<lparr>aw_work := aw_work s @ take n bs, aw_room := aw_room s - n, aw_pos := size_add (aw_pos s) n\<rparr>))))"

definition write_all_bytes_w :: "byte list \<Rightarrow> bool aw" where
  "write_all_bytes_w bs =
     bind_s distance_from_limit_w (\<lambda>dist.
     if dist < length bs then throw_s ProtocolException ''Message limit error''
     else
       bind_s work_bufs_available_w (\<lambda>a.
       if a < length bs then return_s False
       else then_s (bind_s (write_some_bytes_w bs) (\<lambda>_. return_s ())) (return_s True)))"

definition write_number_w :: "'n::len word \<Rightarrow> bool aw" where
  "write_number_w v = write_all_bytes_w (num_bytes v)"

definition write_uint_x_w :: "32 word \<Rightarrow> bool aw" where
  "write_uint_x_w v =
     (if v \<le> 252 then write_all_bytes_w (num_bytes (ucast v :: 8 word))
      else if v \<le> 65535 then write_all_bytes_w (num_bytes (253 :: 8 word) @ num_bytes (ucast v :: 16 word))
      else write_all_bytes_w (num_bytes (254 :: 8 word) @ num_bytes v))"

definition write_int_x_w :: "32 word \<Rightarrow> bool aw" where
  "write_int_x_w v =
     (if sint v \<ge> -128 \<and> sint v \<le> 124 then write_all_bytes_w (num_bytes (ucast v :: 8 word))
      else if sint v \<ge> -32768 \<and> sint v \<le> 32767
      then write_all_bytes_w (num_bytes (125 :: 8 word) @ num_bytes (ucast v :: 16 word))
      else write_all_bytes_w (num_bytes (126 :: 8 word) @ num_bytes v))"

text \<open>The text of a string behind its length: what does not fit is left to a \<open>Header_writestring\<close> frame.\<close>

definition write_string_body_w :: "string \<Rightarrow> write_state \<Rightarrow> bool aw" where
  "write_string_body_w str next_state =
     bind_s (write_some_bytes_w (bytes_of_string str)) (\<lambda>n.
     if n = length str then return_s True
     else then_s (push_state_w Header_writestring_w next_state (length str - n) (Write_string str) n 0) (return_s False))"

definition write_string_w :: "string \<Rightarrow> write_state \<Rightarrow> bool aw" where
  "write_string_w str next_state =
     (if length str > 65535 then throw_s ProtocolException ''Header string too long''
      else
        bind_s (write_number_w (of_nat (length str) :: 16 word)) (\<lambda>ok.
        if \<not> ok then return_s False else write_string_body_w str next_state))"

definition write_string4_w :: "string \<Rightarrow> write_state \<Rightarrow> bool aw" where
  "write_string4_w str next_state =
     (if length str > 4294967295 then throw_s ProtocolException ''Header string too long''
      else
        bind_s (write_uint_x_w (of_nat (length str))) (\<lambda>ok.
        if \<not> ok then return_s False else write_string_body_w str next_state))"

section \<open>Steps\<close>

text \<open>
  The macro \<open>R\<close> leaves the function when there is no room.  A step is one \<open>case\<close> of the \<open>switch\<close>; \<open>None\<close>
  goes on with the loop.  A \<open>case\<close> that falls through has set the state of the one below.
\<close>

type_synonym write_step = "write_return option aw"

definition continue_w :: write_step where
  "continue_w = return_s None"

definition goto_w :: "write_state \<Rightarrow> write_step" where
  "goto_w st = then_s (set_state_w st) continue_w"

definition R_w :: "bool aw \<Rightarrow> write_step \<Rightarrow> write_step" where
  "R_w m k =
     bind_s m (\<lambda>ok. if \<not> ok then then_s prepare_continue_w (return_s (Some WriteReturn_continue)) else k)"

definition DO_POP_STATE_w :: write_step where
  "DO_POP_STATE_w = then_s pop_state_w continue_w"

definition data_header_w :: "(message_header \<Rightarrow> 'a aw) \<Rightarrow> 'a aw" where
  "data_header_w k =
     bind_s top_frame_w (\<lambda>d. case wf_data d of
       Write_header h \<Rightarrow> k h | _ \<Rightarrow> fail_s (UndefinedBehaviour ''static cast to MessageHeader''))"

definition data_entry_w :: "(message_entry \<Rightarrow> 'a aw) \<Rightarrow> 'a aw" where
  "data_entry_w k =
     bind_s top_frame_w (\<lambda>d. case wf_data d of
       Write_entry e \<Rightarrow> k e | _ \<Rightarrow> fail_s (UndefinedBehaviour ''static cast to MessageEntry''))"

definition data_element_w :: "(MessageElement \<Rightarrow> 'a aw) \<Rightarrow> 'a aw" where
  "data_element_w k =
     bind_s top_frame_w (\<lambda>d. case wf_data d of
       Write_element el \<Rightarrow> k el | _ \<Rightarrow> fail_s (UndefinedBehaviour ''static cast to MessageElement''))"

definition data_message_w :: "(message \<Rightarrow> 'a aw) \<Rightarrow> 'a aw" where
  "data_message_w k =
     bind_s top_frame_w (\<lambda>d. case wf_data d of
       Write_message m \<Rightarrow> k m | _ \<Rightarrow> fail_s (UndefinedBehaviour ''static cast to Message''))"

definition param1_w :: "nat aw" where
  "param1_w = bind_s top_frame_w (\<lambda>d. return_s (wf_param1 d))"

definition param2_w :: "nat aw" where
  "param2_w = bind_s top_frame_w (\<lambda>d. return_s (wf_param2 d))"

text \<open>\<open>if (!Extended.empty()) R(write_all_bytes(&Extended[0], Extended.size()))\<close>.\<close>

definition write_extended_w :: "byte list \<Rightarrow> bool aw" where
  "write_extended_w ext = (if ext \<noteq> [] then write_all_bytes_w ext else return_s True)"

section \<open>States common to both versions\<close>

definition step_Message_init_w :: write_step where
  "step_Message_init_w s =
     (if length (aw_stack s) \<noteq> 1 then Inl (Exn InvalidOperationException ''AsyncMessageWriter not initialized'')
      else then_s (set_param1_w 0) (goto_w MessageHeader_init_w) s)"

definition step_Message_done_w :: write_step where
  "step_Message_done_w =
     bind_s distance_from_limit_w (\<lambda>dist.
     if dist \<noteq> 0 then throw_s ProtocolException ''Message did write all data''
     else
       then_s prepare_continue_w
         (\<lambda>s. Inr (Some (if length (aw_bufs s) > 0 then WriteReturn_last else WriteReturn_done), s)))"

definition step_MessageHeader_init_w :: write_step where
  "step_MessageHeader_init_w =
     data_message_w (\<lambda>m. case header m of
       None \<Rightarrow> throw_s InvalidOperationException ''MessageHeader null in AsyncMessageWriter''
     | Some h \<Rightarrow>
         then_s (push_state_w MessageHeader_magic_w Message_writeentries_w (unat (HeaderSize h)) (Write_header h) 0 0)
           (goto_w MessageHeader_magic_w))"

definition step_Message_writeentries_w :: write_step where
  "step_Message_writeentries_w =
     data_message_w (\<lambda>m. bind_s param1_w (\<lambda>i.
       if i \<ge> length (entries m) then goto_w Message_done_w else goto_w MessageEntry_init_w))"

definition step_MessageEntry_init_w :: write_step where
  "step_MessageEntry_init_w =
     data_message_w (\<lambda>m. bind_s param1_w (\<lambda>i.
       if i \<ge> length (entries m) then fail_s (Exn OutOfRangeException ''vector::at'')
       else
         let ee = entries m ! i in
         then_s (set_param1_w (i + 1))
           (then_s (push_state_w MessageEntry_entrysize_w Message_writeentries_w (unat (EntrySize ee)) (Write_entry ee) 0 0)
              continue_w)))"

definition step_finish_w :: "string \<Rightarrow> write_step" where
  "step_finish_w what =
     bind_s distance_from_limit_w (\<lambda>dist.
       if dist \<noteq> 0 then throw_s ProtocolException what else DO_POP_STATE_w)"

definition step_MessageEntry_writeelements_w :: write_step where
  "step_MessageEntry_writeelements_w =
     data_entry_w (\<lambda>e. bind_s param1_w (\<lambda>i.
       if i \<ge> length (elements e) then goto_w MessageEntry_finishwrite_w else goto_w MessageElement_init_w))"

definition push_element_w :: "write_state \<Rightarrow> MessageElement list \<Rightarrow> write_step" where
  "push_element_w pop_st els =
     bind_s param1_w (\<lambda>i.
       if i \<ge> length els then fail_s (Exn OutOfRangeException ''vector::at'')
       else
         then_s (set_param1_w (i + 1))
           (then_s (push_state_w MessageElement_elementsize_w pop_st (unat (ElementSize (flds (els ! i))))
                      (Write_element (els ! i)) 0 0)
              continue_w))"

definition step_MessageElement_writedata_w :: write_step where
  "step_MessageElement_writedata_w =
     data_element_w (\<lambda>el. case type_group (ElementType (flds el)) of
       Group_void \<Rightarrow> DO_POP_STATE_w
     | Group_array \<Rightarrow> goto_w MessageElement_writearray1_w
     | Group_nested \<Rightarrow> goto_w MessageElement_writenested1_w
     | Group_default \<Rightarrow> throw_s DataTypeException ''Invalid data type'')"

text \<open>The bytes of an array that are written straight from its storage.\<close>

definition write_direct_w :: "byte list \<Rightarrow> unit aw" where
  "write_direct_w bs s = Inr ((), s\<lparr>aw_bufs := aw_bufs s @ bs, aw_pos := size_add (aw_pos s) (length bs)\<rparr>)"

definition step_MessageElement_writearray1_w :: write_step where
  "step_MessageElement_writearray1_w =
     data_element_w (\<lambda>el. case dat el of
       None \<Rightarrow> fail_s (UndefinedBehaviour ''null array'')
     | Some (NestedElementList _ _ _) \<Rightarrow> throw_s DataTypeMismatchException ''Data type cast error''
     | Some (ArrayData a) \<Rightarrow>
         bind_s (lift_s (RRArrayElementSize (array_type a))) (\<lambda>k.
         let n = size_mul k (array_size a) in
         bind_s distance_from_limit_w (\<lambda>dist.
         if n > dist then throw_s ProtocolException ''Invalid write array length''
         else
           bind_s (if n \<le> 255 then write_all_bytes_w (array_bytes a) else return_s False) (\<lambda>ok.
           if ok then goto_w MessageElement_finishwritedata_w
           else
             then_s prepare_continue_w
               (bind_s quota_available_w (\<lambda>p.
                if n \<le> p then then_s (write_direct_w (array_bytes a)) (goto_w MessageElement_finishwritedata_w)
                else
                  then_s (write_direct_w (take p (array_bytes a)))
                    (then_s (push_state_w MessageElement_writearray2_w MessageElement_finishwritedata_w (n - p) (Write_array a) p n)
                       (return_s (Some WriteReturn_continue)))))))))"

definition step_MessageElement_writearray2_w :: write_step where
  "step_MessageElement_writearray2_w =
     bind_s top_frame_w (\<lambda>d. case wf_data d of
       Write_array a \<Rightarrow>
         bind_s quota_available_w (\<lambda>q.
         let l = size_sub_w (wf_param2 d) (wf_param1 d); n = min q l in
         then_s (write_direct_w (take n (drop (wf_param1 d) (array_bytes a))))
           (if n \<ge> l then DO_POP_STATE_w
            else
              then_s (set_param1_w (size_add (wf_param1 d) n))
                (then_s (set_state_w MessageElement_writearray2_w) (return_s (Some WriteReturn_continue)))))
     | _ \<Rightarrow> fail_s (UndefinedBehaviour ''static cast to RRBaseArray''))"

definition step_MessageElement_writenested1_w :: write_step where
  "step_MessageElement_writenested1_w =
     data_element_w (\<lambda>el. case dat el of
       None \<Rightarrow> fail_s (UndefinedBehaviour ''null list'')
     | Some (ArrayData _) \<Rightarrow> throw_s DataTypeMismatchException ''Data type cast error''
     | Some (NestedElementList _ _ es) \<Rightarrow>
         bind_s distance_from_limit_w (\<lambda>dist.
           then_s (push_state_w MessageElement_writenested2_w MessageElement_finishwritedata_w dist (Write_nested es) 0 0)
             continue_w))"

definition step_MessageElement_writenested2_w :: write_step where
  "step_MessageElement_writenested2_w =
     bind_s top_frame_w (\<lambda>d. case wf_data d of
       Write_nested es \<Rightarrow>
         if wf_param1 d \<ge> length es then DO_POP_STATE_w else push_element_w MessageElement_writenested2_w es
     | _ \<Rightarrow> fail_s (UndefinedBehaviour ''static cast to MessageElementNestedElementList''))"

definition step_Header_writestring_w :: write_step where
  "step_Header_writestring_w =
     bind_s top_frame_w (\<lambda>d. case wf_data d of
       Write_string str \<Rightarrow>
         bind_s (write_some_bytes_w (drop (wf_param1 d) (bytes_of_string str))) (\<lambda>n.
         then_s (set_param1_w (wf_param1 d + n))
           (if wf_param1 d + n = length str then DO_POP_STATE_w else R_w (return_s False) continue_w))
     | _ \<Rightarrow> fail_s (UndefinedBehaviour ''static cast to MessageStringPtr''))"

fun step_common_w :: "write_state \<Rightarrow> write_step" where
  "step_common_w Message_init_w = step_Message_init_w"
| "step_common_w Message_done_w = step_Message_done_w"
| "step_common_w MessageHeader_init_w = step_MessageHeader_init_w"
| "step_common_w Message_writeentries_w = step_Message_writeentries_w"
| "step_common_w MessageEntry_init_w = step_MessageEntry_init_w"
| "step_common_w MessageEntry_finishwrite_w = step_finish_w ''MessageEntry did not write all data''"
| "step_common_w MessageEntry_writeelements_w = step_MessageEntry_writeelements_w"
| "step_common_w MessageElement_init_w =
     data_entry_w (\<lambda>e. push_element_w MessageEntry_writeelements_w (elements e))"
| "step_common_w MessageElement_writedata_w = step_MessageElement_writedata_w"
| "step_common_w MessageElement_finishwritedata_w = step_finish_w ''Element did not write all data''"
| "step_common_w MessageElement_writearray1_w = step_MessageElement_writearray1_w"
| "step_common_w MessageElement_writearray2_w = step_MessageElement_writearray2_w"
| "step_common_w MessageElement_writenested1_w = step_MessageElement_writenested1_w"
| "step_common_w MessageElement_writenested2_w = step_MessageElement_writenested2_w"
| "step_common_w Header_writestring_w = step_Header_writestring_w"
| "step_common_w _ = throw_s InvalidOperationException ''Invalid write state''"

text \<open>The loop; \<open>None\<close> would be a loop that never ends.\<close>

partial_function (option) write_loop ::
  "write_step \<Rightarrow> async_writer \<Rightarrow> (write_return \<times> async_writer) result option" where
  "write_loop m s =
     (case m s of
        Inl e \<Rightarrow> Some (Inl e)
      | Inr (r, s) \<Rightarrow> (case r of None \<Rightarrow> write_loop m s | Some x \<Rightarrow> Some (Inr (x, s))))"

definition AsyncMessageWriter_Reset :: "async_writer \<Rightarrow> async_writer" where
  "AsyncMessageWriter_Reset s = s\<lparr>aw_version := 2, aw_pos := 0, aw_quota_pos := 0, aw_stack := []\<rparr>"

definition AsyncMessageWriterImpl :: async_writer where
  "AsyncMessageWriterImpl =
     \<lparr>aw_version = 2, aw_stack = [], aw_pos = 0, aw_quota_pos = 0, aw_room = 0, aw_work = [], aw_bufs = [],
      aw_size = 0, aw_used = 0\<rparr>"

text \<open>
  \<open>BeginWrite\<close> measures the message, which updates it; the second result is the message as it is
  written.  \<open>lc\<close> is \<open>lexical_cast\<close> of element numbers.
\<close>

definition BeginWrite :: "(32 word \<Rightarrow> string) \<Rightarrow> message \<Rightarrow> 16 word \<Rightarrow> message aw" where
  "BeginWrite lc m version s =
     (if aw_stack s \<noteq> [] then Inl (Exn InvalidOperationException ''AsyncMessageWriter not in reset state'')
      else if version = 2 \<or> version = 4 then
        bind_r (if version = 2 then Message_ComputeSize lc m else Message_ComputeSize4 m) (\<lambda>(n, m').
          Inr (m', s\<lparr>aw_version := version, aw_pos := 0, aw_stack :=
            [\<lparr>wf_state = Message_init_w, wf_pop_state = Message_init_w, wf_limit = unat n,
              wf_data = Write_message m', wf_param1 = 0, wf_param2 = 0\<rparr>]\<rparr>))
      else Inl (Exn ProtocolException ''Invalid message version''))"

definition WriteRemaining :: "nat aw" where
  "WriteRemaining = bind_s message_len_w (\<lambda>len s. Inr (size_sub_w len (aw_pos s), s))"

text \<open>
  A call of \<open>Write\<close> or \<open>Write4\<close>: the loop over the steps of the version, with \<open>write_quota\<close> and work buffers
  of \<open>work_size\<close> bytes.  The result is what is returned and the bytes of \<open>write_bufs\<close>, which the caller
  has cleared.
\<close>

definition write_call ::
  "write_step \<Rightarrow> nat \<Rightarrow> nat \<Rightarrow> async_writer \<Rightarrow> ((write_return \<times> byte list) \<times> async_writer) result option" where
  "write_call m write_quota work_size s =
     (let s = s\<lparr>aw_room := work_size, aw_work := [], aw_bufs := [], aw_size := work_size, aw_used := 0\<rparr> in
      case WriteRemaining s of
        Inl e \<Rightarrow> Some (Inl e)
      | Inr (n, s) \<Rightarrow>
          if n = 0 then Some (Inr ((WriteReturn_done, []), s))
          else
            map_option (\<lambda>r. bind_r r (\<lambda>(x, s). Inr ((x, aw_bufs s), s)))
              (write_loop m (s\<lparr>aw_quota_pos := size_add (aw_pos s) write_quota\<rparr>)))"

section \<open>Write4\<close>

definition entry_when_w :: "byte \<Rightarrow> (message_entry \<Rightarrow> bool aw) \<Rightarrow> write_state \<Rightarrow> write_step" where
  "entry_when_w fl m st = data_entry_w (\<lambda>e. if flag_set (EntryFlags e) fl then R_w (m e) (goto_w st) else goto_w st)"

definition element_when_w :: "byte \<Rightarrow> (element_fields \<Rightarrow> bool aw) \<Rightarrow> write_state \<Rightarrow> write_step" where
  "element_when_w fl m st =
     data_element_w (\<lambda>el. if flag_set (ElementFlags (flds el)) fl then R_w (m (flds el)) (goto_w st) else goto_w st)"

text \<open>\<open>R(write...); state() = next;\<close> for a field of the object.\<close>

definition R_header_w :: "(message_header \<Rightarrow> bool aw) \<Rightarrow> write_state \<Rightarrow> write_step" where
  "R_header_w m st = data_header_w (\<lambda>h. R_w (m h) (goto_w st))"

definition R_entry_w :: "(message_entry \<Rightarrow> bool aw) \<Rightarrow> write_state \<Rightarrow> write_step" where
  "R_entry_w m st = data_entry_w (\<lambda>e. R_w (m e) (goto_w st))"

definition R_element_w :: "(element_fields \<Rightarrow> bool aw) \<Rightarrow> write_state \<Rightarrow> write_step" where
  "R_element_w m st = data_element_w (\<lambda>el. R_w (m (flds el)) (goto_w st))"

fun step4_element_w :: "write_state \<Rightarrow> write_step" where
  "step4_element_w MessageElement_elementsize_w =
     R_element_w (\<lambda>f. write_uint_x_w (ElementSize f)) MessageElement_elementflags_w"
| "step4_element_w MessageElement_elementflags_w =
     R_element_w (\<lambda>f. write_number_w (ElementFlags f)) MessageElement_elementnamestr_w"
| "step4_element_w MessageElement_elementnamestr_w =
     element_when_w MessageElementFlags_ELEMENT_NAME_STR (\<lambda>f. write_string4_w (ElementName f) MessageElement_elementnamecode_w)
       MessageElement_elementnamecode_w"
| "step4_element_w MessageElement_elementnamecode_w =
     element_when_w MessageElementFlags_ELEMENT_NAME_CODE (\<lambda>f. write_uint_x_w (ElementNameCode f)) MessageElement_elementnumber_w"
| "step4_element_w MessageElement_elementnumber_w =
     element_when_w MessageElementFlags_ELEMENT_NUMBER (\<lambda>f. write_int_x_w (ElementNumber f)) MessageElement_elementtype_w"
| "step4_element_w MessageElement_elementtype_w =
     R_element_w (\<lambda>f. write_number_w (DataTypes_code (ElementType f))) MessageElement_elementtypestr_w"
| "step4_element_w MessageElement_elementtypestr_w =
     element_when_w MessageElementFlags_ELEMENT_TYPE_NAME_STR
       (\<lambda>f. write_string4_w (ElementTypeName f) MessageElement_elementtypecode_w) MessageElement_elementtypecode_w"
| "step4_element_w MessageElement_elementtypecode_w =
     element_when_w MessageElementFlags_ELEMENT_TYPE_NAME_CODE (\<lambda>f. write_uint_x_w (ElementTypeNameCode f)) MessageElement_metainfo_w"
| "step4_element_w MessageElement_metainfo_w =
     element_when_w MessageElementFlags_META_INFO (\<lambda>f. write_string4_w (ElementMetaData f) MessageElement_extended1_w)
       MessageElement_extended1_w"
| "step4_element_w MessageElement_extended1_w =
     data_element_w (\<lambda>el.
       if \<not> flag_set (ElementFlags (flds el)) MessageElementFlags_EXTENDED then goto_w MessageElement_datacount_w
       else
         bind_s (lift_s (numeric_cast_u32 (length (ElementExtended (flds el))))) (\<lambda>n.
           R_w (write_uint_x_w n) (goto_w MessageElement_extended2_w)))"
| "step4_element_w MessageElement_extended2_w =
     R_element_w (\<lambda>f. write_extended_w (ElementExtended f)) MessageElement_datacount_w"
| "step4_element_w MessageElement_datacount_w =
     R_element_w (\<lambda>f. write_uint_x_w (DataCount f)) MessageElement_writedata_w"
| "step4_element_w st = step_common_w st"

fun step4_entry_w :: "write_state \<Rightarrow> write_step" where
  "step4_entry_w MessageEntry_entrysize_w = R_entry_w (\<lambda>e. write_uint_x_w (EntrySize e)) MessageEntry_entryflags_w"
| "step4_entry_w MessageEntry_entryflags_w = R_entry_w (\<lambda>e. write_number_w (EntryFlags e)) MessageEntry_entrytype_w"
| "step4_entry_w MessageEntry_entrytype_w = R_entry_w (\<lambda>e. write_number_w (EntryType e)) MessageEntry_servicepathstr_w"
| "step4_entry_w MessageEntry_servicepathstr_w =
     entry_when_w MessageEntryFlags_SERVICE_PATH_STR (\<lambda>e. write_string4_w (ServicePath e) MessageEntry_servicepathcode_w)
       MessageEntry_servicepathcode_w"
| "step4_entry_w MessageEntry_servicepathcode_w =
     entry_when_w MessageEntryFlags_SERVICE_PATH_CODE (\<lambda>e. write_uint_x_w (ServicePathCode e)) MessageEntry_membernamestr_w"
| "step4_entry_w MessageEntry_membernamestr_w =
     entry_when_w MessageEntryFlags_MEMBER_NAME_STR (\<lambda>e. write_string4_w (MemberName e) MessageEntry_membernamecode_w)
       MessageEntry_membernamecode_w"
| "step4_entry_w MessageEntry_membernamecode_w =
     entry_when_w MessageEntryFlags_MEMBER_NAME_CODE (\<lambda>e. write_uint_x_w (MemberNameCode e)) MessageEntry_requestid_w"
| "step4_entry_w MessageEntry_requestid_w =
     entry_when_w MessageEntryFlags_REQUEST_ID (\<lambda>e. write_uint_x_w (RequestID e)) MessageEntry_error_w"
| "step4_entry_w MessageEntry_error_w =
     entry_when_w MessageEntryFlags_ERROR (\<lambda>e. write_number_w (EntryError e)) MessageEntry_metainfo_w"
| "step4_entry_w MessageEntry_metainfo_w =
     entry_when_w MessageEntryFlags_META_INFO (\<lambda>e. write_string4_w (EntryMetaData e) MessageEntry_extended1_w)
       MessageEntry_extended1_w"
| "step4_entry_w MessageEntry_extended1_w =
     data_entry_w (\<lambda>e.
       if \<not> flag_set (EntryFlags e) MessageEntryFlags_EXTENDED then goto_w MessageEntry_elementcount_w
       else
         bind_s (lift_s (numeric_cast_u32 (length (EntryExtended e)))) (\<lambda>n.
           R_w (write_uint_x_w n) (goto_w MessageEntry_extended2_w)))"
| "step4_entry_w MessageEntry_extended2_w = R_entry_w (\<lambda>e. write_extended_w (EntryExtended e)) MessageEntry_elementcount_w"
| "step4_entry_w MessageEntry_elementcount_w =
     data_entry_w (\<lambda>e.
       bind_s (lift_s (numeric_cast_u32 (length (elements e)))) (\<lambda>c.
         R_w (write_uint_x_w c) (then_s (set_param1_w 0) (goto_w MessageEntry_writeelements_w))))"
| "step4_entry_w st = step4_element_w st"

text \<open>The end of the header: back to the message, whose \<open>param1\<close> counts the entries.\<close>

definition finish_header_w :: write_step where
  "finish_header_w = then_s pop_state_w (then_s (set_param1_w 0) (goto_w Message_writeentries_w))"

definition header_when_w :: "byte \<Rightarrow> (message_header \<Rightarrow> bool aw) \<Rightarrow> write_state \<Rightarrow> write_state \<Rightarrow> write_step" where
  "header_when_w fl m st st' =
     data_header_w (\<lambda>h. if \<not> flag_set (MessageFlags h) fl then goto_w st' else R_w (m h) (goto_w st))"

fun step4_header_w :: "write_state \<Rightarrow> write_step" where
  "step4_header_w MessageHeader_magic_w =
     R_w (write_all_bytes_w (bytes_of_string ''RRAC'')) (goto_w MessageHeader_messagesize_w)"
| "step4_header_w MessageHeader_messagesize_w =
     R_header_w (\<lambda>h. write_number_w (MessageSize h)) MessageHeader_version_w"
| "step4_header_w MessageHeader_version_w = R_w (write_number_w (4 :: 16 word)) (goto_w MessageHeader_headersize_w)"
| "step4_header_w MessageHeader_headersize_w = R_header_w (\<lambda>h. write_uint_x_w (HeaderSize h)) MessageHeader_flags_w"
| "step4_header_w MessageHeader_flags_w = R_header_w (\<lambda>h. write_number_w (MessageFlags h)) MessageHeader_routing1_w"
| "step4_header_w MessageHeader_routing1_w =
     header_when_w MessageFlags_ROUTING_INFO (\<lambda>h. write_all_bytes_w (concat (map num_bytes (SenderNodeID h))))
       MessageHeader_routing2_w MessageHeader_endpoint1_w"
| "step4_header_w MessageHeader_routing2_w =
     R_header_w (\<lambda>h. write_all_bytes_w (concat (map num_bytes (ReceiverNodeID h)))) MessageHeader_routing3_w"
| "step4_header_w MessageHeader_routing3_w =
     R_header_w (\<lambda>h. write_string4_w (SenderNodeName h) MessageHeader_routing4_w) MessageHeader_routing4_w"
| "step4_header_w MessageHeader_routing4_w =
     R_header_w (\<lambda>h. write_string4_w (ReceiverNodeName h) MessageHeader_endpoint1_w) MessageHeader_endpoint1_w"
| "step4_header_w MessageHeader_endpoint1_w =
     header_when_w MessageFlags_ENDPOINT_INFO (\<lambda>h. write_uint_x_w (SenderEndpoint h))
       MessageHeader_endpoint2_w MessageHeader_priority_w"
| "step4_header_w MessageHeader_endpoint2_w =
     R_header_w (\<lambda>h. write_uint_x_w (ReceiverEndpoint h)) MessageHeader_priority_w"
| "step4_header_w MessageHeader_priority_w =
     header_when_w MessageFlags_PRIORITY (\<lambda>h. write_number_w (Priority h)) MessageHeader_metainfo_w MessageHeader_metainfo_w"
| "step4_header_w MessageHeader_metainfo_w =
     header_when_w MessageFlags_META_INFO (\<lambda>h. write_string4_w (HeaderMetaData h) MessageHeader_messageid1_w)
       MessageHeader_messageid1_w MessageHeader_stringtable1_w"
| "step4_header_w MessageHeader_messageid1_w = R_header_w (\<lambda>h. write_number_w (MessageID h)) MessageHeader_messageid2_w"
| "step4_header_w MessageHeader_messageid2_w = R_header_w (\<lambda>h. write_number_w (MessageResID h)) MessageHeader_stringtable1_w"
| "step4_header_w MessageHeader_stringtable1_w =
     data_header_w (\<lambda>h.
       if \<not> flag_set (MessageFlags h) MessageFlags_STRING_TABLE then goto_w MessageHeader_entrycount_w
       else
         bind_s (lift_s (numeric_cast_u32 (length (StringTable h)))) (\<lambda>n.
           R_w (write_uint_x_w n) (then_s (set_param1_w 0) (goto_w MessageHeader_stringtable2_w))))"
| "step4_header_w MessageHeader_stringtable2_w =
     data_header_w (\<lambda>h. bind_s param1_w (\<lambda>i.
       if i = length (StringTable h) then goto_w MessageHeader_entrycount_w
       else if i > length (StringTable h) then fail_s (Exn OutOfRangeException ''vector::at'')
       else
         R_w (write_uint_x_w (fst (StringTable h ! i)))
           (then_s (set_param2_w i) (then_s (set_param1_w (i + 1)) (goto_w MessageHeader_stringtable3_w)))))"
| "step4_header_w MessageHeader_stringtable3_w =
     data_header_w (\<lambda>h. bind_s param2_w (\<lambda>i.
       if i \<ge> length (StringTable h) then fail_s (Exn OutOfRangeException ''vector::at'')
       else
         R_w (write_string4_w (snd (StringTable h ! i)) MessageHeader_stringtable2_w) (goto_w MessageHeader_stringtable2_w)))"
| "step4_header_w MessageHeader_entrycount_w =
     data_header_w (\<lambda>h.
       if flag_set (MessageFlags h) MessageFlags_MULTIPLE_ENTRIES
       then R_w (write_uint_x_w (ucast (EntryCount h))) (then_s (set_param1_w 0) (goto_w MessageHeader_extended1_w))
       else then_s (set_param1_w 0) (goto_w MessageHeader_extended1_w))"
| "step4_header_w MessageHeader_extended1_w =
     data_header_w (\<lambda>h.
       if \<not> flag_set (MessageFlags h) MessageFlags_EXTENDED then finish_header_w
       else
         bind_s (lift_s (numeric_cast_u32 (length (HeaderExtended h)))) (\<lambda>n.
           R_w (write_uint_x_w n) (goto_w MessageHeader_extended2_w)))"
| "step4_header_w MessageHeader_extended2_w =
     data_header_w (\<lambda>h. R_w (write_extended_w (HeaderExtended h)) finish_header_w)"
| "step4_header_w st = step4_entry_w st"

definition step4_w :: write_step where
  "step4_w = bind_s top_frame_w (\<lambda>d. step4_header_w (wf_state d))"

definition AsyncMessageWriter_Write4 ::
  "nat \<Rightarrow> nat \<Rightarrow> async_writer \<Rightarrow> ((write_return \<times> byte list) \<times> async_writer) result option" where
  "AsyncMessageWriter_Write4 = write_call step4_w"

section \<open>Write\<close>

fun step2_element_w :: "write_state \<Rightarrow> write_step" where
  "step2_element_w MessageElement_elementsize_w =
     R_element_w (\<lambda>f. write_number_w (ElementSize f)) MessageElement_elementnamestr_w"
| "step2_element_w MessageElement_elementnamestr_w =
     R_element_w (\<lambda>f. write_string_w (ElementName f) MessageElement_elementtype_w) MessageElement_elementtype_w"
| "step2_element_w MessageElement_elementtype_w =
     R_element_w (\<lambda>f. write_number_w (DataTypes_code (ElementType f))) MessageElement_elementtypestr_w"
| "step2_element_w MessageElement_elementtypestr_w =
     R_element_w (\<lambda>f. write_string_w (ElementTypeName f) MessageElement_metainfo_w) MessageElement_metainfo_w"
| "step2_element_w MessageElement_metainfo_w =
     R_element_w (\<lambda>f. write_string_w (ElementMetaData f) MessageElement_datacount_w) MessageElement_datacount_w"
| "step2_element_w MessageElement_datacount_w =
     R_element_w (\<lambda>f. write_number_w (DataCount f)) MessageElement_writedata_w"
| "step2_element_w st = step_common_w st"

fun step2_entry_w :: "write_state \<Rightarrow> write_step" where
  "step2_entry_w MessageEntry_entrysize_w = R_entry_w (\<lambda>e. write_number_w (EntrySize e)) MessageEntry_entrytype_w"
| "step2_entry_w MessageEntry_entrytype_w = R_entry_w (\<lambda>e. write_number_w (EntryType e)) MessageEntry_pad_w"
| "step2_entry_w MessageEntry_pad_w = R_entry_w (\<lambda>_. write_number_w (0 :: 16 word)) MessageEntry_servicepathstr_w"
| "step2_entry_w MessageEntry_servicepathstr_w =
     R_entry_w (\<lambda>e. write_string_w (ServicePath e) MessageEntry_membernamestr_w) MessageEntry_membernamestr_w"
| "step2_entry_w MessageEntry_membernamestr_w =
     R_entry_w (\<lambda>e. write_string_w (MemberName e) MessageEntry_requestid_w) MessageEntry_requestid_w"
| "step2_entry_w MessageEntry_requestid_w = R_entry_w (\<lambda>e. write_number_w (RequestID e)) MessageEntry_error_w"
| "step2_entry_w MessageEntry_error_w = R_entry_w (\<lambda>e. write_number_w (EntryError e)) MessageEntry_metainfo_w"
| "step2_entry_w MessageEntry_metainfo_w =
     R_entry_w (\<lambda>e. write_string_w (EntryMetaData e) MessageEntry_elementcount_w) MessageEntry_elementcount_w"
| "step2_entry_w MessageEntry_elementcount_w =
     data_entry_w (\<lambda>e.
       bind_s (lift_s (numeric_cast_u16 (length (elements e)))) (\<lambda>c.
         R_w (write_number_w c) (then_s (set_param1_w 0) (goto_w MessageEntry_writeelements_w))))"
| "step2_entry_w st = step2_element_w st"

fun step2_header_w :: "write_state \<Rightarrow> write_step" where
  "step2_header_w MessageHeader_magic_w =
     R_w (write_all_bytes_w (bytes_of_string ''RRAC'')) (goto_w MessageHeader_messagesize_w)"
| "step2_header_w MessageHeader_messagesize_w =
     R_header_w (\<lambda>h. write_number_w (MessageSize h)) MessageHeader_version_w"
| "step2_header_w MessageHeader_version_w = R_w (write_number_w (2 :: 16 word)) (goto_w MessageHeader_headersize_w)"
| "step2_header_w MessageHeader_headersize_w =
     data_header_w (\<lambda>h. bind_s (lift_s (numeric_cast_u16 (unat (HeaderSize h)))) (\<lambda>n.
       R_w (write_number_w n) (goto_w MessageHeader_routing1_w)))"
| "step2_header_w MessageHeader_routing1_w =
     R_header_w (\<lambda>h. write_all_bytes_w (concat (map num_bytes (SenderNodeID h)))) MessageHeader_routing2_w"
| "step2_header_w MessageHeader_routing2_w =
     R_header_w (\<lambda>h. write_all_bytes_w (concat (map num_bytes (ReceiverNodeID h)))) MessageHeader_endpoint1_w"
| "step2_header_w MessageHeader_endpoint1_w =
     R_header_w (\<lambda>h. write_number_w (SenderEndpoint h)) MessageHeader_endpoint2_w"
| "step2_header_w MessageHeader_endpoint2_w =
     R_header_w (\<lambda>h. write_number_w (ReceiverEndpoint h)) MessageHeader_routing3_w"
| "step2_header_w MessageHeader_routing3_w =
     R_header_w (\<lambda>h. write_string_w (SenderNodeName h) MessageHeader_routing4_w) MessageHeader_routing4_w"
| "step2_header_w MessageHeader_routing4_w =
     R_header_w (\<lambda>h. write_string_w (ReceiverNodeName h) MessageHeader_metainfo_w) MessageHeader_metainfo_w"
| "step2_header_w MessageHeader_metainfo_w =
     R_header_w (\<lambda>h. write_string_w (HeaderMetaData h) MessageHeader_entrycount_w) MessageHeader_entrycount_w"
| "step2_header_w MessageHeader_entrycount_w = R_header_w (\<lambda>h. write_number_w (EntryCount h)) MessageHeader_messageid1_w"
| "step2_header_w MessageHeader_messageid1_w = R_header_w (\<lambda>h. write_number_w (MessageID h)) MessageHeader_messageid2_w"
| "step2_header_w MessageHeader_messageid2_w =
     data_header_w (\<lambda>h. R_w (write_number_w (MessageResID h)) (then_s pop_state_w (goto_w Message_writeentries_w)))"
| "step2_header_w st = step2_entry_w st"

definition step2_w :: write_step where
  "step2_w = bind_s top_frame_w (\<lambda>d. step2_header_w (wf_state d))"

definition AsyncMessageWriter_Write ::
  "nat \<Rightarrow> nat \<Rightarrow> async_writer \<Rightarrow> ((write_return \<times> byte list) \<times> async_writer) result option" where
  "AsyncMessageWriter_Write = write_call step2_w"

end
