(* ===== verification/RR_Sender.thy ===== *)
theory RR_Sender
  imports RR_AsyncWriter RR_Transport
begin

unbundle bit_operations_syntax

text \<open>
  The sending half of \<open>ASIOStreamBaseTransport\<close> (\<open>ASIOStreamBaseTransport.h\<close>,
  \<open>ASIOStreamBaseTransport.cpp\<close>): the queue of messages, the two ways of writing one to the stream
  (from one buffer, and with the resumable writer), and the pausing of the queue.

  The calls that leave the transport are part of the state: \<open>sx_writes\<close> has the calls of
  \<open>async_write_some\<close> that the stream has not completed, and \<open>sx_events\<close> the handlers that were invoked or
  posted.  The stream completes a call with any number of bytes it has taken, or with an error.
  An exception leaves the state as it is when it is thrown.
\<close>

section \<open>State\<close>

datatype send_handler = H_EndSendMessage nat nat nat | H_EndSendMessage2 nat

text \<open>The callbacks are numbers; \<open>None\<close> is the call without an exception.\<close>

datatype send_event =
    Handler_invoked nat "rr_error option"
  | Handler_posted nat "rr_error option"
  | Pause_handler_posted nat bool

text \<open>
  The fields of the transport that the sending half uses; the memory that \<open>async_send_bufs\<close> refers to
  is given by its bytes.
\<close>

record send_transport =
  sx_connected :: bool
  sx_disable_async_io :: bool
  sx_max_message_size :: int
  sx_send_version4 :: bool
  send_large_transfer_authorized :: bool
  sending :: bool
  send_paused :: bool
  send_pause_request :: bool
  send_pause_request_handler :: "nat option"
  sendbuf :: "byte list"
  send_message_size :: nat
  send_queue :: "(message \<times> nat) list"
  async_send_bufs :: "byte list"
  async_send_version :: "16 word"
  sx_writer :: async_writer
  sx_writes :: "(byte list \<times> send_handler) list"
  sx_events :: "send_event list"

definition ASIOStreamBaseTransport_send :: send_transport where
  "ASIOStreamBaseTransport_send =
     \<lparr>sx_connected = True, sx_disable_async_io = True, sx_max_message_size = 12 * 1024 * 1024, sx_send_version4 = False,
      send_large_transfer_authorized = False, sending = False, send_paused = False, send_pause_request = False,
      send_pause_request_handler = None, sendbuf = replicate 4096 0, send_message_size = 0, send_queue = [],
      async_send_bufs = [], async_send_version = 0, sx_writer = AsyncMessageWriterImpl, sx_writes = [], sx_events = []\<rparr>"

text \<open>\<open>what_text\<close> is \<open>what()\<close> of an exception and \<open>element_number\<close> the \<open>lexical_cast\<close> of element numbers.\<close>

record send_env = transport_env +
  what_text :: "rr_error \<Rightarrow> string"
  element_number :: "32 word \<Rightarrow> string"

section \<open>Exceptions that leave the state\<close>

type_synonym 'a tx = "send_transport \<Rightarrow> 'a result \<times> send_transport"

definition return_x :: "'a \<Rightarrow> 'a tx" where
  "return_x x t = (Inr x, t)"

definition bind_x :: "'a tx \<Rightarrow> ('a \<Rightarrow> 'b tx) \<Rightarrow> 'b tx" where
  "bind_x m k t = (case m t of (Inl e, t') \<Rightarrow> (Inl e, t') | (Inr x, t') \<Rightarrow> k x t')"

definition then_x :: "'a tx \<Rightarrow> 'b tx \<Rightarrow> 'b tx" where
  "then_x m k = bind_x m (\<lambda>_. k)"

definition throw_x :: "exception_class \<Rightarrow> string \<Rightarrow> 'a tx" where
  "throw_x c msg t = (Inl (Exn c msg), t)"

definition lift_x :: "'a result \<Rightarrow> 'a tx" where
  "lift_x r t = (r, t)"

definition modify_x :: "(send_transport \<Rightarrow> send_transport) \<Rightarrow> unit tx" where
  "modify_x f t = (Inr (), f t)"

definition with_x :: "(send_transport \<Rightarrow> 'a tx) \<Rightarrow> 'a tx" where
  "with_x k t = k t t"

fun std_exception :: "rr_error \<Rightarrow> bool" where
  "std_exception (UndefinedBehaviour what) \<longleftrightarrow> False"
| "std_exception OutOfFuel \<longleftrightarrow> False"
| "std_exception e \<longleftrightarrow> True"

text \<open>\<open>try { m } catch (std::exception& e) { h }\<close>.\<close>

definition try_x :: "'a tx \<Rightarrow> (rr_error \<Rightarrow> 'a tx) \<Rightarrow> 'a tx" where
  "try_x m h t =
     (case m t of
        (Inl e, t') \<Rightarrow> if std_exception e then h e t' else (Inl e, t')
      | (Inr x, t') \<Rightarrow> (Inr x, t'))"

lemma tx_simps [simp]:
  "return_x x t = (Inr x, t)" "throw_x c msg t = (Inl (Exn c msg), t)" "lift_x r t = (r, t)"
  "modify_x f t = (Inr (), f t)" "with_x k t = k t t"
  by (simp_all add: return_x_def throw_x_def lift_x_def modify_x_def with_x_def)

lemma bind_x_simps [simp]:
  "m t = (Inr x, t') \<Longrightarrow> bind_x m k t = k x t'" "m t = (Inl e, t') \<Longrightarrow> bind_x m k t = (Inl e, t')"
  "m t = (Inr x, t') \<Longrightarrow> then_x m k' t = k' t'" "m t = (Inl e, t') \<Longrightarrow> then_x m k' t = (Inl e, t')"
  "m t = (Inr x, t') \<Longrightarrow> try_x m h t = (Inr x, t')"
  by (simp_all add: bind_x_def then_x_def try_x_def)

section \<open>Calls that leave the transport\<close>

definition async_write_some :: "byte list \<Rightarrow> send_handler \<Rightarrow> unit tx" where
  "async_write_some bufs h = modify_x (\<lambda>t. t\<lparr>sx_writes := sx_writes t @ [(bufs, h)]\<rparr>)"

definition send_event_x :: "send_event \<Rightarrow> unit tx" where
  "send_event_x e = modify_x (\<lambda>t. t\<lparr>sx_events := sx_events t @ [e]\<rparr>)"

definition InvokeHandler :: "nat \<Rightarrow> unit tx" where
  "InvokeHandler cb = send_event_x (Handler_invoked cb None)"

definition InvokeHandlerWithException :: "nat \<Rightarrow> rr_error \<Rightarrow> unit tx" where
  "InvokeHandlerWithException cb e = send_event_x (Handler_invoked cb (Some e))"

section \<open>Close\<close>

text \<open>What \<open>Close\<close> does for the sending half; the queue is emptied.\<close>

definition Close_send :: "unit tx" where
  "Close_send t =
     (let c = sx_connected t; t = t\<lparr>sx_connected := False\<rparr> in
      if \<not> c then (Inr (), t)
      else
        (Inr (), t\<lparr>send_pause_request_handler := None, send_queue := [],
           sx_events := sx_events t
             @ (case send_pause_request_handler t of None \<Rightarrow> [] | Some h \<Rightarrow> [Pause_handler_posted h False])
             @ map (\<lambda>(m, cb). Handler_posted cb (Some (Exn ConnectionException ''Transport Closed''))) (send_queue t)\<rparr>))"

section \<open>Beginning to send\<close>

text \<open>Requests that create a connection are always sent with version 2.\<close>

definition sends_version4 :: "bool \<Rightarrow> message \<Rightarrow> bool" where
  "sends_version4 v4 m \<longleftrightarrow>
     v4
     \<and> \<not> (case entries m of
           [e] \<Rightarrow> (EntryType e = MessageEntryType_StreamOp \<or> EntryType e = MessageEntryType_StreamOpRet)
                  \<and> MemberName e = ''CreateConnection''
         | _ \<Rightarrow> False)"

definition writer_call :: "nat \<Rightarrow> unit tx" where
  "writer_call quota t =
     (let call = (if async_send_version t = 2 then Some AsyncMessageWriter_Write
                  else if async_send_version t = 4 then Some AsyncMessageWriter_Write4 else None) in
      case call of
        None \<Rightarrow> (Inl (Exn InvalidOperationException ''Invalid message version''), t)
      | Some write \<Rightarrow>
          (case write quota (length (sendbuf t)) (sx_writer t) of
             None \<Rightarrow> (Inl OutOfFuel, t)
           | Some (Inl e) \<Rightarrow> (Inl e, t)
           | Some (Inr ((_, bufs), w)) \<Rightarrow> (Inr (), t\<lparr>async_send_bufs := bufs, sx_writer := w\<rparr>)))"

definition BeginSendMessage1 :: "send_env \<Rightarrow> message \<Rightarrow> nat \<Rightarrow> unit tx" where
  "BeginSendMessage1 env m callback =
     then_x (modify_x (\<lambda>t. t\<lparr>sx_writer := AsyncMessageWriter_Reset (sx_writer t)\<rparr>))
    (then_x (with_x (\<lambda>t.
        bind_x (lift_x (BeginWrite (element_number env) m (async_send_version t) (sx_writer t)))
          (\<lambda>(_, w). modify_x (\<lambda>t. t\<lparr>sx_writer := w\<rparr>))))
    (then_x (modify_x (\<lambda>t. t\<lparr>async_send_bufs := []\<rparr>))
    (then_x (with_x (\<lambda>t. writer_call (send_message_size t)))
            (with_x (\<lambda>t. async_write_some (async_send_bufs t) (H_EndSendMessage2 callback))))))"

text \<open>The whole message into \<open>sendbuf\<close>, which grows when it has to.\<close>

definition send_from_buffer :: "nat \<Rightarrow> message writes \<Rightarrow> nat \<Rightarrow> unit tx" where
  "send_from_buffer message_size write callback =
     then_x (modify_x (\<lambda>t.
        if message_size > length (sendbuf t) then t\<lparr>sendbuf := replicate message_size 0\<rparr> else t))
    (then_x (with_x (\<lambda>t.
        bind_x (lift_x (write (ArrayBinaryWriter (sendbuf t) 0 message_size)))
          (\<lambda>(_, w). modify_x (\<lambda>t. t\<lparr>sendbuf := w_buffer w\<rparr>))))
    (then_x (with_x (\<lambda>t. async_write_some (take message_size (sendbuf t)) (H_EndSendMessage 0 message_size callback)))
            (modify_x (\<lambda>t. t\<lparr>sending := True, send_message_size := message_size\<rparr>))))"

text \<open>A message of the connection itself does not need its addresses.\<close>

definition drop_routing :: "send_env \<Rightarrow> message \<Rightarrow> message" where
  "drop_routing env m =
     (case header m of
        None \<Rightarrow> m
      | Some h \<Rightarrow>
          if GetRemoteNodeID env \<noteq> replicate 16 0 \<and> GetRemoteEndpoint env \<noteq> 0
             \<and> SenderNodeID h = GetNode_NodeID env \<and> ReceiverNodeID h = GetRemoteNodeID env
             \<and> SenderEndpoint h = GetLocalEndpoint env \<and> ReceiverEndpoint h = GetRemoteEndpoint env
             \<and> \<not> (case entries m of [e] \<Rightarrow> EntryType e < 500 | _ \<Rightarrow> False)
          then m\<lparr>header := Some (h\<lparr>MessageFlags := MessageFlags h AND NOT (MessageFlags_ROUTING_INFO OR MessageFlags_ENDPOINT_INFO)\<rparr>)\<rparr>
          else m)"

definition BeginSendMessage :: "send_env \<Rightarrow> message \<Rightarrow> nat \<Rightarrow> unit tx" where
  "BeginSendMessage env m callback =
     with_x (\<lambda>t.
     if \<not> sends_version4 (sx_send_version4 t) m then
       bind_x (lift_x (Message_ComputeSize (element_number env) m)) (\<lambda>(n, m).
       if \<not> sx_disable_async_io t then
         then_x (modify_x (\<lambda>t. t\<lparr>async_send_version := 2, sending := True, send_message_size := unat n\<rparr>))
           (BeginSendMessage1 env m callback)
       else send_from_buffer (unat n) (Message_Write (element_number env) m) callback)
     else
       bind_x (lift_x (Message_ComputeSize4 (drop_routing env m))) (\<lambda>(n, m).
       if \<not> sx_disable_async_io t then
         then_x (modify_x (\<lambda>t. t\<lparr>sending := True, send_message_size := unat n, async_send_version := 4\<rparr>))
           (BeginSendMessage1 env m callback)
       else send_from_buffer (unat n) (Message_Write4 m) callback))"

section \<open>The queue\<close>

abbreviation (input) MessageEntryType_WirePacket :: "16 word" where "MessageEntryType_WirePacket \<equiv> 1161"

text \<open>The headers exist: their sizes have been computed.\<close>

definition same_route :: "message \<Rightarrow> message \<Rightarrow> bool" where
  "same_route m m' \<longleftrightarrow>
     (case (header m, header m') of
        (Some h1, Some h2) \<Rightarrow>
          ReceiverNodeName h1 = ReceiverNodeName h2 \<and> SenderNodeName h1 = SenderNodeName h2
          \<and> ReceiverNodeID h1 = ReceiverNodeID h2 \<and> SenderNodeID h1 = SenderNodeID h2
          \<and> SenderEndpoint h1 = SenderEndpoint h2 \<and> ReceiverEndpoint h1 = ReceiverEndpoint h2
      | _ \<Rightarrow> False)"

definition both_connection_test :: "message \<Rightarrow> message \<Rightarrow> bool" where
  "both_connection_test m m' \<longleftrightarrow>
     same_route m m'
     \<and> (case (entries m, entries m') of
          ([e1], [e2]) \<Rightarrow> EntryType e1 = MessageEntryType_ConnectionTest \<and> EntryType e2 = MessageEntryType_ConnectionTest
        | _ \<Rightarrow> False)"

definition same_wire :: "message \<Rightarrow> message \<Rightarrow> bool" where
  "same_wire m m' \<longleftrightarrow>
     same_route m m'
     \<and> (case (entries m, entries m') of
          ([e1], [e2]) \<Rightarrow> EntryType e1 = MessageEntryType_WirePacket \<and> EntryType e2 = MessageEntryType_WirePacket
            \<and> ServicePath e1 = ServicePath e2 \<and> MemberName e1 = MemberName e2
        | _ \<Rightarrow> False)"

text \<open>
  The loop over the queue: the queue it leaves, the callbacks of the packets that are dropped or
  replaced, whether one has been replaced, and whether the loop has returned because a connection
  test is waiting already.
\<close>

fun scan_queue :: "message \<times> nat \<Rightarrow> bool \<Rightarrow> (message \<times> nat) list \<Rightarrow> (message \<times> nat) list \<times> nat list \<times> bool \<times> bool" where
  "scan_queue e replaced [] = ([], [], replaced, False)"
| "scan_queue e replaced (ee # q) =
     (if both_connection_test (fst ee) (fst e) then (ee # q, [], replaced, True)
      else if same_wire (fst ee) (fst e) then
        (case scan_queue e True q of (q', dropped, r, returned) \<Rightarrow>
           (if replaced then q' else e # q', snd ee # dropped, r, returned))
      else
        (case scan_queue e replaced q of (q', dropped, r, returned) \<Rightarrow> (ee # q', dropped, r, returned)))"

definition enqueue_message :: "message \<Rightarrow> nat \<Rightarrow> unit tx" where
  "enqueue_message m callback t =
     (case scan_queue (m, callback) False (send_queue t) of (q, dropped, replaced, returned) \<Rightarrow>
        (Inr (), t\<lparr>send_queue := (if replaced \<or> returned then q else q @ [(m, callback)]),
                  sx_events := sx_events t @ map (\<lambda>cb. Handler_posted cb None) dropped\<rparr>))"

definition AsyncSendMessage :: "send_env \<Rightarrow> message \<Rightarrow> nat \<Rightarrow> unit tx" where
  "AsyncSendMessage env m callback =
     with_x (\<lambda>t.
     if \<not> sx_connected t then throw_x ConnectionException ''Transport not connected''
     else
       bind_x (lift_x (if \<not> sends_version4 (sx_send_version4 t) m then Message_ComputeSize (element_number env) m
                       else Message_ComputeSize4 m)) (\<lambda>(message_size, m).
       bind_x (lift_x (numeric_cast_i32 (unat message_size))) (\<lambda>n.
       if n > sx_max_message_size t - 100 then throw_x ProtocolException ''Message larger than maximum message size''
       else
         then_x
           (if send_large_transfer_authorized t then return_x ()
            else if IsLargeTransferAuthorized env then modify_x (\<lambda>t. t\<lparr>send_large_transfer_authorized := True\<rparr>)
            else if message_size > 512 * 1024 then throw_x ProtocolException ''Attempt to send large message before authorized''
            else return_x ())
           (if sending t \<or> send_paused t then enqueue_message m callback else BeginSendMessage env m callback))))"

definition SimpleAsyncSendMessage :: "send_env \<Rightarrow> message \<Rightarrow> nat \<Rightarrow> unit tx" where
  "SimpleAsyncSendMessage env m callback =
     with_x (\<lambda>t. if \<not> sx_connected t then return_x () else try_x (AsyncSendMessage env m callback) (\<lambda>_. Close_send))"

definition SimpleAsyncEndSendMessage :: "rr_error option \<Rightarrow> unit tx" where
  "SimpleAsyncEndSendMessage err = (case err of Some e \<Rightarrow> Close_send | None \<Rightarrow> return_x ())"

section \<open>After a write\<close>

text \<open>The next message of the queue; the callback of one that cannot be sent gets the exception.\<close>

definition begin_next :: "send_env \<Rightarrow> unit tx" where
  "begin_next env =
     with_x (\<lambda>t. case send_queue t of
        [] \<Rightarrow> return_x ()
      | (m, cb) # q \<Rightarrow>
          then_x (modify_x (\<lambda>t. t\<lparr>send_queue := q\<rparr>))
            (try_x (BeginSendMessage env m cb)
               (\<lambda>e. InvokeHandlerWithException cb (Exn ConnectionException (what_text env e)))))"

definition EndSendMessage1 :: "send_env \<Rightarrow> unit tx" where
  "EndSendMessage1 env =
     with_x (\<lambda>t.
     if send_queue t \<noteq> [] \<and> sx_connected t \<and> \<not> send_pause_request t then begin_next env
     else
       then_x (modify_x (\<lambda>t. t\<lparr>sending := False\<rparr>))
         (if send_pause_request t \<and> \<not> send_paused t then
            modify_x (\<lambda>t. t\<lparr>send_paused := True, send_pause_request_handler := None,
              sx_events := sx_events t
                @ (case send_pause_request_handler t of None \<Rightarrow> [] | Some h \<Rightarrow> [Pause_handler_posted h True])\<rparr>)
          else return_x ()))"

definition send_error :: "nat \<Rightarrow> string \<Rightarrow> unit tx" where
  "send_error callback message =
     then_x Close_send
    (then_x (modify_x (\<lambda>t. t\<lparr>sending := False\<rparr>))
            (InvokeHandlerWithException callback (Exn ConnectionException message)))"

text \<open>
  \<open>error\<close> is the message of the \<open>error_code\<close>, if there is one.  The result of the first \<open>try\<close> is whether
  the handler has returned; its \<open>catch\<close> goes on behind it.
\<close>

definition EndSendMessage2 :: "send_env \<Rightarrow> string option \<Rightarrow> nat \<Rightarrow> nat \<Rightarrow> unit tx" where
  "EndSendMessage2 env error bytes_transferred callback =
     bind_x (try_x
       (case error of
          Some message \<Rightarrow> then_x (send_error callback message) (return_x True)
        | None \<Rightarrow>
            then_x (modify_x (\<lambda>t. t\<lparr>async_send_bufs := drop bytes_transferred (async_send_bufs t)\<rparr>))
              (with_x (\<lambda>t.
               if async_send_bufs t \<noteq> [] then
                 then_x (async_write_some (async_send_bufs t) (H_EndSendMessage2 callback)) (return_x True)
               else
                 bind_x (lift_x (WriteRemaining (sx_writer t))) (\<lambda>(remaining, _).
                 if remaining > 0 then
                   then_x (writer_call remaining)
                     (with_x (\<lambda>t. then_x (async_write_some (async_send_bufs t) (H_EndSendMessage2 callback)) (return_x True)))
                 else return_x False))))
       (\<lambda>e. then_x Close_send
             (then_x (InvokeHandlerWithException callback
                        (Exn ConnectionException (''Send message error: '' @ what_text env e)))
                     (return_x False))))
     (\<lambda>returned.
       if returned then return_x ()
       else then_x (try_x (EndSendMessage1 env) (\<lambda>_. Close_send)) (InvokeHandler callback))"

definition EndSendMessage :: "send_env \<Rightarrow> nat \<Rightarrow> string option \<Rightarrow> nat \<Rightarrow> nat \<Rightarrow> nat \<Rightarrow> unit tx" where
  "EndSendMessage env startpos error bytes_transferred m_len callback =
     bind_x (try_x
       (case error of
          Some message \<Rightarrow> then_x (send_error callback message) (return_x True)
        | None \<Rightarrow>
            if bytes_transferred < m_len - startpos then
              with_x (\<lambda>t.
                let new_startpos = startpos + bytes_transferred in
                then_x (async_write_some (take (m_len - new_startpos) (drop new_startpos (sendbuf t)))
                          (H_EndSendMessage new_startpos m_len callback))
                  (return_x True))
            else then_x (EndSendMessage1 env) (return_x False))
       (\<lambda>_. then_x Close_send (return_x False)))
     (\<lambda>returned. if returned then return_x () else InvokeHandler callback)"

definition run_send_handler :: "send_env \<Rightarrow> send_handler \<Rightarrow> string option \<Rightarrow> nat \<Rightarrow> unit tx" where
  "run_send_handler env h error n =
     (case h of
        H_EndSendMessage startpos m_len cb \<Rightarrow> EndSendMessage env startpos error n m_len cb
      | H_EndSendMessage2 cb \<Rightarrow> EndSendMessage2 env error n cb)"

section \<open>Pausing\<close>

definition AsyncPauseSend :: "nat \<Rightarrow> unit tx" where
  "AsyncPauseSend handler =
     with_x (\<lambda>t.
     if send_pause_request t \<or> send_paused t then throw_x InvalidOperationException ''Already pausing''
     else if \<not> sending t then
       then_x (modify_x (\<lambda>t. t\<lparr>send_pause_request := True, send_paused := True\<rparr>))
         (send_event_x (Pause_handler_posted handler True))
     else modify_x (\<lambda>t. t\<lparr>send_pause_request := True, send_pause_request_handler := Some handler\<rparr>))"

definition AsyncResumeSend :: "send_env \<Rightarrow> unit tx" where
  "AsyncResumeSend env =
     with_x (\<lambda>t.
     if \<not> send_pause_request t then return_x ()
     else if send_pause_request t \<and> \<not> send_paused t then throw_x InvalidOperationException ''Invalid operation''
     else
       then_x (modify_x (\<lambda>t. t\<lparr>send_pause_request := False, send_paused := False\<rparr>))
         (with_x (\<lambda>t.
          if send_queue t \<noteq> [] \<and> sx_connected t \<and> \<not> send_pause_request t \<and> \<not> sending t
          then begin_next env else return_x ())))"

end
