(* ===== verification/RR_AsyncWriter_Laws.thy ===== *)
theory RR_AsyncWriter_Laws
  imports RR_AsyncWriter RR_IOUtils_Laws
begin

text \<open>
  The resumable writer writes what is left of the message.  \<open>rest\<close> gives the bytes that a frame still
  has to write from its state, its object and its counters; what a stack still has to write is what
  its frames have, the top first.  Every step takes bytes from there to the written; that is the
  whole correctness argument, and the locale \<open>writing\<close> makes it once for both versions.
\<close>

section \<open>What a stack still has to write\<close>

type_synonym params = "nat \<times> nat"

definition params :: "write_frame \<Rightarrow> params" where
  "params d = (wf_param1 d, wf_param2 d)"

type_synonym 'a on_frame = "write_state \<Rightarrow> write_data \<Rightarrow> params \<Rightarrow> 'a"

text \<open>A frame below the top goes on in the \<open>pop_state\<close> of the frame above it.\<close>

fun stack_rest :: "byte list on_frame \<Rightarrow> write_state \<Rightarrow> write_frame list \<Rightarrow> byte list" where
  "stack_rest rest st [] = []"
| "stack_rest rest st (d # ds) = rest st (wf_data d) (params d) @ stack_rest rest (wf_pop_state d) ds"

fun stack_rank :: "nat on_frame \<Rightarrow> write_state \<Rightarrow> write_frame list \<Rightarrow> nat" where
  "stack_rank rank st [] = 0"
| "stack_rank rank st (d # ds) = rank st (wf_data d) (params d) + stack_rank rank (wf_pop_state d) ds"

text \<open>
  The limit of every frame is where its last byte ends.  The message is at the bottom and nowhere
  else; the frame below a header has not counted any entries and goes on with the first.
\<close>

fun below_ok :: "write_data \<Rightarrow> write_state \<Rightarrow> write_frame list \<Rightarrow> bool" where
  "below_ok (Write_message m) ps ds \<longleftrightarrow> ds = []"
| "below_ok (Write_header h) ps ds \<longleftrightarrow> ds \<noteq> [] \<and> wf_param1 (hd ds) = 0 \<and> ps = Message_writeentries_w"
| "below_ok x ps ds \<longleftrightarrow> ds \<noteq> []"

fun stack_ok :: "byte list on_frame \<Rightarrow> bool on_frame \<Rightarrow> nat \<Rightarrow> write_state \<Rightarrow> write_frame list \<Rightarrow> bool" where
  "stack_ok rest ok p st [] \<longleftrightarrow> True"
| "stack_ok rest ok p st (d # ds) \<longleftrightarrow>
     ok st (wf_data d) (params d) \<and> below_ok (wf_data d) (wf_pop_state d) ds
     \<and> wf_limit d = p + length (rest st (wf_data d) (params d))
     \<and> stack_ok rest ok (wf_limit d) (wf_pop_state d) ds"

lemma stack_ok_last:
  "stack_ok rest ok p st ds \<Longrightarrow> ds \<noteq> [] \<Longrightarrow> wf_limit (last ds) = p + length (stack_rest rest st ds)"
  by (induction ds arbitrary: p st) (auto split: if_splits)

definition written :: "async_writer \<Rightarrow> byte list" where
  "written s = aw_bufs s @ aw_work s"

section \<open>Parts of the writer\<close>

text \<open>\<open>s\<close> has a frame \<open>d\<close> on top, \<open>k\<close> more bytes to write before the limit of \<open>d\<close>, and the quota for all.\<close>

definition sees_limit :: "async_writer \<Rightarrow> write_frame \<Rightarrow> write_frame list \<Rightarrow> nat \<Rightarrow> bool" where
  "sees_limit s d ds k \<longleftrightarrow>
     aw_stack s = d # ds \<and> wf_limit d = aw_pos s + k \<and> aw_pos s + k \<le> aw_quota_pos s
     \<and> wf_limit (last (d # ds)) = aw_quota_pos s \<and> aw_quota_pos s < 4294967296"

lemma take_drop_append: "take n xs @ drop n xs @ ys = xs @ ys"
  by (simp flip: append_assoc)

lemma sees_limitD:
  assumes "sees_limit s d ds k"
  shows "aw_stack s = d # ds" and "wf_limit d = aw_pos s + k" and "aw_pos s + k \<le> aw_quota_pos s"
    and "wf_limit (last (d # ds)) = aw_quota_pos s" and "aw_quota_pos s < 4294967296"
  using assms by (auto simp: sees_limit_def)

lemma size_sub_w_exact: "b \<le> a \<Longrightarrow> a < 4294967296 \<Longrightarrow> size_sub_w a b = a - b"
proof -
  assume "b \<le> a" and "a < 4294967296"
  then have "a + 2 ^ 32 - b = (a - b) + 2 ^ 32" and "a - b < 2 ^ 32" by simp_all
  then show ?thesis unfolding size_sub_w_def by (simp only: mod_add_self2 mod_less)
qed

lemma distance_from_limit_on:
  assumes "sees_limit s d ds k"
  shows "distance_from_limit_w s = Inr (k, s)"
  using sees_limitD [OF assms]
  by (simp add: distance_from_limit_w_def top_frame_w_def bind_s_def size_sub_w_exact del: last.simps)

lemma quota_available_on:
  assumes "sees_limit s d ds k"
  shows "quota_available_w s = Inr (aw_quota_pos s - aw_pos s, s)"
  using sees_limitD(3,5) [OF assms] by (simp add: quota_available_w_def size_sub_w_exact)

definition put :: "byte list \<Rightarrow> async_writer \<Rightarrow> async_writer" where
  "put bs s = s\<lparr>aw_work := aw_work s @ bs, aw_room := aw_room s - length bs, aw_pos := aw_pos s + length bs\<rparr>"

lemma put_simps [simp]:
  "aw_stack (put bs s) = aw_stack s" "aw_pos (put bs s) = aw_pos s + length bs" "aw_bufs (put bs s) = aw_bufs s"
  "aw_work (put bs s) = aw_work s @ bs" "aw_room (put bs s) = aw_room s - length bs" "aw_size (put bs s) = aw_size s"
  "aw_quota_pos (put bs s) = aw_quota_pos s" "aw_version (put bs s) = aw_version s" "written (put bs s) = written s @ bs"
  "put [] s = s"
  by (simp_all add: put_def written_def)

lemma write_some_bytes_on:
  assumes "sees_limit s d ds k" and "length bs \<le> k"
  shows "write_some_bytes_w bs s = Inr (min (length bs) (aw_room s), put (take (aw_room s) bs) s)"
proof (cases "bs = []")
  case False
  have q: "length bs \<le> aw_quota_pos s - aw_pos s" "aw_pos s + length bs < 4294967296"
    using assms(2) sees_limitD(3,5) [OF assms(1)] by linarith+
  have m: "min (min (length bs) k) (aw_quota_pos s - aw_pos s) = length bs" using q assms(2) by simp
  have "take (min (length bs) (aw_room s)) bs = take (aw_room s) bs" by (simp add: min_def)
  then show ?thesis
    using False assms(2) q
    by (simp add: write_some_bytes_w_def bind_s_def distance_from_limit_on [OF assms(1)] quota_available_on [OF assms(1)]
        Let_def m put_def min.commute)
qed (simp add: write_some_bytes_w_def return_s_def)

lemma write_all_bytes_on:
  assumes "sees_limit s d ds k" and "length bs \<le> k"
  shows "write_all_bytes_w bs s = (if length bs \<le> aw_room s then Inr (True, put bs s) else Inr (False, s))"
proof -
  have "length bs \<le> aw_quota_pos s - aw_pos s" using assms(2) sees_limitD(3) [OF assms(1)] by linarith
  moreover have "size_sub_w (aw_quota_pos s) (aw_pos s) = aw_quota_pos s - aw_pos s"
    using sees_limitD(3,5) [OF assms(1)] by (simp add: size_sub_w_exact)
  ultimately show ?thesis
    using assms(2)
    by (simp add: write_all_bytes_w_def bind_s_def then_s_def return_s_def distance_from_limit_on [OF assms(1)]
        work_bufs_available_w_def write_some_bytes_on [OF assms] min_def)
qed

lemma write_uint_x_eq: "write_uint_x_w v = write_all_bytes_w (uintx_bytes v)"
  by (simp add: write_uint_x_w_def uintx_bytes_def)

lemma write_int_x_eq: "write_int_x_w v = write_all_bytes_w (intx_bytes v)"
  by (simp add: write_int_x_w_def intx_bytes_def)

lemma write_extended_eq: "write_extended_w ext = (if ext = [] then return_s True else write_all_bytes_w ext)"
  by (simp add: write_extended_w_def)

lemma push_state_w_on:
  assumes "sees_limit s d ds k" and "n \<le> k"
  shows "push_state_w st ps n x p1 p2 s =
    Inr ((), s\<lparr>aw_stack := \<lparr>wf_state = st, wf_pop_state = ps, wf_limit = aw_pos s + n, wf_data = x, wf_param1 = p1, wf_param2 = p2\<rparr> # d # ds\<rparr>)"
proof -
  have "aw_pos s + n < 4294967296" "aw_pos s + n \<le> wf_limit (last (aw_stack s))" "aw_stack s = d # ds"
    using assms(2) sees_limitD [OF assms(1)] by auto
  then show ?thesis by (simp add: push_state_w_def message_len_w_def bind_s_def)
qed

lemma sees_limit_put: "sees_limit s d ds k \<Longrightarrow> length bs \<le> k \<Longrightarrow> sees_limit (put bs s) d ds (k - length bs)"
  by (simp add: sees_limit_def del: last.simps)

definition string_frame :: "write_state \<Rightarrow> nat \<Rightarrow> string \<Rightarrow> nat \<Rightarrow> write_frame" where
  "string_frame nxt l str n =
     \<lparr>wf_state = Header_writestring_w, wf_pop_state = nxt, wf_limit = l, wf_data = Write_string str, wf_param1 = n, wf_param2 = 0\<rparr>"

lemma write_string_body_on:
  assumes "sees_limit s d ds k" and "length str \<le> k"
  shows "write_string_body_w str nxt s =
    (if length str \<le> aw_room s then Inr (True, put (bytes_of_string str) s)
     else Inr (False, (put (take (aw_room s) (bytes_of_string str)) s)
            \<lparr>aw_stack := string_frame nxt (aw_pos s + length str) str (aw_room s) # d # ds\<rparr>))"
proof (cases "length str \<le> aw_room s")
  case True
  then show ?thesis
    using write_some_bytes_on [OF assms(1), of "bytes_of_string str"] assms(2)
    by (simp add: write_string_body_w_def bind_s_def return_s_def)
next
  case False
  then have "length (take (aw_room s) (bytes_of_string str)) \<le> k" using assms(2) by simp
  from sees_limit_put [OF assms(1) this] False
  have l: "sees_limit (put (take (aw_room s) (bytes_of_string str)) s) d ds (k - aw_room s)"
    by (simp add: min_absorb2)
  have "push_state_w Header_writestring_w nxt (length str - aw_room s) (Write_string str) (aw_room s) 0
      (put (take (aw_room s) (bytes_of_string str)) s) =
    Inr ((), (put (take (aw_room s) (bytes_of_string str)) s)
            \<lparr>aw_stack := string_frame nxt (aw_pos s + length str) str (aw_room s) # d # ds\<rparr>)"
    using push_state_w_on [OF l, of "length str - aw_room s" Header_writestring_w nxt "Write_string str" "aw_room s" 0] False assms(2)
    by (simp add: string_frame_def min_absorb2 diff_le_mono)
  then show ?thesis
    using False write_some_bytes_on [OF assms(1), of "bytes_of_string str"] assms(2)
    by (simp add: write_string_body_w_def bind_s_def then_s_def return_s_def)
qed

lemma goto_on:
  "aw_stack s = d # ds \<Longrightarrow> goto_w st s = Inr (None, s\<lparr>aw_stack := d\<lparr>wf_state := st\<rparr> # ds\<rparr>)"
  by (simp add: goto_w_def then_s_def bind_s_def set_state_w_def upd_top_w_def continue_w_def return_s_def)

lemma set_param_goto_on:
  "aw_stack s = d # ds \<Longrightarrow>
   then_s (set_param1_w n) (goto_w st) s = Inr (None, s\<lparr>aw_stack := d\<lparr>wf_param1 := n, wf_state := st\<rparr> # ds\<rparr>)"
  "aw_stack s = d # ds \<Longrightarrow>
   then_s (set_param2_w k) (then_s (set_param1_w n) (goto_w st)) s
     = Inr (None, s\<lparr>aw_stack := d\<lparr>wf_param2 := k, wf_param1 := n, wf_state := st\<rparr> # ds\<rparr>)"
  by (simp_all add: goto_w_def then_s_def bind_s_def set_state_w_def set_param1_w_def set_param2_w_def upd_top_w_def
      continue_w_def return_s_def)

section \<open>Steps that write what a stack has to write\<close>

locale writing =
  fixes rest :: "byte list on_frame" and rank :: "nat on_frame" and ok :: "bool on_frame" and B :: nat
  assumes rest_string: "rest Header_writestring_w (Write_string str) (i, j) = drop i (bytes_of_string str)"
    and ok_string: "ok Header_writestring_w (Write_string str) (i, j) \<longleftrightarrow> i \<le> length str"
    and rank_string: "rank Header_writestring_w (Write_string str) (i, j) = 1"
    and room: "0 < B"
begin

definition remains :: "async_writer \<Rightarrow> byte list" where
  "remains s = stack_rest rest (wf_state (hd (aw_stack s))) (aw_stack s)"

definition srank :: "async_writer \<Rightarrow> nat" where
  "srank s = stack_rank rank (wf_state (hd (aw_stack s))) (aw_stack s)"

text \<open>Between two calls, and during one: a writer that has not written yet has room.\<close>

definition idle :: "async_writer \<Rightarrow> bool" where
  "idle s \<longleftrightarrow> aw_stack s \<noteq> [] \<and> stack_ok rest ok (aw_pos s) (wf_state (hd (aw_stack s))) (aw_stack s)
     \<and> wf_limit (last (aw_stack s)) < 4294967296"

definition winv :: "async_writer \<Rightarrow> bool" where
  "winv s \<longleftrightarrow> idle s \<and> aw_quota_pos s = wf_limit (last (aw_stack s)) \<and> (written s = [] \<longrightarrow> B \<le> aw_room s)"

definition advances :: "write_step \<Rightarrow> async_writer \<Rightarrow> bool" where
  "advances m s \<longleftrightarrow>
     (\<exists>r s' bs. m s = Inr (r, s') \<and> winv s' \<and> written s' = written s @ bs \<and> remains s = bs @ remains s'
        \<and> (case r of
             None \<Rightarrow> bs \<noteq> [] \<or> srank s' < srank s
           | Some x \<Rightarrow> aw_work s' = [] \<and> (if x = WriteReturn_continue then written s' \<noteq> [] else remains s' = [])))"

lemma winv_top:
  assumes "winv s" and "aw_stack s = d # ds"
  shows "ok (wf_state d) (wf_data d) (params d)"
    and "sees_limit s d ds (length (rest (wf_state d) (wf_data d) (params d)))"
    and "below_ok (wf_data d) (wf_pop_state d) ds"
    and "stack_ok rest ok (wf_limit d) (wf_pop_state d) ds"
    and "wf_limit d = aw_pos s + length (rest (wf_state d) (wf_data d) (params d))"
  using assms stack_ok_last [of rest ok "aw_pos s" "wf_state d" "d # ds"]
  by (auto simp: winv_def idle_def sees_limit_def)

text \<open>The ways on: a result without and with bytes.\<close>

lemma advances_next:
  assumes "winv s" and "aw_stack s = d # ds" and "m s = Inr (None, s')"
    and "aw_stack s' = d' # ds'" and "wf_limit (last (d' # ds')) = wf_limit (last (d # ds))"
    and "written s' = written s @ bs" and "aw_pos s' = aw_pos s + length bs"
    and "aw_quota_pos s' = aw_quota_pos s" and "bs = [] \<Longrightarrow> aw_room s' = aw_room s"
    and "stack_ok rest ok (aw_pos s + length bs) (wf_state d') (d' # ds')"
    and "stack_rest rest (wf_state d) (d # ds) = bs @ stack_rest rest (wf_state d') (d' # ds')"
    and "bs \<noteq> [] \<or> stack_rank rank (wf_state d') (d' # ds') < stack_rank rank (wf_state d) (d # ds)"
  shows "advances m s"
proof -
  have "winv s'" using assms(1,2,4-10) by (auto simp: winv_def idle_def)
  then show ?thesis
    using assms(2-4,6,11,12) by (auto simp: advances_def remains_def srank_def)
qed

text \<open>One frame on top is replaced by another.\<close>

lemma advances_top:
  assumes w: "winv s" "aw_stack s = d # ds" and "m s = Inr (None, s')"
    and "aw_stack s' = d' # ds"
    and same: "wf_limit d' = wf_limit d" "wf_data d' = wf_data d" "wf_pop_state d' = wf_pop_state d"
    and "written s' = written s @ bs" and "aw_pos s' = aw_pos s + length bs"
    and "aw_quota_pos s' = aw_quota_pos s" and "bs = [] \<Longrightarrow> aw_room s' = aw_room s"
    and o: "ok (wf_state d') (wf_data d) (params d')"
    and r: "rest (wf_state d) (wf_data d) (params d) = bs @ rest (wf_state d') (wf_data d) (params d')"
    and k: "bs \<noteq> [] \<or> rank (wf_state d') (wf_data d) (params d') < rank (wf_state d) (wf_data d) (params d)"
  shows "advances m s"
proof (rule advances_next [where m = m and d' = d' and ds' = ds and bs = bs])
  show "wf_limit (last (d' # ds)) = wf_limit (last (d # ds))" using same(1) by simp
  show "stack_ok rest ok (aw_pos s + length bs) (wf_state d') (d' # ds)"
    using winv_top(3-5) [OF w] same o r by simp
  show "stack_rest rest (wf_state d) (d # ds) = bs @ stack_rest rest (wf_state d') (d' # ds)"
    using same r by simp
  show "bs \<noteq> [] \<or> stack_rank rank (wf_state d') (d' # ds) < stack_rank rank (wf_state d) (d # ds)"
    using same k by auto
qed (fact assms(1-4,8-11))+

lemma advances_goto:
  assumes w: "winv s" "aw_stack s = d # ds"
    and m: "m s = Inr (None, s\<lparr>aw_stack := d' # ds\<rparr>)"
    and same: "wf_limit d' = wf_limit d" "wf_data d' = wf_data d" "wf_pop_state d' = wf_pop_state d"
    and "ok (wf_state d') (wf_data d) (params d')"
    and "rest (wf_state d) (wf_data d) (params d) = rest (wf_state d') (wf_data d) (params d')"
    and "rank (wf_state d') (wf_data d) (params d') < rank (wf_state d) (wf_data d) (params d)"
  shows "advances m s"
  by (rule advances_top [where m = m and bs = "[]", OF w m _ same]) (use assms in \<open>auto simp: written_def\<close>)

lemma advances_pop:
  assumes w: "winv s" "aw_stack s = d # e # ds"
    and m: "m s = Inr (None, s\<lparr>aw_stack := e\<lparr>wf_state := wf_pop_state d\<rparr> # ds\<rparr>)"
    and "rest (wf_state d) (wf_data d) (params d) = []"
    and "0 < rank (wf_state d) (wf_data d) (params d)"
  shows "advances m s"
  by (rule advances_next [where m = m and bs = "[]" and ds' = ds and d' = "e\<lparr>wf_state := wf_pop_state d\<rparr>", OF w m])
    (use winv_top(4,5) [OF w] assms(4,5) in \<open>auto simp: written_def params_def\<close>)

lemma advances_push:
  assumes w: "winv s" "aw_stack s = d # ds"
    and m: "m s = Inr (None, s\<lparr>aw_stack := c # d' # ds\<rparr>)"
    and same: "wf_limit d' = wf_limit d" "wf_data d' = wf_data d" "wf_pop_state d' = wf_pop_state d"
    and "ok (wf_state c) (wf_data c) (params c)" and "ok (wf_pop_state c) (wf_data d) (params d')"
    and "below_ok (wf_data c) (wf_pop_state c) (d' # ds)"
    and "wf_limit c = aw_pos s + length (rest (wf_state c) (wf_data c) (params c))"
    and "rest (wf_state d) (wf_data d) (params d)
      = rest (wf_state c) (wf_data c) (params c) @ rest (wf_pop_state c) (wf_data d) (params d')"
    and "rank (wf_state c) (wf_data c) (params c) + rank (wf_pop_state c) (wf_data d) (params d')
      < rank (wf_state d) (wf_data d) (params d)"
  shows "advances m s"
  by (rule advances_next [where m = m and bs = "[]" and ds' = "d' # ds" and d' = c, OF w m])
    (use winv_top(3-5) [OF w] assms(4-) in \<open>auto simp: written_def\<close>)

lemma advances_continue:
  assumes "winv s" and "m s = Inr (Some WriteReturn_continue, s\<lparr>aw_bufs := aw_bufs s @ aw_work s, aw_work := [], aw_used := u\<rparr>)"
    and "aw_room s < B"
  shows "advances m s"
proof -
  have "written s \<noteq> []" using assms(1,3) by (auto simp: winv_def)
  then show ?thesis using assms
    by (auto simp: advances_def winv_def idle_def written_def remains_def)
qed

text \<open>A piece that is written at once or not at all.\<close>

lemma advances_R:
  assumes w: "winv s" "aw_stack s = d # ds"
    and m: "m s = R_w (write_all_bytes_w bs) K s" and "length bs \<le> B"
    and K: "\<And>t. aw_stack t = d # ds \<Longrightarrow> K t = Inr (None, t\<lparr>aw_stack := d' # ds\<rparr>)"
    and same: "wf_limit d' = wf_limit d" "wf_data d' = wf_data d" "wf_pop_state d' = wf_pop_state d"
    and "ok (wf_state d') (wf_data d) (params d')"
    and r: "rest (wf_state d) (wf_data d) (params d) = bs @ rest (wf_state d') (wf_data d) (params d')"
    and "bs \<noteq> [] \<or> rank (wf_state d') (wf_data d) (params d') < rank (wf_state d) (wf_data d) (params d)"
  shows "advances m s"
proof -
  have l: "length bs \<le> length (rest (wf_state d) (wf_data d) (params d))" using r by simp
  note W = write_all_bytes_on [OF winv_top(2) [OF w] l]
  show ?thesis
  proof (cases "length bs \<le> aw_room s")
    case True
    then have "m s = Inr (None, (put bs s)\<lparr>aw_stack := d' # ds\<rparr>)"
      using m W K [of "put bs s"] w(2) by (simp add: R_w_def bind_s_def)
    then show ?thesis
      by (rule advances_top [where m = m and bs = bs, OF w _ _ same]) (use assms in \<open>auto simp: written_def\<close>)
  next
    case False
    then have "m s = then_s prepare_continue_w (return_s (Some WriteReturn_continue)) s"
      using m W by (simp add: R_w_def bind_s_def)
    with False assms(4) show ?thesis
      by (intro advances_continue [OF w(1)])
        (auto simp: then_s_def bind_s_def return_s_def prepare_continue_w_def)
  qed
qed

text \<open>The two forms most states have: write a piece and go on, or just go on.\<close>

lemma advances_write:
  assumes w: "winv s" "aw_stack s = d # ds"
    and m: "m s = R_w (write_all_bytes_w bs) (goto_w st) s" and "bs \<noteq> []" and "length bs \<le> B"
    and "ok st (wf_data d) (params d)"
    and "rest (wf_state d) (wf_data d) (params d) = bs @ rest st (wf_data d) (params d)"
  shows "advances m s"
  by (rule advances_R [where m = m and bs = bs and d' = "d\<lparr>wf_state := st\<rparr>", OF w m])
    (use assms goto_on in \<open>auto simp: params_def\<close>)

lemma advances_skip:
  assumes w: "winv s" "aw_stack s = d # ds" and m: "m s = goto_w st s"
    and "ok st (wf_data d) (params d)"
    and "rest (wf_state d) (wf_data d) (params d) = rest st (wf_data d) (params d)"
    and "rank st (wf_data d) (params d) < rank (wf_state d) (wf_data d) (params d)"
  shows "advances m s"
  by (rule advances_goto [where m = m and d' = "d\<lparr>wf_state := st\<rparr>", OF w])
    (use assms goto_on [OF w(2)] in \<open>auto simp: params_def\<close>)

lemma advances_cong: "m s = m' s \<Longrightarrow> advances m' s \<Longrightarrow> advances m s"
  by (simp add: advances_def)

text \<open>A string behind a prefix; what does not fit is left to a frame of its own.\<close>

lemma advances_string:
  assumes w: "winv s" "aw_stack s = d # ds"
    and m: "m s = R_w (bind_s (write_all_bytes_w pre) (\<lambda>ok. if \<not> ok then return_s False else write_string_body_w str nxt))
      (goto_w nxt) s"
    and pre: "pre \<noteq> []" "length pre \<le> B"
    and o: "ok nxt (wf_data d) (params d)"
    and r: "rest (wf_state d) (wf_data d) (params d) = (pre @ bytes_of_string str) @ rest nxt (wf_data d) (params d)"
  shows "advances m s"
proof -
  have l: "length pre \<le> length (rest (wf_state d) (wf_data d) (params d))" using r by simp
  note W = write_all_bytes_on [OF winv_top(2) [OF w] l]
  note P = sees_limit_put [OF winv_top(2) [OF w] l]
  have "length str \<le> length (rest (wf_state d) (wf_data d) (params d)) - length pre" using r by simp
  note S = write_string_body_on [OF P this, of nxt]
  consider (no) "\<not> length pre \<le> aw_room s" | (all) "length pre \<le> aw_room s" "length str \<le> aw_room s - length pre"
    | (some) "length pre \<le> aw_room s" "\<not> length str \<le> aw_room s - length pre" by blast
  then show ?thesis
  proof cases
    case no
    then have "m s = then_s prepare_continue_w (return_s (Some WriteReturn_continue)) s"
      using m W by (simp add: R_w_def bind_s_def return_s_def)
    with no pre show ?thesis
      by (intro advances_continue [OF w(1)])
        (auto simp: then_s_def bind_s_def return_s_def prepare_continue_w_def)
  next
    case all
    then have "m s = Inr (None, (put (bytes_of_string str) (put pre s))\<lparr>aw_stack := d\<lparr>wf_state := nxt\<rparr> # ds\<rparr>)"
      using m W S w(2)
      by (simp add: R_w_def bind_s_def return_s_def goto_w_def then_s_def continue_w_def set_state_w_def upd_top_w_def)
    then show ?thesis
      by (rule advances_top [where m = m and bs = "pre @ bytes_of_string str" and d' = "d\<lparr>wf_state := nxt\<rparr>", OF w])
        (use pre o r w in \<open>auto simp: written_def params_def\<close>)
  next
    case some
    define n where "n = aw_room s - length pre"
    define t where "t = (put (take n (bytes_of_string str)) (put pre s))
      \<lparr>aw_stack := string_frame nxt (aw_pos s + length pre + length str) str n # d # ds\<rparr>"
    have n: "n \<le> length str" using some by (simp add: n_def)
    have e: "m s = Inr (Some WriteReturn_continue, t\<lparr>aw_bufs := aw_bufs t @ aw_work t, aw_work := [], aw_used := aw_size t - aw_room t\<rparr>)"
      using m W S some w(2)
      by (simp add: R_w_def bind_s_def return_s_def then_s_def prepare_continue_w_def t_def n_def)
    have "idle t"
      using winv_top(3-5) [OF w] w(1) o r n w(2)
      by (auto simp: t_def idle_def winv_def string_frame_def params_def rest_string ok_string min_absorb2)
    moreover have "remains s = (pre @ take n (bytes_of_string str)) @ remains t"
      using r by (simp add: remains_def t_def string_frame_def w(2) params_def rest_string take_drop_append)
    moreover have "written t = written s @ pre @ take n (bytes_of_string str)"
      by (simp add: t_def written_def)
    moreover have "wf_limit (last (aw_stack t)) = wf_limit (last (aw_stack s))" "aw_quota_pos t = aw_quota_pos s"
      by (simp_all add: t_def w(2))
    ultimately show ?thesis using e w(1) pre(1)
      by (auto simp: advances_def winv_def idle_def written_def remains_def)
  qed
qed

text \<open>A piece that may be empty.\<close>

lemma advances_R_piece:
  assumes w: "winv s" "aw_stack s = d # ds"
    and m: "m s = R_w (if bs = [] then return_s True else write_all_bytes_w bs) (goto_w st) s" and "length bs \<le> B"
    and "ok st (wf_data d) (params d)"
    and "rest (wf_state d) (wf_data d) (params d) = bs @ rest st (wf_data d) (params d)"
    and "rank st (wf_data d) (params d) < rank (wf_state d) (wf_data d) (params d)"
  shows "advances m s"
proof (cases "bs = []")
  case True
  with assms show ?thesis by (intro advances_skip [OF w, of m st]) (simp_all add: R_w_def)
next
  case False
  with assms show ?thesis by (intro advances_write [OF w, of m bs st]) simp_all
qed

text \<open>The last piece of an object, behind which its frame goes.\<close>

lemma advances_R_pop:
  assumes w: "winv s" "aw_stack s = d # e # es"
    and m: "m s = R_w (if bs = [] then return_s True else write_all_bytes_w bs) K s" and "length bs \<le> B"
    and K: "\<And>t. aw_stack t = d # e # es \<Longrightarrow> K t = Inr (None, t\<lparr>aw_stack := e' # es\<rparr>)"
    and same: "wf_limit e' = wf_limit e" "wf_data e' = wf_data e" "wf_pop_state e' = wf_pop_state e"
      "wf_state e' = wf_pop_state d" "params e' = params e"
    and r: "rest (wf_state d) (wf_data d) (params d) = bs"
    and k: "0 < rank (wf_state d) (wf_data d) (params d)"
  shows "advances m s"
proof -
  have "length bs \<le> length (rest (wf_state d) (wf_data d) (params d))" using r by simp
  note W = write_all_bytes_on [OF winv_top(2) [OF w] this]
  show ?thesis
  proof (cases "length bs \<le> aw_room s")
    case True
    then have e: "m s = Inr (None, (put bs s)\<lparr>aw_stack := e' # es\<rparr>)"
      using m W K [of "put bs s"] w(2) by (simp add: R_w_def bind_s_def return_s_def split: if_splits)
    show ?thesis
      by (rule advances_next [where m = m and bs = bs and d' = e' and ds' = es, OF w e])
        (use winv_top(4,5) [OF w] r k same in \<open>auto simp: written_def\<close>)
  next
    case False
    then have "m s = then_s prepare_continue_w (return_s (Some WriteReturn_continue)) s"
      using m W by (auto simp: R_w_def bind_s_def)
    with False assms(4) show ?thesis
      by (intro advances_continue [OF w(1)])
        (auto simp: then_s_def bind_s_def return_s_def prepare_continue_w_def)
  qed
qed

text \<open>Pieces that depend on a flag.\<close>

lemma advances_when:
  assumes w: "winv s" "aw_stack s = d # ds"
    and m: "m s = (if c then R_w (write_all_bytes_w bs) (goto_w st) s else goto_w st s)"
    and "c \<Longrightarrow> bs \<noteq> []" and "c \<Longrightarrow> length bs \<le> B"
    and "ok st (wf_data d) (params d)"
    and "rest (wf_state d) (wf_data d) (params d) = (if c then bs else []) @ rest st (wf_data d) (params d)"
    and "\<not> c \<Longrightarrow> rank st (wf_data d) (params d) < rank (wf_state d) (wf_data d) (params d)"
  shows "advances m s"
proof (cases c)
  case True
  with assms show ?thesis by (intro advances_write [OF w, of m bs st]) simp_all
next
  case False
  with assms show ?thesis by (intro advances_skip [OF w, of m st]) simp_all
qed

lemma advances_when_string:
  assumes w: "winv s" "aw_stack s = d # ds"
    and m: "m s = (if c then R_w (bind_s (write_all_bytes_w pre) (\<lambda>ok. if \<not> ok then return_s False else write_string_body_w str st)) (goto_w st) s
      else goto_w st s)"
    and "pre \<noteq> []" and "length pre \<le> B"
    and "ok st (wf_data d) (params d)"
    and "rest (wf_state d) (wf_data d) (params d)
      = (if c then pre @ bytes_of_string str else []) @ rest st (wf_data d) (params d)"
    and "\<not> c \<Longrightarrow> rank st (wf_data d) (params d) < rank (wf_state d) (wf_data d) (params d)"
  shows "advances m s"
proof (cases c)
  case True
  with assms show ?thesis by (intro advances_string [OF w, of m pre str st]) simp_all
next
  case False
  with assms show ?thesis by (intro advances_skip [OF w, of m st]) simp_all
qed

text \<open>The rest of a string.\<close>

lemma advances_writestring:
  assumes w: "winv s" "aw_stack s = d # ds" and st: "wf_state d = Header_writestring_w" "wf_data d = Write_string str"
    and "m s = step_Header_writestring_w s"
  shows "advances m s"
proof -
  define i where "i = wf_param1 d"
  define bs where "bs = drop i (bytes_of_string str)"
  have r: "rest (wf_state d) (wf_data d) (params d) = bs" by (simp add: st params_def rest_string i_def bs_def)
  have i: "i \<le> length str" using winv_top(1) [OF w] by (simp add: st params_def ok_string i_def)
  have "length bs \<le> length (rest (wf_state d) (wf_data d) (params d))" by (simp add: r)
  note W = write_some_bytes_on [OF winv_top(2) [OF w] this]
  obtain e es where ds: "ds = e # es" using winv_top(3) [OF w] by (cases ds) (simp_all add: st)
  show ?thesis
  proof (cases "length bs \<le> aw_room s")
    case True
    then have e: "m s = Inr (None, (put bs s)\<lparr>aw_stack := e\<lparr>wf_state := wf_pop_state d\<rparr> # es\<rparr>)"
      using W w(2) st assms(5) i
      by (simp add: step_Header_writestring_w_def bind_s_def then_s_def top_frame_w_def i_def [symmetric] bs_def [symmetric]
          set_param1_w_def upd_top_w_def ds DO_POP_STATE_w_def pop_state_w_def continue_w_def return_s_def)
        (simp add: bs_def)
    show ?thesis
      by (rule advances_next [where m = m and bs = bs and d' = "e\<lparr>wf_state := wf_pop_state d\<rparr>" and ds' = es, OF w e])
        (use winv_top(4,5) [OF w] r rank_string in \<open>auto simp: ds params_def st written_def\<close>)
  next
    case False
    define t where "t = (put (take (aw_room s) bs) s)\<lparr>aw_stack := d\<lparr>wf_param1 := i + aw_room s\<rparr> # ds\<rparr>"
    have "i + aw_room s \<noteq> length str" using False by (auto simp: bs_def)
    then have e: "m s = Inr (Some WriteReturn_continue, t\<lparr>aw_bufs := aw_bufs t @ aw_work t, aw_work := [], aw_used := aw_size t - aw_room t\<rparr>)"
      using W w(2) st assms(5) False
      by (simp add: step_Header_writestring_w_def bind_s_def then_s_def top_frame_w_def i_def [symmetric] bs_def [symmetric]
          set_param1_w_def upd_top_w_def R_w_def prepare_continue_w_def return_s_def t_def)
    have "idle t"
      using winv_top(3-5) [OF w] w False i
      by (auto simp: t_def idle_def winv_def st params_def rest_string ok_string min_absorb2 bs_def i_def)
    moreover have "remains s = take (aw_room s) bs @ remains t"
      by (simp add: remains_def t_def w(2) st params_def rest_string bs_def i_def [symmetric])
        (metis append_take_drop_id drop_drop add.commute append.assoc)
    moreover have wt: "written t = written s @ take (aw_room s) bs" by (simp add: t_def written_def)
    moreover have "wf_limit (last (aw_stack t)) = wf_limit (last (aw_stack s))" "aw_quota_pos t = aw_quota_pos s"
      by (simp_all add: t_def w(2))
    moreover have "written t \<noteq> []" using w(1) room False unfolding wt by (auto simp: winv_def)
    ultimately show ?thesis using e w(1)
      by (auto simp: advances_def winv_def idle_def written_def remains_def)
  qed
qed

end

section \<open>Calls\<close>

text \<open>When every step advances, the loop ends, and so a call returns with bytes that were left.\<close>

locale message_writer = writing +
  fixes step :: write_step
  assumes step_advances: "winv s \<Longrightarrow> advances step s"
begin

definition returned :: "async_writer \<Rightarrow> write_return \<Rightarrow> async_writer \<Rightarrow> bool" where
  "returned s x s' \<longleftrightarrow>
     idle s' \<and> aw_work s' = [] \<and> written s @ remains s = written s' @ remains s'
     \<and> (if x = WriteReturn_continue then written s' \<noteq> [] else remains s' = [])"

lemma loop_returns: "winv s \<Longrightarrow> \<exists>x s'. write_loop step s = Some (Inr (x, s')) \<and> returned s x s'"
proof (induction "(length (remains s), srank s)" arbitrary: s rule: wf_induct_rule [OF wf_lex_prod [OF wf_less_than wf_less_than]])
  case 1
  from step_advances [OF 1(2)] obtain r t bs where t: "step s = Inr (r, t)" "winv t" "written t = written s @ bs"
    "remains s = bs @ remains t"
    and r: "case r of None \<Rightarrow> bs \<noteq> [] \<or> srank t < srank s
      | Some x \<Rightarrow> aw_work t = [] \<and> (if x = WriteReturn_continue then written t \<noteq> [] else remains t = [])"
    unfolding advances_def by blast
  show ?case
  proof (cases r)
    case None
    then have "((length (remains t), srank t), (length (remains s), srank s)) \<in> less_than <*lex*> less_than"
      using r t(4) by auto
    from 1(1) [OF this t(2)] obtain x s' where "write_loop step t = Some (Inr (x, s'))" "returned t x s'" by blast
    moreover have "returned s x s'" if "returned t x s'" using that t(3,4) by (simp add: returned_def)
    ultimately show ?thesis using None t(1) by (subst write_loop.simps) auto
  next
    case (Some x)
    then have "returned s x t" using r t(2-4) by (auto simp: returned_def winv_def)
    with Some t(1) show ?thesis by (subst write_loop.simps) simp
  qed
qed

lemma idle_remaining:
  assumes "idle s"
  shows "WriteRemaining s = Inr (length (remains s), s)"
    and "aw_pos s + length (remains s) = wf_limit (last (aw_stack s))"
proof -
  have l: "wf_limit (last (aw_stack s)) = aw_pos s + length (remains s)"
    using assms stack_ok_last [of rest ok "aw_pos s" "wf_state (hd (aw_stack s))" "aw_stack s"]
    unfolding idle_def remains_def by blast
  moreover from this have "aw_pos s + length (remains s) < 4294967296" "aw_stack s \<noteq> []"
    using assms by (simp_all add: idle_def)
  ultimately show "WriteRemaining s = Inr (length (remains s), s)"
    by (simp add: WriteRemaining_def message_len_w_def bind_s_def size_sub_w_exact)
  show "aw_pos s + length (remains s) = wf_limit (last (aw_stack s))" using l by simp
qed

text \<open>A call with all that is left as its quota.\<close>

lemma call_returns:
  assumes "idle s" and "B \<le> work_size"
  shows "\<exists>x out s'. write_call step (length (remains s)) work_size s = Some (Inr ((x, out), s')) \<and> idle s'
    \<and> remains s = out @ remains s'
    \<and> (if x = WriteReturn_continue then out \<noteq> [] else remains s' = [])"
proof -
  define t where "t = s\<lparr>aw_room := work_size, aw_work := [], aw_bufs := [], aw_size := work_size, aw_used := 0\<rparr>"
  have rt: "remains t = remains s" "idle t" using assms(1) by (simp_all add: remains_def t_def idle_def)
  have W: "WriteRemaining t = Inr (length (remains s), t)" using idle_remaining(1) [OF rt(2)] rt(1) by simp
  have l: "wf_limit (last (aw_stack s)) = aw_pos s + length (remains s)" using idle_remaining(2) [OF assms(1)] by simp
  then have lt: "aw_pos s + length (remains s) < 4294967296" using assms(1) by (simp add: idle_def)
  show ?thesis
  proof (cases "remains s = []")
    case True
    then show ?thesis using W rt by (simp add: write_call_def t_def [symmetric] Let_def)
  next
    case False
    define u where "u = t\<lparr>aw_quota_pos := aw_pos s + length (remains s)\<rparr>"
    have u: "winv u" "written u = []" "remains u = remains s"
      using assms l rt by (auto simp: winv_def u_def t_def idle_def written_def remains_def)
    obtain x s' where c: "write_loop step u = Some (Inr (x, s'))" and r: "returned u x s'"
      using loop_returns [OF u(1)] by blast
    have "write_call step (length (remains s)) work_size s = Some (Inr ((x, aw_bufs s'), s'))"
      using W False lt c by (simp add: write_call_def t_def [symmetric] Let_def u_def [symmetric])
        (simp add: t_def u_def)
    moreover have "aw_bufs s' = written s'" using r by (simp add: written_def returned_def)
    ultimately show ?thesis using r u by (auto simp: returned_def)
  qed
qed

end

end
