(* ===== verification/RR_AsyncWriter_Objects.thy ===== *)
theory RR_AsyncWriter_Objects
  imports RR_AsyncWriter_Laws
begin

text \<open>
  The part of the resumable writer that both versions share: the states of the message, of the lists
  of entries and elements and of the data of an element.  The locale \<open>objects\<close> has the fields of the
  objects, which the versions write differently, as parameters.
\<close>

section \<open>Pieces\<close>

text \<open>The fields of an object in the order of the states that write them.\<close>

type_synonym pieces = "(write_state \<times> byte list) list"

definition since :: "write_state \<Rightarrow> pieces \<Rightarrow> pieces" where
  "since st = dropWhile (\<lambda>(st', _). st' \<noteq> st)"

definition piece_bytes :: "pieces \<Rightarrow> byte list" where
  "piece_bytes ps = concat (map snd ps)"

lemma since_simps [simp]:
  "since st [] = []"
  "since st ((st', bs) # ps) = (if st' = st then (st', bs) # ps else since st ps)"
  by (simp_all add: since_def)

lemma piece_bytes_simps [simp]:
  "piece_bytes [] = []"
  "piece_bytes ((st, bs) # ps) = bs @ piece_bytes ps"
  by (simp_all add: piece_bytes_def)

definition nested_count :: "MessageElement \<Rightarrow> nat" where
  "nested_count el = (case dat el of Some (NestedElementList t tn es) \<Rightarrow> length es | _ \<Rightarrow> 0)"

definition pieces_states :: "pieces \<Rightarrow> write_state set" where
  "pieces_states ps = set (map fst ps)"

section \<open>What the states still have to write\<close>

definition data_bytes :: "(MessageElement \<Rightarrow> byte list) \<Rightarrow> MessageElementData option \<Rightarrow> byte list" where
  "data_bytes eb d =
     (case d of
        None \<Rightarrow> []
      | Some (ArrayData a) \<Rightarrow> array_bytes a
      | Some (NestedElementList t tn es) \<Rightarrow> if is_nested_type t then concat (map eb es) else [])"

definition element_common :: "write_state set" where
  "element_common = {MessageElement_writedata_w, MessageElement_writearray1_w, MessageElement_writenested1_w,
     MessageElement_finishwritedata_w}"

definition entry_common :: "write_state set" where
  "entry_common = {MessageEntry_writeelements_w, MessageElement_init_w, MessageEntry_finishwrite_w}"

definition message_states :: "write_state set" where
  "message_states = {Message_init_w, MessageHeader_init_w, Message_writeentries_w, MessageEntry_init_w, Message_done_w}"

definition common_states :: "write_state set" where
  "common_states = message_states \<union> entry_common \<union> element_common \<union> {MessageElement_writenested2_w, Header_writestring_w}"

lemmas common_defs = element_common_def entry_common_def message_states_def common_states_def

text \<open>
  \<open>elp\<close> and \<open>enp\<close> are the fields of elements and entries, \<open>eb\<close>, \<open>nb\<close>, \<open>hb\<close> and \<open>mb\<close> the encodings; \<open>elx\<close> and
  \<open>enx\<close> are what else holds in a state, and \<open>hrest\<close>, \<open>hrank\<close> and \<open>hok\<close> describe the header.
\<close>

locale objects =
  fixes elp :: "element_fields \<Rightarrow> pieces" and elx :: "write_state \<Rightarrow> MessageElement \<Rightarrow> bool"
    and eb :: "MessageElement \<Rightarrow> byte list" and el_ok :: "MessageElement \<Rightarrow> bool"
    and enp :: "message_entry \<Rightarrow> pieces" and enx :: "write_state \<Rightarrow> message_entry \<Rightarrow> bool"
    and nb :: "message_entry \<Rightarrow> byte list" and en_ok :: "message_entry \<Rightarrow> bool"
    and hrest :: "write_state \<Rightarrow> message_header \<Rightarrow> params \<Rightarrow> byte list"
    and hrank :: "write_state \<Rightarrow> message_header \<Rightarrow> params \<Rightarrow> nat"
    and hok :: "write_state \<Rightarrow> message_header \<Rightarrow> params \<Rightarrow> bool"
    and hb :: "message_header \<Rightarrow> byte list"
    and mb :: "message \<Rightarrow> byte list" and m_ok :: "message \<Rightarrow> bool"
    and B :: nat
  assumes room16: "16 \<le> B"
    and element_split: "eb (MessageElement f x) = piece_bytes (elp f) @ data_bytes eb x"
    and element_first: "since MessageElement_elementsize_w (elp f) = elp f" "elx MessageElement_elementsize_w el"
      "MessageElement_elementsize_w \<in> pieces_states (elp f)"
    and element_last: "st \<in> element_common \<Longrightarrow> since st (elp f) = []"
    and element_limit: "el_ok el \<Longrightarrow> unat (ElementSize (flds el)) = length (eb el)"
    and element_void: "el_ok (MessageElement f x) \<Longrightarrow> type_group (ElementType f) = Group_void \<Longrightarrow> data_bytes eb x = []"
    and element_cases: "el_ok (MessageElement f x) \<Longrightarrow> type_group (ElementType f) = Group_void
      \<or> (\<exists>a. x = Some (ArrayData a) \<and> ElementType f = array_type a \<and> length (array_bytes a) < 2147483648)
      \<or> (\<exists>tn es. x = Some (NestedElementList (ElementType f) tn es) \<and> is_nested_type (ElementType f) \<and> (\<forall>c \<in> set es. el_ok c))"
    and entry_split: "nb e = piece_bytes (enp e) @ concat (map eb (elements e))"
    and entry_first: "since MessageEntry_entrysize_w (enp e) = enp e" "enx MessageEntry_entrysize_w e"
      "MessageEntry_entrysize_w \<in> pieces_states (enp e)"
    and entry_limit: "en_ok e \<Longrightarrow> unat (EntrySize e) = length (nb e)"
    and entry_elements: "en_ok e \<Longrightarrow> c \<in> set (elements e) \<Longrightarrow> el_ok c"
    and message_parts: "m_ok m \<Longrightarrow> \<exists>h. header m = Some h \<and> hok MessageHeader_magic_w h (0, 0)
      \<and> hrest MessageHeader_magic_w h (0, 0) = hb h \<and> hrank MessageHeader_magic_w h (0, 0) = 1
      \<and> unat (HeaderSize h) = length (hb h) \<and> mb m = hb h @ concat (map nb (entries m))"
    and message_entries: "m_ok m \<Longrightarrow> e \<in> set (entries m) \<Longrightarrow> en_ok e"
begin

fun rest :: "byte list on_frame" where
  "rest st (Write_message m) (i, j) =
     (if st = Message_init_w \<or> st = MessageHeader_init_w then mb m
      else if st = Message_done_w then [] else concat (map nb (drop i (entries m))))"
| "rest st (Write_header h) p = hrest st h p"
| "rest st (Write_entry e) (i, j) =
     (if st = MessageEntry_finishwrite_w then []
      else if st = MessageEntry_writeelements_w \<or> st = MessageElement_init_w
      then concat (map eb (drop i (elements e)))
      else piece_bytes (since st (enp e)) @ concat (map eb (elements e)))"
| "rest st (Write_element el) p =
     (if st = MessageElement_finishwritedata_w then []
      else piece_bytes (since st (elp (flds el))) @ data_bytes eb (dat el))"
| "rest st (Write_nested es) (i, j) = concat (map eb (drop i es))"
| "rest st (Write_string str) (i, j) = drop i (bytes_of_string str)"
| "rest st (Write_array a) p = []"

text \<open>How many steps are left before a byte is written, at most.\<close>

fun rank :: "nat on_frame" where
  "rank st (Write_message m) (i, j) =
     (let n = length (entries m) in
      if st = Message_init_w then 3 * n + 10 else if st = MessageHeader_init_w then 3 * n + 9
      else if st = Message_done_w then 1 else if st = MessageEntry_init_w then 3 * (n - i) + 1
      else 3 * (n - i) + 2)"
| "rank st (Write_header h) p = hrank st h p"
| "rank st (Write_entry e) (i, j) =
     (let n = length (elements e) in
      if st = MessageEntry_entrysize_w \<or> st = MessageEntry_finishwrite_w then 1
      else if st = MessageElement_init_w then 3 * (n - i) + 1
      else if st = MessageEntry_writeelements_w then 3 * (n - i) + 2
      else length (since st (enp e)))"
| "rank st (Write_element el) p =
     (if st = MessageElement_elementsize_w \<or> st = MessageElement_finishwritedata_w then 1
      else if st = MessageElement_writearray1_w \<or> st = MessageElement_writenested1_w then 2 * nested_count el + 5
      else length (since st (elp (flds el))) + 2 * nested_count el + 6)"
| "rank st (Write_nested es) (i, j) = 2 * (length es - i) + 1"
| "rank st (Write_string str) p = 1"
| "rank st (Write_array a) p = 0"

fun ok :: "bool on_frame" where
  "ok st (Write_message m) (i, j) \<longleftrightarrow>
     m_ok m \<and> st \<in> message_states
     \<and> (st = Message_init_w \<or> st = MessageHeader_init_w \<longrightarrow> i = 0) \<and> (st = MessageEntry_init_w \<longrightarrow> i < length (entries m))"
| "ok st (Write_header h) p \<longleftrightarrow> hok st h p"
| "ok st (Write_entry e) (i, j) \<longleftrightarrow>
     en_ok e \<and> (st \<in> pieces_states (enp e) \<and> enx st e \<or> st \<in> entry_common)
     \<and> (st = MessageElement_init_w \<longrightarrow> i < length (elements e))"
| "ok st (Write_element el) p \<longleftrightarrow>
     el_ok el \<and> (st \<in> pieces_states (elp (flds el)) \<and> elx st el \<or> st \<in> element_common)
     \<and> (st = MessageElement_writearray1_w \<longrightarrow> (\<exists>a. dat el = Some (ArrayData a) \<and> length (array_bytes a) < 2147483648))
     \<and> (st = MessageElement_writenested1_w
        \<longrightarrow> (\<exists>tn es. dat el = Some (NestedElementList (ElementType (flds el)) tn es) \<and> is_nested_type (ElementType (flds el))
              \<and> (\<forall>c \<in> set es. el_ok c)))"
| "ok st (Write_nested es) p \<longleftrightarrow> st = MessageElement_writenested2_w \<and> (\<forall>c \<in> set es. el_ok c)"
| "ok st (Write_string str) (i, j) \<longleftrightarrow> st = Header_writestring_w \<and> i \<le> length str"
| "ok st (Write_array a) p \<longleftrightarrow> False"

lemma rest_start:
  "rest MessageElement_elementsize_w (Write_element el) p = eb el"
  "rest MessageEntry_entrysize_w (Write_entry e) (i, j) = nb e"
  by (cases el) (simp_all add: element_first entry_first element_split entry_split)

end

sublocale objects \<subseteq> writing rest rank ok B
  using room16 by unfold_locales simp_all

context objects begin

text \<open>What \<open>BeginWrite\<close> leaves.\<close>

lemma idle_begin:
  assumes "m_ok m" and "aw_pos s = 0" and "length (mb m) < 4294967296"
    and "aw_stack s = [\<lparr>wf_state = Message_init_w, wf_pop_state = Message_init_w, wf_limit = length (mb m),
      wf_data = Write_message m, wf_param1 = 0, wf_param2 = 0\<rparr>]"
  shows "idle s" and "remains s = mb m"
  using assms by (simp_all add: idle_def remains_def params_def message_states_def)

end

section \<open>The steps\<close>

lemma bytes_not_empty [simp]: "uintx_bytes v \<noteq> []" "intx_bytes i \<noteq> []" "bytes_of_string ''RRAC'' \<noteq> []"
  "num_bytes (b :: 8 word) \<noteq> []" "num_bytes (c :: 16 word) \<noteq> []" "num_bytes (d :: 32 word) \<noteq> []"
  using GetUintXByteCount_bounds(1) [of v] length_uintx_bytes [of v] length_intx_bytes [of i]
    length_num_bytes [of b] length_num_bytes [of c] length_num_bytes [of d]
  by (auto simp: GetIntXByteCount_def bytes_of_string_def simp del: length_uintx_bytes length_intx_bytes length_num_bytes
      split: if_splits)

lemma R_on:
  "aw_stack s = d # ds \<Longrightarrow> wf_data d = Write_element el \<Longrightarrow> data_element_w m s = m el s"
  "aw_stack s = d # ds \<Longrightarrow> wf_data d = Write_entry e \<Longrightarrow> data_entry_w m' s = m' e s"
  "aw_stack s = d # ds \<Longrightarrow> wf_data d = Write_header h \<Longrightarrow> data_header_w m'' s = m'' h s"
  "aw_stack s = d # ds \<Longrightarrow> wf_data d = Write_message msg \<Longrightarrow> data_message_w m''' s = m''' msg s"
  "aw_stack s = d # ds \<Longrightarrow> bind_s param1_w k s = k (wf_param1 d) s"
  "aw_stack s = d # ds \<Longrightarrow> bind_s param2_w k s = k (wf_param2 d) s"
  "aw_stack s = d # ds \<Longrightarrow> bind_s top_frame_w k' s = k' d s"
  by (simp_all add: data_element_w_def data_entry_w_def data_header_w_def data_message_w_def param1_w_def param2_w_def
      bind_s_def top_frame_w_def return_s_def)


context objects begin

lemma piece_lengths:
  "GetUintXByteCount v \<le> B" "GetIntXByteCount i \<le> B" "4 \<le> B" "2 \<le> B" "Suc 0 \<le> B"
  using room16 GetUintXByteCount_bounds(2) [of v] by (auto simp: GetIntXByteCount_def)

text \<open>Nested elements: the children of an entry and of a list are pushed in the same way.\<close>

lemma push_element_on:
  assumes w: "winv s" "aw_stack s = d # ds" and i: "wf_param1 d < length els"
    and c: "unat (ElementSize (flds (els ! wf_param1 d))) \<le> length (rest (wf_state d) (wf_data d) (params d))"
  shows "push_element_w ps els s = Inr (None, s\<lparr>aw_stack :=
     \<lparr>wf_state = MessageElement_elementsize_w, wf_pop_state = ps,
      wf_limit = aw_pos s + unat (ElementSize (flds (els ! wf_param1 d))),
      wf_data = Write_element (els ! wf_param1 d), wf_param1 = 0, wf_param2 = 0\<rparr> # d\<lparr>wf_param1 := wf_param1 d + 1\<rparr> # ds\<rparr>)"
proof -
  define t where "t = s\<lparr>aw_stack := d\<lparr>wf_param1 := wf_param1 d + 1\<rparr> # ds\<rparr>"
  have "sees_limit t (d\<lparr>wf_param1 := wf_param1 d + 1\<rparr>) ds (length (rest (wf_state d) (wf_data d) (params d)))"
    using winv_top(2) [OF w] by (simp add: sees_limit_def t_def split: if_splits)
  note P = push_state_w_on [OF this c, of MessageElement_elementsize_w ps "Write_element (els ! wf_param1 d)" 0 0]
  have "push_element_w ps els s = then_s (push_state_w MessageElement_elementsize_w ps
      (unat (ElementSize (flds (els ! wf_param1 d)))) (Write_element (els ! wf_param1 d)) 0 0) continue_w t"
    unfolding push_element_w_def R_on(5) [OF w(2)]
    using i by (simp add: then_s_def bind_s_def set_param1_w_def upd_top_w_def w(2) t_def)
  then show ?thesis using P by (simp add: then_s_def bind_s_def continue_w_def return_s_def) (simp add: t_def)
qed

text \<open>The frame of an element on top of the one it belongs to.\<close>

lemma element_advance:
  assumes w: "winv s" "aw_stack s = d # ds"
    and m: "m s = push_element_w ps els s" and i: "wf_param1 d < length els"
    and v: "el_ok (els ! wf_param1 d)"
    and o: "ok ps (wf_data d) (wf_param1 d + 1, wf_param2 d)"
    and r: "rest (wf_state d) (wf_data d) (params d) = concat (map eb (drop (wf_param1 d) els))"
      "rest ps (wf_data d) (wf_param1 d + 1, wf_param2 d) = concat (map eb (drop (wf_param1 d + 1) els))"
    and k: "1 + rank ps (wf_data d) (wf_param1 d + 1, wf_param2 d) < rank (wf_state d) (wf_data d) (params d)"
  shows "advances m s"
proof -
  define c where "c = els ! wf_param1 d"
  define f where "f = \<lparr>wf_state = MessageElement_elementsize_w, wf_pop_state = ps,
      wf_limit = aw_pos s + unat (ElementSize (flds c)),
      wf_data = Write_element c, wf_param1 = 0, wf_param2 = 0\<rparr>"
  have sz: "unat (ElementSize (flds c)) = length (eb c)"
    using element_limit [OF v] by (simp add: c_def)
  have split: "rest (wf_state d) (wf_data d) (params d)
      = eb c @ rest ps (wf_data d) (wf_param1 d + 1, wf_param2 d)"
    unfolding r using i by (simp add: c_def Cons_nth_drop_Suc [symmetric])
  have "unat (ElementSize (flds c)) \<le> length (rest (wf_state d) (wf_data d) (params d))"
    by (simp add: sz split)
  note P = push_element_on [OF w i this [unfolded c_def], of ps, folded c_def f_def]
  show ?thesis
  proof (rule advances_push [OF w, of m f "d\<lparr>wf_param1 := wf_param1 d + 1\<rparr>"])
    show "ok (wf_state f) (wf_data f) (params f)"
      using v element_first by (simp add: f_def c_def params_def)
    show "wf_limit f = aw_pos s + length (rest (wf_state f) (wf_data f) (params f))"
      by (simp add: f_def sz rest_start del: rest.simps)
    show "rest (wf_state d) (wf_data d) (params d) = rest (wf_state f) (wf_data f) (params f)
        @ rest (wf_pop_state f) (wf_data d) (params (d\<lparr>wf_param1 := wf_param1 d + 1\<rparr>))"
      using split by (simp add: f_def rest_start params_def del: rest.simps)
  qed (use m P o k in \<open>simp_all add: f_def params_def\<close>)
qed

lemma advances_DO_POP:
  assumes w: "winv s" "aw_stack s = d # e # ds" and m: "m s = DO_POP_STATE_w s"
    and "rest (wf_state d) (wf_data d) (params d) = []" and "0 < rank (wf_state d) (wf_data d) (params d)"
  shows "advances m s"
  by (rule advances_pop [OF w])
    (use assms in \<open>simp_all add: DO_POP_STATE_w_def then_s_def bind_s_def pop_state_w_def continue_w_def return_s_def\<close>)

lemma advances_finish:
  assumes w: "winv s" "aw_stack s = d # e # ds" and m: "m s = step_finish_w what s"
    and r: "rest (wf_state d) (wf_data d) (params d) = []" and "0 < rank (wf_state d) (wf_data d) (params d)"
  shows "advances m s"
  using distance_from_limit_on [OF winv_top(2) [OF w]] r
  by (intro advances_DO_POP [OF w _ assms(4,5)]) (simp add: m step_finish_w_def bind_s_def)

text \<open>An array: from its storage, or through the work buffers when it is small.\<close>

lemma writearray1_advance:
  assumes w: "winv s" "aw_stack s = d # ds" and el: "wf_data d = Write_element el" "dat el = Some (ArrayData a)"
    and st: "wf_state d = MessageElement_writearray1_w" and m: "m s = step_MessageElement_writearray1_w s"
  shows "advances m s"
proof -
  define bs where "bs = array_bytes a"
  define fin where "fin = d\<lparr>wf_state := MessageElement_finishwritedata_w\<rparr>"
  have v: "el_ok el" and small: "length bs < 2147483648" using winv_top(1) [OF w] el st by (simp_all add: bs_def)
  have r: "rest (wf_state d) (wf_data d) (params d) = bs"
    by (simp add: el st data_bytes_def bs_def element_last common_defs)
  have fin: "wf_limit fin = wf_limit d" "wf_data fin = wf_data d" "wf_pop_state fin = wf_pop_state d"
      "ok (wf_state fin) (wf_data d) (params fin)" "rest (wf_state fin) (wf_data d) (params fin) = []"
      "rank (wf_state fin) (wf_data d) (params fin) < rank (wf_state d) (wf_data d) (params d)"
    using v by (simp_all add: fin_def el st common_defs)
  obtain k where k: "RRArrayElementSize (array_type a) = Inr k"
    using RRArrayElementSize_defined [of "array_type a"] type_group_array [of "array_type a"] by auto
  from small have n: "size_mul k (array_size a) = length bs"
    using array_bytes_length [OF k] by (simp add: bs_def mult.commute)
  have L': "bind_s distance_from_limit_w g s = g (length bs) s" for g :: "nat \<Rightarrow> write_step"
    by (simp add: bind_s_def distance_from_limit_on [OF winv_top(2) [OF w], unfolded r])
  note W = write_all_bytes_on [OF winv_top(2) [OF w], of bs, unfolded r, OF le_refl]
  have q: "length bs \<le> aw_quota_pos s - aw_pos s"
    using sees_limitD(3) [OF winv_top(2) [OF w]] r by simp
  have run: "m s = bind_s (if length bs \<le> 255 then write_all_bytes_w bs else return_s False) (\<lambda>ok.
      if ok then goto_w MessageElement_finishwritedata_w
      else then_s prepare_continue_w
        (bind_s quota_available_w (\<lambda>p. if length bs \<le> p
          then then_s (write_direct_w bs) (goto_w MessageElement_finishwritedata_w)
          else then_s (write_direct_w (take p bs))
            (then_s (push_state_w MessageElement_writearray2_w MessageElement_finishwritedata_w (length bs - p) (Write_array a) p (length bs))
               (return_s (Some WriteReturn_continue)))))) s"
    unfolding m step_MessageElement_writearray1_w_def R_on(1) [OF w(2) el(1)] el(2) option.case
      MessageElementData.case k bind_s_lift_Inr n Let_def bs_def [symmetric] L'
    by (simp only: less_irrefl if_False)
  show ?thesis
  proof (cases "length bs \<le> 255 \<and> length bs \<le> aw_room s")
    case True
    then have "m s = Inr (None, (put bs s)\<lparr>aw_stack := fin # ds\<rparr>)"
      using W w(2) by (simp add: run bind_s_def goto_on fin_def)
    then show ?thesis
      by (rule advances_top [where m = m and bs = bs, OF w _ _ fin(1-3)])
        (use fin r in \<open>auto simp: written_def\<close>)
  next
    case False
    define t where "t = s\<lparr>aw_work := [], aw_used := aw_size s - aw_room s, aw_bufs := (aw_bufs s @ aw_work s) @ bs,
      aw_pos := aw_pos s + length bs\<rparr>"
    define u where "u = s\<lparr>aw_bufs := aw_bufs s @ aw_work s, aw_work := [], aw_used := aw_size s - aw_room s\<rparr>"
    have lt: "aw_pos s + length bs < 4294967296" and le: "aw_pos s \<le> aw_quota_pos s" and lq: "aw_quota_pos s < 4294967296"
      using sees_limitD(3,5) [OF winv_top(2) [OF w]] r by simp_all
    have "(if length bs \<le> 255 then write_all_bytes_w bs else return_s False) s = Inr (False, s)"
      using False W by (auto simp: return_s_def)
    then have "m s = bind_s quota_available_w (\<lambda>p. if length bs \<le> p
          then then_s (write_direct_w bs) (goto_w MessageElement_finishwritedata_w)
          else then_s (write_direct_w (take p bs))
            (then_s (push_state_w MessageElement_writearray2_w MessageElement_finishwritedata_w (length bs - p) (Write_array a) p (length bs))
               (return_s (Some WriteReturn_continue)))) u"
      by (simp add: run bind_s_def then_s_def prepare_continue_w_def u_def)
    also have "\<dots> = then_s (write_direct_w bs) (goto_w MessageElement_finishwritedata_w) u"
      using q le lq by (simp add: bind_s_def quota_available_w_def size_sub_w_exact u_def)
    also have "\<dots> = goto_w MessageElement_finishwritedata_w t"
      using lt by (simp add: then_s_def bind_s_def write_direct_w_def u_def t_def)
    also have "\<dots> = Inr (None, t\<lparr>aw_stack := fin # ds\<rparr>)"
      using goto_on [of t d ds] w(2) by (simp add: t_def fin_def)
    finally have "m s = Inr (None, t\<lparr>aw_stack := fin # ds\<rparr>)" .
    moreover have "bs \<noteq> []" using False by auto
    ultimately show ?thesis
      by (intro advances_top [where m = m and bs = bs and d' = fin and s' = "t\<lparr>aw_stack := fin # ds\<rparr>", OF w _ _ fin(1-3)])
        (use fin r in \<open>auto simp: written_def t_def\<close>)
  qed
qed

end

text \<open>The steps of a version: the common states, and fields that advance.\<close>

locale object_steps = objects +
  fixes step :: write_step
  assumes step_common: "aw_stack s = d # ds \<Longrightarrow> wf_state d \<in> common_states \<Longrightarrow> step s = step_common_w (wf_state d) s"
    and fields_advance: "winv s \<Longrightarrow> aw_stack s = d # ds \<Longrightarrow> wf_state d \<notin> common_states \<Longrightarrow> advances step s"
    and header_states: "hok st h p \<Longrightarrow> st \<notin> common_states"
    and entry_states: "pieces_states (enp e) \<inter> common_states = {}"
    and element_states: "pieces_states (elp f) \<inter> common_states = {}"
begin

text \<open>The data of an element, by its type.\<close>

lemma element_data_advance:
  assumes w: "winv s" "aw_stack s = d # ds" and el: "wf_data d = Write_element el"
    and st: "wf_state d \<in> element_common"
  shows "advances step s"
proof -
  obtain f x where fx: "el = MessageElement f x" by (cases el)
  have o: "ok (wf_state d) (Write_element el) (params d)" using winv_top(1) [OF w] el by simp
  then have v: "el_ok el" by simp
  from winv_top(3) [OF w] obtain e es where ds: "ds = e # es" by (cases ds) (simp_all add: el)
  note w' = w(1) w(2) [unfolded ds]
  have step: "step s = step_common_w (wf_state d) s"
    using st by (intro step_common [OF w(2)]) (auto simp: common_defs)
  note pc = element_last common_defs
  consider (data) "wf_state d = MessageElement_writedata_w" | (array) "wf_state d = MessageElement_writearray1_w"
    | (nested) "wf_state d = MessageElement_writenested1_w" | (finish) "wf_state d = MessageElement_finishwritedata_w"
    using st by (auto simp: common_defs)
  then show ?thesis
  proof cases
    case data
    note simps = step step_MessageElement_writedata_w_def R_on(1) [OF w(2) el] fx el pc nested_count_def
    from element_cases [OF v [unfolded fx]]
    consider (Void) "type_group (ElementType f) = Group_void"
      | (Array) a where "x = Some (ArrayData a)" "ElementType f = array_type a" "length (array_bytes a) < 2147483648"
      | (Nested) tn es where "x = Some (NestedElementList (ElementType f) tn es)" "is_nested_type (ElementType f)" "\<forall>c \<in> set es. el_ok c"
      by blast
    then show ?thesis
    proof cases
      case Void
      from element_void [OF v [unfolded fx] Void] data Void show ?thesis
        by (intro advances_DO_POP [OF w']) (simp_all add: simps)
    next
      case (Array a)
      with data show ?thesis
        by (intro advances_skip [OF w, of _ MessageElement_writearray1_w]) (use v in \<open>simp_all add: simps\<close>)
    next
      case (Nested tn els)
      have "type_group (ElementType f) = Group_nested" using Nested(2) by (simp add: type_group_nested)
      with data Nested show ?thesis
        by (intro advances_skip [OF w, of _ MessageElement_writenested1_w]) (use v in \<open>simp_all add: simps\<close>)
    qed
  next
    case array
    then obtain a where "dat el = Some (ArrayData a)" using o by auto
    then show ?thesis by (rule writearray1_advance [OF w el _ array]) (simp add: step array)
  next
    case nested
    then obtain tn els where x: "x = Some (NestedElementList (ElementType f) tn els)" "is_nested_type (ElementType f)"
        "\<forall>c \<in> set els. el_ok c"
      using o by (auto simp: fx)
    define r where "r = concat (map eb els)"
    have rest: "rest (wf_state d) (wf_data d) (params d) = r"
      using x(1,2) by (simp add: nested el fx pc r_def data_bytes_def)
    define c where "c = \<lparr>wf_state = MessageElement_writenested2_w, wf_pop_state = MessageElement_finishwritedata_w,
      wf_limit = aw_pos s + length r, wf_data = Write_nested els, wf_param1 = 0, wf_param2 = 0\<rparr>"
    note L = distance_from_limit_on [OF winv_top(2) [OF w], unfolded rest]
    note P = push_state_w_on [OF winv_top(2) [OF w], unfolded rest, OF le_refl]
    have "step s = Inr (None, s\<lparr>aw_stack := c # d # ds\<rparr>)"
      using P by (simp add: step nested step_MessageElement_writenested1_w_def R_on(1) [OF w(2) el] fx x(1) then_s_def bind_s_def L
          continue_w_def return_s_def c_def)
    then show ?thesis
      by (rule advances_push [OF w])
        (use v x(2,3) rest in \<open>simp_all add: c_def params_def el nested fx x(1) nested_count_def r_def common_defs\<close>)
  next
    case finish
    then show ?thesis
      by (intro advances_finish [OF w', of _ "''Element did not write all data''"]) (simp_all add: step el)
  qed
qed

text \<open>The elements of an entry, and the end of the entry.\<close>

lemma entry_elements_advance:
  assumes w: "winv s" "aw_stack s = d # ds" and e: "wf_data d = Write_entry en"
    and st: "wf_state d \<in> entry_common"
  shows "advances step s"
proof -
  have o: "ok (wf_state d) (Write_entry en) (params d)" using winv_top(1) [OF w] e by simp
  then have v: "en_ok en" by (simp_all add: params_def)
  from winv_top(3) [OF w] obtain e' es where ds: "ds = e' # es" by (cases ds) (simp_all add: e)
  note w' = w(1) w(2) [unfolded ds]
  have step: "step s = step_common_w (wf_state d) s"
    using st by (intro step_common [OF w(2)]) (auto simp: common_defs)
  note defs = common_defs step R_on(2,5) [OF w(2)] R_on(2) [OF w(2) e]
  consider (loop) "wf_state d = MessageEntry_writeelements_w" | (push) "wf_state d = MessageElement_init_w"
    | (finish) "wf_state d = MessageEntry_finishwrite_w"
    using st by (auto simp: common_defs)
  then show ?thesis
  proof cases
    case loop
    show ?thesis
    proof (cases "wf_param1 d < length (elements en)")
      case True
      with loop show ?thesis
        by (intro advances_skip [OF w, of _ MessageElement_init_w])
          (use v in \<open>simp_all add: defs step_MessageEntry_writeelements_w_def e params_def\<close>)
    next
      case False
      with loop show ?thesis
        by (intro advances_skip [OF w, of _ MessageEntry_finishwrite_w])
          (use v in \<open>simp_all add: defs step_MessageEntry_writeelements_w_def e params_def\<close>)
    qed
  next
    case push
    then have i: "wf_param1 d < length (elements en)" using o by (simp add: params_def)
    then have "el_ok (elements en ! wf_param1 d)" using entry_elements [OF v] by simp
    then show ?thesis
      by (intro element_advance [OF w _ i, of _ MessageEntry_writeelements_w])
        (use v i push in \<open>simp_all add: defs e params_def\<close>)
  next
    case finish
    then show ?thesis
      by (intro advances_finish [OF w', of _ "''MessageEntry did not write all data''"]) (simp_all add: step e params_def)
  qed
qed

lemma nested_advance:
  assumes w: "winv s" "aw_stack s = d # ds" and es: "wf_data d = Write_nested els"
  shows "advances step s"
proof -
  have o: "wf_state d = MessageElement_writenested2_w" "\<forall>c \<in> set els. el_ok c"
    using winv_top(1) [OF w] es by simp_all
  from winv_top(3) [OF w] obtain e es' where ds: "ds = e # es'" by (cases ds) (simp_all add: es)
  have step: "step s = (if wf_param1 d \<ge> length els then DO_POP_STATE_w else push_element_w MessageElement_writenested2_w els) s"
    using step_common [OF w(2)] by (simp add: o common_defs step_MessageElement_writenested2_w_def R_on(7) [OF w(2)] es)
  show ?thesis
  proof (cases "wf_param1 d < length els")
    case True
    then have "el_ok (els ! wf_param1 d)" using o by simp_all
    then show ?thesis
      by (intro element_advance [OF w _ True, of _ MessageElement_writenested2_w])
        (use o True in \<open>simp_all add: step es params_def\<close>)
  next
    case False
    then show ?thesis
      by (intro advances_DO_POP [OF w(1) w(2) [unfolded ds]]) (simp_all add: step es params_def)
  qed
qed

text \<open>The message itself.\<close>

lemma message_advance:
  assumes w: "winv s" "aw_stack s = d # ds" and m: "wf_data d = Write_message m"
  shows "advances step s"
proof -
  have o: "ok (wf_state d) (Write_message m) (params d)" using winv_top(1) [OF w] m by simp
  then have v: "m_ok m" and st: "wf_state d \<in> message_states" by (simp_all add: params_def)
  have ds: "ds = []" using winv_top(3) [OF w] m by simp
  have step: "step s = step_common_w (wf_state d) s"
    using st by (intro step_common [OF w(2)]) (auto simp: common_defs)
  note defs = common_defs step R_on(4,5) [OF w(2)] R_on(4) [OF w(2) m]
  consider (init) "wf_state d = Message_init_w" | (head) "wf_state d = MessageHeader_init_w"
    | (loop) "wf_state d = Message_writeentries_w" | (push) "wf_state d = MessageEntry_init_w" | (end_of) "wf_state d = Message_done_w"
    using st by (auto simp: common_defs)
  then show ?thesis
  proof cases
    case init
    then show ?thesis
      by (intro advances_goto [OF w, of _ "d\<lparr>wf_param1 := 0, wf_state := MessageHeader_init_w\<rparr>"])
        (use v w in \<open>simp_all add: step step_Message_init_w_def ds m params_def set_param_goto_on common_defs\<close>)
  next
    case head
    from message_parts [OF v] obtain h where h: "header m = Some h" "hok MessageHeader_magic_w h (0, 0)"
        "hrest MessageHeader_magic_w h (0, 0) = hb h" "hrank MessageHeader_magic_w h (0, 0) = 1"
      and sz: "unat (HeaderSize h) = length (hb h)"
      and b: "mb m = hb h @ concat (map nb (entries m))" by blast
    define c where "c = \<lparr>wf_state = MessageHeader_magic_w, wf_pop_state = Message_writeentries_w,
      wf_limit = aw_pos s + length (hb h), wf_data = Write_header h, wf_param1 = 0, wf_param2 = 0\<rparr>"
    have rest: "rest (wf_state d) (wf_data d) (params d) = hb h @ concat (map nb (entries m))"
      by (simp add: m head params_def b)
    then have le: "length (hb h) \<le> length (rest (wf_state d) (wf_data d) (params d))" by simp
    note P = push_state_w_on [OF winv_top(2) [OF w] le, of MessageHeader_magic_w Message_writeentries_w "Write_header h" 0 0, folded c_def]
    have "goto_w MessageHeader_magic_w (s\<lparr>aw_stack := c # d # ds\<rparr>) = Inr (None, s\<lparr>aw_stack := c # d # ds\<rparr>)"
      using goto_on [of "s\<lparr>aw_stack := c # d # ds\<rparr>" c "d # ds" MessageHeader_magic_w] by (simp add: c_def)
    then have "step s = Inr (None, s\<lparr>aw_stack := c # d # ds\<rparr>)"
      using P by (simp add: defs head step_MessageHeader_init_w_def h(1) then_s_def bind_s_def sz)
    then show ?thesis
    proof (rule advances_push [OF w])
      show "ok (wf_state c) (wf_data c) (params c)"
        using h by (simp add: c_def params_def)
      show "rest (wf_state d) (wf_data d) (params d)
        = rest (wf_state c) (wf_data c) (params c) @ rest (wf_pop_state c) (wf_data d) (params d)"
        unfolding rest using o by (simp add: c_def params_def m head h)
      show "wf_limit c = aw_pos s + length (rest (wf_state c) (wf_data c) (params c))"
        by (simp add: c_def params_def h)
    qed (use v o h in \<open>simp_all add: c_def params_def m head common_defs\<close>)
  next
    case loop
    show ?thesis
    proof (cases "wf_param1 d < length (entries m)")
      case True
      with loop show ?thesis
        by (intro advances_skip [OF w, of _ MessageEntry_init_w])
          (use v in \<open>simp_all add: defs step_Message_writeentries_w_def m params_def\<close>)
    next
      case False
      with loop show ?thesis
        by (intro advances_skip [OF w, of _ Message_done_w])
          (use v in \<open>simp_all add: defs step_Message_writeentries_w_def m params_def\<close>)
    qed
  next
    case push
    define i where "i = wf_param1 d"
    define e where "e = entries m ! i"
    have i: "i < length (entries m)" using o push by (simp add: params_def i_def)
    then have "e \<in> set (entries m)" by (simp add: e_def)
    then have ve: "en_ok e" using message_entries [OF v] by simp
    note sz = entry_limit [OF ve]
    define d' where "d' = d\<lparr>wf_param1 := i + 1\<rparr>"
    define c where "c = \<lparr>wf_state = MessageEntry_entrysize_w, wf_pop_state = Message_writeentries_w,
      wf_limit = aw_pos s + length (nb e), wf_data = Write_entry e, wf_param1 = 0, wf_param2 = 0\<rparr>"
    have rest: "rest (wf_state d) (wf_data d) (params d) = nb e @ concat (map nb (drop (i + 1) (entries m)))"
      using i by (simp add: m push params_def i_def [symmetric] e_def Cons_nth_drop_Suc [symmetric])
    define t where "t = s\<lparr>aw_stack := d' # ds\<rparr>"
    have "sees_limit t d' ds (length (rest (wf_state d) (wf_data d) (params d)))"
      using winv_top(2) [OF w] by (simp add: sees_limit_def t_def d'_def split: if_splits)
    moreover have "length (nb e) \<le> length (rest (wf_state d) (wf_data d) (params d))" by (simp add: rest)
    ultimately have P: "push_state_w MessageEntry_entrysize_w Message_writeentries_w (length (nb e)) (Write_entry e) 0 0 t
        = Inr ((), s\<lparr>aw_stack := c # d' # ds\<rparr>)"
      using push_state_w_on [of t d' ds] by (simp add: c_def t_def)
    have "step s = then_s (push_state_w MessageEntry_entrysize_w Message_writeentries_w (unat (EntrySize e)) (Write_entry e) 0 0)
       continue_w t"
    proof -
      have "step s = step_MessageEntry_init_w s" by (simp add: step push)
      then show ?thesis
        unfolding step_MessageEntry_init_w_def R_on(4) [OF w(2) m] R_on(5) [OF w(2)]
        using i by (simp add: i_def [symmetric] e_def [symmetric] then_s_def bind_s_def
          set_param1_w_def upd_top_w_def w(2) t_def d'_def)
    qed
    then have "step s = Inr (None, s\<lparr>aw_stack := c # d' # ds\<rparr>)"
      using P by (simp add: sz then_s_def bind_s_def continue_w_def return_s_def)
    then show ?thesis
    proof (rule advances_push [OF w])
      show "ok (wf_state c) (wf_data c) (params c)"
        using ve entry_first by (simp add: c_def params_def)
      show "rest (wf_state d) (wf_data d) (params d)
        = rest (wf_state c) (wf_data c) (params c) @ rest (wf_pop_state c) (wf_data d) (params d')"
        unfolding rest by (simp add: c_def params_def rest_start m d'_def del: rest.simps(3))
      show "wf_limit c = aw_pos s + length (rest (wf_state c) (wf_data c) (params c))"
        by (simp add: c_def params_def rest_start del: rest.simps)
    qed (use v i in \<open>simp_all add: c_def params_def m push d'_def i_def common_defs\<close>)
  next
    case end_of
    then have r: "rest (wf_state d) (wf_data d) (params d) = []" by (simp add: m params_def)
    have "remains s = []" by (simp add: remains_def w(2) r ds)
    moreover obtain x t where "step s = Inr (Some x, t)" "x \<noteq> WriteReturn_continue"
      "t = s\<lparr>aw_bufs := aw_bufs s @ aw_work s, aw_work := [], aw_used := aw_size s - aw_room s\<rparr>"
      using distance_from_limit_on [OF winv_top(2) [OF w], unfolded r]
      by (auto simp: step end_of step_Message_done_w_def bind_s_def then_s_def prepare_continue_w_def split: if_splits)
    ultimately show ?thesis
      using w(1) by (auto simp: advances_def winv_def idle_def written_def remains_def)
  qed
qed

lemma steps_advance:
  assumes "winv s"
  shows "advances step s"
proof -
  obtain d ds where w: "aw_stack s = d # ds" using assms by (cases "aw_stack s") (auto simp: winv_def idle_def)
  note w = assms w
  note o = winv_top(1) [OF w]
  show ?thesis
  proof (cases "wf_state d \<in> common_states")
    case True
    then show ?thesis
    proof (cases "wf_data d")
      case (Write_message m)
      then show ?thesis by (rule message_advance [OF w])
    next
      case (Write_header h)
      then show ?thesis using o header_states True by auto
    next
      case (Write_entry e)
      moreover from this have "wf_state d \<in> entry_common"
        using o entry_states [of e] True by (auto simp: params_def)
      ultimately show ?thesis by (rule entry_elements_advance [OF w])
    next
      case (Write_element el)
      moreover from this have "wf_state d \<in> element_common"
        using o element_states [of "flds el"] True by auto
      ultimately show ?thesis by (rule element_data_advance [OF w])
    next
      case (Write_array a)
      then show ?thesis using o by simp
    next
      case (Write_nested es)
      then show ?thesis by (rule nested_advance [OF w])
    next
      case (Write_string str)
      then have st: "wf_state d = Header_writestring_w" using o by (simp add: params_def)
      show ?thesis
        using step_common [OF w(2)] by (intro advances_writestring [OF w st Write_string]) (simp add: st common_defs)
    qed
  qed (rule fields_advance [OF w])
qed

end

sublocale object_steps \<subseteq> message_writer rest rank ok B step
  by unfold_locales (rule steps_advance)

text \<open>Room for the longest field that is written in one piece.\<close>

locale room_for_fields =
  fixes B :: nat
  assumes room_B: "16 \<le> B"

end
