(* ===== verification/RR_AsyncWriter4_Laws.thy ===== *)
theory RR_AsyncWriter4_Laws
  imports RR_AsyncWriter_Objects RR_Message4_Laws
begin

text \<open>
  The resumable writer on messages of format version 4: the fields of the objects, and that the states
  of \<open>Write4\<close> write them one after the other.
\<close>

section \<open>The fields of version 4\<close>

definition element_pieces4 :: "element_fields \<Rightarrow> pieces" where
  "element_pieces4 f =
     (let fl = flag_set (ElementFlags f) in
      [(MessageElement_elementsize_w, uintx_bytes (ElementSize f)),
       (MessageElement_elementflags_w, num_bytes (ElementFlags f)),
       (MessageElement_elementnamestr_w,
          if fl MessageElementFlags_ELEMENT_NAME_STR then xstring_bytes (ElementName f) else []),
       (MessageElement_elementnamecode_w,
          if fl MessageElementFlags_ELEMENT_NAME_CODE then uintx_bytes (ElementNameCode f) else []),
       (MessageElement_elementnumber_w,
          if fl MessageElementFlags_ELEMENT_NUMBER then intx_bytes (ElementNumber f) else []),
       (MessageElement_elementtype_w, num_bytes (DataTypes_code (ElementType f))),
       (MessageElement_elementtypestr_w,
          if fl MessageElementFlags_ELEMENT_TYPE_NAME_STR then xstring_bytes (ElementTypeName f) else []),
       (MessageElement_elementtypecode_w,
          if fl MessageElementFlags_ELEMENT_TYPE_NAME_CODE then uintx_bytes (ElementTypeNameCode f) else []),
       (MessageElement_metainfo_w,
          if fl MessageElementFlags_META_INFO then xstring_bytes (ElementMetaData f) else []),
       (MessageElement_extended1_w,
          if fl MessageElementFlags_EXTENDED then uintx_bytes (of_nat (length (ElementExtended f))) else []),
       (MessageElement_extended2_w,
          if fl MessageElementFlags_EXTENDED then ElementExtended f else []),
       (MessageElement_datacount_w, uintx_bytes (DataCount f))])"

definition entry_pieces4 :: "message_entry \<Rightarrow> pieces" where
  "entry_pieces4 e =
     (let fl = flag_set (EntryFlags e) in
      [(MessageEntry_entrysize_w, uintx_bytes (EntrySize e)),
       (MessageEntry_entryflags_w, num_bytes (EntryFlags e)),
       (MessageEntry_entrytype_w, num_bytes (EntryType e)),
       (MessageEntry_servicepathstr_w,
          if fl MessageEntryFlags_SERVICE_PATH_STR then xstring_bytes (ServicePath e) else []),
       (MessageEntry_servicepathcode_w,
          if fl MessageEntryFlags_SERVICE_PATH_CODE then uintx_bytes (ServicePathCode e) else []),
       (MessageEntry_membernamestr_w,
          if fl MessageEntryFlags_MEMBER_NAME_STR then xstring_bytes (MemberName e) else []),
       (MessageEntry_membernamecode_w,
          if fl MessageEntryFlags_MEMBER_NAME_CODE then uintx_bytes (MemberNameCode e) else []),
       (MessageEntry_requestid_w, if fl MessageEntryFlags_REQUEST_ID then uintx_bytes (RequestID e) else []),
       (MessageEntry_error_w, if fl MessageEntryFlags_ERROR then num_bytes (EntryError e) else []),
       (MessageEntry_metainfo_w, if fl MessageEntryFlags_META_INFO then xstring_bytes (EntryMetaData e) else []),
       (MessageEntry_extended1_w,
          if fl MessageEntryFlags_EXTENDED then uintx_bytes (of_nat (length (EntryExtended e))) else []),
       (MessageEntry_extended2_w, if fl MessageEntryFlags_EXTENDED then EntryExtended e else []),
       (MessageEntry_elementcount_w, uintx_bytes (of_nat (length (elements e))))])"

definition table_entry_bytes :: "32 word \<times> string \<Rightarrow> byte list" where
  "table_entry_bytes cv = uintx_bytes (fst cv) @ xstring_bytes (snd cv)"

definition header_pieces4 :: "message_header \<Rightarrow> pieces" where
  "header_pieces4 h =
     (let fl = flag_set (MessageFlags h); ri = fl MessageFlags_ROUTING_INFO; ei = fl MessageFlags_ENDPOINT_INFO;
          mi = fl MessageFlags_META_INFO; st = fl MessageFlags_STRING_TABLE; ex = fl MessageFlags_EXTENDED in
      [(MessageHeader_magic_w, bytes_of_string ''RRAC''),
       (MessageHeader_messagesize_w, num_bytes (MessageSize h)),
       (MessageHeader_version_w, num_bytes (4 :: 16 word)),
       (MessageHeader_headersize_w, uintx_bytes (HeaderSize h)),
       (MessageHeader_flags_w, num_bytes (MessageFlags h)),
       (MessageHeader_routing1_w, if ri then concat (map num_bytes (SenderNodeID h)) else []),
       (MessageHeader_routing2_w, if ri then concat (map num_bytes (ReceiverNodeID h)) else []),
       (MessageHeader_routing3_w, if ri then xstring_bytes (SenderNodeName h) else []),
       (MessageHeader_routing4_w, if ri then xstring_bytes (ReceiverNodeName h) else []),
       (MessageHeader_endpoint1_w, if ei then uintx_bytes (SenderEndpoint h) else []),
       (MessageHeader_endpoint2_w, if ei then uintx_bytes (ReceiverEndpoint h) else []),
       (MessageHeader_priority_w, if fl MessageFlags_PRIORITY then num_bytes (Priority h) else []),
       (MessageHeader_metainfo_w, if mi then xstring_bytes (HeaderMetaData h) else []),
       (MessageHeader_messageid1_w, if mi then num_bytes (MessageID h) else []),
       (MessageHeader_messageid2_w, if mi then num_bytes (MessageResID h) else []),
       (MessageHeader_stringtable1_w, if st then uintx_bytes (of_nat (length (StringTable h))) else []),
       (MessageHeader_stringtable2_w, if st then concat (map table_entry_bytes (StringTable h)) else []),
       (MessageHeader_stringtable3_w, []),
       (MessageHeader_entrycount_w,
          if fl MessageFlags_MULTIPLE_ENTRIES then uintx_bytes (ucast (EntryCount h)) else []),
       (MessageHeader_extended1_w, if ex then uintx_bytes (of_nat (length (HeaderExtended h))) else []),
       (MessageHeader_extended2_w, if ex then HeaderExtended h else [])])"

lemma table_entry_bytes_eq: "table_entry_bytes = (\<lambda>(c, v). uintx_bytes c @ xstring_bytes v)"
  by (simp add: fun_eq_iff table_entry_bytes_def)

lemma element_pieces4_bytes: "piece_bytes (element_pieces4 f) = element4_head_bytes f"
  by (simp add: element_pieces4_def element4_head_bytes_def element4_fields_bytes_def extended_bytes_def Let_def)

lemma entry_pieces4_bytes:
  "piece_bytes (entry_pieces4 e) @ concat (map element4_bytes (elements e)) = entry4_bytes e"
  by (simp add: entry_pieces4_def entry4_bytes_def entry4_fields_bytes_def extended_bytes_def Let_def)

lemma header_pieces4_bytes: "piece_bytes (header_pieces4 h) = header4_bytes h"
  by (simp add: header_pieces4_def header4_bytes_def header4_fields_bytes_def extended_bytes_def Let_def
      StringTable_bytes_def table_entry_bytes_eq)

text \<open>Extended fields are written in one piece, so that they must fit into the work buffers.\<close>

fun element_fits :: "nat \<Rightarrow> MessageElement \<Rightarrow> bool" where
  "element_fits B (MessageElement f d) \<longleftrightarrow>
     length (ElementExtended f) \<le> B
     \<and> (case d of Some (NestedElementList t tn es) \<Rightarrow> list_all (element_fits B) es | _ \<Rightarrow> True)"

definition entry_fits :: "nat \<Rightarrow> message_entry \<Rightarrow> bool" where
  "entry_fits B e \<longleftrightarrow> length (EntryExtended e) \<le> B \<and> list_all (element_fits B) (elements e)"

definition message_fits :: "nat \<Rightarrow> message \<Rightarrow> bool" where
  "message_fits B m \<longleftrightarrow>
     (case header m of Some h \<Rightarrow> length (HeaderExtended h) \<le> B | None \<Rightarrow> True) \<and> list_all (entry_fits B) (entries m)"

definition el_ok4 :: "nat \<Rightarrow> MessageElement \<Rightarrow> bool" where
  "el_ok4 B el \<longleftrightarrow> valid_element4 el \<and> element_fits B el"

definition elx4 :: "write_state \<Rightarrow> MessageElement \<Rightarrow> bool" where
  "elx4 st el \<longleftrightarrow>
     (st = MessageElement_extended2_w \<longrightarrow> flag_set (ElementFlags (flds el)) MessageElementFlags_EXTENDED)"

definition en_ok4 :: "nat \<Rightarrow> message_entry \<Rightarrow> bool" where
  "en_ok4 B e \<longleftrightarrow> valid_entry4 e \<and> entry_fits B e"

definition enx4 :: "write_state \<Rightarrow> message_entry \<Rightarrow> bool" where
  "enx4 st e \<longleftrightarrow> (st = MessageEntry_extended2_w \<longrightarrow> flag_set (EntryFlags e) MessageEntryFlags_EXTENDED)"

text \<open>The header; its string table is written entry by entry.\<close>

fun hrest4 :: "write_state \<Rightarrow> message_header \<Rightarrow> params \<Rightarrow> byte list" where
  "hrest4 st h (i, j) =
     (if st = MessageHeader_stringtable2_w
      then concat (map table_entry_bytes (drop i (StringTable h))) @ piece_bytes (since MessageHeader_entrycount_w (header_pieces4 h))
      else if st = MessageHeader_stringtable3_w
      then xstring_bytes (snd (StringTable h ! j)) @ concat (map table_entry_bytes (drop i (StringTable h)))
        @ piece_bytes (since MessageHeader_entrycount_w (header_pieces4 h))
      else piece_bytes (since st (header_pieces4 h)))"

definition hrank4 :: "write_state \<Rightarrow> message_header \<Rightarrow> params \<Rightarrow> nat" where
  "hrank4 st h p = (if st = MessageHeader_magic_w then 1 else length (since st (header_pieces4 h)) + 1)"

fun hok4 :: "nat \<Rightarrow> write_state \<Rightarrow> message_header \<Rightarrow> params \<Rightarrow> bool" where
  "hok4 B st h (i, j) \<longleftrightarrow>
     valid_header4 h \<and> length (HeaderExtended h) \<le> B \<and> st \<in> pieces_states (header_pieces4 h)
     \<and> (st \<in> {MessageHeader_routing2_w, MessageHeader_routing3_w, MessageHeader_routing4_w}
        \<longrightarrow> flag_set (MessageFlags h) MessageFlags_ROUTING_INFO)
     \<and> (st = MessageHeader_endpoint2_w \<longrightarrow> flag_set (MessageFlags h) MessageFlags_ENDPOINT_INFO)
     \<and> (st \<in> {MessageHeader_messageid1_w, MessageHeader_messageid2_w}
        \<longrightarrow> flag_set (MessageFlags h) MessageFlags_META_INFO)
     \<and> (st = MessageHeader_extended2_w \<longrightarrow> flag_set (MessageFlags h) MessageFlags_EXTENDED)
     \<and> (st = MessageHeader_stringtable2_w \<longrightarrow> flag_set (MessageFlags h) MessageFlags_STRING_TABLE \<and> i \<le> length (StringTable h))
     \<and> (st = MessageHeader_stringtable3_w
        \<longrightarrow> flag_set (MessageFlags h) MessageFlags_STRING_TABLE \<and> j < length (StringTable h) \<and> i = j + 1)"

lemma data_bytes4: "data_bytes element4_bytes = element4_data_bytes"
  by (simp add: fun_eq_iff data_bytes_def element4_data_bytes_def)

lemma element_cases4:
  assumes "valid_element4 (MessageElement f x)" and "element_fits B (MessageElement f x)"
  shows "type_group (ElementType f) = Group_void \<and> element4_data_bytes x = []
      \<or> (\<exists>a. x = Some (ArrayData a) \<and> ElementType f = array_type a \<and> length (array_bytes a) < 2147483648)
      \<or> (\<exists>tn es. x = Some (NestedElementList (ElementType f) tn es) \<and> is_nested_type (ElementType f) \<and> (\<forall>c \<in> set es. el_ok4 B c))"
proof -
  from assms(1) have fix4: "MessageElement_UpdateData4 (MessageElement f x) = Inr (MessageElement f x)"
    by (simp add: valid_element4_def)
  then show ?thesis
  proof (cases rule: fixed_data_cases4)
    case Void
    then show ?thesis by blast
  next
    case (Array a)
    then show ?thesis using assms(1) by (auto simp: valid_element4_def)
  next
    case (Nested tn es)
    have "\<forall>c \<in> set es. el_ok4 B c"
      using valid_element4_children [OF assms(1) [unfolded Nested(1)] Nested(2)] assms(2) Nested(1)
      by (auto simp: list_all_iff el_ok4_def)
    with Nested show ?thesis by blast
  qed
qed

lemma header_size4: "valid_header4 h \<Longrightarrow> unat (HeaderSize h) = length (header4_bytes h)"
  by (rule header4_size(1))

sublocale room_for_fields \<subseteq> w4: objects element_pieces4 elx4 element4_bytes "el_ok4 B" entry_pieces4 enx4 entry4_bytes "en_ok4 B"
  hrest4 hrank4 "hok4 B" header4_bytes message4_bytes "\<lambda>m. valid_message4 m \<and> message_fits B m" B
proof (unfold_locales, goal_cases)
  case 1
  show ?case by (rule room_B)
next
  case (2 f x)
  show ?case by (simp add: data_bytes4 element_pieces4_bytes element4_bytes_split del: element4_bytes.simps)
next
  case (3 f)
  show ?case by (simp add: element_pieces4_def Let_def)
next
  case (4 el)
  show ?case by (simp add: elx4_def)
next
  case (5 f)
  show ?case by (simp add: element_pieces4_def Let_def pieces_states_def)
next
  case (6 st f)
  then show ?case by (auto simp: element_pieces4_def Let_def common_defs)
next
  case (7 el)
  then show ?case using element4.bytecount by (simp add: el_ok4_def)
next
  case (8 f x)
  then show ?case
    using element_cases4 [of f x B] type_group_nested [of "ElementType f"] by (auto simp: data_bytes4 el_ok4_def)
next
  case (9 f x)
  then show ?case using element_cases4 [of f x B] unfolding el_ok4_def by blast
next
  case (10 e)
  show ?case by (simp add: entry_pieces4_bytes)
next
  case (11 e)
  show ?case by (simp add: entry_pieces4_def Let_def)
next
  case (12 e)
  show ?case by (simp add: enx4_def)
next
  case (13 e)
  show ?case by (simp add: entry_pieces4_def Let_def pieces_states_def)
next
  case (14 e)
  then show ?case using entry4_size(1) by (simp add: en_ok4_def)
next
  case (15 e c)
  then show ?case
    using valid_entry4_elements [of e c] by (auto simp: en_ok4_def el_ok4_def entry_fits_def list_all_iff)
next
  case (16 m)
  then obtain h where h: "header m = Some h" "valid_header4 h" using valid_message4_parts by blast
  have "since MessageHeader_magic_w (header_pieces4 h) = header_pieces4 h" "MessageHeader_magic_w \<in> pieces_states (header_pieces4 h)"
    by (simp_all add: header_pieces4_def Let_def pieces_states_def)
  with h 16 header4_size(1) [OF h(2)] show ?case
    by (simp add: hrank4_def header_pieces4_bytes message_fits_def)
next
  case (17 m e)
  then show ?case using valid_message4_parts [of m] by (auto simp: en_ok4_def message_fits_def list_all_iff)
qed

section \<open>The steps\<close>

lemma write_string4_eq:
  "length str < 4294967296 \<Longrightarrow> write_string4_w str nxt =
   bind_s (write_all_bytes_w (uintx_bytes (of_nat (length str))))
     (\<lambda>ok. if \<not> ok then return_s False else write_string_body_w str nxt)"
  by (simp add: write_string4_w_def write_uint_x_eq)

lemma element_fields4_step:
  assumes "wf_state d \<in> pieces_states (element_pieces4 (flds el))"
    and "aw_stack s = d # ds" and "wf_data d = Write_element el"
  shows "step4_w s = step4_element_w (wf_state d) s"
proof -
  from assms(1) consider "wf_state d = MessageElement_elementsize_w" | "wf_state d = MessageElement_elementflags_w"
    | "wf_state d = MessageElement_elementnamestr_w" | "wf_state d = MessageElement_elementnamecode_w"
    | "wf_state d = MessageElement_elementnumber_w" | "wf_state d = MessageElement_elementtype_w"
    | "wf_state d = MessageElement_elementtypestr_w" | "wf_state d = MessageElement_elementtypecode_w"
    | "wf_state d = MessageElement_metainfo_w" | "wf_state d = MessageElement_extended1_w"
    | "wf_state d = MessageElement_extended2_w" | "wf_state d = MessageElement_datacount_w"
    by (auto simp: pieces_states_def element_pieces4_def Let_def)
  then show ?thesis using assms(2) by cases (simp_all add: step4_w_def bind_s_def top_frame_w_def)
qed

lemma StringTable_length: "length (StringTable h) \<le> length (StringTable_bytes (StringTable h))"
proof -
  have "length t \<le> length (concat (map (\<lambda>(c, v). uintx_bytes c @ xstring_bytes v) t))" for t
  proof (induction t)
    case (Cons cv t)
    then show ?case using GetUintXByteCount_bounds(1) [of "fst cv"] by (cases cv) simp
  qed simp
  then show ?thesis by (simp add: StringTable_bytes_def trans_le_add2)
qed

lemma StringTable_string_length:
  assumes "i < length (StringTable h)"
  shows "length (snd (StringTable h ! i)) \<le> length (StringTable_bytes (StringTable h))"
proof -
  have "length (snd cv) \<le> length (concat (map (\<lambda>(c, v). uintx_bytes c @ xstring_bytes v) t))" if "cv \<in> set t" for cv t
    using that by (induction t) auto
  from this [OF nth_mem [OF assms]] show ?thesis by (simp add: StringTable_bytes_def)
qed

context room_for_fields begin

text \<open>The states before the data of an element.\<close>

lemma element_fields4_advance:
  assumes w: "w4.winv s" "aw_stack s = d # ds" and el: "wf_data d = Write_element el"
    and st: "wf_state d \<in> pieces_states (element_pieces4 (flds el))"
  shows "w4.advances (step4_element_w (wf_state d)) s"
proof -
  obtain f x where fx: "el = MessageElement f x" by (cases el)
  define fl where "fl = ElementFlags f"
  have v: "valid_element4 el" "element_fits B el"
    and x2: "wf_state d = MessageElement_extended2_w \<Longrightarrow> bit fl 7"
    using w4.winv_top(1) [OF w] el st by (auto simp: fx fl_def el_ok4_def elx4_def common_defs)
  have small: "length (element4_head_bytes f) < 2147483648"
    using v(1) by (simp add: valid_element4_def fx element4_bytes_split del: element4_bytes.simps)
  have len: "bit (ElementFlags f) 0 \<Longrightarrow> length (ElementName f) < 4294967296"
    "bit (ElementFlags f) 3 \<Longrightarrow> length (ElementTypeName f) < 4294967296"
    "bit (ElementFlags f) 5 \<Longrightarrow> length (ElementMetaData f) < 4294967296"
    "bit (ElementFlags f) 7 \<Longrightarrow> length (ElementExtended f) < 4294967296"
    using head4_lengths [OF small] by force+
  note defs = R_element_w_def element_when_w_def R_on(1) [OF w(2) el] fx write_uint_x_eq write_int_x_eq write_number_w_def
    write_string4_eq
  note data = el fx element_pieces4_def Let_def pieces_states_def w4.piece_lengths el_ok4_def elx4_def common_defs xstring_bytes_def
  show ?thesis
  proof (cases "wf_state d")
    case MessageElement_elementsize_w
    then show ?thesis
      by (intro w4.advances_when [OF w, of _ True "uintx_bytes (ElementSize f)" MessageElement_elementflags_w])
        (use v x2 in \<open>simp_all add: defs data fl_def\<close>)
  next
    case MessageElement_elementflags_w
    then show ?thesis
      by (intro w4.advances_when [OF w, of _ True "num_bytes (ElementFlags f)" MessageElement_elementnamestr_w])
        (use v x2 in \<open>simp_all add: defs data fl_def\<close>)
  next
    case MessageElement_elementnamestr_w
    then show ?thesis
      by (intro w4.advances_when_string [OF w, of _ "bit fl 0" "uintx_bytes (of_nat (length (ElementName f)))" "ElementName f" MessageElement_elementnamecode_w])
        (use v x2 len in \<open>simp_all add: defs data fl_def\<close>)
  next
    case MessageElement_elementnamecode_w
    then show ?thesis
      by (intro w4.advances_when [OF w, of _ "bit fl 1" "uintx_bytes (ElementNameCode f)" MessageElement_elementnumber_w])
        (use v x2 in \<open>simp_all add: defs data fl_def\<close>)
  next
    case MessageElement_elementnumber_w
    then show ?thesis
      by (intro w4.advances_when [OF w, of _ "bit fl 2" "intx_bytes (ElementNumber f)" MessageElement_elementtype_w])
        (use v x2 in \<open>simp_all add: defs data fl_def\<close>)
  next
    case MessageElement_elementtype_w
    then show ?thesis
      by (intro w4.advances_when [OF w, of _ True "num_bytes (DataTypes_code (ElementType f))" MessageElement_elementtypestr_w])
        (use v x2 in \<open>simp_all add: defs data fl_def\<close>)
  next
    case MessageElement_elementtypestr_w
    then show ?thesis
      by (intro w4.advances_when_string [OF w, of _ "bit fl 3" "uintx_bytes (of_nat (length (ElementTypeName f)))" "ElementTypeName f" MessageElement_elementtypecode_w])
        (use v x2 len in \<open>simp_all add: defs data fl_def\<close>)
  next
    case MessageElement_elementtypecode_w
    then show ?thesis
      by (intro w4.advances_when [OF w, of _ "bit fl 4" "uintx_bytes (ElementTypeNameCode f)" MessageElement_metainfo_w])
        (use v x2 in \<open>simp_all add: defs data fl_def\<close>)
  next
    case MessageElement_metainfo_w
    then show ?thesis
      by (intro w4.advances_when_string [OF w, of _ "bit fl 5" "uintx_bytes (of_nat (length (ElementMetaData f)))" "ElementMetaData f" MessageElement_extended1_w])
        (use v x2 len in \<open>simp_all add: defs data fl_def\<close>)
  next
    case MessageElement_extended1_w
    then show ?thesis
    proof (cases "bit fl 7")
      case True
      with MessageElement_extended1_w show ?thesis
        by (intro w4.advances_write [OF w, of _ "uintx_bytes (of_nat (length (ElementExtended f)))" MessageElement_extended2_w])
          (use v len in \<open>simp_all add: defs data fl_def\<close>)
    next
      case False
      with MessageElement_extended1_w show ?thesis
        by (intro w4.advances_skip [OF w, of _ MessageElement_datacount_w]) (use v in \<open>simp_all add: defs data fl_def\<close>)
    qed
  next
    case MessageElement_extended2_w
    then show ?thesis
      by (intro w4.advances_R_piece [OF w, of _ "ElementExtended f" MessageElement_datacount_w])
        (use v x2 in \<open>simp_all add: defs data fl_def write_extended_eq\<close>)
  next
    case MessageElement_datacount_w
    then show ?thesis
      by (intro w4.advances_when [OF w, of _ True "uintx_bytes (DataCount f)" MessageElement_writedata_w])
        (use v x2 in \<open>simp_all add: defs data fl_def\<close>)
  qed (use st in \<open>simp_all add: data\<close>)
qed

lemma entry_fields4_advance:
  assumes w: "w4.winv s" "aw_stack s = d # ds" and e: "wf_data d = Write_entry e"
    and st: "wf_state d \<in> pieces_states (entry_pieces4 e)"
  shows "w4.advances (step4_entry_w (wf_state d)) s"
proof -
  define fl where "fl = EntryFlags e"
  have v: "valid_entry4 e" "entry_fits B e"
    and x2: "wf_state d = MessageEntry_extended2_w \<Longrightarrow> bit fl 7"
    using w4.winv_top(1) [OF w] e st by (auto simp: params_def fl_def en_ok4_def enx4_def common_defs)
  have small: "length (entry4_bytes e) < 2147483648" using v(1) by (simp add: valid_entry4_def)
  have count: "length (elements e) < 4294967296" using entry4_count [OF small] by simp
  have len: "bit (EntryFlags e) 0 \<Longrightarrow> length (ServicePath e) < 4294967296"
    "bit (EntryFlags e) 2 \<Longrightarrow> length (MemberName e) < 4294967296"
    "bit (EntryFlags e) 6 \<Longrightarrow> length (EntryMetaData e) < 4294967296"
    "bit (EntryFlags e) 7 \<Longrightarrow> length (EntryExtended e) < 4294967296"
    using entry4_lengths [of e] small by (force simp: entry4_bytes_def)+
  note defs = R_entry_w_def entry_when_w_def R_on(2) [OF w(2) e] write_uint_x_eq write_number_w_def write_string4_eq
  note data = e entry_pieces4_def Let_def pieces_states_def w4.piece_lengths en_ok4_def enx4_def common_defs xstring_bytes_def params_def
  show ?thesis
  proof (cases "wf_state d")
    case MessageEntry_entrysize_w
    then show ?thesis
      by (intro w4.advances_when [OF w, of _ True "uintx_bytes (EntrySize e)" MessageEntry_entryflags_w])
        (use v x2 in \<open>simp_all add: defs data fl_def\<close>)
  next
    case MessageEntry_entryflags_w
    then show ?thesis
      by (intro w4.advances_when [OF w, of _ True "num_bytes (EntryFlags e)" MessageEntry_entrytype_w])
        (use v x2 in \<open>simp_all add: defs data fl_def\<close>)
  next
    case MessageEntry_entrytype_w
    then show ?thesis
      by (intro w4.advances_when [OF w, of _ True "num_bytes (EntryType e)" MessageEntry_servicepathstr_w])
        (use v x2 in \<open>simp_all add: defs data fl_def\<close>)
  next
    case MessageEntry_servicepathstr_w
    then show ?thesis
      by (intro w4.advances_when_string [OF w, of _ "bit fl 0" "uintx_bytes (of_nat (length (ServicePath e)))" "ServicePath e" MessageEntry_servicepathcode_w])
        (use v x2 len in \<open>simp_all add: defs data fl_def\<close>)
  next
    case MessageEntry_servicepathcode_w
    then show ?thesis
      by (intro w4.advances_when [OF w, of _ "bit fl 1" "uintx_bytes (ServicePathCode e)" MessageEntry_membernamestr_w])
        (use v x2 in \<open>simp_all add: defs data fl_def\<close>)
  next
    case MessageEntry_membernamestr_w
    then show ?thesis
      by (intro w4.advances_when_string [OF w, of _ "bit fl 2" "uintx_bytes (of_nat (length (MemberName e)))" "MemberName e" MessageEntry_membernamecode_w])
        (use v x2 len in \<open>simp_all add: defs data fl_def\<close>)
  next
    case MessageEntry_membernamecode_w
    then show ?thesis
      by (intro w4.advances_when [OF w, of _ "bit fl 3" "uintx_bytes (MemberNameCode e)" MessageEntry_requestid_w])
        (use v x2 in \<open>simp_all add: defs data fl_def\<close>)
  next
    case MessageEntry_requestid_w
    then show ?thesis
      by (intro w4.advances_when [OF w, of _ "bit fl 4" "uintx_bytes (RequestID e)" MessageEntry_error_w])
        (use v x2 in \<open>simp_all add: defs data fl_def\<close>)
  next
    case MessageEntry_error_w
    then show ?thesis
      by (intro w4.advances_when [OF w, of _ "bit fl 5" "num_bytes (EntryError e)" MessageEntry_metainfo_w])
        (use v x2 in \<open>simp_all add: defs data fl_def\<close>)
  next
    case MessageEntry_metainfo_w
    then show ?thesis
      by (intro w4.advances_when_string [OF w, of _ "bit fl 6" "uintx_bytes (of_nat (length (EntryMetaData e)))" "EntryMetaData e" MessageEntry_extended1_w])
        (use v x2 len in \<open>simp_all add: defs data fl_def\<close>)
  next
    case MessageEntry_extended1_w
    then show ?thesis
    proof (cases "bit fl 7")
      case True
      with MessageEntry_extended1_w show ?thesis
        by (intro w4.advances_write [OF w, of _ "uintx_bytes (of_nat (length (EntryExtended e)))" MessageEntry_extended2_w])
          (use v len in \<open>simp_all add: defs data fl_def\<close>)
    next
      case False
      with MessageEntry_extended1_w show ?thesis
        by (intro w4.advances_skip [OF w, of _ MessageEntry_elementcount_w]) (use v in \<open>simp_all add: defs data fl_def\<close>)
    qed
  next
    case MessageEntry_extended2_w
    then show ?thesis
      by (intro w4.advances_R_piece [OF w, of _ "EntryExtended e" MessageEntry_elementcount_w])
        (use v x2 in \<open>simp_all add: defs data fl_def write_extended_eq entry_fits_def\<close>)
  next
    case MessageEntry_elementcount_w
    then show ?thesis
      by (intro w4.advances_R [OF w, of _ "uintx_bytes (of_nat (length (elements e)))"
            "then_s (set_param1_w 0) (goto_w MessageEntry_writeelements_w)" "d\<lparr>wf_param1 := 0, wf_state := MessageEntry_writeelements_w\<rparr>"])
        (use v count in \<open>simp_all add: defs data set_param_goto_on\<close>)
  qed (use st in \<open>simp_all add: data\<close>)
qed

lemma finish_header_on:
  "aw_stack t = d # e # es \<Longrightarrow>
   finish_header_w t = Inr (None, t\<lparr>aw_stack := e\<lparr>wf_param1 := 0, wf_state := Message_writeentries_w\<rparr> # es\<rparr>)"
  by (simp add: finish_header_w_def then_s_def bind_s_def pop_state_w_def set_param1_w_def upd_top_w_def goto_w_def
      set_state_w_def continue_w_def return_s_def)

lemma header_fields4_advance:
  assumes w: "w4.winv s" "aw_stack s = d # ds" and h: "wf_data d = Write_header h"
    and st: "wf_state d \<in> pieces_states (header_pieces4 h)"
  shows "w4.advances (step4_header_w (wf_state d)) s"
proof -
  have v: "valid_header4 h" "length (HeaderExtended h) \<le> B"
    and x2: "wf_state d \<in> {MessageHeader_routing2_w, MessageHeader_routing3_w, MessageHeader_routing4_w} \<Longrightarrow> bit (MessageFlags h) 0"
      "wf_state d = MessageHeader_endpoint2_w \<Longrightarrow> bit (MessageFlags h) 1"
      "wf_state d \<in> {MessageHeader_messageid1_w, MessageHeader_messageid2_w} \<Longrightarrow> bit (MessageFlags h) 4"
      "wf_state d = MessageHeader_extended2_w \<Longrightarrow> bit (MessageFlags h) 7"
      "wf_state d = MessageHeader_stringtable2_w \<Longrightarrow> bit (MessageFlags h) 5 \<and> wf_param1 d \<le> length (StringTable h)"
      "wf_state d = MessageHeader_stringtable3_w \<Longrightarrow> bit (MessageFlags h) 5 \<and> wf_param2 d < length (StringTable h)
        \<and> wf_param1 d = wf_param2 d + 1"
    using w4.winv_top(1) [OF w] h by (simp_all add: params_def)
  have ids: "length (SenderNodeID h) = 16" "length (ReceiverNodeID h) = 16" "16 \<le> B"
      "concat (map num_bytes (SenderNodeID h)) \<noteq> []" "concat (map num_bytes (ReceiverNodeID h)) \<noteq> []"
    using v(1) room_B by (auto simp: valid_header4_def valid_NodeID_def simp flip: length_greater_0_conv)
  have small: "length (header4_fields_bytes h) < 2147483648"
    using v(1) by (simp add: valid_header4_def header4_bytes_def)
  have len: "bit (MessageFlags h) 0 \<Longrightarrow> length (SenderNodeName h) < 4294967296"
    "bit (MessageFlags h) 0 \<Longrightarrow> length (ReceiverNodeName h) < 4294967296"
    "bit (MessageFlags h) 4 \<Longrightarrow> length (HeaderMetaData h) < 4294967296"
    "bit (MessageFlags h) 5 \<Longrightarrow> length (StringTable h) < 4294967296"
    "bit (MessageFlags h) 7 \<Longrightarrow> length (HeaderExtended h) < 4294967296"
    using header4_lengths [OF small] StringTable_length [of h] by force+
  have strings: "length (snd (StringTable h ! i)) < 4294967296"
    if "bit (MessageFlags h) 5" "i < length (StringTable h)" for i
    using header4_lengths(5) [OF small that(1)] StringTable_string_length [OF that(2)] by simp
  from w4.winv_top(3) [OF w] obtain e es where ds: "ds = e # es"
    and below: "wf_param1 e = 0" "wf_pop_state d = Message_writeentries_w" by (cases ds) (simp_all add: h)
  note w' = w(1) w(2) [unfolded ds]
  note finish = finish_header_on
  note defs = R_header_w_def header_when_w_def R_on(3,5,6) [OF w(2)] R_on(3) [OF w(2) h] write_uint_x_eq write_number_w_def
    write_string4_eq
  note data = h hrank4_def header_pieces4_def Let_def pieces_states_def w4.piece_lengths xstring_bytes_def params_def
  show ?thesis
  proof (cases "wf_state d")
    case MessageHeader_magic_w
    then show ?thesis
      by (intro w4.advances_write [OF w, of _ "bytes_of_string ''RRAC''" MessageHeader_messagesize_w])
        (use v x2 ids in \<open>simp_all add: defs data\<close>)
  next
    case MessageHeader_messagesize_w
    then show ?thesis
      by (intro w4.advances_write [OF w, of _ "num_bytes (MessageSize h)" MessageHeader_version_w])
        (use v x2 ids in \<open>simp_all add: defs data\<close>)
  next
    case MessageHeader_version_w
    then show ?thesis
      by (intro w4.advances_write [OF w, of _ "num_bytes (4 :: 16 word)" MessageHeader_headersize_w])
        (use v x2 ids in \<open>simp_all add: defs data\<close>)
  next
    case MessageHeader_headersize_w
    then show ?thesis
      by (intro w4.advances_write [OF w, of _ "uintx_bytes (HeaderSize h)" MessageHeader_flags_w])
        (use v x2 ids in \<open>simp_all add: defs data\<close>)
  next
    case MessageHeader_flags_w
    then show ?thesis
      by (intro w4.advances_write [OF w, of _ "num_bytes (MessageFlags h)" MessageHeader_routing1_w])
        (use v x2 ids in \<open>simp_all add: defs data\<close>)
  next
    case MessageHeader_routing1_w
    then show ?thesis
    proof (cases "bit (MessageFlags h) 0")
      case True
      with MessageHeader_routing1_w show ?thesis
        by (intro w4.advances_write [OF w, of _ "concat (map num_bytes (SenderNodeID h))" MessageHeader_routing2_w]) (use v ids in \<open>simp_all add: defs data\<close>)
    next
      case False
      with MessageHeader_routing1_w show ?thesis
        by (intro w4.advances_skip [OF w, of _ MessageHeader_endpoint1_w]) (use v in \<open>simp_all add: defs data\<close>)
    qed
  next
    case MessageHeader_routing2_w
    then show ?thesis
      by (intro w4.advances_write [OF w, of _ "concat (map num_bytes (ReceiverNodeID h))" MessageHeader_routing3_w])
        (use v x2 ids in \<open>simp_all add: defs data\<close>)
  next
    case MessageHeader_routing3_w
    then show ?thesis
      by (intro w4.advances_string [OF w, of _ "uintx_bytes (of_nat (length (SenderNodeName h)))" "SenderNodeName h" MessageHeader_routing4_w])
        (use v x2 len in \<open>simp_all add: defs data\<close>)
  next
    case MessageHeader_routing4_w
    then show ?thesis
      by (intro w4.advances_string [OF w, of _ "uintx_bytes (of_nat (length (ReceiverNodeName h)))" "ReceiverNodeName h" MessageHeader_endpoint1_w])
        (use v x2 len in \<open>simp_all add: defs data\<close>)
  next
    case MessageHeader_endpoint1_w
    then show ?thesis
    proof (cases "bit (MessageFlags h) 1")
      case True
      with MessageHeader_endpoint1_w show ?thesis
        by (intro w4.advances_write [OF w, of _ "uintx_bytes (SenderEndpoint h)" MessageHeader_endpoint2_w]) (use v ids in \<open>simp_all add: defs data\<close>)
    next
      case False
      with MessageHeader_endpoint1_w show ?thesis
        by (intro w4.advances_skip [OF w, of _ MessageHeader_priority_w]) (use v in \<open>simp_all add: defs data\<close>)
    qed
  next
    case MessageHeader_endpoint2_w
    then show ?thesis
      by (intro w4.advances_write [OF w, of _ "uintx_bytes (ReceiverEndpoint h)" MessageHeader_priority_w])
        (use v x2 ids in \<open>simp_all add: defs data\<close>)
  next
    case MessageHeader_priority_w
    then show ?thesis
    proof (cases "bit (MessageFlags h) 2")
      case True
      with MessageHeader_priority_w show ?thesis
        by (intro w4.advances_write [OF w, of _ "num_bytes (Priority h)" MessageHeader_metainfo_w]) (use v ids in \<open>simp_all add: defs data\<close>)
    next
      case False
      with MessageHeader_priority_w show ?thesis
        by (intro w4.advances_skip [OF w, of _ MessageHeader_metainfo_w]) (use v in \<open>simp_all add: defs data\<close>)
    qed
  next
    case MessageHeader_metainfo_w
    then show ?thesis
    proof (cases "bit (MessageFlags h) 4")
      case True
      with MessageHeader_metainfo_w show ?thesis
        by (intro w4.advances_string [OF w, of _ "uintx_bytes (of_nat (length (HeaderMetaData h)))" "HeaderMetaData h" MessageHeader_messageid1_w])
          (use v len in \<open>simp_all add: defs data\<close>)
    next
      case False
      with MessageHeader_metainfo_w show ?thesis
        by (intro w4.advances_skip [OF w, of _ MessageHeader_stringtable1_w]) (use v in \<open>simp_all add: defs data\<close>)
    qed
  next
    case MessageHeader_messageid1_w
    then show ?thesis
      by (intro w4.advances_write [OF w, of _ "num_bytes (MessageID h)" MessageHeader_messageid2_w])
        (use v x2 ids in \<open>simp_all add: defs data\<close>)
  next
    case MessageHeader_messageid2_w
    then show ?thesis
      by (intro w4.advances_write [OF w, of _ "num_bytes (MessageResID h)" MessageHeader_stringtable1_w])
        (use v x2 ids in \<open>simp_all add: defs data\<close>)
  next
    case MessageHeader_stringtable1_w
    then show ?thesis
    proof (cases "bit (MessageFlags h) 5")
      case True
      with MessageHeader_stringtable1_w show ?thesis
        by (intro w4.advances_R [OF w, of _ "uintx_bytes (of_nat (length (StringTable h)))"
              "then_s (set_param1_w 0) (goto_w MessageHeader_stringtable2_w)"
              "d\<lparr>wf_param1 := 0, wf_state := MessageHeader_stringtable2_w\<rparr>"])
          (use v len in \<open>simp_all add: defs data set_param_goto_on\<close>)
    next
      case False
      with MessageHeader_stringtable1_w show ?thesis
        by (intro w4.advances_skip [OF w, of _ MessageHeader_entrycount_w]) (use v in \<open>simp_all add: defs data\<close>)
    qed
  next
    case MessageHeader_stringtable2_w
    note st2 = this
    show ?thesis
    proof (cases "wf_param1 d = length (StringTable h)")
      case True
      with st2 show ?thesis
        by (intro w4.advances_skip [OF w, of _ MessageHeader_entrycount_w]) (use v x2 in \<open>simp_all add: defs data\<close>)
    next
      case False
      define i where "i = wf_param1 d"
      have i: "i < length (StringTable h)" "drop i (StringTable h) = StringTable h ! i # drop (Suc i) (StringTable h)"
        using False x2 st2 by (simp_all add: i_def Cons_nth_drop_Suc)
      show ?thesis
        by (rule w4.advances_R [OF w, of _ "uintx_bytes (fst (StringTable h ! i))"
              "then_s (set_param2_w i) (then_s (set_param1_w (i + 1)) (goto_w MessageHeader_stringtable3_w))"
              "d\<lparr>wf_param2 := i, wf_param1 := i + 1, wf_state := MessageHeader_stringtable3_w\<rparr>"])
          (use v x2 i st2 in \<open>simp_all add: defs data set_param_goto_on i_def [symmetric] table_entry_bytes_def\<close>)
    qed
  next
    case MessageHeader_stringtable3_w
    note st3 = this
    have j: "wf_param2 d < length (StringTable h)" using x2 st3 by simp
    show ?thesis
      by (rule w4.advances_string [OF w, of _ "uintx_bytes (of_nat (length (snd (StringTable h ! wf_param2 d))))"
            "snd (StringTable h ! wf_param2 d)" MessageHeader_stringtable2_w])
        (use v x2 j strings [OF _ j] st3 in \<open>simp_all add: defs data\<close>)
  next
    case MessageHeader_entrycount_w
    then show ?thesis
    proof (cases "bit (MessageFlags h) 6")
      case True
      with MessageHeader_entrycount_w show ?thesis
        by (intro w4.advances_R [OF w, of _ "uintx_bytes (ucast (EntryCount h))"
              "then_s (set_param1_w 0) (goto_w MessageHeader_extended1_w)"
              "d\<lparr>wf_param1 := 0, wf_state := MessageHeader_extended1_w\<rparr>"])
          (use v in \<open>simp_all add: defs data set_param_goto_on\<close>)
    next
      case False
      with MessageHeader_entrycount_w show ?thesis
        by (intro w4.advances_goto [OF w, of _ "d\<lparr>wf_param1 := 0, wf_state := MessageHeader_extended1_w\<rparr>"])
          (use v w in \<open>simp_all add: defs data set_param_goto_on\<close>)
    qed
  next
    case MessageHeader_extended1_w
    then show ?thesis
    proof (cases "bit (MessageFlags h) 7")
      case True
      with MessageHeader_extended1_w show ?thesis
        by (intro w4.advances_write [OF w, of _ "uintx_bytes (of_nat (length (HeaderExtended h)))" MessageHeader_extended2_w])
          (use v len in \<open>simp_all add: defs data\<close>)
    next
      case False
      with MessageHeader_extended1_w show ?thesis
        by (intro w4.advances_R_pop [OF w', of _ "[]" finish_header_w "e\<lparr>wf_param1 := 0, wf_state := Message_writeentries_w\<rparr>"])
          (use v below finish in \<open>simp_all add: defs data R_w_def\<close>)
    qed
  next
    case MessageHeader_extended2_w
    then show ?thesis
      by (intro w4.advances_R_pop [OF w', of _ "HeaderExtended h" finish_header_w "e\<lparr>wf_param1 := 0, wf_state := Message_writeentries_w\<rparr>"])
        (use v x2 below finish in \<open>simp_all add: defs data write_extended_eq\<close>)
  qed (use st in \<open>simp_all add: data\<close>)
qed

end

text \<open>Every step of \<open>Write4\<close> advances.\<close>

lemma step4_common:
  assumes "aw_stack s = d # ds" and "wf_state d \<in> common_states"
  shows "step4_w s = step_common_w (wf_state d) s"
  using assms(2) by (auto simp: step4_w_def R_on(7) [OF assms(1)] common_defs)

sublocale room_for_fields \<subseteq> w4: object_steps element_pieces4 elx4 element4_bytes "el_ok4 B" entry_pieces4 enx4 entry4_bytes "en_ok4 B"
  hrest4 hrank4 "hok4 B" header4_bytes message4_bytes "\<lambda>m. valid_message4 m \<and> message_fits B m" B step4_w
proof (unfold_locales, goal_cases)
  case (1 s d ds)
  then show ?case by (rule step4_common)
next
  case (2 s d ds)
  note w = 2(1,2)
  note o = w4.winv_top(1) [OF w]
  show ?case
  proof (cases "wf_data d")
    case (Write_message m)
    then show ?thesis using o 2(3) by (auto simp: params_def common_defs)
  next
    case (Write_header h)
    then have "wf_state d \<in> pieces_states (header_pieces4 h)" using o by (simp add: params_def)
    with w Write_header have "w4.advances (step4_header_w (wf_state d)) s" by (rule header_fields4_advance)
    then show ?thesis by (rule w4.advances_cong [rotated]) (simp add: step4_w_def R_on(7) [OF w(2)])
  next
    case (Write_entry e)
    then have st: "wf_state d \<in> pieces_states (entry_pieces4 e)" using o 2(3) by (auto simp: params_def common_defs)
    with w Write_entry have "w4.advances (step4_entry_w (wf_state d)) s" by (rule entry_fields4_advance)
    moreover have "step4_w s = step4_entry_w (wf_state d) s"
      using st by (auto simp: step4_w_def R_on(7) [OF w(2)] pieces_states_def entry_pieces4_def Let_def)
    ultimately show ?thesis by (rule w4.advances_cong [rotated])
  next
    case (Write_element el)
    then have st: "wf_state d \<in> pieces_states (element_pieces4 (flds el))" using o 2(3) by (auto simp: common_defs)
    with w Write_element have "w4.advances (step4_element_w (wf_state d)) s" by (rule element_fields4_advance)
    then show ?thesis
      by (rule w4.advances_cong [rotated]) (rule element_fields4_step [OF st w(2) Write_element])
  qed (use o 2(3) in \<open>auto simp: params_def common_defs\<close>)
next
  case (3 st h p)
  then show ?case by (cases p) (auto simp: pieces_states_def header_pieces4_def Let_def common_defs)
next
  case (4 e)
  then show ?case by (auto simp: pieces_states_def entry_pieces4_def Let_def common_defs)
next
  case (5 f)
  then show ?case by (auto simp: pieces_states_def element_pieces4_def Let_def common_defs)
qed

end
