(* ===== verification/RR_AsyncWriter2_Laws.thy ===== *)
theory RR_AsyncWriter2_Laws
  imports RR_AsyncWriter_Objects RR_Message2_Laws
begin

text \<open>
  The resumable writer on messages of format version 2: the fields of the objects, and that the states
  of \<open>Write\<close> write them one after the other.  Version 2 has no fields of unbounded length but strings,
  so that any work buffer of 16 bytes or more will do.
\<close>

section \<open>The fields of version 2\<close>

definition element_pieces2 :: "element_fields \<Rightarrow> pieces" where
  "element_pieces2 f =
     [(MessageElement_elementsize_w, num_bytes (ElementSize f)),
      (MessageElement_elementnamestr_w, string16_bytes (ElementName f)),
      (MessageElement_elementtype_w, num_bytes (DataTypes_code (ElementType f))),
      (MessageElement_elementtypestr_w, string16_bytes (ElementTypeName f)),
      (MessageElement_metainfo_w, string16_bytes (ElementMetaData f)),
      (MessageElement_datacount_w, num_bytes (DataCount f))]"

definition entry_pieces2 :: "message_entry \<Rightarrow> pieces" where
  "entry_pieces2 e =
     [(MessageEntry_entrysize_w, num_bytes (EntrySize e)),
      (MessageEntry_entrytype_w, num_bytes (EntryType e)),
      (MessageEntry_pad_w, num_bytes (0 :: 16 word)),
      (MessageEntry_servicepathstr_w, string16_bytes (ServicePath e)),
      (MessageEntry_membernamestr_w, string16_bytes (MemberName e)),
      (MessageEntry_requestid_w, num_bytes (RequestID e)),
      (MessageEntry_error_w, num_bytes (EntryError e)),
      (MessageEntry_metainfo_w, string16_bytes (EntryMetaData e)),
      (MessageEntry_elementcount_w, num_bytes (of_nat (length (elements e)) :: 16 word))]"

definition header_pieces2 :: "message_header \<Rightarrow> pieces" where
  "header_pieces2 h =
     [(MessageHeader_magic_w, bytes_of_string ''RRAC''),
      (MessageHeader_messagesize_w, num_bytes (MessageSize h)),
      (MessageHeader_version_w, num_bytes (2 :: 16 word)),
      (MessageHeader_headersize_w, num_bytes (ucast (HeaderSize h) :: 16 word)),
      (MessageHeader_routing1_w, concat (map num_bytes (SenderNodeID h))),
      (MessageHeader_routing2_w, concat (map num_bytes (ReceiverNodeID h))),
      (MessageHeader_endpoint1_w, num_bytes (SenderEndpoint h)),
      (MessageHeader_endpoint2_w, num_bytes (ReceiverEndpoint h)),
      (MessageHeader_routing3_w, string16_bytes (SenderNodeName h)),
      (MessageHeader_routing4_w, string16_bytes (ReceiverNodeName h)),
      (MessageHeader_metainfo_w, string16_bytes (HeaderMetaData h)),
      (MessageHeader_entrycount_w, num_bytes (EntryCount h)),
      (MessageHeader_messageid1_w, num_bytes (MessageID h)),
      (MessageHeader_messageid2_w, num_bytes (MessageResID h))]"

lemma pieces2_bytes:
  "element2_bytes (MessageElement f x) = piece_bytes (element_pieces2 f) @ data_bytes element2_bytes x"
  "entry2_bytes e = piece_bytes (entry_pieces2 e) @ concat (map element2_bytes (elements e))"
  "header2_bytes h = piece_bytes (header_pieces2 h)"
  by (simp_all add: element_pieces2_def element2_fields_bytes_def data_bytes_def
      entry_pieces2_def entry2_bytes_def entry2_fields_bytes_def
      header_pieces2_def header2_bytes_def header2_fields_bytes_def)

definition hrest2 :: "write_state \<Rightarrow> message_header \<Rightarrow> params \<Rightarrow> byte list" where
  "hrest2 st h p = piece_bytes (since st (header_pieces2 h))"

definition hrank2 :: "write_state \<Rightarrow> message_header \<Rightarrow> params \<Rightarrow> nat" where
  "hrank2 st h p = 1"

definition hok2 :: "write_state \<Rightarrow> message_header \<Rightarrow> params \<Rightarrow> bool" where
  "hok2 st h p \<longleftrightarrow> valid_header2 h \<and> st \<in> pieces_states (header_pieces2 h)"

lemma element_cases2:
  assumes "valid_element2 lc (MessageElement f x)"
  shows "type_group (ElementType f) = Group_void \<and> element2_data_bytes x = []
      \<or> (\<exists>a. x = Some (ArrayData a) \<and> ElementType f = array_type a \<and> length (array_bytes a) < 2147483648)
      \<or> (\<exists>tn es. x = Some (NestedElementList (ElementType f) tn es) \<and> is_nested_type (ElementType f)
            \<and> (\<forall>c \<in> set es. valid_element2 lc c))"
proof -
  from assms(1) have fix2: "MessageElement_UpdateData lc (MessageElement f x) = Inr (MessageElement f x)"
    by (simp add: valid_element2_def)
  then show ?thesis
  proof (cases rule: fixed_data_cases2)
    case Void
    then show ?thesis by blast
  next
    case (Array a)
    then show ?thesis using assms(1) by (auto simp: valid_element2_def)
  next
    case (Nested tn es)
    with valid_element2_children [OF assms [unfolded Nested(1)] Nested(2)] show ?thesis by blast
  qed
qed

locale room_for_fields2 = room_for_fields +
  fixes lc :: "32 word \<Rightarrow> string"

sublocale room_for_fields2 \<subseteq> w2: objects element_pieces2 "\<lambda>st el. True" element2_bytes "valid_element2 lc"
  entry_pieces2 "\<lambda>st e. True" entry2_bytes "valid_entry2 lc" hrest2 hrank2 hok2 header2_bytes message2_bytes "valid_message2 lc" B
proof (unfold_locales, goal_cases)
  case 1
  show ?case by (rule room_B)
next
  case (2 f x)
  show ?case by (rule pieces2_bytes)
next
  case (3 f)
  show ?case by (simp add: element_pieces2_def)
next
  case (4 el)
  show ?case by (rule TrueI)
next
  case (5 f)
  show ?case by (simp add: element_pieces2_def pieces_states_def)
next
  case (6 st f)
  then show ?case by (auto simp: element_pieces2_def common_defs)
next
  case (7 el)
  then show ?case using element2_size by (cases el) simp
next
  case (8 f x)
  have "element2_data_bytes x = data_bytes element2_bytes x" by (simp add: element2_data_bytes_def data_bytes_def)
  with element_cases2 [OF 8(1)] 8(2) show ?case using type_group_nested [of "ElementType f"] by auto
next
  case (9 f x)
  then show ?case using element_cases2 [of lc f x] by blast
next
  case (10 e)
  show ?case by (rule pieces2_bytes)
next
  case (11 e)
  show ?case by (simp add: entry_pieces2_def)
next
  case (12 e)
  show ?case by (rule TrueI)
next
  case (13 e)
  show ?case by (simp add: entry_pieces2_def pieces_states_def)
next
  case (14 e)
  then show ?case by (rule entry2_size(1))
next
  case (15 e c)
  then show ?case by (rule valid_entry2_elements)
next
  case (16 m)
  then obtain h where h: "header m = Some h" "valid_header2 h" by (rule valid_message2_parts)
  have "since MessageHeader_magic_w (header_pieces2 h) = header_pieces2 h" "MessageHeader_magic_w \<in> pieces_states (header_pieces2 h)"
    by (simp_all add: header_pieces2_def pieces_states_def)
  with h header2_lengths(4) [OF h(2)] show ?case
    by (simp add: hrank2_def hok2_def hrest2_def pieces2_bytes)
next
  case (17 m e)
  then show ?case using valid_message2_parts [of lc m] by blast
qed

section \<open>The steps\<close>

lemma write_string_eq:
  "length str < 65536 \<Longrightarrow> write_string_w str nxt =
   bind_s (write_all_bytes_w (num_bytes (of_nat (length str) :: 16 word)))
     (\<lambda>ok. if \<not> ok then return_s False else write_string_body_w str nxt)"
  by (simp add: write_string_w_def write_number_w_def)

context room_for_fields2 begin

text \<open>The states before the data of an element.\<close>

lemma element_fields2_advance:
  assumes w: "w2.winv s" "aw_stack s = d # ds" and el: "wf_data d = Write_element el"
    and st: "wf_state d \<in> pieces_states (element_pieces2 (flds el))"
  shows "w2.advances (step2_element_w (wf_state d)) s"
proof -
  obtain f x where fx: "el = MessageElement f x" by (cases el)
  have v: "valid_element2 lc el" using w2.winv_top(1) [OF w] el by simp
  then have "MessageElement_UpdateData lc (MessageElement f x) = Inr (MessageElement f x)"
    by (simp add: valid_element2_def fx)
  note len = fixed_strings2 [OF this]
  note defs = R_element_w_def R_on(1) [OF w(2) el] fx write_number_w_def write_string_eq
  note data = el fx element_pieces2_def pieces_states_def w2.piece_lengths common_defs string16_bytes_def
  show ?thesis
  proof (cases "wf_state d")
    case MessageElement_elementsize_w
    then show ?thesis
      by (intro w2.advances_write [OF w, of _ "num_bytes (ElementSize f)" MessageElement_elementnamestr_w])
        (use v in \<open>simp_all add: defs data\<close>)
  next
    case MessageElement_elementnamestr_w
    then show ?thesis
      by (intro w2.advances_string [OF w, of _ "num_bytes (of_nat (length (ElementName f)) :: 16 word)" "ElementName f" MessageElement_elementtype_w])
        (use v len in \<open>simp_all add: defs data\<close>)
  next
    case MessageElement_elementtype_w
    then show ?thesis
      by (intro w2.advances_write [OF w, of _ "num_bytes (DataTypes_code (ElementType f))" MessageElement_elementtypestr_w])
        (use v in \<open>simp_all add: defs data\<close>)
  next
    case MessageElement_elementtypestr_w
    then show ?thesis
      by (intro w2.advances_string [OF w, of _ "num_bytes (of_nat (length (ElementTypeName f)) :: 16 word)" "ElementTypeName f" MessageElement_metainfo_w])
        (use v len in \<open>simp_all add: defs data\<close>)
  next
    case MessageElement_metainfo_w
    then show ?thesis
      by (intro w2.advances_string [OF w, of _ "num_bytes (of_nat (length (ElementMetaData f)) :: 16 word)" "ElementMetaData f" MessageElement_datacount_w])
        (use v len in \<open>simp_all add: defs data\<close>)
  next
    case MessageElement_datacount_w
    then show ?thesis
      by (intro w2.advances_write [OF w, of _ "num_bytes (DataCount f)" MessageElement_writedata_w])
        (use v in \<open>simp_all add: defs data\<close>)
  qed (use st in \<open>simp_all add: data\<close>)
qed

lemma entry_fields2_advance:
  assumes w: "w2.winv s" "aw_stack s = d # ds" and e: "wf_data d = Write_entry e"
    and st: "wf_state d \<in> pieces_states (entry_pieces2 e)"
  shows "w2.advances (step2_entry_w (wf_state d)) s"
proof -
  have v: "valid_entry2 lc e" using w2.winv_top(1) [OF w] e by (simp add: params_def)
  then have "MessageEntry_UpdateData lc e = Inr e" and count: "length (elements e) < 65536"
    by (simp_all add: valid_entry2_def)
  note len = fixed_entry2_strings(2-4) [OF this(1)]
  note defs = R_entry_w_def R_on(2) [OF w(2) e] write_number_w_def write_string_eq
  note data = e entry_pieces2_def pieces_states_def w2.piece_lengths common_defs string16_bytes_def params_def
  show ?thesis
  proof (cases "wf_state d")
    case MessageEntry_entrysize_w
    then show ?thesis
      by (intro w2.advances_write [OF w, of _ "num_bytes (EntrySize e)" MessageEntry_entrytype_w])
        (use v in \<open>simp_all add: defs data\<close>)
  next
    case MessageEntry_entrytype_w
    then show ?thesis
      by (intro w2.advances_write [OF w, of _ "num_bytes (EntryType e)" MessageEntry_pad_w])
        (use v in \<open>simp_all add: defs data\<close>)
  next
    case MessageEntry_pad_w
    then show ?thesis
      by (intro w2.advances_write [OF w, of _ "num_bytes (0 :: 16 word)" MessageEntry_servicepathstr_w])
        (use v in \<open>simp_all add: defs data\<close>)
  next
    case MessageEntry_servicepathstr_w
    then show ?thesis
      by (intro w2.advances_string [OF w, of _ "num_bytes (of_nat (length (ServicePath e)) :: 16 word)" "ServicePath e" MessageEntry_membernamestr_w])
        (use v len in \<open>simp_all add: defs data\<close>)
  next
    case MessageEntry_membernamestr_w
    then show ?thesis
      by (intro w2.advances_string [OF w, of _ "num_bytes (of_nat (length (MemberName e)) :: 16 word)" "MemberName e" MessageEntry_requestid_w])
        (use v len in \<open>simp_all add: defs data\<close>)
  next
    case MessageEntry_requestid_w
    then show ?thesis
      by (intro w2.advances_write [OF w, of _ "num_bytes (RequestID e)" MessageEntry_error_w])
        (use v in \<open>simp_all add: defs data\<close>)
  next
    case MessageEntry_error_w
    then show ?thesis
      by (intro w2.advances_write [OF w, of _ "num_bytes (EntryError e)" MessageEntry_metainfo_w])
        (use v in \<open>simp_all add: defs data\<close>)
  next
    case MessageEntry_metainfo_w
    then show ?thesis
      by (intro w2.advances_string [OF w, of _ "num_bytes (of_nat (length (EntryMetaData e)) :: 16 word)" "EntryMetaData e" MessageEntry_elementcount_w])
        (use v len in \<open>simp_all add: defs data\<close>)
  next
    case MessageEntry_elementcount_w
    then show ?thesis
      by (intro w2.advances_R [OF w, of _ "num_bytes (of_nat (length (elements e)) :: 16 word)"
            "then_s (set_param1_w 0) (goto_w MessageEntry_writeelements_w)" "d\<lparr>wf_param1 := 0, wf_state := MessageEntry_writeelements_w\<rparr>"])
        (use v count in \<open>simp_all add: defs data set_param_goto_on\<close>)
  qed (use st in \<open>simp_all add: data\<close>)
qed

lemma header_fields2_advance:
  assumes w: "w2.winv s" "aw_stack s = d # ds" and h: "wf_data d = Write_header h"
    and st: "wf_state d \<in> pieces_states (header_pieces2 h)"
  shows "w2.advances (step2_header_w (wf_state d)) s"
proof -
  have v: "valid_header2 h" using w2.winv_top(1) [OF w] h by (simp add: hok2_def)
  have ids: "length (SenderNodeID h) = 16" "length (ReceiverNodeID h) = 16" "16 \<le> B"
      "concat (map num_bytes (SenderNodeID h)) \<noteq> []" "concat (map num_bytes (ReceiverNodeID h)) \<noteq> []"
    using v room_B by (auto simp: valid_header2_def valid_NodeID_def simp flip: length_greater_0_conv)
  note len = header2_lengths(1-3) [OF v]
  have hs: "numeric_cast_u16 (unat (HeaderSize h)) = Inr (ucast (HeaderSize h))"
  proof -
    have "unat (HeaderSize h) < 65536" using header2_lengths(4,5) [OF v] by simp
    then show ?thesis by (simp add: of_nat_unat)
  qed
  from w2.winv_top(3) [OF w] obtain e es where ds: "ds = e # es"
    and below: "wf_pop_state d = Message_writeentries_w" by (cases ds) (simp_all add: h)
  note w' = w(1) w(2) [unfolded ds]
  note defs = R_header_w_def R_on(3) [OF w(2) h] write_number_w_def write_string_eq
  note data = h header_pieces2_def pieces_states_def w2.piece_lengths string16_bytes_def params_def hok2_def hrest2_def hrank2_def
  show ?thesis
  proof (cases "wf_state d")
    case MessageHeader_magic_w
    then show ?thesis
      by (intro w2.advances_write [OF w, of _ "bytes_of_string ''RRAC''" MessageHeader_messagesize_w])
        (use v room_B in \<open>simp_all add: defs data\<close>)
  next
    case MessageHeader_messagesize_w
    then show ?thesis
      by (intro w2.advances_write [OF w, of _ "num_bytes (MessageSize h)" MessageHeader_version_w])
        (use v in \<open>simp_all add: defs data\<close>)
  next
    case MessageHeader_version_w
    then show ?thesis
      by (intro w2.advances_write [OF w, of _ "num_bytes (2 :: 16 word)" MessageHeader_headersize_w])
        (use v in \<open>simp_all add: defs data\<close>)
  next
    case MessageHeader_headersize_w
    then show ?thesis
      by (intro w2.advances_write [OF w, of _ "num_bytes (ucast (HeaderSize h) :: 16 word)" MessageHeader_routing1_w])
        (use v hs in \<open>simp_all add: defs data\<close>)
  next
    case MessageHeader_routing1_w
    then show ?thesis
      by (intro w2.advances_write [OF w, of _ "concat (map num_bytes (SenderNodeID h))" MessageHeader_routing2_w])
        (use v ids in \<open>simp_all add: defs data\<close>)
  next
    case MessageHeader_routing2_w
    then show ?thesis
      by (intro w2.advances_write [OF w, of _ "concat (map num_bytes (ReceiverNodeID h))" MessageHeader_endpoint1_w])
        (use v ids in \<open>simp_all add: defs data\<close>)
  next
    case MessageHeader_endpoint1_w
    then show ?thesis
      by (intro w2.advances_write [OF w, of _ "num_bytes (SenderEndpoint h)" MessageHeader_endpoint2_w])
        (use v in \<open>simp_all add: defs data\<close>)
  next
    case MessageHeader_endpoint2_w
    then show ?thesis
      by (intro w2.advances_write [OF w, of _ "num_bytes (ReceiverEndpoint h)" MessageHeader_routing3_w])
        (use v in \<open>simp_all add: defs data\<close>)
  next
    case MessageHeader_routing3_w
    then show ?thesis
      by (intro w2.advances_string [OF w, of _ "num_bytes (of_nat (length (SenderNodeName h)) :: 16 word)" "SenderNodeName h" MessageHeader_routing4_w])
        (use v len in \<open>simp_all add: defs data\<close>)
  next
    case MessageHeader_routing4_w
    then show ?thesis
      by (intro w2.advances_string [OF w, of _ "num_bytes (of_nat (length (ReceiverNodeName h)) :: 16 word)" "ReceiverNodeName h" MessageHeader_metainfo_w])
        (use v len in \<open>simp_all add: defs data\<close>)
  next
    case MessageHeader_metainfo_w
    then show ?thesis
      by (intro w2.advances_string [OF w, of _ "num_bytes (of_nat (length (HeaderMetaData h)) :: 16 word)" "HeaderMetaData h" MessageHeader_entrycount_w])
        (use v len in \<open>simp_all add: defs data\<close>)
  next
    case MessageHeader_entrycount_w
    then show ?thesis
      by (intro w2.advances_write [OF w, of _ "num_bytes (EntryCount h)" MessageHeader_messageid1_w])
        (use v in \<open>simp_all add: defs data\<close>)
  next
    case MessageHeader_messageid1_w
    then show ?thesis
      by (intro w2.advances_write [OF w, of _ "num_bytes (MessageID h)" MessageHeader_messageid2_w])
        (use v in \<open>simp_all add: defs data\<close>)
  next
    case MessageHeader_messageid2_w
    then show ?thesis
      by (intro w2.advances_R_pop [OF w', of _ "num_bytes (MessageResID h)" "then_s pop_state_w (goto_w Message_writeentries_w)"
            "e\<lparr>wf_state := Message_writeentries_w\<rparr>"])
        (use v below in \<open>simp_all add: defs data then_s_def bind_s_def pop_state_w_def goto_w_def set_state_w_def upd_top_w_def
          continue_w_def return_s_def\<close>)
  qed (use st in \<open>simp_all add: data\<close>)
qed

end

text \<open>Every step of \<open>Write\<close> advances.\<close>

lemma step2_common:
  assumes "aw_stack s = d # ds" and "wf_state d \<in> common_states"
  shows "step2_w s = step_common_w (wf_state d) s"
  using assms(2) by (auto simp: step2_w_def R_on(7) [OF assms(1)] common_defs)

sublocale room_for_fields2 \<subseteq> w2: object_steps element_pieces2 "\<lambda>st el. True" element2_bytes "valid_element2 lc"
  entry_pieces2 "\<lambda>st e. True" entry2_bytes "valid_entry2 lc" hrest2 hrank2 hok2 header2_bytes message2_bytes "valid_message2 lc" B step2_w
proof (unfold_locales, goal_cases)
  case (1 s d ds)
  then show ?case by (rule step2_common)
next
  case (2 s d ds)
  note w = 2(1,2)
  note o = w2.winv_top(1) [OF w]
  show ?case
  proof (cases "wf_data d")
    case (Write_message m)
    then show ?thesis using o 2(3) by (auto simp: params_def common_defs)
  next
    case (Write_header h)
    then have "wf_state d \<in> pieces_states (header_pieces2 h)" using o by (simp add: hok2_def)
    with w Write_header have "w2.advances (step2_header_w (wf_state d)) s" by (rule header_fields2_advance)
    then show ?thesis by (rule w2.advances_cong [rotated]) (simp add: step2_w_def R_on(7) [OF w(2)])
  next
    case (Write_entry e)
    then have st: "wf_state d \<in> pieces_states (entry_pieces2 e)" using o 2(3) by (auto simp: params_def common_defs)
    with w Write_entry have "w2.advances (step2_entry_w (wf_state d)) s" by (rule entry_fields2_advance)
    moreover have "step2_w s = step2_entry_w (wf_state d) s"
      using st by (auto simp: step2_w_def R_on(7) [OF w(2)] pieces_states_def entry_pieces2_def)
    ultimately show ?thesis by (rule w2.advances_cong [rotated])
  next
    case (Write_element el)
    then have st: "wf_state d \<in> pieces_states (element_pieces2 (flds el))" using o 2(3) by (auto simp: common_defs)
    with w Write_element have "w2.advances (step2_element_w (wf_state d)) s" by (rule element_fields2_advance)
    moreover have "step2_w s = step2_element_w (wf_state d) s"
      using st by (auto simp: step2_w_def R_on(7) [OF w(2)] pieces_states_def element_pieces2_def)
    ultimately show ?thesis by (rule w2.advances_cong [rotated])
  qed (use o 2(3) in \<open>auto simp: params_def common_defs\<close>)
next
  case (3 st h p)
  then show ?case by (auto simp: hok2_def pieces_states_def header_pieces2_def common_defs)
next
  case (4 e)
  then show ?case by (auto simp: pieces_states_def entry_pieces2_def common_defs)
next
  case (5 f)
  then show ?case by (auto simp: pieces_states_def element_pieces2_def common_defs)
qed

end
