(* ===== verification/RR_Sender_Laws.thy ===== *)
theory RR_Sender_Laws
  imports RR_Sender RR_AsyncWriter4_Laws RR_AsyncWriter2_Laws
begin

text \<open>
  The sending half of the transport: what is on its way to the stream, what every handler does with
  it, and the invariants of the operations in any order.
\<close>

section \<open>The writer of the transport\<close>

text \<open>The work buffer is \<open>sendbuf\<close>, of at least 4096 bytes.\<close>

interpretation send_buffer: room_for_fields 4096
  by unfold_locales simp

interpretation send_buffer2: room_for_fields2 4096 lc for lc
  by unfold_locales

definition writer_has :: "send_env \<Rightarrow> 16 word \<Rightarrow> async_writer \<Rightarrow> byte list \<Rightarrow> bool" where
  "writer_has env v w bs \<longleftrightarrow>
     v = 4 \<and> send_buffer.w4.idle w \<and> send_buffer.w4.remains w = bs
     \<or> v = 2 \<and> send_buffer2.w2.idle (element_number env) w \<and> send_buffer2.w2.remains w = bs"

lemma writer_has_remaining:
  assumes "writer_has env v w bs"
  shows "WriteRemaining w = Inr (length bs, w)"
  using assms send_buffer.w4.idle_remaining(1) [of w] send_buffer2.w2.idle_remaining(1) [of "element_number env" w]
  by (auto simp: writer_has_def)

lemma writer_call_on:
  assumes "writer_has env (async_send_version t) (sx_writer t) bs" and "4096 \<le> length (sendbuf t)" and "bs \<noteq> []"
  obtains out bs' w where "writer_call (length bs) t = (Inr (), t\<lparr>async_send_bufs := out, sx_writer := w\<rparr>)"
    and "out \<noteq> []" and "bs = out @ bs'" and "writer_has env (async_send_version t) w bs'"
proof -
  note c4 = send_buffer.w4.call_returns [OF _ assms(2), of "sx_writer t"]
  note c2 = send_buffer2.w2.call_returns [OF _ assms(2), of "element_number env" "sx_writer t"]
  from assms(1) consider (four) "async_send_version t = 4" "send_buffer.w4.idle (sx_writer t)"
      "send_buffer.w4.remains (sx_writer t) = bs"
    | (two) "async_send_version t = 2" "send_buffer2.w2.idle (element_number env) (sx_writer t)"
      "send_buffer2.w2.remains (sx_writer t) = bs"
    unfolding writer_has_def by blast
  then show thesis
  proof cases
    case four
    from c4 [OF four(2)] obtain x out w where c: "write_call step4_w (length bs) (length (sendbuf t)) (sx_writer t) = Some (Inr ((x, out), w))"
      and w: "send_buffer.w4.idle w" "bs = out @ send_buffer.w4.remains w"
      and x: "if x = WriteReturn_continue then out \<noteq> [] else send_buffer.w4.remains w = []"
      unfolding four(3) by blast
    show thesis
    proof (rule that)
      show "writer_call (length bs) t = (Inr (), t\<lparr>async_send_bufs := out, sx_writer := w\<rparr>)"
        using c by (simp add: writer_call_def four(1) AsyncMessageWriter_Write4_def)
      show "out \<noteq> []" using x w(2) assms(3) by (auto split: if_splits)
      show "bs = out @ send_buffer.w4.remains w" by (rule w)
      show "writer_has env (async_send_version t) w (send_buffer.w4.remains w)"
        using w(1) by (simp add: writer_has_def four(1))
    qed
  next
    case two
    from c2 [OF two(2)] obtain x out w where c: "write_call step2_w (length bs) (length (sendbuf t)) (sx_writer t) = Some (Inr ((x, out), w))"
      and w: "send_buffer2.w2.idle (element_number env) w" "bs = out @ send_buffer2.w2.remains w"
      and x: "if x = WriteReturn_continue then out \<noteq> [] else send_buffer2.w2.remains w = []"
      unfolding two(3) by blast
    show thesis
    proof (rule that)
      show "writer_call (length bs) t = (Inr (), t\<lparr>async_send_bufs := out, sx_writer := w\<rparr>)"
        using c by (simp add: writer_call_def two(1) AsyncMessageWriter_Write_def)
      show "out \<noteq> []" using x w(2) assms(3) by (auto split: if_splits)
      show "bs = out @ send_buffer2.w2.remains w" by (rule w)
      show "writer_has env (async_send_version t) w (send_buffer2.w2.remains w)"
        using w(1) by (simp add: writer_has_def two(1))
    qed
  qed
qed

lemma measured4:
  assumes "valid_message4 m"
  shows "\<exists>h. header m = Some h \<and> Message_ComputeSize4 m = Inr (MessageSize h, m) \<and> unat (MessageSize h) = length (message4_bytes m)"
  by (rule valid_message4_parts [OF assms]) (intro exI conjI; assumption)

lemma measured2:
  assumes "valid_message2 lc m"
  shows "\<exists>h. header m = Some h \<and> Message_ComputeSize lc m = Inr (MessageSize h, m) \<and> unat (MessageSize h) = length (message2_bytes m)"
  by (rule valid_message2_parts [OF assms]) (intro exI conjI; assumption)

text \<open>What \<open>BeginWrite\<close> does with a message that has been measured.\<close>

lemma BeginWrite_on:
  assumes "v = 4 \<and> valid_message4 m \<and> message_fits 4096 m \<and> M = message4_bytes m
    \<or> v = 2 \<and> valid_message2 (element_number env) m \<and> M = message2_bytes m"
  obtains w' where "BeginWrite (element_number env) m v (AsyncMessageWriter_Reset w) = Inr (m, w')"
    and "writer_has env v w' M"
proof -
  define w' where "w' = (AsyncMessageWriter_Reset w)\<lparr>aw_version := v, aw_pos := 0, aw_stack :=
    [\<lparr>wf_state = Message_init_w, wf_pop_state = Message_init_w, wf_limit = length M,
      wf_data = Write_message m, wf_param1 = 0, wf_param2 = 0\<rparr>]\<rparr>"
  from assms have "(\<exists>h :: message_header. (if v = 2 then Message_ComputeSize (element_number env) m else Message_ComputeSize4 m) = Inr (MessageSize h, m)
      \<and> unat (MessageSize h) = length M) \<and> length M < 4294967296"
  proof (elim disjE conjE)
    assume a: "v = 4" "valid_message4 m" "M = message4_bytes m"
    from measured4 [OF a(2)] obtain h :: message_header
      where "Message_ComputeSize4 m = Inr (MessageSize h, m)" "unat (MessageSize h) = length (message4_bytes m)" by blast
    with a unat_u32_less [of "MessageSize h"] show ?thesis by auto
  next
    assume a: "v = 2" "valid_message2 (element_number env) m" "M = message2_bytes m"
    from measured2 [OF a(2)] obtain h :: message_header where "Message_ComputeSize (element_number env) m = Inr (MessageSize h, m)"
      "unat (MessageSize h) = length (message2_bytes m)" by blast
    with a unat_u32_less [of "MessageSize h"] show ?thesis by auto
  qed
  then obtain h :: message_header where h: "(if v = 2 then Message_ComputeSize (element_number env) m else Message_ComputeSize4 m) = Inr (MessageSize h, m)"
      "unat (MessageSize h) = length M" and lt: "length M < 4294967296" by blast
  have v: "v = 2 \<or> v = 4" using assms by blast
  show thesis
  proof (rule that)
    show "BeginWrite (element_number env) m v (AsyncMessageWriter_Reset w) = Inr (m, w')"
      using v h by (simp add: BeginWrite_def AsyncMessageWriter_Reset_def w'_def split: if_splits)
    show "writer_has env v w' M"
      using assms lt send_buffer.w4.idle_begin [of m w'] send_buffer2.w2.idle_begin [of "element_number env" m w']
      by (auto simp: writer_has_def w'_def simp del: message4_bytes.simps message2_bytes.simps)
  qed
qed

section \<open>A message on its way\<close>

text \<open>The encoding \<open>M\<close> that the transport sends a message with.\<close>

definition transmits :: "send_env \<Rightarrow> bool \<Rightarrow> message \<Rightarrow> byte list \<Rightarrow> bool" where
  "transmits env v4 m M \<longleftrightarrow>
     (if sends_version4 v4 m
      then (\<exists>n m'. Message_ComputeSize4 (drop_routing env m) = Inr (n, m') \<and> valid_message4 m' \<and> message_fits 4096 m'
              \<and> M = message4_bytes m')
      else (\<exists>n m'. Message_ComputeSize (element_number env) m = Inr (n, m') \<and> valid_message2 (element_number env) m'
              \<and> M = message2_bytes m'))"

text \<open>\<open>M\<close> is what is left of a message: offered to the stream, and with the writer.\<close>

definition on_the_way :: "send_env \<Rightarrow> nat \<Rightarrow> byte list \<Rightarrow> send_transport \<Rightarrow> bool" where
  "on_the_way env cb M t \<longleftrightarrow>
     (\<exists>sp n. sx_writes t = [(M, H_EndSendMessage sp n cb)] \<and> sp < n \<and> n \<le> length (sendbuf t)
        \<and> M = take (n - sp) (drop sp (sendbuf t)))
     \<or> (\<exists>rest. sx_writes t = [(async_send_bufs t, H_EndSendMessage2 cb)] \<and> async_send_bufs t \<noteq> []
        \<and> writer_has env (async_send_version t) (sx_writer t) rest \<and> M = async_send_bufs t @ rest)"

definition sendbuf_ok :: "send_transport \<Rightarrow> bool" where
  "sendbuf_ok t \<longleftrightarrow> 4096 \<le> length (sendbuf t) \<and> length (sendbuf t) < 2147483648"

text \<open>What sending one message does not change.\<close>

definition same_frame :: "send_transport \<Rightarrow> send_transport \<Rightarrow> bool" where
  "same_frame t t' \<longleftrightarrow>
     sx_connected t' = sx_connected t \<and> sx_disable_async_io t' = sx_disable_async_io t
     \<and> sx_max_message_size t' = sx_max_message_size t \<and> sx_send_version4 t' = sx_send_version4 t
     \<and> send_paused t' = send_paused t \<and> send_pause_request t' = send_pause_request t
     \<and> send_pause_request_handler t' = send_pause_request_handler t
     \<and> send_queue t' = send_queue t \<and> sx_events t' = sx_events t"

lemma same_frame_refl [simp]: "same_frame t t"
  by (simp add: same_frame_def)

lemma valid_length_less:
  "valid_message4 m \<Longrightarrow> length (message4_bytes m) < 2147483648"
  "valid_message2 lc m \<Longrightarrow> length (message2_bytes m) < 2147483648"
  by (simp_all add: valid_message4_def valid_message2_def del: message4_bytes.simps message2_bytes.simps)

lemma send_from_buffer_on:
  assumes w: "writes wr M m'" and "length M = n" and "n < 2147483648" and "sx_writes t = []" and "M \<noteq> []"
    and "sendbuf_ok t"
  obtains t' where "send_from_buffer n wr cb t = (Inr (), t')" and "on_the_way env cb M t'" and "sending t'"
    and "same_frame t t'" and "sendbuf_ok t'"
proof -
  define t1 where "t1 = (if n > length (sendbuf t) then t\<lparr>sendbuf := replicate n 0\<rparr> else t)"
  have len: "n \<le> length (sendbuf t1)" "sendbuf_ok t1" "sx_writes t1 = []" "length (sendbuf t1) < 2147483648"
    using assms(3,4,6) by (auto simp: t1_def sendbuf_ok_def)
  define b where "b = ArrayBinaryWriter (sendbuf t1) 0 n"
  have "ok_writer b" "room b (length M)"
    using len(1,4) assms(2,3) by (simp_all add: b_def ArrayBinaryWriter_def ok_writer_def room_def)
  from writesD [OF w this] have wr: "wr b = Inr (m', append_w M b)" .
  define mem where "mem = w_buffer (append_w M b)"
  have mem: "length mem = length (sendbuf t1)" "take n mem = M"
    using len(1) assms(2) by (simp_all add: mem_def append_w_def b_def ArrayBinaryWriter_def)
  define t' where "t' = t1\<lparr>sendbuf := mem, sx_writes := [(M, H_EndSendMessage 0 n cb)], sending := True, send_message_size := n\<rparr>"
  have run: "send_from_buffer n wr cb t = (Inr (), t')"
    using len(3) mem(2)
    by (simp add: send_from_buffer_def then_x_def bind_x_def t1_def [symmetric] b_def [symmetric] wr mem_def [symmetric]
        async_write_some_def t'_def)
  show thesis
  proof (rule that [OF run])
    show "on_the_way env cb M t'"
      unfolding on_the_way_def using mem len(1) assms(2,5)
      by (intro disjI1 exI [of _ 0] exI [of _ n]) (auto simp: t'_def)
    show "same_frame t t'" by (simp add: same_frame_def t'_def t1_def)
  qed (use mem len in \<open>simp_all add: t'_def sendbuf_ok_def\<close>)
qed

lemma BeginSendMessage1_on:
  assumes "async_send_version t = 4 \<and> valid_message4 m \<and> message_fits 4096 m \<and> M = message4_bytes m
    \<or> async_send_version t = 2 \<and> valid_message2 (element_number env) m \<and> M = message2_bytes m"
    and "send_message_size t = length M" and "sx_writes t = []" and "M \<noteq> []" and "sendbuf_ok t"
  obtains t' where "BeginSendMessage1 env m cb t = (Inr (), t')" and "on_the_way env cb M t'" and "sending t' = sending t"
    and "same_frame t t'" and "sendbuf_ok t'"
proof -
  obtain w where w: "BeginWrite (element_number env) m (async_send_version t) (AsyncMessageWriter_Reset (sx_writer t)) = Inr (m, w)"
    and has: "writer_has env (async_send_version t) w M"
    by (rule BeginWrite_on [OF assms(1)])
  define t1 where "t1 = t\<lparr>sx_writer := w, async_send_bufs := []\<rparr>"
  obtain out rest w' where c: "writer_call (length M) t1 = (Inr (), t1\<lparr>async_send_bufs := out, sx_writer := w'\<rparr>)"
      and out: "out \<noteq> []" "M = out @ rest" and has': "writer_has env (async_send_version t) w' rest"
  proof (rule writer_call_on [of env t1 M])
    show "writer_has env (async_send_version t1) (sx_writer t1) M" using has by (simp add: t1_def)
    show "4096 \<le> length (sendbuf t1)" using assms(5) by (simp add: t1_def sendbuf_ok_def)
    show "M \<noteq> []" by (rule assms(4))
  qed (simp add: t1_def)
  define t' where "t' = t1\<lparr>async_send_bufs := out, sx_writer := w', sx_writes := [(out, H_EndSendMessage2 cb)]\<rparr>"
  have run: "BeginSendMessage1 env m cb t = (Inr (), t')"
    using w c assms(2,3)
    by (simp add: BeginSendMessage1_def then_x_def bind_x_def async_write_some_def t1_def t'_def)
  show thesis
  proof (rule that [OF run])
    show "on_the_way env cb M t'"
      unfolding on_the_way_def using out has' by (intro disjI2 exI [of _ rest]) (simp add: t'_def t1_def)
    show "same_frame t t'" by (simp add: same_frame_def t'_def t1_def)
  qed (use assms(5) in \<open>simp_all add: t'_def t1_def sendbuf_ok_def\<close>)
qed

lemma BeginSendMessage_on:
  assumes "transmits env (sx_send_version4 t) m M" and "sx_writes t = []" and "sendbuf_ok t"
  obtains t' where "BeginSendMessage env m cb t = (Inr (), t')" and "on_the_way env cb M t'" and "sending t'"
    and "same_frame t t'" and "sendbuf_ok t'"
proof (cases "sends_version4 (sx_send_version4 t) m")
  case True
  with assms(1) obtain n m' where c: "Message_ComputeSize4 (drop_routing env m) = Inr (n, m')"
    and v: "valid_message4 m'" "message_fits 4096 m'" and M: "M = message4_bytes m'"
    by (auto simp: transmits_def)
  obtain h where h: "Message_ComputeSize4 m' = Inr (MessageSize h, m')" "unat (MessageSize h) = length M" "header m' = Some h"
    using measured4 [OF v(1)] unfolding M by blast
  have n: "unat n = length M" using MessageComputeSize4_idem [OF c] h by simp
  have ne: "M \<noteq> []" using h(3) by (simp add: M header4_bytes_def bytes_of_string_def)
  show thesis
  proof (cases "sx_disable_async_io t")
    case d: True
    have lt: "length M < 2147483648" using valid_length_less(1) [OF v(1)] unfolding M .
    obtain t' where "send_from_buffer (unat n) (Message_Write4 m') cb t = (Inr (), t')"
      and t': "on_the_way env cb M t'" "sending t'" "same_frame t t'" "sendbuf_ok t'"
      using send_from_buffer_on [OF writes_message4 [OF v(1)] n [symmetric, unfolded M] _ assms(2) ne [unfolded M] assms(3)] lt n
      unfolding M by metis
    then show thesis using True d c by (intro that [of t']) (simp_all add: BeginSendMessage_def bind_x_def)
  next
    case d: False
    define t1 where "t1 = t\<lparr>sending := True, send_message_size := unat n, async_send_version := 4\<rparr>"
    have "async_send_version t1 = 4 \<and> valid_message4 m' \<and> message_fits 4096 m' \<and> M = message4_bytes m'
      \<or> async_send_version t1 = 2 \<and> valid_message2 (element_number env) m' \<and> M = message2_bytes m'"
      using v M by (simp add: t1_def)
    then obtain t' where "BeginSendMessage1 env m' cb t1 = (Inr (), t')"
      and t': "on_the_way env cb M t'" "sending t' = sending t1" "same_frame t1 t'" "sendbuf_ok t'"
      by (rule BeginSendMessage1_on) (use n ne assms(2,3) in \<open>simp_all add: t1_def sendbuf_ok_def\<close>)
    then show thesis using True d c
      by (intro that [of t']) (simp_all add: BeginSendMessage_def bind_x_def then_x_def t1_def [symmetric] same_frame_def, simp_all add: t1_def)
  qed
next
  case False
  with assms(1) obtain n m' where c: "Message_ComputeSize (element_number env) m = Inr (n, m')"
    and v: "valid_message2 (element_number env) m'" and M: "M = message2_bytes m'"
    by (auto simp: transmits_def)
  obtain h where h: "Message_ComputeSize (element_number env) m' = Inr (MessageSize h, m')" "unat (MessageSize h) = length M" "header m' = Some h"
    using measured2 [OF v] unfolding M by blast
  have n: "unat n = length M" using MessageComputeSize_idem [OF c] h by simp
  have ne: "M \<noteq> []" using h(3) by (simp add: M header2_bytes_def bytes_of_string_def)
  show thesis
  proof (cases "sx_disable_async_io t")
    case d: True
    have lt: "length M < 2147483648" using valid_length_less(2) [OF v] unfolding M .
    obtain t' where "send_from_buffer (unat n) (Message_Write (element_number env) m') cb t = (Inr (), t')"
      and t': "on_the_way env cb M t'" "sending t'" "same_frame t t'" "sendbuf_ok t'"
      using send_from_buffer_on [OF writes_message2 [OF v(1)] n [symmetric, unfolded M] _ assms(2) ne [unfolded M] assms(3)] lt n
      unfolding M by metis
    then show thesis using False d c by (intro that [of t']) (simp_all add: BeginSendMessage_def bind_x_def)
  next
    case d: False
    define t1 where "t1 = t\<lparr>async_send_version := 2, sending := True, send_message_size := unat n\<rparr>"
    have "async_send_version t1 = 4 \<and> valid_message4 m' \<and> message_fits 4096 m' \<and> M = message4_bytes m'
      \<or> async_send_version t1 = 2 \<and> valid_message2 (element_number env) m' \<and> M = message2_bytes m'"
      using v M by (simp add: t1_def)
    then obtain t' where "BeginSendMessage1 env m' cb t1 = (Inr (), t')"
      and t': "on_the_way env cb M t'" "sending t' = sending t1" "same_frame t1 t'" "sendbuf_ok t'"
      by (rule BeginSendMessage1_on) (use n ne assms(2,3) in \<open>simp_all add: t1_def sendbuf_ok_def\<close>)
    then show thesis using False d c
      by (intro that [of t']) (simp_all add: BeginSendMessage_def bind_x_def then_x_def t1_def [symmetric] same_frame_def, simp_all add: t1_def)
  qed
qed

end
