(* ===== verification/RR_Send_Steps.thy ===== *)
theory RR_Send_Steps
  imports RR_Sender_Laws "HOL-Library.Sublist"
begin

text \<open>
  The operations of the sending half in any order: the steps of a transport that messages are given to
  and that a stream takes portions of bytes from, and what holds after any number of them.
\<close>

section \<open>Steps\<close>

text \<open>
  A configuration is the transport and the bytes that the stream has taken.  Every step has a label;
  an operation that a caller sees fail with an exception is a step too, because it may change the state.
  The stream takes at least one byte of a write, unless the write has none.
\<close>

datatype send_label =
    Accepted message nat
  | Rejected message nat
  | Sent_internally message nat
  | Portion nat
  | Failure string
  | Pause nat
  | Resume
  | Closing

type_synonym send_config = "send_transport \<times> byte list"

inductive send_step :: "send_env \<Rightarrow> send_config \<Rightarrow> send_label \<Rightarrow> send_config \<Rightarrow> bool" for env :: send_env where
  accepted: "AsyncSendMessage env m cb t = (Inr (), t') \<Longrightarrow> send_step env (t, s) (Accepted m cb) (t', s)"
| rejected: "AsyncSendMessage env m cb t = (Inl e, t') \<Longrightarrow> std_exception e \<Longrightarrow> send_step env (t, s) (Rejected m cb) (t', s)"
| internal: "SimpleAsyncSendMessage env m cb t = (r, t') \<Longrightarrow> send_step env (t, s) (Sent_internally m cb) (t', s)"
| portion: "sx_writes t = (bufs, h) # ws \<Longrightarrow> 0 < n \<or> bufs = [] \<Longrightarrow> n \<le> length bufs
    \<Longrightarrow> run_send_handler env h None n (t\<lparr>sx_writes := ws\<rparr>) = (r, t')
    \<Longrightarrow> send_step env (t, s) (Portion n) (t', s @ take n bufs)"
| failure: "sx_writes t = (bufs, h) # ws
    \<Longrightarrow> run_send_handler env h (Some msg) 0 (t\<lparr>sx_writes := ws\<rparr>) = (r, t')
    \<Longrightarrow> send_step env (t, s) (Failure msg) (t', s)"
| pause: "AsyncPauseSend h t = (r, t') \<Longrightarrow> send_step env (t, s) (Pause h) (t', s)"
| resume: "AsyncResumeSend env t = (r, t') \<Longrightarrow> send_step env (t, s) Resume (t', s)"
| closing: "Close_send t = (r, t') \<Longrightarrow> send_step env (t, s) Closing (t', s)"

inductive_cases send_step_cases: "send_step env (t, s) l (t', s')"

inductive send_run :: "send_env \<Rightarrow> send_config \<Rightarrow> send_label list \<Rightarrow> send_config \<Rightarrow> bool" for env :: send_env where
  start: "send_run env c [] c"
| more: "send_run env c tr c' \<Longrightarrow> send_step env c' l c'' \<Longrightarrow> send_run env c (tr @ [l]) c''"

lemma send_run_trans:
  "send_run env c' tr' c'' \<Longrightarrow> send_run env c tr c' \<Longrightarrow> send_run env c (tr @ tr') c''"
  by (induction rule: send_run.induct) (simp, metis send_run.more append_assoc)

text \<open>An invariant of the steps holds after every run.\<close>

lemma send_run_invariant:
  assumes "send_run env (t, s) tr (t', s')" and "I t"
    and "\<And>t s l t' s'. I t \<Longrightarrow> send_step env (t, s) l (t', s') \<Longrightarrow> I t'"
  shows "I t'"
  using assms(1,2)
proof (induction "(t, s)" tr "(t', s')" arbitrary: t' s' rule: send_run.induct)
  case (more tr c' l)
  obtain u v where c: "c' = (u, v)" by (cases c')
  from more(2) [OF c more(4)] more(3) show ?case unfolding c by (rule assms(3))
qed

section \<open>What the parts of a step do, whatever the message\<close>

definition one_write :: "send_transport \<Rightarrow> bool" where
  "one_write t \<longleftrightarrow>
     length (sx_writes t) \<le> 1 \<and> (sx_writes t \<noteq> [] \<longrightarrow> sending t)
     \<and> (send_paused t \<longrightarrow> send_pause_request t \<and> \<not> sending t)"

lemma writer_call_cases:
  assumes "writer_call n t = (r, t')"
  obtains bufs w where "t' = t\<lparr>async_send_bufs := bufs, sx_writer := w\<rparr>"
proof -
  have "t' = t\<lparr>async_send_bufs := async_send_bufs t', sx_writer := sx_writer t'\<rparr>"
    using assms by (auto simp: writer_call_def Let_def split: if_splits option.splits sum.splits prod.splits)
  then show thesis by (rule that)
qed

definition begun :: "send_transport \<Rightarrow> unit result \<Rightarrow> send_transport \<Rightarrow> bool" where
  "begun t r t' \<longleftrightarrow>
     same_frame t t' \<and> (sending t \<longrightarrow> sending t')
     \<and> (case r of Inr _ \<Rightarrow> sending t' \<and> (\<exists>w. sx_writes t' = sx_writes t @ [w]) | Inl _ \<Rightarrow> sx_writes t' = sx_writes t)"

lemma send_from_buffer_begun:
  assumes "send_from_buffer n wr cb t = (r, t')"
  shows "begun t r t'"
  using assms
  by (cases "wr (ArrayBinaryWriter (if n > length (sendbuf t) then replicate n 0 else sendbuf t) 0 n)")
    (auto simp: send_from_buffer_def then_x_def bind_x_def async_write_some_def begun_def same_frame_def split: if_splits)

lemma BeginSendMessage1_begun:
  assumes "BeginSendMessage1 env m cb t = (r, t')" and "sending t"
  shows "begun t r t'"
proof (cases "BeginWrite (element_number env) m (async_send_version t) (AsyncMessageWriter_Reset (sx_writer t))")
  case (Inl e)
  then show ?thesis using assms
    by (auto simp: BeginSendMessage1_def then_x_def bind_x_def begun_def same_frame_def)
next
  case (Inr y)
  obtain m' w where y: "y = (m', w)" by (cases y)
  define t1 where "t1 = t\<lparr>sx_writer := w, async_send_bufs := []\<rparr>"
  obtain r1 t2 where c: "writer_call (send_message_size t1) t1 = (r1, t2)" by (cases "writer_call (send_message_size t1) t1")
  obtain bufs w' where t2: "t2 = t1\<lparr>async_send_bufs := bufs, sx_writer := w'\<rparr>" by (rule writer_call_cases [OF c])
  have "(r, t') = (case r1 of Inl e \<Rightarrow> (Inl e, t2) | Inr _ \<Rightarrow> async_write_some (async_send_bufs t2) (H_EndSendMessage2 cb) t2)"
    using assms(1) Inr c unfolding y
    by (auto simp: BeginSendMessage1_def then_x_def bind_x_def t1_def split: sum.splits)
  then show ?thesis using assms(2)
    by (auto simp: t2 t1_def begun_def same_frame_def async_write_some_def split: sum.splits)
qed

lemma BeginSendMessage_begun:
  assumes "BeginSendMessage env m cb t = (r, t')"
  shows "begun t r t'"
proof -
  have 1: "begun t r t'" if "BeginSendMessage1 env m' cb (t\<lparr>async_send_version := v, sending := True, send_message_size := n\<rparr>) = (r, t')"
    for m' v n
    using BeginSendMessage1_begun [OF that] by (auto simp: begun_def same_frame_def split: sum.splits)
  have 2: "begun t r t'" if "BeginSendMessage1 env m' cb (t\<lparr>sending := True, send_message_size := n, async_send_version := v\<rparr>) = (r, t')"
    for m' v n
    using BeginSendMessage1_begun [OF that] by (auto simp: begun_def same_frame_def split: sum.splits)
  have 3: "begun u (Inl e) u" for e u by (simp add: begun_def)
  from assms show ?thesis
    by (auto simp: BeginSendMessage_def bind_x_def then_x_def 3 split: if_splits sum.splits prod.splits
        intro: 1 2 send_from_buffer_begun)
qed

text \<open>
  The handlers begin with nothing outstanding; \<open>settles\<close> is what they leave: at most one write, and a
  queue of which a first message or everything has been taken.
\<close>

definition quiet :: "send_transport \<Rightarrow> bool" where
  "quiet t \<longleftrightarrow> sx_writes t = [] \<and> \<not> send_paused t"

definition settles :: "send_transport \<Rightarrow> send_transport \<Rightarrow> bool" where
  "settles t t' \<longleftrightarrow> one_write t' \<and> suffix (send_queue t') (send_queue t)"

lemma quiet_updates [simp]:
  "quiet (t\<lparr>sending := b\<rparr>) = quiet t" "quiet (t\<lparr>send_queue := q\<rparr>) = quiet t" "quiet (t\<lparr>sx_events := es\<rparr>) = quiet t"
  "quiet (t\<lparr>async_send_bufs := bs\<rparr>) = quiet t" "quiet (t\<lparr>sx_writer := w\<rparr>) = quiet t" "quiet (t\<lparr>send_message_size := n\<rparr>) = quiet t"
  "quiet (t\<lparr>async_send_version := v\<rparr>) = quiet t" "quiet (t\<lparr>send_pause_request := b\<rparr>) = quiet t"
  by (simp_all add: quiet_def)

lemma quiet_one_write: "quiet t \<Longrightarrow> one_write t"
  by (simp add: quiet_def one_write_def)

lemma quiet_settles: "quiet t' \<Longrightarrow> suffix (send_queue t') (send_queue t) \<Longrightarrow> settles t t'"
  by (simp add: settles_def quiet_one_write)

lemma settles_trans: "suffix (send_queue t') (send_queue t) \<Longrightarrow> settles t' t'' \<Longrightarrow> settles t t''"
  unfolding settles_def by (metis suffix_order.trans)

lemma settles_events [simp]: "settles t (t'\<lparr>sx_events := es\<rparr>) = settles t t'"
  by (simp add: settles_def one_write_def)

lemma Close_send_cases:
  assumes "Close_send t = (r, t')"
  shows "r = Inr ()" and "sx_writes t' = sx_writes t" and "sending t' = sending t" and "send_paused t' = send_paused t"
    and "send_pause_request t' = send_pause_request t" and "send_queue t' = send_queue t \<or> send_queue t' = []"
    and "\<not> sx_connected t'"
  using assms by (auto simp: Close_send_def Let_def split: if_splits)

lemma quiet_Close: "Close_send t = (r, t') \<Longrightarrow> quiet t \<Longrightarrow> quiet t'"
  using Close_send_cases [of t r t'] by (auto simp: quiet_def)

lemma suffix_Close: "Close_send t = (r, t') \<Longrightarrow> suffix (send_queue t') (send_queue t)"
  using Close_send_cases(6) [of t r t'] by auto

lemma settles_begun:
  assumes "begun t r t'" and "quiet t"
  shows "settles t t'"
  using assms by (auto simp: begun_def settles_def one_write_def quiet_def same_frame_def split: sum.splits)

lemma settles_begin_next:
  assumes "begin_next env t = (r, t')" and "quiet t"
  shows "settles t t'"
proof (cases "send_queue t")
  case Nil
  then show ?thesis using assms by (auto simp: begin_next_def intro: quiet_settles)
next
  case (Cons x q)
  obtain m cb where x: "x = (m, cb)" by (cases x)
  define t1 where "t1 = t\<lparr>send_queue := q\<rparr>"
  obtain r0 t2 where b: "BeginSendMessage env m cb t1 = (r0, t2)" by (cases "BeginSendMessage env m cb t1")
  have s: "settles t t2"
    by (rule settles_trans [OF _ settles_begun [OF BeginSendMessage_begun [OF b]]])
      (use assms(2) Cons in \<open>simp_all add: t1_def suffix_Cons\<close>)
  have "t' = t2 \<or> (\<exists>es. t' = t2\<lparr>sx_events := es\<rparr>)"
    using assms(1) b Cons unfolding x
    by (cases r0) (auto simp: begin_next_def then_x_def bind_x_def try_x_def t1_def InvokeHandlerWithException_def
        send_event_x_def split: if_splits)
  then show ?thesis using s by auto
qed

lemma settles_EndSendMessage1:
  assumes "EndSendMessage1 env t = (r, t')" and "quiet t"
  shows "settles t t'"
proof (cases "send_queue t \<noteq> [] \<and> sx_connected t \<and> \<not> send_pause_request t")
  case True
  then show ?thesis using assms by (simp add: EndSendMessage1_def settles_begin_next)
next
  case False
  then show ?thesis using assms
    by (auto simp: EndSendMessage1_def then_x_def bind_x_def settles_def one_write_def quiet_def split: if_splits)
qed

lemma send_error_cases:
  assumes "send_error cb msg t = (r, t')" and "quiet t"
  shows "r = Inr ()" and "quiet t'" and "suffix (send_queue t') (send_queue t)"
proof -
  obtain r0 t1 where c: "Close_send t = (r0, t1)" by (cases "Close_send t")
  have "r0 = Inr ()" using Close_send_cases(1) [OF c] .
  then have "r = Inr ()" "t' = t1\<lparr>sending := False, sx_events := sx_events t1 @ [Handler_invoked cb (Some (Exn ConnectionException msg))]\<rparr>"
    using assms(1) c
    by (auto simp: send_error_def then_x_def bind_x_def InvokeHandlerWithException_def send_event_x_def)
  then show "r = Inr ()" "quiet t'" "suffix (send_queue t') (send_queue t)"
    using quiet_Close [OF c assms(2)] suffix_Close [OF c] by simp_all
qed

text \<open>A handler that offers what is left to the stream is \<open>sending\<close> still.\<close>

lemma settles_write:
  assumes "quiet t" and "sending t"
  shows "settles t (t\<lparr>sx_writes := [w]\<rparr>)"
  using assms by (simp add: settles_def one_write_def quiet_def)

lemma settles_EndSendMessage:
  assumes "EndSendMessage env sp err n len cb t = (r, t')" and "quiet t" and "sending t"
  shows "settles t t'"
proof -
  have close: "settles t u'" if "Close_send u = (r0, u')" "settles t u" for u r0 u'
    using Close_send_cases [OF that(1)] suffix_Close [OF that(1)] that(2)
    unfolding settles_def one_write_def by (metis suffix_order.trans)
  define body where "body = (case err of
          Some message \<Rightarrow> then_x (send_error cb message) (return_x True)
        | None \<Rightarrow>
            if n < len - sp then
              with_x (\<lambda>t.
                let new_startpos = sp + n in
                then_x (async_write_some (take (len - new_startpos) (drop new_startpos (sendbuf t)))
                          (H_EndSendMessage new_startpos len cb))
                  (return_x True))
            else then_x (EndSendMessage1 env) (return_x False))"
  obtain r1 t1 where b: "body t = (r1, t1)" by (cases "body t")
  have s1: "settles t t1"
  proof (cases err)
    case (Some msg)
    obtain r0 u where e: "send_error cb msg t = (r0, u)" by (cases "send_error cb msg t")
    note u = send_error_cases [OF e assms(2)]
    have "t1 = u" using b Some e u(1) by (simp add: body_def then_x_def bind_x_def)
    then show ?thesis using u by (simp add: quiet_settles)
  next
    case None
    obtain r0 u where e: "EndSendMessage1 env t = (r0, u)" by (cases "EndSendMessage1 env t")
    have "t1 = u \<or> (\<exists>w. t1 = t\<lparr>sx_writes := [w]\<rparr>)"
      using b None e assms(2)
      by (auto simp: body_def then_x_def bind_x_def async_write_some_def Let_def quiet_def split: sum.splits if_splits)
    then show ?thesis using settles_EndSendMessage1 [OF e assms(2)] settles_write [OF assms(2,3)] by blast
  qed
  obtain r2 t2 where c: "try_x body (\<lambda>_. then_x Close_send (return_x False)) t = (r2, t2)"
    by (cases "try_x body (\<lambda>_. then_x Close_send (return_x False)) t")
  obtain r3 t3 where cl: "Close_send t1 = (r3, t3)" by (cases "Close_send t1")
  have "t2 = t1 \<or> t2 = t3"
    using b c cl by (auto simp: try_x_def then_x_def bind_x_def split: sum.splits if_splits)
  with s1 close [OF cl s1] have s2: "settles t t2" by auto
  have "(r, t') = bind_x (try_x body (\<lambda>_. then_x Close_send (return_x False)))
      (\<lambda>returned. if returned then return_x () else InvokeHandler cb) t"
    using assms(1) by (simp add: EndSendMessage_def body_def)
  then show ?thesis using s2 c by (auto simp: bind_x_def InvokeHandler_def send_event_x_def split: sum.splits if_splits)
qed

text \<open>What a handler of the resumable writer does before its \<open>catch\<close>.\<close>

definition EndSendMessage2_try :: "string option \<Rightarrow> nat \<Rightarrow> nat \<Rightarrow> bool tx" where
  "EndSendMessage2_try err n cb =
     (case err of
        Some message \<Rightarrow> then_x (send_error cb message) (return_x True)
      | None \<Rightarrow>
          then_x (modify_x (\<lambda>t. t\<lparr>async_send_bufs := drop n (async_send_bufs t)\<rparr>))
            (with_x (\<lambda>t.
             if async_send_bufs t \<noteq> [] then
               then_x (async_write_some (async_send_bufs t) (H_EndSendMessage2 cb)) (return_x True)
             else
               bind_x (lift_x (WriteRemaining (sx_writer t))) (\<lambda>(remaining, _).
               if remaining > 0 then
                 then_x (writer_call remaining)
                   (with_x (\<lambda>t. then_x (async_write_some (async_send_bufs t) (H_EndSendMessage2 cb)) (return_x True)))
               else return_x False))))"

lemma EndSendMessage2_try_cases:
  assumes "EndSendMessage2_try err n cb t = (r, t')" and "quiet t" and "sending t"
  shows "suffix (send_queue t') (send_queue t) \<and> (if r = Inr True then settles t t' else quiet t')"
proof (cases err)
  case (Some msg)
  obtain r0 u where e: "send_error cb msg t = (r0, u)" by (cases "send_error cb msg t")
  show ?thesis using Some assms(1) e send_error_cases [OF e assms(2)]
    by (auto simp: EndSendMessage2_try_def then_x_def bind_x_def quiet_settles)
next
  case None
  define u where "u = t\<lparr>async_send_bufs := drop n (async_send_bufs t)\<rparr>"
  have u: "quiet u" "sending u" "send_queue u = send_queue t" "sx_writes u = []"
    using assms(2,3) by (simp_all add: u_def) (simp add: quiet_def)
  obtain y where W: "WriteRemaining (sx_writer u) = y" by blast
  have W': "y = Inr (k, w) \<Longrightarrow> w = sx_writer u" for k w
    using W by (auto simp: WriteRemaining_def message_len_w_def bind_s_def split: if_splits)
  show ?thesis
  proof (cases "async_send_bufs u = []")
    case False
    then have "r = Inr True \<and> t' = u\<lparr>sx_writes := [(async_send_bufs u, H_EndSendMessage2 cb)]\<rparr>"
      using assms(1) None u by (auto simp: EndSendMessage2_try_def then_x_def bind_x_def async_write_some_def u_def [symmetric])
    then show ?thesis using settles_write [OF u(1,2)] u(3) by (simp add: settles_def)
  next
    case True
    have run: "(r, t') = (case y of Inl e \<Rightarrow> (Inl e, u)
        | Inr (k, _) \<Rightarrow> (if k > 0 then then_x (writer_call k)
            (with_x (\<lambda>t. then_x (async_write_some (async_send_bufs t) (H_EndSendMessage2 cb)) (return_x True))) u
          else (Inr False, u)))"
      using assms(1) None True W
      by (auto simp: EndSendMessage2_try_def then_x_def bind_x_def u_def [symmetric] split: sum.splits)
    show ?thesis
    proof (cases "\<exists>k w. y = Inr (k, w) \<and> k > 0")
      case False
      then have "t' = u \<and> r \<noteq> Inr True" using run by (auto split: sum.splits prod.splits)
      then show ?thesis using u by simp
    next
      case True
      then obtain k w where y: "y = Inr (k, w)" "k > 0" by blast
      obtain r1 v where c: "writer_call k u = (r1, v)" by (cases "writer_call k u")
      obtain bufs w' where v: "v = u\<lparr>async_send_bufs := bufs, sx_writer := w'\<rparr>" by (rule writer_call_cases [OF c])
      have v': "quiet v" "sending v" "send_queue v = send_queue t" "sx_writes v = []" using u by (simp_all add: v)
      have "r \<noteq> Inr True \<and> t' = v \<or> r = Inr True \<and> t' = v\<lparr>sx_writes := [(async_send_bufs v, H_EndSendMessage2 cb)]\<rparr>"
        using run y c v'(4) by (cases r1) (auto simp: then_x_def bind_x_def async_write_some_def)
      then show ?thesis using settles_write [OF v'(1,2)] v' by (auto simp: settles_def)
    qed
  qed
qed

lemma settles_EndSendMessage2:
  assumes "EndSendMessage2 env err n cb t = (r, t')" and "quiet t" and "sending t"
  shows "settles t t'"
proof -
  define handler where "handler = (\<lambda>e. then_x Close_send
             (then_x (InvokeHandlerWithException cb (Exn ConnectionException (''Send message error: '' @ what_text env e)))
                     (return_x False)))"
  define after where "after = (\<lambda>returned. if returned then return_x ()
       else then_x (try_x (EndSendMessage1 env) (\<lambda>_. Close_send)) (InvokeHandler cb))"
  have E: "(r, t') = bind_x (try_x (EndSendMessage2_try err n cb) handler) after t"
    using assms(1) by (simp add: EndSendMessage2_def EndSendMessage2_try_def handler_def after_def)
  obtain r1 t1 where b: "EndSendMessage2_try err n cb t = (r1, t1)" by (cases "EndSendMessage2_try err n cb t")
  from EndSendMessage2_try_cases [OF b assms(2,3)]
  have s1: "suffix (send_queue t1) (send_queue t)" "if r1 = Inr True then settles t t1 else quiet t1" by blast+
  have after: "settles u u'" if "after False u = (r0, u')" "quiet u" for r0 u u'
  proof -
    obtain r2 v where e: "EndSendMessage1 env u = (r2, v)" by (cases "EndSendMessage1 env u")
    have s: "settles u v" by (rule settles_EndSendMessage1 [OF e that(2)])
    obtain r3 w where c: "Close_send v = (r3, w)" by (cases "Close_send v")
    have sw: "settles u w"
      using s Close_send_cases [OF c] suffix_Close [OF c] unfolding settles_def one_write_def by (metis suffix_order.trans)
    have "u' = v \<or> (\<exists>es. u' = v\<lparr>sx_events := es\<rparr> \<or> u' = w\<lparr>sx_events := es\<rparr>)"
      using that(1) e c Close_send_cases(1) [OF c]
      by (auto simp: after_def then_x_def bind_x_def try_x_def InvokeHandler_def send_event_x_def split: sum.splits if_splits)
    then show ?thesis using s sw by auto
  qed
  obtain r2 t2 where h: "handler (projl r1) t1 = (r2, t2)" by (cases "handler (projl r1) t1")
  obtain r4 t4 where c: "Close_send t1 = (r4, t4)" by (cases "Close_send t1")
  have h': "r2 = Inr False \<and> (\<exists>es. t2 = t4\<lparr>sx_events := es\<rparr>)"
    using h c Close_send_cases(1) [OF c]
    by (auto simp: handler_def then_x_def bind_x_def InvokeHandlerWithException_def send_event_x_def)
  have q2: "quiet t2 \<and> suffix (send_queue t2) (send_queue t)" if "r1 \<noteq> Inr True"
    using h' s1 that quiet_Close [OF c] suffix_Close [OF c] by (auto intro: suffix_order.trans)
  show ?thesis
  proof (cases r1)
    case (Inl e)
    then have q: "quiet t1" "quiet t2 \<and> suffix (send_queue t2) (send_queue t)" using s1(2) q2 by simp_all
    show ?thesis
    proof (cases "std_exception e")
      case True
      then have "after False t2 = (r, t')" using E b Inl h h' by (simp add: bind_x_def try_x_def)
      from after [OF this] q show ?thesis by (blast intro: settles_trans)
    next
      case False
      then have "t' = t1" using E b Inl by (simp add: bind_x_def try_x_def)
      with q(1) s1(1) show ?thesis by (simp add: quiet_settles)
    qed
  next
    case (Inr x)
    then have A: "after x t1 = (r, t')" using E b by (simp add: bind_x_def try_x_def)
    show ?thesis
    proof (cases x)
      case True
      then have "t' = t1" using A by (simp add: after_def)
      then show ?thesis using s1(2) Inr True by simp
    next
      case False
      then show ?thesis using after [of t1 r t'] A s1 Inr by (auto intro: settles_trans)
    qed
  qed
qed

lemma settles_run_send_handler:
  assumes "run_send_handler env h err n t = (r, t')" and "quiet t" and "sending t"
  shows "settles t t'"
  using assms by (cases h) (auto simp: run_send_handler_def intro: settles_EndSendMessage settles_EndSendMessage2)


section \<open>The queue\<close>

text \<open>No two waiting messages are packets of one wire, or connection tests of one route.\<close>

definition distinct_messages :: "message \<Rightarrow> message \<Rightarrow> bool" where
  "distinct_messages m m' \<longleftrightarrow> \<not> same_wire m m' \<and> \<not> both_connection_test m m'"

definition no_flood :: "(message \<times> nat) list \<Rightarrow> bool" where
  "no_flood q \<longleftrightarrow> sorted_wrt (\<lambda>a b. distinct_messages (fst a) (fst b)) q"

lemma same_route_sym: "same_route m m' \<Longrightarrow> same_route m' m"
  and same_route_trans: "same_route m m' \<Longrightarrow> same_route m' m'' \<Longrightarrow> same_route m m''"
  by (auto simp: same_route_def split: option.splits)

lemma same_wire_sym: "same_wire m m' \<longleftrightarrow> same_wire m' m"
  using same_route_sym unfolding same_wire_def by (auto split: list.splits)

lemma both_connection_test_sym: "both_connection_test m m' \<longleftrightarrow> both_connection_test m' m"
  using same_route_sym unfolding both_connection_test_def by (auto split: list.splits)

lemma distinct_messages_sym: "distinct_messages m m' \<longleftrightarrow> distinct_messages m' m"
  using same_wire_sym both_connection_test_sym by (auto simp: distinct_messages_def)

lemma same_wire_trans: "same_wire m m' \<Longrightarrow> same_wire m' m'' \<Longrightarrow> same_wire m m''"
  using same_route_trans unfolding same_wire_def by (auto split: list.splits)

lemma same_wire_test: "same_wire m m' \<Longrightarrow> \<not> both_connection_test m' m'' \<and> \<not> both_connection_test m'' m'"
  by (auto simp: same_wire_def both_connection_test_def split: list.splits)

lemma same_wire_distinct: "same_wire m m' \<Longrightarrow> distinct_messages m m'' = distinct_messages m' m''"
  using same_wire_trans same_wire_sym same_wire_test unfolding distinct_messages_def by metis

text \<open>The three outcomes of the loop over the queue.\<close>

lemma scan_queue_new:
  assumes "\<forall>ee \<in> set q. distinct_messages (fst ee) (fst e)"
  shows "scan_queue e b q = (q, [], b, False)"
  using assms by (induction q) (simp_all add: distinct_messages_def)

lemma scan_queue_test:
  assumes "\<exists>ee \<in> set q. both_connection_test (fst ee) (fst e)"
  shows "scan_queue e b q = (q, [], b, True)"
  using assms
proof (induction q)
  case (Cons ee q)
  have w: "\<not> same_wire (fst ee) (fst e)" using Cons.prems same_wire_test by blast
  show ?case
  proof (cases "both_connection_test (fst ee) (fst e)")
    case False
    then have "\<exists>ee \<in> set q. both_connection_test (fst ee) (fst e)" using Cons.prems by simp
    from Cons.IH [OF this] show ?thesis using False w by simp
  qed simp
qed simp

lemma scan_queue_wire:
  assumes "no_flood (as @ ee # bs)" and "same_wire (fst ee) (fst e)"
  shows "scan_queue e False (as @ ee # bs) = (as @ e # bs, [snd ee], True, False)"
proof -
  have d: "distinct_messages (fst x) (fst e)" if "x \<in> set as \<union> set bs" for x
    using assms(1) that same_wire_distinct [OF assms(2)]
    unfolding no_flood_def sorted_wrt_append by (auto simp: distinct_messages_sym)
  have "\<not> both_connection_test (fst ee) (fst e)" using same_wire_test [OF assms(2)] same_wire_sym assms(2) same_wire_test by blast
  then have "scan_queue e False (ee # bs) = (e # bs, [snd ee], True, False)"
    using assms(2) scan_queue_new [of bs e True] d by simp
  moreover have "\<forall>x \<in> set as. \<not> both_connection_test (fst x) (fst e) \<and> \<not> same_wire (fst x) (fst e)"
    using d by (simp add: distinct_messages_def)
  ultimately show ?thesis by (induction as) simp_all
qed

lemma queue_cases:
  obtains (test) "\<exists>ee \<in> set q. both_connection_test (fst ee) m"
  | (wire) as ee bs where "q = as @ ee # bs" "same_wire (fst ee) m"
  | (new) "\<forall>ee \<in> set q. distinct_messages (fst ee) m"
proof -
  consider (1) "\<exists>ee \<in> set q. both_connection_test (fst ee) m" | (2) "\<exists>ee \<in> set q. same_wire (fst ee) m"
    | (3) "\<forall>ee \<in> set q. distinct_messages (fst ee) m" unfolding distinct_messages_def by blast
  then show thesis
  proof cases
    case 2
    then obtain ee where ee: "ee \<in> set q" "same_wire (fst ee) m" by blast
    from split_list [OF ee(1)] obtain as bs where "q = as @ ee # bs" by blast
    then show thesis using ee(2) by (rule wire)
  qed (rule test new, assumption)+
qed

lemma no_flood_suffix: "suffix q q' \<Longrightarrow> no_flood q' \<Longrightarrow> no_flood q"
  by (auto simp: suffix_def no_flood_def sorted_wrt_append)

lemma enqueue_message_no_flood:
  assumes "enqueue_message m cb t = (r, t')" and "no_flood (send_queue t)"
  shows "no_flood (send_queue t')"
proof (cases rule: queue_cases [of "send_queue t" m])
  case test
  then have "send_queue t' = send_queue t" using assms(1) by (auto simp: enqueue_message_def scan_queue_test)
  with assms(2) show ?thesis by simp
next
  case (wire as ee bs)
  then have "send_queue t' = as @ (m, cb) # bs"
    using assms scan_queue_wire [of as ee bs "(m, cb)"] by (auto simp: enqueue_message_def)
  moreover have "no_flood (as @ (m, cb) # bs)"
  proof -
    have "distinct_messages (fst ee) m' = distinct_messages m m'" "distinct_messages m' (fst ee) = distinct_messages m' m" for m'
      using same_wire_distinct [OF wire(2), of m'] distinct_messages_sym by blast+
    with assms(2) show ?thesis unfolding wire(1) no_flood_def by (simp add: sorted_wrt_append)
  qed
  ultimately show ?thesis by simp
next
  case new
  then have "send_queue t' = send_queue t @ [(m, cb)]"
    using assms(1) by (auto simp: enqueue_message_def scan_queue_new)
  with assms(2) new show ?thesis by (simp add: no_flood_def sorted_wrt_append)
qed


section \<open>Every step keeps one write and a queue without doubles\<close>

text \<open>The measured message is queued or begun; or it is refused, and nothing happens.\<close>

definition measure_message :: "send_env \<Rightarrow> bool \<Rightarrow> message \<Rightarrow> (32 word \<times> message) result" where
  "measure_message env v4 m =
     (if \<not> sends_version4 v4 m then Message_ComputeSize (element_number env) m else Message_ComputeSize4 m)"

lemma AsyncSendMessage_cases:
  assumes "AsyncSendMessage env m cb t = (r, t')"
  obtains (refused) e b where "r = Inl e" "t' = t\<lparr>send_large_transfer_authorized := b\<rparr>"
  | (queued) n m1 b where "sx_connected t" "measure_message env (sx_send_version4 t) m = Inr (n, m1)" "sending t \<or> send_paused t"
      "enqueue_message m1 cb (t\<lparr>send_large_transfer_authorized := b\<rparr>) = (r, t')"
  | (begins) n m1 b where "sx_connected t" "measure_message env (sx_send_version4 t) m = Inr (n, m1)" "\<not> sending t" "\<not> send_paused t"
      "BeginSendMessage env m1 cb (t\<lparr>send_large_transfer_authorized := b\<rparr>) = (r, t')"
proof -
  have id: "t = t\<lparr>send_large_transfer_authorized := send_large_transfer_authorized t\<rparr>" by simp
  have R: thesis if "r = Inl e" "t' = t" for e using refused [OF that(1)] that(2) id by metis
  show thesis
  proof (cases "sx_connected t")
    case False
    then show thesis using assms by (intro R) (auto simp: AsyncSendMessage_def)
  next
    case True
    note c = True
    show thesis
    proof (cases "measure_message env (sx_send_version4 t) m")
      case (Inl e)
      then show thesis using assms c by (intro R [of e]) (auto simp: AsyncSendMessage_def measure_message_def bind_x_def)
    next
      case (Inr y)
      obtain n m1 where y: "y = (n, m1)" by (cases y)
      have ms: "(if \<not> sends_version4 (sx_send_version4 t) m then Message_ComputeSize (element_number env) m else Message_ComputeSize4 m) = Inr (n, m1)"
        using Inr y by (simp add: measure_message_def)
      define k where "k = (if sending t \<or> send_paused t then enqueue_message m1 cb else BeginSendMessage env m1 cb)"
      have "(\<exists>e. r = Inl e \<and> t' = t) \<or> (\<exists>b. k (t\<lparr>send_large_transfer_authorized := b\<rparr>) = (r, t'))"
      proof (cases "numeric_cast_i32 (unat n)")
        case (Inl e)
        then show ?thesis using assms c ms by (auto simp: AsyncSendMessage_def bind_x_def)
      next
        case (Inr i)
        have "AsyncSendMessage env m cb t = (if i > sx_max_message_size t - 100 then throw_x ProtocolException ''Message larger than maximum message size''
            else then_x
             (if send_large_transfer_authorized t then return_x ()
              else if IsLargeTransferAuthorized env then modify_x (\<lambda>t. t\<lparr>send_large_transfer_authorized := True\<rparr>)
              else if n > 512 * 1024 then throw_x ProtocolException ''Attempt to send large message before authorized''
              else return_x ()) k) t"
          using c ms Inr by (simp add: AsyncSendMessage_def bind_x_def k_def [symmetric])
        then show ?thesis unfolding assms by (auto simp: then_x_def bind_x_def split: if_splits) (metis id)+
      qed
      then show thesis
      proof (elim disjE exE conjE)
        fix b assume k: "k (t\<lparr>send_large_transfer_authorized := b\<rparr>) = (r, t')"
        show thesis
        proof (cases "sending t \<or> send_paused t")
          case True
          then show thesis using queued [OF c Inr [unfolded y] True] k by (simp add: k_def)
        next
          case False
          then show thesis using begins [OF c Inr [unfolded y]] k by (simp add: k_def)
        qed
      qed (rule R)
    qed
  qed
qed

definition orderly :: "send_transport \<Rightarrow> bool" where
  "orderly t \<longleftrightarrow> one_write t \<and> no_flood (send_queue t)"

lemma orderly_settles: "settles t t' \<Longrightarrow> no_flood (send_queue t) \<Longrightarrow> orderly t'"
  by (auto simp: orderly_def settles_def intro: no_flood_suffix)

lemma orderly_Close:
  assumes "Close_send t = (r, t')" and "orderly t"
  shows "orderly t'"
  using Close_send_cases [OF assms(1)] assms(2) by (auto simp: orderly_def one_write_def no_flood_def)

lemma orderly_AsyncSendMessage:
  assumes "AsyncSendMessage env m cb t = (r, t')" and "orderly t"
  shows "orderly t'"
  using assms(1)
proof (cases rule: AsyncSendMessage_cases)
  case (refused e b)
  then show ?thesis using assms(2) by (simp add: orderly_def one_write_def)
next
  case (queued n m1 b)
  then have "no_flood (send_queue t')" using enqueue_message_no_flood assms(2) by (force simp: orderly_def)
  moreover have "one_write t'"
    using queued(4) assms(2) by (auto simp: enqueue_message_def orderly_def one_write_def split: prod.splits)
  ultimately show ?thesis by (simp add: orderly_def)
next
  case (begins n m1 b)
  then have "quiet (t\<lparr>send_large_transfer_authorized := b\<rparr>)" using assms(2) by (auto simp: orderly_def one_write_def quiet_def)
  from settles_begun [OF BeginSendMessage_begun [OF begins(5)] this] show ?thesis
    using assms(2) by (intro orderly_settles [of "t\<lparr>send_large_transfer_authorized := b\<rparr>"]) (simp_all add: orderly_def)
qed

lemma orderly_SimpleAsyncSendMessage:
  assumes "SimpleAsyncSendMessage env m cb t = (r, t')" and "orderly t"
  shows "orderly t'"
proof -
  obtain r0 u where s: "AsyncSendMessage env m cb t = (r0, u)" by (cases "AsyncSendMessage env m cb t")
  obtain r1 v where c: "Close_send u = (r1, v)" by (cases "Close_send u")
  have u: "orderly u" by (rule orderly_AsyncSendMessage [OF s assms(2)])
  moreover have "orderly v" by (rule orderly_Close [OF c u])
  moreover have "t' = t \<or> t' = u \<or> t' = v"
    using assms(1) s c by (auto simp: SimpleAsyncSendMessage_def try_x_def split: if_splits sum.splits)
  ultimately show ?thesis using assms(2) by blast
qed

lemma orderly_AsyncPauseSend: "AsyncPauseSend h t = (r, t') \<Longrightarrow> orderly t \<Longrightarrow> orderly t'"
  by (auto simp: AsyncPauseSend_def then_x_def bind_x_def send_event_x_def orderly_def one_write_def split: if_splits)

lemma orderly_AsyncResumeSend:
  assumes "AsyncResumeSend env t = (r, t')" and "orderly t"
  shows "orderly t'"
proof -
  define u where "u = t\<lparr>send_pause_request := False, send_paused := False\<rparr>"
  have u: "orderly u" "quiet u \<or> sending u" using assms(2) by (auto simp: u_def orderly_def one_write_def quiet_def)
  have "t' = t \<or> t' = u \<or> \<not> sending u \<and> begin_next env u = (r, t')"
    using assms(1) by (auto simp: AsyncResumeSend_def then_x_def bind_x_def u_def [symmetric] split: if_splits)
  then show ?thesis using assms(2) u orderly_settles [OF settles_begin_next [of env u r t']] by (auto simp: orderly_def)
qed

lemma orderly_step:
  assumes "send_step env (t, s) l (t', s')" and "orderly t"
  shows "orderly t'"
proof -
  have handler: "orderly u" if "sx_writes t = w # ws" "run_send_handler env h e n (t\<lparr>sx_writes := ws\<rparr>) = (r, u)" for w ws h e n r u
  proof -
    have "quiet (t\<lparr>sx_writes := ws\<rparr>)" "sending t" using assms(2) that(1) by (auto simp: orderly_def one_write_def quiet_def)
    then show ?thesis
      using settles_run_send_handler [OF that(2)] assms(2) by (intro orderly_settles [of "t\<lparr>sx_writes := ws\<rparr>"]) (simp_all add: orderly_def)
  qed
  from assms(1) show ?thesis
    by (cases rule: send_step_cases)
      (use assms(2) handler in \<open>auto intro: orderly_AsyncSendMessage orderly_SimpleAsyncSendMessage orderly_Close
        orderly_AsyncPauseSend orderly_AsyncResumeSend\<close>)
qed

lemma orderly_run: "send_run env (t, s) tr (t', s') \<Longrightarrow> orderly t \<Longrightarrow> orderly t'"
  by (erule send_run_invariant [where I = orderly]) (blast intro: orderly_step)+

end
