(* ===== verification/RR_Send_Order.thy ===== *)
theory RR_Send_Order
  imports RR_Send_Steps
begin

text \<open>
  What reaches the stream: as long as messages that can be encoded are sent and the stream takes
  portions, the stream gets the encodings of the accepted messages, one after the other, and every
  callback is called once, when its message has been written.
\<close>

section \<open>Sending one message\<close>

text \<open>A message whose encoding is \<open>M\<close>; not one of those that replace others in the queue.\<close>

definition ordinary :: "message \<Rightarrow> bool" where
  "ordinary m \<longleftrightarrow>
     \<not> (case entries m of
          [e] \<Rightarrow> EntryType e = MessageEntryType_ConnectionTest \<or> EntryType e = MessageEntryType_WirePacket
        | _ \<Rightarrow> False)"

definition sendable :: "send_env \<Rightarrow> bool \<Rightarrow> message \<Rightarrow> byte list \<Rightarrow> bool" where
  "sendable env v4 m M \<longleftrightarrow>
     (\<exists>n m1. measure_message env v4 m = Inr (n, m1) \<and> ordinary m1 \<and> transmits env v4 m1 M)"

lemma ordinary_distinct: "ordinary m \<Longrightarrow> distinct_messages m' m"
  by (auto simp: ordinary_def distinct_messages_def same_wire_def both_connection_test_def split: list.splits)

lemma same_frame_trans: "same_frame t t' \<Longrightarrow> same_frame t' t'' \<Longrightarrow> same_frame t t''"
  by (simp add: same_frame_def)

lemma EndSendMessage1_next:
  assumes "send_queue t = (m, cb) # q" and "sx_connected t" and "\<not> send_pause_request t"
    and "transmits env (sx_send_version4 t) m M" and "sx_writes t = []" and "sendbuf_ok t"
  obtains t' where "EndSendMessage1 env t = (Inr (), t')" and "on_the_way env cb M t'" and "sending t'"
    and "same_frame (t\<lparr>send_queue := q\<rparr>) t'" and "sendbuf_ok t'"
proof -
  define u where "u = t\<lparr>send_queue := q\<rparr>"
  obtain t' where b: "BeginSendMessage env m cb u = (Inr (), t')" and t': "on_the_way env cb M t'" "sending t'"
      "same_frame u t'" "sendbuf_ok t'"
    by (rule BeginSendMessage_on [of env u m M]) (use assms in \<open>simp_all add: u_def sendbuf_ok_def\<close>)
  have "EndSendMessage1 env t = (Inr (), t')"
    using assms(1-3) b by (simp add: EndSendMessage1_def begin_next_def then_x_def bind_x_def try_x_def u_def)
  then show thesis using t' unfolding u_def by (rule that)
qed

text \<open>The stream takes \<open>k\<close> bytes: the message goes on, or it has been written and the next one begins.\<close>

lemma portion_on:
  assumes "on_the_way env cb M t" and "sendbuf_ok t" and "sx_writes t = (bufs, h) # ws" and "0 < k" and "k \<le> length bufs"
    and "run_send_handler env h None k (t\<lparr>sx_writes := ws\<rparr>) = (r, t')"
  obtains (goes_on) "take k bufs = take k M" "k < length M" "on_the_way env cb (drop k M) t'" "sending t' = sending t" "same_frame t t'"
      "sendbuf_ok t'"
  | (written) u where "take k bufs = M" "same_frame t u" "sending u = sending t" "sx_writes u = []" "sendbuf_ok u"
      "\<And>v. EndSendMessage1 env u = (Inr (), v) \<Longrightarrow> t' = v\<lparr>sx_events := sx_events v @ [Handler_invoked cb None]\<rparr>"
proof -
  define u where "u = t\<lparr>sx_writes := []\<rparr>"
  have u: "same_frame t u" "sending u = sending t" "sx_writes u = []" "sendbuf_ok u" "sendbuf u = sendbuf t"
    using assms(2) by (simp_all add: u_def same_frame_def sendbuf_ok_def)
  from assms(1) consider (buffer) sp n where "sx_writes t = [(M, H_EndSendMessage sp n cb)]" "sp < n" "n \<le> length (sendbuf t)"
      "M = take (n - sp) (drop sp (sendbuf t))"
    | (writer) rest where "sx_writes t = [(async_send_bufs t, H_EndSendMessage2 cb)]" "async_send_bufs t \<noteq> []"
      "writer_has env (async_send_version t) (sx_writer t) rest" "M = async_send_bufs t @ rest"
    unfolding on_the_way_def by blast
  then show thesis
  proof cases
    case buffer
    then have b: "bufs = M" "h = H_EndSendMessage sp n cb" "t\<lparr>sx_writes := ws\<rparr> = u" and len: "length M = n - sp"
      using assms(3) by (simp_all add: u_def)
    note run = assms(6) [unfolded b run_send_handler_def, simplified]
    show thesis
    proof (cases "k < n - sp")
      case True
      have "M = take (n - sp) (drop sp (sendbuf t))" by (rule buffer(4))
      then have d: "take (n - (sp + k)) (drop (sp + k) (sendbuf t)) = drop k M"
        using True by (simp add: drop_take add.commute)
      have "t' = u\<lparr>sx_writes := [(drop k M, H_EndSendMessage (sp + k) n cb)]\<rparr>"
        using run True d u(3,5) by (simp add: EndSendMessage_def try_x_def then_x_def bind_x_def async_write_some_def Let_def)
      then show thesis
      proof (intro goes_on)
        assume t': "t' = u\<lparr>sx_writes := [(drop k M, H_EndSendMessage (sp + k) n cb)]\<rparr>"
        show "on_the_way env cb (drop k M) t'" unfolding on_the_way_def
          by (intro disjI1 exI [of _ "sp + k"] exI [of _ n]) (use True buffer(3) d u(5) in \<open>simp add: t'\<close>)
      qed (use u True b len in \<open>simp_all add: same_frame_def sendbuf_ok_def\<close>)
    next
      case False
      then have "k = n - sp" using assms(5) b(1) len by simp
      moreover have "t' = v\<lparr>sx_events := sx_events v @ [Handler_invoked cb None]\<rparr>" if "EndSendMessage1 env u = (Inr (), v)" for v
        using run False that
        by (simp add: EndSendMessage_def try_x_def then_x_def bind_x_def InvokeHandler_def send_event_x_def)
      ultimately show thesis using u b len by (intro written [of u]) simp_all
    qed
  next
    case writer
    then have b: "bufs = async_send_bufs t" "h = H_EndSendMessage2 cb" "t\<lparr>sx_writes := ws\<rparr> = u"
      using assms(3) by (simp_all add: u_def)
    note run = assms(6) [unfolded b run_send_handler_def, simplified]
    define w where "w = u\<lparr>async_send_bufs := drop k (async_send_bufs t)\<rparr>"
    have w: "same_frame t w" "sending w = sending t" "sx_writes w = []" "sendbuf_ok w" "async_send_version w = async_send_version t"
        "sx_writer w = sx_writer t"
      using assms(2) by (simp_all add: w_def u_def same_frame_def sendbuf_ok_def)
    have tb: "async_send_bufs u = async_send_bufs t" by (simp add: u_def)
    show thesis
    proof (cases "drop k (async_send_bufs t) = []")
      case False
      then have k: "k < length (async_send_bufs t)" by simp
      have t': "t' = w\<lparr>sx_writes := [(async_send_bufs w, H_EndSendMessage2 cb)]\<rparr>"
        using run False tb w(3)
        by (simp add: EndSendMessage2_def try_x_def then_x_def bind_x_def async_write_some_def w_def)
      show thesis
      proof (rule goes_on)
        show "on_the_way env cb (drop k M) t'" unfolding on_the_way_def
          by (intro disjI2 exI [of _ rest]) (use k writer w in \<open>simp add: t', simp add: w_def\<close>)
      qed (use w k b writer(4) in \<open>simp_all add: t' same_frame_def sendbuf_ok_def\<close>)
    next
      case True
      then have k: "k = length (async_send_bufs t)" using assms(5) b(1) by simp
      have W: "WriteRemaining (sx_writer w) = Inr (length rest, sx_writer w)"
        using writer_has_remaining [OF writer(3)] w(6) by simp
      show thesis
      proof (cases "rest = []")
        case True
        have "t' = v\<lparr>sx_events := sx_events v @ [Handler_invoked cb None]\<rparr>" if "EndSendMessage1 env w = (Inr (), v)" for v
          using run \<open>drop k (async_send_bufs t) = []\<close> tb W True that
          by (simp add: EndSendMessage2_def try_x_def then_x_def bind_x_def InvokeHandler_def send_event_x_def w_def)
        then show thesis using w k b writer(4) True by (intro written [of w]) simp_all
      next
        case False
        obtain out bs' wr where c: "writer_call (length rest) w = (Inr (), w\<lparr>async_send_bufs := out, sx_writer := wr\<rparr>)"
          and out: "out \<noteq> []" "rest = out @ bs'" "writer_has env (async_send_version w) wr bs'"
          by (rule writer_call_on [of env w rest]) (use writer(3) w False in \<open>simp_all add: sendbuf_ok_def\<close>)
        have t': "t' = w\<lparr>async_send_bufs := out, sx_writer := wr, sx_writes := [(out, H_EndSendMessage2 cb)]\<rparr>"
          using run \<open>drop k (async_send_bufs t) = []\<close> tb W False c w(3)
          by (simp add: EndSendMessage2_def try_x_def then_x_def bind_x_def async_write_some_def w_def)
        show thesis
        proof (rule goes_on)
          show "on_the_way env cb (drop k M) t'" unfolding on_the_way_def
            by (intro disjI2 exI [of _ bs']) (use out w k writer(4) in \<open>simp add: t'\<close>)
          show "k < length M" using k writer(4) False by simp
        qed (use w k b writer(4) in \<open>simp_all add: t' same_frame_def sendbuf_ok_def\<close>)
      qed
    qed
  qed
qed


section \<open>What has been sent and what is waiting\<close>

text \<open>The calls of callbacks, with the exception they got.\<close>

fun callbacks_of :: "send_event list \<Rightarrow> (nat \<times> rr_error option) list" where
  "callbacks_of [] = []"
| "callbacks_of (Handler_invoked cb e # es) = (cb, e) # callbacks_of es"
| "callbacks_of (Handler_posted cb e # es) = (cb, e) # callbacks_of es"
| "callbacks_of (Pause_handler_posted h b # es) = callbacks_of es"

lemma callbacks_of_append [simp]: "callbacks_of (es @ es') = callbacks_of es @ callbacks_of es'"
  by (induction es rule: callbacks_of.induct) simp_all

abbreviation callbacks :: "send_transport \<Rightarrow> (nat \<times> rr_error option) list" where
  "callbacks t \<equiv> callbacks_of (sx_events t)"

abbreviation succeeded :: "(byte list \<times> nat) list \<Rightarrow> (nat \<times> rr_error option) list" where
  "succeeded items \<equiv> map (\<lambda>p. (snd p, None)) items"

text \<open>
  \<open>items\<close> are the encodings and callbacks of the accepted messages.  Those of \<open>sent\<close> have been written;
  \<open>resting\<close> is the transport between messages, \<open>busy\<close> the transport that writes one, of which \<open>taken\<close>
  are the bytes that the stream has.
\<close>

definition waits_as :: "send_env \<Rightarrow> bool \<Rightarrow> byte list \<times> nat \<Rightarrow> message \<times> nat \<Rightarrow> bool" where
  "waits_as env v4 p q \<longleftrightarrow> snd q = snd p \<and> transmits env v4 (fst q) (fst p)"

definition steady :: "bool \<Rightarrow> send_transport \<Rightarrow> bool" where
  "steady v4 t \<longleftrightarrow> sx_connected t \<and> sendbuf_ok t \<and> sx_send_version4 t = v4 \<and> (send_paused t \<longrightarrow> send_pause_request t)"

definition resting :: "send_env \<Rightarrow> bool \<Rightarrow> (byte list \<times> nat) list \<Rightarrow> send_config \<Rightarrow> bool" where
  "resting env v4 items c \<longleftrightarrow>
     (case c of (t, s) \<Rightarrow> steady v4 t \<and> \<not> sending t \<and> sx_writes t = [] \<and>
        (\<exists>sent waiting. items = sent @ waiting \<and> list_all2 (waits_as env v4) waiting (send_queue t)
           \<and> callbacks t = succeeded sent \<and> s = concat (map fst sent) \<and> (waiting \<noteq> [] \<longrightarrow> send_paused t)))"

definition busy :: "send_env \<Rightarrow> bool \<Rightarrow> (byte list \<times> nat) list \<Rightarrow> send_config \<Rightarrow> bool" where
  "busy env v4 items c \<longleftrightarrow>
     (case c of (t, s) \<Rightarrow> steady v4 t \<and> sending t \<and> \<not> send_paused t \<and>
        (\<exists>sent taken left cb waiting. items = sent @ (taken @ left, cb) # waiting
           \<and> list_all2 (waits_as env v4) waiting (send_queue t) \<and> callbacks t = succeeded sent
           \<and> s = concat (map fst sent) @ taken \<and> on_the_way env cb left t))"

definition agenda :: "send_env \<Rightarrow> bool \<Rightarrow> (byte list \<times> nat) list \<Rightarrow> send_config \<Rightarrow> bool" where
  "agenda env v4 items c \<longleftrightarrow> resting env v4 items c \<or> busy env v4 items c"

lemma agendaI: "busy env v4 items c \<Longrightarrow> agenda env v4 items c"
  and agendaI2: "resting env v4 items c \<Longrightarrow> agenda env v4 items c"
  by (simp_all add: agenda_def)

lemma steady_frame: "steady v4 t \<Longrightarrow> same_frame t t' \<Longrightarrow> sendbuf_ok t' \<Longrightarrow> steady v4 t'"
  by (auto simp: steady_def same_frame_def)

lemma on_the_way_updates:
  assumes "on_the_way env cb M t" and "sx_writes t' = sx_writes t" and "sendbuf t' = sendbuf t"
    and "async_send_bufs t' = async_send_bufs t" and "async_send_version t' = async_send_version t" and "sx_writer t' = sx_writer t"
  shows "on_the_way env cb M t'"
  using assms by (simp add: on_the_way_def)

lemma on_the_way_bufs:
  assumes "on_the_way env cb M t"
  obtains bufs h rest where "sx_writes t = [(bufs, h)]" and "M = bufs @ rest" and "bufs \<noteq> []"
  using assms unfolding on_the_way_def
proof (elim disjE exE conjE)
  fix sp n assume "sx_writes t = [(M, H_EndSendMessage sp n cb)]" "sp < n" "n \<le> length (sendbuf t)"
    "M = take (n - sp) (drop sp (sendbuf t))"
  then show thesis by (intro that [of M]) auto
qed (rule that)

text \<open>The first message of an idle transport.\<close>

lemma begins_agenda:
  assumes "resting env v4 items (t, s)" and "\<not> send_paused t" and "transmits env v4 m M"
  obtains t' where "BeginSendMessage env m cb t = (Inr (), t')" and "busy env v4 (items @ [(M, cb)]) (t', s)"
proof -
  from assms(1) have t: "steady v4 t" "sx_writes t = []" by (simp_all add: resting_def)
  obtain t' where b: "BeginSendMessage env m cb t = (Inr (), t')" and t': "on_the_way env cb M t'" "sending t'"
      "same_frame t t'" "sendbuf_ok t'"
    by (rule BeginSendMessage_on [of env t m M]) (use assms(3) t in \<open>simp_all add: steady_def\<close>)
  have "busy env v4 (items @ [(M, cb)]) (t', s)"
    using assms(1,2) t' steady_frame [OF t(1) t'(3,4)]
    by (auto simp: resting_def busy_def same_frame_def intro!: exI [of _ "[]"] exI [of _ M] exI [of _ cb])
  with b show thesis by (rule that)
qed

text \<open>After a message the next one of the queue begins, or the transport rests.\<close>

lemma EndSendMessage1_agenda:
  assumes "steady v4 t" and "\<not> send_paused t" and "sending t" and "sx_writes t = []"
    and "list_all2 (waits_as env v4) waiting (send_queue t)" and "callbacks t = succeeded sent"
  obtains t' where "EndSendMessage1 env t = (Inr (), t')" and "send_pause_request t' = send_pause_request t"
    and "agenda env v4 (sent @ (M, cb) # waiting) (t'\<lparr>sx_events := sx_events t' @ [Handler_invoked cb None]\<rparr>,
           concat (map fst sent) @ M)"
proof (cases "send_queue t \<noteq> [] \<and> \<not> send_pause_request t")
  case True
  then obtain m cb' q where q: "send_queue t = (m, cb') # q" by (cases "send_queue t") auto
  with assms(5) obtain M' waiting' where w: "waiting = (M', cb') # waiting'" "list_all2 (waits_as env v4) waiting' q"
      "transmits env v4 m M'" by (auto simp: list_all2_Cons2 waits_as_def)
  obtain t' where e: "EndSendMessage1 env t = (Inr (), t')" and t': "on_the_way env cb' M' t'" "sending t'"
      "same_frame (t\<lparr>send_queue := q\<rparr>) t'" "sendbuf_ok t'"
    by (rule EndSendMessage1_next [OF q]) (use assms(1,4) w(3) True in \<open>auto simp: steady_def\<close>)
  define u where "u = t'\<lparr>sx_events := sx_events t' @ [Handler_invoked cb None]\<rparr>"
  have "steady v4 u" using assms(1) t' by (auto simp: u_def steady_def same_frame_def sendbuf_ok_def)
  moreover have "on_the_way env cb' M' u" by (rule on_the_way_updates [OF t'(1)]) (simp_all add: u_def)
  moreover have "sending u" "\<not> send_paused u" "send_queue u = q" "callbacks u = succeeded (sent @ [(M, cb)])"
    using t' assms(2,6) by (simp_all add: u_def same_frame_def)
  ultimately have "busy env v4 (sent @ (M, cb) # waiting) (u, concat (map fst sent) @ M)"
    unfolding busy_def using w(2)
    by (simp add: w(1)) (intro exI [of _ "sent @ [(M, cb)]"] exI [of _ "[]"] exI [of _ M'] exI [of _ cb'] exI [of _ waiting'], simp)
  from agendaI [OF this] show thesis unfolding u_def
    by (rule that [OF e, rotated]) (use t'(3) in \<open>simp add: same_frame_def\<close>)
next
  case False
  define t' where "t' = (if send_pause_request t
      then t\<lparr>sending := False, send_paused := True, send_pause_request_handler := None,
        sx_events := sx_events t @ (case send_pause_request_handler t of None \<Rightarrow> [] | Some h \<Rightarrow> [Pause_handler_posted h True])\<rparr>
      else t\<lparr>sending := False\<rparr>)"
  have e: "EndSendMessage1 env t = (Inr (), t')"
    using False assms(1,2) by (auto simp: EndSendMessage1_def then_x_def bind_x_def t'_def steady_def)
  define u where "u = t'\<lparr>sx_events := sx_events t' @ [Handler_invoked cb None]\<rparr>"
  have "steady v4 u" "\<not> sending u" "sx_writes u = []" "send_queue u = send_queue t"
    using assms(1,2,4) by (simp_all add: u_def t'_def steady_def sendbuf_ok_def)
  moreover have "callbacks u = succeeded (sent @ [(M, cb)])"
    using assms(6) by (simp add: u_def t'_def split: option.split)
  moreover have "send_paused u" if "waiting \<noteq> []"
    using False that assms(5) by (auto simp: u_def t'_def)
  ultimately have "resting env v4 (sent @ (M, cb) # waiting) (u, concat (map fst sent) @ M)"
    unfolding resting_def using assms(5)
    by simp (intro exI [of _ "sent @ [(M, cb)]"] exI [of _ waiting], simp)
  from agendaI2 [OF this] show thesis unfolding u_def
    by (rule that [OF e, rotated]) (simp add: t'_def)
qed

lemma agenda_portion:
  assumes "agenda env v4 items (t, s)" and "send_step env (t, s) (Portion n) (t', s')"
  shows "agenda env v4 items (t', s') \<and> send_pause_request t' = send_pause_request t"
    and "length s' = length s + n" and "0 < n"
proof -
  from assms(2) obtain bufs h ws r where st0: "sx_writes t = (bufs, h) # ws" "0 < n \<or> bufs = []" "n \<le> length bufs"
      "run_send_handler env h None n (t\<lparr>sx_writes := ws\<rparr>) = (r, t')" and s': "s' = s @ take n bufs"
    by (auto elim: send_step_cases)
  have b: "busy env v4 items (t, s)" using assms(1) st0(1) by (auto simp: agenda_def resting_def)
  then obtain cb0 left0 where "on_the_way env cb0 left0 t" by (auto simp: busy_def)
  then have "bufs \<noteq> []" using st0(1) by (auto elim: on_the_way_bufs)
  then have st: "sx_writes t = (bufs, h) # ws" "0 < n" "n \<le> length bufs"
      "run_send_handler env h None n (t\<lparr>sx_writes := ws\<rparr>) = (r, t')" using st0 by auto
  show "length s' = length s + n" "0 < n" using st s' by simp_all
  from b have "busy env v4 items (t, s)" .
  then obtain sent taken left cb waiting where t: "steady v4 t" "sending t" "\<not> send_paused t"
      and items: "items = sent @ (taken @ left, cb) # waiting" and w: "list_all2 (waits_as env v4) waiting (send_queue t)"
      and cbs: "callbacks t = succeeded sent" and s: "s = concat (map fst sent) @ taken" and way: "on_the_way env cb left t"
    by (auto simp: busy_def)
  have ok: "sendbuf_ok t" using t(1) by (simp add: steady_def)
  show "agenda env v4 items (t', s') \<and> send_pause_request t' = send_pause_request t"
  proof (cases rule: portion_on [OF way ok st])
    case 1
    note goes_on = 1
    have "busy env v4 items (t', s')"
      unfolding busy_def using goes_on t steady_frame [OF t(1) goes_on(5,6)] w cbs
      by (simp add: items same_frame_def s s')
        (intro exI [of _ sent] exI [of _ "taken @ take n left"] exI [of _ "drop n left"] exI [of _ cb] exI [of _ waiting], simp)
    then show ?thesis using goes_on(5) by (simp add: agendaI same_frame_def)
  next
    case (2 u)
    note written = 2
    obtain v where v: "EndSendMessage1 env u = (Inr (), v)" and vr: "send_pause_request v = send_pause_request u"
      and va: "agenda env v4 (sent @ (taken @ left, cb) # waiting) (v\<lparr>sx_events := sx_events v @ [Handler_invoked cb None]\<rparr>,
           concat (map fst sent) @ (taken @ left))"
      by (rule EndSendMessage1_agenda [of v4 u env waiting sent "taken @ left" cb])
        (use written t w cbs steady_frame [OF t(1) written(2,5)] in \<open>simp_all add: same_frame_def\<close>)
    have "s' = concat (map fst sent) @ (taken @ left)" by (simp add: s' s written(1))
    moreover have "send_pause_request t' = send_pause_request t" using written(6) [OF v] vr written(2) by (simp add: same_frame_def)
    ultimately show ?thesis using va written(6) [OF v] by (simp only: items)
  qed
qed


lemma agenda_update:
  assumes "agenda env v4 items (t, s)" and "sending t' = sending t" and "sx_writes t' = sx_writes t"
    and "send_queue t' = send_queue t" and "callbacks t' = callbacks t" and "sendbuf t' = sendbuf t"
    and "async_send_bufs t' = async_send_bufs t" and "async_send_version t' = async_send_version t" and "sx_writer t' = sx_writer t"
    and "steady v4 t \<Longrightarrow> steady v4 t'" and "sending t \<Longrightarrow> \<not> send_paused t \<Longrightarrow> \<not> send_paused t'"
    and "\<not> sending t \<Longrightarrow> send_paused t \<Longrightarrow> send_paused t'"
  shows "agenda env v4 items (t', s)"
  using assms(1) unfolding agenda_def
proof (elim disjE)
  assume r: "resting env v4 items (t, s)"
  show "resting env v4 items (t', s) \<or> busy env v4 items (t', s)"
  proof (rule disjI1)
    from r show "resting env v4 items (t', s)"
      using assms(2-5,10,12) by (auto simp: resting_def)
  qed
next
  assume b: "busy env v4 items (t, s)"
  show "resting env v4 items (t', s) \<or> busy env v4 items (t', s)"
  proof (rule disjI2)
    from b show "busy env v4 items (t', s)"
      using assms(2-5,10,11) on_the_way_updates [OF _ assms(3,6-9)] unfolding busy_def by fastforce
  qed
qed

lemma agenda_steady: "agenda env v4 items (t, s) \<Longrightarrow> steady v4 t"
  by (auto simp: agenda_def resting_def busy_def)

lemma agenda_enqueue:
  assumes "agenda env v4 items (t, s)" and "sending t \<or> send_paused t" and "ordinary m" and "transmits env v4 m M"
    and "enqueue_message m cb t = (r, t')"
  shows "r = Inr () \<and> agenda env v4 (items @ [(M, cb)]) (t', s)"
proof -
  have e: "r = Inr ()" "t' = t\<lparr>send_queue := send_queue t @ [(m, cb)]\<rparr>"
    using assms(5) scan_queue_new [of "send_queue t" "(m, cb)" False] ordinary_distinct [OF assms(3)]
    by (auto simp: enqueue_message_def)
  have W: "list_all2 (waits_as env v4) (ws @ [(M, cb)]) (send_queue t @ [(m, cb)])"
    if "list_all2 (waits_as env v4) ws (send_queue t)" for ws
    using that assms(4) by (simp add: list_all2_appendI waits_as_def)
  from assms(1) [unfolded agenda_def] show ?thesis
  proof (elim disjE)
    assume r: "resting env v4 items (t, s)"
    then obtain sent waiting where x: "items = sent @ waiting" "list_all2 (waits_as env v4) waiting (send_queue t)"
        "callbacks t = succeeded sent" "s = concat (map fst sent)" by (auto simp: resting_def)
    have "resting env v4 (items @ [(M, cb)]) (t', s)"
      using r x W [OF x(2)] assms(2)
      by (simp add: resting_def e(2) steady_def sendbuf_ok_def)
        (intro exI [of _ sent] exI [of _ "waiting @ [(M, cb)]"], simp)
    with e(1) show ?thesis by (simp add: agendaI2)
  next
    assume b: "busy env v4 items (t, s)"
    then obtain sent taken left cb' waiting where x: "items = sent @ (taken @ left, cb') # waiting"
        "list_all2 (waits_as env v4) waiting (send_queue t)" "callbacks t = succeeded sent" "s = concat (map fst sent) @ taken"
        "on_the_way env cb' left t" by (auto simp: busy_def)
    have way: "on_the_way env cb' left t'" by (rule on_the_way_updates [OF x(5)]) (simp_all add: e(2))
    have "busy env v4 (items @ [(M, cb)]) (t', s)"
      using b x W [OF x(2)] way
      by (simp add: busy_def e(2) steady_def sendbuf_ok_def)
        (intro exI [of _ sent] exI [of _ taken] exI [of _ left] exI [of _ cb'] exI [of _ "waiting @ [(M, cb)]"], simp)
    with e(1) show ?thesis by (simp add: agendaI)
  qed
qed

lemma agenda_large_transfer: "agenda env v4 items (t, s) \<Longrightarrow> agenda env v4 items (t\<lparr>send_large_transfer_authorized := b\<rparr>, s)"
  by (erule agenda_update) (simp_all add: steady_def sendbuf_ok_def)

lemma agenda_send:
  assumes "agenda env v4 items (t, s)" and "sendable env v4 m M" and "AsyncSendMessage env m cb t = (r, t')"
  shows "agenda env v4 (case r of Inr _ \<Rightarrow> items @ [(M, cb)] | Inl _ \<Rightarrow> items) (t', s)"
proof -
  from assms(2) obtain n m1 where m1: "measure_message env v4 m = Inr (n, m1)" "ordinary m1" "transmits env v4 m1 M"
    by (auto simp: sendable_def)
  have v4: "sx_send_version4 t = v4" using agenda_steady [OF assms(1)] by (simp add: steady_def)
  note a = agenda_large_transfer [OF assms(1)]
  from assms(3) show ?thesis
  proof (cases rule: AsyncSendMessage_cases)
    case (refused e b)
    then show ?thesis using a by simp
  next
    case (queued n' m' b)
    then have "m' = m1" using m1(1) v4 by simp
    from agenda_enqueue [OF a _ m1(2,3) queued(4) [unfolded this]] queued(3) show ?thesis by simp
  next
    case (begins n' m' b)
    then have m': "m' = m1" using m1(1) v4 by simp
    define u where "u = t\<lparr>send_large_transfer_authorized := b\<rparr>"
    have "resting env v4 items (u, s)" "\<not> send_paused u"
      using a [of b] begins(3,4) by (auto simp: u_def agenda_def busy_def)
    from begins_agenda [OF this m1(3), of cb] obtain t'' where "BeginSendMessage env m1 cb u = (Inr (), t'')"
      "busy env v4 (items @ [(M, cb)]) (t'', s)" .
    then show ?thesis using begins(5) by (auto simp: m' u_def agendaI)
  qed
qed

lemma agenda_pause:
  assumes "agenda env v4 items (t, s)" and "AsyncPauseSend h t = (r, t')"
  shows "agenda env v4 items (t', s)"
proof -
  have "agenda env v4 items (t\<lparr>send_pause_request := True, send_pause_request_handler := h'\<rparr>, s)" for h'
    by (rule agenda_update [OF assms(1)]) (simp_all add: steady_def sendbuf_ok_def)
  moreover have "agenda env v4 items (t\<lparr>send_pause_request := True, send_paused := True, sx_events := sx_events t @ [Pause_handler_posted h True]\<rparr>, s)"
    if "\<not> sending t"
    by (rule agenda_update [OF assms(1)]) (use that in \<open>simp_all add: steady_def sendbuf_ok_def\<close>)
  ultimately show ?thesis using assms
    by (auto simp: AsyncPauseSend_def then_x_def bind_x_def send_event_x_def split: if_splits)
qed

lemma agenda_resume:
  assumes "agenda env v4 items (t, s)" and "AsyncResumeSend env t = (r, t')"
  shows "agenda env v4 items (t', s)"
proof (cases "send_pause_request t \<and> send_paused t")
  case False
  then show ?thesis using assms by (auto simp: AsyncResumeSend_def split: if_splits)
next
  case True
  define u where "u = t\<lparr>send_pause_request := False, send_paused := False\<rparr>"
  from True assms(1) have "resting env v4 items (t, s)" by (auto simp: agenda_def busy_def)
  then obtain sent waiting where t: "steady v4 t" "\<not> sending t" "sx_writes t = []" "items = sent @ waiting"
      "list_all2 (waits_as env v4) waiting (send_queue t)" "callbacks t = succeeded sent" "s = concat (map fst sent)"
    by (auto simp: resting_def)
  have "AsyncResumeSend env t = (if send_queue t \<noteq> [] then begin_next env else return_x ()) u"
    using True t(1,2) by (simp add: AsyncResumeSend_def then_x_def bind_x_def u_def steady_def)
  then have run: "(r, t') = (if send_queue t \<noteq> [] then begin_next env u else (Inr (), u))"
    unfolding assms(2) by (cases "send_queue t = []") simp_all
  have u: "steady v4 u" "\<not> sending u" "sx_writes u = []" using t(1-3) by (simp_all add: u_def steady_def sendbuf_ok_def)
  show ?thesis
  proof (cases "send_queue t")
    case Nil
    then have "t' = u" "waiting = []" using run t(5) by simp_all
    then show ?thesis using t u by (auto simp: agenda_def resting_def u_def)
  next
    case (Cons x q)
    obtain m cb where x: "x = (m, cb)" by (cases x)
    from t(5) Cons obtain M ws where w: "waiting = (M, cb) # ws" "list_all2 (waits_as env v4) ws q" "transmits env v4 m M"
      by (auto simp: x list_all2_Cons2 waits_as_def)
    define v where "v = u\<lparr>send_queue := q\<rparr>"
    obtain t'' where b: "BeginSendMessage env m cb v = (Inr (), t'')" and t'': "on_the_way env cb M t''" "sending t''"
        "same_frame v t''" "sendbuf_ok t''"
      by (rule BeginSendMessage_on [of env v m M]) (use w(3) u in \<open>simp_all add: v_def steady_def sendbuf_ok_def\<close>)
    have "t' = t''" using run Cons b by (simp add: x begin_next_def then_x_def bind_x_def try_x_def u_def v_def)
    moreover have "steady v4 v" using u(1) by (simp add: v_def steady_def sendbuf_ok_def)
    then have "steady v4 t''" using t''(3,4) by (rule steady_frame)
    then have "busy env v4 items (t'', s)"
      unfolding busy_def using t t'' w
      by (simp add: same_frame_def v_def u_def)
        (intro exI [of _ sent] exI [of _ "[]"] exI [of _ M] exI [of _ cb] exI [of _ ws], simp)
    ultimately show ?thesis by (simp add: agendaI)
  qed
qed


section \<open>Runs\<close>

text \<open>
  The steps of ordinary operation: messages with an encoding are accepted or refused, the stream takes
  portions, the queue is paused and resumed.
\<close>

fun operating :: "send_env \<Rightarrow> bool \<Rightarrow> (message \<Rightarrow> byte list) \<Rightarrow> send_label \<Rightarrow> bool" where
  "operating env v4 enc (Accepted m cb) \<longleftrightarrow> sendable env v4 m (enc m)"
| "operating env v4 enc (Rejected m cb) \<longleftrightarrow> sendable env v4 m (enc m)"
| "operating env v4 enc (Portion n) \<longleftrightarrow> True"
| "operating env v4 enc (Pause h) \<longleftrightarrow> True"
| "operating env v4 enc Resume \<longleftrightarrow> True"
| "operating env v4 enc l \<longleftrightarrow> False"

fun accepted_items :: "(message \<Rightarrow> byte list) \<Rightarrow> send_label list \<Rightarrow> (byte list \<times> nat) list" where
  "accepted_items enc [] = []"
| "accepted_items enc (Accepted m cb # tr) = (enc m, cb) # accepted_items enc tr"
| "accepted_items enc (_ # tr) = accepted_items enc tr"

lemma accepted_items_append [simp]:
  "accepted_items enc (tr @ tr') = accepted_items enc tr @ accepted_items enc tr'"
  by (induction tr rule: accepted_items.induct) simp_all

definition fresh_sender :: "bool \<Rightarrow> send_transport \<Rightarrow> bool" where
  "fresh_sender v4 t \<longleftrightarrow>
     steady v4 t \<and> \<not> sending t \<and> sx_writes t = [] \<and> send_queue t = [] \<and> callbacks t = []"

lemma fresh_agenda: "fresh_sender v4 t \<Longrightarrow> agenda env v4 [] (t, [])"
  by (auto simp: fresh_sender_def agenda_def resting_def)

lemma agenda_step:
  assumes "agenda env v4 items (t, s)" and "send_step env (t, s) l (t', s')" and "operating env v4 enc l"
  shows "agenda env v4 (items @ accepted_items enc [l]) (t', s')"
proof (cases l)
  case (Accepted m cb)
  with assms(2) have "AsyncSendMessage env m cb t = (Inr (), t')" "s' = s" by (auto elim: send_step_cases)
  then show ?thesis using agenda_send [OF assms(1), of m "enc m"] assms(3) Accepted by fastforce
next
  case (Rejected m cb)
  with assms(2) obtain e where "AsyncSendMessage env m cb t = (Inl e, t')" "s' = s" by (auto elim: send_step_cases)
  then show ?thesis using agenda_send [OF assms(1), of m "enc m"] assms(3) Rejected by fastforce
next
  case (Portion n)
  then show ?thesis using agenda_portion [OF assms(1)] assms(2) by simp
next
  case (Pause h)
  then show ?thesis using assms(1,2) agenda_pause by (auto elim!: send_step_cases)
next
  case Resume
  then show ?thesis using assms(1,2) agenda_resume by (auto elim!: send_step_cases)
qed (use assms(3) in simp_all)

lemma agenda_run:
  assumes "send_run env (t0, s0) tr (t, s)" and "agenda env v4 items (t0, s0)" and "list_all (operating env v4 enc) tr"
  shows "agenda env v4 (items @ accepted_items enc tr) (t, s)"
  using assms(1,3)
proof (induction "(t0, s0)" tr "(t, s)" arbitrary: t s rule: send_run.induct)
  case start
  then show ?case using assms(2) by simp
next
  case (more tr c' l)
  obtain u v where c': "c' = (u, v)" by (cases c')
  have "agenda env v4 (items @ accepted_items enc tr) (u, v)" by (rule more(2) [OF c']) (use more(4) in simp)
  from agenda_step [OF this more(3) [unfolded c'], of enc] more(4) show ?case by simp
qed

text \<open>What the agenda says of the stream and the callbacks.\<close>

lemma agenda_sent:
  assumes "agenda env v4 items (t, s)"
  shows "prefix s (concat (map fst items))" and "prefix (callbacks t) (succeeded items)"
    and "prefix (concat (map fst (take (length (callbacks t)) items))) s"
    and "sx_writes t = [] \<Longrightarrow> \<not> send_paused t \<Longrightarrow> s = concat (map fst items) \<and> callbacks t = succeeded items"
proof -
  from assms have "\<exists>sent taken left rest. map fst items = map fst sent @ rest \<and> concat rest = taken @ left
      \<and> s = concat (map fst sent) @ taken \<and> callbacks t = succeeded sent \<and> prefix sent items
      \<and> (sx_writes t = [] \<and> \<not> send_paused t \<longrightarrow> sent = items)"
    unfolding agenda_def
  proof (elim disjE)
    assume "resting env v4 items (t, s)"
    then obtain sent waiting where "items = sent @ waiting" "callbacks t = succeeded sent" "s = concat (map fst sent)"
        "waiting \<noteq> [] \<longrightarrow> send_paused t" by (auto simp: resting_def)
    then show ?thesis
      by (intro exI [of _ sent] exI [of _ "[]"] exI [of _ "concat (map fst waiting)"] exI [of _ "map fst waiting"]) auto
  next
    assume "busy env v4 items (t, s)"
    then obtain sent taken left cb waiting where "items = sent @ (taken @ left, cb) # waiting" "callbacks t = succeeded sent"
        "s = concat (map fst sent) @ taken" "on_the_way env cb left t" by (auto simp: busy_def)
    moreover from this(4) have "sx_writes t \<noteq> []" by (rule on_the_way_bufs) simp
    ultimately show ?thesis
      by (intro exI [of _ sent] exI [of _ taken] exI [of _ "left @ concat (map fst waiting)"]
          exI [of _ "(taken @ left) # map fst waiting"]) auto
  qed
  then obtain sent taken left rest where x: "map fst items = map fst sent @ rest" "concat rest = taken @ left"
      "s = concat (map fst sent) @ taken" "callbacks t = succeeded sent" "prefix sent items"
      "sx_writes t = [] \<and> \<not> send_paused t \<longrightarrow> sent = items" by blast
  show "prefix s (concat (map fst items))" using x(1-3) by simp
  show "prefix (callbacks t) (succeeded items)" using x(4,5) by (auto simp: prefix_def)
  have "take (length sent) items = sent" using x(5) by (auto simp: prefix_def)
  then show "prefix (concat (map fst (take (length (callbacks t)) items))) s" using x(3,4) by simp
  show "s = concat (map fst items) \<and> callbacks t = succeeded items" if "sx_writes t = []" "\<not> send_paused t"
    using x that by auto
qed

text \<open>The stream can always take the bytes that it is offered, and takes all of them sooner or later.\<close>

lemma agenda_portions:
  assumes "send_run env (t, s) tr (t', s')" and "agenda env v4 items (t, s)" and "\<forall>l \<in> set tr. \<exists>n. l = Portion n"
  shows "agenda env v4 items (t', s') \<and> send_pause_request t' = send_pause_request t \<and> length s + length tr \<le> length s'"
  using assms(1,3)
proof (induction "(t, s)" tr "(t', s')" arbitrary: t' s' rule: send_run.induct)
  case start
  then show ?case using assms(2) by simp
next
  case (more tr c' l)
  obtain u v where c': "c' = (u, v)" by (cases c')
  from more(4) obtain n where l: "l = Portion n" by auto
  have "agenda env v4 items (u, v) \<and> send_pause_request u = send_pause_request t \<and> length s + length tr \<le> length v" by (rule more(2) [OF c']) (use more(4) in simp)
  with agenda_portion [of env v4 items u v n t' s'] more(3) show ?case unfolding c' l by auto
qed

lemma portion_possible:
  assumes "agenda env v4 items (t, s)" and "sx_writes t = (bufs, h) # ws" and "0 < n" and "n \<le> length bufs"
  shows "\<exists>t' s'. send_step env (t, s) (Portion n) (t', s')"
  using send_step.portion [OF assms(2) disjI1 [OF assms(3)] assms(4)] by (metis surj_pair)

lemma agenda_offers:
  assumes "agenda env v4 items (t, s)" and "sx_writes t \<noteq> []"
  obtains bufs h where "sx_writes t = [(bufs, h)]" and "bufs \<noteq> []"
  using assms on_the_way_bufs unfolding agenda_def resting_def busy_def by auto metis

lemma agenda_stuck:
  assumes "agenda env v4 items (t, s)" and "\<forall>n t' s'. \<not> send_step env (t, s) (Portion n) (t', s')"
  shows "sx_writes t = []"
proof (rule ccontr)
  assume "sx_writes t \<noteq> []"
  from agenda_offers [OF assms(1) this] obtain bufs h where "sx_writes t = [(bufs, h)]" "bufs \<noteq> []" .
  with portion_possible [OF assms(1), of bufs h "[]" 1] assms(2) show False by (cases bufs) auto
qed

lemma agenda_not_paused: "agenda env v4 items (t, s) \<Longrightarrow> \<not> send_pause_request t \<Longrightarrow> \<not> send_paused t"
  using agenda_steady by (auto simp: steady_def)


lemma agenda_completes:
  assumes "agenda env v4 items (t, s)"
  shows "\<exists>tr t' s'. send_run env (t, s) tr (t', s') \<and> (\<forall>l \<in> set tr. \<exists>n. l = Portion n) \<and> sx_writes t' = []"
  using assms
proof (induction "length (concat (map fst items)) - length s" arbitrary: t s rule: less_induct)
  case less
  show ?case
  proof (cases "sx_writes t = []")
    case True
    then show ?thesis using send_run.start by fastforce
  next
    case False
    from agenda_offers [OF less.prems False] obtain bufs h where "sx_writes t = [(bufs, h)]" "bufs \<noteq> []" .
    with portion_possible [OF less.prems, of bufs h "[]" 1] obtain t1 s1 where st: "send_step env (t, s) (Portion 1) (t1, s1)"
      by (cases bufs) auto
    note a = agenda_portion [OF less.prems st]
    from a(1) have a1: "agenda env v4 items (t1, s1)" by simp
    have "length s1 \<le> length (concat (map fst items))" using agenda_sent(1) [OF a1] by (rule prefix_length_le)
    then have "length (concat (map fst items)) - length s1 < length (concat (map fst items)) - length s" using a(2) by simp
    from less.hyps [OF this a1] obtain tr t' s' where r: "send_run env (t1, s1) tr (t', s')"
        "\<forall>l \<in> set tr. \<exists>n. l = Portion n" "sx_writes t' = []" by blast
    have "send_run env (t, s) ([Portion 1] @ tr) (t', s')"
      by (rule send_run_trans [OF r(1)]) (use send_run.more [OF send_run.start st] in simp)
    with r(2,3) show ?thesis by (intro exI [of _ "[Portion 1] @ tr"] exI [of _ t'] exI [of _ s']) simp
  qed
qed

end
