(* ===== verification/RR_Send.thy ===== *)
theory RR_Send
  imports RR_Send_Order RR_Receive
begin

unbundle bit_operations_syntax

text \<open>The properties of the resumable writer and of the sending half of the transport.\<close>

section \<open>Writing a message in parts\<close>

text \<open>Calls with all that is left as their quota and work buffers of the given sizes, until nothing is left.\<close>

fun write_parts :: "write_step \<Rightarrow> nat list \<Rightarrow> async_writer \<Rightarrow> (byte list list \<times> async_writer) result option" where
  "write_parts m [] s = Some (Inr ([], s))"
| "write_parts m (n # ns) s =
     (case WriteRemaining s of
        Inl e \<Rightarrow> Some (Inl e)
      | Inr (k, s) \<Rightarrow>
          if k = 0 then Some (Inr ([], s))
          else
            (case write_call m k n s of
               None \<Rightarrow> None
             | Some (Inl e) \<Rightarrow> Some (Inl e)
             | Some (Inr ((_, out), s)) \<Rightarrow>
                 map_option (\<lambda>r. bind_r r (\<lambda>(outs, s). Inr (out # outs, s))) (write_parts m ns s)))"

definition parts_of :: "byte list \<Rightarrow> nat \<Rightarrow> byte list list \<Rightarrow> byte list \<Rightarrow> bool" where
  "parts_of M calls outs left \<longleftrightarrow>
     concat outs @ left = M \<and> [] \<notin> set outs \<and> (length M \<le> calls \<longrightarrow> left = [])"

context message_writer begin

lemma writes_parts:
  assumes "idle s" and "\<forall>n \<in> set sizes. B \<le> n"
  shows "\<exists>outs s'. write_parts step sizes s = Some (Inr (outs, s')) \<and> idle s' \<and> parts_of (remains s) (length sizes) outs (remains s')"
  using assms
proof (induction sizes arbitrary: s)
  case Nil
  then show ?case by (auto simp: parts_of_def)
next
  case (Cons n ns)
  note W = idle_remaining(1) [OF Cons.prems(1)]
  show ?case
  proof (cases "remains s = []")
    case True
    then show ?thesis using W Cons.prems(1) by (auto simp: parts_of_def)
  next
    case False
    from call_returns [OF Cons.prems(1)] Cons.prems(2) obtain x out s1 where
        c: "write_call step (length (remains s)) n s = Some (Inr ((x, out), s1))" and i: "idle s1"
        and r: "remains s = out @ remains s1" "if x = WriteReturn_continue then out \<noteq> [] else remains s1 = []"
      by (metis list.set_intros(1))
    from Cons.IH [OF i] Cons.prems(2) obtain outs s' where p: "write_parts step ns s1 = Some (Inr (outs, s'))" "idle s'"
        "parts_of (remains s1) (length ns) outs (remains s')" by auto
    have out: "out \<noteq> []" using r False by (auto split: if_splits)
    have "write_parts step (n # ns) s = Some (Inr (out # outs, s'))" using W False c p(1) by simp
    moreover have "parts_of (remains s) (length (n # ns)) (out # outs) (remains s')"
      using p(3) r(1) out by (cases out) (auto simp: parts_of_def)
    ultimately show ?thesis using p(2) by blast
  qed
qed

end

context room_for_fields begin

lemma writes_parts4:
  assumes "valid_message4 m" and "message_fits B m" and "\<forall>n \<in> set sizes. B \<le> n"
    and "BeginWrite lc m 4 (AsyncMessageWriter_Reset w) = Inr (m', w')"
  shows "\<exists>outs s' left. write_parts step4_w sizes w' = Some (Inr (outs, s'))
    \<and> parts_of (message4_bytes m) (length sizes) outs left \<and> WriteRemaining s' = Inr (length left, s')"
proof -
  from measured4 [OF assms(1)] obtain h :: message_header
    where h: "Message_ComputeSize4 m = Inr (MessageSize h, m)" "unat (MessageSize h) = length (message4_bytes m)" by blast
  have lt: "length (message4_bytes m) < 4294967296" using unat_u32_less [of "MessageSize h"] h(2) by simp
  have w': "aw_pos w' = 0" "aw_stack w' = [\<lparr>wf_state = Message_init_w, wf_pop_state = Message_init_w,
      wf_limit = length (message4_bytes m), wf_data = Write_message m, wf_param1 = 0, wf_param2 = 0\<rparr>]"
    using assms(4) h by (auto simp: BeginWrite_def AsyncMessageWriter_Reset_def)
  from w4.idle_begin [OF conjI [OF assms(1,2)] w'(1) lt w'(2)] have i: "w4.idle w'" "w4.remains w' = message4_bytes m" .
  from w4.writes_parts [OF i(1) assms(3)] w4.idle_remaining(1) show ?thesis unfolding i(2) by blast
qed

end

context room_for_fields2 begin

lemma writes_parts2:
  assumes "valid_message2 lc m" and "\<forall>n \<in> set sizes. B \<le> n"
    and "BeginWrite lc m 2 (AsyncMessageWriter_Reset w) = Inr (m', w')"
  shows "\<exists>outs s' left. write_parts step2_w sizes w' = Some (Inr (outs, s'))
    \<and> parts_of (message2_bytes m) (length sizes) outs left \<and> WriteRemaining s' = Inr (length left, s')"
proof -
  from measured2 [OF assms(1)] obtain h :: message_header
    where h: "Message_ComputeSize lc m = Inr (MessageSize h, m)" "unat (MessageSize h) = length (message2_bytes m)" by blast
  have lt: "length (message2_bytes m) < 4294967296" using unat_u32_less [of "MessageSize h"] h(2) by simp
  have w': "aw_pos w' = 0" "aw_stack w' = [\<lparr>wf_state = Message_init_w, wf_pop_state = Message_init_w,
      wf_limit = length (message2_bytes m), wf_data = Write_message m, wf_param1 = 0, wf_param2 = 0\<rparr>]"
    using assms(3) h by (auto simp: BeginWrite_def AsyncMessageWriter_Reset_def)
  from w2.idle_begin [OF assms(1) w'(1) lt w'(2)] have i: "w2.idle w'" "w2.remains w' = message2_bytes m" .
  from w2.writes_parts [OF i(1) assms(2)] w2.idle_remaining(1) show ?thesis unfolding i(2) by blast
qed

end




section \<open>Invariants of sending\<close>

text \<open>
  C35: Whatever is done with the transport, in any order, with any messages, errors of the stream and
  exceptions included: at most one write is outstanding, and only while \<open>sending\<close> is set; and while the
  queue is paused nothing is being sent and no write is outstanding.
\<close>

theorem one_write_at_a_time:
  assumes "fresh_sender v4 t0" and "send_run env (t0, []) tr (t, s)"
  shows "length (sx_writes t) \<le> 1 \<and> (sx_writes t \<noteq> [] \<longrightarrow> sending t)
    \<and> (send_paused t \<longrightarrow> send_pause_request t \<and> \<not> sending t \<and> sx_writes t = [])"
proof -
  have "orderly t0" using assms(1) by (auto simp: fresh_sender_def orderly_def one_write_def no_flood_def steady_def)
  from orderly_run [OF assms(2) this] show ?thesis by (auto simp: orderly_def one_write_def)
qed

definition sample_send_env :: send_env where
  "sample_send_env =
     \<lparr>GetRemoteNodeID = replicate 16 1, GetNode_NodeID = replicate 16 2, GetNode_NodeName = ''node'',
      GetRemoteEndpoint = 7, GetLocalEndpoint = 300, IsLargeTransferAuthorized = False,
      what_text = (\<lambda>_. ''error''), element_number = (\<lambda>_. ''0'')\<rparr>"

definition sample_sender :: "bool \<Rightarrow> send_transport" where
  "sample_sender b = ASIOStreamBaseTransport_send\<lparr>sx_disable_async_io := b, sx_send_version4 := True\<rparr>"

lemma sample_sender_fresh: "fresh_sender True (sample_sender b)"
  by (simp add: fresh_sender_def steady_def sendbuf_ok_def sample_sender_def ASIOStreamBaseTransport_send_def)

text \<open>The example message is sent as it is: its addresses are not those of the connection.\<close>

lemma sample_sendable: "sendable sample_send_env True sample_message (message4_bytes sample_message4)"
  and sample_transmits: "transmits sample_send_env True sample_message4 (message4_bytes sample_message4)"
  and sample_measured: "measure_message sample_send_env True sample_message = Inr (86, sample_message4)"
proof -
  have v4: "sends_version4 True sample_message" "sends_version4 True sample_message4"
    by (simp_all add: sends_version4_def sample_message_def AddEntry_def sample_message4_def)
  show m: "measure_message sample_send_env True sample_message = Inr (86, sample_message4)"
    by (simp add: measure_message_def v4 sample_computed4)
  have "drop_routing sample_send_env sample_message4 = sample_message4"
    by (simp add: drop_routing_def sample_message4_def sample_simps sample_send_env_def)
  moreover have "message_fits 4096 sample_message4"
    by (simp add: message_fits_def entry_fits_def sample_message4_def sample_simps)
  ultimately show T: "transmits sample_send_env True sample_message4 (message4_bytes sample_message4)"
    using sample_valid4 MessageComputeSize4_idem [OF sample_computed4] v4 by (auto simp: transmits_def simp del: message4_bytes.simps)
  have "ordinary sample_message4" by (simp add: ordinary_def sample_message4_def)
  with m T show "sendable sample_send_env True sample_message (message4_bytes sample_message4)"
    by (auto simp: sendable_def)
qed

text \<open>The example message given to a fresh transport.\<close>

lemma sample_accepted:
  obtains t s where "send_step sample_send_env (sample_sender b, []) (Accepted sample_message 5) (t, s)"
    and "sending t" and "\<not> send_pause_request t" and "send_run sample_send_env (sample_sender b, []) [Accepted sample_message 5] (t, s)"
proof -
  have r: "resting sample_send_env True [] (sample_sender b, [])"
    using fresh_agenda [OF sample_sender_fresh] sample_sender_fresh [of b]
    by (auto simp: agenda_def busy_def fresh_sender_def)
  have np: "\<not> send_paused (sample_sender b)" by (simp add: sample_sender_def ASIOStreamBaseTransport_send_def)
  from begins_agenda [OF r np sample_transmits, of 5] obtain t where
    b: "BeginSendMessage sample_send_env sample_message4 5 (sample_sender b) = (Inr (), t)"
    and t: "busy sample_send_env True ([] @ [(message4_bytes sample_message4, 5)]) (t, [])" .
  have "AsyncSendMessage sample_send_env sample_message 5 (sample_sender b)
      = BeginSendMessage sample_send_env sample_message4 5 (sample_sender b)"
    using sample_measured
    by (simp add: AsyncSendMessage_def sample_sender_def ASIOStreamBaseTransport_send_def measure_message_def
        bind_x_def then_x_def numeric_cast_i32_def sample_send_env_def)
  then have "AsyncSendMessage sample_send_env sample_message 5 (sample_sender b) = (Inr (), t)" using b by simp
  from send_step.accepted [OF this] have st: "send_step sample_send_env (sample_sender b, []) (Accepted sample_message 5) (t, [])" .
  have "same_frame (sample_sender b) t" using BeginSendMessage_begun [OF b] by (simp add: begun_def)
  then have "\<not> send_pause_request t" by (simp add: same_frame_def sample_sender_def ASIOStreamBaseTransport_send_def)
  with st t show thesis using send_run.more [OF send_run.start st] by (intro that) (auto simp: busy_def)
qed

theorem one_write_at_a_time_witness:
  "\<exists>t s. send_run sample_send_env (sample_sender False, []) [Accepted sample_message 5] (t, s) \<and> length (sx_writes t) \<le> 1"
proof -
  obtain t s where "send_run sample_send_env (sample_sender False, []) [Accepted sample_message 5] (t, s)"
    by (rule sample_accepted)
  with one_write_at_a_time [OF sample_sender_fresh this] show ?thesis by blast
qed

text \<open>
  C36: The queue never holds two packets of the same wire (sent between the same endpoints) or two
  connection tests of the same route, so that a slow stream cannot make it grow by such messages,
  whatever is done with the transport.
\<close>

theorem queue_without_doubles:
  assumes "fresh_sender v4 t0" and "send_run env (t0, []) tr (t, s)"
  shows "sorted_wrt (\<lambda>p q. \<not> same_wire (fst p) (fst q) \<and> \<not> both_connection_test (fst p) (fst q)) (send_queue t)"
proof -
  have "orderly t0" using assms(1) by (auto simp: fresh_sender_def orderly_def one_write_def no_flood_def steady_def)
  from orderly_run [OF assms(2) this] show ?thesis
    by (simp only: orderly_def no_flood_def distinct_messages_def)
qed

theorem queue_without_doubles_witness:
  "\<exists>t s. send_run sample_send_env (sample_sender True, []) [Accepted sample_message 5] (t, s)
     \<and> sorted_wrt (\<lambda>p q. \<not> same_wire (fst p) (fst q) \<and> \<not> both_connection_test (fst p) (fst q)) (send_queue t)"
proof -
  obtain t s where "send_run sample_send_env (sample_sender True, []) [Accepted sample_message 5] (t, s)"
    by (rule sample_accepted)
  with queue_without_doubles [OF sample_sender_fresh this] show ?thesis by blast
qed

text \<open>
  C37: What happens to a message that has to wait.  When the queue (without doubles) holds a connection
  test of the same route and the message is one, the message is dropped: nothing changes and its
  callback will never be called.  When the queue holds a packet of the same wire, the new packet takes
  its place and the callback of the old one is posted without an exception.  Every other message goes
  behind the queue.
\<close>

theorem enqueue_outcomes:
  assumes "sorted_wrt (\<lambda>p q. \<not> same_wire (fst p) (fst q) \<and> \<not> both_connection_test (fst p) (fst q)) (send_queue t)"
  shows "((\<exists>p \<in> set (send_queue t). both_connection_test (fst p) m) \<longrightarrow> enqueue_message m cb t = (Inr (), t))
    \<and> (\<forall>i < length (send_queue t). same_wire (fst (send_queue t ! i)) m \<longrightarrow>
      enqueue_message m cb t = (Inr (), t\<lparr>send_queue := (send_queue t)[i := (m, cb)],
        sx_events := sx_events t @ [Handler_posted (snd (send_queue t ! i)) None]\<rparr>))
    \<and> ((\<forall>p \<in> set (send_queue t). \<not> same_wire (fst p) m \<and> \<not> both_connection_test (fst p) m) \<longrightarrow>
      enqueue_message m cb t = (Inr (), t\<lparr>send_queue := send_queue t @ [(m, cb)]\<rparr>))"
proof (intro conjI)
  have nf: "no_flood (send_queue t)" using assms by (simp only: no_flood_def distinct_messages_def)
  show "(\<exists>p \<in> set (send_queue t). both_connection_test (fst p) m) \<longrightarrow> enqueue_message m cb t = (Inr (), t)"
    by (simp add: enqueue_message_def scan_queue_test)
  show "\<forall>i < length (send_queue t). same_wire (fst (send_queue t ! i)) m \<longrightarrow>
      enqueue_message m cb t = (Inr (), t\<lparr>send_queue := (send_queue t)[i := (m, cb)],
        sx_events := sx_events t @ [Handler_posted (snd (send_queue t ! i)) None]\<rparr>)"
  proof (intro allI impI)
    fix i assume i: "i < length (send_queue t)" and w: "same_wire (fst (send_queue t ! i)) m"
    note split = id_take_nth_drop [OF i]
    from scan_queue_wire [of "take i (send_queue t)" "send_queue t ! i" "drop (Suc i) (send_queue t)" "(m, cb)"] nf w
    show "enqueue_message m cb t = (Inr (), t\<lparr>send_queue := (send_queue t)[i := (m, cb)],
        sx_events := sx_events t @ [Handler_posted (snd (send_queue t ! i)) None]\<rparr>)"
      by (simp add: enqueue_message_def split [symmetric] upd_conv_take_nth_drop [OF i])
  qed
  show "(\<forall>p \<in> set (send_queue t). \<not> same_wire (fst p) m \<and> \<not> both_connection_test (fst p) m) \<longrightarrow>
      enqueue_message m cb t = (Inr (), t\<lparr>send_queue := send_queue t @ [(m, cb)]\<rparr>)"
    by (simp add: enqueue_message_def scan_queue_new distinct_messages_def)
qed

definition sample_wire :: "32 word \<Rightarrow> message" where
  "sample_wire n = \<lparr>header = Some sample_header,
     entries = [(CreateMessageEntry_named 1161 ''wire'')\<lparr>RequestID := n\<rparr>]\<rparr>"

theorem enqueue_outcomes_witness:
  "enqueue_message (sample_wire 2) 9 ((sample_sender True)\<lparr>send_queue := [(sample_wire 1, 4), (sample_message, 5)]\<rparr>)
     = (Inr (), (sample_sender True)\<lparr>send_queue := [(sample_wire 2, 9), (sample_message, 5)], sx_events := [Handler_posted 4 None]\<rparr>)"
proof -
  define u where "u = (sample_sender True)\<lparr>send_queue := [(sample_wire 1, 4), (sample_message, 5)]\<rparr>"
  have q: "send_queue u = [(sample_wire 1, 4), (sample_message, 5)]" "sx_events u = []"
    by (simp_all add: u_def sample_sender_def ASIOStreamBaseTransport_send_def)
  have w: "same_wire (sample_wire 1) (sample_wire 2)" "\<not> same_wire (sample_wire 1) sample_message"
      "\<not> both_connection_test (sample_wire 1) sample_message"
    by (simp_all add: same_wire_def both_connection_test_def same_route_def sample_wire_def CreateMessageEntry_named_def
        CreateMessageEntry_def sample_message_def AddEntry_def)
  have s: "sorted_wrt (\<lambda>p q. \<not> same_wire (fst p) (fst q) \<and> \<not> both_connection_test (fst p) (fst q)) (send_queue u)"
    using w by (simp add: q)
  have "0 < length (send_queue u)" "same_wire (fst (send_queue u ! 0)) (sample_wire 2)" using w by (simp_all add: q)
  with enqueue_outcomes [OF s, of "sample_wire 2" 9]
  have "enqueue_message (sample_wire 2) 9 u = (Inr (), u\<lparr>send_queue := (send_queue u)[0 := (sample_wire 2, 9)],
      sx_events := sx_events u @ [Handler_posted (snd (send_queue u ! 0)) None]\<rparr>)" by blast
  then show ?thesis by (simp add: q) (simp add: u_def)
qed

section \<open>The stream and the callbacks\<close>

text \<open>
  C31: In ordinary operation (messages that can be encoded and do not replace others are accepted or
  refused, the stream takes portions of any size, sending is paused and resumed) the stream has at
  every moment a prefix of the encodings of the accepted messages, in the order in which they were
  accepted, none lost, doubled or mixed; the callbacks that have been called are those of a first part
  of the accepted messages, each once, in order and without an exception, and only when the stream has
  all bytes of the message.  When no write is outstanding and sending is not paused, all of it has
  happened.
\<close>

theorem messages_sent_in_order:
  assumes "fresh_sender v4 t0" and "send_run env (t0, []) tr (t, s)" and "list_all (operating env v4 enc) tr"
  shows "prefix s (concat (map fst (accepted_items enc tr)))
    \<and> prefix (callbacks t) (succeeded (accepted_items enc tr))
    \<and> prefix (concat (map fst (take (length (callbacks t)) (accepted_items enc tr)))) s
    \<and> (sx_writes t = [] \<and> \<not> send_paused t \<longrightarrow>
         s = concat (map fst (accepted_items enc tr)) \<and> callbacks t = succeeded (accepted_items enc tr))"
proof -
  have "agenda env v4 (accepted_items enc tr) (t, s)" using agenda_run [OF assms(2) fresh_agenda [OF assms(1)] assms(3)] by simp
  from agenda_sent [OF this] show ?thesis by blast
qed

theorem messages_sent_in_order_witness:
  "\<exists>t s. send_run sample_send_env (sample_sender False, []) [Accepted sample_message 5] (t, s)
     \<and> prefix s (message4_bytes sample_message4) \<and> prefix (callbacks t) [(5, None)]"
proof -
  obtain t s where r: "send_run sample_send_env (sample_sender False, []) [Accepted sample_message 5] (t, s)"
    by (rule sample_accepted)
  have "list_all (operating sample_send_env True (\<lambda>_. message4_bytes sample_message4)) [Accepted sample_message 5]"
    using sample_sendable by simp
  from messages_sent_in_order [OF sample_sender_fresh r this] r show ?thesis by (simp del: message4_bytes.simps) blast
qed


lemma sample_completed:
  obtains t tr' t' s' where "send_run sample_send_env (sample_sender b, []) [Accepted sample_message 5] (t, [])"
    and "\<not> send_pause_request t" and "send_run sample_send_env (t, []) tr' (t', s')" and "\<forall>l \<in> set tr'. \<exists>n. l = Portion n"
    and "sx_writes t' = []"
proof -
  obtain t s where r: "send_run sample_send_env (sample_sender b, []) [Accepted sample_message 5] (t, s)"
      and st: "send_step sample_send_env (sample_sender b, []) (Accepted sample_message 5) (t, s)" and p: "\<not> send_pause_request t"
    by (rule sample_accepted)
  have s: "s = []" using st by (auto elim: send_step_cases)
  have "list_all (operating sample_send_env True (\<lambda>_. message4_bytes sample_message4)) [Accepted sample_message 5]"
    using sample_sendable by simp
  from agenda_completes [OF agenda_run [OF r fresh_agenda [OF sample_sender_fresh] this]] that r p
  show thesis unfolding s by blast
qed



section \<open>From one transport to the other\<close>

text \<open>What a transport \<open>u\<close> at the other end makes of the bytes \<open>M\<close>: the message \<open>r\<close>.\<close>

definition receives_as :: "transport_env \<Rightarrow> stream_transport \<Rightarrow> int \<Rightarrow> byte list \<Rightarrow> message \<Rightarrow> bool" where
  "receives_as env u K M r \<longleftrightarrow>
     (if disable_async_io u then encoded env M r \<and> acceptable env K M r
      else \<exists>m. receivable4 env K m \<and> M = message4_bytes m \<and> r = received4 env m)"

fun accepted_messages :: "send_label list \<Rightarrow> message list" where
  "accepted_messages [] = []"
| "accepted_messages (Accepted m cb # tr) = m # accepted_messages tr"
| "accepted_messages (_ # tr) = accepted_messages tr"

lemma accepted_items_messages: "map fst (accepted_items enc tr) = map enc (accepted_messages tr)"
  by (induction tr rule: accepted_messages.induct) simp_all

lemma stream_received:
  assumes "\<forall>m \<in> set ms. receives_as env u K (enc m) (rcv m)" and "receiver_ready K u" and "BeginReceiveMessage1 u = Inr (a, u0)"
  shows "receives_in_order env (u0, a, concat (map enc ms)) (map rcv ms)"
proof (cases "disable_async_io u")
  case True
  then have "\<forall>p \<in> set (map (\<lambda>m. (enc m, rcv m)) ms). encoded env (fst p) (snd p) \<and> acceptable env K (fst p) (snd p)"
    using assms(1) by (auto simp: receives_as_def)
  from buffered_stream [OF this True assms(2,3)] show ?thesis by (simp add: comp_def)
next
  case False
  have "\<forall>m. \<exists>m'. m \<in> set ms \<longrightarrow> receivable4 env K m' \<and> enc m = message4_bytes m' \<and> rcv m = received4 env m'"
    using assms(1) False by (auto simp: receives_as_def simp del: message4_bytes.simps)
  then obtain f where f: "\<forall>m. m \<in> set ms \<longrightarrow> receivable4 env K (f m) \<and> enc m = message4_bytes (f m) \<and> rcv m = received4 env (f m)"
    by (rule choice [elim_format]) blast
  then have "list_all (receivable4 env K) (map f ms)" by (simp add: list_all_iff)
  from resumable_stream4 [OF this False assms(2,3)]
  have "receives_in_order env (u0, a, concat (map message4_bytes (map f ms))) (map (received4 env) (map f ms))" .
  moreover have "map message4_bytes (map f ms) = map enc ms" "map (received4 env) (map f ms) = map rcv ms"
    using f by (simp_all del: message4_bytes.simps)
  ultimately show ?thesis by (simp only:)
qed



text \<open>
  Two ends of one connection, and the addresses of a message.
\<close>

definition mirrored :: "send_env \<Rightarrow> transport_env \<Rightarrow> bool" where
  "mirrored env env' \<longleftrightarrow>
     GetRemoteNodeID env' = GetNode_NodeID env \<and> GetNode_NodeID env' = GetRemoteNodeID env
     \<and> GetRemoteEndpoint env' = GetLocalEndpoint env \<and> GetLocalEndpoint env' = GetRemoteEndpoint env"

definition addresses :: "message_header \<Rightarrow> NodeID \<times> NodeID \<times> 32 word \<times> 32 word" where
  "addresses h = (SenderNodeID h, ReceiverNodeID h, SenderEndpoint h, ReceiverEndpoint h)"

lemma measured_routing:
  assumes "Message_ComputeSize4 m = Inr (n, m')" and "header m = Some h"
  obtains h' where "header m' = Some h'" and "addresses h' = addresses h"
    and "bit (MessageFlags h') 0 = bit (MessageFlags h) 0" and "bit (MessageFlags h') 1 = bit (MessageFlags h) 1"
  using assms(1)
proof (cases rule: MessageComputeSize4_InrE)
  case (1 h0 h' s es)
  then have h0: "h0 = h" using assms(2) by simp
  note u = 1(7) [unfolded h0]
  show thesis
  proof (rule that)
    show "header m' = Some h'" using 1(2) by simp
    show "addresses h' = addresses h"
      using u by (auto simp: MessageHeader_UpdateHeader4_def Let_def addresses_def)
    show "bit (MessageFlags h') 0 = bit (MessageFlags h) 0" "bit (MessageFlags h') 1 = bit (MessageFlags h) 1"
      using u by (auto simp: MessageHeader_UpdateHeader4_def Let_def)
  qed
qed

text \<open>
  C34: The routing information that the sender leaves out is restored by the receiver: when the message
  carries its addresses (both flags are set), or its addresses are those of the connection, then the
  message that is received from the encoding of \<open>drop_routing\<close> has the same node identifiers and endpoints.
\<close>

theorem routing_restored:
  assumes "mirrored env env'" and "header m = Some h"
    and "flag_set (MessageFlags h) MessageFlags_ROUTING_INFO \<and> flag_set (MessageFlags h) MessageFlags_ENDPOINT_INFO
      \<or> addresses h = (GetNode_NodeID env, GetRemoteNodeID env, GetLocalEndpoint env, GetRemoteEndpoint env)"
    and "Message_ComputeSize4 (drop_routing env m) = Inr (n, m')" and "valid_message4 m'"
  shows "\<exists>h'. header (received4 env' m') = Some h' \<and> addresses h' = addresses h"
proof -
  define A where "A = (GetNode_NodeID env, GetRemoteNodeID env, GetLocalEndpoint env, GetRemoteEndpoint env)"
  obtain h1 where h1: "header (drop_routing env m) = Some h1" "addresses h1 = addresses h"
      "(bit (MessageFlags h1) 0 \<and> bit (MessageFlags h1) 1) \<or> addresses h = A"
  proof (cases "drop_routing env m = m")
    case True
    then show thesis using that [of h] assms(2,3) by (simp add: A_def)
  next
    case False
    then have "\<exists>fl. header (drop_routing env m) = Some (h\<lparr>MessageFlags := fl\<rparr>)" and "addresses h = A"
      using assms(2) by (auto simp: drop_routing_def addresses_def A_def split: if_splits)
    then show thesis using that by (auto simp: addresses_def)
  qed
  obtain h' where h': "header m' = Some h'" "addresses h' = addresses h1"
      "bit (MessageFlags h') 0 = bit (MessageFlags h1) 0" "bit (MessageFlags h') 1 = bit (MessageFlags h1) 1"
    by (rule measured_routing [OF assms(4) h1(1)])
  have "received4 env' m' = (case restore_routing env' (message4_view m') of Inr r \<Rightarrow> r | Inl _ \<Rightarrow> message4_view m')"
    by (simp add: received4_def)
  then show ?thesis
    using h' h1(2,3) assms(1)
    by (auto simp: restore_routing_def message4_view_def header4_view_def Let_def addresses_def mirrored_def A_def)
qed


text \<open>The example message with the addresses of the connection, and as it is sent without them.\<close>

definition routed_header :: message_header where
  "routed_header = sample_header\<lparr>SenderNodeID := replicate 16 2, ReceiverNodeID := replicate 16 1,
     SenderEndpoint := 300, ReceiverEndpoint := 7, MessageFlags := 67\<rparr>"

definition routed_message :: message where
  "routed_message = sample_message\<lparr>header := Some routed_header\<rparr>"

definition unrouted_message :: message where
  "unrouted_message = sample_message4\<lparr>header := Some (routed_header\<lparr>HeaderSize := 13, MessageFlags := 64, EntryCount := 2, MessageSize := 48\<rparr>)\<rparr>"

lemma routed_dropped:
  "drop_routing sample_send_env routed_message = routed_message\<lparr>header := Some (routed_header\<lparr>MessageFlags := 64\<rparr>)\<rparr>"
  by (simp add: drop_routing_def routed_message_def routed_header_def sample_message_def sample_send_env_def AddEntry_def)

lemma unrouted_computed:
  "Message_ComputeSize4 (drop_routing sample_send_env routed_message) = Inr (48, unrouted_message)"
  unfolding routed_dropped
  by (simp add: sizes4 sample_simps size_simps routed_message_def routed_header_def unrouted_message_def sample_message4_def del: bind_r_Inr)

lemma unrouted_valid: "valid_message4 unrouted_message"
proof (rule valid_message4_computed(1) [OF unrouted_computed])
  show "header (drop_routing sample_send_env routed_message) = Some (routed_header\<lparr>MessageFlags := 64\<rparr>)"
    by (simp add: routed_dropped)
  show "valid_NodeID (SenderNodeID (routed_header\<lparr>MessageFlags := 64\<rparr>))" "valid_NodeID (ReceiverNodeID (routed_header\<lparr>MessageFlags := 64\<rparr>))"
    by (simp_all add: routed_header_def valid_NodeID_def)
  have "length (message4_bytes unrouted_message) = 48"
    by (simp add: unrouted_message_def routed_header_def sample_message4_def sample_simps header4_bytes_def header4_fields_bytes_def
      entry4_bytes_def entry4_fields_bytes_def element4_fields_bytes_def element4_data_bytes_def size_simps
      element4_head_bytes_def uintx_bytes_def xstring_bytes_def num_bytes_def extended_bytes_def
      bytes_of_words_def)
  then show "length (message4_bytes unrouted_message) < 2147483648" by (simp only:)
qed

theorem routing_restored_witness:
  "\<exists>h'. header (received4 \<lparr>GetRemoteNodeID = replicate 16 2, GetNode_NodeID = replicate 16 1, GetNode_NodeName = ''other'',
        GetRemoteEndpoint = 300, GetLocalEndpoint = 7, IsLargeTransferAuthorized = False\<rparr> unrouted_message) = Some h'
     \<and> addresses h' = (replicate 16 2, replicate 16 1, 300, 7)"
proof -
  have m: "mirrored sample_send_env \<lparr>GetRemoteNodeID = replicate 16 2, GetNode_NodeID = replicate 16 1, GetNode_NodeName = ''other'',
        GetRemoteEndpoint = 300, GetLocalEndpoint = 7, IsLargeTransferAuthorized = False\<rparr>"
    by (simp add: mirrored_def sample_send_env_def)
  have h: "header routed_message = Some routed_header" by (simp add: routed_message_def)
  have a: "addresses routed_header = (replicate 16 2, replicate 16 1, 300, 7)" by (simp add: addresses_def routed_header_def)
  from routing_restored [OF m h _ unrouted_computed unrouted_valid] show ?thesis
    unfolding a by (simp add: sample_send_env_def)
qed

end
