(* ===== verification/RR_Send_Errors.thy ===== *)
theory RR_Send_Errors
  imports RR_Send
begin

text \<open>
  What goes wrong when a message that was accepted cannot be written: the transport stops sending for
  good, and callbacks are called twice.
\<close>

section \<open>A writer that fails in the middle\<close>

text \<open>\<open>fails m N e\<close>: with room for \<open>N\<close> bytes the writer throws \<open>e\<close>.\<close>

definition fails :: "'a writes \<Rightarrow> nat \<Rightarrow> rr_error \<Rightarrow> bool" where
  "fails m N e \<longleftrightarrow> (\<forall>w. ok_writer w \<longrightarrow> room w N \<longrightarrow> m w = Inl e)"

lemma failsD: "fails m N e \<Longrightarrow> ok_writer w \<Longrightarrow> room w N \<Longrightarrow> m w = Inl e"
  by (simp add: fails_def)

lemma fails_lift: "fails (bind_s (lift_s (Inl e)) k) 0 e"
  by (simp add: fails_def)

lemma fails_bind:
  assumes "writes m bs x" and "fails (k x) N e"
  shows "fails (bind_s m k) (length bs + N) e"
  unfolding fails_def
proof (intro allI impI)
  fix w assume ok: "ok_writer w" and r: "room w (length bs + N)"
  have r1: "room w (length bs)" using r by (simp add: room_def)
  have "m w = Inr (x, append_w bs w)" by (rule writesD [OF assms(1) ok r1])
  moreover have "ok_writer (append_w bs w)" using ok r1 by (rule ok_writer_append)
  moreover have "room (append_w bs w) N" using r by (simp add: room_def append_w_def)
  ultimately show "bind_s m k w = Inl e" using failsD [OF assms(2)] by (simp add: bind_s_def)
qed

lemma fails_then: "writes m bs x \<Longrightarrow> fails k N e \<Longrightarrow> fails (then_s m k) (length bs + N) e"
  unfolding then_s_def by (rule fails_bind)

lemma fails_first: "fails m N e \<Longrightarrow> fails (bind_s m k) N e"
  by (simp add: fails_def bind_s_def)

lemma fails_weaken: "fails m N e \<Longrightarrow> N \<le> N' \<Longrightarrow> fails m N' e"
  by (auto simp: fails_def room_def)

lemma fails_pushed:
  assumes "fails m N e" and "N \<le> n"
  shows "fails (then_s (PushRelativeLimit_w n) m) n e"
  unfolding fails_def
proof (intro allI impI)
  fix w assume ok: "ok_writer w" and r: "room w n"
  have "room w (length (replicate n (0 :: byte)))" using r by simp
  note g = room_fits [OF ok this]
  then obtain l ls where l: "w_limits w = l # ls" "w_position w + n \<le> l" by auto
  define w' where "w' = w\<lparr>w_limits := (w_position w + n) # w_limits w\<rparr>"
  have "PushRelativeLimit_w n w = Inr ((), w')"
    using g l by (simp add: PushRelativeLimit_w_def bind_s_def Position_w_def CurrentLimit_w_def w'_def)
  moreover have "ok_writer w'" "room w' N" using ok g assms(2) by (auto simp: ok_writer_def room_def w'_def)
  ultimately show "then_s (PushRelativeLimit_w n) m w = Inl e" using failsD [OF assms(1)] by (simp add: then_s_def bind_s_def)
qed

section \<open>A message with too many elements\<close>

text \<open>Version 2 counts elements with 16 bits; \<open>ComputeSize\<close> does not check the count of an entry.\<close>

definition void_element :: MessageElement where
  "void_element = MessageElement (default_element_fields\<lparr>ElementSize := 16\<rparr>) None"

definition many_elements :: "MessageElement list" where
  "many_elements = replicate (2 ^ 16) void_element"

definition crowded_entry :: message_entry where
  "crowded_entry = (CreateMessageEntry_named 1101 ''f'')\<lparr>EntrySize := 1048599, elements := many_elements\<rparr>"

definition crowded_header :: message_header where
  "crowded_header = sample_header\<lparr>HeaderSize := 64, EntryCount := 1, MessageSize := 1048663\<rparr>"

definition crowded_message :: message where
  "crowded_message = \<lparr>header = Some crowded_header, entries = [crowded_entry]\<rparr>"

lemma void_element_update: "MessageElement_UpdateData lc void_element = Inr void_element"
  by (simp add: void_element_def sizes2 size_simps default_element_fields_def)

lemma void_elements_update: "UpdateData_elements lc s (replicate k void_element) = Inr (s + k * 16, replicate k void_element)"
proof (induction k arbitrary: s)
  case (Suc k)
  have "unat (ElementSize (flds void_element)) = 16" by (simp add: void_element_def)
  then show ?case using Suc [of "s + 16"] by (simp add: void_element_update)
qed simp

lemma many_elements_length: "length many_elements = 65536"
  by (simp only: many_elements_def length_replicate) simp

lemma many_elements_update: "UpdateData_elements lc s many_elements = Inr (s + 1048576, many_elements)"
  unfolding many_elements_def void_elements_update by simp

lemma crowded_entry_update: "MessageEntry_UpdateData lc crowded_entry = Inr crowded_entry"
  by (simp add: MessageEntry_UpdateData_def MessageEntry_ComputeSize_def crowded_entry_def many_elements_update
      CreateMessageEntry_named_def CreateMessageEntry_def checked_sizes_def GetStringByteCount8_def
      numeric_cast_u32_def MessageEntryFlags_Version2Compat_def)

lemma crowded_header_update: "MessageHeader_UpdateHeader 1048663 1 crowded_header = Inr crowded_header"
  by (simp add: MessageHeader_UpdateHeader_def MessageHeader_ComputeSize_def crowded_header_def sample_header_def
      CreateMessageHeader_def checked_sizes_def GetStringByteCount8_def numeric_cast_u16_def MessageFlags_Version2Compat_def)

lemma crowded_computed: "Message_ComputeSize lc crowded_message = Inr (1048663, crowded_message)"
proof -
  have "MessageHeader_ComputeSize crowded_header = Inr 64"
    by (simp add: MessageHeader_ComputeSize_def crowded_header_def sample_header_def CreateMessageHeader_def
        checked_sizes_def GetStringByteCount8_def numeric_cast_u16_def)
  moreover have "unat (EntrySize crowded_entry) = 1048599" by (simp add: crowded_entry_def)
  ultimately show ?thesis using crowded_header_update
    by (simp add: Message_ComputeSize_def crowded_message_def crowded_entry_update numeric_cast_u32_def numeric_cast_u16_def)
qed

lemma crowded_entry_fails: "fails (MessageEntry_Write lc crowded_entry) 1048599 BadNumericCast"
proof -
  have count: "numeric_cast_u16 (length (elements crowded_entry)) = Inl BadNumericCast"
    by (simp add: crowded_entry_def many_elements_length numeric_cast_u16_def)
  have e: "length (ServicePath crowded_entry) = 0" "length (MemberName crowded_entry) = 1" "length (EntryMetaData crowded_entry) = 0"
    by (simp_all add: crowded_entry_def CreateMessageEntry_named_def CreateMessageEntry_def)
  note str = writes_string16 [of "ServicePath crowded_entry"] writes_string16 [of "MemberName crowded_entry"]
    writes_string16 [of "EntryMetaData crowded_entry"]
  have s: "length (ServicePath crowded_entry) < 65536" "length (MemberName crowded_entry) < 65536"
    "length (EntryMetaData crowded_entry) < 65536" using e by simp_all
  have "fails (MessageEntry_Write_head crowded_entry) 1000 BadNumericCast"
    unfolding MessageEntry_Write_head_def count
    by (rule fails_weaken, (rule fails_then writes_WriteNumber str(1) [OF s(1)] str(2) [OF s(2)] str(3) [OF s(3)] fails_lift)+)
      (use e in simp)
  then have "fails (then_s (MessageEntry_Write_head crowded_entry)
      (bind_s (for_s (MessageElement_Write lc) (elements crowded_entry)) (\<lambda>es. return_s (crowded_entry\<lparr>elements := es\<rparr>)))) 1000 BadNumericCast"
    unfolding then_s_def by (rule fails_first)
  then have "fails (limited_w (unat (EntrySize crowded_entry)) (then_s (MessageEntry_Write_head crowded_entry)
      (bind_s (for_s (MessageElement_Write lc) (elements crowded_entry)) (\<lambda>es. return_s (crowded_entry\<lparr>elements := es\<rparr>)))))
      1048599 BadNumericCast"
    unfolding limited_w_def by (intro fails_weaken [OF fails_pushed [OF fails_first]]) (auto simp: crowded_entry_def)
  then show ?thesis
    by (simp add: MessageEntry_Write_def crowded_entry_update fails_def)
qed


lemma crowded_header_writes:
  "writes (MessageHeader_Write crowded_header) (header2_bytes crowded_header) ()"
  and crowded_header_length: "length (header2_bytes crowded_header) = 64"
proof -
  have v: "valid_header2 crowded_header"
    using sample_header_ids(2,3)
    by (simp add: valid_header2_def crowded_header_def sample_header_def CreateMessageHeader_def MessageFlags_Version2Compat_def
        MessageHeader_ComputeSize_def checked_sizes_def GetStringByteCount8_def numeric_cast_u16_def)
  then show "writes (MessageHeader_Write crowded_header) (header2_bytes crowded_header) ()" by (rule writes_header2)
  show "length (header2_bytes crowded_header) = 64"
    by (simp add: header2_bytes_def header2_fields_bytes_def crowded_header_def sample_header_def CreateMessageHeader_def
        num_bytes_def string16_bytes_def)
qed

lemma crowded_write_fails: "fails (Message_Write lc crowded_message) 1048663 BadNumericCast"
proof -
  let ?k = "\<lambda>es. then_s PopLimit_w (return_s (crowded_message\<lparr>header := Some crowded_header, entries := es\<rparr>))"
  have "fails (for_s (MessageEntry_Write lc) [crowded_entry]) 1048599 BadNumericCast"
    using crowded_entry_fails [of lc] by (simp add: fails_first)
  then have "fails (bind_s (for_s (MessageEntry_Write lc) [crowded_entry]) ?k) 1048599 BadNumericCast" by (rule fails_first)
  from fails_then [OF crowded_header_writes this]
  have "fails (then_s (MessageHeader_Write crowded_header) (bind_s (for_s (MessageEntry_Write lc) [crowded_entry]) ?k)) 1048663 BadNumericCast"
    unfolding crowded_header_length by simp
  from fails_pushed [OF this order.refl]
  have "fails (then_s (PushRelativeLimit_w 1048663)
      (then_s (MessageHeader_Write crowded_header) (bind_s (for_s (MessageEntry_Write lc) [crowded_entry]) ?k))) 1048663 BadNumericCast" .
  moreover have "numeric_cast_u16 (length (entries crowded_message)) = Inr 1"
    by (simp add: crowded_message_def numeric_cast_u16_def)
  moreover have "header crowded_message = Some crowded_header" "entries crowded_message = [crowded_entry]"
    by (simp_all add: crowded_message_def)
  ultimately show ?thesis
    by (simp add: Message_Write_def crowded_computed crowded_header_update fails_def)
qed

lemma send_from_buffer_fails:
  assumes "fails wr n e" and "sendbuf_ok t" and "n < 2147483648"
  obtains t' where "send_from_buffer n wr cb t = (Inl e, t')"
proof -
  define t1 where "t1 = (if n > length (sendbuf t) then t\<lparr>sendbuf := replicate n 0\<rparr> else t)"
  have len: "n \<le> length (sendbuf t1)" "length (sendbuf t1) < 2147483648"
    using assms(2,3) by (auto simp: t1_def sendbuf_ok_def)
  define b where "b = ArrayBinaryWriter (sendbuf t1) 0 n"
  have "ok_writer b" "room b n" using len by (simp_all add: b_def ArrayBinaryWriter_def ok_writer_def room_def)
  from failsD [OF assms(1) this] have "send_from_buffer n wr cb t = (Inl e, t1)"
    by (simp add: send_from_buffer_def then_x_def bind_x_def t1_def [symmetric] b_def [symmetric])
  then show thesis by (rule that)
qed

lemma crowded_begin:
  assumes "sx_disable_async_io t" and "\<not> sx_send_version4 t" and "sendbuf_ok t"
  obtains t' where "BeginSendMessage env crowded_message cb t = (Inl BadNumericCast, t')"
proof -
  obtain t' where "send_from_buffer 1048663 (Message_Write (element_number env) crowded_message) cb t = (Inl BadNumericCast, t')"
    by (rule send_from_buffer_fails [OF crowded_write_fails assms(3)]) simp
  then have "BeginSendMessage env crowded_message cb t = (Inl BadNumericCast, t')"
    using assms(1,2) by (simp add: BeginSendMessage_def sends_version4_def crowded_computed bind_x_def)
  then show thesis by (rule that)
qed

section \<open>Sending stops for good\<close>

definition stuck :: "send_transport \<Rightarrow> bool" where
  "stuck t \<longleftrightarrow> sending t \<and> sx_writes t = [] \<and> \<not> send_paused t"

lemma stuck_AsyncSendMessage: "AsyncSendMessage env m cb t = (r, t') \<Longrightarrow> stuck t \<Longrightarrow> stuck t'"
proof (erule AsyncSendMessage_cases)
  fix n m1 b assume "stuck t" and e: "enqueue_message m1 cb (t\<lparr>send_large_transfer_authorized := b\<rparr>) = (r, t')"
  then show "stuck t'" by (auto simp: stuck_def enqueue_message_def split: prod.splits)
qed (auto simp: stuck_def)

lemma stuck_Close: "Close_send t = (r, t') \<Longrightarrow> stuck t \<Longrightarrow> stuck t'"
  using Close_send_cases [of t r t'] by (simp add: stuck_def)

lemma stuck_SimpleAsyncSendMessage:
  assumes "SimpleAsyncSendMessage env m cb t = (r, t')" and "stuck t"
  shows "stuck t'"
proof -
  obtain r0 u where s: "AsyncSendMessage env m cb t = (r0, u)" by (cases "AsyncSendMessage env m cb t")
  obtain r1 v where c: "Close_send u = (r1, v)" by (cases "Close_send u")
  have u: "stuck u" by (rule stuck_AsyncSendMessage [OF s assms(2)])
  moreover have "stuck v" by (rule stuck_Close [OF c u])
  moreover have "t' = t \<or> t' = u \<or> t' = v"
    using assms(1) s c by (auto simp: SimpleAsyncSendMessage_def try_x_def split: if_splits sum.splits)
  ultimately show ?thesis using assms(2) by blast
qed

lemma stuck_pausing:
  "AsyncPauseSend h t = (r, t') \<Longrightarrow> stuck t \<Longrightarrow> stuck t'"
  "AsyncResumeSend env t = (r, t') \<Longrightarrow> stuck t \<Longrightarrow> stuck t'"
  by (auto simp: stuck_def AsyncPauseSend_def AsyncResumeSend_def split: if_splits)

lemma stuck_step: "send_step env (t, s) l (t', s') \<Longrightarrow> stuck t \<Longrightarrow> stuck t' \<and> s' = s"
  by (erule send_step_cases)
    (auto intro: stuck_AsyncSendMessage stuck_SimpleAsyncSendMessage stuck_Close stuck_pausing, auto simp: stuck_def)

lemma stuck_run:
  assumes "send_run env (t, s) tr (t', s')" and "stuck t"
  shows "stuck t' \<and> s' = s"
  using assms
proof (induction "(t, s)" tr "(t', s')" arbitrary: t' s' rule: send_run.induct)
  case (more tr c' l)
  obtain u v where c: "c' = (u, v)" by (cases c')
  from more(2) [OF c more(4)] more(3) stuck_step show ?case unfolding c by blast
qed simp


text \<open>
  C38: When the next message of the queue cannot be begun (\<open>BeginSendMessage\<close> throws), \<open>EndSendMessage1\<close> gives the
  exception to the callback of that message and returns with \<open>sending\<close> set although nothing is being
  written.  From then on the transport, which is still connected, sends nothing any more: whatever is
  done with it, no write is ever started and the stream gets no byte; the other messages of the queue
  and all later ones wait for ever.
\<close>

theorem failed_begin_blocks_queue:
  assumes "send_queue t = (m, cb) # q" and "sx_connected t" and "\<not> send_pause_request t" and "\<not> send_paused t"
    and "sending t" and "sx_writes t = []"
    and "BeginSendMessage env m cb (t\<lparr>send_queue := q\<rparr>) = (Inl e, t1)" and "std_exception e"
    and "EndSendMessage1 env t = (r, t')" and "send_run env (t', s) tr (t'', s'')"
  shows "r = Inr () \<and> sx_connected t' \<and> send_queue t' = q
    \<and> sx_events t' = sx_events t @ [Handler_invoked cb (Some (Exn ConnectionException (what_text env e)))]
    \<and> s'' = s \<and> sx_writes t'' = [] \<and> sending t''"
proof -
  have t': "r = Inr ()" "t' = t1\<lparr>sx_events := sx_events t1 @ [Handler_invoked cb (Some (Exn ConnectionException (what_text env e)))]\<rparr>"
    using assms(1-3,7-9)
    by (auto simp: EndSendMessage1_def begin_next_def then_x_def bind_x_def try_x_def InvokeHandlerWithException_def send_event_x_def)
  have b: "same_frame (t\<lparr>send_queue := q\<rparr>) t1" "sending t1" "sx_writes t1 = []"
    using BeginSendMessage_begun [OF assms(7)] assms(5,6) by (simp_all add: begun_def)
  then have "stuck t'" using assms(4) by (simp add: stuck_def t'(2) same_frame_def)
  from stuck_run [OF assms(10) this] b(1) assms(2) show ?thesis by (simp add: stuck_def t' same_frame_def)
qed

text \<open>The first message has just been written, and the crowded one is next.\<close>

definition crowded_sender :: send_transport where
  "crowded_sender = ASIOStreamBaseTransport_send\<lparr>sending := True, send_queue := [(crowded_message, 7), (sample_message2, 8)]\<rparr>"

theorem failed_begin_blocks_queue_witness:
  "\<exists>t' t'' . EndSendMessage1 sample_send_env crowded_sender = (Inr (), t') \<and> send_queue t' = [(sample_message2, 8)]
     \<and> send_run sample_send_env (t', [1]) [Pause 3] (t'', [1]) \<and> sx_writes t'' = [] \<and> sending t''"
proof -
  have s: "send_queue crowded_sender = [(crowded_message, 7), (sample_message2, 8)]" "sx_connected crowded_sender"
      "\<not> send_pause_request crowded_sender" "\<not> send_paused crowded_sender" "sending crowded_sender" "sx_writes crowded_sender = []"
      "sx_disable_async_io crowded_sender" "\<not> sx_send_version4 crowded_sender" "sendbuf_ok crowded_sender"
    by (simp_all add: crowded_sender_def ASIOStreamBaseTransport_send_def sendbuf_ok_def)
  obtain t1 where b: "BeginSendMessage sample_send_env crowded_message 7 (crowded_sender\<lparr>send_queue := [(sample_message2, 8)]\<rparr>)
      = (Inl BadNumericCast, t1)"
    by (rule crowded_begin [of "crowded_sender\<lparr>send_queue := [(sample_message2, 8)]\<rparr>"])
      (use s in \<open>simp_all add: sendbuf_ok_def\<close>)
  obtain r t' where e: "EndSendMessage1 sample_send_env crowded_sender = (r, t')" by (cases "EndSendMessage1 sample_send_env crowded_sender")
  obtain r' t'' where p: "AsyncPauseSend 3 t' = (r', t'')" by (cases "AsyncPauseSend 3 t'")
  have run: "send_run sample_send_env (t', [1]) [Pause 3] (t'', [1])"
    using send_run.more [OF send_run.start send_step.pause [OF p]] by simp
  from failed_begin_blocks_queue [OF s(1-6) b _ e run] e run show ?thesis by auto
qed

section \<open>Callbacks that are called twice\<close>

text \<open>
  C39: When the resumable writer throws in the middle of a message, the callback of the message is called
  twice: the \<open>catch\<close> of \<open>EndSendMessage2\<close> closes the transport and calls it with the exception, and then
  the function goes on behind the \<open>catch\<close> and calls it again, without an exception, as if the message had
  been sent.
\<close>

theorem failed_write_calls_back_twice:
  assumes "drop n (async_send_bufs t) = []" and "WriteRemaining (sx_writer t) = Inr (k, w)" and "0 < k"
    and "writer_call k (t\<lparr>async_send_bufs := []\<rparr>) = (Inl e, u)" and "std_exception e"
    and "EndSendMessage2 env None n cb t = (r, t')"
  shows "\<not> sx_connected t' \<and> (\<exists>closed. callbacks t' = callbacks u @ closed
    @ [(cb, Some (Exn ConnectionException (''Send message error: '' @ what_text env e))), (cb, None)])"
proof -
  obtain r0 v where c: "Close_send u = (r0, v)" by (cases "Close_send u")
  have cl: "r0 = Inr ()" "\<not> sx_connected v" using Close_send_cases [OF c] by blast+
  have ev: "\<exists>closed. callbacks v = callbacks u @ closed"
    using c by (auto simp: Close_send_def Let_def split: if_splits)
  define v' where "v' = v\<lparr>sx_events := sx_events v @ [Handler_invoked cb (Some (Exn ConnectionException (''Send message error: '' @ what_text env e)))]\<rparr>"
  obtain r1 x where e1: "EndSendMessage1 env v' = (r1, x)" by (cases "EndSendMessage1 env v'")
  have x: "r1 = Inr ()" "\<not> sx_connected x" "callbacks x = callbacks v'"
    using e1 cl(2)
    by (auto simp: EndSendMessage1_def then_x_def bind_x_def v'_def split: if_splits option.splits)
  have "t' = x\<lparr>sx_events := sx_events x @ [Handler_invoked cb None]\<rparr>"
    using assms c cl(1) e1 x(1)
    by (simp add: EndSendMessage2_def then_x_def bind_x_def try_x_def InvokeHandlerWithException_def InvokeHandler_def
        send_event_x_def v'_def)
  with x(2,3) ev show ?thesis by (auto simp: v'_def)
qed

definition crowded_writer :: async_writer where
  "crowded_writer = AsyncMessageWriterImpl\<lparr>aw_pos := 90, aw_stack :=
     [\<lparr>wf_state = MessageEntry_elementcount_w, wf_pop_state = Message_writeentries_w, wf_limit = 1048663,
       wf_data = Write_entry crowded_entry, wf_param1 = 0, wf_param2 = 0\<rparr>,
      \<lparr>wf_state = Message_writeentries_w, wf_pop_state = Message_init_w, wf_limit = 1048663,
       wf_data = Write_message crowded_message, wf_param1 = 1, wf_param2 = 0\<rparr>]\<rparr>"

lemma crowded_writer_remaining: "WriteRemaining crowded_writer = Inr (1048573, crowded_writer)"
  by (simp add: WriteRemaining_def message_len_w_def bind_s_def size_sub_w_def crowded_writer_def AsyncMessageWriterImpl_def)

lemma crowded_writer_call:
  assumes "sx_writer t = crowded_writer" and "async_send_version t = 2"
  shows "writer_call 1048573 t = (Inl BadNumericCast, t)"
proof -
  have n: "numeric_cast_u16 (length (elements crowded_entry)) = Inl BadNumericCast"
    by (simp add: crowded_entry_def many_elements_length numeric_cast_u16_def)
  show ?thesis
    using assms n
    by (simp add: writer_call_def AsyncMessageWriter_Write_def write_call_def crowded_writer_def AsyncMessageWriterImpl_def
        WriteRemaining_def message_len_w_def bind_s_def size_sub_w_def Let_def write_loop.simps step2_w_def top_frame_w_def
        data_entry_w_def)
qed

definition crowded_writing :: send_transport where
  "crowded_writing = (sample_sender False)\<lparr>async_send_version := 2, sx_writer := crowded_writer, async_send_bufs := [65], sending := True\<rparr>"

theorem failed_write_calls_back_twice_witness:
  "\<exists>r t'. EndSendMessage2 sample_send_env None 1 7 crowded_writing = (r, t')
     \<and> (7, None) \<in> set (callbacks t') \<and> (7, Some (Exn ConnectionException ''Send message error: error'')) \<in> set (callbacks t')"
proof -
  have t: "drop 1 (async_send_bufs crowded_writing) = []" "WriteRemaining (sx_writer crowded_writing) = Inr (1048573, crowded_writer)"
    using crowded_writer_remaining by (simp_all add: crowded_writing_def)
  have c: "writer_call 1048573 (crowded_writing\<lparr>async_send_bufs := []\<rparr>) = (Inl BadNumericCast, crowded_writing\<lparr>async_send_bufs := []\<rparr>)"
    by (rule crowded_writer_call) (simp_all add: crowded_writing_def)
  obtain r t' where e: "EndSendMessage2 sample_send_env None 1 7 crowded_writing = (r, t')"
    by (cases "EndSendMessage2 sample_send_env None 1 7 crowded_writing")
  have w: "what_text sample_send_env BadNumericCast = ''error''" by (simp add: sample_send_env_def)
  from failed_write_calls_back_twice [OF t _ c _ e] e w show ?thesis by auto
qed

section \<open>An extended field that is longer than the work buffer\<close>

text \<open>The writer stands before the extended field of an element that does not fit in \<open>sendbuf\<close>.\<close>

definition before_long_field :: "nat \<Rightarrow> send_transport \<Rightarrow> bool" where
  "before_long_field cb t \<longleftrightarrow>
     async_send_version t = 4 \<and> async_send_bufs t = [] \<and> sx_writes t = [([], H_EndSendMessage2 cb)]
     \<and> (case aw_stack (sx_writer t) of
          d # ds \<Rightarrow> wf_state d = MessageElement_extended2_w
            \<and> (case wf_data d of
                 Write_element el \<Rightarrow> length (sendbuf t) < length (ElementExtended (flds el))
                   \<and> aw_pos (sx_writer t) + length (ElementExtended (flds el)) \<le> wf_limit d
               | _ \<Rightarrow> False)
            \<and> wf_limit d \<le> wf_limit (last (d # ds)) \<and> wf_limit (last (d # ds)) < 4294967296
        | [] \<Rightarrow> False)"

lemma long_field_call:
  assumes "before_long_field cb t"
  obtains k w where "WriteRemaining (sx_writer t) = Inr (k, sx_writer t)" and "0 < k"
    and "writer_call k (t\<lparr>sx_writes := [], async_send_bufs := []\<rparr>) = (Inr (), t\<lparr>sx_writes := [], async_send_bufs := [], sx_writer := w\<rparr>)"
    and "aw_stack w = aw_stack (sx_writer t)" and "aw_pos w = aw_pos (sx_writer t)"
proof -
  from assms obtain d ds el where st: "aw_stack (sx_writer t) = d # ds" "wf_state d = MessageElement_extended2_w"
      "wf_data d = Write_element el" and len: "length (sendbuf t) < length (ElementExtended (flds el))"
      "aw_pos (sx_writer t) + length (ElementExtended (flds el)) \<le> wf_limit d" "wf_limit d \<le> wf_limit (last (d # ds))"
      "wf_limit (last (d # ds)) < 4294967296" and v: "async_send_version t = 4"
    by (auto simp: before_long_field_def split: list.splits write_data.splits)
  define L where "L = wf_limit (last (d # ds))"
  define k where "k = L - aw_pos (sx_writer t)"
  have k: "0 < k" "aw_pos (sx_writer t) \<le> L" "L < 4294967296" "aw_pos (sx_writer t) + k = L"
    using len by (auto simp: k_def L_def)
  have W: "WriteRemaining s = Inr (k, s)" if "aw_stack s = d # ds" "aw_pos s = aw_pos (sx_writer t)" for s
    using that k by (simp add: WriteRemaining_def message_len_w_def bind_s_def size_sub_w_exact L_def [symmetric] k_def [symmetric] del: last.simps)
  define u where "u = (sx_writer t)\<lparr>aw_room := length (sendbuf t), aw_work := [], aw_bufs := [], aw_size := length (sendbuf t), aw_used := 0\<rparr>"
  define x where "x = u\<lparr>aw_quota_pos := L\<rparr>"
  have xs: "aw_stack x = d # ds" "aw_pos x = aw_pos (sx_writer t)" "aw_quota_pos x = L" "aw_room x = length (sendbuf t)"
      "aw_bufs x = []" "aw_work x = []" "aw_size x = length (sendbuf t)"
    using st(1) by (simp_all add: x_def u_def)
  have ne: "ElementExtended (flds el) \<noteq> []" using len(1) by auto
  have "write_all_bytes_w (ElementExtended (flds el)) x = Inr (False, x)"
    using xs len k
    by (simp add: write_all_bytes_w_def distance_from_limit_w_def top_frame_w_def work_bufs_available_w_def bind_s_def
        size_sub_w_exact L_def [symmetric] del: last.simps)
  then have "step4_w x = Inr (Some WriteReturn_continue, x\<lparr>aw_bufs := [], aw_work := [], aw_used := 0\<rparr>)"
    using xs st(2,3) ne
    by (simp add: step4_w_def top_frame_w_def bind_s_def R_element_w_def data_element_w_def R_w_def write_extended_w_def
        prepare_continue_w_def then_s_def)
  then have "write_loop step4_w x = Some (Inr (WriteReturn_continue, x\<lparr>aw_bufs := [], aw_work := [], aw_used := 0\<rparr>))"
    by (simp add: write_loop.simps)
  moreover have "size_add (aw_pos u) k = L" using k by (simp add: size_add_def u_def)
  ultimately have "AsyncMessageWriter_Write4 k (length (sendbuf t)) (sx_writer t)
      = Some (Inr ((WriteReturn_continue, []), x\<lparr>aw_bufs := [], aw_work := [], aw_used := 0\<rparr>))"
    using W [of u] st(1) k(1)
    by (simp add: AsyncMessageWriter_Write4_def write_call_def u_def [symmetric] x_def [symmetric] Let_def) (simp add: u_def x_def)
  then have "writer_call k (t\<lparr>sx_writes := [], async_send_bufs := []\<rparr>)
      = (Inr (), t\<lparr>sx_writes := [], async_send_bufs := [], sx_writer := x\<lparr>aw_bufs := [], aw_work := [], aw_used := 0\<rparr>\<rparr>)"
    by (simp add: writer_call_def v)
  then show thesis using W [OF st(1)] k(1) xs(1,2) st(1)
    by (intro that [of k "x\<lparr>aw_bufs := [], aw_work := [], aw_used := 0\<rparr>"]) simp_all
qed


lemma long_field_portion:
  assumes "before_long_field cb t" and "send_step env (t, s) (Portion n) (t', s')"
  shows "before_long_field cb t' \<and> s' = s"
proof -
  have t: "sx_writes t = [([], H_EndSendMessage2 cb)]" "async_send_bufs t = []" "async_send_version t = 4"
    using assms(1) by (simp_all add: before_long_field_def)
  from assms(2) t(1) obtain r where n: "n = 0" "s' = s"
      and run: "EndSendMessage2 env None 0 cb (t\<lparr>sx_writes := []\<rparr>) = (r, t')"
    by (auto elim!: send_step_cases simp: run_send_handler_def)
  obtain k w where W: "WriteRemaining (sx_writer t) = Inr (k, sx_writer t)" "0 < k"
      and c: "writer_call k (t\<lparr>sx_writes := [], async_send_bufs := []\<rparr>) = (Inr (), t\<lparr>sx_writes := [], async_send_bufs := [], sx_writer := w\<rparr>)"
      and w: "aw_stack w = aw_stack (sx_writer t)" "aw_pos w = aw_pos (sx_writer t)"
    by (rule long_field_call [OF assms(1)])
  define u where "u = t\<lparr>sx_writes := [], async_send_bufs := []\<rparr>"
  have "t\<lparr>sx_writes := [], async_send_bufs := []\<rparr> = t\<lparr>sx_writes := []\<rparr>" using t(2) by (cases t) simp
  then have c': "writer_call k (t\<lparr>sx_writes := []\<rparr>) = (Inr (), t\<lparr>sx_writes := [], async_send_bufs := [], sx_writer := w\<rparr>)"
    using c by simp
  have "t' = u\<lparr>sx_writer := w, sx_writes := [([], H_EndSendMessage2 cb)]\<rparr>"
    using run W c' t(2)
    by (simp add: EndSendMessage2_def then_x_def bind_x_def try_x_def async_write_some_def u_def)
  moreover have "before_long_field cb (u\<lparr>sx_writer := w, sx_writes := [([], H_EndSendMessage2 cb)]\<rparr>)"
    using assms(1) w t(3) by (auto simp: before_long_field_def u_def split: list.splits write_data.splits)
  ultimately show ?thesis using n(2) by simp
qed


definition long_element :: MessageElement where
  "long_element = MessageElement (default_element_fields\<lparr>ElementExtended := replicate 5000 0\<rparr>) None"

lemma long_element_length: "length (ElementExtended (flds long_element)) = 5000"
proof -
  have "length (ElementExtended (default_element_fields\<lparr>ElementExtended := replicate n 0\<rparr>)) = n" for n by simp
  then show ?thesis unfolding long_element_def MessageElement.sel .
qed

definition long_sender :: send_transport where
  "long_sender = (sample_sender False)\<lparr>async_send_version := 4, sending := True, async_send_bufs := [],
     sx_writes := [([], H_EndSendMessage2 7)], sx_writer := AsyncMessageWriterImpl\<lparr>aw_pos := 100, aw_stack :=
       [\<lparr>wf_state = MessageElement_extended2_w, wf_pop_state = MessageEntry_writeelements_w, wf_limit = 5100,
         wf_data = Write_element long_element, wf_param1 = 0, wf_param2 = 0\<rparr>]\<rparr>\<rparr>"


end
