(* ===== verification/RR_TimeSpec.thy ===== *)
theory RR_TimeSpec
  imports RR_Prelude "HOL-Library.Signed_Division"
begin

text \<open>
  \<open>TimeSpec\<close> (\<open>DataTypes.cpp\<close>): seconds and nanoseconds since the epoch.  The two numbers keep
  their widths and wrap; a signed overflow, undefined in C++, is excluded by the bounds of the
  lemmas.  The value of a time is \<open>nanos\<close>; \<open>cleanup_nanosecs\<close> keeps it, and the comparisons,
  which the code computes from the difference of two times, are those of the values.
\<close>

section \<open>Times\<close>

record TimeSpec =
  seconds :: "64 word"
  nanoseconds :: "32 word"

text \<open>Division and remainder truncate towards zero.\<close>

definition correct_signs :: "TimeSpec \<Rightarrow> TimeSpec" where
  "correct_signs t =
     (let t = (if 0 <s seconds t \<and> nanoseconds t <s 0
               then t\<lparr>seconds := seconds t - 1, nanoseconds := 1000000000 + nanoseconds t\<rparr> else t)
      in if seconds t <s 0 \<and> 0 <s nanoseconds t
         then t\<lparr>seconds := seconds t + 1, nanoseconds := nanoseconds t - 1000000000\<rparr> else t)"

definition cleanup_nanosecs :: "TimeSpec \<Rightarrow> TimeSpec" where
  "cleanup_nanosecs t =
     (let nano_div = sint (nanoseconds t) sdiv 1000000000;
          t = t\<lparr>nanoseconds := word_of_int (sint (nanoseconds t) smod 1000000000)\<rparr>;
          t = t\<lparr>seconds := seconds t + word_of_int nano_div\<rparr>
      in correct_signs t)"

definition TimeSpec_zero :: TimeSpec where
  "TimeSpec_zero = \<lparr>seconds = 0, nanoseconds = 0\<rparr>"

definition TimeSpec_of :: "64 word \<Rightarrow> 32 word \<Rightarrow> TimeSpec" where
  "TimeSpec_of s n = cleanup_nanosecs \<lparr>seconds = s, nanoseconds = n\<rparr>"

definition time_eq :: "TimeSpec \<Rightarrow> TimeSpec \<Rightarrow> bool" where
  "time_eq t1 t2 \<longleftrightarrow> seconds t1 = seconds t2 \<and> nanoseconds t1 = nanoseconds t2"

definition time_neq :: "TimeSpec \<Rightarrow> TimeSpec \<Rightarrow> bool" where
  "time_neq t1 t2 \<longleftrightarrow> \<not> time_eq t1 t2"

definition time_minus :: "TimeSpec \<Rightarrow> TimeSpec \<Rightarrow> TimeSpec" where
  "time_minus t1 t2 = TimeSpec_of (seconds t1 - seconds t2) (nanoseconds t1 - nanoseconds t2)"

definition time_plus :: "TimeSpec \<Rightarrow> TimeSpec \<Rightarrow> TimeSpec" where
  "time_plus t1 t2 = TimeSpec_of (seconds t1 + seconds t2) (nanoseconds t1 + nanoseconds t2)"

definition time_gt :: "TimeSpec \<Rightarrow> TimeSpec \<Rightarrow> bool" where
  "time_gt t1 t2 =
     (let diff = time_minus t1 t2
      in if seconds diff = 0 then 0 <s nanoseconds diff else 0 <s seconds diff)"

definition time_ge :: "TimeSpec \<Rightarrow> TimeSpec \<Rightarrow> bool" where
  "time_ge t1 t2 = (if time_eq t1 t2 then True else time_gt t1 t2)"

definition time_lt :: "TimeSpec \<Rightarrow> TimeSpec \<Rightarrow> bool" where
  "time_lt t1 t2 =
     (let diff = time_minus t1 t2
      in if seconds diff = 0 then nanoseconds diff <s 0 else seconds diff <s 0)"

definition time_le :: "TimeSpec \<Rightarrow> TimeSpec \<Rightarrow> bool" where
  "time_le t1 t2 = (if time_eq t1 t2 then True else time_lt t1 t2)"

section \<open>The value of a time\<close>

definition nanos :: "TimeSpec \<Rightarrow> int" where
  "nanos t = sint (seconds t) * 1000000000 + sint (nanoseconds t)"

text \<open>Less than a second of nanoseconds, of the sign of the seconds.\<close>

definition clean :: "TimeSpec \<Rightarrow> bool" where
  "clean t \<longleftrightarrow> \<bar>sint (nanoseconds t)\<bar> < 1000000000
     \<and> (0 < sint (seconds t) \<longrightarrow> 0 \<le> sint (nanoseconds t))
     \<and> (sint (seconds t) < 0 \<longrightarrow> sint (nanoseconds t) \<le> 0)"

definition time_within :: "int \<Rightarrow> TimeSpec \<Rightarrow> bool" where
  "time_within B t \<longleftrightarrow> \<bar>sint (seconds t)\<bar> \<le> B"

lemma sint_64 [simp]:
  "- 9223372036854775808 \<le> x \<Longrightarrow> x < 9223372036854775808 \<Longrightarrow> sint (word_of_int x :: 64 word) = x"
  by (simp add: sint_sbintrunc' signed_take_bit_int_eq_self)

lemma sint_32 [simp]:
  "- 2147483648 \<le> x \<Longrightarrow> x < 2147483648 \<Longrightarrow> sint (word_of_int x :: 32 word) = x"
  by (simp add: sint_sbintrunc' signed_take_bit_int_eq_self)

lemma sint_32_range: "- 2147483648 \<le> sint (n :: 32 word)" "sint (n :: 32 word) < 2147483648"
  using sint_ge [of n] sint_lt [of n] by simp_all

lemma sint_64_add:
  "- 9223372036854775808 \<le> sint a + sint b \<Longrightarrow> sint a + sint b < 9223372036854775808 \<Longrightarrow>
   sint (a + b :: 64 word) = sint a + sint b"
  using sint_64 [of "sint a + sint b"] by simp

lemma sint_64_diff:
  "- 9223372036854775808 \<le> sint a - sint b \<Longrightarrow> sint a - sint b < 9223372036854775808 \<Longrightarrow>
   sint (a - b :: 64 word) = sint a - sint b"
  using sint_64 [of "sint a - sint b"] by simp

lemma sint_32_add:
  "- 2147483648 \<le> sint a + sint b \<Longrightarrow> sint a + sint b < 2147483648 \<Longrightarrow>
   sint (a + b :: 32 word) = sint a + sint b"
  using sint_32 [of "sint a + sint b"] by simp

lemma sint_32_diff:
  "- 2147483648 \<le> sint a - sint b \<Longrightarrow> sint a - sint b < 2147483648 \<Longrightarrow>
   sint (a - b :: 32 word) = sint a - sint b"
  using sint_32 [of "sint a - sint b"] by simp

lemma truncated:
  fixes n :: int
  shows "n = (n sdiv 1000000000) * 1000000000 + n smod 1000000000"
    and "\<bar>n smod 1000000000\<bar> < 1000000000" and "0 < n smod 1000000000 \<Longrightarrow> 0 < n"
    and "n smod 1000000000 < 0 \<Longrightarrow> n < 0"
proof -
  show "n = (n sdiv 1000000000) * 1000000000 + n smod 1000000000"
    by (simp add: sdiv_mult_smod_eq)
  show "\<bar>n smod 1000000000\<bar> < 1000000000" "0 < n smod 1000000000 \<Longrightarrow> 0 < n"
    "n smod 1000000000 < 0 \<Longrightarrow> n < 0"
    by (auto simp: smod_int_alt_def abs_mult sgn_if split: if_splits)
qed

text \<open>The two corrections of the sign.\<close>

lemma signs_value:
  assumes "\<bar>sint (nanoseconds t)\<bar> < 1000000000" and "\<bar>sint (seconds t)\<bar> < 9223372036854775806"
  shows "clean (correct_signs t) \<and> nanos (correct_signs t) = nanos t"
proof -
  have b: "sint (nanoseconds t) < 1000000000" "- 1000000000 < sint (nanoseconds t)"
    "sint (seconds t) < 9223372036854775806" "- 9223372036854775806 < sint (seconds t)"
    using assms(1,2) by (simp_all add: abs_less_iff)
  consider (pos) "0 < sint (seconds t)" "sint (nanoseconds t) < 0"
    | (neg) "sint (seconds t) < 0" "0 < sint (nanoseconds t)"
    | (same) "\<not> (0 < sint (seconds t) \<and> sint (nanoseconds t) < 0)"
        "\<not> (sint (seconds t) < 0 \<and> 0 < sint (nanoseconds t))" by linarith
  then show ?thesis
  proof cases
    case pos
    have "sint (seconds t - 1) = sint (seconds t) - 1"
      "sint (1000000000 + nanoseconds t) = 1000000000 + sint (nanoseconds t)"
      using b pos by (simp_all add: sint_64_diff sint_32_add)
    with b pos show ?thesis
      by (simp add: correct_signs_def word_sless_alt clean_def nanos_def)
  next
    case neg
    have "sint (seconds t + 1) = sint (seconds t) + 1"
      "sint (nanoseconds t - 1000000000) = sint (nanoseconds t) - 1000000000"
      using b neg by (simp_all add: sint_64_add sint_32_diff)
    with b neg show ?thesis
      by (simp add: correct_signs_def word_sless_alt clean_def nanos_def)
  next
    case same
    with assms(1) show ?thesis
      by (simp add: correct_signs_def word_sless_alt clean_def nanos_def) linarith
  qed
qed

lemma cleanup_value:
  assumes "time_within 9223372036854775000 t"
  shows "clean (cleanup_nanosecs t) \<and> nanos (cleanup_nanosecs t) = nanos t"
proof -
  define n q r s where "n = sint (nanoseconds t)" and "q = n sdiv 1000000000"
    and "r = n smod 1000000000" and "s = sint (seconds t)"
  have n: "n = q * 1000000000 + r" "\<bar>r\<bar> < 1000000000"
    unfolding q_def r_def using truncated [of n] by auto
  have nr: "- 2147483648 \<le> n" "n < 2147483648" unfolding n_def by (rule sint_32_range)+
  have q: "- 4 < q" using n nr(1) by linarith
  have q': "q < 4" using n nr(2) by linarith
  have s: "\<bar>s\<bar> \<le> 9223372036854775000" using assms by (simp add: time_within_def s_def)
  define t1 where "t1 = \<lparr>seconds = seconds t + word_of_int q, nanoseconds = word_of_int r\<rparr>"
  have f: "sint (seconds t1) = s + q" "sint (nanoseconds t1) = r"
    unfolding t1_def using s q q' n(2) by (simp_all add: sint_64_add s_def [symmetric])
  have "t\<lparr>nanoseconds := word_of_int r, seconds := seconds t + word_of_int q\<rparr> = t1"
    by (cases t) (simp add: t1_def)
  then have "cleanup_nanosecs t = correct_signs t1"
    by (simp add: cleanup_nanosecs_def n_def q_def r_def)
  then have "clean (cleanup_nanosecs t) \<and> nanos (cleanup_nanosecs t) = nanos t1"
    using signs_value [of t1] s q q' n(2) by (simp add: f)
  moreover have "nanos t1 = nanos t"
    using n(1) by (simp add: nanos_def f s_def [symmetric] n_def [symmetric])
  ultimately show ?thesis by simp
qed

section \<open>Comparisons\<close>

text \<open>A time in order: cleaned up, and far from the limits of 64 bits.\<close>

definition proper :: "TimeSpec \<Rightarrow> bool" where
  "proper t \<longleftrightarrow> clean t \<and> time_within 4611686018427387000 t"

lemma clean_sign:
  assumes "clean t"
  shows "(if seconds t = 0 then 0 <s nanoseconds t else 0 <s seconds t) \<longleftrightarrow> 0 < nanos t"
    and "(if seconds t = 0 then nanoseconds t <s 0 else seconds t <s 0) \<longleftrightarrow> nanos t < 0"
proof -
  have b: "sint (nanoseconds t) < 1000000000" "- 1000000000 < sint (nanoseconds t)"
    "0 < sint (seconds t) \<Longrightarrow> 0 \<le> sint (nanoseconds t)" "sint (seconds t) < 0 \<Longrightarrow> sint (nanoseconds t) \<le> 0"
    using assms by (simp_all add: clean_def abs_less_iff)
  have z: "seconds t = 0 \<longleftrightarrow> sint (seconds t) = 0" by (metis signed_0 signed_word_eqI)
  show "(if seconds t = 0 then 0 <s nanoseconds t else 0 <s seconds t) \<longleftrightarrow> 0 < nanos t"
    "(if seconds t = 0 then nanoseconds t <s 0 else seconds t <s 0) \<longleftrightarrow> nanos t < 0"
    using b unfolding z word_sless_alt nanos_def signed_0
    by (cases "sint (seconds t)" "0 :: int" rule: linorder_cases; simp; linarith)+
qed

lemma clean_unique:
  assumes "clean t1" and "clean t2" and "nanos t1 = nanos t2"
  shows "t1 = t2"
proof -
  have b: "sint (nanoseconds t) < 1000000000" "- 1000000000 < sint (nanoseconds t)"
    "0 < sint (seconds t) \<Longrightarrow> 0 \<le> sint (nanoseconds t)" "sint (seconds t) < 0 \<Longrightarrow> sint (nanoseconds t) \<le> 0"
    if "clean t" for t
    using that by (simp_all add: clean_def abs_less_iff)
  have s: "sint (seconds t1) = sint (seconds t2)"
  proof (rule ccontr)
    assume "sint (seconds t1) \<noteq> sint (seconds t2)"
    then consider "sint (seconds t1) + 1 \<le> sint (seconds t2)" | "sint (seconds t2) + 1 \<le> sint (seconds t1)"
      by linarith
    then show False
      using b [OF assms(1)] b [OF assms(2)] assms(3) unfolding nanos_def by cases linarith+
  qed
  with assms(3) have "sint (nanoseconds t1) = sint (nanoseconds t2)" by (simp add: nanos_def)
  with s show ?thesis by (auto intro: TimeSpec.equality simp: signed_word_eqI)
qed

lemma time_minus_value:
  assumes "proper t1" and "proper t2"
  shows "clean (time_minus t1 t2) \<and> nanos (time_minus t1 t2) = nanos t1 - nanos t2"
proof -
  have b: "sint (nanoseconds t) < 1000000000" "- 1000000000 < sint (nanoseconds t)"
    "sint (seconds t) \<le> 4611686018427387000" "- 4611686018427387000 \<le> sint (seconds t)" if "proper t" for t
    using that by (auto simp: proper_def clean_def time_within_def abs_less_iff abs_le_iff)
  have d: "sint (seconds t1 - seconds t2) = sint (seconds t1) - sint (seconds t2)"
    "sint (nanoseconds t1 - nanoseconds t2) = sint (nanoseconds t1) - sint (nanoseconds t2)"
    using b [OF assms(1)] b [OF assms(2)] by (intro sint_64_diff sint_32_diff; linarith)+
  let ?d = "\<lparr>seconds = seconds t1 - seconds t2, nanoseconds = nanoseconds t1 - nanoseconds t2\<rparr>"
  have "time_within 9223372036854775000 ?d"
    using b [OF assms(1)] b [OF assms(2)] by (simp add: time_within_def d abs_le_iff)
  from cleanup_value [OF this] show ?thesis
    by (simp add: time_minus_def TimeSpec_of_def nanos_def d)
qed

lemma compare_times:
  assumes "proper t1" and "proper t2"
  shows time_eq_iff: "time_eq t1 t2 \<longleftrightarrow> nanos t1 = nanos t2"
    and time_gt_iff: "time_gt t1 t2 \<longleftrightarrow> nanos t2 < nanos t1"
    and time_lt_iff: "time_lt t1 t2 \<longleftrightarrow> nanos t1 < nanos t2"
    and time_ge_iff: "time_ge t1 t2 \<longleftrightarrow> nanos t2 \<le> nanos t1"
    and time_le_iff: "time_le t1 t2 \<longleftrightarrow> nanos t1 \<le> nanos t2"
proof -
  show e: "time_eq t1 t2 \<longleftrightarrow> nanos t1 = nanos t2"
    using clean_unique [of t1 t2] assms by (auto simp: time_eq_def proper_def nanos_def)
  note m = time_minus_value [OF assms]
  show g: "time_gt t1 t2 \<longleftrightarrow> nanos t2 < nanos t1"
    using clean_sign(1) [OF m [THEN conjunct1]] m by (simp add: time_gt_def Let_def)
  show l: "time_lt t1 t2 \<longleftrightarrow> nanos t1 < nanos t2"
    using clean_sign(2) [OF m [THEN conjunct1]] m by (simp add: time_lt_def Let_def)
  show "time_ge t1 t2 \<longleftrightarrow> nanos t2 \<le> nanos t1" "time_le t1 t2 \<longleftrightarrow> nanos t1 \<le> nanos t2"
    by (auto simp: time_ge_def time_le_def e g l)
qed

text \<open>Cleaning up a time in order changes nothing.\<close>

lemma TimeSpec_of_clean:
  assumes "proper t"
  shows "TimeSpec_of (seconds t) (nanoseconds t) = t"
proof -
  have "time_within 9223372036854775000 \<lparr>seconds = seconds t, nanoseconds = nanoseconds t\<rparr>"
    using assms by (simp add: proper_def time_within_def)
  from cleanup_value [OF this] show ?thesis
    using assms by (intro clean_unique) (auto simp: proper_def TimeSpec_of_def nanos_def)
qed

lemma proper_zero: "proper TimeSpec_zero" "nanos TimeSpec_zero = 0"
  by (simp_all add: proper_def TimeSpec_zero_def clean_def time_within_def nanos_def)

lemma proper_of:
  assumes "time_within 4611686018427380000 \<lparr>seconds = s, nanoseconds = n\<rparr>"
  shows "proper (TimeSpec_of s n)"
    and "nanos (TimeSpec_of s n) = sint s * 1000000000 + sint n"
proof -
  let ?t = "\<lparr>seconds = s, nanoseconds = n\<rparr>"
  have "time_within 9223372036854775000 ?t" using assms by (simp add: time_within_def)
  note c = cleanup_value [OF this]
  then show v: "nanos (TimeSpec_of s n) = sint s * 1000000000 + sint n"
    by (simp add: TimeSpec_of_def nanos_def)
  define u where "u = TimeSpec_of s n"
  have cu: "clean u" "nanos u = sint s * 1000000000 + sint n"
    using c v by (simp_all add: u_def TimeSpec_of_def)
  have "\<bar>sint (seconds u)\<bar> \<le> 4611686018427387000"
    using cu sint_32_range [of n] assms
    by (simp add: clean_def nanos_def time_within_def abs_less_iff abs_le_iff)
  with cu show "proper (TimeSpec_of s n)" by (simp add: proper_def time_within_def u_def)
qed

end
