(* ===== verification/RR_WireMember.thy ===== *)
theory RR_WireMember
  imports RR_TimeSpec RR_Pipe RR_Error
begin

text \<open>
  Wire members (\<open>WireMember.cpp\<close>): \<open>WireConnectionBase\<close>, which holds the most recent value of each
  direction with its time, the packets of \<open>WireBase\<close>, and \<open>WireClientBase\<close>, which has at most one
  connection.  The user keeps connections that the client has let go, so the connections are
  numbered objects.  Arguments stand for the node (\<open>None\<close> when it has been released) and the stub
  (\<open>None\<close> likewise); what a call does outside is an event.
\<close>

section \<open>Connections\<close>

text \<open>
  A value of the node's clocks: \<open>NowTimeSpec\<close> and \<open>NowNodeTime\<close>, the second in microseconds.  A
  \<open>ptime\<close> that was never set is \<open>None\<close>; it compares with no time.
\<close>

record wire_node =
  NowTimeSpec :: TimeSpec
  NowNodeTime :: int

record 'v wire_connection =
  wire_endpoint :: "32 word"
  wire_direction :: MemberDefinition_Direction
  inval :: "'v option"
  inval_valid :: bool
  lasttime_recv :: TimeSpec
  lasttime_recv_local :: "int option"
  inval_lifespan :: "32 word"
  outval :: "'v option"
  outval_valid :: bool
  lasttime_send :: TimeSpec
  lasttime_send_local :: "int option"
  outval_lifespan :: "32 word"
  ignore_inval :: bool
  send_closed :: bool
  recv_closed :: bool
  wire_listeners :: "nat list"

definition WireConnectionBase ::
  "32 word \<Rightarrow> MemberDefinition_Direction \<Rightarrow> 'v wire_connection" where
  "WireConnectionBase endpoint direction =
     \<lparr>wire_endpoint = endpoint, wire_direction = direction,
      inval = None, inval_valid = False, lasttime_recv = TimeSpec_zero, lasttime_recv_local = None,
      inval_lifespan = - 1,
      outval = None, outval_valid = False, lasttime_send = TimeSpec_zero, lasttime_send_local = None,
      outval_lifespan = - 1,
      ignore_inval = False, send_closed = False, recv_closed = False, wire_listeners = []\<rparr>"

definition GetLastValueReceivedTime :: "'v wire_connection \<Rightarrow> TimeSpec result" where
  "GetLastValueReceivedTime c =
     (if \<not> inval_valid c then throw_r ValueNotSetException ''No value received''
      else Inr (lasttime_recv c))"

definition GetLastValueSentTime :: "'v wire_connection \<Rightarrow> TimeSpec result" where
  "GetLastValueSentTime c =
     (if \<not> outval_valid c then throw_r ValueNotSetException ''No value sent''
      else Inr (lasttime_send c))"

text \<open>
  The macro \<open>RR_WIRE_CONNECTION_LISTENER_ITER\<close>: released listeners leave the list, and the first
  that throws ends the loop.  The result is the listeners called and the new list.
\<close>

datatype listener_reply = Released | Returned | Thrown

fun WIRE_CONNECTION_LISTENER_ITER ::
  "(nat \<Rightarrow> listener_reply) \<Rightarrow> nat list \<Rightarrow> nat list \<times> nat list" where
  "WIRE_CONNECTION_LISTENER_ITER reply [] = ([], [])"
| "WIRE_CONNECTION_LISTENER_ITER reply (l # ls) =
     (case reply l of
        Released \<Rightarrow> WIRE_CONNECTION_LISTENER_ITER reply ls
      | Thrown \<Rightarrow> ([l], l # ls)
      | Returned \<Rightarrow>
          (case WIRE_CONNECTION_LISTENER_ITER reply ls of (called, ls) \<Rightarrow> (l # called, l # ls)))"

text \<open>The listeners called, whether the event fired, and the connection.\<close>

definition WirePacketReceived ::
  "wire_node option \<Rightarrow> (nat \<Rightarrow> listener_reply) \<Rightarrow> TimeSpec \<Rightarrow> 'v \<Rightarrow> 'v wire_connection
   \<Rightarrow> nat list \<times> bool \<times> 'v wire_connection" where
  "WirePacketReceived node reply timespec packet c =
     (if ignore_inval c then ([], False, c)
      else if time_eq (lasttime_recv c) (TimeSpec_of 0 0) \<or> time_gt timespec (lasttime_recv c) then
        (let c = c\<lparr>inval := Some packet, lasttime_recv := timespec\<rparr>;
             c = (case node of
                    None \<Rightarrow> c
                  | Some n \<Rightarrow> c\<lparr>lasttime_recv_local := Some (NowNodeTime n)\<rparr>);
             c = c\<lparr>inval_valid := True\<rparr>
         in (case WIRE_CONNECTION_LISTENER_ITER reply (wire_listeners c) of
               (called, ls) \<Rightarrow> (called, True, c\<lparr>wire_listeners := ls\<rparr>)))
      else ([], False, c))"

definition IsValueExpired :: "wire_node option \<Rightarrow> int option \<Rightarrow> 32 word \<Rightarrow> bool" where
  "IsValueExpired node recv_time lifespan =
     (if lifespan <s 0 then False
      else
        (case node of
           None \<Rightarrow> True
         | Some n \<Rightarrow>
             (case recv_time of
                None \<Rightarrow> False
              | Some t \<Rightarrow> t + sint lifespan * 1000 < NowNodeTime n)))"

definition GetInValueBase :: "wire_node option \<Rightarrow> 'v wire_connection \<Rightarrow> 'v option result" where
  "GetInValueBase node c =
     (if wire_direction c = MemberDefinition_Direction_writeonly
      then throw_r WriteOnlyMemberException ''Write only member''
      else if \<not> inval_valid c then throw_r ValueNotSetException ''Value not set''
      else if IsValueExpired node (lasttime_recv_local c) (inval_lifespan c)
      then throw_r ValueNotSetException ''Value expired''
      else Inr (inval c))"

definition GetOutValueBase :: "wire_node option \<Rightarrow> 'v wire_connection \<Rightarrow> 'v option result" where
  "GetOutValueBase node c =
     (if wire_direction c = MemberDefinition_Direction_readonly
      then throw_r ReadOnlyMemberException ''Read only member''
      else if \<not> outval_valid c then throw_r ValueNotSetException ''Value not set''
      else if IsValueExpired node (lasttime_send_local c) (outval_lifespan c)
      then throw_r ValueNotSetException ''Value expired''
      else Inr (outval c))"

text \<open>
  \<open>send\<close> is \<open>GetParent()->SendWirePacket\<close>.  A time that is not newer than the last one is replaced
  by the last one and a nanosecond; everything is kept as it was when sending throws.
\<close>

definition SetOutValueBase ::
  "wire_node option \<Rightarrow> ('v \<Rightarrow> TimeSpec \<Rightarrow> 32 word \<Rightarrow> 'm result) \<Rightarrow> 'v \<Rightarrow> 'v wire_connection
   \<Rightarrow> 'm result \<times> 'v wire_connection" where
  "SetOutValueBase node send v c =
     (if wire_direction c = MemberDefinition_Direction_readonly
      then (throw_r ReadOnlyMemberException ''Read only member'', c)
      else
        (case node of
           None \<Rightarrow> (Inl (UndefinedBehaviour ''null node''), c)
         | Some n \<Rightarrow>
             (let time = NowTimeSpec n;
                  time = (if time_le time (lasttime_send c)
                          then cleanup_nanosecs
                            ((lasttime_send c)\<lparr>nanoseconds := nanoseconds (lasttime_send c) + 1\<rparr>)
                          else time)
              in case send v time (wire_endpoint c) of
                   Inl e \<Rightarrow> (Inl e, c)
                 | Inr m \<Rightarrow>
                     (Inr m, c\<lparr>outval := Some v, lasttime_send := time,
                               lasttime_send_local := Some (NowNodeTime n), outval_valid := True\<rparr>))))"

definition TryGetInValueBase ::
  "wire_node option \<Rightarrow> 'v wire_connection \<Rightarrow> ('v option \<times> TimeSpec) option result" where
  "TryGetInValueBase node c =
     (if wire_direction c = MemberDefinition_Direction_writeonly
      then throw_r WriteOnlyMemberException ''Write only member''
      else if \<not> inval_valid c then Inr None
      else if IsValueExpired node (lasttime_recv_local c) (inval_lifespan c) then Inr None
      else Inr (Some (inval c, lasttime_recv c)))"

definition TryGetOutValueBase ::
  "wire_node option \<Rightarrow> 'v wire_connection \<Rightarrow> ('v option \<times> TimeSpec) option result" where
  "TryGetOutValueBase node c =
     (if wire_direction c = MemberDefinition_Direction_readonly
      then throw_r ReadOnlyMemberException ''Read only member''
      else if \<not> outval_valid c then Inr None
      else if IsValueExpired node (lasttime_send_local c) (outval_lifespan c) then Inr None
      else Inr (Some (outval c, lasttime_send c)))"

definition GetInValueValid :: "'v wire_connection \<Rightarrow> bool" where
  "GetInValueValid c = inval_valid c"

definition GetOutValueValid :: "'v wire_connection \<Rightarrow> bool" where
  "GetOutValueValid c = outval_valid c"

definition SetIgnoreInValue :: "bool \<Rightarrow> 'v wire_connection \<Rightarrow> 'v wire_connection" where
  "SetIgnoreInValue ignore c = c\<lparr>ignore_inval := ignore\<rparr>"

definition AddListener :: "nat \<Rightarrow> 'v wire_connection \<Rightarrow> 'v wire_connection" where
  "AddListener l c = c\<lparr>wire_listeners := wire_listeners c @ [l]\<rparr>"

definition SetInValueLifespan :: "32 word \<Rightarrow> 'v wire_connection \<Rightarrow> 'v wire_connection" where
  "SetInValueLifespan millis c = c\<lparr>inval_lifespan := millis\<rparr>"

definition SetOutValueLifespan :: "32 word \<Rightarrow> 'v wire_connection \<Rightarrow> 'v wire_connection" where
  "SetOutValueLifespan millis c = c\<lparr>outval_lifespan := millis\<rparr>"

text \<open>\<open>Shutdown\<close>: the listeners that are told, and the connection.  The closed callback is posted as well.\<close>

definition WireConnectionBase_Shutdown ::
  "(nat \<Rightarrow> listener_reply) \<Rightarrow> 'v wire_connection \<Rightarrow> nat list \<times> 'v wire_connection" where
  "WireConnectionBase_Shutdown reply c =
     (let c = c\<lparr>send_closed := True, recv_closed := True\<rparr>;
          listeners1 = wire_listeners c
      in (filter (\<lambda>l. reply l \<noteq> Released) listeners1, c\<lparr>wire_listeners := []\<rparr>))"

section \<open>Packets\<close>

text \<open>\<open>CastData\<close> at the two number types of a time.\<close>

definition CastData_i64 :: "MessageElement \<Rightarrow> 64 word list option result" where
  "CastData_i64 m =
     (case dat m of
        None \<Rightarrow> Inr None
      | Some (ArrayData (RRArray_int64 xs)) \<Rightarrow> Inr (Some xs)
      | _ \<Rightarrow> throw_r DataTypeMismatchException ''Data type cast error'')"

definition CastData_i32 :: "MessageElement \<Rightarrow> 32 word list option result" where
  "CastData_i32 m =
     (case dat m of
        None \<Rightarrow> Inr None
      | Some (ArrayData (RRArray_int32 xs)) \<Rightarrow> Inr (Some xs)
      | _ \<Rightarrow> throw_r DataTypeMismatchException ''Data type cast error'')"

text \<open>\<open>packettime\<close> without data gives a null pointer, which is dereferenced.\<close>

definition UnpackPacket_wire ::
  "(MessageElement \<Rightarrow> 'a result) \<Rightarrow> bool \<Rightarrow> message_entry \<Rightarrow> ('a pipe_value \<times> TimeSpec) result" where
  "UnpackPacket_wire UnpackData rawelements me =
     bind_r (FindElement (elements me) ''packettime'') (\<lambda>pt.
     bind_r (CastDataToNestedList_type DataTypes_structure_t pt) (\<lambda>s.
     case s of
       None \<Rightarrow> Inl (UndefinedBehaviour ''null element list'')
     | Some (_, _, es) \<Rightarrow>
         bind_r (FindElement es ''seconds'') (\<lambda>se.
         bind_r (CastData_i64 se) (\<lambda>sa.
         bind_r (RRArrayToScalar sa) (\<lambda>sec.
         bind_r (FindElement es ''nanoseconds'') (\<lambda>ne.
         bind_r (CastData_i32 ne) (\<lambda>na.
         bind_r (RRArrayToScalar na) (\<lambda>nanosec.
         bind_r (FindElement (elements me) ''packet'') (\<lambda>p.
         bind_r (if \<not> rawelements then bind_r (UnpackData p) (\<lambda>v. Inr (PackedValue v))
                 else Inr (RawElement p)) (\<lambda>data.
         Inr (data, TimeSpec_of sec nanosec)))))))))))"

definition DispatchPacket_wire ::
  "(MessageElement \<Rightarrow> 'a result) \<Rightarrow> bool \<Rightarrow> wire_node option \<Rightarrow> (nat \<Rightarrow> listener_reply)
   \<Rightarrow> message_entry \<Rightarrow> 'a pipe_value wire_connection
   \<Rightarrow> (nat list \<times> bool \<times> 'a pipe_value wire_connection) result" where
  "DispatchPacket_wire UnpackData rawelements node reply me c =
     bind_r (UnpackPacket_wire UnpackData rawelements me) (\<lambda>(data, timespec).
       Inr (WirePacketReceived node reply timespec data c))"

abbreviation MessageEntryType_WireConnectReq :: "16 word" where "MessageEntryType_WireConnectReq \<equiv> 1163"
abbreviation MessageEntryType_WireDisconnectReq :: "16 word" where "MessageEntryType_WireDisconnectReq \<equiv> 1165"
abbreviation MessageEntryType_WireClosed :: "16 word" where "MessageEntryType_WireClosed \<equiv> 1167"
abbreviation MessageEntryType_WirePeekInValueReq :: "16 word" where "MessageEntryType_WirePeekInValueReq \<equiv> 1181"
abbreviation MessageEntryType_WirePeekOutValueReq :: "16 word" where "MessageEntryType_WirePeekOutValueReq \<equiv> 1183"
abbreviation MessageEntryType_WirePokeOutValueReq :: "16 word" where "MessageEntryType_WirePokeOutValueReq \<equiv> 1185"
abbreviation MessageEntryType_WirePacket_value :: "16 word" where "MessageEntryType_WirePacket_value \<equiv> 1161"

definition time_element :: "TimeSpec \<Rightarrow> MessageElementData" where
  "time_element time =
     NestedElementList DataTypes_structure_t ''RobotRaconteur.TimeSpec''
       [CreateMessageElement_named ''seconds'' (Some (ArrayData (RRArray_int64 [seconds time]))),
        CreateMessageElement_named ''nanoseconds'' (Some (ArrayData (RRArray_int32 [nanoseconds time])))]"

definition PackPacket_wire ::
  "('a \<Rightarrow> MessageElementData option result) \<Rightarrow> bool \<Rightarrow> string \<Rightarrow> 'a pipe_value \<Rightarrow> TimeSpec
   \<Rightarrow> message_entry result" where
  "PackPacket_wire PackData rawelements member_name data time =
     bind_r
       (if \<not> rawelements then
          (case data of
             PackedValue v \<Rightarrow> bind_r (PackData v) (\<lambda>pdata. Inr (CreateMessageElement_named ''packet'' pdata))
           | RawElement _ \<Rightarrow> throw_r DataTypeMismatchException ''Data type cast error'')
        else
          (case data of
             RawElement pme \<Rightarrow> Inr (MessageElement ((flds pme)\<lparr>ElementName := ''packet''\<rparr>) (dat pme))
           | PackedValue _ \<Rightarrow> Inl (UndefinedBehaviour ''null message element''))) (\<lambda>packet.
     Inr ((CreateMessageEntry_named MessageEntryType_WirePacket_value member_name)
          \<lparr>elements := [CreateMessageElement_named ''packettime'' (Some (time_element time)), packet],
           EntryMetaData := ''unreliable'' @ [CHR 0x0A]\<rparr>))"

section \<open>The newest value wins\<close>

text \<open>
  A register that keeps the newest of the values it is given: \<open>held\<close> is what it holds, and a value
  replaces another one exactly when it is newer.
\<close>

locale newest_register =
  fixes take_in :: "'e \<Rightarrow> 't \<Rightarrow> 'v \<Rightarrow> 's \<Rightarrow> 's"
    and held :: "'s \<Rightarrow> ('t \<times> 'v) option"
    and age :: "'t \<Rightarrow> int"
    and usable :: "'s \<Rightarrow> bool"
    and regular :: "'t \<Rightarrow> bool"
  assumes usable_take: "usable s \<Longrightarrow> regular t \<Longrightarrow> usable (take_in e t v s)"
    and first_value: "usable s \<Longrightarrow> regular t \<Longrightarrow> held s = None \<Longrightarrow> held (take_in e t v s) = Some (t, v)"
    and next_value: "usable s \<Longrightarrow> regular t \<Longrightarrow> held s = Some m \<Longrightarrow>
      held (take_in e t v s) = Some (if age (fst m) < age t then (t, v) else m)"
begin

lemma keeps_newest:
  assumes "usable s" and "\<forall>m \<in> set ms. regular (fst (snd m))" and "held s = Some m"
  shows "\<exists>m'. held (fold (\<lambda>(e, t, v). take_in e t v) ms s) = Some m' \<and> m' \<in> insert m (snd ` set ms)
    \<and> (\<forall>x \<in> insert m (snd ` set ms). age (fst x) \<le> age (fst m'))"
  using assms
proof (induction ms arbitrary: s m)
  case (Cons x ms)
  obtain e t v where x: "x = (e, t, v)" by (cases x)
  define m1 where "m1 = (if age (fst m) < age t then (t, v) else m)"
  have t: "regular t" using Cons.prems(2) x by auto
  have "\<exists>m'. held (fold (\<lambda>(e, t, v). take_in e t v) ms (take_in e t v s)) = Some m' \<and> m' \<in> insert m1 (snd ` set ms)
    \<and> (\<forall>x \<in> insert m1 (snd ` set ms). age (fst x) \<le> age (fst m'))"
  proof (rule Cons.IH)
    show "held (take_in e t v s) = Some m1"
      unfolding m1_def by (rule next_value [OF Cons.prems(1) t Cons.prems(3)])
  qed (use usable_take [OF Cons.prems(1) t] Cons.prems(2) in \<open>auto\<close>)
  then obtain m' where m': "held (fold (\<lambda>(e, t, v). take_in e t v) ms (take_in e t v s)) = Some m'"
    "m' \<in> insert m1 (snd ` set ms)" "\<forall>x \<in> insert m1 (snd ` set ms). age (fst x) \<le> age (fst m')" by blast
  have "m1 \<in> {m, (t, v)}" "age (fst m) \<le> age (fst m1)" "age t \<le> age (fst m1)" by (auto simp: m1_def)
  with m' show ?case by (intro exI [of _ m']) (auto simp: x)
qed auto

lemma newest_of_all:
  assumes "usable s" and "\<forall>m \<in> set ms. regular (fst (snd m))" and "held s = None" and "ms \<noteq> []"
  shows "\<exists>m'. held (fold (\<lambda>(e, t, v). take_in e t v) ms s) = Some m' \<and> m' \<in> snd ` set ms
    \<and> (\<forall>x \<in> snd ` set ms. age (fst x) \<le> age (fst m'))"
proof -
  obtain e t v ms' where ms: "ms = (e, t, v) # ms'" using assms(4) by (cases ms) auto
  then have "regular t" using assms(2) by auto
  note u = usable_take [OF assms(1) this] first_value [OF assms(1) this assms(3)]
  show ?thesis using keeps_newest [OF u(1) _ u(2), of ms'] assms(2) by (auto simp: ms)
qed

text \<open>A list of increasing age: the newest of some of its members is the last of them.\<close>

lemma newest_is_last:
  assumes "usable s" and "\<forall>m \<in> set sent. regular (fst m)" and "held s = None" and "ms \<noteq> []"
    and "sorted_wrt (\<lambda>a b. age (fst a) < age (fst b)) sent" and "snd ` set ms \<subseteq> set sent"
  shows "held (fold (\<lambda>(e, t, v). take_in e t v) ms s) = Some (last (filter (\<lambda>m. m \<in> snd ` set ms) sent))"
proof -
  have "\<exists>m'. held (fold (\<lambda>(e, t, v). take_in e t v) ms s) = Some m' \<and> m' \<in> snd ` set ms
    \<and> (\<forall>x \<in> snd ` set ms. age (fst x) \<le> age (fst m'))"
    by (rule newest_of_all [OF assms(1) _ assms(3,4)]) (use assms(2,6) in force)
  then obtain m' where m': "held (fold (\<lambda>(e, t, v). take_in e t v) ms s) = Some m'" "m' \<in> snd ` set ms"
    "\<forall>x \<in> snd ` set ms. age (fst x) \<le> age (fst m')" by blast
  define fs where "fs = filter (\<lambda>m. m \<in> snd ` set ms) sent"
  have fs: "set fs = snd ` set ms" "sorted_wrt (\<lambda>a b. age (fst a) < age (fst b)) fs"
    using assms(5,6) by (auto simp: fs_def intro: sorted_wrt_filter)
  then have "m' \<in> set fs" using m'(2) by simp
  then obtain as bs where ab: "fs = as @ m' # bs" by (meson split_list)
  have "bs = []"
  proof (cases bs rule: rev_cases)
    case (snoc cs z)
    then have "age (fst m') < age (fst z)" using fs(2) by (simp add: ab sorted_wrt_append)
    moreover have "z \<in> snd ` set ms" using fs(1) by (auto simp: ab snoc)
    ultimately show ?thesis using m'(3) by fastforce
  qed
  with ab m'(1) show ?thesis by (simp add: fs_def)
qed

end

text \<open>A connection as such a register: it does not ignore values, and the times it gets are positive.\<close>

definition wire_held :: "'v wire_connection \<Rightarrow> (TimeSpec \<times> 'v) option" where
  "wire_held c = (if inval_valid c then map_option (\<lambda>v. (lasttime_recv c, v)) (inval c) else None)"

definition positive_time :: "TimeSpec \<Rightarrow> bool" where
  "positive_time t \<longleftrightarrow> proper t \<and> 0 < nanos t"

definition listening :: "'v wire_connection \<Rightarrow> bool" where
  "listening c \<longleftrightarrow> \<not> ignore_inval c
     \<and> (if inval_valid c then inval c \<noteq> None \<and> positive_time (lasttime_recv c)
        else lasttime_recv c = TimeSpec_zero)"

definition take_packet ::
  "wire_node option \<times> (nat \<Rightarrow> listener_reply) \<Rightarrow> TimeSpec \<Rightarrow> 'v \<Rightarrow> 'v wire_connection \<Rightarrow> 'v wire_connection" where
  "take_packet e t v c = snd (snd (WirePacketReceived (fst e) (snd e) t v c))"

lemma zero_is_zero: "TimeSpec_of 0 0 = TimeSpec_zero"
  using TimeSpec_of_clean [OF proper_zero(1)] by (simp add: TimeSpec_zero_def)

lemma stored_packet:
  assumes "\<not> ignore_inval c" and "time_eq (lasttime_recv c) (TimeSpec_of 0 0) \<or> time_gt t (lasttime_recv c)"
  shows "inval_valid (take_packet e t v c)" and "inval (take_packet e t v c) = Some v"
    and "lasttime_recv (take_packet e t v c) = t" and "\<not> ignore_inval (take_packet e t v c)"
  using assms
  by (simp_all add: take_packet_def WirePacketReceived_def Let_def split: option.splits prod.splits)

lemma dropped_packet:
  assumes "\<not> time_eq (lasttime_recv c) (TimeSpec_of 0 0)" and "\<not> time_gt t (lasttime_recv c)"
  shows "take_packet e t v c = c"
  using assms by (simp add: take_packet_def WirePacketReceived_def)

lemma positive_time_compare:
  assumes "positive_time t" and "positive_time u"
  shows "\<not> time_eq u (TimeSpec_of 0 0)" and "time_gt t u \<longleftrightarrow> nanos u < nanos t"
  using assms proper_zero
  by (auto simp: positive_time_def zero_is_zero time_eq_iff time_gt_iff)

interpretation wire_register: newest_register take_packet wire_held nanos listening positive_time
proof
  fix c :: "'v wire_connection" and t e v m
  assume c: "listening c" and t: "positive_time t"
  have stored: "wire_held (take_packet e t v c) = Some (t, v) \<and> listening (take_packet e t v c)"
    if "time_eq (lasttime_recv c) (TimeSpec_of 0 0) \<or> time_gt t (lasttime_recv c)"
    using stored_packet [OF _ that, of e v] c t by (simp add: listening_def wire_held_def)
  have empty: "time_eq (lasttime_recv c) (TimeSpec_of 0 0)" if "\<not> inval_valid c"
    using that c by (simp add: listening_def zero_is_zero time_eq_def)
  show "wire_held (take_packet e t v c) = Some (t, v)" if "wire_held c = None"
  proof -
    have "\<not> inval_valid c" using that c by (auto simp: wire_held_def listening_def split: if_splits)
    with stored empty show ?thesis by blast
  qed
  show "listening (take_packet e t v c)"
    using stored empty c t positive_time_compare(1) [OF t, of "lasttime_recv c"] dropped_packet [of c t e v]
    by (cases "time_gt t (lasttime_recv c)"; cases "inval_valid c") (auto simp: listening_def)
  show "wire_held (take_packet e t v c) = Some (if nanos (fst m) < nanos t then (t, v) else m)"
    if "wire_held c = Some m"
  proof -
    have v: "inval_valid c" "fst m = lasttime_recv c" "positive_time (lasttime_recv c)"
      using that c by (auto simp: wire_held_def listening_def split: if_splits)
    show ?thesis
      using stored that dropped_packet [of c t e v] positive_time_compare [OF t v(3)] v(2) by auto
  qed
qed

text \<open>
  Packets arriving, each with the node and the replies of the listeners at that moment; values set
  one after the other, each at a reading of the clocks, and with what sending throws, if it does.
\<close>

definition receive_packets ::
  "((wire_node option \<times> (nat \<Rightarrow> listener_reply)) \<times> TimeSpec \<times> 'v) list \<Rightarrow> 'v wire_connection
   \<Rightarrow> 'v wire_connection" where
  "receive_packets ms c = fold (\<lambda>(e, t, v). take_packet e t v) ms c"

fun set_values ::
  "(wire_node \<times> rr_error option \<times> 'v) list \<Rightarrow> 'v wire_connection
   \<Rightarrow> (TimeSpec \<times> 'v) list \<times> 'v wire_connection" where
  "set_values [] c = ([], c)"
| "set_values ((n, err, v) # vs) c =
     (case SetOutValueBase (Some n)
             (\<lambda>v t _. case err of None \<Rightarrow> Inr (t, v) | Some e \<Rightarrow> Inl e) v c of
        (Inl _, c) \<Rightarrow> set_values vs c
      | (Inr m, c) \<Rightarrow> (case set_values vs c of (ms, c) \<Rightarrow> (m # ms, c)))"

section \<open>Times of sent values\<close>

text \<open>A clock that is in order: its times are cleaned up and below \<open>4 * 10 ^ 18\<close> seconds.\<close>

definition regular_clock :: "wire_node \<Rightarrow> bool" where
  "regular_clock n \<longleftrightarrow> clean (NowTimeSpec n) \<and> time_within 4000000000000000000 (NowTimeSpec n)"

definition latest_time :: int where
  "latest_time = 4000000000000000001 * 1000000000"

definition sent_time :: "nat \<Rightarrow> TimeSpec \<Rightarrow> bool" where
  "sent_time k t \<longleftrightarrow> clean t \<and> 0 \<le> nanos t \<and> nanos t \<le> latest_time + int k"

lemma sent_time_proper:
  assumes "sent_time k t" and "k \<le> 4294967296"
  shows "proper t"
proof -
  have "\<bar>sint (seconds t)\<bar> \<le> 4611686018427387000"
    using assms by (simp add: sent_time_def latest_time_def clean_def nanos_def abs_less_iff abs_le_iff)
  then show ?thesis using assms(1) by (simp add: proper_def sent_time_def time_within_def)
qed

lemma regular_clock_time:
  assumes "regular_clock n"
  shows "proper (NowTimeSpec n)" and "nanos (NowTimeSpec n) \<le> latest_time"
  using assms
  by (auto simp: regular_clock_def proper_def time_within_def latest_time_def clean_def nanos_def
      abs_less_iff abs_le_iff)

text \<open>The next time is newer than the last one.\<close>

definition next_time :: "TimeSpec \<Rightarrow> TimeSpec \<Rightarrow> TimeSpec" where
  "next_time now t =
     (if time_le now t then cleanup_nanosecs (t\<lparr>nanoseconds := nanoseconds t + 1\<rparr>) else now)"

lemma next_time_newer:
  assumes "sent_time k t" and "k < 4294967296" and "regular_clock n"
  shows "sent_time (Suc k) (next_time (NowTimeSpec n) t)"
    and "nanos t < nanos (next_time (NowTimeSpec n) t)"
proof -
  note p = sent_time_proper [OF assms(1)] regular_clock_time [OF assms(3)]
  have pt: "proper t" using p(1) assms(2) by simp
  let ?u = "t\<lparr>nanoseconds := nanoseconds t + 1\<rparr>"
  have "sint (nanoseconds t + 1) = sint (nanoseconds t) + 1"
    using pt by (simp add: sint_32_add proper_def clean_def abs_less_iff)
  then have "nanos ?u = nanos t + 1" "time_within 9223372036854775000 ?u"
    using pt by (simp_all add: nanos_def proper_def time_within_def)
  then have u: "clean (cleanup_nanosecs ?u)" "nanos (cleanup_nanosecs ?u) = nanos t + 1"
    using cleanup_value [of ?u] by simp_all
  have le: "time_le (NowTimeSpec n) t \<longleftrightarrow> nanos (NowTimeSpec n) \<le> nanos t"
    by (rule time_le_iff [OF p(2) pt])
  show "nanos t < nanos (next_time (NowTimeSpec n) t)"
    using u le by (simp add: next_time_def)
  show "sent_time (Suc k) (next_time (NowTimeSpec n) t)"
    using u le assms(1) p(2,3) by (auto simp: next_time_def sent_time_def proper_def)
qed

lemma set_value_step:
  assumes "wire_direction c \<noteq> MemberDefinition_Direction_readonly"
  shows "set_values ((n, err, v) # vs) c =
    (case err of
       Some _ \<Rightarrow> set_values vs c
     | None \<Rightarrow>
         (let t = next_time (NowTimeSpec n) (lasttime_send c);
              r = set_values vs (c\<lparr>outval := Some v, lasttime_send := t,
                    lasttime_send_local := Some (NowNodeTime n), outval_valid := True\<rparr>)
          in ((t, v) # fst r, snd r)))"
  using assms
  by (simp add: SetOutValueBase_def next_time_def Let_def split: option.split prod.split)

lemma sent_times:
  assumes "wire_direction c \<noteq> MemberDefinition_Direction_readonly" and "sent_time k (lasttime_send c)"
    and "k + length vs \<le> 4294967296" and "\<forall>m \<in> set vs. regular_clock (fst m)"
  shows "sorted_wrt (\<lambda>a b. nanos (fst a) < nanos (fst b)) (fst (set_values vs c))
    \<and> (\<forall>m \<in> set (fst (set_values vs c)). nanos (lasttime_send c) < nanos (fst m) \<and> positive_time (fst m))"
  using assms
proof (induction vs arbitrary: c k)
  case (Cons x vs)
  obtain n err v where x: "x = (n, err, v)" by (cases x)
  show ?case
  proof (cases err)
    case None
    define t where "t = next_time (NowTimeSpec n) (lasttime_send c)"
    define c' where "c' = c\<lparr>outval := Some v, lasttime_send := t,
                    lasttime_send_local := Some (NowNodeTime n), outval_valid := True\<rparr>"
    have t: "sent_time (Suc k) t" "nanos (lasttime_send c) < nanos t"
      using next_time_newer [OF Cons.prems(2), of n] Cons.prems(3,4) by (simp_all add: t_def x)
    have "positive_time t"
      using t Cons.prems(2,3) sent_time_proper [OF t(1)] by (auto simp: positive_time_def sent_time_def)
    moreover have "sorted_wrt (\<lambda>a b. nanos (fst a) < nanos (fst b)) (fst (set_values vs c'))
      \<and> (\<forall>m \<in> set (fst (set_values vs c')). nanos (lasttime_send c') < nanos (fst m) \<and> positive_time (fst m))"
      by (rule Cons.IH [of _ "Suc k"]) (use Cons.prems t(1) in \<open>auto simp: c'_def\<close>)
    moreover have "lasttime_send c' = t" by (simp add: c'_def)
    moreover have "fst (set_values (x # vs) c) = (t, v) # fst (set_values vs c')"
      unfolding x set_value_step [OF Cons.prems(1)] None by (simp add: Let_def t_def c'_def)
    ultimately show ?thesis using t(2) by fastforce
  next
    case (Some e)
    then have "set_values (x # vs) c = set_values vs c"
      unfolding x set_value_step [OF Cons.prems(1)] by simp
    then show ?thesis using Cons.IH [OF Cons.prems(1,2)] Cons.prems(3,4) by simp
  qed
qed simp

section \<open>Properties\<close>

lemma fresh_listening: "listening (WireConnectionBase j d)" "wire_held (WireConnectionBase j d) = None"
  by (simp_all add: WireConnectionBase_def listening_def wire_held_def)

lemma receive_packets_frame:
  "wire_direction (receive_packets ms c) = wire_direction c
   \<and> inval_lifespan (receive_packets ms c) = inval_lifespan c"
proof (induction ms arbitrary: c)
  case (Cons m ms)
  have "wire_direction (take_packet e t v c) = wire_direction c
      \<and> inval_lifespan (take_packet e t v c) = inval_lifespan c" for e t v
    by (simp add: take_packet_def WirePacketReceived_def Let_def split: option.split prod.split)
  with Cons.IH show ?case by (cases m) (simp add: receive_packets_def)
qed (simp add: receive_packets_def)

text \<open>
  C17: The newest value wins.  One side sets values one after the other, at whatever times its clock
  shows (it may stand still or go back), and some of the sends fail; of the packets sent, the other side
  gets some, in any order and any number of times.  Then \<open>TryGetInValueBase\<close> gives the value that was
  sent last among those that arrived, with its time.
\<close>

theorem wire_newest_value_wins:
  assumes "\<forall>m \<in> set vs. regular_clock (fst m)" and "length vs \<le> 4294967296"
    and "sd \<noteq> MemberDefinition_Direction_readonly" and "rd \<noteq> MemberDefinition_Direction_writeonly"
    and "ms \<noteq> []" and "snd ` set ms \<subseteq> set (fst (set_values vs (WireConnectionBase i sd)))"
  shows "TryGetInValueBase node (receive_packets ms (WireConnectionBase j rd))
    = (case last (filter (\<lambda>m. m \<in> snd ` set ms) (fst (set_values vs (WireConnectionBase i sd)))) of
         (t, v) \<Rightarrow> Inr (Some (Some v, t)))"
proof -
  define sent where "sent = fst (set_values vs (WireConnectionBase i sd))"
  define c where "c = receive_packets ms (WireConnectionBase j rd)"
  let ?c = "WireConnectionBase i sd :: 'a wire_connection"
  have "wire_direction ?c \<noteq> MemberDefinition_Direction_readonly" "sent_time 0 (lasttime_send ?c)"
    using assms(3) proper_zero
    by (simp_all add: WireConnectionBase_def sent_time_def proper_def latest_time_def)
  from sent_times [OF this, of vs] assms(1,2)
  have "sorted_wrt (\<lambda>a b. nanos (fst a) < nanos (fst b)) sent
    \<and> (\<forall>m \<in> set sent. nanos (lasttime_send ?c) < nanos (fst m) \<and> positive_time (fst m))"
    by (simp add: sent_def)
  then have s: "sorted_wrt (\<lambda>a b. nanos (fst a) < nanos (fst b)) sent" "\<forall>m \<in> set sent. positive_time (fst m)"
    by blast+
  obtain t v where tv: "last (filter (\<lambda>m. m \<in> snd ` set ms) sent) = (t, v)" by fastforce
  have "wire_held c = Some (last (filter (\<lambda>m. m \<in> snd ` set ms) sent))"
    unfolding c_def receive_packets_def
    by (rule wire_register.newest_is_last [OF fresh_listening(1) s(2) fresh_listening(2) assms(5) s(1)])
      (use assms(6) in \<open>simp add: sent_def\<close>)
  moreover have "wire_direction c = rd" "inval_lifespan c = - 1"
    using receive_packets_frame [of ms "WireConnectionBase j rd :: 'a wire_connection"]
    by (simp_all add: c_def WireConnectionBase_def)
  ultimately show ?thesis
    using assms(4) unfolding sent_def [symmetric] c_def [symmetric] tv
    by (auto simp: TryGetInValueBase_def IsValueExpired_def wire_held_def split: if_splits)
qed

definition sample_clock :: "int \<Rightarrow> wire_node" where
  "sample_clock s = \<lparr>NowTimeSpec = \<lparr>seconds = word_of_int s, nanoseconds = 0\<rparr>, NowNodeTime = s * 1000000\<rparr>"

text \<open>The clock goes back by a second before the second value, and sending the third one fails.\<close>

definition sample_values :: "(wire_node \<times> rr_error option \<times> string) list" where
  "sample_values =
     [(sample_clock 7, None, ''a''), (sample_clock 6, None, ''b''),
      (sample_clock 6, Some (Exn ConnectionException ''lost''), ''c''), (sample_clock 9, None, ''d'')]"

lemma sample_sent:
  "fst (set_values sample_values (WireConnectionBase 1 MemberDefinition_Direction_both))
   = [(\<lparr>seconds = 7, nanoseconds = 0\<rparr>, ''a''), (\<lparr>seconds = 7, nanoseconds = 1\<rparr>, ''b''),
      (\<lparr>seconds = 9, nanoseconds = 0\<rparr>, ''d'')]"
  by code_simp

theorem wire_newest_value_wins_witness:
  "let e = (None, \<lambda>_. Returned); ta = \<lparr>seconds = 7, nanoseconds = 0\<rparr>; tb = \<lparr>seconds = 7, nanoseconds = 1\<rparr>
   in TryGetInValueBase None (receive_packets [(e, tb, ''b''), (e, ta, ''a''), (e, tb, ''b'')]
        (WireConnectionBase 2 MemberDefinition_Direction_readonly)) = Inr (Some (Some ''b'', tb))"
proof -
  let ?ta = "\<lparr>seconds = 7, nanoseconds = 0\<rparr>" and ?tb = "\<lparr>seconds = 7, nanoseconds = 1\<rparr>"
  let ?e = "(None, \<lambda>_. Returned) :: wire_node option \<times> (nat \<Rightarrow> listener_reply)"
  have "TryGetInValueBase None (receive_packets [(?e, ?tb, ''b''), (?e, ?ta, ''a''), (?e, ?tb, ''b'')]
        (WireConnectionBase 2 MemberDefinition_Direction_readonly))
    = (case last (filter (\<lambda>m. m \<in> snd ` set [(?e, ?tb, ''b''), (?e, ?ta, ''a''), (?e, ?tb, ''b'')])
        (fst (set_values sample_values (WireConnectionBase 1 MemberDefinition_Direction_both)))) of
         (t, v) \<Rightarrow> Inr (Some (Some v, t)))"
    by (rule wire_newest_value_wins)
      (simp_all add: sample_sent,
       simp_all add: sample_values_def sample_clock_def regular_clock_def clean_def time_within_def)
  also have "\<dots> = Inr (Some (Some ''b'', ?tb))" by (simp add: sample_sent)
  finally show ?thesis by (simp only: Let_def)
qed

text \<open>
  C18: A wire packet survives the trip through a message entry: for any packing functions of the
  member's type that are inverse to each other, \<open>DispatchPacket\<close> on the entry that \<open>PackPacket\<close> made
  hands exactly the value and its time to \<open>WirePacketReceived\<close>.
\<close>

theorem dispatch_packed_wire_packet:
  assumes "PackPacket_wire PackData raw member_name data time = Inr me" and "proper time"
    and "\<And>v d. PackData v = Inr d \<Longrightarrow> UnpackData (CreateMessageElement_named ''packet'' d) = Inr v"
  shows "DispatchPacket_wire UnpackData raw node reply me c
    = Inr (WirePacketReceived node reply time (received_value data) c)"
proof -
  obtain p where p: "ElementName (flds p) = ''packet''"
    "(if \<not> raw then bind_r (UnpackData p) (\<lambda>v. Inr (PackedValue v)) else Inr (RawElement p))
       = Inr (received_value data)"
    and me: "me = (CreateMessageEntry_named MessageEntryType_WirePacket_value member_name)
      \<lparr>elements := [CreateMessageElement_named ''packettime'' (Some (time_element time)), p],
       EntryMetaData := ''unreliable'' @ [CHR 0x0A]\<rparr>"
  proof (cases data)
    case (RawElement pme)
    with assms(1) show thesis
      by (intro that [of "MessageElement ((flds pme)\<lparr>ElementName := ''packet''\<rparr>) (dat pme)"])
        (auto simp: PackPacket_wire_def bind_r_def throw_r_def received_value_def split: if_splits)
  next
    case (PackedValue v)
    with assms(1) obtain d where "PackData v = Inr d" "\<not> raw"
      by (auto simp: PackPacket_wire_def bind_r_def throw_r_def split: if_splits sum.splits)
    with PackedValue assms(1) show thesis
      by (intro that [of "CreateMessageElement_named ''packet'' d"])
        (auto simp: PackPacket_wire_def bind_r_def received_value_def assms(3))
  qed
  have "UnpackPacket_wire UnpackData raw me = Inr (received_value data, time)"
    unfolding UnpackPacket_wire_def me time_element_def
    using TimeSpec_of_clean [OF assms(2)] p
    by (simp add: FindElement_def packet_fields CastData_i64_def CastData_i32_def RRArrayToScalar_def)
  then show ?thesis by (simp add: DispatchPacket_wire_def)
qed

theorem dispatch_packed_wire_packet_witness:
  "let PackData = (\<lambda>v. Inr (Some (ArrayData (RRArray_uint32 [v]))));
       UnpackData = (\<lambda>p. bind_r (CastData_u32 p) RRArrayToScalar);
       t = \<lparr>seconds = 7, nanoseconds = 1\<rparr>;
       me = projr (PackPacket_wire PackData False ''w'' (PackedValue 42) t)
   in DispatchPacket_wire UnpackData False None (\<lambda>_. Returned) me (WireConnectionBase 1 MemberDefinition_Direction_both)
      = Inr ([], True, (WireConnectionBase 1 MemberDefinition_Direction_both)
               \<lparr>inval := Some (PackedValue 42), lasttime_recv := t, inval_valid := True\<rparr>)"
proof -
  let ?P = "\<lambda>v. Inr (Some (ArrayData (RRArray_uint32 [v]))) :: MessageElementData option result"
  let ?U = "\<lambda>p. bind_r (CastData_u32 p) RRArrayToScalar"
  let ?t = "\<lparr>seconds = 7, nanoseconds = 1\<rparr>"
  let ?me = "projr (PackPacket_wire ?P False ''w'' (PackedValue 42) ?t)"
  let ?c = "WireConnectionBase 1 MemberDefinition_Direction_both :: 32 word pipe_value wire_connection"
  have "DispatchPacket_wire ?U False None (\<lambda>_. Returned) ?me ?c
      = Inr (WirePacketReceived None (\<lambda>_. Returned) ?t (received_value (PackedValue 42)) ?c)"
    by (rule dispatch_packed_wire_packet [where PackData = ?P and time = ?t and data = "PackedValue 42"
          and member_name = "''w''"])
      (auto simp: PackPacket_wire_def CastData_u32_def RRArrayToScalar_def proper_def clean_def time_within_def)
  moreover have "WirePacketReceived None (\<lambda>_. Returned) ?t (PackedValue 42) ?c
      = ([], True, ?c\<lparr>inval := Some (PackedValue 42), lasttime_recv := ?t, inval_valid := True\<rparr>)"
    by (simp add: WirePacketReceived_def WireConnectionBase_def zero_is_zero time_eq_def)
  ultimately show ?thesis by (simp only: Let_def received_value_def pipe_value.case)
qed

end
