(* ===== verification/RR_WireClient.thy ===== *)
theory RR_WireClient
  imports RR_WireMember
begin

text \<open>
  The client side of a wire (\<open>WireClientBase\<close> in \<open>WireMember.cpp\<close>): connecting, the packets the
  service sends, closing, peeking and poking.
\<close>

section \<open>The client\<close>

text \<open>What the client does outside: requests, packets, calls of listeners and of the user's callbacks.\<close>

datatype 'v wire_event =
    Request message_entry
  | WireMessage message_entry
  | ValueListener nat nat
  | ValueChanged nat 'v TimeSpec
  | ClosedCallback nat
  | ClosedListener nat nat

record 'v wire_client =
  m_MemberName :: string
  client_direction :: MemberDefinition_Direction
  client_raw :: bool
  wire_objects :: "'v wire_connection list"
  connection :: "nat option"
  wire_events :: "'v wire_event list"

definition WireClientBase ::
  "string \<Rightarrow> MemberDefinition_Direction \<Rightarrow> bool \<Rightarrow> 'v wire_client" where
  "WireClientBase name direction raw =
     \<lparr>m_MemberName = name, client_direction = direction, client_raw = raw,
      wire_objects = [], connection = None, wire_events = []\<rparr>"

definition with_object ::
  "nat \<Rightarrow> ('v wire_connection \<Rightarrow> 'v wire_connection) \<Rightarrow> 'v wire_client \<Rightarrow> 'v wire_client" where
  "with_object i f w = w\<lparr>wire_objects := (wire_objects w)[i := f (wire_objects w ! i)]\<rparr>"

definition happens :: "'v wire_event list \<Rightarrow> 'v wire_client \<Rightarrow> 'v wire_client" where
  "happens es w = w\<lparr>wire_events := wire_events w @ es\<rparr>"

text \<open>The stub's two calls, each of which may throw.\<close>

record wire_stub =
  stub_AsyncProcessRequest :: "message_entry \<Rightarrow> unit result"
  stub_SendWireMessage :: "message_entry \<Rightarrow> unit result"

definition GetStub :: "wire_stub option \<Rightarrow> wire_stub result" where
  "GetStub stub =
     (case stub of
        None \<Rightarrow> throw_r InvalidOperationException ''Wire connection has been closed''
      | Some s \<Rightarrow> Inr s)"

definition GetNode :: "wire_node option \<Rightarrow> wire_node result" where
  "GetNode node =
     (case node of
        None \<Rightarrow> throw_r InvalidOperationException ''Node has been released''
      | Some n \<Rightarrow> Inr n)"

definition AsyncProcessRequest ::
  "wire_stub option \<Rightarrow> message_entry \<Rightarrow> 'v wire_client \<Rightarrow> unit result \<times> 'v wire_client" where
  "AsyncProcessRequest stub m w =
     (case GetStub stub of
        Inl e \<Rightarrow> (Inl e, w)
      | Inr s \<Rightarrow> (stub_AsyncProcessRequest s m, happens [Request m] w))"

definition WireClientBase_AsyncClose ::
  "wire_stub option \<Rightarrow> bool \<Rightarrow> 'v wire_client \<Rightarrow> unit result \<times> 'v wire_client" where
  "WireClientBase_AsyncClose stub remote w =
     (if \<not> remote then
        (case AsyncProcessRequest stub
                (CreateMessageEntry_named MessageEntryType_WireDisconnectReq (m_MemberName w)) w of
           (Inl e, w) \<Rightarrow> (Inl e, w)
         | (Inr _, w) \<Rightarrow> (Inr (), w\<lparr>connection := None\<rparr>))
      else (Inr (), w\<lparr>connection := None\<rparr>))"

text \<open>\<open>parent_alive\<close>: the wire of the connection still exists.\<close>

definition WireConnectionBase_AsyncClose ::
  "bool \<Rightarrow> wire_stub option \<Rightarrow> nat \<Rightarrow> 'v wire_client \<Rightarrow> unit result \<times> 'v wire_client" where
  "WireConnectionBase_AsyncClose parent_alive stub i w =
     (let w = with_object i (\<lambda>c. c\<lparr>send_closed := True\<rparr>) w
      in if \<not> parent_alive
         then (throw_r InvalidOperationException ''Wire connection has been closed'', w)
         else
           (case WireClientBase_AsyncClose stub False w of
              (Inl e, w) \<Rightarrow> (Inl e, w)
            | (Inr _, w) \<Rightarrow> (Inr (), with_object i (\<lambda>c. c\<lparr>recv_closed := True\<rparr>) w)))"

definition RemoteClose ::
  "bool \<Rightarrow> (nat \<Rightarrow> listener_reply) \<Rightarrow> nat \<Rightarrow> 'v wire_client \<Rightarrow> 'v wire_client" where
  "RemoteClose parent_alive reply i w =
     (let w = with_object i (\<lambda>c. c\<lparr>send_closed := True, recv_closed := True\<rparr>) w;
          w = happens [ClosedCallback i] w
      in case WIRE_CONNECTION_LISTENER_ITER reply (wire_listeners (wire_objects w ! i)) of
           (called, ls) \<Rightarrow>
             (let w = happens (map (ClosedListener i) called) (with_object i (\<lambda>c. c\<lparr>wire_listeners := ls\<rparr>) w)
              in if parent_alive then snd (WireClientBase_AsyncClose None True w) else w))"

text \<open>\<open>WirePacketReceived\<close> of a connection, with its effects on the client's side.\<close>

definition object_receives ::
  "wire_node option \<Rightarrow> (nat \<Rightarrow> listener_reply) \<Rightarrow> nat \<Rightarrow> TimeSpec \<Rightarrow> 'v \<Rightarrow> 'v wire_client \<Rightarrow> 'v wire_client" where
  "object_receives node reply i timespec data w =
     (case WirePacketReceived node reply timespec data (wire_objects w ! i) of
        (called, fired, c) \<Rightarrow>
          happens (map (ValueListener i) called @ (if fired then [ValueChanged i data timespec] else []))
            (with_object i (\<lambda>_. c) w))"

text \<open>
  The handler of the packets of the service.  Exceptions are caught and logged; dereferencing a null
  pointer is not an exception.
\<close>

definition WireClientBase_WirePacketReceived ::
  "(MessageElement \<Rightarrow> 'a result) \<Rightarrow> wire_node option \<Rightarrow> wire_stub option \<Rightarrow> (nat \<Rightarrow> listener_reply)
   \<Rightarrow> message_entry \<Rightarrow> 'a pipe_value wire_client \<Rightarrow> 'a pipe_value wire_client result" where
  "WireClientBase_WirePacketReceived UnpackData node stub reply m w =
     (if EntryType m = MessageEntryType_WireClosed then
        (case connection w of
           None \<Rightarrow> Inl (UndefinedBehaviour ''null connection'')
         | Some i \<Rightarrow>
             (case GetNode node of
                Inl _ \<Rightarrow> Inr w
              | Inr _ \<Rightarrow>
                  (case WireConnectionBase_AsyncClose True stub i w of
                     (Inl _, w) \<Rightarrow> Inr w
                   | (Inr _, w) \<Rightarrow> Inr (w\<lparr>connection := None\<rparr>))))
      else if EntryType m = MessageEntryType_WirePacket_value then
        (case connection w of
           None \<Rightarrow> Inr w
         | Some i \<Rightarrow>
             (case UnpackPacket_wire UnpackData (client_raw w) m of
                Inl (UndefinedBehaviour s) \<Rightarrow> Inl (UndefinedBehaviour s)
              | Inl _ \<Rightarrow> Inr w
              | Inr (data, timespec) \<Rightarrow> Inr (object_receives node reply i timespec data w)))
      else Inr w)"

definition WireClientBase_Shutdown ::
  "(nat \<Rightarrow> listener_reply) \<Rightarrow> 'v wire_client \<Rightarrow> 'v wire_client" where
  "WireClientBase_Shutdown reply w =
     (case connection w of
        None \<Rightarrow> w
      | Some i \<Rightarrow>
          (case WireConnectionBase_Shutdown reply (wire_objects w ! i) of
             (told, c) \<Rightarrow>
               happens (ClosedCallback i # map (ClosedListener i) told) (with_object i (\<lambda>_. c) w)))"

definition WireClientBase_SendWirePacket ::
  "('a \<Rightarrow> MessageElementData option result) \<Rightarrow> wire_stub option \<Rightarrow> bool \<Rightarrow> string
   \<Rightarrow> 'a pipe_value \<Rightarrow> TimeSpec \<Rightarrow> message_entry result" where
  "WireClientBase_SendWirePacket PackData stub raw name packet time =
     bind_r (PackPacket_wire PackData raw name packet time) (\<lambda>m.
     bind_r (GetStub stub) (\<lambda>s.
     bind_r (stub_SendWireMessage s m) (\<lambda>_. Inr m)))"

text \<open>The user sets the value of one of the connections, which may be one that was let go.\<close>

definition object_sets_value ::
  "('a \<Rightarrow> MessageElementData option result) \<Rightarrow> wire_node option \<Rightarrow> bool \<Rightarrow> wire_stub option \<Rightarrow> nat
   \<Rightarrow> 'a pipe_value \<Rightarrow> 'a pipe_value wire_client \<Rightarrow> unit result \<times> 'a pipe_value wire_client" where
  "object_sets_value PackData node parent_alive stub i v w =
     (case SetOutValueBase node
             (\<lambda>v t _. if \<not> parent_alive
                then throw_r InvalidOperationException ''Wire connection has been closed''
                else WireClientBase_SendWirePacket PackData stub (client_raw w) (m_MemberName w) v t)
             v (wire_objects w ! i) of
        (Inl e, _) \<Rightarrow> (Inl e, w)
      | (Inr m, c) \<Rightarrow> (Inr (), happens [WireMessage m] (with_object i (\<lambda>_. c) w)))"

section \<open>Connecting\<close>

text \<open>
  \<open>AsyncConnect_internal\<close> rethrows what it caught as a plain \<open>std::exception\<close> (\<open>throw e\<close> of a
  reference to the base class); the class and the message are lost.
\<close>

datatype connect_start = Connect_requested | Connect_throws_std_exception

definition AsyncConnect_internal ::
  "wire_stub option \<Rightarrow> 'v wire_client \<Rightarrow> connect_start \<times> 'v wire_client" where
  "AsyncConnect_internal stub w =
     (case (if connection w \<noteq> None then (throw_r InvalidOperationException ''Already connected'', w)
            else AsyncProcessRequest stub
                   (CreateMessageEntry_named MessageEntryType_WireConnectReq (m_MemberName w)) w) of
        (Inr _, w) \<Rightarrow> (Connect_requested, w)
      | (Inl _, w) \<Rightarrow> (Connect_throws_std_exception, w\<lparr>connection := None\<rparr>))"

text \<open>
  The reply: what the user's handler gets, and the client.  Making the connection asks the wire for its
  node, which throws when that was released.
\<close>

definition AsyncConnect_internal1 ::
  "wire_node option \<Rightarrow> rr_error option \<Rightarrow> 'v wire_client \<Rightarrow> nat result \<times> 'v wire_client" where
  "AsyncConnect_internal1 node err w =
     (case err of
        Some e \<Rightarrow> (Inl e, w)
      | None \<Rightarrow>
          (if connection w \<noteq> None then (throw_r ServiceException ''Wire already connected'', w)
           else
             (case GetNode node of
                Inl e \<Rightarrow> (Inl e, w)
              | Inr _ \<Rightarrow>
                  (let i = length (wire_objects w)
                   in (Inr i, w\<lparr>wire_objects := wire_objects w @ [WireConnectionBase 0 (client_direction w)],
                                connection := Some i\<rparr>)))))"

section \<open>Peeking and poking\<close>

definition AsyncPeekInValueBase ::
  "wire_stub option \<Rightarrow> 'v wire_client \<Rightarrow> unit result \<times> 'v wire_client" where
  "AsyncPeekInValueBase stub w =
     AsyncProcessRequest stub (CreateMessageEntry_named MessageEntryType_WirePeekInValueReq (m_MemberName w)) w"

definition AsyncPeekOutValueBase ::
  "wire_stub option \<Rightarrow> 'v wire_client \<Rightarrow> unit result \<times> 'v wire_client" where
  "AsyncPeekOutValueBase stub w =
     AsyncProcessRequest stub (CreateMessageEntry_named MessageEntryType_WirePeekOutValueReq (m_MemberName w)) w"

text \<open>
  The exception object that a \<open>catch\<close> sees: one of the library with its message, or another one with
  its RTTI name and \<open>what()\<close>, an argument.
\<close>

definition caught :: "(rr_error \<Rightarrow> string \<times> string) \<Rightarrow> rr_error \<Rightarrow> 'p rr_exception" where
  "caught foreign e =
     (case e of
        Exn c msg \<Rightarrow> DownCastException (make_exception c '''' msg '''' None)
      | _ \<Rightarrow> (case foreign e of (type_name, what) \<Rightarrow> make_exception RobotRaconteurRemoteException type_name what '''' None))"

text \<open>What the handler of a peek is called with: a value, a time and an exception.\<close>

definition AsyncPeekValueBaseEnd1 ::
  "(MessageElement \<Rightarrow> 'p option result) \<Rightarrow> (MessageElement \<Rightarrow> 'a result) \<Rightarrow> (rr_error \<Rightarrow> string \<times> string)
   \<Rightarrow> bool \<Rightarrow> message_entry \<Rightarrow> 'p rr_exception option
   \<Rightarrow> ('a pipe_value option \<times> TimeSpec \<times> 'p rr_exception option) result" where
  "AsyncPeekValueBaseEnd1 UnpackVarType UnpackData foreign raw m err =
     (case err of
        Some e \<Rightarrow> Inr (None, TimeSpec_zero, Some e)
      | None \<Rightarrow>
          (if EntryError m \<noteq> 0
           then bind_r (MessageEntryToException UnpackVarType m) (\<lambda>e. Inr (None, TimeSpec_zero, Some e))
           else
             (case UnpackPacket_wire UnpackData raw m of
                Inr (data, ts) \<Rightarrow> Inr (Some data, ts, None)
              | Inl (UndefinedBehaviour s) \<Rightarrow> Inl (UndefinedBehaviour s)
              | Inl e \<Rightarrow> Inr (None, TimeSpec_zero, Some (caught foreign e)))))"

definition AsyncPokeValueBaseEnd ::
  "(MessageElement \<Rightarrow> 'p option result) \<Rightarrow> message_entry \<Rightarrow> 'p rr_exception option
   \<Rightarrow> 'p rr_exception option result" where
  "AsyncPokeValueBaseEnd UnpackVarType m err =
     (case err of
        Some e \<Rightarrow> Inr (Some e)
      | None \<Rightarrow>
          (if EntryError m \<noteq> 0 then bind_r (MessageEntryToException UnpackVarType m) (\<lambda>e. Inr (Some e))
           else Inr None))"

definition AsyncPokeOutValueBase ::
  "('a \<Rightarrow> MessageElementData option result) \<Rightarrow> wire_node option \<Rightarrow> wire_stub option \<Rightarrow> 'a pipe_value
   \<Rightarrow> 'a pipe_value wire_client \<Rightarrow> unit result \<times> 'a pipe_value wire_client" where
  "AsyncPokeOutValueBase PackData node stub v w =
     (case bind_r (GetNode node) (\<lambda>n.
             PackPacket_wire PackData (client_raw w) (m_MemberName w) v (NowTimeSpec n)) of
        Inl e \<Rightarrow> (Inl e, w)
      | Inr m \<Rightarrow>
          AsyncProcessRequest stub
            (m\<lparr>EntryType := MessageEntryType_WirePokeOutValueReq, EntryMetaData := ''''\<rparr>) w)"

section \<open>Runs of a client\<close>

text \<open>
  What may happen to a client: the user connects, the reply comes, an entry of the service arrives, the
  user closes or sets the value of a connection that was handed out, the wire is shut down.
\<close>

datatype 'a client_op =
    Connect | ConnectReply "rr_error option" | Arrives message_entry
  | Closes nat | Sets nat "'a pipe_value" | ShutsDown

record wire_env =
  env_node :: "wire_node option"
  env_stub :: "wire_stub option"
  env_reply :: "nat \<Rightarrow> listener_reply"

inductive client_step ::
  "('a \<Rightarrow> MessageElementData option result) \<Rightarrow> (MessageElement \<Rightarrow> 'a result)
   \<Rightarrow> 'a pipe_value wire_client \<Rightarrow> wire_env \<times> 'a client_op \<Rightarrow> 'a pipe_value wire_client \<Rightarrow> bool"
  for P U where
  step_connect: "AsyncConnect_internal (env_stub e) w = (r, w') \<Longrightarrow> client_step P U w (e, Connect) w'"
| step_reply: "AsyncConnect_internal1 (env_node e) err w = (r, w') \<Longrightarrow> client_step P U w (e, ConnectReply err) w'"
| step_arrives:
    "WireClientBase_WirePacketReceived U (env_node e) (env_stub e) (env_reply e) m w = Inr w' \<Longrightarrow>
     client_step P U w (e, Arrives m) w'"
| step_closes:
    "i < length (wire_objects w) \<Longrightarrow> WireConnectionBase_AsyncClose True (env_stub e) i w = (r, w') \<Longrightarrow>
     client_step P U w (e, Closes i) w'"
| step_sets:
    "i < length (wire_objects w) \<Longrightarrow> object_sets_value P (env_node e) True (env_stub e) i v w = (r, w') \<Longrightarrow>
     client_step P U w (e, Sets i v) w'"
| step_shuts_down: "client_step P U w (e, ShutsDown) (WireClientBase_Shutdown (env_reply e) w)"

inductive client_run ::
  "('a \<Rightarrow> MessageElementData option result) \<Rightarrow> (MessageElement \<Rightarrow> 'a result)
   \<Rightarrow> 'a pipe_value wire_client \<Rightarrow> (wire_env \<times> 'a client_op) list \<Rightarrow> 'a pipe_value wire_client \<Rightarrow> bool"
  for P U where
  run_nil: "client_run P U w [] w"
| run_step: "client_step P U w x w' \<Longrightarrow> client_run P U w' xs w'' \<Longrightarrow> client_run P U w (x # xs) w''"

inductive_cases client_step_cases: "client_step P U w x w'"

section \<open>What the operations leave alone\<close>

text \<open>The received value of a connection, and who is connected.\<close>

definition received :: "'v wire_client \<Rightarrow> nat \<Rightarrow> bool \<times> 'v option \<times> TimeSpec" where
  "received w i = (let c = wire_objects w ! i in (inval_valid c, inval c, lasttime_recv c))"

lemma received_with_object:
  assumes "\<And>c. (inval_valid (f c), inval (f c), lasttime_recv (f c)) = (inval_valid c, inval c, lasttime_recv c)"
  shows "received (with_object j f w) i = received w i"
proof (cases "i = j \<and> j < length (wire_objects w)")
  case True
  then show ?thesis using assms [of "wire_objects w ! j"] by (simp add: received_def with_object_def Let_def)
next
  case False
  then have "(wire_objects w)[j := x] ! i = wire_objects w ! i" for x
    by (cases "i = j") (simp_all add: list_update_beyond)
  then show ?thesis by (simp add: received_def with_object_def)
qed

lemma received_other [simp]: "i \<noteq> j \<Longrightarrow> received (with_object j f w) i = received w i"
  by (simp add: received_def with_object_def)

lemma received_happens [simp]: "received (happens es w) i = received w i"
  by (simp add: received_def happens_def)

lemma received_connection [simp]: "received (w\<lparr>connection := x\<rparr>) i = received w i"
  by (simp add: received_def)

lemma client_fields [simp]:
  "connection (with_object i f w) = connection w" "connection (happens es w) = connection w"
  "length (wire_objects (with_object i f w)) = length (wire_objects w)"
  "wire_objects (happens es w) = wire_objects w"
  by (simp_all add: with_object_def happens_def)

text \<open>\<open>keeps_off i w w'\<close>: \<open>i\<close> is not connected after the step either, and its value is untouched.\<close>

definition keeps_off :: "nat \<Rightarrow> 'v wire_client \<Rightarrow> 'v wire_client \<Rightarrow> bool" where
  "keeps_off i w w' \<longleftrightarrow> connection w' \<noteq> Some i \<and> received w' i = received w i
     \<and> length (wire_objects w) \<le> length (wire_objects w')"

lemma request_frame:
  assumes "AsyncProcessRequest stub m w = (r, w')"
  shows "w' = w \<or> w' = happens [Request m] w"
  using assms by (auto simp: AsyncProcessRequest_def split: sum.splits)

lemma parent_close_frame:
  assumes "WireClientBase_AsyncClose stub remote w = (r, w')"
  shows "wire_objects w' = wire_objects w" and "connection w' = connection w \<or> connection w' = None"
  using assms
  by (auto simp: WireClientBase_AsyncClose_def dest!: request_frame split: if_splits prod.splits sum.splits)

lemma close_frame:
  assumes "WireConnectionBase_AsyncClose alive stub j w = (r, w')"
  shows "received w' i = received w i" and "length (wire_objects w') = length (wire_objects w)"
    and "connection w' = connection w \<or> connection w' = None"
proof -
  let ?w = "with_object j (\<lambda>c. c\<lparr>send_closed := True\<rparr>) w"
  have r: "received ?w i = received w i" by (rule received_with_object) simp
  have "w' = ?w \<or> (\<exists>r w1. WireClientBase_AsyncClose stub False ?w = (r, w1)
      \<and> (w' = w1 \<or> w' = with_object j (\<lambda>c. c\<lparr>recv_closed := True\<rparr>) w1))"
    using assms
    by (auto simp: WireConnectionBase_AsyncClose_def Let_def split: if_splits prod.splits sum.splits)
  then consider "w' = ?w" | r1 w1 where "WireClientBase_AsyncClose stub False ?w = (r1, w1)"
      "w' = w1 \<or> w' = with_object j (\<lambda>c. c\<lparr>recv_closed := True\<rparr>) w1" by blast
  then have "received w' i = received ?w i \<and> length (wire_objects w') = length (wire_objects ?w)
    \<and> (connection w' = connection ?w \<or> connection w' = None)"
  proof cases
    case 2
    have "received w1 i = received ?w i"
      using parent_close_frame(1) [OF 2(1)] by (simp add: received_def)
    moreover have "received (with_object j (\<lambda>c. c\<lparr>recv_closed := True\<rparr>) w1) i = received w1 i"
      by (rule received_with_object) simp
    ultimately show ?thesis using 2(2) parent_close_frame [OF 2(1)] by auto
  qed simp
  with r show "received w' i = received w i" "length (wire_objects w') = length (wire_objects w)"
    "connection w' = connection w \<or> connection w' = None" by simp_all
qed

lemma close_keeps_off:
  assumes "WireConnectionBase_AsyncClose alive stub j w = (r, w')" and "connection w \<noteq> Some i"
  shows "keeps_off i w w'"
  using close_frame [OF assms(1)] assms(2) by (auto simp: keeps_off_def)

lemma receives_keeps_off:
  assumes "connection w \<noteq> Some i" and "connection w = Some j"
  shows "keeps_off i w (object_receives node reply j t v w)"
  using assms by (auto simp: keeps_off_def object_receives_def split: prod.split)

lemma sets_keeps_off:
  assumes "object_sets_value P node alive stub j v w = (r, w')" and "connection w \<noteq> Some i"
  shows "keeps_off i w w'"
proof (cases r)
  case (Inl e)
  then have "w' = w" using assms(1) by (auto simp: object_sets_value_def split: prod.splits sum.splits)
  with assms(2) show ?thesis by (simp add: keeps_off_def)
next
  case (Inr x)
  then obtain m c send where s: "SetOutValueBase node send v (wire_objects w ! j) = (Inr m, c)"
    and w': "w' = happens [WireMessage m] (with_object j (\<lambda>_. c) w)"
    using assms(1) unfolding object_sets_value_def by (auto split: prod.splits sum.splits)
  have c: "(inval_valid c, inval c, lasttime_recv c)
      = (inval_valid (wire_objects w ! j), inval (wire_objects w ! j), lasttime_recv (wire_objects w ! j))"
    using s by (auto simp: SetOutValueBase_def Let_def throw_r_def split: if_splits option.splits sum.splits)
  have "received (with_object j (\<lambda>_. c) w) i = received w i"
    using c by (cases "length (wire_objects w) \<le> j"; cases "i = j")
      (auto simp: received_def with_object_def Let_def list_update_beyond)
  with assms(2) show ?thesis by (simp add: w' keeps_off_def)
qed

lemma arrives_keeps_off:
  assumes "WireClientBase_WirePacketReceived U node stub reply m w = Inr w'" and "connection w \<noteq> Some i"
  shows "keeps_off i w w'"
proof -
  have refl: "keeps_off i w w" using assms(2) by (simp add: keeps_off_def)
  have drop: "keeps_off i w (u\<lparr>connection := None\<rparr>)" if "keeps_off i w u" for u
    using that by (simp add: keeps_off_def)
  have closed: "keeps_off i w u" if "WireConnectionBase_AsyncClose True stub j w = (r, u)" for j r u
    by (rule close_keeps_off [OF that assms(2)])
  show ?thesis
    using assms(1) refl drop closed receives_keeps_off [OF assms(2)]
    by (auto simp: WireClientBase_WirePacketReceived_def
        split: if_splits option.splits sum.splits prod.splits rr_error.splits)
qed

lemma step_keeps_off:
  assumes "client_step P U w x w'" and "i < length (wire_objects w)" and "connection w \<noteq> Some i"
  shows "keeps_off i w w'"
  using assms(1)
proof cases
  case (step_connect e r)
  then show ?thesis
    using assms(3)
    by (auto simp: keeps_off_def AsyncConnect_internal_def throw_r_def dest!: request_frame
        split: if_splits prod.splits sum.splits)
next
  case (step_reply e err r)
  then show ?thesis
    using assms(2,3)
    by (auto simp: keeps_off_def AsyncConnect_internal1_def throw_r_def received_def nth_append Let_def
        split: if_splits option.splits sum.splits)
next
  case (step_shuts_down e)
  have "received (WireClientBase_Shutdown (env_reply e) w) i = received w i"
    using assms(3) by (auto simp: WireClientBase_Shutdown_def split: option.split prod.split)
  then show ?thesis
    using step_shuts_down assms(3)
    by (auto simp: keeps_off_def WireClientBase_Shutdown_def split: option.split prod.split)
next
  case (step_arrives e m)
  from arrives_keeps_off [OF step_arrives(2) assms(3)] show ?thesis .
next
  case (step_closes j e r)
  from close_keeps_off [OF step_closes(3) assms(3)] show ?thesis .
next
  case (step_sets j e v r)
  from sets_keeps_off [OF step_sets(3) assms(3)] show ?thesis .
qed

lemma run_keeps_off:
  assumes "client_run P U w xs w'" and "i < length (wire_objects w)" and "connection w \<noteq> Some i"
  shows "keeps_off i w w'"
  using assms
proof induction
  case (run_nil w)
  then show ?case by (simp add: keeps_off_def)
next
  case (run_step w x w' xs w'')
  have "keeps_off i w w'" by (rule step_keeps_off [OF run_step.hyps(1) run_step.prems])
  moreover have "keeps_off i w' w''"
    by (rule run_step.IH) (use calculation run_step.prems in \<open>auto simp: keeps_off_def\<close>)
  ultimately show ?case by (auto simp: keeps_off_def)
qed

section \<open>The closed callback\<close>

definition told_closed :: "'v wire_client \<Rightarrow> nat set" where
  "told_closed w = {i. ClosedCallback i \<in> set (wire_events w)}"

lemma told_closed_simps [simp]:
  "told_closed (with_object i f w) = told_closed w"
  "told_closed (w\<lparr>connection := c\<rparr>) = told_closed w"
  "told_closed (w\<lparr>wire_objects := obs\<rparr>) = told_closed w"
  "told_closed (happens [Request m] w) = told_closed w"
  "told_closed (happens [WireMessage m] w) = told_closed w"
  "told_closed (happens (map (ValueListener i) ls @ (if b then [ValueChanged i v t] else [])) w) = told_closed w"
  by (auto simp: told_closed_def with_object_def happens_def)

lemma request_told: "AsyncProcessRequest stub m w = (r, w') \<Longrightarrow> told_closed w' = told_closed w"
  by (drule request_frame) auto

lemma parent_close_told:
  assumes "WireClientBase_AsyncClose stub remote w = (r, w')"
  shows "told_closed w' = told_closed w"
proof -
  obtain q u where u: "AsyncProcessRequest stub
      (CreateMessageEntry_named MessageEntryType_WireDisconnectReq (m_MemberName w)) w = (q, u)" by fastforce
  then have "w' = u \<or> w' = u\<lparr>connection := None\<rparr> \<or> w' = w\<lparr>connection := None\<rparr>"
    using assms unfolding WireClientBase_AsyncClose_def u by (cases remote; cases q) simp_all
  with request_told [OF u] show ?thesis by (elim disjE) simp_all
qed

lemma close_told:
  assumes "WireConnectionBase_AsyncClose alive stub j w = (r, w')"
  shows "told_closed w' = told_closed w"
proof -
  define w1 where "w1 = with_object j (\<lambda>c. c\<lparr>send_closed := True\<rparr>) w"
  obtain q u where u: "WireClientBase_AsyncClose stub False w1 = (q, u)" by fastforce
  from parent_close_told [OF u] have "told_closed u = told_closed w" by (simp add: w1_def)
  moreover have "told_closed w1 = told_closed w" by (simp add: w1_def)
  moreover have "w' = u \<or> w' = w1 \<or> w' = with_object j (\<lambda>c. c\<lparr>recv_closed := True\<rparr>) u"
    using assms unfolding WireConnectionBase_AsyncClose_def w1_def [symmetric] Let_def u
    by (cases alive; cases q) simp_all
  ultimately show ?thesis by (elim disjE) simp_all
qed

lemma arrives_told:
  assumes "WireClientBase_WirePacketReceived U node stub reply m w = Inr w'"
  shows "told_closed w' = told_closed w"
proof -
  have "told_closed (object_receives node reply i t v w) = told_closed w" for i t v
    by (simp add: object_receives_def split: prod.split)
  then show ?thesis
    using assms
    by (auto simp: WireClientBase_WirePacketReceived_def dest!: close_told
        split: if_splits option.splits sum.splits prod.splits rr_error.splits)
qed

lemma step_told:
  assumes "client_step P U w x w'" and "snd x \<noteq> ShutsDown"
  shows "told_closed w' = told_closed w"
  using assms(1)
proof cases
  case (step_connect e r)
  obtain q u where u: "AsyncProcessRequest (env_stub e)
      (CreateMessageEntry_named MessageEntryType_WireConnectReq (m_MemberName w)) w = (q, u)" by fastforce
  then have "w' = u \<or> w' = u\<lparr>connection := None\<rparr> \<or> w' = w\<lparr>connection := None\<rparr>"
    using step_connect(2) unfolding AsyncConnect_internal_def throw_r_def u
    by (cases "connection w"; cases q) simp_all
  with request_told [OF u] show ?thesis by (elim disjE) simp_all
next
  case (step_reply e err r)
  then show ?thesis
    by (auto simp: AsyncConnect_internal1_def throw_r_def Let_def split: if_splits option.splits sum.splits)
next
  case (step_arrives e m)
  from arrives_told [OF step_arrives(2)] show ?thesis .
next
  case (step_closes j e r)
  from close_told [OF step_closes(3)] show ?thesis .
next
  case (step_sets j e v r)
  then show ?thesis by (auto simp: object_sets_value_def split: prod.splits sum.splits)
next
  case (step_shuts_down e)
  with assms(2) show ?thesis by simp
qed

lemma run_told:
  assumes "client_run P U w xs w'" and "ShutsDown \<notin> snd ` set xs"
  shows "told_closed w' = told_closed w"
  using assms by induction (auto dest: step_told)

section \<open>Undefined behaviour\<close>

definition harmless :: "'x result \<Rightarrow> bool" where
  "harmless r \<longleftrightarrow> (\<forall>s. r \<noteq> Inl (UndefinedBehaviour s))"

lemma harmless_simps [simp]: "harmless (Inr x)" "harmless (throw_r c msg)"
  by (simp_all add: harmless_def throw_r_def)

lemma harmless_bind:
  "harmless m \<Longrightarrow> (\<And>x. m = Inr x \<Longrightarrow> harmless (k x)) \<Longrightarrow> harmless (bind_r m k)"
  by (cases m) (auto simp: harmless_def)

lemma harmless_parts:
  "harmless (FindElement es name)" "harmless (CastData_i64 x)" "harmless (CastData_i32 x)"
  "harmless (RRArrayToScalar v)" "harmless (CastDataToNestedList_type t x)"
  by (simp_all add: FindElement_def CastData_i64_def CastData_i32_def RRArrayToScalar_def
      CastDataToNestedList_type_def split: option.split list.split MessageElementData.split rr_array.split)

lemma nested_list_null:
  "CastDataToNestedList_type t x = Inr None \<longleftrightarrow> dat x = None"
  by (auto simp: CastDataToNestedList_type_def throw_r_def split: option.split MessageElementData.split)

lemma unpack_harmless:
  assumes "\<And>p. harmless (UnpackData p)"
  shows "harmless (UnpackPacket_wire UnpackData raw m) \<longleftrightarrow>
    \<not> (\<exists>pt. FindElement (elements m) ''packettime'' = Inr pt \<and> dat pt = None)"
proof (cases "\<exists>pt. FindElement (elements m) ''packettime'' = Inr pt \<and> dat pt = None")
  case True
  then obtain pt where "FindElement (elements m) ''packettime'' = Inr pt"
    "CastDataToNestedList_type DataTypes_structure_t pt = Inr None"
    using nested_list_null by blast
  then show ?thesis using True by (simp add: UnpackPacket_wire_def harmless_def)
next
  case False
  have last: "harmless (bind_r (if \<not> raw then bind_r (UnpackData p) (\<lambda>v. Inr (PackedValue v))
                 else Inr (RawElement p)) (\<lambda>data. Inr (data, t)))" for p t
    by (cases raw) (simp_all add: harmless_bind assms)
  have "harmless (UnpackPacket_wire UnpackData raw m)"
    unfolding UnpackPacket_wire_def
  proof (rule harmless_bind [OF harmless_parts(1)], rule harmless_bind [OF harmless_parts(5)])
    fix pt s assume "FindElement (elements m) ''packettime'' = Inr pt"
      "CastDataToNestedList_type DataTypes_structure_t pt = Inr s"
    with False have "s \<noteq> None" using nested_list_null [of DataTypes_structure_t pt] by auto
    then obtain t n es where s: "s = Some (t, n, es)" by auto
    show "harmless (case s of None \<Rightarrow> Inl (UndefinedBehaviour ''null element list'')
     | Some (_, _, es) \<Rightarrow>
         bind_r (FindElement es ''seconds'') (\<lambda>se.
         bind_r (CastData_i64 se) (\<lambda>sa.
         bind_r (RRArrayToScalar sa) (\<lambda>sec.
         bind_r (FindElement es ''nanoseconds'') (\<lambda>ne.
         bind_r (CastData_i32 ne) (\<lambda>na.
         bind_r (RRArrayToScalar na) (\<lambda>nanosec.
         bind_r (FindElement (elements m) ''packet'') (\<lambda>p.
         bind_r (if \<not> raw then bind_r (UnpackData p) (\<lambda>v. Inr (PackedValue v))
                 else Inr (RawElement p)) (\<lambda>data.
         Inr (data, TimeSpec_of sec nanosec))))))))))"
      unfolding s option.case prod.case
      by (rule harmless_bind [OF harmless_parts(1)], rule harmless_bind [OF harmless_parts(2)],
          rule harmless_bind [OF harmless_parts(4)], rule harmless_bind [OF harmless_parts(1)],
          rule harmless_bind [OF harmless_parts(3)], rule harmless_bind [OF harmless_parts(4)],
          rule harmless_bind [OF harmless_parts(1)], rule last)
  qed
  with False show ?thesis by blast
qed

section \<open>Properties\<close>

text \<open>
  C20: Connecting a wire that is connected throws a plain \<open>std::exception\<close> and drops the connection there
  is: no request goes out, so the service keeps sending, and whatever happens afterwards the user's
  connection is never connected again and never gets another value.
\<close>

theorem wire_connect_again_cuts_off:
  assumes "connection w = Some i" and "i < length (wire_objects w)"
    and "AsyncConnect_internal stub w = (r, w1)" and "client_run P U w1 xs w2"
  shows "r = Connect_throws_std_exception \<and> wire_events w1 = wire_events w
    \<and> connection w2 \<noteq> Some i \<and> received w2 i = received w i"
proof -
  have w1: "r = Connect_throws_std_exception" "w1 = w\<lparr>connection := None\<rparr>"
    using assms(1,3) by (auto simp: AsyncConnect_internal_def throw_r_def)
  have "keeps_off i w1 w2"
    by (rule run_keeps_off [OF assms(4)]) (use assms(2) in \<open>simp_all add: w1\<close>)
  then show ?thesis by (simp add: keeps_off_def w1)
qed

definition sample_client :: "32 word pipe_value wire_client" where
  "sample_client = (WireClientBase ''w'' MemberDefinition_Direction_both False)
     \<lparr>wire_objects := [WireConnectionBase 0 MemberDefinition_Direction_both], connection := Some 0\<rparr>"

definition sample_pack :: "32 word \<Rightarrow> MessageElementData option result" where
  "sample_pack v = Inr (Some (ArrayData (RRArray_uint32 [v])))"

definition sample_unpack :: "MessageElement \<Rightarrow> 32 word result" where
  "sample_unpack p = bind_r (CastData_u32 p) RRArrayToScalar"

definition sample_packet :: message_entry where
  "sample_packet = projr (PackPacket_wire sample_pack False ''w'' (PackedValue 42) \<lparr>seconds = 7, nanoseconds = 1\<rparr>)"

theorem wire_connect_again_cuts_off_witness:
  "let w1 = snd (AsyncConnect_internal None sample_client)
   in client_run sample_pack sample_unpack w1
        [(\<lparr>env_node = None, env_stub = None, env_reply = \<lambda>_. Returned\<rparr>, Arrives sample_packet)] w1
      \<and> connection w1 \<noteq> Some 0 \<and> received w1 0 = received sample_client 0"
proof -
  let ?w1 = "snd (AsyncConnect_internal None sample_client)"
  let ?x = "(\<lparr>env_node = None, env_stub = None, env_reply = \<lambda>_. Returned\<rparr>, Arrives sample_packet)"
  have "WireClientBase_WirePacketReceived sample_unpack None None (\<lambda>_. Returned) sample_packet ?w1 = Inr ?w1"
    by (simp add: AsyncConnect_internal_def sample_client_def throw_r_def WireClientBase_WirePacketReceived_def
        sample_packet_def sample_pack_def PackPacket_wire_def CreateMessageEntry_named_def CreateMessageEntry_def)
  then have run: "client_run sample_pack sample_unpack ?w1 [?x] ?w1"
    by (intro client_run.run_step [OF step_arrives, OF _ client_run.run_nil]) simp
  have "fst (AsyncConnect_internal None sample_client) = Connect_throws_std_exception
    \<and> wire_events ?w1 = wire_events sample_client
    \<and> connection ?w1 \<noteq> Some 0 \<and> received ?w1 0 = received sample_client 0"
    by (rule wire_connect_again_cuts_off [OF _ _ surjective_pairing run]) (simp_all add: sample_client_def)
  with run show ?thesis by (simp only: Let_def simp_thms)
qed



text \<open>
  C21: The user is not told when the service closes a wire: whatever happens to a client, in any order,
  short of shutting the wire down, the closed callback of no connection is ever called.
\<close>

theorem wire_close_is_silent:
  assumes "client_run P U (WireClientBase name d raw) xs w" and "ShutsDown \<notin> snd ` set xs"
  shows "ClosedCallback i \<notin> set (wire_events w)"
proof -
  have "told_closed w = {}"
    using run_told [OF assms] by (simp add: told_closed_def WireClientBase_def)
  then show ?thesis by (auto simp: told_closed_def)
qed

theorem wire_close_is_silent_witness:
  "let e = \<lparr>env_node = Some (sample_clock 7), env_stub = Some \<lparr>stub_AsyncProcessRequest = \<lambda>_. Inr (),
         stub_SendWireMessage = \<lambda>_. Inr ()\<rparr>, env_reply = \<lambda>_. Returned\<rparr>;
       w0 = WireClientBase ''w'' MemberDefinition_Direction_both False;
       w1 = snd (AsyncConnect_internal (env_stub e) w0);
       w2 = snd (AsyncConnect_internal1 (env_node e) None w1);
       w3 = projr (WireClientBase_WirePacketReceived sample_unpack (env_node e) (env_stub e) (env_reply e)
              (CreateMessageEntry_named MessageEntryType_WireClosed ''w'') w2)
   in connection w2 = Some 0 \<and> connection w3 = None \<and> ClosedCallback 0 \<notin> set (wire_events w3)"
proof -
  define e where "e = \<lparr>env_node = Some (sample_clock 7), env_stub = Some \<lparr>stub_AsyncProcessRequest = \<lambda>_. Inr (),
         stub_SendWireMessage = \<lambda>_. Inr ()\<rparr>, env_reply = \<lambda>_. Returned\<rparr>"
  define w0 :: "32 word pipe_value wire_client"
    where "w0 = WireClientBase ''w'' MemberDefinition_Direction_both False"
  define w1 where "w1 = snd (AsyncConnect_internal (env_stub e) w0)"
  define w2 where "w2 = snd (AsyncConnect_internal1 (env_node e) None w1)"
  define m where "m = CreateMessageEntry_named MessageEntryType_WireClosed ''w''"
  define w3 where "w3 = projr (WireClientBase_WirePacketReceived sample_unpack (env_node e) (env_stub e) (env_reply e) m w2)"
  have w2: "connection w2 = Some 0"
    by (simp add: w2_def w1_def w0_def e_def WireClientBase_def AsyncConnect_internal_def
        AsyncProcessRequest_def GetStub_def AsyncConnect_internal1_def GetNode_def happens_def Let_def)
  have r: "WireClientBase_WirePacketReceived sample_unpack (env_node e) (env_stub e) (env_reply e) m w2 = Inr w3"
    and w3: "connection w3 = None"
    using w2
    by (simp_all add: w3_def m_def CreateMessageEntry_named_def CreateMessageEntry_def e_def GetNode_def GetStub_def
        WireClientBase_WirePacketReceived_def WireConnectionBase_AsyncClose_def WireClientBase_AsyncClose_def
        AsyncProcessRequest_def Let_def)
  have "client_run sample_pack sample_unpack w0 [(e, Connect), (e, ConnectReply None), (e, Arrives m)] w3"
    by (rule client_run.run_step [OF step_connect client_run.run_step [OF step_reply
          client_run.run_step [OF step_arrives [OF r] client_run.run_nil]]])
      (simp_all add: w1_def w2_def prod_eq_iff)
  then have "ClosedCallback 0 \<notin> set (wire_events w3)"
    unfolding w0_def by (rule wire_close_is_silent) simp
  with w2 w3 show ?thesis
    unfolding Let_def w3_def w2_def w1_def w0_def e_def m_def by blast
qed

end
